(* ===== verification/Prelude.thy ===== *)
theory Prelude
  imports Main "HOL-Library.Sublist"
begin

text \<open>
  The part of the Go language and of its standard library that the modelled code uses, and the
  lemmas the components share.

  \<^item> Machine integers. Go's \<open>int\<close> and \<open>int64\<close> are 64-bit two's complement and wrap around
    silently. They are integers here, and every operation of the code that can leave the range is
    written with \<open>wrap64\<close>.
  \<^item> Panics. An integer division by zero stops the program; a function of the code that can do so
    returns \<open>go_panic + 'a\<close>.
  \<^item> Strings. A Go string is a sequence of bytes; \<open>string\<close> is a list of 8-bit characters, so
    \<open>length\<close> counts bytes. The functions of package \<open>strings\<close> that look at white space or at
    letter case know the UTF-8 encodings that matter to them.
  \<^item> \<open>(value, bool)\<close> results are \<open>option\<close>s, \<open>(value, error)\<close> results are sums with the error
    on the left.
\<close>

named_theorems go_simps \<open>unfolding rules for the Go standard library\<close>

section \<open>Machine integers\<close>

definition wrap64 :: "int \<Rightarrow> int" where
  "wrap64 i = (i + 2 ^ 63) mod 2 ^ 64 - 2 ^ 63"

definition in_int64 :: "int \<Rightarrow> bool" where
  "in_int64 i \<longleftrightarrow> - (2 ^ 63) \<le> i \<and> i < 2 ^ 63"

lemma wrap64_id [simp]: "in_int64 i \<Longrightarrow> wrap64 i = i"
  by (simp add: in_int64_def wrap64_def)

lemma wrap64_range [intro, simp]: "in_int64 (wrap64 i)"
  by (simp add: in_int64_def wrap64_def)

lemma in_int64_nonneg: "0 \<le> i \<Longrightarrow> i < 2 ^ 63 \<Longrightarrow> in_int64 i"
  by (simp add: in_int64_def)

lemma in_int64_le: "in_int64 j \<Longrightarrow> 0 \<le> i \<Longrightarrow> i \<le> j \<Longrightarrow> in_int64 i"
  by (simp add: in_int64_def)

text \<open>Go's \<open>/\<close> on integers truncates towards zero.\<close>

definition go_quot :: "int \<Rightarrow> int \<Rightarrow> int" where
  "go_quot a b = sgn a * sgn b * (\<bar>a\<bar> div \<bar>b\<bar>)"

lemma go_quot_nonneg [simp]: "0 \<le> a \<Longrightarrow> 0 < b \<Longrightarrow> go_quot a b = a div b"
  by (cases "a = 0") (simp_all add: go_quot_def)

datatype go_panic = DivideByZero

section \<open>Package strings\<close>

definition has_prefix :: "string \<Rightarrow> string \<Rightarrow> bool" where
  "has_prefix s p = prefix p s"

definition has_suffix :: "string \<Rightarrow> string \<Rightarrow> bool" where
  "has_suffix s p = suffix p s"

definition trim_prefix :: "string \<Rightarrow> string \<Rightarrow> string" where
  "trim_prefix s p = (if has_prefix s p then drop (length p) s else s)"

text \<open>\<open>strings.CutPrefix\<close>: \<open>None\<close> is \<open>found == false\<close>.\<close>

definition cut_prefix :: "string \<Rightarrow> string \<Rightarrow> string option" where
  "cut_prefix s p = (if has_prefix s p then Some (drop (length p) s) else None)"

text \<open>\<open>strings.IndexByte\<close>: \<open>None\<close> is Go's \<open>-1\<close>.\<close>

fun index_byte :: "string \<Rightarrow> char \<Rightarrow> nat option" where
  "index_byte [] c = None"
| "index_byte (x # xs) c = (if x = c then Some 0 else map_option Suc (index_byte xs c))"

fun contains :: "string \<Rightarrow> string \<Rightarrow> bool" where
  "contains [] p = (p = [])"
| "contains (x # xs) p = (has_prefix (x # xs) p \<or> contains xs p)"

text \<open>\<open>strings.Split\<close> with a one-byte separator.\<close>

fun split_on :: "char \<Rightarrow> string \<Rightarrow> string list" where
  "split_on c [] = [[]]"
| "split_on c (x # xs) =
     (if x = c then [] # split_on c xs
      else case split_on c xs of [] \<Rightarrow> [[x]] | w # ws \<Rightarrow> (x # w) # ws)"

fun join_with :: "string \<Rightarrow> string list \<Rightarrow> string" where
  "join_with sep [] = []"
| "join_with sep [w] = w"
| "join_with sep (w # v # ws) = w @ sep @ join_with sep (v # ws)"

text \<open>\<open>strings.Cut\<close> around the first occurrence of a separator.\<close>

fun cut :: "string \<Rightarrow> string \<Rightarrow> (string \<times> string) option" where
  "cut [] p = (if p = [] then Some ([], []) else None)"
| "cut (x # xs) p =
     (if has_prefix (x # xs) p then Some ([], drop (length p) (x # xs))
      else map_option (\<lambda>(b, a). (x # b, a)) (cut xs p))"

text \<open>
  The UTF-8 encodings of the runes \<open>unicode.IsSpace\<close> accepts: the ASCII blanks, NEL, NBSP and the
  space separators of the higher planes. An encoding is never a proper part of another rune's, so
  cutting one off an end of a string is what \<open>strings.TrimSpace\<close> does.
\<close>

definition space_runes :: "string list" where
  "space_runes =
     [[CHR 0x09], [CHR 0x0A], [CHR 0x0B], [CHR 0x0C], [CHR 0x0D], [CHR 0x20],
      [CHR 0xC2, CHR 0x85], [CHR 0xC2, CHR 0xA0], [CHR 0xE1, CHR 0x9A, CHR 0x80],
      [CHR 0xE2, CHR 0x80, CHR 0x80], [CHR 0xE2, CHR 0x80, CHR 0x81],
      [CHR 0xE2, CHR 0x80, CHR 0x82], [CHR 0xE2, CHR 0x80, CHR 0x83],
      [CHR 0xE2, CHR 0x80, CHR 0x84], [CHR 0xE2, CHR 0x80, CHR 0x85],
      [CHR 0xE2, CHR 0x80, CHR 0x86], [CHR 0xE2, CHR 0x80, CHR 0x87],
      [CHR 0xE2, CHR 0x80, CHR 0x88], [CHR 0xE2, CHR 0x80, CHR 0x89],
      [CHR 0xE2, CHR 0x80, CHR 0x8A], [CHR 0xE2, CHR 0x80, CHR 0xA8],
      [CHR 0xE2, CHR 0x80, CHR 0xA9], [CHR 0xE2, CHR 0x80, CHR 0xAF],
      [CHR 0xE2, CHR 0x81, CHR 0x9F], [CHR 0xE3, CHR 0x80, CHR 0x80]]"

lemma space_runes_nonempty: "p \<in> set space_runes \<Longrightarrow> p \<noteq> []"
  by (auto simp: space_runes_def)

definition leading_space :: "string \<Rightarrow> string option" where
  "leading_space s = find (has_prefix s) space_runes"

lemma leading_space_SomeD:
  "leading_space s = Some p \<Longrightarrow> p \<noteq> [] \<and> prefix p s"
  by (auto simp: leading_space_def find_Some_iff has_prefix_def dest: space_runes_nonempty nth_mem)

function trim_left :: "string \<Rightarrow> string" where
  "trim_left s = (case leading_space s of None \<Rightarrow> s | Some p \<Rightarrow> trim_left (drop (length p) s))"
  by pat_completeness auto
termination
  by (relation "measure length")
    (auto dest!: leading_space_SomeD simp: prefix_def)

declare trim_left.simps [simp del]

definition trailing_space :: "string \<Rightarrow> string option" where
  "trailing_space s = find (has_suffix s) space_runes"

lemma trailing_space_SomeD:
  "trailing_space s = Some p \<Longrightarrow> p \<noteq> [] \<and> suffix p s"
  by (auto simp: trailing_space_def find_Some_iff has_suffix_def dest: space_runes_nonempty nth_mem)

function trim_right :: "string \<Rightarrow> string" where
  "trim_right s =
     (case trailing_space s of None \<Rightarrow> s | Some p \<Rightarrow> trim_right (take (length s - length p) s))"
  by pat_completeness auto
termination
  by (relation "measure length")
    (auto dest!: trailing_space_SomeD simp: suffix_def)

declare trim_right.simps [simp del]

definition trim_space :: "string \<Rightarrow> string" where
  "trim_space s = trim_right (trim_left s)"

lemma trim_left_Nil [simp]: "trim_left [] = []"
  by (subst trim_left.simps) (simp add: leading_space_def has_prefix_def space_runes_def)

lemma trim_right_Nil [simp]: "trim_right [] = []"
  by (subst trim_right.simps) (simp add: trailing_space_def has_suffix_def space_runes_def)

lemma trim_space_Nil [simp]: "trim_space [] = []"
  by (simp add: trim_space_def)

section \<open>Package strconv\<close>

definition is_digit :: "char \<Rightarrow> bool" where
  "is_digit c \<longleftrightarrow> 48 \<le> (of_char c :: nat) \<and> (of_char c :: nat) \<le> 57"

definition digit_val :: "char \<Rightarrow> int" where
  "digit_val c = of_char c - 48"

definition digits_val :: "string \<Rightarrow> int" where
  "digits_val ds = foldl (\<lambda>n c. 10 * n + digit_val c) 0 ds"

text \<open>
  \<open>strconv.Atoi\<close>, which on a 64-bit platform is \<open>strconv.ParseInt(s, 10, 64)\<close>: an optional sign,
  at least one decimal digit and nothing else, and a value inside the range. \<open>None\<close> is an error.
\<close>

definition atoi :: "string \<Rightarrow> int option" where
  "atoi s =
     (let neg = (s \<noteq> [] \<and> hd s = CHR ''-'');
          ds = (if s \<noteq> [] \<and> (hd s = CHR ''-'' \<or> hd s = CHR ''+'') then tl s else s)
      in if ds = [] \<or> \<not> list_all is_digit ds then None
         else let v = (if neg then - digits_val ds else digits_val ds)
              in if in_int64 v then Some v else None)"

lemma atoi_range: "atoi s = Some n \<Longrightarrow> in_int64 n"
  by (auto simp: atoi_def Let_def split: if_splits)

section \<open>Lists and options\<close>

lemma index_byte_None: "index_byte s c = None \<longleftrightarrow> c \<notin> set s"
  by (induction s) auto

lemma index_byte_Some:
  "index_byte s c = Some n \<Longrightarrow> s = take n s @ c # drop (Suc n) s \<and> n < length s \<and> c \<notin> set (take n s)"
proof (induction s arbitrary: n)
  case Nil
  then show ?case by simp
next
  case (Cons x xs)
  then show ?case by (cases n) (auto split: if_splits)
qed

lemma split_on_nonempty [simp]: "split_on c s \<noteq> []"
  by (induction s) (auto split: list.splits)

lemma join_with_Cons_Cons: "join_with sep ((x # w) # ws) = x # join_with sep (w # ws)"
  by (cases ws) auto

lemma join_split_on: "join_with [c] (split_on c s) = s"
proof (induction s)
  case Nil
  then show ?case by simp
next
  case (Cons x xs)
  then show ?case
    by (cases "split_on c xs") (auto simp: join_with_Cons_Cons neq_Nil_conv)
qed

section \<open>White space\<close>

text \<open>A string \<open>strings.TrimSpace\<close> leaves as it is.\<close>

definition trimmed :: "string \<Rightarrow> bool" where
  "trimmed w \<longleftrightarrow> leading_space w = None \<and> trailing_space w = None"

lemma trimmed_trim_space: "trimmed w \<Longrightarrow> trim_space w = w"
  by (simp add: trimmed_def trim_space_def trim_left.simps [of w] trim_right.simps [of w])

lemma space_rune_ending:
  "p \<in> set space_runes \<Longrightarrow> last p = CHR 0x0A \<longleftrightarrow> p = [CHR 0x0A]"
proof -
  have "list_all (\<lambda>p. (last p = CHR 0x0A) = (p = [CHR 0x0A])) space_runes" by code_simp
  then show ?thesis if "p \<in> set space_runes" using that by (simp add: list_all_iff)
qed

lemma find_unique:
  assumes "x \<in> set xs" "P x" "\<And>y. y \<in> set xs \<Longrightarrow> P y \<Longrightarrow> y = x"
  shows "find P xs = Some x"
proof (cases "find P xs")
  case None
  then show ?thesis using assms(1,2) by (simp add: find_None_iff)
next
  case (Some y)
  then have "y \<in> set xs" "P y" by (auto simp: find_Some_iff)
  then have "y = x" by (rule assms(3))
  then show ?thesis using Some by simp
qed

lemma trailing_space_newline: "trailing_space (w @ [CHR 0x0A]) = Some [CHR 0x0A]"
  unfolding trailing_space_def
proof (rule find_unique)
  show "[CHR 0x0A] \<in> set space_runes" by (simp add: space_runes_def)
  show "has_suffix (w @ [CHR 0x0A]) [CHR 0x0A]" by (simp add: has_suffix_def)
next
  fix y
  assume y: "y \<in> set space_runes" "has_suffix (w @ [CHR 0x0A]) y"
  then have "y \<noteq> []" using space_runes_nonempty by simp
  moreover from y(2) obtain zs where "w @ [CHR 0x0A] = zs @ y" by (auto simp: has_suffix_def suffix_def)
  ultimately have "last y = CHR 0x0A" by (metis last_appendR last_snoc)
  then show "y = [CHR 0x0A]" using y(1) space_rune_ending by simp
qed

lemma leading_space_newline:
  assumes "leading_space w = None" "w \<noteq> []"
  shows "leading_space (w @ [CHR 0x0A]) = None"
  unfolding leading_space_def find_None_iff
proof
  assume "\<exists>x. x \<in> set space_runes \<and> has_prefix (w @ [CHR 0x0A]) x"
  then obtain x where x: "x \<in> set space_runes" "prefix x (w @ [CHR 0x0A])" by (auto simp: has_prefix_def)
  then show False
    using assms space_rune_ending [OF x(1)]
    by (auto simp: prefix_snoc leading_space_def find_None_iff has_prefix_def)
qed

lemma trim_space_line:
  assumes "trimmed w" "w \<noteq> []"
  shows "trim_space (w @ [CHR 0x0A]) = w"
  using assms leading_space_newline [of w]
  by (simp add: trimmed_def trim_space_def trim_left.simps [of "w @ [CHR 0x0A]"]
      trim_right.simps [of "w @ [CHR 0x0A]"] trailing_space_newline trim_right.simps [of w])

text \<open>A string of printable ASCII at both ends is trimmed.\<close>

definition graphic :: "char \<Rightarrow> bool" where
  "graphic c \<longleftrightarrow> 33 \<le> (of_char c :: nat) \<and> (of_char c :: nat) \<le> 126"

lemma space_rune_ends:
  "p \<in> set space_runes \<Longrightarrow> \<not> graphic (hd p) \<and> \<not> graphic (last p)"
proof -
  have "list_all (\<lambda>p. \<not> graphic (hd p) \<and> \<not> graphic (last p)) space_runes" by code_simp
  then show ?thesis if "p \<in> set space_runes" using that by (simp add: list_all_iff)
qed

lemma graphic_trimmed: "w \<noteq> [] \<Longrightarrow> graphic (hd w) \<Longrightarrow> graphic (last w) \<Longrightarrow> trimmed w"
proof -
  assume w: "w \<noteq> []" "graphic (hd w)" "graphic (last w)"
  have "\<not> prefix x w \<and> \<not> suffix x w" if "x \<in> set space_runes" for x
    using space_rune_ends [OF that] space_runes_nonempty [OF that] w
    by (auto simp: prefix_def suffix_def)
  then show ?thesis
    by (auto simp: trimmed_def leading_space_def trailing_space_def find_None_iff has_prefix_def
        has_suffix_def)
qed

lemma split_on_none: "c \<notin> set w \<Longrightarrow> split_on c w = [w]"
  by (induction w) auto

lemma split_on_append: "c \<notin> set w \<Longrightarrow> split_on c (w @ c # r) = w # split_on c r"
  by (induction w) auto

lemma split_join_with:
  "ws \<noteq> [] \<Longrightarrow> \<forall>w \<in> set ws. c \<notin> set w \<Longrightarrow> split_on c (join_with [c] ws) = ws"
proof (induction ws)
  case (Cons w ws)
  then show ?case by (cases ws) (auto simp: split_on_none split_on_append)
qed simp

section \<open>Printing integers\<close>

fun nat_digits :: "nat \<Rightarrow> string" where
  "nat_digits n = (if n < 10 then [char_of (48 + n)] else nat_digits (n div 10) @ [char_of (48 + n mod 10)])"

declare nat_digits.simps [simp del]

text \<open>\<open>%d\<close>\<close>

definition itoa :: "int \<Rightarrow> string" where
  "itoa i = (if i < 0 then CHR ''-'' # nat_digits (nat (- i)) else nat_digits (nat i))"

lemma of_char_digit: "n < 10 \<Longrightarrow> (of_char (char_of (48 + n) :: char) :: nat) = 48 + n"
  by simp

lemma nat_digits_digits: "list_all is_digit (nat_digits n)"
proof (induction n rule: nat_digits.induct)
  case (1 n)
  have "n mod 10 \<le> 9" using pos_mod_bound [of "10 :: int"] by (simp add: less_Suc_eq_le [symmetric])
  with 1 show ?case by (subst nat_digits.simps) (simp add: is_digit_def [of "char_of _"] of_char_digit)
qed

lemma nat_digits_nonempty [simp]: "nat_digits n \<noteq> []"
  by (subst nat_digits.simps) simp

lemma digit_graphic: "is_digit c \<Longrightarrow> graphic c"
  by (simp add: is_digit_def graphic_def)

lemma itoa_trimmed: "trimmed (itoa i)" "trimmed (itoa i @ ''.1'')"
proof -
  have all: "list_all graphic (itoa i)" and ne: "itoa i \<noteq> []"
    using nat_digits_digits by (auto simp: itoa_def list_all_iff digit_graphic, simp add: graphic_def)
  then show "trimmed (itoa i)"
    by (intro graphic_trimmed) (auto simp: list_all_iff)
  show "trimmed (itoa i @ ''.1'')"
    using all ne by (intro graphic_trimmed) (auto simp: list_all_iff graphic_def)
qed

text \<open>A printed number reads back as it.\<close>

lemma digits_val_snoc: "digits_val (ds @ [c]) = 10 * digits_val ds + digit_val c"
  by (simp add: digits_val_def)

lemma digits_val_nat_digits [simp]: "digits_val (nat_digits n) = int n"
proof (induction n rule: nat_digits.induct)
  case (1 n)
  have small: "digit_val (char_of (48 + k)) = int k" if "k < 10" for k :: nat
  proof -
    have "(of_char (char_of (48 + k) :: char) :: int) = int (of_char (char_of (48 + k) :: char))"
      by (simp only: of_nat_of_char)
    then show ?thesis using of_char_digit [OF that] by (simp only: digit_val_def)
  qed
  show ?case
  proof (cases "n < 10")
    case True
    then show ?thesis by (subst nat_digits.simps) (simp add: digits_val_def small)
  next
    case False
    have "digits_val (nat_digits n) = 10 * int (n div 10) + int (n mod 10)"
      using False 1 by (subst nat_digits.simps) (simp add: digits_val_snoc small)
    also have "\<dots> = int (10 * (n div 10) + n mod 10)" by (simp only: of_nat_add of_nat_mult)
    finally show ?thesis by (simp only: mult_div_mod_eq)
  qed
qed

lemma atoi_nat_digits: "in_int64 (int n) \<Longrightarrow> atoi (nat_digits n) = Some (int n)"
proof -
  assume r: "in_int64 (int n)"
  have "is_digit (hd (nat_digits n))"
    using nat_digits_digits [of n] by (cases "nat_digits n") auto
  then have "hd (nat_digits n) \<noteq> CHR ''-''" "hd (nat_digits n) \<noteq> CHR ''+''"
    by (auto simp: is_digit_def)
  then show ?thesis using r nat_digits_digits [of n] by (simp add: atoi_def Let_def)
qed

lemma atoi_itoa: "in_int64 i \<Longrightarrow> atoi (itoa i) = Some i"
proof (cases "i < 0")
  case True
  moreover assume "in_int64 i"
  ultimately show ?thesis using nat_digits_digits [of "nat (- i)"]
    by (simp add: itoa_def atoi_def Let_def)
next
  case False
  moreover assume "in_int64 i"
  ultimately show ?thesis using atoi_nat_digits [of "nat i"] by (simp add: itoa_def)
qed

end
