(* ===== verification/Json.thy ===== *)
theory Json
  imports Prelude
begin

text \<open>
  What the code uses of \<open>encoding/json\<close>: reading a value, and storing the fields of an object into
  a struct. The scanner is the automaton of the package, with its stack of open containers and its
  nesting limit, run over a token list; it is structurally recursive. Numbers keep their literal.
  A byte above 127 inside a string is copied as it is, which is what the package does with valid
  UTF-8.
\<close>

datatype json =
    JNull | JBool bool | JNum string | JStr string | JArr "json list" | JObj "(string \<times> json) list"

section \<open>Tokens\<close>

definition utf8_encode :: "nat \<Rightarrow> string" where
  "utf8_encode r =
     (if r < 128 then [char_of r]
      else if r < 2048 then [char_of (192 + r div 64), char_of (128 + r mod 64)]
      else if r < 65536 then
        [char_of (224 + r div 4096), char_of (128 + r div 64 mod 64), char_of (128 + r mod 64)]
      else [char_of (240 + r div 262144), char_of (128 + r div 4096 mod 64),
            char_of (128 + r div 64 mod 64), char_of (128 + r mod 64)])"

definition hex_val :: "char \<Rightarrow> nat option" where
  "hex_val c =
     (let n = of_char c :: nat
      in if 48 \<le> n \<and> n \<le> 57 then Some (n - 48)
         else if 97 \<le> n \<and> n \<le> 102 then Some (n - 87)
         else if 65 \<le> n \<and> n \<le> 70 then Some (n - 55)
         else None)"

definition hex4 :: "char \<Rightarrow> char \<Rightarrow> char \<Rightarrow> char \<Rightarrow> nat option" where
  "hex4 a b c d =
     (case (hex_val a, hex_val b, hex_val c, hex_val d) of
        (Some i, Some j, Some k, Some l) \<Rightarrow> Some (4096 * i + 256 * j + 16 * k + l)
      | _ \<Rightarrow> None)"

text \<open>A string literal is a sequence of bytes and of UTF-16 code units written as escapes.\<close>

datatype str_item = SByte char | SUnit nat

definition simple_escape :: "char \<Rightarrow> char option" where
  "simple_escape e = map_of
     [(CHR 0x22, CHR 0x22), (CHR 0x5C, CHR 0x5C), (CHR ''/'', CHR ''/''), (CHR ''b'', CHR 0x08),
      (CHR ''f'', CHR 0x0C), (CHR ''n'', CHR 0x0A), (CHR ''r'', CHR 0x0D), (CHR ''t'', CHR 0x09)] e"

fun lex_string :: "string \<Rightarrow> (str_item list \<times> string) option" where
  "lex_string [] = None"
| "lex_string (c # cs) =
     (if c = CHR 0x22 then Some ([], cs)
      else if c = CHR 0x5C then
        (case cs of
           [] \<Rightarrow> None
         | e # r \<Rightarrow>
             if e = CHR ''u'' then
               (case r of
                  h1 # h2 # h3 # h4 # r' \<Rightarrow>
                    (case hex4 h1 h2 h3 h4 of
                       None \<Rightarrow> None
                     | Some u \<Rightarrow> map_option (apfst (Cons (SUnit u))) (lex_string r'))
                | _ \<Rightarrow> None)
             else
               (case simple_escape e of
                  None \<Rightarrow> None
                | Some b \<Rightarrow> map_option (apfst (Cons (SByte b))) (lex_string r)))
      else if (of_char c :: nat) < 32 then None
      else map_option (apfst (Cons (SByte c))) (lex_string cs))"

text \<open>A high surrogate needs its low half behind it; a lone one becomes U+FFFD.\<close>

fun decode_items :: "str_item list \<Rightarrow> string" where
  "decode_items [] = []"
| "decode_items (SByte b # r) = b # decode_items r"
| "decode_items (SUnit u # SUnit v # r) =
     (if 0xD800 \<le> u \<and> u < 0xDC00 \<and> 0xDC00 \<le> v \<and> v < 0xE000
      then utf8_encode (0x10000 + (u - 0xD800) * 0x400 + (v - 0xDC00)) @ decode_items r
      else utf8_encode (if 0xD800 \<le> u \<and> u < 0xE000 then 0xFFFD else u) @ decode_items (SUnit v # r))"
| "decode_items (SUnit u # r) =
     utf8_encode (if 0xD800 \<le> u \<and> u < 0xE000 then 0xFFFD else u) @ decode_items r"

datatype jtok = TLBrace | TRBrace | TLBrack | TRBrack | TColon | TComma | TScalar json

definition number_char :: "char \<Rightarrow> bool" where
  "number_char c \<longleftrightarrow> is_digit c \<or> c \<in> set ''+-.eE''"

definition all_digits1 :: "string \<Rightarrow> bool" where
  "all_digits1 s \<longleftrightarrow> s \<noteq> [] \<and> list_all is_digit s"

definition valid_exponent :: "string \<Rightarrow> bool" where
  "valid_exponent s =
     (case s of
        [] \<Rightarrow> True
      | e # r \<Rightarrow> (e = CHR ''e'' \<or> e = CHR ''E'') \<and>
          all_digits1 (case r of [] \<Rightarrow> [] | x # r' \<Rightarrow> if x = CHR ''+'' \<or> x = CHR ''-'' then r' else r))"

definition valid_number :: "string \<Rightarrow> bool" where
  "valid_number s =
     (let t = (case s of [] \<Rightarrow> [] | c # r \<Rightarrow> if c = CHR ''-'' then r else s);
          ip = takeWhile is_digit t;
          rest = dropWhile is_digit t
      in ip \<noteq> [] \<and> (hd ip = CHR ''0'' \<longrightarrow> length ip = 1) \<and>
         (case rest of
            [] \<Rightarrow> True
          | c # r \<Rightarrow>
              if c = CHR ''.'' then takeWhile is_digit r \<noteq> [] \<and> valid_exponent (dropWhile is_digit r)
              else valid_exponent rest))"

lemma lex_string_shorter:
  "lex_string s = Some (t, r) \<Longrightarrow> length r < length s"
  by (induction s arbitrary: t rule: lex_string.induct)
    (fastforce split: if_splits option.splits list.splits)+

definition json_space :: "char \<Rightarrow> bool" where
  "json_space c \<longleftrightarrow> c \<in> {CHR 0x20, CHR 0x09, CHR 0x0A, CHR 0x0D}"

definition punct :: "char \<Rightarrow> jtok option" where
  "punct c = map_of
     [(CHR 0x7B, TLBrace), (CHR 0x7D, TRBrace), (CHR ''['', TLBrack), (CHR '']'', TRBrack),
      (CHR '':'', TColon), (CHR '','', TComma)] c"

function lex_json :: "string \<Rightarrow> jtok list option" where
  "lex_json [] = Some []"
| "lex_json (c # cs) =
     (if json_space c then lex_json cs
      else if punct c \<noteq> None then map_option (Cons (the (punct c))) (lex_json cs)
      else if c = CHR 0x22 then
        (case lex_string cs of
           None \<Rightarrow> None
         | Some (items, r) \<Rightarrow> map_option (Cons (TScalar (JStr (decode_items items)))) (lex_json r))
      else if has_prefix (c # cs) ''null'' then
        map_option (Cons (TScalar JNull)) (lex_json (drop 3 cs))
      else if has_prefix (c # cs) ''true'' then
        map_option (Cons (TScalar (JBool True))) (lex_json (drop 3 cs))
      else if has_prefix (c # cs) ''false'' then
        map_option (Cons (TScalar (JBool False))) (lex_json (drop 4 cs))
      else if number_char c then
        (if valid_number (c # takeWhile number_char cs)
         then map_option (Cons (TScalar (JNum (c # takeWhile number_char cs))))
                (lex_json (dropWhile number_char cs))
         else None)
      else None)"
  by pat_completeness auto
termination
  by (relation "measure length")
    (auto dest: lex_string_shorter simp: le_imp_less_Suc length_dropWhile_le)

section \<open>The scanner\<close>

datatype frame = FArr "json list" | FObj "(string \<times> json) list" string

datatype jmode =
    MValue | MFirstElem
  | MFirstKey | MKey "(string \<times> json) list" | MColon "(string \<times> json) list" string
  | MAfter json

definition maxNestingDepth :: nat where
  "maxNestingDepth = 10000"

definition begin_value :: "frame list \<Rightarrow> jtok \<Rightarrow> (frame list \<times> jmode) option" where
  "begin_value st t =
     (case t of
        TScalar v \<Rightarrow> Some (st, MAfter v)
      | TLBrack \<Rightarrow> if length st < maxNestingDepth then Some (FArr [] # st, MFirstElem) else None
      | TLBrace \<Rightarrow> if length st < maxNestingDepth then Some (st, MFirstKey) else None
      | _ \<Rightarrow> None)"

text \<open>Evaluation compares the depth in binary.\<close>

lemma begin_value_code [code]:
  "begin_value st t =
     (case t of
        TScalar v \<Rightarrow> Some (st, MAfter v)
      | TLBrack \<Rightarrow> if int (length st) < 10000 then Some (FArr [] # st, MFirstElem) else None
      | TLBrace \<Rightarrow> if int (length st) < 10000 then Some (st, MFirstKey) else None
      | _ \<Rightarrow> None)"
  by (simp add: begin_value_def maxNestingDepth_def split: jtok.splits)

fun json_step :: "frame list \<times> jmode \<Rightarrow> jtok \<Rightarrow> (frame list \<times> jmode) option" where
  "json_step (st, MValue) t = begin_value st t"
| "json_step (st, MFirstElem) t =
     (if t = TRBrack then Some (tl st, MAfter (JArr [])) else begin_value st t)"
| "json_step (st, MFirstKey) t =
     (case t of
        TRBrace \<Rightarrow> Some (st, MAfter (JObj []))
      | TScalar (JStr k) \<Rightarrow> Some (st, MColon [] k)
      | _ \<Rightarrow> None)"
| "json_step (st, MKey fs) t = (case t of TScalar (JStr k) \<Rightarrow> Some (st, MColon fs k) | _ \<Rightarrow> None)"
| "json_step (st, MColon fs k) t = (if t = TColon then Some (FObj fs k # st, MValue) else None)"
| "json_step ([], MAfter v) t = None"
| "json_step (FArr xs # st, MAfter v) t =
     (if t = TComma then Some (FArr (v # xs) # st, MValue)
      else if t = TRBrack then Some (st, MAfter (JArr (rev (v # xs))))
      else None)"
| "json_step (FObj fs k # st, MAfter v) t =
     (if t = TComma then Some (st, MKey ((k, v) # fs))
      else if t = TRBrace then Some (st, MAfter (JObj (rev ((k, v) # fs))))
      else None)"

fun json_run :: "frame list \<times> jmode \<Rightarrow> jtok list \<Rightarrow> (frame list \<times> jmode) option" where
  "json_run s [] = Some s"
| "json_run s (t # ts) = (case json_step s t of None \<Rightarrow> None | Some s' \<Rightarrow> json_run s' ts)"

text \<open>\<open>None\<close> is a syntax error.\<close>

definition json_parse :: "string \<Rightarrow> json option" where
  "json_parse s =
     (case lex_json s of
        None \<Rightarrow> None
      | Some ts \<Rightarrow> (case json_run ([], MValue) ts of Some ([], MAfter v) \<Rightarrow> Some v | _ \<Rightarrow> None))"

section \<open>Storing into struct fields\<close>

text \<open>
  A key selects the field whose name it equals, ASCII case and the two folding runes aside: U+212A
  (Kelvin sign) folds to \<open>k\<close> and U+017F (long s) to \<open>s\<close>.
\<close>

definition ascii_lower :: "char \<Rightarrow> char" where
  "ascii_lower c = (let n = of_char c :: nat in if 65 \<le> n \<and> n \<le> 90 then char_of (n + 32) else c)"

fun fold_name :: "string \<Rightarrow> string" where
  "fold_name (c # d # e # r) =
     (if c = CHR 0xE2 \<and> d = CHR 0x84 \<and> e = CHR 0xAA then CHR ''k'' # fold_name r
      else if c = CHR 0xC5 \<and> d = CHR 0xBF then CHR ''s'' # fold_name (e # r)
      else ascii_lower c # fold_name (d # e # r))"
| "fold_name [c, d] =
     (if c = CHR 0xC5 \<and> d = CHR 0xBF then ''s'' else [ascii_lower c, ascii_lower d])"
| "fold_name [c] = [ascii_lower c]"
| "fold_name [] = []"

definition field_is :: "string \<Rightarrow> string \<Rightarrow> bool" where
  "field_is name key \<longleftrightarrow> key = name \<or> fold_name key = name"

text \<open>An integer field: \<open>null\<close> leaves it, anything but an integer literal in range is an error.\<close>

definition json_int :: "json \<Rightarrow> int option" where
  "json_int j = (case j of JNum l \<Rightarrow> atoi l | _ \<Rightarrow> None)"

text \<open>
  A pointer to an integer: \<open>null\<close> clears it, and a value that does not decode leaves the pointer
  allocated with what it held, 0 when it is new.
\<close>

definition store_int_ptr :: "int option \<Rightarrow> json \<Rightarrow> int option" where
  "store_int_ptr cur j =
     (if j = JNull then None
      else case json_int j of
             Some n \<Rightarrow> Some n
           | None \<Rightarrow> (case cur of None \<Rightarrow> Some 0 | Some v \<Rightarrow> Some v))"

section \<open>Facts\<close>

lemma json_run_append:
  "json_run s (ts @ us) = (case json_run s ts of None \<Rightarrow> None | Some s' \<Rightarrow> json_run s' us)"
  by (induction ts arbitrary: s) (auto split: option.splits)

lemma store_int_ptr_range:
  "store_int_ptr cur j = Some n \<Longrightarrow> (\<And>v. cur = Some v \<Longrightarrow> in_int64 v) \<Longrightarrow> in_int64 n"
  by (auto simp: store_int_ptr_def json_int_def in_int64_def dest!: atoi_range
      split: if_splits option.splits json.splits)

lemma json_parse_examples:
  "json_parse ''[1, {\"a\": -2.5e+3}, null]'' = json_parse ''[1,{\"a\":-2.5e+3},null]''"
  "json_parse ''01'' = None" "json_parse ''[1,]'' = None" "json_parse ''true false'' = None"
  by code_simp+

section \<open>The size of a parsed value\<close>

text \<open>The number of array elements anywhere in a value, in an open container and in a scanner state.
  A token adds at most one.\<close>

fun json_elems :: "json \<Rightarrow> nat" where
  "json_elems (JArr xs) = length xs + sum_list (map json_elems xs)"
| "json_elems (JObj fs) = sum_list (map (\<lambda>kv. json_elems (snd kv)) fs)"
| "json_elems JNull = 0" | "json_elems (JBool b) = 0" | "json_elems (JNum l) = 0"
| "json_elems (JStr s) = 0"

fun frame_elems :: "frame \<Rightarrow> nat" where
  "frame_elems (FArr xs) = length xs + sum_list (map json_elems xs)"
| "frame_elems (FObj fs k) = sum_list (map (\<lambda>kv. json_elems (snd kv)) fs)"

fun mode_elems :: "jmode \<Rightarrow> nat" where
  "mode_elems (MAfter v) = json_elems v"
| "mode_elems (MKey fs) = sum_list (map (\<lambda>kv. json_elems (snd kv)) fs)"
| "mode_elems (MColon fs k) = sum_list (map (\<lambda>kv. json_elems (snd kv)) fs)"
| "mode_elems MValue = 0" | "mode_elems MFirstElem = 0" | "mode_elems MFirstKey = 0"

definition state_elems :: "frame list \<times> jmode \<Rightarrow> nat" where
  "state_elems s = sum_list (map frame_elems (fst s)) + mode_elems (snd s)"

lemma lex_json_flat:
  "lex_json s = Some ts \<Longrightarrow> TScalar v \<in> set ts \<Longrightarrow> json_elems v = 0"
  by (induction s arbitrary: ts rule: lex_json.induct)
    (auto simp: punct_def split: if_splits option.splits)

lemma lex_json_cases:
  assumes "lex_json (c # cs) = Some ts"
  obtains "lex_json cs = Some ts"
    | t r z where "ts = t # z" "lex_json r = Some z" "length r \<le> length cs"
  using assms
  by (auto split: if_splits option.splits dest: lex_string_shorter
      intro: length_dropWhile_le less_imp_le_nat)

lemma lex_json_length: "lex_json s = Some ts \<Longrightarrow> length ts \<le> length s"
proof (induction s arbitrary: ts rule: length_induct)
  case (1 s)
  show ?case
  proof (cases s)
    case Nil
    then show ?thesis using "1.prems" by simp
  next
    case (Cons c cs)
    then have "lex_json (c # cs) = Some ts" using "1.prems" by simp
    then show ?thesis
    proof (cases rule: lex_json_cases)
      case 1
      then show ?thesis using "1.IH" Cons by (auto intro: le_SucI)
    next
      case (2 t r z)
      then have "length z \<le> length r" using "1.IH" Cons by simp
      then show ?thesis using 2 Cons by simp
    qed
  qed
qed

lemma begin_value_elems:
  "begin_value st t = Some s' \<Longrightarrow> (\<And>v. t = TScalar v \<Longrightarrow> json_elems v = 0) \<Longrightarrow>
     state_elems s' \<le> Suc (sum_list (map frame_elems st))"
  by (auto simp: begin_value_def state_elems_def split: jtok.splits if_splits)

lemma json_step_elems:
  assumes "json_step s t = Some s'" "\<And>v. t = TScalar v \<Longrightarrow> json_elems v = 0"
  shows "state_elems s' \<le> Suc (state_elems s)"
  using assms
  by (cases "(s, t)" rule: json_step.cases; cases "fst s")
    (auto dest!: begin_value_elems simp: state_elems_def rev_map [symmetric]
      split: if_splits jtok.splits json.splits)

lemma json_run_elems:
  "json_run s ts = Some s' \<Longrightarrow> (\<And>v. TScalar v \<in> set ts \<Longrightarrow> json_elems v = 0) \<Longrightarrow>
     state_elems s' \<le> state_elems s + length ts"
proof (induction s ts rule: json_run.induct)
  case (1 s)
  then show ?case by simp
next
  case (2 s t ts)
  then obtain s1 where s1: "json_step s t = Some s1" "json_run s1 ts = Some s'"
    by (auto split: option.splits)
  have "state_elems s1 \<le> Suc (state_elems s)"
    using json_step_elems [OF s1(1)] "2.prems"(2) by simp
  moreover have "state_elems s' \<le> state_elems s1 + length ts" using 2 s1 by simp
  ultimately show ?case by simp
qed

lemma json_parse_elems:
  assumes "json_parse s = Some v"
  shows "json_elems v \<le> length s"
proof -
  obtain ts where ts: "lex_json s = Some ts" "json_run ([], MValue) ts = Some ([], MAfter v)"
    using assms by (auto simp: json_parse_def split: option.splits list.splits jmode.splits)
  have "state_elems ([], MAfter v) \<le> state_elems ([], MValue) + length ts"
    using json_run_elems [OF ts(2)] lex_json_flat [OF ts(1)] by blast
  then show ?thesis using lex_json_length [OF ts(1)] by (simp add: state_elems_def)
qed

end
