(* ===== verification/JsonDecode.thy ===== *)
theory JsonDecode
  imports Json
begin

text \<open>
  The rest of what the code uses of \<open>encoding/json\<close>: values that remember their source text, so that
  a \<open>json.RawMessage\<close> keeps the bytes it was read from; the stores into the fields of a struct, with
  the current value threaded through, so that a repeated key merges into what the first one left;
  decoding into \<open>any\<close>; and the encoder. A decoder answers \<open>None\<close> where \<open>Unmarshal\<close> returns an error.
\<close>

section \<open>Values with their source text\<close>

text \<open>A token and its text, white space before it included.\<close>

type_synonym span = "jtok \<times> string"

definition with_text :: "string \<Rightarrow> jtok \<Rightarrow> span list \<Rightarrow> span list" where
  "with_text x t sps = (t, x) # sps"

text \<open>The text in front of a suffix.\<close>

definition text_before :: "string \<Rightarrow> string \<Rightarrow> string" where
  "text_before s rest = take (length s - length rest) s"

fun after_space :: "string \<Rightarrow> span list \<Rightarrow> span list" where
  "after_space w ((t, x) # r) = (t, w @ x) # r"
| "after_space w [] = []"

function lex_spans :: "string \<Rightarrow> span list option" where
  "lex_spans [] = Some []"
| "lex_spans (c # cs) =
     (if json_space c then map_option (after_space [c]) (lex_spans cs)
      else if punct c \<noteq> None then map_option (with_text [c] (the (punct c))) (lex_spans cs)
      else if c = CHR 0x22 then
        (case lex_string cs of
           None \<Rightarrow> None
         | Some (items, r) \<Rightarrow>
             map_option (with_text (text_before (c # cs) r) (TScalar (JStr (decode_items items))))
               (lex_spans r))
      else if has_prefix (c # cs) ''null'' then
        map_option (with_text ''null'' (TScalar JNull)) (lex_spans (drop 3 cs))
      else if has_prefix (c # cs) ''true'' then
        map_option (with_text ''true'' (TScalar (JBool True))) (lex_spans (drop 3 cs))
      else if has_prefix (c # cs) ''false'' then
        map_option (with_text ''false'' (TScalar (JBool False))) (lex_spans (drop 4 cs))
      else if number_char c then
        (if valid_number (c # takeWhile number_char cs)
         then map_option (with_text (c # takeWhile number_char cs)
                (TScalar (JNum (c # takeWhile number_char cs)))) (lex_spans (dropWhile number_char cs))
         else None)
      else None)"
  by pat_completeness auto
termination
  by (relation "measure length")
    (auto dest: lex_string_shorter simp: le_imp_less_Suc length_dropWhile_le)

lemma after_space_tokens [simp]: "map fst (after_space w sps) = map fst sps"
  by (cases sps) (auto split: prod.splits)

lemma tokens_after:
  "map_option (map fst) (map_option (after_space w) X) = map_option (map fst) X"
  "map_option (map fst) (map_option (with_text x t) X) = map_option (Cons t) (map_option (map fst) X)"
  by (cases X; simp add: with_text_def)+

lemma lex_spans_tokens: "map_option (map fst) (lex_spans s) = lex_json s"
proof (induction s rule: lex_json.induct)
  case 1
  then show ?case by simp
next
  case (2 c cs)
  consider "json_space c" | "\<not> json_space c" "punct c \<noteq> None"
    | "\<not> json_space c" "punct c = None" "c = CHR 0x22"
    | "\<not> json_space c" "punct c = None" "c \<noteq> CHR 0x22" by blast
  then show ?case
  proof cases
    case 3
    then show ?thesis
      using "2.IH"(3) by (cases "lex_string cs") (auto simp: tokens_after)
  qed (use "2.IH" in \<open>simp_all add: tokens_after\<close>)
qed

datatype rjson = RScalar string json | RArr string "rjson list" | RObj string "(string \<times> rjson) list"

fun rj_raw :: "rjson \<Rightarrow> string" where
  "rj_raw (RScalar x v) = x" | "rj_raw (RArr x js) = x" | "rj_raw (RObj x fs) = x"

definition token_text :: "span list \<Rightarrow> string" where
  "token_text sps = (case sps of [] \<Rightarrow> [] | (t, x) # r \<Rightarrow> x)"

definition trim_json :: "string \<Rightarrow> string" where
  "trim_json s = dropWhile json_space s"

text \<open>
  A parsed value consumes its tokens again to find its text. The lists return the annotated parts,
  the text of the tokens up to and including the closing bracket, and the tokens behind it.
\<close>

fun annotate :: "json \<Rightarrow> span list \<Rightarrow> rjson \<times> string \<times> span list"
and annotate_elems :: "json list \<Rightarrow> span list \<Rightarrow> rjson list \<times> string \<times> span list"
and annotate_members ::
  "(string \<times> json) list \<Rightarrow> span list \<Rightarrow> (string \<times> rjson) list \<times> string \<times> span list" where
  "annotate (JArr xs) sps =
     (let (js, mid, r) = annotate_elems xs (tl sps); raw = token_text sps @ mid
      in (RArr (trim_json raw) js, raw, r))"
| "annotate (JObj fs) sps =
     (let (js, mid, r) = annotate_members fs (tl sps); raw = token_text sps @ mid
      in (RObj (trim_json raw) js, raw, r))"
| "annotate v sps = (RScalar (trim_json (token_text sps)) v, token_text sps, tl sps)"
| "annotate_elems [] sps = ([], token_text sps, tl sps)"
| "annotate_elems (v # vs) sps =
     (let (j, x, r) = annotate v sps in
      if vs = [] then ([j], x @ token_text r, tl r)
      else let (js, y, r') = annotate_elems vs (tl r) in (j # js, x @ token_text r @ y, r'))"
| "annotate_members [] sps = ([], token_text sps, tl sps)"
| "annotate_members ((k, v) # fs) sps =
     (let pre = token_text sps @ token_text (tl sps);
          (j, x, r) = annotate v (tl (tl sps)) in
      if fs = [] then ([(k, j)], pre @ x @ token_text r, tl r)
      else let (js, y, r') = annotate_members fs (tl r)
           in ((k, j) # js, pre @ x @ token_text r @ y, r'))"

definition raw_parse :: "string \<Rightarrow> rjson option" where
  "raw_parse s =
     (case (json_parse s, lex_spans s) of
        (Some v, Some sps) \<Rightarrow> Some (fst (annotate v sps))
      | _ \<Rightarrow> None)"

text \<open>The value without the texts.\<close>

fun plain :: "rjson \<Rightarrow> json" where
  "plain (RScalar x v) = v"
| "plain (RArr x js) = JArr (map plain js)"
| "plain (RObj x fs) = JObj (map (\<lambda>(k, j). (k, plain j)) fs)"

lemma annotate_plain:
  "plain (fst (annotate v sps)) = v"
  "map plain (fst (annotate_elems vs sps)) = vs"
  "map (\<lambda>(k, j). (k, plain j)) (fst (annotate_members fs sps)) = fs"
  by (induction v sps and vs sps and fs sps rule: annotate_annotate_elems_annotate_members.induct)
    (auto simp: Let_def split: prod.splits if_splits)

lemma raw_parse_plain: "map_option plain (raw_parse s) = json_parse s"
proof (cases "json_parse s")
  case None
  then show ?thesis by (simp add: raw_parse_def)
next
  case (Some v)
  then have "lex_json s \<noteq> None" by (cases "lex_json s") (simp_all add: json_parse_def)
  then have "lex_spans s \<noteq> None" using lex_spans_tokens [of s] by auto
  then show ?thesis using Some by (auto simp: raw_parse_def annotate_plain)
qed

section \<open>Stores into struct fields\<close>

type_synonym 'a store = "'a \<Rightarrow> rjson \<Rightarrow> 'a option"

text \<open>\<open>null\<close> leaves a scalar as it is, empties a slice and clears a pointer.\<close>

definition store_string :: "string store" where
  "store_string cur j =
     (case j of RScalar x (JStr s) \<Rightarrow> Some s | RScalar x JNull \<Rightarrow> Some cur | _ \<Rightarrow> None)"

definition store_bool :: "bool store" where
  "store_bool cur j =
     (case j of RScalar x (JBool b) \<Rightarrow> Some b | RScalar x JNull \<Rightarrow> Some cur | _ \<Rightarrow> None)"

definition store_int :: "int store" where
  "store_int cur j =
     (case j of RScalar x (JNum l) \<Rightarrow> atoi l | RScalar x JNull \<Rightarrow> Some cur | _ \<Rightarrow> None)"

definition store_raw :: "string store" where
  "store_raw cur j = Some (rj_raw j)"

definition store_ptr :: "'a \<Rightarrow> 'a store \<Rightarrow> 'a option store" where
  "store_ptr zero st cur j =
     (if plain j = JNull then Some None
      else map_option Some (st (case cur of None \<Rightarrow> zero | Some v \<Rightarrow> v) j))"

text \<open>An element that a repeated key left in the slice is what the new element is stored into.\<close>

fun store_elems :: "'a \<Rightarrow> 'a store \<Rightarrow> 'a list \<Rightarrow> rjson list \<Rightarrow> 'a list option" where
  "store_elems zero st cur [] = Some []"
| "store_elems zero st cur (j # js) =
     (case st (case cur of [] \<Rightarrow> zero | c # cs \<Rightarrow> c) j of
        None \<Rightarrow> None
      | Some v \<Rightarrow> map_option (Cons v) (store_elems zero st (drop 1 cur) js))"

definition store_slice :: "'a \<Rightarrow> 'a store \<Rightarrow> 'a list store" where
  "store_slice zero st cur j =
     (case j of RArr x js \<Rightarrow> store_elems zero st cur js
      | RScalar x JNull \<Rightarrow> Some [] | _ \<Rightarrow> None)"

text \<open>The field a key selects: the one of that name, else the one its folded form names.\<close>

definition field_of :: "(string \<times> 'a) list \<Rightarrow> string \<Rightarrow> 'a option" where
  "field_of tbl k = (case map_of tbl k of Some s \<Rightarrow> Some s | None \<Rightarrow> map_of tbl (fold_name k))"

fun store_members :: "(string \<times> 'a store) list \<Rightarrow> 'a \<Rightarrow> (string \<times> rjson) list \<Rightarrow> 'a option" where
  "store_members tbl cur [] = Some cur"
| "store_members tbl cur ((k, j) # fs) =
     (case field_of tbl k of
        None \<Rightarrow> store_members tbl cur fs
      | Some st \<Rightarrow> (case st cur j of None \<Rightarrow> None | Some cur' \<Rightarrow> store_members tbl cur' fs))"

definition store_struct :: "(string \<times> 'a store) list \<Rightarrow> 'a store" where
  "store_struct tbl cur j =
     (case j of RObj x fs \<Rightarrow> store_members tbl cur fs | RScalar x JNull \<Rightarrow> Some cur | _ \<Rightarrow> None)"

text \<open>\<open>on get put st\<close> is the store of one field.\<close>

definition on :: "('a \<Rightarrow> 'b) \<Rightarrow> ('b \<Rightarrow> 'a \<Rightarrow> 'a) \<Rightarrow> 'b store \<Rightarrow> 'a store" where
  "on get put st cur j = map_option (\<lambda>v. put v cur) (st (get cur) j)"

text \<open>\<open>json.Unmarshal\<close> into a variable that holds its zero value.\<close>

definition unmarshal :: "'a \<Rightarrow> 'a store \<Rightarrow> string \<Rightarrow> 'a option" where
  "unmarshal zero st s = (case raw_parse s of None \<Rightarrow> None | Some j \<Rightarrow> st zero j)"

section \<open>Decoding into \<open>any\<close>\<close>

text \<open>
  A number becomes a float64; \<open>fl\<close> stands for reading a literal as a float64 and for the literal
  \<open>Marshal\<close> writes for it, and is \<open>None\<close> where the literal is out of range. An object becomes a map:
  of a repeated key the last value stays.
\<close>

fun obj_put :: "'k \<Rightarrow> 'a \<Rightarrow> ('k \<times> 'a) list \<Rightarrow> ('k \<times> 'a) list" where
  "obj_put k v [] = [(k, v)]"
| "obj_put k v ((k', v') # fs) = (if k = k' then (k, v) # fs else (k', v') # obj_put k v fs)"

lemma obj_put_get [simp]: "map_of (obj_put k v fs) x = (if x = k then Some v else map_of fs x)"
  by (induction k v fs rule: obj_put.induct) auto

lemma obj_put_keys: "set (map fst (obj_put k v fs)) = insert k (set (map fst fs))"
  by (induction k v fs rule: obj_put.induct) auto

lemma obj_put_distinct: "distinct (map fst fs) \<Longrightarrow> distinct (map fst (obj_put k v fs))"
  by (induction k v fs rule: obj_put.induct) (auto simp del: set_map simp: obj_put_keys)

fun any_value :: "(string \<Rightarrow> string option) \<Rightarrow> json \<Rightarrow> json option"
and any_elems :: "(string \<Rightarrow> string option) \<Rightarrow> json list \<Rightarrow> json list option"
and any_members ::
  "(string \<Rightarrow> string option) \<Rightarrow> (string \<times> json) list \<Rightarrow> (string \<times> json) list \<Rightarrow>
     (string \<times> json) list option" where
  "any_value fl (JNum l) = map_option JNum (fl l)"
| "any_value fl (JArr xs) = map_option JArr (any_elems fl xs)"
| "any_value fl (JObj fs) = map_option JObj (any_members fl [] fs)"
| "any_value fl v = Some v"
| "any_elems fl [] = Some []"
| "any_elems fl (v # vs) =
     (case any_value fl v of
        None \<Rightarrow> None | Some x \<Rightarrow> map_option (Cons x) (any_elems fl vs))"
| "any_members fl acc [] = Some acc"
| "any_members fl acc ((k, v) # fs) =
     (case any_value fl v of
        None \<Rightarrow> None | Some x \<Rightarrow> any_members fl (obj_put k x acc) fs)"

lemma any_members_distinct:
  "any_members fl acc fs = Some gs \<Longrightarrow> distinct (map fst acc) \<Longrightarrow> distinct (map fst gs)"
  by (induction fs arbitrary: acc) (auto simp: obj_put_distinct split: option.splits simp del: set_map)

lemma any_value_distinct: "any_value fl v = Some (JObj gs) \<Longrightarrow> distinct (map fst gs)"
  by (cases v) (auto dest: any_members_distinct)

definition unmarshal_any :: "(string \<Rightarrow> string option) \<Rightarrow> string \<Rightarrow> json option" where
  "unmarshal_any fl s = (case json_parse s of None \<Rightarrow> None | Some v \<Rightarrow> any_value fl v)"

text \<open>Reading a member of a \<open>map[string]any\<close>, with the type assertion the code makes on it.\<close>

definition member :: "json \<Rightarrow> string \<Rightarrow> json option" where
  "member j k = (case j of JObj fs \<Rightarrow> map_of fs k | _ \<Rightarrow> None)"

definition member_str :: "json \<Rightarrow> string \<Rightarrow> string option" where
  "member_str j k = (case member j k of Some (JStr s) \<Rightarrow> Some s | _ \<Rightarrow> None)"

definition member_bool :: "json \<Rightarrow> string \<Rightarrow> bool option" where
  "member_bool j k = (case member j k of Some (JBool b) \<Rightarrow> Some b | _ \<Rightarrow> None)"

definition member_obj :: "json \<Rightarrow> string \<Rightarrow> json option" where
  "member_obj j k = (case member j k of Some (JObj fs) \<Rightarrow> Some (JObj fs) | _ \<Rightarrow> None)"

section \<open>Encoding\<close>

text \<open>
  The default encoder escapes the control characters and, because it escapes for HTML, the angle
  brackets, the ampersand and the line separators U+2028 and U+2029.
\<close>

definition hex_char :: "nat \<Rightarrow> char" where
  "hex_char n = (if n < 10 then char_of (48 + n) else char_of (87 + n))"

definition escape_char :: "char \<Rightarrow> string" where
  "escape_char c =
     (case map_of
        [(CHR 0x22, CHR 0x22), (CHR 0x5C, CHR 0x5C), (CHR 0x08, CHR ''b''), (CHR 0x0C, CHR ''f''),
         (CHR 0x0A, CHR ''n''), (CHR 0x0D, CHR ''r''), (CHR 0x09, CHR ''t'')] c of
        Some e \<Rightarrow> [CHR 0x5C, e]
      | None \<Rightarrow>
          (let n = of_char c :: nat in
           if n < 32 \<or> c \<in> set ''<>&''
           then [CHR 0x5C, CHR ''u'', CHR ''0'', CHR ''0'', hex_char (n div 16), hex_char (n mod 16)]
           else [c]))"

fun escape_string :: "string \<Rightarrow> string" where
  "escape_string [] = []"
| "escape_string (c # cs) =
     (if has_prefix (c # cs) [CHR 0xE2, CHR 0x80, CHR 0xA8] then
        [CHR 0x5C] @ ''u2028'' @ escape_string (drop 2 cs)
      else if has_prefix (c # cs) [CHR 0xE2, CHR 0x80, CHR 0xA9] then
        [CHR 0x5C] @ ''u2029'' @ escape_string (drop 2 cs)
      else escape_char c @ escape_string cs)"

definition encode_string :: "string \<Rightarrow> string" where
  "encode_string s = [CHR 0x22] @ escape_string s @ [CHR 0x22]"

fun json_encode :: "json \<Rightarrow> string" where
  "json_encode JNull = ''null''"
| "json_encode (JBool b) = (if b then ''true'' else ''false'')"
| "json_encode (JNum l) = l"
| "json_encode (JStr s) = encode_string s"
| "json_encode (JArr xs) = ''['' @ join_with '','' (map json_encode xs) @ '']''"
| "json_encode (JObj fs) =
     [CHR 0x7B] @ join_with '','' (map (\<lambda>(k, v). encode_string k @ '':'' @ json_encode v) fs) @ [CHR 0x7D]"

text \<open>Whatever a string holds, its encoding is one line.\<close>

fun numbers_of :: "json \<Rightarrow> string list" where
  "numbers_of (JNum l) = [l]"
| "numbers_of (JArr xs) = concat (map numbers_of xs)"
| "numbers_of (JObj fs) = concat (map (\<lambda>(k, v). numbers_of v) fs)"
| "numbers_of v = []"

lemma hex_char_printable: "n < 16 \<Longrightarrow> 48 \<le> (of_char (hex_char n) :: nat)"
  by (simp add: hex_char_def of_char_of)

lemma newline_code: "(of_char (CHR 0x0A) :: nat) = 10"
  by simp

lemma hex_char_line: "n < 16 \<Longrightarrow> CHR 0x0A \<noteq> hex_char n"
proof
  assume n: "n < 16" and "CHR 0x0A = hex_char n"
  then have "(of_char (hex_char n) :: nat) = of_char (CHR 0x0A)" by (metis (no_types))
  then show False using hex_char_printable [OF n] by (simp only: newline_code)
qed

lemma byte_bound: "(of_char c :: nat) < 256"
  by (metis mod_less_divisor of_char_mod_256 zero_less_numeral)

lemma escape_char_line: "CHR 0x0A \<notin> set (escape_char c)"
proof -
  have "(of_char c :: nat) div 16 < 16" "(of_char c :: nat) mod 16 < 16"
    using byte_bound [of c] by (simp_all add: less_mult_imp_div_less)
  note h = this [THEN hex_char_line]
  show ?thesis
  proof (cases "c = CHR 0x0A")
    case True
    then show ?thesis by (simp add: escape_char_def)
  next
    case False
    then show ?thesis using h
      by (auto simp: escape_char_def Let_def split: option.splits if_splits)
  qed
qed

lemma escape_string_line: "CHR 0x0A \<notin> set (escape_string s)"
  by (induction s rule: escape_string.induct) (auto simp: escape_char_line)

lemma encode_string_line: "CHR 0x0A \<notin> set (encode_string s)"
  by (simp add: encode_string_def escape_string_line)

lemma join_with_line:
  "c \<notin> set sep \<Longrightarrow> (\<And>w. w \<in> set ws \<Longrightarrow> c \<notin> set w) \<Longrightarrow> c \<notin> set (join_with sep ws)"
  by (induction sep ws rule: join_with.induct) auto

lemma json_encode_line:
  "(\<And>l. l \<in> set (numbers_of j) \<Longrightarrow> CHR 0x0A \<notin> set l) \<Longrightarrow> CHR 0x0A \<notin> set (json_encode j)"
proof (induction j)
  case (JArr xs)
  have "CHR 0x0A \<notin> set (json_encode x)" if "x \<in> set xs" for x
    using JArr that by auto
  then have "CHR 0x0A \<notin> set (join_with '','' (map json_encode xs))"
    by (intro join_with_line) auto
  then show ?case by simp
next
  case (JObj fs)
  have m: "CHR 0x0A \<notin> set (json_encode v)" if "(k, v) \<in> set fs" for k v
  proof (rule JObj.IH [OF that])
    show "v \<in> Basic_BNFs.snds (k, v)" by simp
    show "CHR 0x0A \<notin> set l" if "l \<in> set (numbers_of v)" for l
      using JObj.prems [of l] that \<open>(k, v) \<in> set fs\<close> by force
  qed
  have "CHR 0x0A \<notin> set (join_with '','' (map (\<lambda>(k, v). encode_string k @ '':'' @ json_encode v) fs))"
    by (intro join_with_line) (auto simp: encode_string_line m)
  then show ?case by simp
qed (auto simp: encode_string_line)

end
