(* ===== verification/JsonText.thy ===== *)
theory JsonText
  imports JsonDecode
begin

text \<open>
  What \<open>encoding/json\<close> writes it also reads: the indented encoder, the tokens of a value, and the
  round trip through either encoder. The only values excluded are those with a text that is no JSON
  number where a number stands, and those nested deeper than the scanner allows.
\<close>

section \<open>The indented encoder\<close>

text \<open>\<open>MarshalIndent\<close> with a prefix of two blanks.\<close>

definition spaces :: "nat \<Rightarrow> string" where "spaces n = replicate (2 * n) (CHR '' '')"

definition bracketed :: "nat \<Rightarrow> char \<Rightarrow> char \<Rightarrow> string list \<Rightarrow> string" where
  "bracketed n l r xs =
     (if xs = [] then [l, r]
      else [l, CHR 0x0A] @ join_with [CHR '','', CHR 0x0A] (map (\<lambda>x. spaces (Suc n) @ x) xs) @
           [CHR 0x0A] @ spaces n @ [r])"

fun json_indent :: "nat \<Rightarrow> json \<Rightarrow> string"
and indent_member :: "nat \<Rightarrow> string \<times> json \<Rightarrow> string" where
  "json_indent n (JArr vs) = bracketed n (CHR ''['') (CHR '']'') (map (json_indent (Suc n)) vs)"
| "json_indent n (JObj fs) = bracketed n (CHR 0x7B) (CHR 0x7D) (map (indent_member (Suc n)) fs)"
| "json_indent n v = json_encode v"
| "indent_member n (k, v) = encode_string k @ '': '' @ json_indent n v"

text \<open>Members left out when they are empty.\<close>

definition opt_string :: "string \<Rightarrow> string \<Rightarrow> (string \<times> json) list" where
  "opt_string k v = (if v = [] then [] else [(k, JStr v)])"

definition opt_strings :: "string \<Rightarrow> string list \<Rightarrow> (string \<times> json) list" where
  "opt_strings k vs = (if vs = [] then [] else [(k, JArr (map JStr vs))])"

definition opt_int :: "string \<Rightarrow> int \<Rightarrow> (string \<times> json) list" where
  "opt_int k n = (if n = 0 then [] else [(k, JNum (itoa n))])"

section \<open>The tokens of a value\<close>

fun comma_join :: "jtok list list \<Rightarrow> jtok list" where
  "comma_join [] = []"
| "comma_join [ts] = ts"
| "comma_join (ts # us # tss) = ts @ TComma # comma_join (us # tss)"

fun tokens :: "json \<Rightarrow> jtok list"
and member_tokens :: "string \<times> json \<Rightarrow> jtok list" where
  "tokens (JArr vs) = TLBrack # comma_join (map tokens vs) @ [TRBrack]"
| "tokens (JObj fs) = TLBrace # comma_join (map member_tokens fs) @ [TRBrace]"
| "tokens v = [TScalar v]"
| "member_tokens (k, v) = [TScalar (JStr k), TColon] @ tokens v"

definition number_text :: "string \<Rightarrow> bool" where
  "number_text l \<longleftrightarrow> l \<noteq> [] \<and> list_all number_char l \<and> valid_number l"

definition numbers_ok :: "json \<Rightarrow> bool" where
  "numbers_ok v \<longleftrightarrow> list_all number_text (numbers_of v)"

text \<open>How deep the containers of a value nest.\<close>

fun depth :: "json \<Rightarrow> nat" where
  "depth (JArr vs) = Suc (Max (insert 0 (set (map depth vs))))"
| "depth (JObj fs) = Suc (Max (insert 0 (set (map (\<lambda>(k, v). depth v) fs))))"
| "depth v = 0"

section \<open>Strings\<close>

lemma hex_digit: "n < 16 \<Longrightarrow> hex_val (hex_char n) = Some n"
  by (simp add: hex_val_def hex_char_def of_char_of)

lemma hex_zero: "hex_val (CHR ''0'') = Some 0" "hex_val (CHR ''2'') = Some 2"
  "hex_val (CHR ''8'') = Some 8" "hex_val (CHR ''9'') = Some 9"
  by (simp_all add: hex_val_def)

lemma escape_short:
  "map_of [(CHR 0x22, CHR 0x22), (CHR 0x5C, CHR 0x5C), (CHR 0x08, CHR ''b''), (CHR 0x0C, CHR ''f''),
         (CHR 0x0A, CHR ''n''), (CHR 0x0D, CHR ''r''), (CHR 0x09, CHR ''t'')] c = Some e \<Longrightarrow>
   simple_escape e = Some c \<and> e \<noteq> CHR ''u''"
  by (auto simp: simple_escape_def split: if_splits)

text \<open>Items whose code units are no surrogates stand for themselves, one after the other.\<close>

fun item_text :: "str_item \<Rightarrow> string" where
  "item_text (SByte b) = [b]"
| "item_text (SUnit u) = utf8_encode u"

fun lone :: "str_item \<Rightarrow> bool" where
  "lone (SByte b) = True"
| "lone (SUnit u) = (u < 0xD800)"

lemma decode_lone: "list_all lone items \<Longrightarrow> decode_items items = concat (map item_text items)"
  by (induction items rule: decode_items.induct) simp_all

text \<open>The text \<open>t\<close> inside a literal is read as the string \<open>s\<close>, whatever follows.\<close>

fun lex_push :: "str_item list \<Rightarrow> (str_item list \<times> string) option \<Rightarrow> (str_item list \<times> string) option" where
  "lex_push items None = None"
| "lex_push items (Some (is, r)) = Some (items @ is, r)"

lemma lex_push_simps: "lex_push [] q = q" "lex_push is (lex_push js q) = lex_push (is @ js) q"
  "map_option (apfst (Cons it)) q = lex_push [it] q"
  by (cases q; force)+

definition lexes_to :: "string \<Rightarrow> string \<Rightarrow> bool" where
  "lexes_to t s \<longleftrightarrow> (\<exists>items. list_all lone items \<and> concat (map item_text items) = s \<and>
     (\<forall>r. lex_string (t @ r) = lex_push items (lex_string r)))"

lemma lexes_to_Nil: "lexes_to [] []"
  unfolding lexes_to_def by (intro exI [of _ "[]"]) (simp add: lex_push_simps)

lemma lexes_to_item:
  assumes "\<And>r. lex_string (t @ r) = map_option (apfst (Cons it)) (lex_string r)"
    and "lone it" and "item_text it = s"
  shows "lexes_to t s"
  unfolding lexes_to_def by (intro exI [of _ "[it]"]) (simp add: assms lex_push_simps)

lemma lexes_to_append:
  assumes "lexes_to t s" "lexes_to t' s'"
  shows "lexes_to (t @ t') (s @ s')"
proof -
  obtain is1 is2 where "list_all lone is1" "concat (map item_text is1) = s"
      "\<And>r. lex_string (t @ r) = lex_push is1 (lex_string r)"
      "list_all lone is2" "concat (map item_text is2) = s'"
      "\<And>r. lex_string (t' @ r) = lex_push is2 (lex_string r)"
    using assms unfolding lexes_to_def by metis
  then show ?thesis unfolding lexes_to_def
    by (intro exI [of _ "is1 @ is2"]) (simp add: lex_push_simps)
qed

lemma lexes_to_escape_char: "lexes_to (escape_char c) [c]"
proof (cases "map_of [(CHR 0x22, CHR 0x22), (CHR 0x5C, CHR 0x5C), (CHR 0x08, CHR ''b''), (CHR 0x0C, CHR ''f''),
         (CHR 0x0A, CHR ''n''), (CHR 0x0D, CHR ''r''), (CHR 0x09, CHR ''t'')] c")
  case (Some e)
  then show ?thesis using escape_short [OF Some]
    by (intro lexes_to_item [of _ "SByte c"]) (simp_all add: escape_char_def)
next
  case None
  let ?n = "of_char c :: nat"
  have esc: "escape_char c = (if ?n < 32 \<or> c \<in> set ''<>&''
      then [CHR 0x5C, CHR ''u'', CHR ''0'', CHR ''0'', hex_char (?n div 16), hex_char (?n mod 16)] else [c])"
    unfolding escape_char_def None by (simp add: Let_def)
  have unescaped: "c \<noteq> CHR 0x22" "c \<noteq> CHR 0x5C" using None by (auto split: if_splits)
  show ?thesis
  proof (cases "?n < 32 \<or> c \<in> set ''<>&''")
    case True
    then have small: "?n < 128" by auto
    have "hex_val (hex_char (?n div 16)) = Some (?n div 16)"
      "hex_val (hex_char (?n mod 16)) = Some (?n mod 16)"
      using small by (simp_all add: hex_digit less_mult_imp_div_less)
    moreover have "16 * (?n div 16) + ?n mod 16 = ?n" by simp
    ultimately have "hex4 (CHR ''0'') (CHR ''0'') (hex_char (?n div 16)) (hex_char (?n mod 16)) = Some ?n"
      by (simp add: hex4_def hex_zero)
    then show ?thesis using True small
      by (intro lexes_to_item [of _ "SUnit ?n"]) (simp_all add: esc utf8_encode_def)
  next
    case False
    then show ?thesis using unescaped
      by (intro lexes_to_item [of _ "SByte c"]) (simp_all add: esc)
  qed
qed

lemma separator_text:
  "utf8_encode 0x2028 = [CHR 0xE2, CHR 0x80, CHR 0xA8]"
  "utf8_encode 0x2029 = [CHR 0xE2, CHR 0x80, CHR 0xA9]"
proof -
  have "(of_char (CHR 0xE2) :: nat) = 226" "(of_char (CHR 0x80) :: nat) = 128"
    "(of_char (CHR 0xA8) :: nat) = 168" "(of_char (CHR 0xA9) :: nat) = 169"
    by simp_all
  then have "char_of (226 :: nat) = CHR 0xE2" "char_of (128 :: nat) = CHR 0x80"
    "char_of (168 :: nat) = CHR 0xA8" "char_of (169 :: nat) = CHR 0xA9"
    by (metis char_of_char)+
  then show "utf8_encode 0x2028 = [CHR 0xE2, CHR 0x80, CHR 0xA8]"
    "utf8_encode 0x2029 = [CHR 0xE2, CHR 0x80, CHR 0xA9]"
    by (simp_all only: utf8_encode_def) simp_all
qed

lemma separator_units:
  "hex4 (CHR ''2'') (CHR ''0'') (CHR ''2'') (CHR ''8'') = Some 0x2028"
  "hex4 (CHR ''2'') (CHR ''0'') (CHR ''2'') (CHR ''9'') = Some 0x2029"
  by (simp_all add: hex4_def hex_zero)

lemma lex_unit:
  "hex4 a b c d = Some u \<Longrightarrow>
   lex_string ([CHR 0x5C, CHR ''u'', a, b, c, d] @ r) = map_option (apfst (Cons (SUnit u))) (lex_string r)"
  by simp

lemma lexes_to_separator:
  "lexes_to ([CHR 0x5C] @ ''u2028'') [CHR 0xE2, CHR 0x80, CHR 0xA8]"
  "lexes_to ([CHR 0x5C] @ ''u2029'') [CHR 0xE2, CHR 0x80, CHR 0xA9]"
proof -
  show "lexes_to ([CHR 0x5C] @ ''u2028'') [CHR 0xE2, CHR 0x80, CHR 0xA8]"
  proof (rule lexes_to_item [of _ "SUnit 0x2028"])
    show "lex_string (([CHR 0x5C] @ ''u2028'') @ r) = map_option (apfst (Cons (SUnit 0x2028))) (lex_string r)" for r
      using lex_unit [OF separator_units(1), of r] by (simp only: append.simps)
    show "item_text (SUnit 0x2028) = [CHR 0xE2, CHR 0x80, CHR 0xA8]" by (simp only: item_text.simps separator_text)
  qed simp
  show "lexes_to ([CHR 0x5C] @ ''u2029'') [CHR 0xE2, CHR 0x80, CHR 0xA9]"
  proof (rule lexes_to_item [of _ "SUnit 0x2029"])
    show "lex_string (([CHR 0x5C] @ ''u2029'') @ r) = map_option (apfst (Cons (SUnit 0x2029))) (lex_string r)" for r
      using lex_unit [OF separator_units(2), of r] by (simp only: append.simps)
    show "item_text (SUnit 0x2029) = [CHR 0xE2, CHR 0x80, CHR 0xA9]" by (simp only: item_text.simps separator_text)
  qed simp
qed

lemma lexes_to_escape_string: "lexes_to (escape_string s) s"
proof (induction s rule: escape_string.induct)
  case 1
  then show ?case by (simp add: lexes_to_Nil)
next
  case (2 c cs)
  let ?A = "[CHR 0xE2, CHR 0x80, CHR 0xA8]" and ?B = "[CHR 0xE2, CHR 0x80, CHR 0xA9]"
  have cut: "c # cs = p @ drop 2 cs" if "has_prefix (c # cs) p" "length p = 3" for p
    using that by (auto simp: has_prefix_def prefix_def numeral_eq_Suc length_Suc_conv)
  show ?case
  proof (cases "has_prefix (c # cs) ?A")
    case True
    then show ?thesis using 2(1) [OF True] lexes_to_append [OF lexes_to_separator(1)] cut [OF True] by fastforce
  next
    case False
    show ?thesis
    proof (cases "has_prefix (c # cs) ?B")
      case True
      then show ?thesis using 2(2) [OF False True] lexes_to_append [OF lexes_to_separator(2)] cut [OF True] False
        by fastforce
    next
      case neither: False
      then show ?thesis using False 2(3) [OF False neither] lexes_to_append [OF lexes_to_escape_char, of "escape_string cs" cs c]
        by simp
    qed
  qed
qed

lemma lex_encode_string:
  "lex_json (encode_string s @ r) = map_option (Cons (TScalar (JStr s))) (lex_json r)"
proof -
  obtain items where i: "list_all lone items" "concat (map item_text items) = s"
      "\<And>r. lex_string (escape_string s @ r) = lex_push items (lex_string r)"
    using lexes_to_escape_string [of s] unfolding lexes_to_def by blast
  have "lex_string (escape_string s @ CHR 0x22 # r) = Some (items, r)" by (simp add: i(3))
  moreover have "\<not> json_space (CHR 0x22)" "punct (CHR 0x22) = None"
    by (simp_all add: json_space_def punct_def)
  ultimately show ?thesis using decode_lone [OF i(1)] i(2) by (simp add: encode_string_def)
qed

section \<open>Values\<close>

text \<open>A text spells tokens when the lexer turns it into them in front of anything that cannot prolong a
  number.\<close>

definition stops :: "string \<Rightarrow> bool" where
  "stops r \<longleftrightarrow> (case r of [] \<Rightarrow> True | c # cs \<Rightarrow> \<not> number_char c)"

fun tok_push :: "jtok list \<Rightarrow> jtok list option \<Rightarrow> jtok list option" where
  "tok_push ts None = None"
| "tok_push ts (Some us) = Some (ts @ us)"

lemma tok_push_simps: "tok_push [] q = q" "tok_push ts (tok_push us q) = tok_push (ts @ us) q"
  "map_option (Cons t) q = tok_push [t] q"
  by (cases q; force)+

definition spells :: "string \<Rightarrow> jtok list \<Rightarrow> bool" where
  "spells s ts \<longleftrightarrow> (\<forall>r. stops r \<longrightarrow> lex_json (s @ r) = tok_push ts (lex_json r))"

definition opens :: "string \<Rightarrow> jtok list \<Rightarrow> bool" where
  "opens s ts \<longleftrightarrow> s \<noteq> [] \<and> stops s \<and> (\<forall>r. lex_json (s @ r) = tok_push ts (lex_json r))"

lemma opens_spells: "opens s ts \<Longrightarrow> spells s ts"
  by (simp add: opens_def spells_def)

lemma opens_append: "opens s ts \<Longrightarrow> spells s' ts' \<Longrightarrow> spells (s @ s') (ts @ ts')"
  by (simp add: opens_def spells_def tok_push_simps)

lemma opens_opens: "opens s ts \<Longrightarrow> opens s' ts' \<Longrightarrow> opens (s @ s') (ts @ ts')"
  by (auto simp: opens_def stops_def tok_push_simps split: list.splits)

lemma stops_append: "stops s \<Longrightarrow> s \<noteq> [] \<Longrightarrow> stops (s @ r)"
  by (cases s) (simp_all add: stops_def)

lemma spells_opens: "spells s ts \<Longrightarrow> opens s' ts' \<Longrightarrow> spells (s @ s') (ts @ ts')"
  by (simp add: opens_def spells_def stops_append tok_push_simps)

lemma number_chars:
  "\<not> number_char (CHR 0x0A)" "\<not> number_char (CHR '' '')" "\<not> number_char (CHR 0x22)"
  "\<not> number_char (CHR 0x7B)" "\<not> number_char (CHR 0x7D)" "\<not> number_char (CHR ''['')"
  "\<not> number_char (CHR '']'')" "\<not> number_char (CHR '','')" "\<not> number_char (CHR '':'')"
  by (simp_all add: number_char_def is_digit_def)

lemma opens_punct: "punct c = Some t \<Longrightarrow> opens [c] [t]"
  by (auto simp: opens_def stops_def tok_push_simps json_space_def number_chars punct_def split: if_splits)

lemma opens_space: "json_space c \<Longrightarrow> opens [c] []"
  by (auto simp: opens_def stops_def tok_push_simps json_space_def number_char_def is_digit_def)

lemmas opens_puncts =
  opens_punct [of "CHR 0x7B" TLBrace, unfolded punct_def, simplified]
  opens_punct [of "CHR 0x7D" TRBrace, unfolded punct_def, simplified]
  opens_punct [of "CHR ''[''" TLBrack, unfolded punct_def, simplified]
  opens_punct [of "CHR '']''" TRBrack, unfolded punct_def, simplified]
  opens_punct [of "CHR '',''" TComma, unfolded punct_def, simplified]
  opens_punct [of "CHR '':''" TColon, unfolded punct_def, simplified]
  opens_space [of "CHR '' ''", unfolded json_space_def, simplified]
  opens_space [of "CHR 0x0A", unfolded json_space_def, simplified]

lemma opens_string: "opens (encode_string s) [TScalar (JStr s)]"
  by (simp add: opens_def lex_encode_string tok_push_simps)
    (simp add: encode_string_def stops_def number_chars)

lemma opens_words: "opens ''null'' [TScalar JNull]" "opens ''true'' [TScalar (JBool True)]"
  "opens ''false'' [TScalar (JBool False)]"
  by (simp_all add: opens_def stops_def tok_push_simps json_space_def punct_def has_prefix_def
      number_char_def is_digit_def)

lemma takeWhile_stops:
  "list_all P l \<Longrightarrow> (case r of [] \<Rightarrow> True | c # cs \<Rightarrow> \<not> P c) \<Longrightarrow>
   takeWhile P (l @ r) = l \<and> dropWhile P (l @ r) = r"
  by (induction l) (auto split: list.splits)

lemma number_char_lead:
  assumes "number_char c"
  shows "\<not> json_space c" "punct c = None" "c \<noteq> CHR 0x22" "c \<noteq> CHR ''n''" "c \<noteq> CHR ''t''" "c \<noteq> CHR ''f''"
  using assms by (auto simp: number_char_def is_digit_def json_space_def punct_def)

lemma spells_number:
  assumes "number_text l"
  shows "spells l [TScalar (JNum l)]"
  unfolding spells_def
proof (intro allI impI)
  fix r
  assume r: "stops r"
  obtain c cs where l: "l = c # cs" "number_char c" "list_all number_char cs" "valid_number l"
    using assms by (cases l) (simp_all add: number_text_def)
  have "takeWhile number_char (cs @ r) = cs \<and> dropWhile number_char (cs @ r) = r"
    using l(3) r by (intro takeWhile_stops) (simp_all add: stops_def)
  then show "lex_json (l @ r) = tok_push [TScalar (JNum l)] (lex_json r)"
    using l number_char_lead [OF l(2)] by (simp add: has_prefix_def tok_push_simps)
qed

lemma spells_join:
  assumes "opens sep [TComma]" "xs \<noteq> []" "\<And>x. x \<in> set xs \<Longrightarrow> spells (f x) (g x)"
  shows "spells (join_with sep (map f xs)) (comma_join (map g xs))"
  using assms(2,3)
proof (induction xs rule: induct_list012)
  case (3 x y zs)
  have tail: "spells (join_with sep (map f (y # zs))) (comma_join (map g (y # zs)))" using 3 by simp
  have "spells (f x @ (sep @ join_with sep (map f (y # zs)))) (g x @ ([TComma] @ comma_join (map g (y # zs))))"
    using 3(4) [of x] tail assms(1)
    by (simp add: spells_def opens_def stops_append tok_push_simps)
  then show ?case by simp
qed simp_all

lemma opens_spaces: "opens (CHR 0x0A # spaces n) []"
proof (induction n)
  case 0
  then show ?case by (simp add: spaces_def opens_puncts)
next
  case (Suc n)
  have "CHR 0x0A # spaces (Suc n) = (CHR 0x0A # spaces n) @ ([CHR '' ''] @ [CHR '' ''])"
    by (simp add: spaces_def replicate_append_same [symmetric])
  moreover have "opens ([CHR '' ''] @ [CHR '' '']) ([] @ [])" by (intro opens_opens opens_puncts)
  ultimately show ?case using opens_opens [OF Suc] by fastforce
qed

lemma spells_bracketed:
  assumes l: "opens [l] [tkl]" and r: "opens [r] [tkr]" and xs: "\<And>x. x \<in> set xs \<Longrightarrow> spells (f x) (g x)"
  shows "spells (bracketed n l r (map f xs)) (tkl # comma_join (map g xs) @ [tkr])"
proof (cases "xs = []")
  case True
  then show ?thesis using opens_spells [OF opens_opens [OF l r]] by (simp add: bracketed_def)
next
  case False
  let ?i = "\<lambda>x. spaces (Suc n) @ x"
  have sp: "opens (spaces (Suc n)) []"
  proof -
    have "opens ([CHR '' ''] @ [CHR '' '']) ([] @ [])" by (intro opens_opens opens_puncts)
    then have two: "opens [CHR '' '', CHR '' ''] []" by simp
    show ?thesis
    proof (induction n)
      case 0
      then show ?case using two by (simp add: spaces_def numeral_2_eq_2)
    next
      case (Suc n)
      then show ?case using opens_opens [OF two, of "spaces (Suc n)" "[]"] by (simp add: spaces_def)
    qed
  qed
  have "opens ([CHR '',''] @ [CHR 0x0A]) ([TComma] @ [])" by (intro opens_opens opens_puncts)
  then have "spells (join_with [CHR '','', CHR 0x0A] (map (\<lambda>x. ?i (f x)) xs)) (comma_join (map g xs))"
    using opens_append [OF sp] xs False by (intro spells_join) simp_all
  note body = spells_opens [OF this opens_opens [OF opens_spaces [of n] r]]
  note all = opens_append [OF opens_opens [OF l opens_puncts(8)] body]
  show ?thesis using all False by (simp add: bracketed_def comp_def)
qed

lemma numbers_ok_simps:
  "numbers_ok (JArr vs) \<longleftrightarrow> (\<forall>v \<in> set vs. numbers_ok v)"
  "numbers_ok (JObj fs) \<longleftrightarrow> (\<forall>(k, v) \<in> set fs. numbers_ok v)"
  "numbers_ok (JNum l) \<longleftrightarrow> number_text l" "numbers_ok JNull" "numbers_ok (JBool b)" "numbers_ok (JStr s)"
  by (auto simp: numbers_ok_def list_all_iff)

lemma spells_encode: "numbers_ok v \<Longrightarrow> spells (json_encode v) (tokens v)"
proof (induction v)
  case (JArr xs)
  show ?case
  proof (cases "xs = []")
    case True
    then show ?thesis using opens_spells [OF opens_opens [OF opens_puncts(3,4)]] by simp
  next
    case False
    have "spells (join_with '','' (map json_encode xs)) (comma_join (map tokens xs))"
      using JArr False by (intro spells_join) (simp_all add: opens_puncts numbers_ok_simps)
    then show ?thesis using opens_append [OF opens_puncts(3) spells_opens [OF _ opens_puncts(4)]] by fastforce
  qed
next
  case (JObj fs)
  show ?case
  proof (cases "fs = []")
    case True
    then show ?thesis using opens_spells [OF opens_opens [OF opens_puncts(1,2)]] by simp
  next
    case False
    let ?f = "\<lambda>(k, v). encode_string k @ '':'' @ json_encode v"
    have "spells (join_with '','' (map ?f fs)) (comma_join (map member_tokens fs))"
    proof (intro spells_join)
      fix x assume x: "x \<in> set fs"
      obtain k v where kv: "x = (k, v)" by (cases x)
      have "spells (json_encode v) (tokens v)"
        using JObj.IH [OF x, of v] JObj.prems x kv by (auto simp: numbers_ok_simps)
      then show "spells (?f x) (member_tokens x)"
        using opens_append [OF opens_opens [OF opens_string opens_puncts(6)]] kv by fastforce
    qed (simp_all add: opens_puncts False)
    then show ?thesis using opens_append [OF opens_puncts(1) spells_opens [OF _ opens_puncts(2)]] by fastforce
  qed
next
  case (JNum l)
  then show ?case by (simp add: numbers_ok_simps spells_number)
qed (auto intro: opens_spells opens_string opens_words)

lemma spells_indent: "numbers_ok v \<Longrightarrow> spells (json_indent n v) (tokens v)"
proof (induction v arbitrary: n)
  case (JArr xs)
  then show ?case
    using spells_bracketed [OF opens_puncts(3,4), of xs "json_indent (Suc n)" tokens n]
    by (simp add: numbers_ok_simps)
next
  case (JObj fs)
  have "spells (indent_member (Suc n) x) (member_tokens x)" if x: "x \<in> set fs" for x
  proof -
    obtain k v where kv: "x = (k, v)" by (cases x)
    have "spells (json_indent (Suc n) v) (tokens v)"
      using JObj.IH [OF x, of v] JObj.prems x kv by (auto simp: numbers_ok_simps)
    then show ?thesis
      using opens_append [OF opens_opens [OF opens_string opens_opens [OF opens_puncts(6,7)]]] kv by fastforce
  qed
  then show ?case
    using spells_bracketed [OF opens_puncts(1,2), of fs "indent_member (Suc n)" member_tokens n] by simp
next
  case (JNum l)
  then show ?case by (simp add: numbers_ok_simps spells_number)
qed (auto intro: opens_spells opens_string opens_words)

section \<open>The round trip\<close>

definition reads_back :: "json \<Rightarrow> bool" where
  "reads_back v \<longleftrightarrow> (\<forall>st ts. length st + depth v \<le> maxNestingDepth \<longrightarrow>
     json_run (st, MValue) (tokens v @ ts) = json_run (st, MAfter v) ts)"

lemma run_elements:
  assumes "\<And>y. y \<in> set (x # xs) \<Longrightarrow> reads_back y \<and> Suc (length st + depth y) \<le> maxNestingDepth"
  shows "json_run (FArr acc # st, MValue) (comma_join (map tokens (x # xs)) @ TRBrack # ts) =
     json_run (st, MAfter (JArr (rev acc @ x # xs))) ts"
  using assms
proof (induction xs arbitrary: x acc)
  case Nil
  then show ?case by (simp add: reads_back_def)
next
  case (Cons y ys)
  have "json_run (FArr acc # st, MValue) (tokens x @ TComma # comma_join (map tokens (y # ys)) @ TRBrack # ts) =
      json_run (FArr acc # st, MAfter x) (TComma # comma_join (map tokens (y # ys)) @ TRBrack # ts)"
    using Cons.prems [of x] by (simp add: reads_back_def)
  also have "\<dots> = json_run (FArr (x # acc) # st, MValue) (comma_join (map tokens (y # ys)) @ TRBrack # ts)"
    by simp
  also have "\<dots> = json_run (st, MAfter (JArr (rev (x # acc) @ y # ys))) ts"
    using Cons.prems by (intro Cons.IH) auto
  finally show ?case by simp
qed

lemma run_members:
  assumes "\<And>k v. (k, v) \<in> set (x # xs) \<Longrightarrow> reads_back v \<and> Suc (length st + depth v) \<le> maxNestingDepth"
  shows "json_run (st, MKey acc) (comma_join (map member_tokens (x # xs)) @ TRBrace # ts) =
     json_run (st, MAfter (JObj (rev acc @ x # xs))) ts"
  using assms
proof (induction xs arbitrary: x acc)
  case Nil
  then show ?case by (cases x) (simp add: reads_back_def)
next
  case (Cons y ys)
  obtain k v where x: "x = (k, v)" by (cases x)
  let ?rest = "TComma # comma_join (map member_tokens (y # ys)) @ TRBrace # ts"
  have "json_run (st, MKey acc) (member_tokens x @ ?rest) =
      json_run (FObj acc k # st, MValue) (tokens v @ ?rest)"
    by (simp add: x)
  also have "\<dots> = json_run (FObj acc k # st, MAfter v) ?rest"
    using Cons.prems [of k v] x by (simp add: reads_back_def)
  also have "\<dots> = json_run (st, MKey (x # acc)) (comma_join (map member_tokens (y # ys)) @ TRBrace # ts)"
    by (simp add: x)
  also have "\<dots> = json_run (st, MAfter (JObj (rev (x # acc) @ y # ys))) ts"
    using Cons.prems by (intro Cons.IH) auto
  finally show ?case by simp
qed

lemma tokens_first: "\<exists>t ts. tokens v = t # ts \<and> t \<noteq> TRBrack"
  by (cases v) auto

lemma comma_join_first:
  "xs \<noteq> [] \<Longrightarrow> \<exists>t ts. comma_join (map tokens xs) = t # ts \<and> t \<noteq> TRBrack"
proof (cases xs)
  case (Cons x zs)
  then show ?thesis using tokens_first [of x] by (cases zs) auto
qed simp

lemma first_key_run:
  "json_run (st, MFirstKey) (comma_join (map member_tokens (x # xs)) @ ts) =
   json_run (st, MKey []) (comma_join (map member_tokens (x # xs)) @ ts)"
  by (cases x; cases xs) simp_all

lemma depth_elem: "v \<in> set vs \<Longrightarrow> Suc (depth v) \<le> depth (JArr vs)"
  "(k, v) \<in> set fs \<Longrightarrow> Suc (depth v) \<le> depth (JObj fs)"
  by (auto intro!: Max_ge rev_image_eqI)

lemma all_read_back: "reads_back v"
proof (induction v)
  case (JArr xs)
  show ?case unfolding reads_back_def
  proof (intro allI impI)
    fix st :: "frame list" and ts
    assume d: "length st + depth (JArr xs) \<le> maxNestingDepth"
    have inner: "reads_back y \<and> Suc (length st + depth y) \<le> maxNestingDepth" if "y \<in> set xs" for y
      using JArr [OF that] depth_elem(1) [OF that] d by simp
    show "json_run (st, MValue) (tokens (JArr xs) @ ts) = json_run (st, MAfter (JArr xs)) ts"
    proof (cases xs)
      case Nil
      then show ?thesis using d by (simp add: begin_value_def)
    next
      case (Cons y ys)
      obtain t us where t: "comma_join (map tokens xs) = t # us" "t \<noteq> TRBrack"
        using comma_join_first [of xs] Cons by auto
      have "json_run (st, MValue) (tokens (JArr xs) @ ts) =
          json_run (FArr [] # st, MFirstElem) (comma_join (map tokens xs) @ TRBrack # ts)"
        using d by (simp add: begin_value_def)
      also have "\<dots> = json_run (FArr [] # st, MValue) (comma_join (map tokens xs) @ TRBrack # ts)"
        using t by simp
      also have "\<dots> = json_run (st, MAfter (JArr (rev [] @ y # ys))) ts"
        unfolding Cons using inner by (intro run_elements) (simp add: Cons)
      finally show ?thesis by (simp add: Cons)
    qed
  qed
next
  case (JObj fs)
  show ?case unfolding reads_back_def
  proof (intro allI impI)
    fix st :: "frame list" and ts
    assume d: "length st + depth (JObj fs) \<le> maxNestingDepth"
    have inner: "reads_back v \<and> Suc (length st + depth v) \<le> maxNestingDepth" if "(k, v) \<in> set fs" for k v
      using JObj.IH [OF that, of v] depth_elem(2) [OF that] d by simp
    show "json_run (st, MValue) (tokens (JObj fs) @ ts) = json_run (st, MAfter (JObj fs)) ts"
    proof (cases fs)
      case Nil
      then show ?thesis using d by (simp add: begin_value_def)
    next
      case (Cons y ys)
      have "json_run (st, MValue) (tokens (JObj fs) @ ts) =
          json_run (st, MKey []) (comma_join (map member_tokens (y # ys)) @ TRBrace # ts)"
        using d first_key_run [of st y ys "TRBrace # ts"] by (simp add: begin_value_def Cons)
      also have "\<dots> = json_run (st, MAfter (JObj (rev [] @ y # ys))) ts"
        using inner by (intro run_members) (simp add: Cons)
      finally show ?thesis by (simp add: Cons)
    qed
  qed
qed (simp_all add: reads_back_def begin_value_def)

lemma reads_backD:
  "reads_back v \<Longrightarrow> length st + depth v \<le> maxNestingDepth \<Longrightarrow>
    json_run (st, MValue) (tokens v @ ts) = json_run (st, MAfter v) ts"
  by (simp add: reads_back_def)

lemma parse_tokens:
  assumes "spells s (tokens v)" "depth v \<le> maxNestingDepth" "stops r" "lex_json r = Some []"
  shows "json_parse (s @ r) = Some v"
proof -
  have "lex_json (s @ r) = Some (tokens v)" using assms(1,3,4) by (simp add: spells_def)
  moreover have "json_run ([], MValue) (tokens v @ []) = json_run ([], MAfter v) []"
    by (rule reads_backD [OF all_read_back]) (simp add: assms(2))
  ultimately show ?thesis by (simp add: json_parse_def)
qed

lemma json_parse_encode:
  "numbers_ok v \<Longrightarrow> depth v \<le> maxNestingDepth \<Longrightarrow> json_parse (json_encode v) = Some v"
  using parse_tokens [OF spells_encode, of v "[]"] by (simp add: stops_def)

lemma json_parse_indent:
  "numbers_ok v \<Longrightarrow> depth v \<le> maxNestingDepth \<Longrightarrow> json_parse (json_indent n v) = Some v"
  "numbers_ok v \<Longrightarrow> depth v \<le> maxNestingDepth \<Longrightarrow> json_parse (json_indent n v @ [CHR 0x0A]) = Some v"
  using parse_tokens [OF spells_indent, of v "[]"] parse_tokens [OF spells_indent, of v "[CHR 0x0A]"]
  by (simp_all add: stops_def number_chars json_space_def)

section \<open>Decoding what was encoded\<close>

text \<open>The scanner keeps containers out of the scalars.\<close>

fun proper :: "rjson \<Rightarrow> bool" where
  "proper (RScalar x v) = (case v of JArr vs \<Rightarrow> False | JObj fs \<Rightarrow> False | _ \<Rightarrow> True)"
| "proper (RArr x js) = list_all proper js"
| "proper (RObj x fs) = list_all (\<lambda>(k, j). proper j) fs"

lemma annotate_proper:
  "proper (fst (annotate v sps))"
  "list_all proper (fst (annotate_elems vs sps))"
  "list_all (\<lambda>(k, j). proper j) (fst (annotate_members fs sps))"
  by (induction v sps and vs sps and fs sps rule: annotate_annotate_elems_annotate_members.induct)
    (auto simp: Let_def list_all_iff split: prod.splits if_splits json.splits)

lemma raw_parse_of:
  assumes "json_parse s = Some v"
  obtains j where "raw_parse s = Some j" "plain j = v" "proper j"
proof -
  obtain j where j: "raw_parse s = Some j" "plain j = v" using assms raw_parse_plain [of s] by auto
  then have "proper j" using annotate_proper(1) by (auto simp: raw_parse_def split: option.splits)
  then show thesis using j that by blast
qed

lemma proper_plain:
  assumes "proper j"
  shows "plain j = JStr s \<longleftrightarrow> (\<exists>x. j = RScalar x (JStr s))" "plain j = JNum l \<longleftrightarrow> (\<exists>x. j = RScalar x (JNum l))"
    "plain j = JBool b \<longleftrightarrow> (\<exists>x. j = RScalar x (JBool b))" "plain j = JNull \<longleftrightarrow> (\<exists>x. j = RScalar x JNull)"
    "plain j = JArr vs \<longleftrightarrow> (\<exists>x js. j = RArr x js \<and> list_all proper js \<and> map plain js = vs)"
    "plain j = JObj gs \<longleftrightarrow> (\<exists>x fs. j = RObj x fs \<and> list_all (\<lambda>(k, j). proper j) fs \<and>
       map (\<lambda>(k, j). (k, plain j)) fs = gs)"
  using assms by (cases j; auto split: json.splits)+

text \<open>\<open>stores st cur v x\<close>: storing a text whose value is \<open>v\<close> over \<open>cur\<close> leaves \<open>x\<close>;
  \<open>members_store\<close> says the same of the members of an object.\<close>

named_theorems stores_intro

definition stores :: "'a store \<Rightarrow> 'a \<Rightarrow> json \<Rightarrow> 'a \<Rightarrow> bool" where
  "stores st cur v x \<longleftrightarrow> (\<forall>j. proper j \<longrightarrow> plain j = v \<longrightarrow> st cur j = Some x)"

definition members_store :: "(string \<times> 'a store) list \<Rightarrow> 'a \<Rightarrow> (string \<times> json) list \<Rightarrow> 'a \<Rightarrow> bool" where
  "members_store tbl cur gs x \<longleftrightarrow>
     (\<forall>fs. list_all (\<lambda>(k, j). proper j) fs \<longrightarrow> map (\<lambda>(k, j). (k, plain j)) fs = gs \<longrightarrow>
        store_members tbl cur fs = Some x)"

lemma unmarshal_stores:
  assumes "json_parse s = Some v" "stores st zero v x"
  shows "unmarshal zero st s = Some x"
proof -
  obtain j where "raw_parse s = Some j" "plain j = v" "proper j" using assms(1) by (rule raw_parse_of)
  then show ?thesis using assms(2) by (simp add: unmarshal_def stores_def)
qed

lemma stores_scalar [stores_intro]:
  "stores store_string cur (JStr s) s" "stores store_bool was (JBool b) b"
  "in_int64 n \<Longrightarrow> stores store_int old (JNum (itoa n)) n"
  by (auto simp: stores_def proper_plain store_string_def store_bool_def store_int_def atoi_itoa)

lemma stores_on [stores_intro]:
  "stores st (get cur) v x \<Longrightarrow> stores (on get put st) cur v (put x cur)"
  by (simp add: stores_def on_def)

lemma stores_struct [stores_intro]:
  "members_store tbl cur gs x \<Longrightarrow> stores (store_struct tbl) cur (JObj gs) x"
  by (auto simp: stores_def members_store_def proper_plain store_struct_def)

lemma stores_slice [stores_intro]:
  assumes "\<And>x. x \<in> set xs \<Longrightarrow> stores st zero (f x) x"
  shows "stores (store_slice zero st) [] (JArr (map f xs)) xs"
proof -
  have "store_elems zero st [] js = Some ys"
    if "list_all proper js" "map plain js = map f ys" "set ys \<subseteq> set xs" for js ys
    using that assms
  proof (induction ys arbitrary: js)
    case (Cons y ys)
    then show ?case by (cases js) (auto simp: stores_def)
  qed simp
  then show ?thesis by (auto simp: stores_def proper_plain store_slice_def)
qed

lemma members_Nil: "members_store tbl cur [] cur"
  by (simp add: members_store_def)

lemma members_Cons:
  "field_of tbl k = Some st \<Longrightarrow> stores st cur v c \<Longrightarrow> members_store tbl c gs x \<Longrightarrow>
   members_store tbl cur ((k, v) # gs) x"
  by (auto simp: members_store_def stores_def)

lemma members_append:
  assumes "members_store tbl cur gs c" "members_store tbl c hs x"
  shows "members_store tbl cur (gs @ hs) x"
proof -
  have "store_members tbl cur fs = Some c \<Longrightarrow> store_members tbl cur (fs @ es) = store_members tbl c es" for fs es
    by (induction tbl cur fs rule: store_members.induct) (auto split: option.splits)
  then show ?thesis using assms unfolding members_store_def
    by (auto simp: map_eq_append_conv)
qed

lemma members_one:
  "field_of tbl k = Some st \<Longrightarrow> stores st cur v x \<Longrightarrow> members_store tbl cur [(k, v)] x"
  by (rule members_Cons [OF _ _ members_Nil])

lemma members_opt_int:
  assumes "field_of tbl k = Some (on get put store_int)" "in_int64 n" "put 0 cur = cur"
  shows "members_store tbl cur (opt_int k n) (put n cur)"
  using assms members_one [OF assms(1) stores_on [OF stores_scalar(3)]] members_Nil [of tbl cur]
  by (simp add: opt_int_def)

lemma members_opt_string:
  assumes "field_of tbl k = Some (on get put store_string)" "put [] cur = cur"
  shows "members_store tbl cur (opt_string k s) (put s cur)"
  using assms members_one [OF assms(1) stores_on [OF stores_scalar(1)]] members_Nil [of tbl cur]
  by (simp add: opt_string_def)

lemma members_opt_strings:
  assumes "field_of tbl k = Some (on get put (store_slice [] store_string))" "put [] cur = cur" "get cur = []"
  shows "members_store tbl cur (opt_strings k xs) (put xs cur)"
proof -
  have "stores (store_slice [] store_string) (get cur) (JArr (map JStr xs)) xs"
    unfolding assms(3) by (intro stores_slice stores_scalar)
  then show ?thesis
    using assms members_one [OF assms(1) stores_on] members_Nil [of tbl cur] by (simp add: opt_strings_def)
qed

section \<open>What the encoders can write\<close>

lemma nat_digits_lead: "0 < m \<Longrightarrow> hd (nat_digits m) \<noteq> CHR ''0''"
proof (induction m rule: nat_digits.induct)
  case (1 m)
  show ?case
  proof (cases "m < 10")
    case True
    have "char_of (48 + m) \<noteq> CHR ''0''"
    proof
      assume eq: "char_of (48 + m) = CHR ''0''"
      have "(of_char (CHR ''0'') :: nat) = 48 + m" unfolding eq [symmetric] by (rule of_char_digit [OF True])
      then show False using 1(2) by simp
    qed
    then show ?thesis using True by (subst nat_digits.simps) simp
  next
    case False
    then show ?thesis using 1 by (subst nat_digits.simps) simp
  qed
qed

lemma number_text_digits: "valid_number (nat_digits m)" "valid_number (CHR ''-'' # nat_digits m)"
proof -
  have "(of_char (CHR ''0'') :: nat) = 48" by simp
  then have "char_of (48 :: nat) = CHR ''0''" by (metis char_of_char)
  then have zero: "nat_digits 0 = ''0''" by (subst nat_digits.simps) simp
  have all: "takeWhile is_digit (nat_digits m) = nat_digits m" "dropWhile is_digit (nat_digits m) = []"
    using nat_digits_digits [of m] by (simp_all add: list_all_iff)
  have lead: "hd (nat_digits m) = CHR ''0'' \<longrightarrow> length (nat_digits m) = 1"
    using nat_digits_lead [of m] zero by (cases "m = 0") auto
  have "nat_digits m = c # r \<Longrightarrow> c \<noteq> CHR ''-''" for c r
    using nat_digits_digits [of m] by (auto simp: is_digit_def)
  then have t: "(case nat_digits m of [] \<Rightarrow> [] | c # r \<Rightarrow> if c = CHR ''-'' then r else nat_digits m) = nat_digits m"
    by (auto split: list.splits)
  show "valid_number (nat_digits m)"
    unfolding valid_number_def Let_def t all using lead by simp
  show "valid_number (CHR ''-'' # nat_digits m)"
    unfolding valid_number_def Let_def list.case if_True simp_thms all using lead by simp
qed

lemma number_text_itoa: "number_text (itoa n)"
proof -
  have "list_all number_char (nat_digits m)" for m
    using nat_digits_digits [of m] by (auto simp: list_all_iff number_char_def)
  then show ?thesis
    using number_text_digits by (simp add: itoa_def number_text_def number_char_def)
qed

lemma numbers_ok_opt:
  "numbers_ok (JObj (gs @ hs)) \<longleftrightarrow> numbers_ok (JObj gs) \<and> numbers_ok (JObj hs)"
  "numbers_ok (JObj (opt_int k n))" "numbers_ok (JObj (opt_string k s))" "numbers_ok (JObj (opt_strings k xs))"
  by (auto simp: numbers_ok_simps opt_int_def opt_string_def opt_strings_def number_text_itoa)

lemma depth_bounds:
  "depth (JObj gs) \<le> Suc n \<longleftrightarrow> (\<forall>(k, v) \<in> set gs. depth v \<le> n)"
  "depth (JArr vs) \<le> Suc n \<longleftrightarrow> (\<forall>v \<in> set vs. depth v \<le> n)"
  by (auto simp: case_prod_beta)

lemma depth_opt:
  "(k', v) \<in> set (opt_int k n) \<Longrightarrow> depth v = 0" "(k', v) \<in> set (opt_string k s) \<Longrightarrow> depth v = 0"
  "(k', v) \<in> set (opt_strings k xs) \<Longrightarrow> depth v \<le> 1"
  by (auto simp: opt_int_def opt_string_def opt_strings_def split: if_splits)

end
