(* ===== verification/JsonStream.thy ===== *)
theory JsonStream
  imports JsonText "HOL-Library.List_Lexorder" "HOL-Library.Char_ord"
begin

text \<open>
  More of \<open>encoding/json\<close>: a \<open>Decoder\<close>, which reads the first value of a text and leaves the rest, the
  decoding of maps and of structs that disallow unknown fields, and the encoding of maps in the order
  of their keys. The texts of the members of a decoded value are not kept here.
\<close>

section \<open>The first value of a text\<close>

fun next_token :: "string \<Rightarrow> (jtok \<times> string) option" where
  "next_token [] = None"
| "next_token (c # cs) =
     (if json_space c then next_token cs
      else if punct c \<noteq> None then Some (the (punct c), cs)
      else if c = CHR 0x22 then
        (case lex_string cs of None \<Rightarrow> None | Some (items, r) \<Rightarrow> Some (TScalar (JStr (decode_items items)), r))
      else if has_prefix (c # cs) ''null'' then Some (TScalar JNull, drop 3 cs)
      else if has_prefix (c # cs) ''true'' then Some (TScalar (JBool True), drop 3 cs)
      else if has_prefix (c # cs) ''false'' then Some (TScalar (JBool False), drop 4 cs)
      else if number_char c then
        (if valid_number (c # takeWhile number_char cs)
         then Some (TScalar (JNum (c # takeWhile number_char cs)), dropWhile number_char cs)
         else None)
      else None)"

lemma next_token_shorter: "next_token s = Some (t, r) \<Longrightarrow> length r < length s"
  by (induction s rule: next_token.induct)
    (auto dest: lex_string_shorter simp: le_imp_less_Suc length_dropWhile_le split: if_splits option.splits)

function first_value :: "frame list \<times> jmode \<Rightarrow> string \<Rightarrow> json option" where
  "first_value st s =
     (case next_token s of
        None \<Rightarrow> None
      | Some (t, r) \<Rightarrow>
          (case json_step st t of
             None \<Rightarrow> None
           | Some st' \<Rightarrow> (case st' of ([], MAfter v) \<Rightarrow> Some v | _ \<Rightarrow> first_value st' r)))"
  by pat_completeness auto
termination by (relation "measure (\<lambda>(st, s). length s)") (auto dest: next_token_shorter)

declare first_value.simps [simp del]

fun bare :: "json \<Rightarrow> rjson" where
  "bare (JArr vs) = RArr [] (map bare vs)"
| "bare (JObj fs) = RObj [] (map (\<lambda>(k, v). (k, bare v)) fs)"
| "bare v = RScalar [] v"

text \<open>\<open>NewDecoder(text).Decode(&v)\<close>\<close>

definition decode_first :: "'a \<Rightarrow> 'a store \<Rightarrow> string \<Rightarrow> 'a option" where
  "decode_first zero st s =
     (case first_value ([], MValue) s of None \<Rightarrow> None | Some v \<Rightarrow> st zero (bare v))"

lemma plain_bare [simp]: "plain (bare v) = v"
  by (induction v) (auto simp: map_idI case_prod_beta intro!: map_idI)

lemma proper_bare: "proper (bare v)"
  by (induction v) (auto simp: list_all_iff)

lemma lex_json_next:
  "lex_json s = Some (t # ts) \<Longrightarrow> \<exists>r. next_token s = Some (t, r) \<and> lex_json r = Some ts"
  by (induction s rule: next_token.induct) (auto split: if_splits option.splits)

lemma first_value_of_run:
  assumes "lex_json s = Some ts" "json_run st ts = Some ([], MAfter v)" "ts \<noteq> []"
  shows "first_value st s = Some v"
  using assms
proof (induction ts arbitrary: s st)
  case (Cons t ts)
  obtain r where r: "next_token s = Some (t, r)" "lex_json r = Some ts" using lex_json_next Cons.prems(1) by blast
  obtain st' where st': "json_step st t = Some st'" "json_run st' ts = Some ([], MAfter v)"
    using Cons.prems(2) by (auto split: option.splits)
  show ?case
  proof (cases "ts = []")
    case True
    then show ?thesis using r st' by (subst first_value.simps) simp
  next
    case False
    have IH: "first_value st' r = Some v" by (rule Cons.IH [OF r(2) st'(2) False])
    have "\<not> (\<exists>w. st' = ([], MAfter w))" using st'(2) False by (cases ts) auto
    then show ?thesis using r st' IH
      by (subst first_value.simps) (auto split: list.splits jmode.splits prod.splits)
  qed
qed simp

lemma first_value_parse:
  assumes "json_parse s = Some v"
  shows "first_value ([], MValue) s = Some v"
proof -
  obtain ts where ts: "lex_json s = Some ts" "json_run ([], MValue) ts = Some ([], MAfter v)"
    using assms by (auto simp: json_parse_def split: option.splits prod.splits list.splits jmode.splits)
  then show ?thesis by (intro first_value_of_run) auto
qed

lemma decode_first_stores:
  "json_parse s = Some v \<Longrightarrow> stores st zero v x \<Longrightarrow> decode_first zero st s = Some x"
  by (simp add: decode_first_def first_value_parse stores_def proper_bare)

section \<open>Maps and strict structs\<close>

fun map_members :: "'a \<Rightarrow> 'a store \<Rightarrow> (string \<times> 'a) list \<Rightarrow> (string \<times> rjson) list \<Rightarrow> (string \<times> 'a) list option" where
  "map_members zero st cur [] = Some cur"
| "map_members zero st cur ((k, j) # fs) =
     (case st zero j of None \<Rightarrow> None | Some v \<Rightarrow> map_members zero st (obj_put k v cur) fs)"

definition store_map :: "'a \<Rightarrow> 'a store \<Rightarrow> (string \<times> 'a) list store" where
  "store_map zero st cur j =
     (case j of RObj x fs \<Rightarrow> map_members zero st cur fs | RScalar x JNull \<Rightarrow> Some [] | _ \<Rightarrow> None)"

definition store_any :: "(string \<Rightarrow> string option) \<Rightarrow> json store" where
  "store_any fl cur j = any_value fl (plain j)"

definition store_float :: "(string \<Rightarrow> string option) \<Rightarrow> string store" where
  "store_float fl cur j =
     (case j of RScalar x (JNum l) \<Rightarrow> fl l | RScalar x JNull \<Rightarrow> Some cur | _ \<Rightarrow> None)"

definition strict_struct :: "(string \<times> 'a store) list \<Rightarrow> 'a store" where
  "strict_struct tbl cur j =
     (case j of
        RObj x fs \<Rightarrow> if list_all (\<lambda>(k, v). field_of tbl k \<noteq> None) fs then store_members tbl cur fs else None
      | RScalar x JNull \<Rightarrow> Some cur
      | _ \<Rightarrow> None)"

text \<open>Encoding sorts the keys of a map, and those of any map inside a generic value.\<close>

fun sorted_any :: "json \<Rightarrow> json" where
  "sorted_any (JArr vs) = JArr (map sorted_any vs)"
| "sorted_any (JObj fs) = JObj (sort_key fst (map (\<lambda>(k, v). (k, sorted_any v)) fs))"
| "sorted_any v = v"

definition map_value :: "('a \<Rightarrow> json) \<Rightarrow> (string \<times> 'a) list \<Rightarrow> json" where
  "map_value f m = JObj (map (\<lambda>(k, v). (k, f v)) (sort_key fst m))"

definition opt_map :: "string \<Rightarrow> ('a \<Rightarrow> json) \<Rightarrow> (string \<times> 'a) list \<Rightarrow> (string \<times> json) list" where
  "opt_map k f m = (if m = [] then [] else [(k, map_value f m)])"

lemma obj_put_new: "k \<notin> fst ` set m \<Longrightarrow> obj_put k v m = m @ [(k, v)]"
  by (induction k v m rule: obj_put.induct) auto

lemma stores_map:
  assumes "\<And>k v. (k, v) \<in> set m \<Longrightarrow> stores st zero (f v) v"
    and "sorted (map fst m)" "distinct (map fst m)"
  shows "stores (store_map zero st) [] (map_value f m) m"
proof -
  have "map_members zero st acc fs = Some (acc @ ys)"
    if "list_all (\<lambda>(k, j). proper j) fs" "map (\<lambda>(k, j). (k, plain j)) fs = map (\<lambda>(k, v). (k, f v)) ys"
      "set ys \<subseteq> set m" "distinct (map fst (acc @ ys))" for acc fs ys
    using that assms(1)
  proof (induction ys arbitrary: acc fs)
    case (Cons y ys)
    obtain k v where y: "y = (k, v)" by (cases y)
    obtain j fs' where fs: "fs = (k, j) # fs'" "plain j = f v" "proper j"
        "map (\<lambda>(k, j). (k, plain j)) fs' = map (\<lambda>(k, v). (k, f v)) ys" "list_all (\<lambda>(k, j). proper j) fs'"
      using Cons.prems(1,2) y by (cases fs) (auto split: prod.splits)
    have "st zero j = Some v" using Cons.prems(3,5) fs y by (auto simp: stores_def)
    moreover have "k \<notin> fst ` set acc" using Cons.prems(4) y by auto
    ultimately show ?case
      using Cons.IH [of fs' "acc @ [(k, v)]"] fs Cons.prems(3-5) y by (simp add: obj_put_new)
  qed simp
  moreover have "sort_key fst m = m"
    using assms(2) by (induction m) (auto simp: insort_is_Cons)
  ultimately show ?thesis using assms(3)
    by (fastforce simp: stores_def proper_plain store_map_def map_value_def)
qed

lemma stores_strict:
  assumes "members_store tbl cur gs x" "list_all (\<lambda>(k, v). field_of tbl k \<noteq> None) gs"
  shows "stores (strict_struct tbl) cur (JObj gs) x"
proof -
  have "list_all (\<lambda>(k, v). field_of tbl k \<noteq> None) fs" if "map (\<lambda>(k, j). (k, plain j)) fs = gs" for fs
    using assms(2) that by (force simp: list_all_iff)
  then show ?thesis using assms(1)
    by (auto simp: stores_def members_store_def proper_plain strict_struct_def)
qed

lemma members_opt_map:
  assumes "field_of tbl k = Some (on get put (store_map zero st))" "put [] cur = cur" "get cur = []"
    and "\<And>k v. (k, v) \<in> set m \<Longrightarrow> stores st zero (f v) v" "sorted (map fst m)" "distinct (map fst m)"
  shows "members_store tbl cur (opt_map k f m) (put m cur)"
proof -
  have "stores (store_map zero st) (get cur) (map_value f m) m"
    unfolding assms(3) using assms(4-6) by (rule stores_map)
  then show ?thesis using assms(1,2) members_one [OF assms(1) stores_on] members_Nil [of tbl cur]
    by (simp add: opt_map_def)
qed

end
