(* ===== verification/Shlex.thy ===== *)
theory Shlex
  imports Prelude
begin

text \<open>
  \<open>internal/config/shlex.go\<close>: the word splitter both \<open>MODEL_SOURCE\<close> and \<open>ENGINE_ARGS\<close> go
  through. The loop's five variables are a record and one iteration is \<open>shlex_step\<close>; the result
  is characterised by a grammar of shell words, which the loop accepts exactly.
\<close>

definition dquote :: char where "dquote = CHR 0x22"
definition squote :: char where "squote = CHR 0x27"
definition bslash :: char where "bslash = CHR 0x5C"

definition is_blank :: "char \<Rightarrow> bool" where
  "is_blank c \<longleftrightarrow> c = CHR 0x20 \<or> c = CHR 0x09 \<or> c = CHR 0x0A \<or> c = CHR 0x0D"

definition is_quote :: "char \<Rightarrow> bool" where
  "is_quote c \<longleftrightarrow> c = dquote \<or> c = squote"

lemmas shlex_chars = is_blank_def is_quote_def dquote_def squote_def bslash_def

lemma char_classes_disjoint [simp]:
  "is_quote c \<Longrightarrow> \<not> is_blank c" "is_quote c \<Longrightarrow> c \<noteq> bslash"
  "is_blank c \<Longrightarrow> c \<noteq> bslash" "is_blank c \<Longrightarrow> \<not> is_quote c"
  "\<not> is_blank bslash" "\<not> is_quote bslash"
  by (auto simp: shlex_chars)

datatype shlex_error = UnbalancedQuote char | DanglingBackslash

record shlex_state =
  sh_tokens :: "string list"
  sh_cur :: string
  sh_inToken :: bool
  sh_quote :: "char option"   \<comment> \<open>\<open>byte(0)\<close> is \<open>None\<close>\<close>
  sh_escaped :: bool

definition shlex_init :: shlex_state where
  "shlex_init = \<lparr>sh_tokens = [], sh_cur = [], sh_inToken = False, sh_quote = None,
                 sh_escaped = False\<rparr>"

definition shlex_step :: "shlex_state \<Rightarrow> char \<Rightarrow> shlex_state" where
  "shlex_step st c =
     (if sh_escaped st
      then st\<lparr>sh_cur := sh_cur st @ [c], sh_escaped := False, sh_inToken := True\<rparr>
      else if sh_quote st = None \<and> c = bslash
      then st\<lparr>sh_escaped := True, sh_inToken := True\<rparr>
      else if sh_quote st = None \<and> is_blank c
      then (if sh_inToken st
            then st\<lparr>sh_tokens := sh_tokens st @ [sh_cur st], sh_cur := [], sh_inToken := False\<rparr>
            else st)
      else if sh_quote st = None \<and> is_quote c
      then st\<lparr>sh_quote := Some c, sh_inToken := True\<rparr>
      else if sh_quote st = Some c
      then st\<lparr>sh_quote := None\<rparr>
      else st\<lparr>sh_cur := sh_cur st @ [c], sh_inToken := True\<rparr>)"

definition shlex_finish :: "shlex_state \<Rightarrow> shlex_error + string list" where
  "shlex_finish st =
     (case sh_quote st of
        Some q \<Rightarrow> Inl (UnbalancedQuote q)
      | None \<Rightarrow>
          if sh_escaped st then Inl DanglingBackslash
          else Inr (sh_tokens st @ (if sh_inToken st then [sh_cur st] else [])))"

definition shlex :: "string \<Rightarrow> shlex_error + string list" where
  "shlex s = shlex_finish (foldl shlex_step shlex_init s)"

section \<open>The grammar of shell words\<close>

text \<open>
  A word is a non-empty sequence of pieces: a plain byte, an escaped byte, or a quoted run. Pieces
  concatenate; blanks separate words.
\<close>

datatype piece = Plain char | Esc char | Quoted char string

fun wf_piece :: "piece \<Rightarrow> bool" where
  "wf_piece (Plain c) \<longleftrightarrow> \<not> is_blank c \<and> \<not> is_quote c \<and> c \<noteq> bslash"
| "wf_piece (Esc c) \<longleftrightarrow> True"
| "wf_piece (Quoted q s) \<longleftrightarrow> is_quote q \<and> q \<notin> set s"

fun piece_src :: "piece \<Rightarrow> string" where
  "piece_src (Plain c) = [c]"
| "piece_src (Esc c) = [bslash, c]"
| "piece_src (Quoted q s) = q # s @ [q]"

fun piece_val :: "piece \<Rightarrow> string" where
  "piece_val (Plain c) = [c]"
| "piece_val (Esc c) = [c]"
| "piece_val (Quoted q s) = s"

definition word_src :: "piece list \<Rightarrow> string" where
  "word_src w = concat (map piece_src w)"

definition word_val :: "piece list \<Rightarrow> string" where
  "word_val w = concat (map piece_val w)"

definition wf_word :: "piece list \<Rightarrow> bool" where
  "wf_word w \<longleftrightarrow> list_all wf_piece w"

lemma word_simps [simp]:
  "word_src [] = []" "word_src (p # w) = piece_src p @ word_src w"
  "word_val [] = []" "word_val (p # w) = piece_val p @ word_val w"
  "wf_word []" "wf_word (p # w) \<longleftrightarrow> wf_piece p \<and> wf_word w"
  by (simp_all add: word_src_def word_val_def wf_word_def)

inductive shell_words :: "string \<Rightarrow> string list \<Rightarrow> bool" where
  sw_end: "shell_words [] []"
| sw_blank: "is_blank c \<Longrightarrow> shell_words s ts \<Longrightarrow> shell_words (c # s) ts"
| sw_last: "wf_word w \<Longrightarrow> w \<noteq> [] \<Longrightarrow> shell_words (word_src w) [word_val w]"
| sw_word: "wf_word w \<Longrightarrow> w \<noteq> [] \<Longrightarrow> is_blank c \<Longrightarrow> shell_words s ts \<Longrightarrow>
    shell_words (word_src w @ c # s) (word_val w # ts)"

section \<open>The loop accepts the grammar\<close>

text \<open>A state outside quotes and escapes, with the tokens so far and the word being read.\<close>

abbreviation between :: "string list \<Rightarrow> shlex_state" where
  "between ts \<equiv> \<lparr>sh_tokens = ts, sh_cur = [], sh_inToken = False, sh_quote = None,
                  sh_escaped = False\<rparr>"

abbreviation in_word :: "string list \<Rightarrow> string \<Rightarrow> shlex_state" where
  "in_word ts u \<equiv> \<lparr>sh_tokens = ts, sh_cur = u, sh_inToken = True, sh_quote = None,
                    sh_escaped = False\<rparr>"

abbreviation in_quote :: "string list \<Rightarrow> string \<Rightarrow> char \<Rightarrow> shlex_state" where
  "in_quote ts u q \<equiv> \<lparr>sh_tokens = ts, sh_cur = u, sh_inToken = True, sh_quote = Some q,
                       sh_escaped = False\<rparr>"

abbreviation in_escape :: "string list \<Rightarrow> string \<Rightarrow> shlex_state" where
  "in_escape ts u \<equiv> \<lparr>sh_tokens = ts, sh_cur = u, sh_inToken = True, sh_quote = None,
                      sh_escaped = True\<rparr>"

lemma step_between:
  "shlex_step (between ts) c =
     (if c = bslash then in_escape ts [] else if is_blank c then between ts
      else if is_quote c then in_quote ts [] c else in_word ts [c])"
  by (simp add: shlex_step_def)

lemma step_in_word:
  "shlex_step (in_word ts u) c =
     (if c = bslash then in_escape ts u else if is_blank c then between (ts @ [u])
      else if is_quote c then in_quote ts u c else in_word ts (u @ [c]))"
  by (simp add: shlex_step_def)

lemma step_in_quote:
  "shlex_step (in_quote ts u q) c = (if c = q then in_word ts u else in_quote ts (u @ [c]) q)"
  by (simp add: shlex_step_def)

lemma step_in_escape: "shlex_step (in_escape ts u) c = in_word ts (u @ [c])"
  by (simp add: shlex_step_def)

lemmas shlex_steps = step_between step_in_word step_in_quote step_in_escape

lemma run_quoted: "q \<notin> set s \<Longrightarrow> foldl shlex_step (in_quote ts u q) (s @ [q]) = in_word ts (u @ s)"
  by (induction s arbitrary: u) (auto simp: shlex_steps)

lemma run_piece:
  "wf_piece p \<Longrightarrow> foldl shlex_step (in_word ts u) (piece_src p) = in_word ts (u @ piece_val p)"
  using run_quoted by (cases p) (auto simp: shlex_steps)

lemma run_word:
  "wf_word w \<Longrightarrow> foldl shlex_step (in_word ts u) (word_src w) = in_word ts (u @ word_val w)"
  by (induction w arbitrary: u) (simp_all add: run_piece)

lemma run_first_piece:
  "wf_piece p \<Longrightarrow> foldl shlex_step (between ts) (piece_src p) = in_word ts (piece_val p)"
  using run_quoted [of _ _ ts "[]"] by (cases p) (auto simp: shlex_steps)

lemma run_first_word:
  "wf_word w \<Longrightarrow> w \<noteq> [] \<Longrightarrow> foldl shlex_step (between ts) (word_src w) = in_word ts (word_val w)"
  by (cases w) (simp_all add: run_first_piece run_word)

lemma shell_words_accepted:
  "shell_words s ts \<Longrightarrow> shlex_finish (foldl shlex_step (between us) s) = Inr (us @ ts)"
proof (induction arbitrary: us rule: shell_words.induct)
  case sw_end
  then show ?case by (simp add: shlex_finish_def)
next
  case (sw_blank c s ts)
  then show ?case by (simp add: shlex_steps)
next
  case (sw_last w)
  then show ?case by (simp add: run_first_word shlex_finish_def)
next
  case (sw_word w c s ts)
  then show ?case by (simp add: run_first_word shlex_steps)
qed

section \<open>The loop accepts nothing else\<close>

text \<open>
  What a suffix must look like when the loop, in the middle of a word \<open>u\<close>, ends without an error:
  the rest of the word, and then either the end or a blank and more words.
\<close>

definition rest_of_word :: "string \<Rightarrow> string \<Rightarrow> string list \<Rightarrow> bool" where
  "rest_of_word u s ts \<longleftrightarrow>
     (\<exists>w. wf_word w \<and>
        ((s = word_src w \<and> ts = [u @ word_val w]) \<or>
         (\<exists>c s' ts'. s = word_src w @ c # s' \<and> is_blank c \<and> shell_words s' ts' \<and>
                     ts = (u @ word_val w) # ts')))"

lemma rest_of_word_piece:
  assumes "wf_piece p" and "rest_of_word (u @ piece_val p) s ts"
  shows "rest_of_word u (piece_src p @ s) ts"
proof -
  from assms(2) obtain w where w: "wf_word w" and
    alt: "(s = word_src w \<and> ts = [u @ word_val (p # w)]) \<or>
      (\<exists>c s' ts'. s = word_src w @ c # s' \<and> is_blank c \<and> shell_words s' ts' \<and>
         ts = (u @ word_val (p # w)) # ts')"
    unfolding rest_of_word_def by auto
  have "wf_word (p # w)" using w assms(1) by simp
  then show ?thesis using alt unfolding rest_of_word_def by (intro exI [of _ "p # w"]) auto
qed

lemma rest_of_word_Nil: "rest_of_word u [] [u]"
  unfolding rest_of_word_def by (intro exI [of _ "[]"]) simp

lemma rest_of_word_blank: "is_blank c \<Longrightarrow> shell_words s ts \<Longrightarrow> rest_of_word u (c # s) (u # ts)"
  unfolding rest_of_word_def by (intro exI [of _ "[]"]) auto

lemma rest_of_word_shell_words:
  assumes "rest_of_word (piece_val p) s ts" and "wf_piece p"
  shows "shell_words (piece_src p @ s) ts"
proof -
  from assms(1) obtain w where w: "wf_word (p # w)" and
    alt: "(s = word_src w \<and> ts = [word_val (p # w)]) \<or>
      (\<exists>c s' ts'. s = word_src w @ c # s' \<and> is_blank c \<and> shell_words s' ts' \<and>
         ts = word_val (p # w) # ts')"
    unfolding rest_of_word_def using assms(2) by auto
  from alt show ?thesis
    using w sw_last [of "p # w"] sw_word [of "p # w"] by auto
qed

lemma finish_eqs:
  "shlex_finish (between us) = Inr us"
  "shlex_finish (in_word us u) = Inr (us @ [u])"
  "shlex_finish (in_quote us u q) = Inl (UnbalancedQuote q)"
  "shlex_finish (in_escape us u) = Inl DanglingBackslash"
  by (simp_all add: shlex_finish_def)

text \<open>One statement per kind of state; the four are proved together by induction on the input.\<close>

definition ok_between :: "string \<Rightarrow> bool" where
  "ok_between s \<longleftrightarrow> (\<forall>us r. shlex_finish (foldl shlex_step (between us) s) = Inr r \<longrightarrow>
     (\<exists>ts. r = us @ ts \<and> shell_words s ts))"

definition ok_word :: "string \<Rightarrow> bool" where
  "ok_word s \<longleftrightarrow> (\<forall>us u r. shlex_finish (foldl shlex_step (in_word us u) s) = Inr r \<longrightarrow>
     (\<exists>ts. r = us @ ts \<and> rest_of_word u s ts))"

definition ok_escape :: "string \<Rightarrow> bool" where
  "ok_escape s \<longleftrightarrow> (\<forall>us u r. shlex_finish (foldl shlex_step (in_escape us u) s) = Inr r \<longrightarrow>
     (\<exists>c s' ts. s = c # s' \<and> r = us @ ts \<and> rest_of_word (u @ piece_val (Esc c)) s' ts))"

definition ok_quote :: "string \<Rightarrow> bool" where
  "ok_quote s \<longleftrightarrow> (\<forall>us u q r. shlex_finish (foldl shlex_step (in_quote us u q) s) = Inr r \<longrightarrow>
     (\<exists>v s' ts. s = v @ q # s' \<and> q \<notin> set v \<and> r = us @ ts \<and>
        rest_of_word (u @ piece_val (Quoted q v)) s' ts))"

lemma ok_betweenD:
  "ok_between s \<Longrightarrow> shlex_finish (foldl shlex_step (between us) s) = Inr r \<Longrightarrow>
     \<exists>ts. r = us @ ts \<and> shell_words s ts"
  unfolding ok_between_def by blast

lemma ok_wordD:
  "ok_word s \<Longrightarrow> shlex_finish (foldl shlex_step (in_word us u) s) = Inr r \<Longrightarrow>
     \<exists>ts. r = us @ ts \<and> rest_of_word u s ts"
  unfolding ok_word_def by blast

lemma ok_escapeE:
  assumes "ok_escape s" "shlex_finish (foldl shlex_step (in_escape us u) s) = Inr r"
  obtains c s' ts where "s = c # s'" "r = us @ ts" "rest_of_word (u @ piece_val (Esc c)) s' ts"
  using assms unfolding ok_escape_def by blast

lemma ok_quoteE:
  assumes "ok_quote s" "shlex_finish (foldl shlex_step (in_quote us u q) s) = Inr r"
  obtains v s' ts where "s = v @ q # s'" "q \<notin> set v" "r = us @ ts"
    "rest_of_word (u @ piece_val (Quoted q v)) s' ts"
  using assms unfolding ok_quote_def by blast

lemma ok_between_Cons:
  assumes "ok_between s" "ok_word s" "ok_escape s" "ok_quote s"
  shows "ok_between (c # s)"
  unfolding ok_between_def
proof (intro allI impI)
  fix us r
  assume run: "shlex_finish (foldl shlex_step (between us) (c # s)) = Inr r"
  consider "c = bslash" | "is_blank c" | "is_quote c" | "wf_piece (Plain c)" by auto
  then show "\<exists>ts. r = us @ ts \<and> shell_words (c # s) ts"
  proof cases
    case 1
    from run 1 show ?thesis
      by (auto simp: shlex_steps rest_of_word_shell_words [of "Esc _", simplified]
            elim!: ok_escapeE [OF assms(3)])
  next
    case 2
    with run show ?thesis by (auto simp: shlex_steps intro: sw_blank dest: ok_betweenD [OF assms(1)])
  next
    case 3
    from run 3 show ?thesis
      by (auto simp: shlex_steps rest_of_word_shell_words [of "Quoted _ _", simplified]
            elim!: ok_quoteE [OF assms(4)])
  next
    case 4
    with run show ?thesis
      using rest_of_word_shell_words [of "Plain c" s]
      by (auto simp: shlex_steps dest!: ok_wordD [OF assms(2)])
  qed
qed

lemma ok_word_Cons:
  assumes "ok_between s" "ok_word s" "ok_escape s" "ok_quote s"
  shows "ok_word (c # s)"
  unfolding ok_word_def
proof (intro allI impI)
  fix us u r
  assume run: "shlex_finish (foldl shlex_step (in_word us u) (c # s)) = Inr r"
  consider "c = bslash" | "is_blank c" | "is_quote c" | "wf_piece (Plain c)" by auto
  then show "\<exists>ts. r = us @ ts \<and> rest_of_word u (c # s) ts"
  proof cases
    case 1
    from run 1 show ?thesis
      by (auto simp: shlex_steps rest_of_word_piece [of "Esc _", simplified]
            elim!: ok_escapeE [OF assms(3)])
  next
    case 2
    with run show ?thesis
      by (auto simp: shlex_steps intro: rest_of_word_blank dest!: ok_betweenD [OF assms(1)])
  next
    case 3
    from run 3 show ?thesis
      by (auto simp: shlex_steps rest_of_word_piece [of "Quoted _ _", simplified]
            elim!: ok_quoteE [OF assms(4)])
  next
    case 4
    with run show ?thesis
      using rest_of_word_piece [of "Plain c" u s]
      by (auto simp: shlex_steps dest!: ok_wordD [OF assms(2)])
  qed
qed

lemma ok_escape_Cons: "ok_word s \<Longrightarrow> ok_escape (c # s)"
  unfolding ok_escape_def by (auto simp: shlex_steps dest: ok_wordD)

lemma ok_quote_Cons:
  assumes "ok_word s" "ok_quote s"
  shows "ok_quote (c # s)"
  unfolding ok_quote_def
proof (intro allI impI)
  fix us u q r
  assume run: "shlex_finish (foldl shlex_step (in_quote us u q) (c # s)) = Inr r"
  show "\<exists>v s' ts. c # s = v @ q # s' \<and> q \<notin> set v \<and> r = us @ ts \<and>
      rest_of_word (u @ piece_val (Quoted q v)) s' ts"
  proof (cases "c = q")
    case True
    with run obtain ts where "r = us @ ts" "rest_of_word u s ts"
      by (auto simp: shlex_steps dest: ok_wordD [OF assms(1)])
    then show ?thesis using True by (intro exI [of _ "[]"] exI [of _ s] exI [of _ ts]) simp
  next
    case False
    with run obtain v s' ts where "s = v @ q # s'" "q \<notin> set v" "r = us @ ts"
      "rest_of_word (u @ c # v) s' ts"
      by (auto simp: shlex_steps elim!: ok_quoteE [OF assms(2)])
    with False show ?thesis by (intro exI [of _ "c # v"] exI [of _ s'] exI [of _ ts]) simp
  qed
qed

lemma accepted_shapes: "ok_between s \<and> ok_word s \<and> ok_escape s \<and> ok_quote s"
proof (induction s)
  case Nil
  show ?case
    by (auto simp: ok_between_def ok_word_def ok_escape_def ok_quote_def finish_eqs sw_end
          rest_of_word_Nil)
next
  case (Cons c s)
  then show ?case
    by (simp add: ok_between_Cons ok_word_Cons ok_escape_Cons ok_quote_Cons)
qed

section \<open>Quoting and splitting\<close>

text \<open>One way to write any token so that the splitter reads it back.\<close>

definition shell_quote :: "string \<Rightarrow> string" where
  "shell_quote t = (if t = [] then [squote, squote] else concat (map (\<lambda>c. [bslash, c]) t))"

definition quote_pieces :: "string \<Rightarrow> piece list" where
  "quote_pieces t = (if t = [] then [Quoted squote []] else map Esc t)"

lemma quote_pieces:
  "wf_word (quote_pieces t)" "quote_pieces t \<noteq> []"
  "word_src (quote_pieces t) = shell_quote t" "word_val (quote_pieces t) = t"
proof -
  have "wf_word (map Esc t)" for t :: string by (induction t) auto
  then show "wf_word (quote_pieces t)" by (simp add: quote_pieces_def is_quote_def)
  show "quote_pieces t \<noteq> []" by (simp add: quote_pieces_def)
  have "word_src (map Esc t) = concat (map (\<lambda>c. [bslash, c]) t)" for t by (induction t) auto
  then show "word_src (quote_pieces t) = shell_quote t"
    by (simp add: quote_pieces_def shell_quote_def)
  have "word_val (map Esc t) = t" for t by (induction t) auto
  then show "word_val (quote_pieces t) = t" by (simp add: quote_pieces_def)
qed

lemma shell_words_quoted: "shell_words (join_with '' '' (map shell_quote ts)) ts"
proof (induction ts)
  case Nil
  then show ?case by (simp add: sw_end)
next
  case (Cons t ts)
  note q = quote_pieces [of t]
  show ?case
  proof (cases ts)
    case Nil
    then show ?thesis using sw_last [OF q(1,2)] q(3,4) by simp
  next
    case (Cons t' ts')
    have "is_blank (CHR '' '')" by (simp add: is_blank_def)
    from sw_word [OF q(1,2) this Cons.IH] Cons show ?thesis by (simp add: q(3,4))
  qed
qed

text \<open>Without quotes and escapes the splitter cannot fail.\<close>

lemma shlex_plain_total:
  assumes "\<forall>c \<in> set s. c \<noteq> bslash \<and> \<not> is_quote c"
  shows "\<exists>ts. shlex s = Inr ts"
proof -
  have "\<forall>st. sh_quote st = None \<and> \<not> sh_escaped st \<longrightarrow>
      sh_quote (foldl shlex_step st s) = None \<and> \<not> sh_escaped (foldl shlex_step st s)"
    using assms by (induction s) (auto simp: shlex_step_def)
  then show ?thesis by (simp add: shlex_def shlex_init_def shlex_finish_def)
qed

section \<open>Properties\<close>

text \<open>C17: The byte loop of shlex accepts exactly the strings of the shell-word grammar (plain bytes,
  backslash escapes and quoted runs that concatenate into words, words separated by blanks) and
  returns exactly the words' values; every other string is an error.\<close>
theorem shlex_accepts_shell_words: "shlex s = Inr ts \<longleftrightarrow> shell_words s ts"
proof
  assume "shlex s = Inr ts"
  then show "shell_words s ts"
    using accepted_shapes [of s] ok_betweenD [of s "[]" ts]
    by (simp add: shlex_def shlex_init_def)
next
  assume "shell_words s ts"
  then show "shlex s = Inr ts"
    using shell_words_accepted [of s ts "[]"] by (simp add: shlex_def shlex_init_def)
qed

text \<open>Any list of tokens, empty ones and ones with blanks, quotes or backslashes included, can be
  written as one string that shlex splits back into the same tokens.\<close>
theorem shlex_quote_roundtrip: "shlex (join_with '' '' (map shell_quote ts)) = Inr ts"
  using shell_words_accepted [OF shell_words_quoted, of "[]" ts]
  by (simp add: shlex_def shlex_init_def)

end
