(* ===== verification/ConfigTypes.thy ===== *)
theory ConfigTypes
  imports Prelude
begin

text \<open>
  The closed vocabularies of \<open>internal/config/config_enums.go\<close>. Both are string types in Go, so a
  value outside the vocabulary is representable (the empty engine kind is download-only mode): the
  last constructor carries it.
\<close>

datatype engine_kind =
    EngineOllama | EngineVLLM | EngineLlamaCpp | EngineSGLang | EngineFreeToken | EngineStrata
  | EngineEmbed | EngineClipEmbed | EngineMultimodalEmbed | EngineAudio | EngineOCR | EngineRerank
  | EngineMusic | EngineSystemOne
  | EngineOther string

fun engine_kind_name :: "engine_kind \<Rightarrow> string" where
  "engine_kind_name EngineOllama = ''ollama''"
| "engine_kind_name EngineVLLM = ''vllm''"
| "engine_kind_name EngineLlamaCpp = ''llamacpp''"
| "engine_kind_name EngineSGLang = ''sglang''"
| "engine_kind_name EngineFreeToken = ''freetoken''"
| "engine_kind_name EngineStrata = ''strata''"
| "engine_kind_name EngineEmbed = ''embed''"
| "engine_kind_name EngineClipEmbed = ''clipembed''"
| "engine_kind_name EngineMultimodalEmbed = ''multimodalembed''"
| "engine_kind_name EngineAudio = ''audio''"
| "engine_kind_name EngineOCR = ''ocr''"
| "engine_kind_name EngineRerank = ''rerank''"
| "engine_kind_name EngineMusic = ''music''"
| "engine_kind_name EngineSystemOne = ''systemone''"
| "engine_kind_name (EngineOther s) = s"

definition AllEngineKinds :: "engine_kind list" where
  "AllEngineKinds =
     [EngineOllama, EngineVLLM, EngineLlamaCpp, EngineSGLang, EngineFreeToken, EngineStrata,
      EngineEmbed, EngineClipEmbed, EngineMultimodalEmbed, EngineAudio, EngineOCR, EngineRerank,
      EngineMusic, EngineSystemOne]"

datatype model_type =
    ModelChat | ModelEmbedding | ModelAudio | ModelTTS | ModelOCR | ModelRerank | ModelTranslate
  | ModelMusicGeneration | ModelSystemOne
  | ModelOther string

fun model_type_name :: "model_type \<Rightarrow> string" where
  "model_type_name ModelChat = ''chat''"
| "model_type_name ModelEmbedding = ''embedding''"
| "model_type_name ModelAudio = ''audio''"
| "model_type_name ModelTTS = ''tts''"
| "model_type_name ModelOCR = ''ocr''"
| "model_type_name ModelRerank = ''rerank''"
| "model_type_name ModelTranslate = ''translate''"
| "model_type_name ModelMusicGeneration = ''music_generation''"
| "model_type_name ModelSystemOne = ''system_one''"
| "model_type_name (ModelOther s) = s"

end
