(* ===== verification/EngineArgs.thy ===== *)
theory EngineArgs
  imports Shlex ConfigTypes
begin

text \<open>
  \<open>internal/config/engine_args.go\<close> and \<open>engine_args_known.go\<close>: the parsed view of the single
  \<open>ENGINE_ARGS\<close> variable. The known-flag tables are association lists in the source's order, the
  \<open>Known\<close> map is a partial map (a nil map and an empty one are the same value here: the code reads
  both alike), and each parse loop is a recursion over the tokens that are left, one equation per
  branch of the loop body.
\<close>

type_synonym flag_table = "(string \<times> string) list"

section \<open>The known-flag tables\<close>

definition ollamaKnownEnvKeys :: "flag_table" where
  "ollamaKnownEnvKeys =
    [(''OLLAMA_NUM_CTX'', ''num_ctx''), (''OLLAMA_CONTEXT_LENGTH'', ''context_length''),
     (''OLLAMA_KEEP_ALIVE'', ''keep_alive''), (''OLLAMA_NUM_PARALLEL'', ''num_parallel''),
     (''OLLAMA_NUM_THREAD'', ''num_thread''),
     (''OLLAMA_MAX_LOADED_MODELS'', ''max_loaded_models''),
     (''OLLAMA_MAX_QUEUE'', ''max_queue''), (''OLLAMA_FLASH_ATTENTION'', ''flash_attention''),
     (''OLLAMA_KV_CACHE_TYPE'', ''kv_cache_type''),
     (''OLLAMA_REPEAT_PENALTY'', ''repeat_penalty''),
     (''OLLAMA_REPEAT_LAST_N'', ''repeat_last_n''), (''OLLAMA_DEBUG'', ''debug''),
     (''OLLAMA_HOST'', ''host''), (''OLLAMA_ORIGINS'', ''origins''),
     (''OLLAMA_NOPRUNE'', ''noprune''), (''OLLAMA_LOAD_TIMEOUT'', ''load_timeout''),
     (''OLLAMA_NUM_GPU'', ''num_gpu''), (''OLLAMA_GPU_OVERHEAD'', ''gpu_overhead''),
     (''OLLAMA_INTEL_GPU'', ''intel_gpu''), (''OLLAMA_LLM_LIBRARY'', ''llm_library''),
     (''OLLAMA_TMPDIR'', ''tmpdir''), (''OLLAMA_MODELS'', ''models''),
     (''OLLAMA_SCHED_SPREAD'', ''sched_spread''), (''OLLAMA_NEW_ENGINE'', ''new_engine''),
     (''OLLAMA_MAX_VRAM'', ''max_vram''), (''OLLAMA_MULTIUSER_CACHE'', ''multiuser_cache''),
     (''OLLAMA_NUM_PREDICT'', ''num_predict''), (''OLLAMA_TEMPERATURE'', ''temperature''),
     (''OLLAMA_TOP_P'', ''top_p''), (''OLLAMA_TOP_K'', ''top_k''), (''OLLAMA_SEED'', ''seed''),
     (''OLLAMA_STOP'', ''stop'')]"

definition vllmKnownFlags :: "flag_table" where
  "vllmKnownFlags =
    [(''--max-model-len'', ''max_model_len''),
     (''--gpu-memory-utilization'', ''gpu_memory_utilization''),
     (''--kv-cache-dtype'', ''kv_cache_dtype''), (''--cpu-offload-gb'', ''cpu_offload_gb''),
     (''--enforce-eager'', ''enforce_eager''),
     (''--tensor-parallel-size'', ''tensor_parallel_size''),
     (''--pipeline-parallel-size'', ''pipeline_parallel_size''), (''--dtype'', ''dtype''),
     (''--quantization'', ''quantization''), (''--max-num-seqs'', ''max_num_seqs''),
     (''--max-num-batched-tokens'', ''max_num_batched_tokens''),
     (''--swap-space'', ''swap_space''), (''--trust-remote-code'', ''trust_remote_code''),
     (''--disable-log-stats'', ''disable_log_stats''), (''--port'', ''port''),
     (''--host'', ''host''), (''--max-logprobs'', ''max_logprobs''), (''--seed'', ''seed''),
     (''--block-size'', ''block_size''),
     (''--enable-chunked-prefill'', ''enable_chunked_prefill''),
     (''--disable-custom-all-reduce'', ''disable_custom_all_reduce''),
     (''--rope-scaling'', ''rope_scaling''), (''--rope-theta'', ''rope_theta''),
     (''--num-scheduler-steps'', ''num_scheduler_steps'')]"

definition llamacppKnownFlags :: "flag_table" where
  "llamacppKnownFlags =
    [(''-c'', ''ctx_size''), (''--ctx-size'', ''ctx_size''), (''-ngl'', ''n_gpu_layers''),
     (''--n-gpu-layers'', ''n_gpu_layers''), (''-fa'', ''flash_attn''),
     (''--flash-attn'', ''flash_attn''), (''-ctk'', ''cache_type_k''),
     (''--cache-type-k'', ''cache_type_k''), (''-ctv'', ''cache_type_v''),
     (''--cache-type-v'', ''cache_type_v''), (''--mmproj'', ''mmproj''), (''-t'', ''threads''),
     (''--threads'', ''threads''), (''-tb'', ''threads_batch''),
     (''--threads-batch'', ''threads_batch''), (''-b'', ''batch_size''),
     (''--batch-size'', ''batch_size''), (''-ub'', ''ubatch_size''),
     (''--ubatch-size'', ''ubatch_size''), (''--rope-freq-base'', ''rope_freq_base''),
     (''--rope-freq-scale'', ''rope_freq_scale''), (''--port'', ''port''),
     (''--host'', ''host''), (''-np'', ''parallel''), (''--parallel'', ''parallel''),
     (''-kvu'', ''kv_unified''), (''--kv-unified'', ''kv_unified''),
     (''-no-kvu'', ''no_kv_unified''), (''--no-kv-unified'', ''no_kv_unified''),
     (''--kv-unified-per-slot'', ''kv_unified_per_slot''), (''-cb'', ''cont_batching''),
     (''--cont-batching'', ''cont_batching''), (''--mlock'', ''mlock''),
     (''--no-mmap'', ''no_mmap''), (''-tp'', ''tensor_split''),
     (''--tensor-split'', ''tensor_split''), (''-mg'', ''main_gpu''),
     (''--main-gpu'', ''main_gpu''), (''--temp'', ''temperature''), (''--top-k'', ''top_k''),
     (''--top-p'', ''top_p''), (''--repeat-penalty'', ''repeat_penalty''), (''--seed'', ''seed'')]"

definition llamacppKnownEnvs :: "flag_table" where
  "llamacppKnownEnvs =
    [(''LLAMA_ARG_CTX_SIZE'', ''ctx_size''), (''LLAMA_ARG_N_GPU_LAYERS'', ''n_gpu_layers''),
     (''LLAMA_ARG_FLASH_ATTN'', ''flash_attn''), (''LLAMA_ARG_CACHE_TYPE_K'', ''cache_type_k''),
     (''LLAMA_ARG_CACHE_TYPE_V'', ''cache_type_v''), (''LLAMA_ARG_MMPROJ'', ''mmproj''),
     (''LLAMA_ARG_THREADS'', ''threads''), (''LLAMA_ARG_THREADS_BATCH'', ''threads_batch''),
     (''LLAMA_ARG_BATCH'', ''batch_size''), (''LLAMA_ARG_UBATCH'', ''ubatch_size''),
     (''LLAMA_ARG_N_PARALLEL'', ''parallel''), (''LLAMA_ARG_PARALLEL'', ''parallel''),
     (''LLAMA_ARG_KV_UNIFIED'', ''kv_unified''),
     (''LLAMA_ARG_NO_KV_UNIFIED'', ''no_kv_unified''),
     (''LLAMA_ARG_KV_UNIFIED_PER_SLOT'', ''kv_unified_per_slot''),
     (''LLAMA_ARG_CONT_BATCHING'', ''cont_batching''), (''LLAMA_ARG_PORT'', ''port''),
     (''LLAMA_ARG_HOST'', ''host''), (''LLAMA_ARG_MLOCK'', ''mlock''),
     (''LLAMA_ARG_NO_MMAP'', ''no_mmap''), (''LLAMA_ARG_MAIN_GPU'', ''main_gpu''),
     (''LLAMA_ARG_TENSOR_SPLIT'', ''tensor_split''),
     (''LLAMA_ARG_ROPE_FREQ_BASE'', ''rope_freq_base''),
     (''LLAMA_ARG_ROPE_FREQ_SCALE'', ''rope_freq_scale'')]"

definition sglangKnownFlags :: "flag_table" where
  "sglangKnownFlags =
    [(''--mem-fraction-static'', ''mem_fraction_static''),
     (''--max-running-requests'', ''max_running_requests''),
     (''--tp'', ''tensor_parallel_size''),
     (''--tensor-parallel-size'', ''tensor_parallel_size''), (''--dp'', ''dp_size''),
     (''--dp-size'', ''dp_size''), (''--enable-torch-compile'', ''enable_torch_compile''),
     (''--max-total-tokens'', ''max_total_tokens''), (''--context-length'', ''context_length''),
     (''--quantization'', ''quantization''), (''--dtype'', ''dtype''), (''--port'', ''port''),
     (''--host'', ''host''), (''--schedule-policy'', ''schedule_policy''),
     (''--enable-p2p-check'', ''enable_p2p_check''),
     (''--chunked-prefill-size'', ''chunked_prefill_size''),
     (''--max-prefill-tokens'', ''max_prefill_tokens''),
     (''--trust-remote-code'', ''trust_remote_code''),
     (''--disable-radix-cache'', ''disable_radix_cache''),
     (''--enable-mixed-chunk'', ''enable_mixed_chunk''), (''--random-seed'', ''random_seed'')]"

definition freetokenKnownFlags :: "flag_table" where
  "freetokenKnownFlags =
    [(''--moe-strategy'', ''moe_backend''), (''--moe-backend'', ''moe_backend''),
     (''--moe-cpu-threads'', ''moe_cpu_threads''), (''--moe-cache-auto'', ''moe_cache_auto''),
     (''--expert-load'', ''expert_load''), (''--kv-reserve-tokens'', ''kv_reserve_tokens''),
     (''--max-running-requests'', ''max_running_requests''), (''--model-path'', ''model''),
     (''--model'', ''model''), (''--served-model-name'', ''served_model_name''),
     (''--port'', ''port''), (''--host'', ''host'')]"

definition strataKnownFlags :: "flag_table" where
  "strataKnownFlags =
    [(''--context'', ''context''), (''--parallel'', ''parallel''), (''--kv'', ''kv''),
     (''--kv-streaming'', ''kv_streaming''), (''--low-ram'', ''low_ram''),
     (''--vram-reserve-mib'', ''vram_reserve_mib''), (''--draft-vocab'', ''draft_vocab'')]"

section \<open>The parsed view\<close>

record engine_args =
  ea_Raw :: string
  ea_Known :: "string \<rightharpoonup> string"
  ea_Unknown :: "string list"

datatype engine_args_error =
    ArgsShlex shlex_error
  | ArgsNotUsedWith engine_kind
  | ArgsUnsupportedKind engine_kind

definition knownFlagPresent :: string where
  "knownFlagPresent = ''true''"

definition zero_args :: "string \<Rightarrow> engine_args" where
  "zero_args raw = \<lparr>ea_Raw = raw, ea_Known = Map.empty, ea_Unknown = []\<rparr>"

definition set_known :: "engine_args \<Rightarrow> string \<Rightarrow> string \<Rightarrow> engine_args" where
  "set_known a k v = a\<lparr>ea_Known := (ea_Known a)(k \<mapsto> v)\<rparr>"

definition add_unknown :: "engine_args \<Rightarrow> string list \<Rightarrow> engine_args" where
  "add_unknown a ts = a\<lparr>ea_Unknown := ea_Unknown a @ ts\<rparr>"

definition GetString :: "engine_args \<Rightarrow> string \<Rightarrow> string option" where
  "GetString a k = ea_Known a k"

definition GetInt :: "engine_args \<Rightarrow> string \<Rightarrow> int option" where
  "GetInt a k = (case GetString a k of None \<Rightarrow> None | Some v \<Rightarrow> atoi v)"

text \<open>The part of a token before and after its first \<open>=\<close>.\<close>

definition split_eq :: "string \<Rightarrow> (string \<times> string) option" where
  "split_eq tok = (case index_byte tok (CHR ''='') of
      None \<Rightarrow> None | Some eq \<Rightarrow> Some (take eq tok, drop (Suc eq) tok))"

definition looks_like_flag :: "string \<Rightarrow> bool" where
  "looks_like_flag t \<longleftrightarrow> has_prefix t ''-''"

definition looks_like_value :: "string \<Rightarrow> bool" where
  "looks_like_value t \<longleftrightarrow> \<not> has_prefix t ''-'' \<and> \<not> contains t ''=''"

section \<open>Ollama: a list of KEY=VALUE pairs\<close>

definition ollama_token :: "engine_args \<Rightarrow> string \<Rightarrow> engine_args" where
  "ollama_token args tok =
     (case index_byte tok (CHR ''='') of
        None \<Rightarrow> add_unknown args [tok]
      | Some eq \<Rightarrow>
          if eq = 0 then add_unknown args [tok]
          else case map_of ollamaKnownEnvKeys (take eq tok) of
                 Some norm \<Rightarrow> set_known args norm (drop (Suc eq) tok)
               | None \<Rightarrow> add_unknown args [tok])"

definition parseOllamaArgs :: "string \<Rightarrow> engine_args_error + engine_args" where
  "parseOllamaArgs raw =
     (if trim_space raw = [] then Inr (zero_args raw)
      else case shlex raw of
             Inl e \<Rightarrow> Inl (ArgsShlex e)
           | Inr tokens \<Rightarrow> Inr (foldl ollama_token (zero_args raw) tokens))"

section \<open>vLLM, SGLang, FreeToken and Strata: argv\<close>

fun next_is_value :: "string list \<Rightarrow> bool" where
  "next_is_value [] = False"
| "next_is_value (next # _) = looks_like_value next"

function cmdline_loop :: "flag_table \<Rightarrow> engine_args \<Rightarrow> string list \<Rightarrow> engine_args" where
  "cmdline_loop table args [] = args"
| "cmdline_loop table args (tok # rest) =
     (if \<not> looks_like_flag tok then cmdline_loop table (add_unknown args [tok]) rest
      else case split_eq tok of
        Some (flag, val) \<Rightarrow>
          (case map_of table flag of
             Some norm \<Rightarrow> cmdline_loop table (set_known args norm val) rest
           | None \<Rightarrow> cmdline_loop table (add_unknown args [tok]) rest)
      | None \<Rightarrow>
          (let nextLooksLikeVal = next_is_value rest
           in case map_of table tok of
                Some norm \<Rightarrow>
                  if nextLooksLikeVal then cmdline_loop table (set_known args norm (hd rest)) (tl rest)
                  else cmdline_loop table (set_known args norm knownFlagPresent) rest
              | None \<Rightarrow>
                  if nextLooksLikeVal then cmdline_loop table (add_unknown args [tok, hd rest]) (tl rest)
                  else cmdline_loop table (add_unknown args [tok]) rest))"
  by pat_completeness auto
termination
  by (relation "measure (\<lambda>(_, _, toks). length toks)") auto

definition parseCmdlineArgs :: "string \<Rightarrow> flag_table \<Rightarrow> engine_args_error + engine_args" where
  "parseCmdlineArgs raw table =
     (if trim_space raw = [] then Inr (zero_args raw)
      else case shlex raw of
             Inl e \<Rightarrow> Inl (ArgsShlex e)
           | Inr tokens \<Rightarrow> Inr (cmdline_loop table (zero_args raw) tokens))"

section \<open>llama.cpp: argv or LLAMA_ARG_*=value\<close>

definition is_env_form :: "string \<Rightarrow> bool" where
  "is_env_form tok \<longleftrightarrow> \<not> looks_like_flag tok \<and> contains tok ''=''"

function llamacpp_loop :: "engine_args \<Rightarrow> string list \<Rightarrow> engine_args" where
  "llamacpp_loop args [] = args"
| "llamacpp_loop args (tok # rest) =
     (if is_env_form tok
      then (case split_eq tok of
              Some (key, val) \<Rightarrow>
                (case map_of llamacppKnownEnvs key of
                   Some norm \<Rightarrow> llamacpp_loop (set_known args norm val) rest
                 | None \<Rightarrow> llamacpp_loop (add_unknown args [tok]) rest)
            | None \<Rightarrow> args) \<comment> \<open>never taken: the token contains \<open>=\<close>, see \<open>env_form_split\<close>\<close>
      else if \<not> looks_like_flag tok then llamacpp_loop (add_unknown args [tok]) rest
      else case split_eq tok of
        Some (flag, val) \<Rightarrow>
          (case map_of llamacppKnownFlags flag of
             Some norm \<Rightarrow> llamacpp_loop (set_known args norm val) rest
           | None \<Rightarrow> llamacpp_loop (add_unknown args [tok]) rest)
      | None \<Rightarrow>
          (let nextLooksLikeVal = next_is_value rest
           in case map_of llamacppKnownFlags tok of
                Some norm \<Rightarrow>
                  if nextLooksLikeVal then llamacpp_loop (set_known args norm (hd rest)) (tl rest)
                  else llamacpp_loop (set_known args norm knownFlagPresent) rest
              | None \<Rightarrow>
                  if nextLooksLikeVal then llamacpp_loop (add_unknown args [tok, hd rest]) (tl rest)
                  else llamacpp_loop (add_unknown args [tok]) rest))"
  by pat_completeness auto
termination
  by (relation "measure (\<lambda>(_, toks). length toks)") auto

definition parseLlamacppArgs :: "string \<Rightarrow> engine_args_error + engine_args" where
  "parseLlamacppArgs raw =
     (if trim_space raw = [] then Inr (zero_args raw)
      else case shlex raw of
             Inl e \<Rightarrow> Inl (ArgsShlex e)
           | Inr tokens \<Rightarrow> Inr (llamacpp_loop (zero_args raw) tokens))"

section \<open>The dispatcher\<close>

definition sibling_engines :: "engine_kind list" where
  "sibling_engines = [EngineEmbed, EngineClipEmbed, EngineMultimodalEmbed, EngineAudio, EngineOCR,
     EngineRerank, EngineMusic, EngineSystemOne]"

definition ParseEngineArgs :: "engine_kind \<Rightarrow> string \<Rightarrow> engine_args_error + engine_args" where
  "ParseEngineArgs kind raw =
     (case kind of
        EngineOllama \<Rightarrow> parseOllamaArgs raw
      | EngineVLLM \<Rightarrow> parseCmdlineArgs raw vllmKnownFlags
      | EngineFreeToken \<Rightarrow> parseCmdlineArgs raw freetokenKnownFlags
      | EngineStrata \<Rightarrow> parseCmdlineArgs raw strataKnownFlags
      | EngineSGLang \<Rightarrow> parseCmdlineArgs raw sglangKnownFlags
      | EngineLlamaCpp \<Rightarrow> parseLlamacppArgs raw
      | _ \<Rightarrow>
          if kind \<in> set sibling_engines
          then if trim_space raw = [] then Inr (zero_args raw) else Inl (ArgsNotUsedWith kind)
          else Inl (ArgsUnsupportedKind kind))"

section \<open>Readings of an argument list\<close>

text \<open>
  What a parse is meant to do with each token, independently of the loop: a token is consumed by a
  known flag, or it is forwarded verbatim. A reading cuts the token list into such items.
\<close>

datatype arg_item = Known (item_src: "string list") (item_key: string) (item_val: string)
  | Forwarded (item_src: "string list")

inductive arg_reading :: "flag_table \<Rightarrow> string list \<Rightarrow> arg_item list \<Rightarrow> bool" for table where
  rd_end: "arg_reading table [] []"
| rd_positional: "\<not> looks_like_flag tok \<Longrightarrow> arg_reading table rest items \<Longrightarrow>
    arg_reading table (tok # rest) (Forwarded [tok] # items)"
| rd_eq_known: "looks_like_flag tok \<Longrightarrow> split_eq tok = Some (flag, val) \<Longrightarrow>
    map_of table flag = Some norm \<Longrightarrow> arg_reading table rest items \<Longrightarrow>
    arg_reading table (tok # rest) (Known [tok] norm val # items)"
| rd_eq_unknown: "looks_like_flag tok \<Longrightarrow> split_eq tok = Some (flag, val) \<Longrightarrow>
    map_of table flag = None \<Longrightarrow> arg_reading table rest items \<Longrightarrow>
    arg_reading table (tok # rest) (Forwarded [tok] # items)"
| rd_value_known: "looks_like_flag tok \<Longrightarrow> split_eq tok = None \<Longrightarrow> looks_like_value next \<Longrightarrow>
    map_of table tok = Some norm \<Longrightarrow> arg_reading table rest items \<Longrightarrow>
    arg_reading table (tok # next # rest) (Known [tok, next] norm next # items)"
| rd_value_unknown: "looks_like_flag tok \<Longrightarrow> split_eq tok = None \<Longrightarrow> looks_like_value next \<Longrightarrow>
    map_of table tok = None \<Longrightarrow> arg_reading table rest items \<Longrightarrow>
    arg_reading table (tok # next # rest) (Forwarded [tok, next] # items)"
| rd_bare_known: "looks_like_flag tok \<Longrightarrow> split_eq tok = None \<Longrightarrow> \<not> next_is_value rest \<Longrightarrow>
    map_of table tok = Some norm \<Longrightarrow> arg_reading table rest items \<Longrightarrow>
    arg_reading table (tok # rest) (Known [tok] norm knownFlagPresent # items)"
| rd_bare_unknown: "looks_like_flag tok \<Longrightarrow> split_eq tok = None \<Longrightarrow> \<not> next_is_value rest \<Longrightarrow>
    map_of table tok = None \<Longrightarrow> arg_reading table rest items \<Longrightarrow>
    arg_reading table (tok # rest) (Forwarded [tok] # items)"

fun apply_item :: "engine_args \<Rightarrow> arg_item \<Rightarrow> engine_args" where
  "apply_item a (Known _ k v) = set_known a k v"
| "apply_item a (Forwarded ts) = add_unknown a ts"

definition forwarded :: "arg_item list \<Rightarrow> string list" where
  "forwarded items = concat (map (\<lambda>i. case i of Forwarded ts \<Rightarrow> ts | Known _ _ _ \<Rightarrow> []) items)"

definition assignments :: "arg_item list \<Rightarrow> (string \<times> string) list" where
  "assignments items = concat (map (\<lambda>i. case i of Known _ k v \<Rightarrow> [(k, v)] | Forwarded _ \<Rightarrow> []) items)"

lemma item_simps [simp]:
  "forwarded [] = []" "forwarded (Forwarded ts # is) = ts @ forwarded is"
  "forwarded (Known s k v # is) = forwarded is"
  "assignments [] = []" "assignments (Forwarded ts # is) = assignments is"
  "assignments (Known s k v # is) = (k, v) # assignments is"
  by (simp_all add: forwarded_def assignments_def)

lemma arg_reading_src: "arg_reading table toks items \<Longrightarrow> concat (map item_src items) = toks"
  by (induction rule: arg_reading.induct) auto

lemma arg_reading_subseq: "arg_reading table toks items \<Longrightarrow> subseq (forwarded items) toks"
  by (induction rule: arg_reading.induct) auto

lemma map_of_rev_Cons: "m ++ map_of (rev ((k, v) # xs)) = m(k \<mapsto> v) ++ map_of (rev xs)"
  by (auto simp: map_add_def fun_eq_iff split: option.splits)

lemma apply_items:
  "foldl apply_item a items =
     a\<lparr>ea_Known := ea_Known a ++ map_of (rev (assignments items)),
       ea_Unknown := ea_Unknown a @ forwarded items\<rparr>"
proof (induction items arbitrary: a)
  case Nil
  then show ?case by simp
next
  case (Cons i items)
  show ?case
  proof (cases i)
    case (Known src k v)
    then show ?thesis
      by (simp only: foldl_Cons apply_item.simps Cons.IH item_simps map_of_rev_Cons)
        (simp add: set_known_def fun_upd_def)
  next
    case (Forwarded ts)
    then show ?thesis by (simp add: Cons.IH add_unknown_def)
  qed
qed

lemma next_is_value_iff: "next_is_value rest \<longleftrightarrow> rest \<noteq> [] \<and> looks_like_value (hd rest)"
  by (cases rest) auto

text \<open>One iteration of the loop reads one item.\<close>

definition reads :: "flag_table \<Rightarrow> string list \<Rightarrow> arg_item \<Rightarrow> string list \<Rightarrow> bool" where
  "reads table toks i rest \<longleftrightarrow> length rest < length toks \<and>
     (\<forall>items. arg_reading table rest items \<longrightarrow> arg_reading table toks (i # items))"

lemma reads_value:
  assumes "looks_like_flag tok" "split_eq tok = None" "next_is_value rest"
  shows "map_of table tok = Some norm \<Longrightarrow>
      reads table (tok # rest) (Known [tok, hd rest] norm (hd rest)) (tl rest)"
    and "map_of table tok = None \<Longrightarrow> reads table (tok # rest) (Forwarded [tok, hd rest]) (tl rest)"
  using assms by (cases rest; auto simp: reads_def intro: rd_value_known rd_value_unknown)+

lemma cmdline_loop_step:
  "\<exists>i rest'. reads table (tok # rest) i rest' \<and>
     cmdline_loop table a (tok # rest) = cmdline_loop table (apply_item a i) rest'"
proof -
  consider (pos) "\<not> looks_like_flag tok"
    | (eq) flag val where "looks_like_flag tok" "split_eq tok = Some (flag, val)"
    | (val) "looks_like_flag tok" "split_eq tok = None" "next_is_value rest"
    | (bare) "looks_like_flag tok" "split_eq tok = None" "\<not> next_is_value rest"
    by (cases "split_eq tok") auto
  then show ?thesis
  proof cases
    case pos
    then show ?thesis
      by (intro exI [of _ "Forwarded [tok]"] exI [of _ rest])
        (simp add: reads_def rd_positional)
  next
    case eq
    then show ?thesis
      by (intro exI [of _ "case map_of table flag of Some norm \<Rightarrow> Known [tok] norm val
            | None \<Rightarrow> Forwarded [tok]"] exI [of _ rest])
        (auto simp: reads_def rd_eq_known rd_eq_unknown split: option.splits)
  next
    case val
    then show ?thesis
      by (intro exI [of _ "case map_of table tok of Some norm \<Rightarrow> Known [tok, hd rest] norm (hd rest)
            | None \<Rightarrow> Forwarded [tok, hd rest]"] exI [of _ "tl rest"])
        (auto simp: reads_value split: option.splits)
  next
    case bare
    then show ?thesis
      by (intro exI [of _ "case map_of table tok of Some norm \<Rightarrow> Known [tok] norm knownFlagPresent
            | None \<Rightarrow> Forwarded [tok]"] exI [of _ rest])
        (auto simp: reads_def rd_bare_known rd_bare_unknown split: option.splits)
  qed
qed

lemma cmdline_loop_reading:
  "\<exists>items. arg_reading table toks items \<and> cmdline_loop table a toks = foldl apply_item a items"
proof (induction toks arbitrary: a rule: length_induct)
  case (1 toks)
  show ?case
  proof (cases toks)
    case Nil
    then show ?thesis by (intro exI [of _ "[]"]) (simp add: rd_end)
  next
    case (Cons tok rest)
    obtain i rest' where i: "reads table (tok # rest) i rest'"
      "cmdline_loop table a (tok # rest) = cmdline_loop table (apply_item a i) rest'"
      using cmdline_loop_step by blast
    with 1 Cons obtain items where "arg_reading table rest' items"
      "cmdline_loop table (apply_item a i) rest' = foldl apply_item (apply_item a i) items"
      unfolding reads_def by blast
    with i Cons show ?thesis by (intro exI [of _ "i # items"]) (simp add: reads_def)
  qed
qed

text \<open>Known flags are looked up with the last assignment winning.\<close>

lemma parseCmdlineArgs_reading:
  assumes "trim_space raw \<noteq> []" "shlex raw = Inr tokens"
  obtains items where "arg_reading table tokens items"
    "parseCmdlineArgs raw table =
       Inr \<lparr>ea_Raw = raw, ea_Known = map_of (rev (assignments items)), ea_Unknown = forwarded items\<rparr>"
  using assms cmdline_loop_reading [of table tokens "zero_args raw"]
  by (auto simp: parseCmdlineArgs_def apply_items zero_args_def)

section \<open>llama.cpp's two forms\<close>

lemma contains_single: "contains s [c] \<longleftrightarrow> c \<in> set s"
  by (induction s) (auto simp: has_prefix_def)

lemma env_form_split: "is_env_form tok \<Longrightarrow> \<exists>k v. split_eq tok = Some (k, v)"
  by (auto simp: is_env_form_def contains_single split_eq_def index_byte_None split: option.splits)

lemma split_eq_Some: "split_eq tok = Some (k, v) \<Longrightarrow> tok = k @ CHR ''='' # v \<and> CHR ''='' \<notin> set k"
  by (auto simp: split_eq_def split: option.splits dest: index_byte_Some)

lemma llamacpp_loop_env:
  "is_env_form tok \<Longrightarrow> split_eq tok = Some (k, v) \<Longrightarrow>
     llamacpp_loop a (tok # rest) =
       llamacpp_loop (case map_of llamacppKnownEnvs k of Some norm \<Rightarrow> set_known a norm v
                      | None \<Rightarrow> add_unknown a [tok]) rest"
  by (simp split: option.splits)

text \<open>Without an env-form token the two parsers agree.\<close>

lemma llamacpp_loop_cmdline:
  "\<forall>t \<in> set toks. \<not> is_env_form t \<Longrightarrow> llamacpp_loop a toks = cmdline_loop llamacppKnownFlags a toks"
proof (induction a toks rule: llamacpp_loop.induct)
  case (1 args)
  then show ?case by simp
next
  case (2 args tok rest)
  have "\<forall>t \<in> set (tl rest). \<not> is_env_form t" using 2 by (cases rest) auto
  then show ?case using 2 by (auto simp: Let_def split: option.splits)
qed

section \<open>What the accessors return\<close>

lemma GetInt_range: "GetInt a k = Some n \<Longrightarrow> in_int64 n"
  by (auto simp: GetInt_def atoi_range split: option.splits)

lemma GetInt_Some: "GetInt a k = Some n \<Longrightarrow> \<exists>v. GetString a k = Some v \<and> atoi v = Some n"
  by (auto simp: GetInt_def split: option.splits)

section \<open>Properties\<close>

text \<open>Parsing argv-style ENGINE_ARGS loses no token: the tokens are cut into consecutive items,
  each either consumed by a known flag or forwarded verbatim, whose sources concatenate to the whole
  list; Unknown is the forwarded tokens in order, and Known holds the last assignment of each key.\<close>
theorem parseCmdlineArgs_conserves_tokens:
  assumes "trim_space raw \<noteq> []" and "shlex raw = Inr tokens"
  shows "\<exists>items. arg_reading table tokens items \<and> concat (map item_src items) = tokens \<and>
    parseCmdlineArgs raw table =
      Inr \<lparr>ea_Raw = raw, ea_Known = map_of (rev (assignments items)), ea_Unknown = forwarded items\<rparr> \<and>
    subseq (forwarded items) tokens"
proof -
  obtain items where "arg_reading table tokens items" and
    "parseCmdlineArgs raw table =
       Inr \<lparr>ea_Raw = raw, ea_Known = map_of (rev (assignments items)), ea_Unknown = forwarded items\<rparr>"
    using parseCmdlineArgs_reading [OF assms] .
  then show ?thesis using arg_reading_src arg_reading_subseq by blast
qed

theorem parseCmdlineArgs_conserves_tokens_witness:
  "\<exists>items. concat (map item_src items) = [''--port'', ''80'', ''x''] \<and>
     subseq (forwarded items) [''--port'', ''80'', ''x'']"
proof -
  have "trim_space ''--port 80 x'' \<noteq> []" by code_simp
  moreover have "shlex ''--port 80 x'' = Inr [''--port'', ''80'', ''x'']" by code_simp
  ultimately show ?thesis
    using parseCmdlineArgs_conserves_tokens [of "''--port 80 x''" "[''--port'', ''80'', ''x'']" vllmKnownFlags]
    by blast
qed

text \<open>On an ENGINE_ARGS with no KEY=value token the llama.cpp parser is the generic argv parser
  run with llama.cpp's flag table: the env form is the only difference between the two loops.\<close>
theorem parseLlamacppArgs_is_cmdline:
  assumes "\<And>tokens. shlex raw = Inr tokens \<Longrightarrow> \<forall>t \<in> set tokens. \<not> is_env_form t"
  shows "parseLlamacppArgs raw = parseCmdlineArgs raw llamacppKnownFlags"
  using assms llamacpp_loop_cmdline
  by (auto simp: parseLlamacppArgs_def parseCmdlineArgs_def split: sum.splits)

theorem parseLlamacppArgs_is_cmdline_witness:
  "parseLlamacppArgs ''-np 2'' = parseCmdlineArgs ''-np 2'' llamacppKnownFlags"
proof (rule parseLlamacppArgs_is_cmdline)
  fix tokens assume "shlex ''-np 2'' = Inr tokens"
  moreover have "shlex ''-np 2'' = Inr [''-np'', ''2'']" by code_simp
  moreover have "\<not> is_env_form ''-np''" "\<not> is_env_form ''2''" by code_simp+
  ultimately show "\<forall>t \<in> set tokens. \<not> is_env_form t" by auto
qed

end
