(* ===== verification/KvDerive.thy ===== *)
theory KvDerive
  imports EngineArgs
begin

text \<open>
  What the launch flags say about an engine: \<open>internal/config/kvunified.go\<close>, \<open>context_size.go\<close>,
  \<open>pool_tokens.go\<close> and \<open>max_concurrency.go\<close>. A \<open>(int, bool)\<close> result is an option. Products,
  sums and the division are Go's: they wrap at 64 bits, and \<open>deriveLlamacppContextSize\<close> divides by
  the slot count, which panics when that is zero.
\<close>

section \<open>kvunified.go: one shared pool or per-slot shares\<close>

definition llamacppTruthy :: "string list" where
  "llamacppTruthy = [''on'', ''enabled'', knownFlagPresent, ''1'']"

definition llamacppAutoSlots :: int where
  "llamacppAutoSlots = 4"

definition LlamacppSlotsAuto :: "engine_args \<Rightarrow> bool" where
  "LlamacppSlotsAuto args =
     (case GetString args ''parallel'' of
        None \<Rightarrow> True
      | Some raw \<Rightarrow> (case atoi raw of None \<Rightarrow> True | Some n \<Rightarrow> n < 0))"

definition KVUnifiedEffective :: "engine_args \<Rightarrow> bool" where
  "KVUnifiedEffective args =
     (if LlamacppSlotsAuto args then True
      else if GetString args ''no_kv_unified'' \<noteq> None then False
      else case GetString args ''kv_unified'' of
             Some v \<Rightarrow> v \<in> set llamacppTruthy
           | None \<Rightarrow> False)"

definition LlamacppKVUnifiedPerSlot :: "engine_args \<Rightarrow> int option" where
  "LlamacppKVUnifiedPerSlot args =
     (case GetInt args ''kv_unified_per_slot'' of
        None \<Rightarrow> None
      | Some n \<Rightarrow> if n \<le> 0 then None else Some n)"

definition LlamacppSlots :: "engine_args \<Rightarrow> int" where
  "LlamacppSlots args =
     (if LlamacppSlotsAuto args then llamacppAutoSlots
      else case GetInt args ''parallel'' of Some n \<Rightarrow> n | None \<Rightarrow> 0)"

section \<open>context_size.go and pool_tokens.go\<close>

definition padUpTo256 :: "int \<Rightarrow> int" where
  "padUpTo256 n = wrap64 (go_quot (wrap64 (wrap64 (n + 256) - 1)) 256 * 256)"

definition deriveLlamacppPoolTokens :: "engine_args \<Rightarrow> int option" where
  "deriveLlamacppPoolTokens args =
     (case GetInt args ''ctx_size'' of
        Some tot \<Rightarrow>
          if tot > 0 then Some (padUpTo256 tot)
          else map_option (\<lambda>perSlot. padUpTo256 (wrap64 (perSlot * LlamacppSlots args)))
                 (LlamacppKVUnifiedPerSlot args)
      | None \<Rightarrow>
          map_option (\<lambda>perSlot. padUpTo256 (wrap64 (perSlot * LlamacppSlots args)))
            (LlamacppKVUnifiedPerSlot args))"

definition LlamacppKVOversubscribed :: "engine_args \<Rightarrow> bool" where
  "LlamacppKVOversubscribed args =
     (if \<not> KVUnifiedEffective args then False
      else let slots = LlamacppSlots args
           in if slots \<le> 1 then False
              else case LlamacppKVUnifiedPerSlot args of
                     None \<Rightarrow> True
                   | Some perSlot \<Rightarrow>
                       (case deriveLlamacppPoolTokens args of
                          None \<Rightarrow> True
                        | Some pool \<Rightarrow> wrap64 (perSlot * slots) > pool))"

definition deriveLlamacppContextSize :: "engine_args \<Rightarrow> go_panic + int option" where
  "deriveLlamacppContextSize args =
     (let perSlot = LlamacppKVUnifiedPerSlot args
      in case GetInt args ''ctx_size'' of
           None \<Rightarrow> Inr perSlot
         | Some tot0 \<Rightarrow>
             if tot0 \<le> 0 then Inr None
             else let tot = padUpTo256 tot0
                  in if \<not> KVUnifiedEffective args
                     then (if LlamacppSlots args = 0 then Inl DivideByZero
                           else Inr (Some (padUpTo256 (go_quot tot (LlamacppSlots args)))))
                     else case perSlot of
                            Some p \<Rightarrow> if p < tot then Inr (Some p) else Inr (Some tot)
                          | None \<Rightarrow> Inr (Some tot))"

definition ollamaContextWindow :: "engine_args \<Rightarrow> int option" where
  "ollamaContextWindow args =
     (case GetInt args ''num_ctx'' of
        Some n \<Rightarrow>
          if n > 0 then Some n
          else (case GetInt args ''context_length'' of
                  Some m \<Rightarrow> if m > 0 then Some m else None
                | None \<Rightarrow> None)
      | None \<Rightarrow>
          (case GetInt args ''context_length'' of
             Some m \<Rightarrow> if m > 0 then Some m else None
           | None \<Rightarrow> None))"

definition contextSizeKeys :: "(engine_kind \<times> string) list" where
  "contextSizeKeys = [(EngineStrata, ''context''), (EngineVLLM, ''max_model_len''),
     (EngineSGLang, ''context_length'')]"

definition DeriveContextSize :: "engine_kind \<Rightarrow> engine_args \<Rightarrow> go_panic + int option" where
  "DeriveContextSize kind args =
     (if kind = EngineLlamaCpp then deriveLlamacppContextSize args
      else if kind = EngineOllama then Inr (ollamaContextWindow args)
      else case map_of contextSizeKeys kind of
             None \<Rightarrow> Inr None
           | Some key \<Rightarrow>
               (case GetInt args key of
                  None \<Rightarrow> Inr None
                | Some n \<Rightarrow> if n \<le> 0 then Inr None else Inr (Some n)))"

definition DerivePoolTokens :: "engine_kind \<Rightarrow> engine_args \<Rightarrow> int option" where
  "DerivePoolTokens kind args =
     (case kind of
        EngineLlamaCpp \<Rightarrow> deriveLlamacppPoolTokens args
      | EngineSGLang \<Rightarrow>
          (case GetInt args ''max_total_tokens'' of
             None \<Rightarrow> None
           | Some n \<Rightarrow> if n \<le> 0 then None else Some n)
      | EngineOllama \<Rightarrow>
          (case (ollamaContextWindow args, GetInt args ''num_parallel'') of
             (Some ctx, Some par) \<Rightarrow> if ctx \<le> 0 \<or> par \<le> 0 then None else Some (wrap64 (ctx * par))
           | _ \<Rightarrow> None)
      | _ \<Rightarrow> None)"

section \<open>max_concurrency.go\<close>

definition maxConcurrencyKeys :: "(engine_kind \<times> string) list" where
  "maxConcurrencyKeys =
     [(EngineStrata, ''parallel''), (EngineFreeToken, ''max_running_requests''),
      (EngineLlamaCpp, ''parallel''), (EngineVLLM, ''max_num_seqs''),
      (EngineSGLang, ''max_running_requests''), (EngineOllama, ''num_parallel'')]"

definition DeriveMaxConcurrency :: "engine_kind \<Rightarrow> engine_args \<Rightarrow> int option" where
  "DeriveMaxConcurrency kind args =
     (if kind = EngineLlamaCpp \<and> LlamacppSlotsAuto args then Some (LlamacppSlots args)
      else case map_of maxConcurrencyKeys kind of
             None \<Rightarrow> None
           | Some key \<Rightarrow>
               (case GetInt args key of
                  None \<Rightarrow> None
                | Some n \<Rightarrow> if n < 1 then None else Some n))"

section \<open>Keeping the card in step with the flags\<close>

text \<open>The part of \<open>Config\<close> the two synchronisations read and write; \<open>cfg == nil\<close> is \<open>None\<close>.\<close>

record card_cfg =
  cc_Kind :: engine_kind
  cc_Args :: engine_args
  cc_Mode :: string
  cc_ContextSize :: int
  cc_MaxOutputToks :: int

definition syncContextSizeFromEngineArgs ::
    "card_cfg option \<Rightarrow> go_panic + card_cfg option \<times> bool" where
  "syncContextSizeFromEngineArgs cfg =
     (case cfg of
        None \<Rightarrow> Inr (None, False)
      | Some c \<Rightarrow>
          (case DeriveContextSize (cc_Kind c) (cc_Args c) of
             Inl p \<Rightarrow> Inl p
           | Inr None \<Rightarrow> Inr (cfg, False)
           | Inr (Some n) \<Rightarrow>
               if n = cc_ContextSize c then Inr (cfg, False)
               else Inr (Some (c\<lparr>cc_ContextSize := n\<rparr>), True)))"

definition syncMaxOutputTokensFromContext :: "card_cfg option \<Rightarrow> card_cfg option \<times> bool" where
  "syncMaxOutputTokensFromContext cfg =
     (case cfg of
        None \<Rightarrow> (None, False)
      | Some c \<Rightarrow>
          if cc_Mode c \<noteq> model_type_name ModelChat \<or> cc_ContextSize c \<le> 0 then (cfg, False)
          else if cc_MaxOutputToks c > 0 \<and> cc_MaxOutputToks c < cc_ContextSize c then (cfg, False)
          else let n = go_quot (cc_ContextSize c) 4
               in if n < 1 \<or> n = cc_MaxOutputToks c then (cfg, False)
                  else (Some (c\<lparr>cc_MaxOutputToks := n\<rparr>), True))"

section \<open>Padding\<close>

lemma padUpTo256_exact:
  assumes "0 \<le> n" "n \<le> 2 ^ 63 - 256"
  shows "padUpTo256 n = (n + 255) div 256 * 256"
proof -
  have step: "wrap64 (wrap64 (n + 256) - 1) = n + 255"
  proof (cases "n = 2 ^ 63 - 256")
    case True
    then show ?thesis by (simp add: wrap64_def)
  next
    case False
    then have "in_int64 (n + 256)" "in_int64 (255 + n)" using assms by (auto simp: in_int64_def)
    then show ?thesis by (simp add: add.commute)
  qed
  have "(n + 255) div 256 * 256 \<le> n + 255" by simp
  moreover have "0 \<le> (n + 255) div 256" using assms(1) by simp
  ultimately have "in_int64 ((n + 255) div 256 * 256)"
    using assms by (auto simp: in_int64_def)
  then show ?thesis using assms by (simp add: padUpTo256_def step)
qed

lemma padUpTo256_bounds:
  assumes "0 \<le> n" "n \<le> 2 ^ 63 - 256"
  shows "n \<le> padUpTo256 n" "padUpTo256 n < n + 256" "256 dvd padUpTo256 n"
proof -
  have "(n + 255) mod 256 < 256" "0 \<le> (n + 255) mod 256" by simp_all
  then show "n \<le> padUpTo256 n" "padUpTo256 n < n + 256"
    unfolding padUpTo256_exact [OF assms] using div_mult_mod_eq [of "n + 255" 256] by linarith+
  show "256 dvd padUpTo256 n" unfolding padUpTo256_exact [OF assms] by simp
qed

lemma padUpTo256_mono:
  assumes "0 \<le> m" "m \<le> n" "n \<le> 2 ^ 63 - 256"
  shows "padUpTo256 m \<le> padUpTo256 n"
proof -
  have "(m + 255) div 256 \<le> (n + 255) div 256" using assms(2) by (intro zdiv_mono1) simp_all
  then show ?thesis using assms by (simp add: padUpTo256_exact)
qed

lemma padUpTo256_idem:
  assumes "0 \<le> n" "n \<le> 2 ^ 63 - 512"
  shows "padUpTo256 (padUpTo256 n) = padUpTo256 n"
proof -
  have "n \<le> padUpTo256 n" "padUpTo256 n < n + 256" "256 dvd padUpTo256 n"
    using padUpTo256_bounds [of n] assms by simp_all
  then obtain k where "padUpTo256 n = 256 * k" "0 \<le> padUpTo256 n" "padUpTo256 n \<le> 2 ^ 63 - 256"
    using assms by (auto elim: dvdE)
  then show ?thesis by (simp add: padUpTo256_exact)
qed

section \<open>Slots, and when the derivation panics\<close>

lemma LlamacppSlots_nonneg: "0 \<le> LlamacppSlots args"
  by (auto simp: LlamacppSlots_def LlamacppSlotsAuto_def GetInt_def llamacppAutoSlots_def
      split: option.splits)

lemma LlamacppSlots_zero:
  "LlamacppSlots args = 0 \<longleftrightarrow> GetInt args ''parallel'' = Some 0"
  by (auto simp: LlamacppSlots_def LlamacppSlotsAuto_def GetInt_def llamacppAutoSlots_def
      split: option.splits)

lemma per_slot_pos: "LlamacppKVUnifiedPerSlot args = Some p \<Longrightarrow> 0 < p \<and> in_int64 p"
  by (auto simp: LlamacppKVUnifiedPerSlot_def dest: GetInt_range split: option.splits if_splits)

lemma unified_of_zero_slots:
  "GetInt args ''parallel'' = Some 0 \<Longrightarrow>
     KVUnifiedEffective args \<longleftrightarrow> GetString args ''no_kv_unified'' = None \<and>
       (\<exists>v. GetString args ''kv_unified'' = Some v \<and> v \<in> set llamacppTruthy)"
  by (auto simp: KVUnifiedEffective_def LlamacppSlotsAuto_def GetInt_def split: option.splits)

section \<open>The window never exceeds the pool\<close>

text \<open>The pool the flags ask for, before padding, is small enough not to wrap.\<close>

definition pool_fits :: "engine_args \<Rightarrow> bool" where
  "pool_fits args \<longleftrightarrow>
     (\<forall>c. GetInt args ''ctx_size'' = Some c \<longrightarrow> c \<le> 2 ^ 63 - 512) \<and>
     (\<forall>p. LlamacppKVUnifiedPerSlot args = Some p \<longrightarrow> p * LlamacppSlots args \<le> 2 ^ 63 - 512)"

lemma pool_cases:
  assumes "deriveLlamacppPoolTokens args = Some pool" "pool_fits args"
  obtains (ctx) c where "GetInt args ''ctx_size'' = Some c" "0 < c" "c \<le> 2 ^ 63 - 512"
      "pool = padUpTo256 c"
    | (slots) p where "LlamacppKVUnifiedPerSlot args = Some p"
      "\<forall>c. GetInt args ''ctx_size'' = Some c \<longrightarrow> c \<le> 0"
      "0 \<le> p * LlamacppSlots args" "p * LlamacppSlots args \<le> 2 ^ 63 - 512"
      "pool = padUpTo256 (p * LlamacppSlots args)"
proof (cases "\<exists>c. GetInt args ''ctx_size'' = Some c \<and> 0 < c")
  case True
  then show thesis using assms ctx by (auto simp: deriveLlamacppPoolTokens_def pool_fits_def)
next
  case False
  then obtain p where p: "LlamacppKVUnifiedPerSlot args = Some p"
    "pool = padUpTo256 (wrap64 (p * LlamacppSlots args))"
    using assms(1) by (auto simp: deriveLlamacppPoolTokens_def split: option.splits if_splits)
  have "0 \<le> p * LlamacppSlots args" "p * LlamacppSlots args \<le> 2 ^ 63 - 512"
    using per_slot_pos [OF p(1)] LlamacppSlots_nonneg [of args] assms(2) p(1)
    by (auto simp: pool_fits_def)
  moreover have "\<forall>c. GetInt args ''ctx_size'' = Some c \<longrightarrow> c \<le> 0" using False by force
  ultimately show thesis using p slots by (simp add: in_int64_def)
qed

lemma split_window_le_pool:
  assumes "0 < tot" "tot \<le> 2 ^ 63 - 256" "1 \<le> slots" "256 dvd tot"
  shows "padUpTo256 (go_quot tot slots) \<le> tot"
proof -
  have "tot div slots \<le> tot div 1" using assms by (intro zdiv_mono2) simp_all
  then have le: "tot div slots \<le> tot" "0 \<le> tot div slots"
    using assms by (simp_all add: pos_imp_zdiv_nonneg_iff)
  obtain k where "tot = 256 * k" using assms(4) by (auto elim: dvdE)
  then have "padUpTo256 tot = tot" using assms by (simp add: padUpTo256_exact)
  then show ?thesis using padUpTo256_mono [OF le(2,1) assms(2)] assms by simp
qed

lemma padded_pool:
  assumes "0 < c" "c \<le> 2 ^ 63 - 512"
  shows "0 < padUpTo256 c" "padUpTo256 c \<le> 2 ^ 63 - 256" "256 dvd padUpTo256 c"
  using padUpTo256_bounds [of c] assms by auto

lemma context_le_pool_ctx:
  assumes "deriveLlamacppContextSize args = Inr (Some w)" "GetInt args ''ctx_size'' = Some c"
    "c \<le> 2 ^ 63 - 512"
  shows "w \<le> padUpTo256 c \<and> deriveLlamacppPoolTokens args = Some (padUpTo256 c)"
proof -
  have c: "0 < c" using assms(1,2)
    by (auto simp: deriveLlamacppContextSize_def split: if_splits)
  have slots: "\<not> KVUnifiedEffective args \<Longrightarrow> 1 \<le> LlamacppSlots args"
    using assms(1,2) c LlamacppSlots_nonneg [of args]
    by (auto simp: deriveLlamacppContextSize_def Let_def split: if_splits)
  have "w \<le> padUpTo256 c"
    using assms(1,2) c slots split_window_le_pool [of "padUpTo256 c" "LlamacppSlots args"]
      padded_pool [OF c assms(3)]
    by (auto simp: deriveLlamacppContextSize_def Let_def split: if_splits option.splits)
  then show ?thesis using assms(2) c by (simp add: deriveLlamacppPoolTokens_def)
qed

lemma context_le_pool_slots:
  assumes "deriveLlamacppContextSize args = Inr (Some w)" "GetInt args ''ctx_size'' = None"
    "pool_fits args" "1 \<le> LlamacppSlots args"
  shows "\<exists>pool. deriveLlamacppPoolTokens args = Some pool \<and> w \<le> pool"
proof -
  have w: "LlamacppKVUnifiedPerSlot args = Some w"
    using assms(1,2) by (simp add: deriveLlamacppContextSize_def)
  then have pos: "0 < w" by (simp add: per_slot_pos)
  define claim where "claim = w * LlamacppSlots args"
  have ge: "w \<le> claim" using pos assms(4) mult_left_mono [of 1 "LlamacppSlots args" w]
    by (simp add: claim_def)
  have le: "claim \<le> 2 ^ 63 - 512" using w assms(3) by (simp add: pool_fits_def claim_def)
  have "w \<le> padUpTo256 claim" "in_int64 claim"
    using padUpTo256_bounds(1) [of claim] pos ge le by (auto simp: in_int64_def)
  then show ?thesis using w assms(2) by (simp add: deriveLlamacppPoolTokens_def claim_def)
qed

section \<open>Properties\<close>

text \<open>For every llama.cpp launch line whose pool size does not come near the 64-bit limit and
  which has at least one slot, the context window derived for one request is at most the KV pool
  derived from the same flags, and a pool is derived whenever a window is.\<close>
theorem context_window_within_pool:
  assumes "deriveLlamacppContextSize args = Inr (Some w)" and "pool_fits args"
    and "1 \<le> LlamacppSlots args"
  shows "\<exists>pool. deriveLlamacppPoolTokens args = Some pool \<and> w \<le> pool"
proof (cases "GetInt args ''ctx_size''")
  case None
  then show ?thesis using context_le_pool_slots assms by blast
next
  case (Some c)
  then show ?thesis using context_le_pool_ctx [OF assms(1)] assms(2) by (auto simp: pool_fits_def)
qed

text \<open>A launch line for the examples: \<open>-np 4 -c 8192 -kvu --kv-unified-per-slot 2048\<close>.\<close>

definition example_args :: engine_args where
  "example_args = \<lparr>ea_Raw = ''-np 4 -c 8192 -kvu --kv-unified-per-slot 2048'',
     ea_Known = [''parallel'' \<mapsto> ''4'', ''ctx_size'' \<mapsto> ''8192'', ''kv_unified'' \<mapsto> ''true'',
       ''kv_unified_per_slot'' \<mapsto> ''2048''],
     ea_Unknown = []\<rparr>"

lemma example_ints [simp]:
  "GetInt example_args ''parallel'' = Some 4" "GetInt example_args ''ctx_size'' = Some 8192"
  "GetInt example_args ''kv_unified_per_slot'' = Some 2048"
  by code_simp+

lemma example_facts [simp]:
  "KVUnifiedEffective example_args" "LlamacppSlots example_args = 4"
  "LlamacppKVUnifiedPerSlot example_args = Some 2048"
  "deriveLlamacppContextSize example_args = Inr (Some 2048)"
  "deriveLlamacppPoolTokens example_args = Some 8192"
  "\<not> LlamacppKVOversubscribed example_args"
  by code_simp+

theorem context_window_within_pool_witness:
  "\<exists>pool. deriveLlamacppPoolTokens example_args = Some pool \<and> 2048 \<le> pool"
  by (rule context_window_within_pool) (simp_all add: pool_fits_def)

text \<open>The KV gate may stand aside from a unified pool shared by several slots only when the
  windows all the slots may claim together fit the pool: if the flags are not judged oversubscribed
  then slots times the per-request window is at most the pool.\<close>
theorem not_oversubscribed_sound:
  assumes "KVUnifiedEffective args" and "\<not> LlamacppKVOversubscribed args"
    and "2 \<le> LlamacppSlots args" and "pool_fits args"
    and "deriveLlamacppContextSize args = Inr (Some w)"
  shows "\<exists>pool. deriveLlamacppPoolTokens args = Some pool \<and> w * LlamacppSlots args \<le> pool"
proof -
  obtain p pool where p: "LlamacppKVUnifiedPerSlot args = Some p"
    and pool: "deriveLlamacppPoolTokens args = Some pool" "wrap64 (p * LlamacppSlots args) \<le> pool"
    using assms(1-3) by (auto simp: LlamacppKVOversubscribed_def Let_def split: option.splits)
  have pos: "0 < p" using p by (simp add: per_slot_pos)
  have fits: "p * LlamacppSlots args \<le> 2 ^ 63 - 512" using assms(4) p by (simp add: pool_fits_def)
  have "0 \<le> p * LlamacppSlots args" using pos LlamacppSlots_nonneg [of args] by simp
  with fits pool have claim: "p * LlamacppSlots args \<le> pool" by (simp add: in_int64_def)
  have "w \<le> p"
    using assms(1,5) p
    by (auto simp: deriveLlamacppContextSize_def Let_def split: option.splits if_splits)
  then have "w * LlamacppSlots args \<le> p * LlamacppSlots args"
    using LlamacppSlots_nonneg [of args] by (rule mult_right_mono)
  with claim pool(1) show ?thesis by (intro exI [of _ pool]) simp
qed

theorem not_oversubscribed_sound_witness:
  "\<exists>pool. deriveLlamacppPoolTokens example_args = Some pool \<and>
     2048 * LlamacppSlots example_args \<le> pool"
  by (rule not_oversubscribed_sound) (simp_all add: pool_fits_def)

text \<open>Deriving the context window panics (integer division by zero) exactly for a llama.cpp
  launch line that pins zero slots, asks for a positive context and does not share the pool; it
  never panics for any other engine or line.\<close>
theorem DeriveContextSize_panics_iff:
  "DeriveContextSize kind args = Inl e \<longleftrightarrow>
     kind = EngineLlamaCpp \<and> e = DivideByZero \<and> GetInt args ''parallel'' = Some 0 \<and>
     \<not> KVUnifiedEffective args \<and> (\<exists>c. GetInt args ''ctx_size'' = Some c \<and> 0 < c)"
  by (cases e)
    (auto simp: DeriveContextSize_def deriveLlamacppContextSize_def Let_def LlamacppSlots_zero
      split: option.splits)

text \<open>Padding to a multiple of 256 rounds up by less than 256 for every value that stays clear of
  the 64-bit limit, and is then exact: the result is a multiple of 256 and padding it again changes
  nothing.\<close>
theorem padUpTo256_rounds_up:
  assumes "0 \<le> n" and "n \<le> 2 ^ 63 - 512"
  shows "n \<le> padUpTo256 n \<and> padUpTo256 n < n + 256 \<and> 256 dvd padUpTo256 n \<and>
    padUpTo256 (padUpTo256 n) = padUpTo256 n"
  using padUpTo256_bounds [of n] padUpTo256_idem [of n] assms by simp

theorem padUpTo256_rounds_up_witness:
  "(1000::int) \<le> padUpTo256 1000 \<and> padUpTo256 1000 < 1256 \<and> 256 dvd padUpTo256 1000"
  using padUpTo256_rounds_up [of 1000] by simp

text \<open>A chat card whose window is at least four tokens leaves the synchronisation with an output
  ceiling that is positive and strictly below the window, so a reply can never reserve the whole
  window; running it again changes nothing.\<close>
theorem output_ceiling_below_window:
  assumes "syncMaxOutputTokensFromContext (Some c) = (Some c', changed)"
    and "cc_Mode c = ''chat''" and "4 \<le> cc_ContextSize c"
  shows "0 < cc_MaxOutputToks c' \<and> cc_MaxOutputToks c' < cc_ContextSize c' \<and>
    syncMaxOutputTokensFromContext (Some c') = (Some c', False)"
proof -
  let ?n = "cc_ContextSize c div 4"
  have n: "1 \<le> ?n" "?n < cc_ContextSize c" using assms(3) by (auto simp: pos_imp_zdiv_pos_iff)
  show ?thesis using assms n
    by (auto simp: syncMaxOutputTokensFromContext_def Let_def split: if_splits)
qed

theorem output_ceiling_below_window_witness:
  "\<exists>c'. syncMaxOutputTokensFromContext (Some (\<lparr>cc_Kind = EngineVLLM, cc_Args = example_args,
      cc_Mode = ''chat'', cc_ContextSize = 8192, cc_MaxOutputToks = 8192\<rparr>)) = (Some c', True) \<and>
     0 < cc_MaxOutputToks c' \<and> cc_MaxOutputToks c' < 8192"
proof -
  let ?c = "\<lparr>cc_Kind = EngineVLLM, cc_Args = example_args, cc_Mode = ''chat'',
    cc_ContextSize = 8192, cc_MaxOutputToks = 8192\<rparr>"
  have "syncMaxOutputTokensFromContext (Some ?c) = (Some (?c\<lparr>cc_MaxOutputToks := 2048\<rparr>), True)"
    by (simp add: syncMaxOutputTokensFromContext_def)
  moreover from this have "cc_MaxOutputToks (?c\<lparr>cc_MaxOutputToks := 2048\<rparr>) <
      cc_ContextSize (?c\<lparr>cc_MaxOutputToks := 2048\<rparr>)"
    using output_ceiling_below_window [of ?c "?c\<lparr>cc_MaxOutputToks := 2048\<rparr>" True] by simp
  ultimately show ?thesis by simp
qed

end
