(* ===== verification/AtomicFile.thy ===== *)
theory AtomicFile
  imports Prelude
begin

text \<open>
  The file system as the code uses it, and the promise every one of its writers makes: a reader of
  the final name sees the old contents or the new ones, never a part. A path is a directory and a
  name. An operation returns its error, if any, and the list of file systems another process can
  observe while it runs, the last of which is what it leaves behind.

  \<open>atomic_write\<close> states the contract as a locale; the writers of the handoff, the sentinel, the
  sidecar, the model card and the progress snapshot are its instances.
\<close>

section \<open>Operations of package os\<close>

type_synonym path = "string \<times> string"
type_synonym fs = "path \<Rightarrow> string option"

datatype io_error = MkdirError | OpenError | WriteError | SyncError | CloseError | RenameError
  | RemoveError | ReadError | NotExist

text \<open>What the operating system does to one writer: which calls succeed, and after how many bytes
  a write fails (\<open>None\<close>: it does not).\<close>

record io_plan =
  io_mkdir :: bool
  io_open :: bool
  io_write :: "nat option"
  io_sync :: bool
  io_close :: bool
  io_rename :: bool
  io_remove :: bool

definition fault_free :: io_plan where
  "fault_free = \<lparr>io_mkdir = True, io_open = True, io_write = None, io_sync = True,
     io_close = True, io_rename = True, io_remove = True\<rparr>"

type_synonym io_run = "io_error option \<times> fs list"

definition io_then :: "io_run \<Rightarrow> (fs \<Rightarrow> io_run) \<Rightarrow> io_run" where
  "io_then r k =
     (case r of
        (Some e, tr) \<Rightarrow> (Some e, tr)
      | (None, tr) \<Rightarrow> (case k (last tr) of (e, tr') \<Rightarrow> (e, tr @ tr')))"

text \<open>Best-effort cleanup after a failure; its own error is dropped.\<close>

definition io_or_else :: "io_run \<Rightarrow> (fs \<Rightarrow> io_run) \<Rightarrow> io_run" where
  "io_or_else r k =
     (case r of
        (Some e, tr) \<Rightarrow> (Some e, tr @ snd (k (last tr)))
      | (None, tr) \<Rightarrow> (None, tr))"

definition check :: "bool \<Rightarrow> io_error \<Rightarrow> fs \<Rightarrow> io_run" where
  "check ok e fs = (if ok then None else Some e, [fs])"

definition os_mkdir_all :: "io_plan \<Rightarrow> fs \<Rightarrow> io_run" where
  "os_mkdir_all io fs = check (io_mkdir io) MkdirError fs"

definition os_open_trunc :: "io_plan \<Rightarrow> path \<Rightarrow> fs \<Rightarrow> io_run" where
  "os_open_trunc io p fs = (if io_open io then (None, [fs(p \<mapsto> [])]) else (Some OpenError, [fs]))"

definition write_bytes :: "io_plan \<Rightarrow> path \<Rightarrow> string \<Rightarrow> fs \<Rightarrow> io_run" where
  "write_bytes io p d fs =
     (case io_write io of
        None \<Rightarrow> (None, map (\<lambda>k. fs(p \<mapsto> take k d)) [0..<Suc (length d)])
      | Some n \<Rightarrow> (Some WriteError, map (\<lambda>k. fs(p \<mapsto> take k d)) [0..<Suc (min n (length d))]))"

definition os_write_file :: "io_plan \<Rightarrow> path \<Rightarrow> string \<Rightarrow> fs \<Rightarrow> io_run" where
  "os_write_file io p d fs = io_then (os_open_trunc io p fs) (write_bytes io p d)"

definition os_rename :: "io_plan \<Rightarrow> path \<Rightarrow> path \<Rightarrow> fs \<Rightarrow> io_run" where
  "os_rename io p q fs =
     (if io_rename io then (None, [fs(q := fs p, p := None)]) else (Some RenameError, [fs]))"

definition os_remove :: "io_plan \<Rightarrow> path \<Rightarrow> fs \<Rightarrow> io_run" where
  "os_remove io p fs =
     (if fs p = None then (Some NotExist, [fs])
      else if io_remove io then (None, [fs(p := None)])
      else (Some RemoveError, [fs]))"

definition tmp_of :: "path \<Rightarrow> path" where
  "tmp_of p = (fst p, snd p @ ''.tmp'')"

lemma tmp_of_neq [simp]: "tmp_of p \<noteq> p" "p \<noteq> tmp_of p"
  by (cases p, simp add: tmp_of_def)+

lemma tmp_of_inject [simp]: "tmp_of p = tmp_of q \<longleftrightarrow> p = q"
  by (cases p; cases q) (auto simp: tmp_of_def)

section \<open>Runs that leave a path alone\<close>

text \<open>\<open>touches Q r fs\<close>: every file system of the run agrees with \<open>fs\<close> outside \<open>Q\<close>.\<close>

definition touches :: "path set \<Rightarrow> io_run \<Rightarrow> fs \<Rightarrow> bool" where
  "touches Q r fs \<longleftrightarrow> snd r \<noteq> [] \<and> (\<forall>fs' \<in> set (snd r). \<forall>q. q \<notin> Q \<longrightarrow> fs' q = fs q)"

lemma touches_check [simp]: "touches Q (check ok e fs) fs" "touches Q (os_mkdir_all io fs) fs"
  by (simp_all add: touches_def check_def os_mkdir_all_def)

lemma touches_open: "p \<in> Q \<Longrightarrow> touches Q (os_open_trunc io p fs) fs"
  by (auto simp: touches_def os_open_trunc_def)

lemma touches_write: "p \<in> Q \<Longrightarrow> touches Q (write_bytes io p d fs) fs"
  by (auto simp: touches_def write_bytes_def split: option.splits)

lemma touches_remove: "p \<in> Q \<Longrightarrow> touches Q (os_remove io p fs) fs"
  by (auto simp: touches_def os_remove_def)

lemma touches_rename: "p \<in> Q \<Longrightarrow> q \<in> Q \<Longrightarrow> touches Q (os_rename io p q fs) fs"
  by (auto simp: touches_def os_rename_def)

lemma touches_last: "touches Q r fs \<Longrightarrow> q \<notin> Q \<Longrightarrow> last (snd r) q = fs q"
  unfolding touches_def using last_in_set by blast

lemma touches_trans:
  assumes "touches Q (e, tr) fs" "touches Q (e', tr') (last tr)"
  shows "touches Q (e'', tr @ tr') fs"
proof -
  have "last tr q = fs q" if "q \<notin> Q" for q using touches_last [OF assms(1), of q] that by simp
  then show ?thesis using assms unfolding touches_def by auto
qed

lemma touches_then:
  assumes "touches Q r fs" "\<And>fs'. touches Q (k fs') fs'"
  shows "touches Q (io_then r k) fs"
proof (cases r)
  case (Pair e tr)
  show ?thesis
  proof (cases e)
    case None
    have k: "touches Q (fst (k (last tr)), snd (k (last tr))) (last tr)" using assms(2) by simp
    show ?thesis using touches_trans [OF _ k, of e fs "fst (k (last tr))"] assms(1) Pair None
      by (cases "k (last tr)") (simp add: io_then_def)
  next
    case (Some x)
    then show ?thesis using assms(1) Pair by (simp add: io_then_def)
  qed
qed

lemma touches_or_else:
  assumes "touches Q r fs" "\<And>fs'. touches Q (k fs') fs'"
  shows "touches Q (io_or_else r k) fs"
proof (cases r)
  case (Pair e tr)
  show ?thesis
  proof (cases e)
    case None
    then show ?thesis using assms(1) Pair by (simp add: io_or_else_def)
  next
    case (Some x)
    have k: "touches Q (fst (k (last tr)), snd (k (last tr))) (last tr)" using assms(2) by simp
    show ?thesis using touches_trans [OF _ k, of e fs e] assms(1) Pair Some
      by (simp add: io_or_else_def)
  qed
qed

lemma touches_write_file: "p \<in> Q \<Longrightarrow> touches Q (os_write_file io p d fs) fs"
  unfolding os_write_file_def by (intro touches_then touches_open touches_write)

lemma touches_Cons: "touches Q r fs \<Longrightarrow> touches Q (e, fs # snd r) fs"
  by (auto simp: touches_def)

lemmas touches_intros = touches_then touches_or_else touches_open touches_write touches_remove
  touches_rename touches_write_file touches_check

lemma write_bytes_ok: "write_bytes io p d fs = (None, tr) \<Longrightarrow> last tr = fs(p \<mapsto> d)"
  by (auto simp: write_bytes_def split: option.splits)

lemma open_trunc_ok: "os_open_trunc io p fs = (None, tr) \<Longrightarrow> tr = [fs(p \<mapsto> [])]"
  by (auto simp: os_open_trunc_def split: if_splits)

lemma os_write_file_ok: "os_write_file io p d fs = (None, tr) \<Longrightarrow> last tr = fs(p \<mapsto> d) \<and> tr \<noteq> []"
  by (auto simp: os_write_file_def io_then_def os_open_trunc_def write_bytes_def
      split: option.splits if_splits prod.splits)

section \<open>The contract\<close>

text \<open>A writer prepares the contents under a temporary name and renames it into place: before the
  rename it touches nothing but the temporary.\<close>

definition replaces :: "(fs \<Rightarrow> io_run) \<Rightarrow> path \<Rightarrow> string \<Rightarrow> bool" where
  "replaces w p d \<longleftrightarrow>
     (\<forall>fs e tr. w fs = (e, tr) \<longrightarrow>
        tr \<noteq> [] \<and>
        (\<forall>fs' \<in> set tr. (fs' p = fs p \<or> fs' p = Some d) \<and>
           (\<forall>q. q \<noteq> p \<longrightarrow> q \<noteq> tmp_of p \<longrightarrow> fs' q = fs q)) \<and>
        (e = None \<longrightarrow> last tr p = Some d) \<and>
        (e \<noteq> None \<longrightarrow> last tr p = fs p))"

locale atomic_write =
  fixes put :: "io_plan \<Rightarrow> path \<Rightarrow> string \<Rightarrow> fs \<Rightarrow> io_run"
  assumes put_replaces: "replaces (put io p d) p d"
    and put_fault_free: "fst (put fault_free p d fs) = None"
begin

lemma put_observed:
  "put io p d fs = (e, tr) \<Longrightarrow> fs' \<in> set tr \<Longrightarrow> fs' p = fs p \<or> fs' p = Some d"
  using put_replaces unfolding replaces_def by blast

lemma put_frame:
  "put io p d fs = (e, tr) \<Longrightarrow> fs' \<in> set tr \<Longrightarrow> q \<noteq> p \<Longrightarrow> q \<noteq> tmp_of p \<Longrightarrow> fs' q = fs q"
  using put_replaces unfolding replaces_def by blast

lemma put_ok: "put io p d fs = (None, tr) \<Longrightarrow> last tr p = Some d"
  using put_replaces unfolding replaces_def by blast

lemma put_failed: "put io p d fs = (Some e, tr) \<Longrightarrow> last tr p = fs p"
  using put_replaces unfolding replaces_def by blast

lemma put_nonempty: "put io p d fs = (e, tr) \<Longrightarrow> tr \<noteq> []"
  using put_replaces unfolding replaces_def by blast

lemma put_last_frame:
  "put io p d fs = (e, tr) \<Longrightarrow> q \<noteq> p \<Longrightarrow> q \<noteq> tmp_of p \<Longrightarrow> last tr q = fs q"
  using put_frame put_nonempty by (metis last_in_set)

lemma put_succeeds: "\<exists>tr. put fault_free p d fs = (None, tr) \<and> last tr p = Some d"
  using put_fault_free put_ok by (metis prod.collapse)

end

text \<open>Several writes of one path in a row, with whatever faults: what can be observed.\<close>

fun put_all ::
  "(io_plan \<Rightarrow> path \<Rightarrow> string \<Rightarrow> fs \<Rightarrow> io_run) \<Rightarrow> path \<Rightarrow> (io_plan \<times> string) list \<Rightarrow> fs \<Rightarrow> fs list" where
  "put_all w p [] fs = [fs]"
| "put_all w p ((io, d) # ds) fs =
     (let tr = snd (w io p d fs) in tr @ put_all w p ds (last tr))"

context atomic_write
begin

lemma put_all_observed:
  "fs' \<in> set (put_all put p ds fs) \<Longrightarrow> fs' p = fs p \<or> (\<exists>io d. (io, d) \<in> set ds \<and> fs' p = Some d)"
proof (induction ds arbitrary: fs)
  case Nil
  then show ?case by simp
next
  case (Cons iod ds)
  obtain io d e tr where eq: "iod = (io, d)" "put io p d fs = (e, tr)"
    by (metis prod.exhaust_sel)
  have "fs' \<in> set tr \<Longrightarrow> ?case" using put_observed [OF eq(2)] eq(1) by fastforce
  moreover have "fs' \<in> set (put_all put p ds (last tr)) \<Longrightarrow> ?case"
    using Cons.IH [of "last tr"] put_observed [OF eq(2), of "last tr"] put_nonempty [OF eq(2)] eq(1)
    by fastforce
  ultimately show ?case using Cons.prems eq by (auto simp: Let_def)
qed

end

section \<open>Recognising a writer\<close>

text \<open>The shape all writers share: a preparation that touches only the temporary and, when it
  succeeds, leaves the contents there, then the rename, then cleanup of the temporary.\<close>

lemma replaces_tmp_rename:
  assumes prep: "\<And>fs. touches {tmp_of p} (prep fs) fs"
    and filled: "\<And>fs tr. prep fs = (None, tr) \<Longrightarrow> last tr (tmp_of p) = Some d"
    and clean: "\<And>fs. touches {tmp_of p} (None, fs # snd (clean fs)) fs"
    and w: "\<And>fs. w fs = io_then (prep fs) (\<lambda>fs'. io_or_else (os_rename io (tmp_of p) p fs') clean)"
  shows "replaces w p d"
  unfolding replaces_def
proof (intro allI impI)
  fix fs e tr
  assume wtr: "w fs = (e, tr)"
  obtain e1 tr1 where p1: "prep fs = (e1, tr1)" by fastforce
  have t1: "tr1 \<noteq> []" "\<And>fs' q. fs' \<in> set tr1 \<Longrightarrow> q \<noteq> tmp_of p \<Longrightarrow> fs' q = fs q"
    using prep [of fs] p1 by (auto simp: touches_def)
  have l1: "last tr1 q = fs q" if "q \<noteq> tmp_of p" for q using t1 that last_in_set by blast
  have c: "\<forall>fs' \<in> set (g # snd (clean g)). \<forall>q. q \<noteq> tmp_of p \<longrightarrow> fs' q = g q" for g
    using clean [of g] by (auto simp: touches_def)
  have cl: "last (g # snd (clean g)) p = g p" for g
    using c [of g] tmp_of_neq(2) last_in_set by (metis list.distinct(1))
  have pre: "fs' p = fs p" if "fs' \<in> set tr1" for fs' using t1(2) [OF that, of p] by simp
  have post: "fs' p = fs p" if "fs' \<in> set (snd (clean (last tr1)))" for fs'
    using c [of "last tr1"] that l1 [of p] tmp_of_neq(2) by (metis list.set_intros(2))
  show "tr \<noteq> [] \<and> (\<forall>fs'\<in>set tr. (fs' p = fs p \<or> fs' p = Some d) \<and>
      (\<forall>q. q \<noteq> p \<longrightarrow> q \<noteq> tmp_of p \<longrightarrow> fs' q = fs q)) \<and>
      (e = None \<longrightarrow> last tr p = Some d) \<and> (e \<noteq> None \<longrightarrow> last tr p = fs p)"
  proof (cases e1)
    case (Some x)
    then show ?thesis using wtr w p1 t1 l1 by (auto simp: io_then_def)
  next
    case None
    have d1: "last tr1 (tmp_of p) = Some d" using filled p1 None by simp
    show ?thesis
    proof (cases "io_rename io")
      case True
      then have "e = None" "tr = tr1 @ [(last tr1)(p := last tr1 (tmp_of p), tmp_of p := None)]"
        using wtr w p1 None by (auto simp: io_then_def io_or_else_def os_rename_def)
      then show ?thesis using t1 l1 d1 by auto
    next
      case False
      then have "e = Some RenameError" "tr = tr1 @ last tr1 # snd (clean (last tr1))"
        using wtr w p1 None by (auto simp: io_then_def io_or_else_def os_rename_def)
      then show ?thesis using t1 l1 c [of "last tr1"] cl [of "last tr1"]
        by (auto simp: pre post)
    qed
  qed
qed

end
