(* ===== verification/Sentinel.thy ===== *)
theory Sentinel
  imports AtomicFile
begin

text \<open>
  The readiness files an engine wrapper polls: \<open>internal/sentinel/sentinel.go\<close>. A directory is the
  string the code is given; \<open>read_err\<close> says which reads fail for another reason than absence. The
  timestamp written to the marker is a parameter.
\<close>

definition FinishFile :: string where "FinishFile = ''model_download_finish''"
definition ModelPathFile :: string where "ModelPathFile = ''model_path''"
definition ExtraModelPathFile :: string where "ExtraModelPathFile = ''extra_model_path''"

datatype sentinel_error =
    RunDirEmpty | ModelPathEmpty | ModelPathNotAbs | ExtraPathEmpty nat | ExtraPathNotAbs nat
  | SentinelIO io_error

type_synonym sentinel_run = "sentinel_error option \<times> fs list"

definition lift_run :: "io_run \<Rightarrow> sentinel_run" where
  "lift_run r = (map_option SentinelIO (fst r), snd r)"

section \<open>Operations\<close>

definition atomicWrite :: "io_plan \<Rightarrow> path \<Rightarrow> string \<Rightarrow> fs \<Rightarrow> io_run" where
  "atomicWrite io p data fs =
     io_then (os_write_file io (tmp_of p) data fs)
       (\<lambda>fs. io_or_else (os_rename io (tmp_of p) p fs) (os_remove io (tmp_of p)))"

text \<open>On the platforms the code runs on \<open>filepath.IsAbs\<close> is the leading slash.\<close>

definition is_abs :: "string \<Rightarrow> bool" where
  "is_abs p = has_prefix p ''/''"

definition sentinel_Write ::
  "io_plan \<Rightarrow> io_plan \<Rightarrow> string \<Rightarrow> string \<Rightarrow> string \<Rightarrow> fs \<Rightarrow> sentinel_run" where
  "sentinel_Write io1 io2 now runDir modelPath fs =
     (if runDir = [] then (Some RunDirEmpty, [fs])
      else if modelPath = [] then (Some ModelPathEmpty, [fs])
      else if \<not> is_abs modelPath \<and> \<not> has_prefix modelPath ''/'' then (Some ModelPathNotAbs, [fs])
      else lift_run
        (io_then (os_mkdir_all io1 fs)
          (\<lambda>fs. io_then (atomicWrite io1 (runDir, ModelPathFile) (modelPath @ [CHR 0x0A]) fs)
             (atomicWrite io2 (runDir, FinishFile) (now @ [CHR 0x0A])))))"

fun bad_extra :: "nat \<Rightarrow> string list \<Rightarrow> sentinel_error option" where
  "bad_extra i [] = None"
| "bad_extra i (p # ps) =
     (if p = [] then Some (ExtraPathEmpty i)
      else if \<not> is_abs p \<and> \<not> has_prefix p ''/'' then Some (ExtraPathNotAbs i)
      else bad_extra (Suc i) ps)"

definition WriteExtra :: "io_plan \<Rightarrow> string \<Rightarrow> string list \<Rightarrow> fs \<Rightarrow> sentinel_run" where
  "WriteExtra io runDir paths fs =
     (if runDir = [] then (Some RunDirEmpty, [fs])
      else let target = (runDir, ExtraModelPathFile)
        in if paths = [] then
             (case os_remove io target fs of
                (Some e, tr) \<Rightarrow> (if e = NotExist then None else Some (SentinelIO e), tr)
              | (None, tr) \<Rightarrow> (None, tr))
           else case bad_extra 0 paths of
                  Some e \<Rightarrow> (Some e, [fs])
                | None \<Rightarrow>
                    lift_run (io_then (os_mkdir_all io fs)
                      (atomicWrite io target (join_with [CHR 0x0A] paths @ [CHR 0x0A]))))"

definition read_file :: "(path \<Rightarrow> bool) \<Rightarrow> path \<Rightarrow> fs \<Rightarrow> io_error + string" where
  "read_file read_err p fs =
     (case fs p of
        None \<Rightarrow> Inl NotExist
      | Some d \<Rightarrow> if read_err p then Inl ReadError else Inr d)"

definition ReadExtraPaths :: "(path \<Rightarrow> bool) \<Rightarrow> string \<Rightarrow> fs \<Rightarrow> sentinel_error + string list" where
  "ReadExtraPaths read_err runDir fs =
     (if runDir = [] then Inl RunDirEmpty
      else case read_file read_err (runDir, ExtraModelPathFile) fs of
             Inl e \<Rightarrow> Inl (SentinelIO e)
           | Inr d \<Rightarrow> Inr (filter (\<lambda>l. l \<noteq> []) (map trim_space (split_on CHR 0x0A d))))"

definition ReadModelPath :: "(path \<Rightarrow> bool) \<Rightarrow> string \<Rightarrow> fs \<Rightarrow> sentinel_error + string" where
  "ReadModelPath read_err runDir fs =
     (if runDir = [] then Inl RunDirEmpty
      else case read_file read_err (runDir, ModelPathFile) fs of
             Inl e \<Rightarrow> Inl (SentinelIO e)
           | Inr d \<Rightarrow> Inr (trim_space d))"

definition sentinel_Exists :: "(path \<Rightarrow> bool) \<Rightarrow> string \<Rightarrow> fs \<Rightarrow> sentinel_error + bool" where
  "sentinel_Exists stat_err runDir fs =
     (if runDir = [] then Inl RunDirEmpty
      else if stat_err (runDir, FinishFile) then Inl (SentinelIO ReadError)
      else Inr (fs (runDir, FinishFile) \<noteq> None))"

text \<open>One plan per file removed: each \<open>os.Remove\<close> may fail on its own.\<close>

fun remove_names :: "string \<Rightarrow> (string \<times> io_plan) list \<Rightarrow> fs \<Rightarrow> sentinel_run" where
  "remove_names runDir [] fs = (None, [fs])"
| "remove_names runDir ((n, io) # ns) fs =
     (case os_remove io (runDir, n) fs of
        (e, tr) \<Rightarrow>
          if e \<noteq> None \<and> e \<noteq> Some NotExist then (map_option SentinelIO e, tr)
          else case remove_names runDir ns (last tr) of (e', tr') \<Rightarrow> (e', tr @ tr'))"

definition sentinel_Remove :: "(nat \<Rightarrow> io_plan) \<Rightarrow> string \<Rightarrow> fs \<Rightarrow> sentinel_run" where
  "sentinel_Remove io runDir fs =
     (if runDir = [] then (Some RunDirEmpty, [fs])
      else remove_names runDir
        [(FinishFile, io 0), (ModelPathFile, io 1), (ExtraModelPathFile, io 2)] fs)"

section \<open>The writer meets the contract\<close>

interpretation sent: atomic_write atomicWrite
proof
  fix io p d
  show "replaces (atomicWrite io p d) p d"
    by (rule replaces_tmp_rename [where prep = "os_write_file io (tmp_of p) d"
          and clean = "os_remove io (tmp_of p)" and io = io])
      (auto simp: atomicWrite_def dest: os_write_file_ok intro!: touches_intros touches_Cons)
next
  fix p d fs
  show "fst (atomicWrite fault_free p d fs) = None"
    by (simp add: atomicWrite_def io_then_def io_or_else_def os_write_file_def os_open_trunc_def
        write_bytes_def os_rename_def fault_free_def)
qed

section \<open>Lemmas\<close>

lemma names_distinct [simp]:
  "FinishFile \<noteq> ModelPathFile" "ModelPathFile \<noteq> FinishFile"
  "ExtraModelPathFile \<noteq> ModelPathFile" "ModelPathFile \<noteq> ExtraModelPathFile"
  "FinishFile \<noteq> ExtraModelPathFile" "ExtraModelPathFile \<noteq> FinishFile"
  "FinishFile \<noteq> ModelPathFile @ ''.tmp''" "ModelPathFile \<noteq> FinishFile @ ''.tmp''"
  by (simp_all add: FinishFile_def ModelPathFile_def ExtraModelPathFile_def)

lemma io_thenE:
  assumes "io_then r k = (e, tr)"
  obtains (failed) x where "r = (Some x, tr)" "e = Some x"
    | (both) tr1 tr2 where "r = (None, tr1)" "k (last tr1) = (e, tr2)" "tr = tr1 @ tr2"
  using assms by (cases r; cases "fst r") (auto simp: io_then_def split: prod.splits)

lemma lift_runD: "lift_run r = (e, tr) \<Longrightarrow> \<exists>e0. r = (e0, tr) \<and> e = map_option SentinelIO e0"
  by (cases r) (auto simp: lift_run_def)

text \<open>What a run of \<open>Write\<close> past its checks consists of.\<close>

lemma sentinel_Write_io:
  assumes "sentinel_Write io1 io2 now runDir modelPath fs = (e, tr)"
    "runDir \<noteq> []" "is_abs modelPath"
  obtains (mkdir) x where "e = Some x" "tr = [fs]"
    | (path) x tr1 where "atomicWrite io1 (runDir, ModelPathFile) (modelPath @ [CHR 0x0A]) fs = (Some x, tr1)"
        "tr = fs # tr1" "e = Some (SentinelIO x)"
    | (both) tr1 tr2 e2 where
        "atomicWrite io1 (runDir, ModelPathFile) (modelPath @ [CHR 0x0A]) fs = (None, tr1)"
        "atomicWrite io2 (runDir, FinishFile) (now @ [CHR 0x0A]) (last tr1) = (e2, tr2)"
        "tr = fs # tr1 @ tr2" "e = map_option SentinelIO e2"
proof -
  have "modelPath \<noteq> []" using assms(3) by (auto simp: is_abs_def has_prefix_def)
  then have run: "lift_run
      (io_then (os_mkdir_all io1 fs)
        (\<lambda>fs. io_then (atomicWrite io1 (runDir, ModelPathFile) (modelPath @ [CHR 0x0A]) fs)
           (atomicWrite io2 (runDir, FinishFile) (now @ [CHR 0x0A])))) = (e, tr)"
    using assms by (simp add: sentinel_Write_def)
  obtain e0 where e0: "io_then (os_mkdir_all io1 fs)
        (\<lambda>fs. io_then (atomicWrite io1 (runDir, ModelPathFile) (modelPath @ [CHR 0x0A]) fs)
           (atomicWrite io2 (runDir, FinishFile) (now @ [CHR 0x0A]))) = (e0, tr)"
    "e = map_option SentinelIO e0"
    using lift_runD [OF run] by blast
  from e0(1) show thesis
  proof (cases rule: io_thenE)
    case (failed x)
    then show thesis using mkdir e0(2) by (auto simp: os_mkdir_all_def check_def split: if_splits)
  next
    case (both tr1 tr2)
    then have tr1: "tr1 = [fs]" by (auto simp: os_mkdir_all_def check_def split: if_splits)
    with both(2) have "io_then (atomicWrite io1 (runDir, ModelPathFile) (modelPath @ [CHR 0x0A]) fs)
        (atomicWrite io2 (runDir, FinishFile) (now @ [CHR 0x0A])) = (e0, tr2)" by simp
    then show thesis
    proof (cases rule: io_thenE)
      case (failed x)
      then show thesis using path both(3) tr1 e0(2) by simp
    next
      case (both tr3 tr4)
      then show thesis using that(3) \<open>tr = tr1 @ tr2\<close> tr1 e0(2) by simp
    qed
  qed
qed

section \<open>Properties\<close>

text \<open>C13: While \<open>Write\<close> runs, and wherever it fails, a wrapper that finds the readiness marker newly
  in place also finds the complete new model path: no observable state has the one without the
  other.\<close>
theorem marker_implies_model_path:
  assumes "sentinel_Write io1 io2 now runDir modelPath fs = (e, tr)" and "runDir \<noteq> []"
    and "is_abs modelPath" and "fs (runDir, FinishFile) = None" and "fs' \<in> set tr"
    and "fs' (runDir, FinishFile) \<noteq> None"
  shows "fs' (runDir, ModelPathFile) = Some (modelPath @ [CHR 0x0A])"
  using assms(1-3)
proof (cases rule: sentinel_Write_io)
  case (mkdir x)
  then show ?thesis using assms(4-6) by simp
next
  case (path x tr1)
  then show ?thesis
    using sent.put_frame [OF path(1), of fs' "(runDir, FinishFile)"] assms(4-6)
    by (auto simp: tmp_of_def)
next
  case (both tr1 tr2 e2)
  have mp: "last tr1 (runDir, ModelPathFile) = Some (modelPath @ [CHR 0x0A])"
    using sent.put_ok [OF both(1)] .
  have "fs' \<in> set tr2"
    using sent.put_frame [OF both(1), of fs' "(runDir, FinishFile)"] both(3) assms(4-6)
    by (auto simp: tmp_of_def)
  then have "fs' (runDir, ModelPathFile) = last tr1 (runDir, ModelPathFile)"
    by (rule sent.put_frame [OF both(2)]) (simp_all add: tmp_of_def)
  then show ?thesis using mp by simp
qed

text \<open>After a successful \<open>Write\<close> the marker exists and \<open>ReadModelPath\<close> returns exactly the path
  that was written, for every absolute path without white space at its ends.\<close>
theorem written_path_reads_back:
  assumes "sentinel_Write io1 io2 now runDir modelPath fs = (None, tr)" and "runDir \<noteq> []"
    and "is_abs modelPath" and "trimmed modelPath"
  shows "ReadModelPath (\<lambda>p. False) runDir (last tr) = Inr modelPath \<and>
    sentinel_Exists (\<lambda>p. False) runDir (last tr) = Inr True"
  using assms(1-3)
proof (cases rule: sentinel_Write_io)
  case (both tr1 tr2 e2)
  then have ok: "atomicWrite io2 (runDir, FinishFile) (now @ [CHR 0x0A]) (last tr1) = (None, tr2)"
    by simp
  have "last tr = last tr2" using both(3) sent.put_nonempty [OF ok] by simp
  moreover have "last tr2 (runDir, ModelPathFile) = last tr1 (runDir, ModelPathFile)"
    by (rule sent.put_last_frame [OF ok]) (simp_all add: tmp_of_def)
  moreover have "modelPath \<noteq> []" using assms(3) by (auto simp: is_abs_def has_prefix_def)
  ultimately show ?thesis
    using sent.put_ok [OF ok] sent.put_ok [OF both(1)] assms(2,4)
    by (simp add: ReadModelPath_def sentinel_Exists_def read_file_def trim_space_line)
qed auto

lemma Write_marks:
  assumes "sentinel_Write io1 io2 now runDir modelPath fs = (None, tr)" "runDir \<noteq> []" "is_abs modelPath"
  shows "last tr \<in> set tr \<and> last tr (runDir, FinishFile) = Some (now @ [CHR 0x0A])"
  using assms
proof (cases rule: sentinel_Write_io)
  case (both tr1 tr2 e2)
  then have "atomicWrite io2 (runDir, FinishFile) (now @ [CHR 0x0A]) (last tr1) = (None, tr2)"
    by simp
  then show ?thesis using both(3) sent.put_nonempty sent.put_ok by simp
qed auto

lemma Write_fault_free:
  assumes "runDir \<noteq> []" "is_abs modelPath"
  shows "fst (sentinel_Write fault_free fault_free now runDir modelPath fs) = None"
proof -
  have "modelPath \<noteq> []" using assms(2) by (auto simp: is_abs_def has_prefix_def)
  moreover have "fst (io_then (atomicWrite fault_free (runDir, ModelPathFile) d fs')
      (atomicWrite fault_free (runDir, FinishFile) d')) = None" for d d' fs'
    using sent.put_fault_free [of "(runDir, ModelPathFile)" d fs'] sent.put_fault_free [of "(runDir, FinishFile)" d']
    by (simp add: io_then_def split_beta)
  ultimately show ?thesis
    using assms by (simp add: sentinel_Write_def lift_run_def split_beta io_then_def [of "(None, [_])"]
      os_mkdir_all_def check_def fault_free_def)
qed

lemma example_write:
  "sentinel_Write fault_free fault_free ''t'' ''/run'' ''/m/w.gguf'' (\<lambda>p. None) =
     (None, snd (sentinel_Write fault_free fault_free ''t'' ''/run'' ''/m/w.gguf'' (\<lambda>p. None)))"
  by (rule prod_eqI) (simp_all add: Write_fault_free is_abs_def has_prefix_def)

theorem marker_implies_model_path_witness:
  "\<exists>fs'. fs' (''/run'', FinishFile) \<noteq> None \<and> fs' (''/run'', ModelPathFile) = Some ''/m/w.gguf\<newline>''"
proof -
  let ?tr = "snd (sentinel_Write fault_free fault_free ''t'' ''/run'' ''/m/w.gguf'' (\<lambda>p. None))"
  have "last ?tr \<in> set ?tr" "last ?tr (''/run'', FinishFile) \<noteq> None"
    using Write_marks [OF example_write] by (simp_all add: is_abs_def has_prefix_def)
  then show ?thesis
    using marker_implies_model_path [OF example_write] by (auto simp: is_abs_def has_prefix_def)
qed

theorem written_path_reads_back_witness:
  "ReadModelPath (\<lambda>p. False) ''/run''
     (last (snd (sentinel_Write fault_free fault_free ''t'' ''/run'' ''/m/w.gguf'' (\<lambda>p. None)))) =
   Inr ''/m/w.gguf''"
proof -
  have "trimmed ''/m/w.gguf''" by (rule graphic_trimmed) (simp_all add: graphic_def)
  then show ?thesis
    using written_path_reads_back [OF example_write] by (simp add: is_abs_def has_prefix_def)
qed

lemma os_remove_cases:
  assumes "os_remove io p fs = (e, tr)"
  obtains "fs p = None" "e = Some NotExist" "tr = [fs]"
    | "fs p \<noteq> None" "e = None" "tr = [fs(p := None)]"
    | "fs p \<noteq> None" "e = Some RemoveError" "tr = [fs]"
  using assms by (auto simp: os_remove_def split: if_splits)

lemma remove_names_observed:
  assumes "remove_names runDir ns fs = (e, tr)" "fs' \<in> set tr"
  shows "(\<forall>p. p \<notin> (\<lambda>n. (runDir, fst n)) ` set ns \<longrightarrow> fs' p = fs p) \<and>
    (\<forall>p. fs' p = fs p \<or> fs' p = None)"
  using assms
proof (induction ns arbitrary: fs e tr)
  case Nil
  then show ?case by auto
next
  case (Cons nio ns)
  obtain n io where nio: "nio = (n, io)" by fastforce
  obtain e1 tr1 where r: "os_remove io (runDir, n) fs = (e1, tr1)" by fastforce
  obtain e2 tr2 where r2: "remove_names runDir ns (last tr1) = (e2, tr2)" by fastforce
  have 1: "last tr1 = fs \<or> last tr1 = fs((runDir, n) := None)" "set tr1 = {last tr1}"
    using r by (auto elim!: os_remove_cases)
  have "set tr \<subseteq> set tr1 \<union> set tr2" using Cons.prems(1) nio r r2 by (auto split: if_splits)
  then have "fs' = last tr1 \<or> fs' \<in> set tr2" using Cons.prems(2) 1(2) by blast
  then show ?case
  proof
    assume "fs' = last tr1"
    then show ?thesis using 1(1) nio by (auto split: if_splits)
  next
    assume "fs' \<in> set tr2"
    note IH = Cons.IH [OF r2 this]
    have base: "last tr1 p = fs p \<or> p = (runDir, n) \<and> last tr1 p = None" for p
      using 1(1) by (auto split: if_splits)
    then have "fs' p = fs p \<or> fs' p = None" for p using IH by metis
    moreover have "fs' p = fs p" if "p \<notin> (\<lambda>n. (runDir, fst n)) ` set (nio # ns)" for p
    proof -
      have "p \<noteq> (runDir, n)" "p \<notin> (\<lambda>n. (runDir, fst n)) ` set ns" using that nio by auto
      then show ?thesis using IH base [of p] by metis
    qed
    ultimately show ?thesis by blast
  qed
qed

lemma remove_names_gone:
  assumes "remove_names runDir ns fs = (None, tr)" "n \<in> fst ` set ns"
  shows "last tr (runDir, n) = None"
  using assms
proof (induction ns arbitrary: fs tr)
  case Nil
  then show ?case by simp
next
  case (Cons nio ns)
  obtain m io where nio: "nio = (m, io)" by fastforce
  obtain e1 tr1 where r: "os_remove io (runDir, m) fs = (e1, tr1)" by fastforce
  obtain e2 tr2 where r2: "remove_names runDir ns (last tr1) = (e2, tr2)" by fastforce
  have ok: "e1 = None \<or> e1 = Some NotExist" "e2 = None" "tr = tr1 @ tr2"
    using Cons.prems(1) nio r r2 by (auto split: if_splits)
  have gone: "last tr1 (runDir, m) = None" using r ok(1) by (auto elim!: os_remove_cases)
  have ne: "tr2 \<noteq> []" using r2 by (cases ns) (auto split: prod.splits if_splits elim!: os_remove_cases)
  show ?case
  proof (cases "n \<in> fst ` set ns")
    case True
    then show ?thesis using Cons.IH r2 ok ne by simp
  next
    case False
    then have "n = m" using Cons.prems(2) nio by simp
    then show ?thesis
      using remove_names_observed [OF r2, of "last tr2"] gone ok ne by (metis last_appendR last_in_set)
  qed
qed

text \<open>\<open>Remove\<close> takes the marker away first: in every state a wrapper can observe, one that
  still finds the marker finds the model path and the extra paths as they were; and when it
  succeeds none of the three files is left.\<close>
theorem remove_takes_marker_first:
  assumes "sentinel_Remove io runDir fs = (e, tr)" and "runDir \<noteq> []" and "fs' \<in> set tr"
  shows "(fs' (runDir, FinishFile) \<noteq> None \<longrightarrow> fs' = fs) \<and>
    (e = None \<longrightarrow> last tr (runDir, FinishFile) = None \<and> last tr (runDir, ModelPathFile) = None \<and>
       last tr (runDir, ExtraModelPathFile) = None)"
proof -
  let ?rest = "[(ModelPathFile, io 1), (ExtraModelPathFile, io 2)]"
  have run: "remove_names runDir ((FinishFile, io 0) # ?rest) fs = (e, tr)"
    using assms(1,2) by (simp add: sentinel_Remove_def)
  obtain e1 tr1 where r: "os_remove (io 0) (runDir, FinishFile) fs = (e1, tr1)" by fastforce
  obtain e2 tr2 where r2: "remove_names runDir ?rest (last tr1) = (e2, tr2)" by fastforce
  have tr: "fs' \<in> set tr1 \<or> fs' \<in> set tr2 \<and> last tr1 (runDir, FinishFile) = None"
    using run r r2 assms(3) by (auto split: if_splits elim!: os_remove_cases)
  have "fs' (runDir, FinishFile) = None" if "fs' \<in> set tr2" "last tr1 (runDir, FinishFile) = None"
    using remove_names_observed [OF r2 that(1)] that(2) by (metis option.exhaust)
  moreover have "fs' = fs \<or> fs' (runDir, FinishFile) = None" if "fs' \<in> set tr1"
    using r that by (auto elim!: os_remove_cases)
  ultimately have "fs' (runDir, FinishFile) \<noteq> None \<longrightarrow> fs' = fs"
    using tr by argo
  moreover have "last tr (runDir, n) = None" if "e = None" "n \<in> {FinishFile, ModelPathFile, ExtraModelPathFile}" for n
    using remove_names_gone [of runDir "(FinishFile, io 0) # ?rest" fs tr n] run that by auto
  ultimately show ?thesis by simp
qed

theorem remove_takes_marker_first_witness:
  "last (snd (sentinel_Remove (\<lambda>i. fault_free) ''/run'' (\<lambda>p. Some ''x''))) (''/run'', FinishFile) = None"
proof -
  let ?r = "sentinel_Remove (\<lambda>i. fault_free) ''/run'' (\<lambda>p. Some ''x'')"
  have "fst ?r = None" "last (snd ?r) \<in> set (snd ?r)"
    by (auto simp: sentinel_Remove_def os_remove_def fault_free_def FinishFile_def
        ModelPathFile_def ExtraModelPathFile_def)
  then show ?thesis
    using remove_takes_marker_first [of "\<lambda>i. fault_free" "''/run''" "\<lambda>p. Some ''x''" "fst ?r" "snd ?r" "last (snd ?r)"]
    unfolding prod.collapse by blast
qed

text \<open>\<open>ReadExtraPaths\<close> returns the list \<open>WriteExtra\<close> was given, for any nonempty list of
  absolute paths without white space at their ends and without line breaks; the empty list removes
  the file.\<close>
theorem extra_paths_read_back:
  assumes "WriteExtra io runDir paths fs = (None, tr)" and "runDir \<noteq> []"
    and "\<forall>p \<in> set paths. is_abs p \<and> trimmed p \<and> CHR 0x0A \<notin> set p"
  shows "ReadExtraPaths (\<lambda>p. False) runDir (last tr) =
    (if paths = [] then Inl (SentinelIO NotExist) else Inr paths)"
proof (cases "paths = []")
  case True
  obtain e1 tr1 where r: "os_remove io (runDir, ExtraModelPathFile) fs = (e1, tr1)" by fastforce
  then have "e1 = None \<or> e1 = Some NotExist" "tr = tr1"
    using assms(1,2) True by (auto simp: WriteExtra_def Let_def split: option.splits if_splits)
  then have "last tr (runDir, ExtraModelPathFile) = None" using r by (auto elim!: os_remove_cases)
  then show ?thesis using True assms(2) by (simp add: ReadExtraPaths_def read_file_def)
next
  case False
  have ne: "p \<noteq> []" if "p \<in> set paths" for p
    using assms(3) that by (auto simp: is_abs_def has_prefix_def)
  have good: "bad_extra i ps = None" if "\<forall>p \<in> set ps. is_abs p \<and> p \<noteq> []" for i ps
    using that by (induction ps arbitrary: i) auto
  let ?data = "join_with [CHR 0x0A] paths @ [CHR 0x0A]"
  have bad: "bad_extra 0 paths = None" using good assms(3) ne by blast
  then have "lift_run (io_then (os_mkdir_all io fs)
      (atomicWrite io (runDir, ExtraModelPathFile) ?data)) = (None, tr)"
    using assms(1,2) False by (simp add: WriteExtra_def)
  then obtain tr2 where w: "atomicWrite io (runDir, ExtraModelPathFile) ?data fs = (None, tr2)"
    "tr = fs # tr2"
    by (auto simp: os_mkdir_all_def check_def split: if_splits dest!: lift_runD elim!: io_thenE)
  then have last_tr: "last tr (runDir, ExtraModelPathFile) = Some ?data"
    using sent.put_ok [OF w(1)] sent.put_nonempty [OF w(1)] by simp
  have "?data = join_with [CHR 0x0A] (paths @ [[]])"
  proof -
    have "ps \<noteq> [] \<Longrightarrow> join_with c (ps @ [[]]) = join_with c ps @ c" for c ps
      by (induction c ps rule: join_with.induct) auto
    then show ?thesis using False by simp
  qed
  then have "split_on CHR 0x0A ?data = paths @ [[]]"
    using split_join_with [of "paths @ [[]]" "CHR 0x0A"] assms(3) by auto
  moreover have "map trim_space paths = paths"
    using assms(3) by (intro map_idI) (simp add: trimmed_trim_space)
  ultimately show ?thesis
    using last_tr False assms(2) ne by (simp add: ReadExtraPaths_def read_file_def filter_id_conv)
qed

theorem extra_paths_read_back_witness:
  "ReadExtraPaths (\<lambda>p. False) ''/run''
     (last (snd (WriteExtra fault_free ''/run'' [''/m/a'', ''/m/b''] (\<lambda>p. None)))) = Inr [''/m/a'', ''/m/b'']"
proof -
  let ?r = "WriteExtra fault_free ''/run'' [''/m/a'', ''/m/b''] (\<lambda>p. None)"
  have "fst ?r = None"
    by (simp add: WriteExtra_def Let_def is_abs_def has_prefix_def lift_run_def io_then_def
      os_mkdir_all_def check_def fault_free_def atomicWrite_def io_or_else_def os_write_file_def
      os_open_trunc_def write_bytes_def os_rename_def)
  moreover have "trimmed ''/m/a''" "trimmed ''/m/b''"
    by (rule graphic_trimmed; simp add: graphic_def)+
  ultimately show ?thesis
    using extra_paths_read_back [of fault_free "''/run''" "[''/m/a'', ''/m/b'']" "\<lambda>p. None" "snd ?r"]
    by (cases ?r) (simp add: is_abs_def has_prefix_def)
qed

end
