(* ===== verification/Handoff.thy ===== *)
theory Handoff
  imports AtomicFile Sentinel Json
begin

text \<open>
  The files \<open>internal/handoff/handoff.go\<close> writes for the engine wrapper and the notebook
  \<open>internal/handoff/tracker.go\<close> keeps beside them. The clock of a call is an argument, in
  nanoseconds. How a time is printed and whether a text parses as a time (\<open>time.Time\<close> in JSON) are
  parameters.
\<close>

definition EngineArgsName :: string where "EngineArgsName = ''engine_args''"
definition RestartName :: string where "RestartName = ''engine_restart''"
definition StateName :: string where "StateName = ''engine_restart_state''"
definition WrappersDirName :: string where "WrappersDirName = ''wrappers''"
definition HelpersName :: string where "HelpersName = ''common.sh''"
definition DefaultHelpersSourceDir :: string where
  "DefaultHelpersSourceDir = ''/usr/share/llm-init/wrappers''"

section \<open>handoff.go\<close>

definition writeFileAtomic :: "io_plan \<Rightarrow> path \<Rightarrow> string \<Rightarrow> fs \<Rightarrow> io_run" where
  "writeFileAtomic io p data fs =
     io_then (os_mkdir_all io fs) (\<lambda>fs.
       io_then (os_write_file io (tmp_of p) data fs) (os_rename io (tmp_of p) p))"

definition WriteEngineArgs :: "io_plan \<Rightarrow> string \<Rightarrow> string \<Rightarrow> fs \<Rightarrow> io_run" where
  "WriteEngineArgs io runDir raw fs =
     (if runDir = [] then (None, [fs]) else writeFileAtomic io (runDir, EngineArgsName) raw fs)"

text \<open>The second result is \<open>missing\<close>.\<close>

definition ReadEngineArgs :: "(path \<Rightarrow> bool) \<Rightarrow> string \<Rightarrow> fs \<Rightarrow> string \<times> bool" where
  "ReadEngineArgs read_err runDir fs =
     (if runDir = [] then ([], True)
      else case read_file read_err (runDir, EngineArgsName) fs of
             Inl _ \<Rightarrow> ([], True)
           | Inr d \<Rightarrow> (d, False))"

definition next_generation :: "string \<Rightarrow> int \<Rightarrow> string" where
  "next_generation prev nano = (if prev = itoa nano then itoa nano @ ''.1'' else itoa nano)"

definition bump_prev :: "(path \<Rightarrow> bool) \<Rightarrow> string \<Rightarrow> fs \<Rightarrow> string" where
  "bump_prev read_err runDir fs =
     (case read_file read_err (runDir, RestartName) fs of
        Inl _ \<Rightarrow> ''0''
      | Inr d \<Rightarrow> trim_space d)"

definition Bump ::
  "io_plan \<Rightarrow> (path \<Rightarrow> bool) \<Rightarrow> int \<Rightarrow> string \<Rightarrow> fs \<Rightarrow> (io_error + string) \<times> fs list" where
  "Bump io read_err nano runDir fs =
     (if runDir = [] then (Inr [], [fs])
      else let nxt = next_generation (bump_prev read_err runDir fs) nano
        in case writeFileAtomic io (runDir, RestartName) (nxt @ [CHR 0x0A]) fs of
             (Some e, tr) \<Rightarrow> (Inl e, tr)
           | (None, tr) \<Rightarrow> (Inr nxt, tr))"

definition ReadGeneration :: "(path \<Rightarrow> bool) \<Rightarrow> string \<Rightarrow> fs \<Rightarrow> string" where
  "ReadGeneration read_err runDir fs =
     (if runDir = [] then []
      else case read_file read_err (runDir, RestartName) fs of
             Inl _ \<Rightarrow> []
           | Inr d \<Rightarrow> trim_space d)"

text \<open>The result is the published path, \<open>None\<close> for the empty string.\<close>

definition PublishWrapperHelpers ::
  "io_plan \<Rightarrow> (path \<Rightarrow> bool) \<Rightarrow> string \<Rightarrow> string \<Rightarrow> fs \<Rightarrow> (io_error + path option) \<times> fs list" where
  "PublishWrapperHelpers io read_err runDir srcDir fs =
     (if runDir = [] then (Inr None, [fs])
      else let src = (if srcDir = [] then DefaultHelpersSourceDir else srcDir, HelpersName)
        in case read_file read_err src fs of
             Inl e \<Rightarrow> if e = NotExist then (Inr None, [fs]) else (Inl e, [fs])
           | Inr data \<Rightarrow>
               let dst = (runDir @ ''/'' @ WrappersDirName, HelpersName)
               in case writeFileAtomic io dst data fs of
                    (Some e, tr) \<Rightarrow> (Inl e, tr)
                  | (None, tr) \<Rightarrow> (Inr (Some dst), tr))"

interpretation hand: atomic_write writeFileAtomic
proof
  fix io p d
  let ?prep = "\<lambda>fs. io_then (os_mkdir_all io fs) (os_write_file io (tmp_of p) d)"
  show "replaces (writeFileAtomic io p d) p d"
  proof (rule replaces_tmp_rename [where prep = ?prep and clean = "\<lambda>fs. (None, [])" and io = io])
    fix fs
    show "touches {tmp_of p} (?prep fs) fs" by (intro touches_intros) simp_all
    show "touches {tmp_of p} (None, fs # snd (None, [])) fs" by (simp add: touches_def)
    show "writeFileAtomic io p d fs =
        io_then (?prep fs) (\<lambda>fs'. io_or_else (os_rename io (tmp_of p) p fs') (\<lambda>fs. (None, [])))"
      by (cases "os_write_file io (tmp_of p) d fs"; cases "fst (os_write_file io (tmp_of p) d fs)")
        (auto simp: writeFileAtomic_def io_then_def io_or_else_def os_mkdir_all_def check_def os_rename_def
          dest: os_write_file_ok)
    fix tr
    assume "?prep fs = (None, tr)"
    then show "last tr (tmp_of p) = Some d"
      by (auto elim!: io_thenE dest: os_write_file_ok)
  qed
next
  fix p d fs
  show "fst (writeFileAtomic fault_free p d fs) = None"
    by (simp add: writeFileAtomic_def io_then_def os_write_file_def os_open_trunc_def
        write_bytes_def os_rename_def os_mkdir_all_def check_def fault_free_def)
qed

section \<open>The notebook of the tracker\<close>

datatype supervision = SupervisionUnknown | SupervisionConfirmed

text \<open>Decoding \<open>persistedState\<close>: the flag, and whether every field had a value of its type.\<close>

fun read_persisted :: "(string \<Rightarrow> bool) \<Rightarrow> bool \<Rightarrow> (string \<times> json) list \<Rightarrow> bool option" where
  "read_persisted time_ok cur [] = Some cur"
| "read_persisted time_ok cur ((k, v) # fs) =
     (if field_is ''supervised'' k
      then (case v of
              JBool b \<Rightarrow> read_persisted time_ok b fs
            | JNull \<Rightarrow> read_persisted time_ok cur fs
            | _ \<Rightarrow> None)
      else if field_is ''last_confirmed_generation'' k
      then (case v of
              JStr s \<Rightarrow> read_persisted time_ok cur fs
            | JNull \<Rightarrow> read_persisted time_ok cur fs
            | _ \<Rightarrow> None)
      else if field_is ''last_confirmed_at'' k
      then (case v of
              JStr s \<Rightarrow> if time_ok s then read_persisted time_ok cur fs else None
            | JNull \<Rightarrow> read_persisted time_ok cur fs
            | _ \<Rightarrow> None)
      else read_persisted time_ok cur fs)"

definition loadSupervision ::
  "(string \<Rightarrow> bool) \<Rightarrow> (path \<Rightarrow> bool) \<Rightarrow> string \<Rightarrow> fs \<Rightarrow> supervision" where
  "loadSupervision time_ok read_err runDir fs =
     (if runDir = [] then SupervisionUnknown
      else case read_file read_err (runDir, StateName) fs of
             Inl _ \<Rightarrow> SupervisionUnknown
           | Inr data \<Rightarrow>
               (case json_parse data of
                  Some (JObj kvs) \<Rightarrow>
                    (case read_persisted time_ok False kvs of
                       Some True \<Rightarrow> SupervisionConfirmed
                     | _ \<Rightarrow> SupervisionUnknown)
                | _ \<Rightarrow> SupervisionUnknown))"

definition quoted :: "string \<Rightarrow> string" where
  "quoted s = CHR 0x22 # s @ [CHR 0x22]"

text \<open>The bytes \<open>json.Marshal\<close> produces; a generation is never empty and needs no escapes.\<close>

definition persisted_bytes :: "(int \<Rightarrow> string) \<Rightarrow> string \<Rightarrow> int \<Rightarrow> string" where
  "persisted_bytes fmt_time gen at =
     ''{\"supervised\":true,\"last_confirmed_generation\":'' @ quoted gen @
     '',\"last_confirmed_at\":'' @ quoted (fmt_time at) @ ''}''"

definition persistSupervision ::
  "io_plan \<Rightarrow> (int \<Rightarrow> string) \<Rightarrow> string \<Rightarrow> string \<Rightarrow> int \<Rightarrow> fs \<Rightarrow> fs list" where
  "persistSupervision io fmt_time runDir gen at fs =
     (if runDir = [] then [fs]
      else snd (writeFileAtomic io (runDir, StateName) (persisted_bytes fmt_time gen at) fs))"

section \<open>Lemmas\<close>

lemma next_generation_neq: "next_generation prev nano \<noteq> prev"
  by (auto simp: next_generation_def)

lemma next_generation_trimmed: "trimmed (next_generation prev nano)" "next_generation prev nano \<noteq> []"
  using itoa_trimmed by (auto simp: next_generation_def itoa_def)

text \<open>A string without quotes, backslashes and control characters is scanned as it is.\<close>

definition plain_string :: "string \<Rightarrow> bool" where
  "plain_string s \<longleftrightarrow>
     list_all (\<lambda>c. c \<noteq> CHR 0x22 \<and> c \<noteq> CHR 0x5C \<and> 32 \<le> (of_char c :: nat)) s"

lemma lex_plain_string:
  "plain_string s \<Longrightarrow> lex_string (s @ CHR 0x22 # r) = Some (map SByte s, r)"
  by (induction s) (auto simp: plain_string_def)

lemma decode_bytes: "decode_items (map SByte s) = s"
  by (induction s) auto

lemma lex_quoted:
  "plain_string s \<Longrightarrow> lex_json (quoted s @ r) = map_option (Cons (TScalar (JStr s))) (lex_json r)"
  by (simp add: quoted_def lex_plain_string decode_bytes json_space_def punct_def)

lemma itoa_plain: "plain_string (next_generation prev nano)"
proof -
  have "is_digit c \<Longrightarrow> c \<noteq> CHR 0x22 \<and> c \<noteq> CHR 0x5C \<and> 32 \<le> (of_char c :: nat)" for c
    by (auto simp: is_digit_def)
  then have "plain_string (nat_digits n)" for n
    using nat_digits_digits [of n] by (auto simp: plain_string_def list_all_iff)
  then show ?thesis by (simp add: next_generation_def itoa_def plain_string_def)
qed

lemma read_back_bytes:
  assumes "plain_string gen" "plain_string (fmt_time at)"
  shows "json_parse (persisted_bytes fmt_time gen at) =
    Some (JObj [(''supervised'', JBool True), (''last_confirmed_generation'', JStr gen),
      (''last_confirmed_at'', JStr (fmt_time at))])"
proof -
  note lex = lex_quoted [OF assms(1)] lex_quoted [OF assms(2)]
  have "persisted_bytes fmt_time gen at =
      ''{'' @ quoted ''supervised'' @ '':true,'' @ quoted ''last_confirmed_generation'' @ '':'' @
      quoted gen @ '','' @ quoted ''last_confirmed_at'' @ '':'' @ quoted (fmt_time at) @ ''}''"
    by (simp add: persisted_bytes_def quoted_def)
  moreover have "plain_string ''supervised''" "plain_string ''last_confirmed_generation''"
    "plain_string ''last_confirmed_at''"
    by (simp_all add: plain_string_def)
  ultimately have "lex_json (persisted_bytes fmt_time gen at) = Some
      [TLBrace, TScalar (JStr ''supervised''), TColon, TScalar (JBool True), TComma,
       TScalar (JStr ''last_confirmed_generation''), TColon, TScalar (JStr gen), TComma,
       TScalar (JStr ''last_confirmed_at''), TColon, TScalar (JStr (fmt_time at)), TRBrace]"
    by (simp add: lex lex_quoted punct_def json_space_def has_prefix_def)
  then show ?thesis by (simp add: json_parse_def begin_value_def maxNestingDepth_def)
qed

section \<open>Properties\<close>

text \<open>A successful \<open>Bump\<close> leaves a generation that differs from the one any reader saw before,
  which is the one \<open>ReadGeneration\<close> returns from then on; in between, a polling wrapper reads the
  old file or the new one.\<close>
theorem bump_changes_generation:
  assumes "Bump io (\<lambda>p. False) nano runDir fs = (Inr gen, tr)" and "runDir \<noteq> []"
  shows "gen \<noteq> ReadGeneration (\<lambda>p. False) runDir fs \<and>
    ReadGeneration (\<lambda>p. False) runDir (last tr) = gen \<and>
    (\<forall>fs' \<in> set tr. ReadGeneration (\<lambda>p. False) runDir fs' \<in>
       {ReadGeneration (\<lambda>p. False) runDir fs, gen})"
proof -
  let ?prev = "bump_prev (\<lambda>p. False) runDir fs"
  let ?rd = "ReadGeneration (\<lambda>p. False) runDir"
  have gen: "gen = next_generation ?prev nano"
    and w: "writeFileAtomic io (runDir, RestartName) (gen @ [CHR 0x0A]) fs = (None, tr)"
    using assms by (auto simp: Bump_def Let_def split: prod.splits option.splits)
  have ne: "gen \<noteq> ?prev" "trimmed gen" "gen \<noteq> []"
    using gen next_generation_neq next_generation_trimmed by simp_all
  have new: "?rd fs' = gen" if "fs' (runDir, RestartName) = Some (gen @ [CHR 0x0A])" for fs'
    using that assms(2) ne by (simp add: ReadGeneration_def read_file_def trim_space_line)
  have "?rd fs' \<in> {?rd fs, gen}" if "fs' \<in> set tr" for fs'
    using hand.put_observed [OF w that] new assms(2)
    by (auto simp: ReadGeneration_def read_file_def)
  moreover have "gen \<noteq> ?rd fs"
    using ne assms(2) by (auto simp: ReadGeneration_def bump_prev_def read_file_def split: option.splits)
  ultimately show ?thesis using new hand.put_ok [OF w] by simp
qed

lemma example_bump:
  "Bump fault_free (\<lambda>p. False) 42 ''/run'' (\<lambda>p. Some ''42'') =
     (Inr ''42.1'', snd (Bump fault_free (\<lambda>p. False) 42 ''/run'' (\<lambda>p. Some ''42'')))"
proof -
  have "next_generation (bump_prev (\<lambda>p. False) ''/run'' (\<lambda>p. Some ''42'')) 42 = ''42.1''"
    by code_simp
  moreover have "fst (writeFileAtomic fault_free (''/run'', RestartName) d (\<lambda>p. Some ''42'')) = None" for d
    by (rule hand.put_fault_free)
  ultimately show ?thesis by (auto simp: Bump_def Let_def split: prod.splits option.splits) (metis fst_conv option.distinct(1))+
qed

theorem bump_changes_generation_witness:
  "ReadGeneration (\<lambda>p. False) ''/run''
     (last (snd (Bump fault_free (\<lambda>p. False) 42 ''/run'' (\<lambda>p. Some ''42'')))) = ''42.1''"
  using bump_changes_generation [OF example_bump] by simp

text \<open>What \<open>WriteEngineArgs\<close> wrote is what \<open>ReadEngineArgs\<close> returns, and while several writes
  follow one another, whichever of them fail, a reader sees the original flags or one of the written
  ones, never a mixture.\<close>
theorem engine_args_never_torn:
  assumes "runDir \<noteq> []"
    and "fs' \<in> set (put_all writeFileAtomic (runDir, EngineArgsName) ds fs)"
  shows "ReadEngineArgs (\<lambda>p. False) runDir fs' = ReadEngineArgs (\<lambda>p. False) runDir fs \<or>
    (\<exists>io raw. (io, raw) \<in> set ds \<and> ReadEngineArgs (\<lambda>p. False) runDir fs' = (raw, False)) \<and>
    (\<forall>io raw tr. WriteEngineArgs io runDir raw fs = (None, tr) \<longrightarrow>
       ReadEngineArgs (\<lambda>p. False) runDir (last tr) = (raw, False))"
  using hand.put_all_observed [OF assms(2)] assms(1)
  by (auto simp: ReadEngineArgs_def read_file_def WriteEngineArgs_def dest!: hand.put_ok)

theorem engine_args_never_torn_witness:
  "ReadEngineArgs (\<lambda>p. False) ''/run''
     (last (put_all writeFileAtomic (''/run'', EngineArgsName) [(fault_free, ''-c 4096'')] (\<lambda>p. None)))
   \<in> {([], True), (''-c 4096'', False)}"
  using engine_args_never_torn [of "''/run''"
      "last (put_all writeFileAtomic (''/run'', EngineArgsName) [(fault_free, ''-c 4096'')] (\<lambda>p. None))"
      "[(fault_free, ''-c 4096'')]" "\<lambda>p. None"]
  by (auto simp: ReadEngineArgs_def read_file_def Let_def)

text \<open>The evidence of a supervisor survives a restart of the process: once
  \<open>persistSupervision\<close> has written its notebook, a fresh tracker loads \<open>confirmed\<close> from the same
  directory.\<close>
theorem supervision_survives_restart:
  assumes "runDir \<noteq> []" and "plain_string gen" and "plain_string (fmt_time at)"
    and "time_ok (fmt_time at)"
  shows "loadSupervision time_ok (\<lambda>p. False) runDir
    (last (persistSupervision fault_free fmt_time runDir gen at fs)) = SupervisionConfirmed"
proof -
  obtain tr where "writeFileAtomic fault_free (runDir, StateName) (persisted_bytes fmt_time gen at) fs = (None, tr)"
    "last tr (runDir, StateName) = Some (persisted_bytes fmt_time gen at)"
    using hand.put_succeeds by blast
  then show ?thesis
    using assms read_back_bytes [of gen fmt_time at]
    by (simp add: loadSupervision_def persistSupervision_def read_file_def field_is_def)
qed

theorem supervision_survives_restart_witness:
  "loadSupervision (\<lambda>s. s \<noteq> []) (\<lambda>p. False) ''/run''
     (last (persistSupervision fault_free (\<lambda>t. ''2026-01-01T00:00:00Z'') ''/run'' ''42.1'' 0 (\<lambda>p. None))) =
   SupervisionConfirmed"
  by (rule supervision_survives_restart) (simp_all add: plain_string_def)

end
