(* ===== verification/Paths.thy ===== *)
theory Paths
  imports Prelude
begin

text \<open>
  What the code uses of \<open>path/filepath\<close> on a slash-separated system: \<open>Clean\<close>, \<open>Join\<close>, \<open>Dir\<close>, \<open>IsAbs\<close>
  and \<open>Ext\<close>.
\<close>

text \<open>
  \<open>Clean\<close> reads the elements left to right with a stack (innermost first): an empty element and \<open>.\<close>
  vanish, \<open>..\<close> removes the element before it, is dropped at the root and kept at the start of a
  relative path.
\<close>

fun clean_step :: "bool \<Rightarrow> string list \<Rightarrow> string \<Rightarrow> string list" where
  "clean_step rooted st seg =
     (if seg = [] \<or> seg = ''.'' then st
      else if seg = ''..'' then
        (case st of
           [] \<Rightarrow> if rooted then [] else [seg]
         | t # rest \<Rightarrow> if t = ''..'' then seg # st else rest)
      else seg # st)"

definition clean_segs :: "bool \<Rightarrow> string list \<Rightarrow> string list" where
  "clean_segs rooted segs = rev (foldl (clean_step rooted) [] segs)"

definition path_is_abs :: "string \<Rightarrow> bool" where
  "path_is_abs p = has_prefix p ''/''"

definition path_clean :: "string \<Rightarrow> string" where
  "path_clean p =
     (let rooted = path_is_abs p; segs = clean_segs rooted (split_on (CHR ''/'') p);
          body = join_with ''/'' segs
      in if rooted then CHR ''/'' # body else if segs = [] then ''.'' else body)"

definition path_join :: "string list \<Rightarrow> string" where
  "path_join ps =
     (let ne = filter (\<lambda>p. p \<noteq> []) ps in if ne = [] then [] else path_clean (join_with ''/'' ne))"

definition path_dir :: "string \<Rightarrow> string" where
  "path_dir p = path_clean (rev (dropWhile (\<lambda>c. c \<noteq> CHR ''/'') (rev p)))"

definition path_ext :: "string \<Rightarrow> string" where
  "path_ext p =
     (let tail = takeWhile (\<lambda>c. c \<noteq> CHR ''.'' \<and> c \<noteq> CHR ''/'') (rev p);
          rest = drop (length tail) (rev p)
      in case rest of c # cs \<Rightarrow> if c = CHR ''.'' then CHR ''.'' # rev tail else [] | [] \<Rightarrow> [])"

lemma path_clean_examples:
  "path_clean ''foo/../bar'' = ''bar''" "path_clean ''../x'' = ''../x''"
  "path_clean ''/../x/./y/'' = ''/x/y''" "path_clean [] = ''.''"
  "path_join [''/models'', ''hub'', '''', ''a/../b''] = ''/models/hub/b''"
  "path_dir ''/a/b.gguf'' = ''/a''" "path_dir ''b'' = ''.''" "path_ext ''/a.b/c.d.gguf'' = ''.gguf''"
  "path_ext ''/a.b/c'' = ''''"
  by code_simp+

section \<open>Where a cleaned path can point\<close>

definition proper_seg :: "string \<Rightarrow> bool" where
  "proper_seg s \<longleftrightarrow> s \<noteq> [] \<and> s \<noteq> ''.'' \<and> s \<noteq> ''..'' \<and> CHR ''/'' \<notin> set s"

text \<open>The stack holds proper elements on top of a run of \<open>..\<close>, which is empty at the root.\<close>

definition clean_stack :: "bool \<Rightarrow> string list \<Rightarrow> bool" where
  "clean_stack rooted st \<longleftrightarrow>
     (\<exists>ps n. st = ps @ replicate n ''..'' \<and> list_all proper_seg ps \<and> (rooted \<longrightarrow> n = 0))"

lemma clean_stackI:
  "st = ps @ replicate n ''..'' \<Longrightarrow> list_all proper_seg ps \<Longrightarrow> (rooted \<Longrightarrow> n = 0) \<Longrightarrow>
     clean_stack rooted st"
  unfolding clean_stack_def by blast

lemma split_on_no_sep: "s \<in> set (split_on c w) \<Longrightarrow> c \<notin> set s"
proof (induction c w arbitrary: s rule: split_on.induct)
  case (2 c x xs)
  then show ?case by (cases "split_on c xs") (auto split: if_splits)
qed simp

lemma clean_step_stack:
  assumes "clean_stack rooted st" "CHR ''/'' \<notin> set seg"
  shows "clean_stack rooted (clean_step rooted st seg)"
proof -
  obtain ps n where st: "st = ps @ replicate n ''..''" "list_all proper_seg ps" "rooted \<longrightarrow> n = 0"
    using assms(1) by (auto simp: clean_stack_def)
  consider "seg = [] \<or> seg = ''.''" | "seg = ''..''" | "proper_seg seg"
    using assms(2) by (auto simp: proper_seg_def)
  then show ?thesis
  proof cases
    case 1
    then show ?thesis using assms(1) by auto
  next
    case 2
    show ?thesis
    proof (cases ps)
      case Nil
      show ?thesis
      proof (cases n)
        case 0
        then show ?thesis
          using 2 st Nil by (intro clean_stackI [of _ "[]" "if rooted then 0 else 1"]) auto
      next
        case (Suc m)
        then have "clean_step rooted st seg = replicate (Suc n) ''..''"
          using 2 st(1) Nil by simp
        then show ?thesis
          using st(3) Suc by (intro clean_stackI [of _ "[]" "Suc n"]) (auto simp del: clean_step.simps)
      qed
    next
      case (Cons p ps')
      then have "clean_step rooted st seg = ps' @ replicate n ''..''"
        using 2 st by (simp add: proper_seg_def)
      then show ?thesis using st Cons by (intro clean_stackI [of _ ps' n]) auto
    qed
  next
    case 3
    then have "clean_step rooted st seg = (seg # ps) @ replicate n ''..''"
      using st(1) by (simp add: proper_seg_def)
    then show ?thesis using 3 st by (intro clean_stackI [of _ "seg # ps" n]) auto
  qed
qed

lemma clean_segs_shape:
  "list_all (\<lambda>s. CHR ''/'' \<notin> set s) segs \<Longrightarrow>
     \<exists>n ps. clean_segs rooted segs = replicate n ''..'' @ ps \<and> list_all proper_seg ps \<and>
       (rooted \<longrightarrow> n = 0)"
proof -
  assume a: "list_all (\<lambda>s. CHR ''/'' \<notin> set s) segs"
  have "clean_stack rooted st \<Longrightarrow> clean_stack rooted (foldl (clean_step rooted) st segs)" for st
    using a
    by (induction segs arbitrary: st) (simp_all del: clean_step.simps add: clean_step_stack)
  then have "clean_stack rooted (foldl (clean_step rooted) [] segs)"
    by (simp add: clean_stack_def)
  then obtain ps n where "foldl (clean_step rooted) [] segs = ps @ replicate n ''..''"
    "list_all proper_seg ps" "rooted \<longrightarrow> n = 0" by (auto simp: clean_stack_def)
  then show ?thesis
    by (intro exI [of _ n] exI [of _ "rev ps"]) (simp add: clean_segs_def)
qed

text \<open>Cleaning a proper relative path changes nothing.\<close>

lemma clean_segs_proper:
  "list_all proper_seg segs \<Longrightarrow> clean_segs rooted segs = segs"
proof -
  assume a: "list_all proper_seg segs"
  have "foldl (clean_step rooted) st segs = rev segs @ st" for st
    using a by (induction segs arbitrary: st) (auto simp: proper_seg_def)
  then show ?thesis by (simp add: clean_segs_def)
qed

end
