(* ===== verification/Sources.thy ===== *)
theory Sources
  imports Shlex Json Paths
begin

text \<open>
  \<open>internal/config/modelsource.go\<close> and the checks of \<open>parse.go\<close> it uses: \<open>MODEL_SOURCE\<close> is a
  comma-separated list of \<open>scheme://body [flags]\<close> segments, each read into a \<open>model_source\<close>. An error
  is its message, less the quoted input. \<open>url.Parse\<close> and \<open>URL.String\<close> are the argument \<open>url_lib\<close>:
  the scheme (in lower case), host and fragment of an URL it accepts, and the URL written back with
  its user information replaced, when it has one.
\<close>

section \<open>Values (parse.go)\<close>

definition lower_hex :: "char \<Rightarrow> bool" where
  "lower_hex c \<longleftrightarrow>
     (let n = of_char c :: nat in 48 \<le> n \<and> n \<le> 57 \<or> 97 \<le> n \<and> n \<le> 102)"

definition parseSHA256 :: "string \<Rightarrow> string + string" where
  "parseSHA256 v =
     (if length v \<noteq> 64 then Inl ''sha256 must be 64 hex characters''
      else if \<not> list_all lower_hex v then Inl ''not lowercase hex''
      else Inr v)"

definition parseHFRepo :: "string \<Rightarrow> string + string" where
  "parseHFRepo v =
     (case split_on (CHR ''/'') v of
        [owner, repo] \<Rightarrow>
          if owner = [] \<or> repo = [] then Inl ''must be in owner/repo format'' else Inr v
      | _ \<Rightarrow> Inl ''must be in owner/repo format'')"

definition parseHFCommitSHA :: "string \<Rightarrow> string + string" where
  "parseHFCommitSHA v =
     (if length v \<noteq> 40 then Inl ''must be a 40-char commit SHA''
      else if \<not> list_all lower_hex v then Inl ''not lowercase hex''
      else Inr v)"

definition model_name_char :: "char \<Rightarrow> bool" where
  "model_name_char c \<longleftrightarrow>
     (let n = of_char c :: nat in
      97 \<le> n \<and> n \<le> 122 \<or> 65 \<le> n \<and> n \<le> 90 \<or> 48 \<le> n \<and> n \<le> 57 \<or> c \<in> set ''._:-/'')"

definition parseModelName :: "string \<Rightarrow> string + string" where
  "parseModelName v =
     (if v = [] then Inl ''required but not set''
      else if \<not> list_all model_name_char v then Inl ''contains illegal character''
      else Inr v)"

definition parseInt :: "string \<Rightarrow> int \<Rightarrow> string + int" where
  "parseInt v def =
     (if v = [] then Inr def
      else case atoi v of None \<Rightarrow> Inl ''is not an integer'' | Some n \<Rightarrow> Inr n)"

definition parseIntInRange :: "string \<Rightarrow> int \<Rightarrow> int \<Rightarrow> int \<Rightarrow> string + int" where
  "parseIntInRange v def lo hi =
     (case parseInt v def of
        Inl e \<Rightarrow> Inl e
      | Inr n \<Rightarrow> if n < lo \<or> hi < n then Inl ''out of range'' else Inr n)"

definition to_lower :: "string \<Rightarrow> string" where
  "to_lower s = map ascii_lower s"

definition parseBool :: "string \<Rightarrow> bool \<Rightarrow> string + bool" where
  "parseBool v def =
     (if v = [] then Inr def
      else if to_lower v \<in> {''1'', ''true'', ''yes'', ''on'', ''y'', ''t''} then Inr True
      else if to_lower v \<in> {''0'', ''false'', ''no'', ''off'', ''n'', ''f''} then Inr False
      else Inl ''is not a bool'')"

text \<open>\<open>strings.EqualFold\<close> on the ASCII vocabularies of the enums.\<close>

definition parseEnum :: "string \<Rightarrow> string list \<Rightarrow> string + string" where
  "parseEnum v allowed =
     (if allowed = [] then Inr v
      else case find (\<lambda>a. fold_name v = fold_name a) allowed of
             Some a \<Rightarrow> Inr a | None \<Rightarrow> Inl ''is not one of the allowed values'')"

definition isAbsPath :: "string \<Rightarrow> bool" where
  "isAbsPath p \<longleftrightarrow>
     has_prefix p ''/'' \<or>
     (case p of
        c # d # s # r \<Rightarrow> d = CHR '':'' \<and> (s = CHR ''/'' \<or> s = CHR 0x5C) \<and>
          (let n = of_char c :: nat in 97 \<le> n \<and> n \<le> 122 \<or> 65 \<le> n \<and> n \<le> 90)
      | _ \<Rightarrow> False)"

definition parseAbsPath :: "string \<Rightarrow> string + string" where
  "parseAbsPath v =
     (if v = [] then Inl ''path is empty''
      else if \<not> isAbsPath v then Inl ''is not an absolute path''
      else if has_prefix v ''/'' then Inr (path_clean v) else Inr v)"

record url_parts =
  url_Scheme :: string
  url_Host :: string
  url_Fragment :: string

record url_lib =
  ul_parse :: "string \<Rightarrow> url_parts option"
  ul_redacted :: "string \<Rightarrow> string option"

definition parseHTTPURL :: "url_lib \<Rightarrow> string \<Rightarrow> string + string" where
  "parseHTTPURL ul v =
     (case ul_parse ul v of
        None \<Rightarrow> Inl ''is not a valid URL''
      | Some u \<Rightarrow>
          if url_Scheme u \<noteq> ''http'' \<and> url_Scheme u \<noteq> ''https'' then Inl ''scheme must be http or https''
          else if url_Host u = [] then Inl ''host is empty''
          else Inr v)"

section \<open>Model sources (modelsource.go)\<close>

datatype source_kind = KindUnset | KindHF | KindOllama | KindOllamaURL | KindURL

datatype source_role = RoleMain | RoleMmproj | RoleExtra

record model_source =
  ms_Index :: nat
  ms_Kind :: source_kind
  ms_Role :: source_role
  ms_RawValue :: string
  ms_RedactedSource :: string
  ms_LocalPath :: string
  ms_HFRepo :: string
  ms_HFRevision :: string
  ms_HFInclude :: "string list"
  ms_HFExclude :: "string list"
  ms_HFSubdir :: string
  ms_OllamaTag :: string
  ms_URL :: string
  ms_URLSha256 :: string

definition new_source :: "nat \<Rightarrow> source_role \<Rightarrow> string \<Rightarrow> model_source" where
  "new_source index role raw = \<lparr>ms_Index = index, ms_Kind = KindUnset, ms_Role = role,
     ms_RawValue = raw, ms_RedactedSource = [], ms_LocalPath = [], ms_HFRepo = [],
     ms_HFRevision = [], ms_HFInclude = [], ms_HFExclude = [], ms_HFSubdir = [],
     ms_OllamaTag = [], ms_URL = [], ms_URLSha256 = []\<rparr>"

definition ViaOllama :: "model_source \<Rightarrow> bool" where
  "ViaOllama m \<longleftrightarrow> ms_Kind m = KindOllama \<or> ms_Kind m = KindOllamaURL"

definition modelSourceSchemePrefixes :: "string list" where
  "modelSourceSchemePrefixes = [''hf://'', ''ollama://'', ''http://'', ''https://'']"

definition hasModelSourceSchemePrefix :: "string \<Rightarrow> bool" where
  "hasModelSourceSchemePrefix s \<longleftrightarrow> list_ex (has_prefix s) modelSourceSchemePrefixes"

definition add_segment :: "string \<Rightarrow> string list" where
  "add_segment seg = (let s = trim_space seg in if s = [] then [] else [s])"

lemma trim_left_length: "length (trim_left s) \<le> length s"
  by (induction s rule: trim_left.induct) (subst trim_left.simps, auto split: option.splits)

text \<open>A comma ends a segment only when an accepted scheme follows it.\<close>

function split_segments :: "string \<Rightarrow> string \<Rightarrow> string list" where
  "split_segments seg [] = add_segment seg"
| "split_segments seg (c # cs) =
     (if c \<noteq> CHR '','' \<or> \<not> hasModelSourceSchemePrefix (trim_left cs)
      then split_segments (seg @ [c]) cs
      else add_segment seg @ split_segments [] (trim_left cs))"
  by pat_completeness auto
termination
  by (relation "measure (\<lambda>(seg, cs). length cs)") (auto simp: trim_left_length le_imp_less_Suc)

definition splitModelSourceList :: "string \<Rightarrow> string list" where
  "splitModelSourceList raw =
     (let raw = trim_space raw in if raw = [] then [] else split_segments [] raw)"

definition splitModelSourceLocals :: "string \<Rightarrow> nat \<Rightarrow> string + string list" where
  "splitModelSourceLocals raw n =
     (if n < 1 then Inl ''MODEL_SOURCE: internal error: zero segments''
      else let raw = trim_space raw in
        if raw = [] then Inr (replicate n [])
        else let locals = map trim_space (split_on (CHR '','') raw) in
          if length locals \<noteq> n then Inl ''MODEL_SOURCE_LOCAL: provide one LOCAL per source''
          else Inr locals)"

subsection \<open>hf:// segments\<close>

definition validateHFSubdir :: "string \<Rightarrow> string + string" where
  "validateHFSubdir raw =
     (let v = trim_space raw in
      if v = [] then Inl ''--subdir needs a value''
      else if path_is_abs v \<or> has_prefix v [CHR 0x5C] then Inl ''--subdir must be relative''
      else let clean = path_clean v in
        if clean = ''.'' \<or> clean = ''..'' then Inl ''--subdir is not allowed''
        else if list_ex (\<lambda>seg. seg = ''..'' \<or> seg = []) (split_on (CHR ''/'') clean)
        then Inl ''--subdir is not allowed''
        else Inr clean)"

definition setHFSubdir :: "string \<Rightarrow> model_source \<Rightarrow> string + model_source" where
  "setHFSubdir raw ms =
     (if ms_HFSubdir ms \<noteq> [] then Inl ''--subdir specified more than once''
      else case validateHFSubdir raw of
             Inl e \<Rightarrow> Inl e | Inr clean \<Rightarrow> Inr (ms\<lparr>ms_HFSubdir := clean\<rparr>))"

definition setHFRole :: "string \<Rightarrow> model_source \<Rightarrow> string + model_source" where
  "setHFRole raw ms =
     (if trim_space raw \<noteq> ''mmproj'' then Inl ''--role is not allowed''
      else if ms_Role ms = RoleMmproj then Inl ''--role specified more than once''
      else Inr (ms\<lparr>ms_Role := RoleMmproj\<rparr>))"

datatype hf_flag = FlagInclude | FlagExclude | FlagRevision | FlagSubdir | FlagRole

definition hf_flags :: "(string \<times> hf_flag) list" where
  "hf_flags = [(''--include'', FlagInclude), (''--exclude'', FlagExclude),
     (''--revision'', FlagRevision), (''--subdir'', FlagSubdir), (''--role'', FlagRole)]"

fun set_hf_flag :: "hf_flag \<Rightarrow> string \<Rightarrow> model_source \<Rightarrow> string + model_source" where
  "set_hf_flag FlagInclude v ms = Inr (ms\<lparr>ms_HFInclude := ms_HFInclude ms @ [v]\<rparr>)"
| "set_hf_flag FlagExclude v ms = Inr (ms\<lparr>ms_HFExclude := ms_HFExclude ms @ [v]\<rparr>)"
| "set_hf_flag FlagRevision v ms = Inr (ms\<lparr>ms_HFRevision := v\<rparr>)"
| "set_hf_flag FlagSubdir v ms = setHFSubdir v ms"
| "set_hf_flag FlagRole v ms = setHFRole v ms"

text \<open>\<open>--flag value\<close> or \<open>--flag=value\<close>.\<close>

definition eq_flag :: "string \<Rightarrow> (hf_flag \<times> string) option" where
  "eq_flag f =
     (case find (\<lambda>(n, fl). has_prefix f (n @ ''='')) hf_flags of
        None \<Rightarrow> None | Some (n, fl) \<Rightarrow> Some (fl, trim_prefix f (n @ ''='')))"

fun hf_flag_loop :: "string list \<Rightarrow> model_source \<Rightarrow> string + model_source" where
  "hf_flag_loop [] ms = Inr ms"
| "hf_flag_loop (f # fs) ms =
     (case map_of hf_flags f of
        Some fl \<Rightarrow>
          (case fs of
             [] \<Rightarrow> Inl (f @ '' needs a value'')
           | v # fs' \<Rightarrow> (case set_hf_flag fl v ms of Inl e \<Rightarrow> Inl e | Inr ms' \<Rightarrow> hf_flag_loop fs' ms'))
      | None \<Rightarrow>
          (case eq_flag f of
             Some (fl, v) \<Rightarrow>
               (case set_hf_flag fl v ms of Inl e \<Rightarrow> Inl e | Inr ms' \<Rightarrow> hf_flag_loop fs ms')
           | None \<Rightarrow>
               if f = ''--endpoint'' \<or> has_prefix f ''--endpoint=''
               then Inl ''--endpoint is not allowed inline'' else Inl ''unsupported hf:// flag''))"

definition parseHFSource :: "string \<Rightarrow> string list \<Rightarrow> model_source \<Rightarrow> string + model_source" where
  "parseHFSource body flags ms =
     (case parseHFRepo body of
        Inl e \<Rightarrow> Inl ''hf body must be owner/repo''
      | Inr _ \<Rightarrow> hf_flag_loop flags (ms\<lparr>ms_Kind := KindHF, ms_HFRepo := body\<rparr>))"

subsection \<open>ollama:// and http(s):// segments\<close>

definition setOllamaURL :: "url_lib \<Rightarrow> string \<Rightarrow> model_source \<Rightarrow> string + model_source" where
  "setOllamaURL ul urlStr ms =
     (case ul_parse ul urlStr of
        None \<Rightarrow> Inl ''ollama:// URL invalid''
      | Some u \<Rightarrow>
          if url_Scheme u \<noteq> ''http'' \<and> url_Scheme u \<noteq> ''https'' then Inl ''ollama:// URL must be http or https''
          else if url_Host u = [] then Inl ''ollama:// URL has empty host''
          else let ms = ms\<lparr>ms_Kind := KindOllamaURL, ms_URL := urlStr\<rparr> in
            case cut_prefix (url_Fragment u) ''sha256='' of
              None \<Rightarrow> Inr ms
            | Some v \<Rightarrow>
                (case parseSHA256 v of Inl e \<Rightarrow> Inl e | Inr _ \<Rightarrow> Inr (ms\<lparr>ms_URLSha256 := v\<rparr>)))"

definition parseOllamaSource ::
  "url_lib \<Rightarrow> string \<Rightarrow> string list \<Rightarrow> model_source \<Rightarrow> string + model_source" where
  "parseOllamaSource ul body flags ms =
     (if flags \<noteq> [] then Inl ''ollama:// does not accept inline flags''
      else if contains body ''://'' then setOllamaURL ul body ms
      else if contains body ''.'' \<and> contains body ''/'' then setOllamaURL ul (''https://'' @ body) ms
      else Inr (ms\<lparr>ms_Kind := KindOllama, ms_OllamaTag := body\<rparr>))"

definition parseURLSource ::
  "url_lib \<Rightarrow> string \<Rightarrow> string list \<Rightarrow> model_source \<Rightarrow> string + model_source" where
  "parseURLSource ul head flags ms =
     (if flags \<noteq> [] then Inl ''https?:// does not accept inline flags''
      else case ul_parse ul head of
        None \<Rightarrow> Inl ''invalid''
      | Some u \<Rightarrow>
          if url_Scheme u \<noteq> ''http'' \<and> url_Scheme u \<noteq> ''https'' then Inl ''scheme must be http or https''
          else if url_Host u = [] then Inl ''empty host''
          else let ms = ms\<lparr>ms_Kind := KindURL, ms_URL := head\<rparr> in
            if url_Fragment u = [] then Inr ms
            else case cut_prefix (url_Fragment u) ''sha256='' of
              None \<Rightarrow> Inl ''only #sha256= URL fragment is supported''
            | Some v \<Rightarrow>
                (case parseSHA256 v of Inl e \<Rightarrow> Inl e | Inr _ \<Rightarrow> Inr (ms\<lparr>ms_URLSha256 := v\<rparr>)))"

definition redactURL :: "url_lib \<Rightarrow> string \<Rightarrow> string" where
  "redactURL ul s = (case ul_redacted ul s of None \<Rightarrow> s | Some r \<Rightarrow> r)"

definition redactURLBody :: "string \<Rightarrow> string" where
  "redactURLBody body =
     (case index_byte body (CHR ''@'') of
        None \<Rightarrow> body | Some i \<Rightarrow> ''REDACTED@'' @ drop (Suc i) body)"

definition redact_token :: "url_lib \<Rightarrow> string \<Rightarrow> string" where
  "redact_token ul t =
     (if has_prefix t ''http://'' \<or> has_prefix t ''https://'' then redactURL ul t
      else if has_prefix t ''ollama://http://''
      then ''ollama://http://'' @ redactURLBody (trim_prefix t ''ollama://http://'')
      else if has_prefix t ''ollama://https://''
      then ''ollama://https://'' @ redactURLBody (trim_prefix t ''ollama://https://'')
      else t)"

definition redactRaw :: "url_lib \<Rightarrow> string \<Rightarrow> string" where
  "redactRaw ul raw =
     (case shlex raw of
        Inl e \<Rightarrow> raw
      | Inr tokens \<Rightarrow> join_with '' '' (map (redact_token ul) tokens))"

subsection \<open>One source, and the list\<close>

definition parse_body ::
  "url_lib \<Rightarrow> string \<Rightarrow> string \<Rightarrow> string \<Rightarrow> string list \<Rightarrow> model_source \<Rightarrow> string + model_source" where
  "parse_body ul scheme head body flags ms =
     (let s = to_lower scheme in
      if s = ''hf'' then parseHFSource body flags ms
      else if s = ''ollama'' then parseOllamaSource ul body flags ms
      else if s = ''http'' \<or> s = ''https'' then parseURLSource ul head flags ms
      else Inl ''unsupported scheme'')"

definition ParseOneSource ::
  "url_lib \<Rightarrow> nat \<Rightarrow> string \<Rightarrow> string \<Rightarrow> source_role \<Rightarrow> string + model_source" where
  "ParseOneSource ul index raw local role =
     (if role \<noteq> RoleMain \<and> role \<noteq> RoleExtra then Inl ''positional role is not allowed''
      else case shlex raw of
        Inl e \<Rightarrow> Inl ''MODEL_SOURCE: shlex''
      | Inr [] \<Rightarrow> Inl ''empty after tokenisation''
      | Inr (head # flags) \<Rightarrow>
          (case cut head ''://'' of
             None \<Rightarrow> Inl ''must be of the form <scheme>://<body>''
           | Some (scheme, body) \<Rightarrow>
               if scheme = [] \<or> body = [] then Inl ''must be of the form <scheme>://<body>''
               else case parse_body ul scheme head body flags (new_source index role raw) of
                 Inl e \<Rightarrow> Inl e
               | Inr ms \<Rightarrow>
                   if ms_Kind ms = KindURL \<and> local = []
                   then Inl ''MODEL_SOURCE_LOCAL: required for https?:// sources''
                   else Inr ((if ms_Kind ms = KindURL then ms\<lparr>ms_LocalPath := local\<rparr> else ms)
                               \<lparr>ms_RedactedSource := redactRaw ul raw\<rparr>)))"

text \<open>The loop over the segments: the index is one-based, the first one is the main source.\<close>

fun source_loop ::
  "url_lib \<Rightarrow> nat \<Rightarrow> (string \<times> string) list \<Rightarrow> model_source list \<Rightarrow> nat \<Rightarrow>
     string + (model_source list \<times> nat)" where
  "source_loop ul i [] out n = Inr (out, n)"
| "source_loop ul i ((seg, local) # segs) out n =
     (case ParseOneSource ul (i + 1) seg local (if i = 0 then RoleMain else RoleExtra) of
        Inl e \<Rightarrow> Inl e
      | Inr ms \<Rightarrow>
          if ms_Role ms = RoleMmproj then
            (if i = 0 then Inl ''the main source cannot carry --role mmproj''
             else if length (ms_HFInclude ms) \<noteq> 1 then Inl ''--role mmproj needs exactly one --include''
             else source_loop ul (i + 1) segs (out @ [ms]) (n + 1))
          else source_loop ul (i + 1) segs (out @ [ms]) n)"

definition loadCommaSeparatedSources ::
  "url_lib \<Rightarrow> string \<Rightarrow> string \<Rightarrow> string + model_source list" where
  "loadCommaSeparatedSources ul single localRaw =
     (let segments = splitModelSourceList single in
      if segments = [] then Inl ''MODEL_SOURCE: required''
      else case splitModelSourceLocals localRaw (length segments) of
        Inl e \<Rightarrow> Inl e
      | Inr locals \<Rightarrow>
          case source_loop ul 0 (zip segments locals) [] 0 of
            Inl e \<Rightarrow> Inl e
          | Inr (out, mmprojCount) \<Rightarrow>
              if 1 < mmprojCount then Inl ''--role mmproj is allowed on at most one source''
              else if mmprojCount = 1 \<and> ms_Kind (hd out) \<noteq> KindHF
              then Inl ''--role mmproj needs an hf:// main source''
              else Inr out)"

definition LoadModelSources :: "url_lib \<Rightarrow> (string \<Rightarrow> string) \<Rightarrow> string + model_source list" where
  "LoadModelSources ul g =
     (let single = trim_space (g ''MODEL_SOURCE'') in
      if trim_space (g ''MODEL_SOURCE_NUM'') \<noteq> [] then Inl ''MODEL_SOURCE_NUM: removed''
      else if single = [] then Inl ''MODEL_SOURCE: required''
      else loadCommaSeparatedSources ul single (trim_space (g ''MODEL_SOURCE_LOCAL'')))"

definition mainSource :: "model_source list \<Rightarrow> model_source option" where
  "mainSource sources =
     (case find (\<lambda>m. ms_Role m = RoleMain) sources of
        Some m \<Rightarrow> Some m
      | None \<Rightarrow> (case sources of [] \<Rightarrow> None | m # r \<Rightarrow> Some m))"

text \<open>\<open>PrimaryOllamaTag\<close>, with \<open>MODEL_NAME\<close> and the card's name as the fallbacks.\<close>

definition PrimaryOllamaTag :: "model_source list \<Rightarrow> string \<Rightarrow> string \<Rightarrow> string" where
  "PrimaryOllamaTag sources modelName cardName =
     (case mainSource sources of
        Some m \<Rightarrow>
          if ms_Kind m = KindOllama \<and> ms_OllamaTag m \<noteq> [] then ms_OllamaTag m
          else if modelName \<noteq> [] then modelName else cardName
      | None \<Rightarrow> if modelName \<noteq> [] then modelName else cardName)"

section \<open>What a loaded source can be\<close>

text \<open>A subdirectory is empty or a chain of proper elements below the snapshot.\<close>

definition subdir_ok :: "string \<Rightarrow> bool" where
  "subdir_ok s \<longleftrightarrow> s = [] \<or> list_all proper_seg (split_on (CHR ''/'') s)"

definition digest_ok :: "string \<Rightarrow> bool" where
  "digest_ok s \<longleftrightarrow> s = [] \<or> length s = 64 \<and> list_all lower_hex s"

text \<open>The fields each kind of source carries, and those it leaves empty: the five of \<open>hf://\<close>, the tag of
  \<open>ollama://\<close>, the URL with its digest, and the path only a plain URL has.\<close>

definition hf_fields_empty :: "model_source \<Rightarrow> bool" where
  "hf_fields_empty m \<longleftrightarrow> ms_HFRepo m = [] \<and> ms_HFRevision m = [] \<and> ms_HFInclude m = [] \<and>
     ms_HFExclude m = [] \<and> ms_HFSubdir m = []"

definition source_ok :: "model_source \<Rightarrow> bool" where
  "source_ok m =
     (case ms_Kind m of
        KindUnset \<Rightarrow> False
      | KindHF \<Rightarrow> parseHFRepo (ms_HFRepo m) = Inr (ms_HFRepo m) \<and> subdir_ok (ms_HFSubdir m) \<and>
          ms_OllamaTag m = [] \<and> ms_URL m = [] \<and> ms_URLSha256 m = [] \<and> ms_LocalPath m = []
      | KindOllama \<Rightarrow> ms_OllamaTag m \<noteq> [] \<and> hf_fields_empty m \<and> ms_URL m = [] \<and> ms_URLSha256 m = [] \<and>
          ms_LocalPath m = [] \<and> ms_Role m \<noteq> RoleMmproj
      | KindOllamaURL \<Rightarrow> ms_URL m \<noteq> [] \<and> digest_ok (ms_URLSha256 m) \<and> hf_fields_empty m \<and>
          ms_OllamaTag m = [] \<and> ms_LocalPath m = [] \<and> ms_Role m \<noteq> RoleMmproj
      | KindURL \<Rightarrow> ms_URL m \<noteq> [] \<and> digest_ok (ms_URLSha256 m) \<and> ms_LocalPath m \<noteq> [] \<and>
          hf_fields_empty m \<and> ms_OllamaTag m = [] \<and> ms_Role m \<noteq> RoleMmproj)"

text \<open>Where a list of sources can stand: one main source in front, positions counted from 1, at most
  one projector, which names one file and stands behind an \<open>hf://\<close> main source.\<close>

definition projectors :: "model_source list \<Rightarrow> model_source list" where
  "projectors out = filter (\<lambda>m. ms_Role m = RoleMmproj) out"

definition sources_ok :: "model_source list \<Rightarrow> bool" where
  "sources_ok out \<longleftrightarrow>
     out \<noteq> [] \<and> list_all source_ok out \<and> map ms_Index out = [1..<Suc (length out)] \<and>
     ms_Role (hd out) = RoleMain \<and> list_all (\<lambda>m. ms_Role m \<noteq> RoleMain) (tl out) \<and>
     length (projectors out) \<le> 1 \<and>
     list_all (\<lambda>m. length (ms_HFInclude m) = 1 \<and> ms_Kind (hd out) = KindHF) (projectors out)"

lemma parseSHA256_Inr: "parseSHA256 v = Inr w \<Longrightarrow> w = v \<and> digest_ok v"
  by (auto simp: parseSHA256_def digest_ok_def split: if_splits)

lemma path_clean_relative:
  assumes "\<not> path_is_abs v" "path_clean v \<noteq> ''.''"
  shows "\<exists>n ps. path_clean v = join_with ''/'' (replicate n ''..'' @ ps) \<and>
    split_on (CHR ''/'') (path_clean v) = replicate n ''..'' @ ps \<and>
    replicate n ''..'' @ ps \<noteq> [] \<and> list_all proper_seg ps"
proof -
  define segs where "segs = clean_segs False (split_on (CHR ''/'') v)"
  have "list_all (\<lambda>s. CHR ''/'' \<notin> set s) (split_on (CHR ''/'') v)"
    by (auto simp: list_all_iff dest: split_on_no_sep)
  then obtain n ps where ps: "segs = replicate n ''..'' @ ps" "list_all proper_seg ps"
    using clean_segs_shape [of _ False] unfolding segs_def by blast
  have e: "path_clean v = (if segs = [] then ''.'' else join_with ''/'' segs)"
    using assms(1) by (simp add: path_clean_def Let_def segs_def)
  then have ne: "segs \<noteq> []" using assms(2) by auto
  then have c: "path_clean v = join_with ''/'' segs" using e by simp
  have "\<forall>s \<in> set segs. CHR ''/'' \<notin> set s"
  proof
    fix s assume "s \<in> set segs"
    then have "s = ''..'' \<or> s \<in> set ps" unfolding ps(1) by (auto split: if_splits)
    then show "CHR ''/'' \<notin> set s"
      using ps(2) by (elim disjE) (simp, simp add: list_all_iff proper_seg_def)
  qed
  then have "split_on (CHR ''/'') (path_clean v) = segs"
    unfolding c by (intro split_join_with ne)
  then show ?thesis using c ps(2) ne unfolding ps(1) by blast
qed

lemma validateHFSubdir_ok:
  assumes "validateHFSubdir raw = Inr s"
  shows "subdir_ok s" "s \<noteq> []"
proof -
  define v where "v = trim_space raw"
  have v: "\<not> path_is_abs v" "path_clean v = s" "path_clean v \<noteq> ''.''"
    "\<not> list_ex (\<lambda>seg. seg = ''..'' \<or> seg = []) (split_on (CHR ''/'') (path_clean v))"
    using assms unfolding validateHFSubdir_def Let_def v_def [symmetric]
    by (simp_all split: if_split_asm)
  obtain n ps where segs: "split_on (CHR ''/'') s = replicate n ''..'' @ ps"
    "list_all proper_seg ps"
    using path_clean_relative [OF v(1,3)] unfolding v(2) by blast
  have "n = 0" using v(4) unfolding v(2) segs(1) by (cases n) simp_all
  then have sp: "list_all proper_seg (split_on (CHR ''/'') s)" using segs by simp
  then show "subdir_ok s" by (simp add: subdir_ok_def)
  show "s \<noteq> []" using sp by (auto simp: proper_seg_def)
qed

lemma hf_flag_loop_keeps:
  "hf_flag_loop fs ms = Inr ms' \<Longrightarrow> subdir_ok (ms_HFSubdir ms) \<Longrightarrow>
     subdir_ok (ms_HFSubdir ms') \<and> ms_Kind ms' = ms_Kind ms \<and> ms_HFRepo ms' = ms_HFRepo ms \<and>
     ms_URL ms' = ms_URL ms \<and> ms_URLSha256 ms' = ms_URLSha256 ms \<and>
     ms_OllamaTag ms' = ms_OllamaTag ms \<and> ms_LocalPath ms' = ms_LocalPath ms \<and>
     ms_Index ms' = ms_Index ms \<and> (ms_Role ms' = ms_Role ms \<or> ms_Role ms' = RoleMmproj)"
proof (induction fs ms rule: hf_flag_loop.induct)
  case (2 f fs ms)
  have step: "set_hf_flag fl v m = Inr m' \<Longrightarrow> subdir_ok (ms_HFSubdir m) \<Longrightarrow>
      subdir_ok (ms_HFSubdir m') \<and> ms_Kind m' = ms_Kind m \<and> ms_HFRepo m' = ms_HFRepo m \<and>
      ms_URL m' = ms_URL m \<and> ms_URLSha256 m' = ms_URLSha256 m \<and> ms_OllamaTag m' = ms_OllamaTag m \<and> ms_LocalPath m' = ms_LocalPath m \<and>
      ms_Index m' = ms_Index m \<and> (ms_Role m' = ms_Role m \<or> ms_Role m' = RoleMmproj)" for fl v m m'
    by (cases fl)
      (auto simp: setHFSubdir_def setHFRole_def dest: validateHFSubdir_ok split: if_splits sum.splits)
  show ?case
  proof (cases "map_of hf_flags f")
    case None
    then obtain fl v m' where m': "eq_flag f = Some (fl, v)" "set_hf_flag fl v ms = Inr m'"
      "hf_flag_loop fs m' = Inr ms'"
      using "2.prems"(1) by (auto split: option.splits sum.splits if_splits)
    then show ?thesis using "2.IH"(1) [OF None m'(1) refl m'(2)] step [OF m'(2)] "2.prems"(2) by auto
  next
    case (Some fl)
    then obtain v fs' m' where m': "fs = v # fs'" "set_hf_flag fl v ms = Inr m'"
      "hf_flag_loop fs' m' = Inr ms'"
      using "2.prems"(1) by (auto split: list.splits sum.splits)
    then show ?thesis using "2.IH"(2) [OF Some m'(1,2)] step [OF m'(2)] "2.prems"(2) by auto
  qed
qed simp

lemma setOllamaURL_Inr:
  assumes "setOllamaURL ul u ms = Inr m" "digest_ok (ms_URLSha256 ms)"
  obtains d where "m = ms\<lparr>ms_Kind := KindOllamaURL, ms_URL := u, ms_URLSha256 := d\<rparr>" "digest_ok d"
proof -
  let ?m = "ms\<lparr>ms_Kind := KindOllamaURL, ms_URL := u\<rparr>"
  have "m = ?m \<or> (\<exists>v w. parseSHA256 v = Inr w \<and> m = ?m\<lparr>ms_URLSha256 := v\<rparr>)"
    using assms(1) unfolding setOllamaURL_def
    by (simp add: Let_def split: option.split_asm if_split_asm sum.split_asm) blast
  then show thesis
  proof
    assume "m = ?m"
    then show thesis using that [of "ms_URLSha256 ms"] assms(2) by simp
  next
    assume "\<exists>v w. parseSHA256 v = Inr w \<and> m = ?m\<lparr>ms_URLSha256 := v\<rparr>"
    then show thesis using that parseSHA256_Inr by auto
  qed
qed

lemma parseOllamaSource_Inr [consumes 2]:
  assumes "parseOllamaSource ul body flags ms = Inr m" "digest_ok (ms_URLSha256 ms)"
  obtains (tag) "m = ms\<lparr>ms_Kind := KindOllama, ms_OllamaTag := body\<rparr>"
    | (url) u d where "m = ms\<lparr>ms_Kind := KindOllamaURL, ms_URL := u, ms_URLSha256 := d\<rparr>" "digest_ok d" "u \<noteq> [] \<or> body = []"
proof -
  have "m = ms\<lparr>ms_Kind := KindOllama, ms_OllamaTag := body\<rparr> \<or>
      (\<exists>u. setOllamaURL ul u ms = Inr m \<and> (u \<noteq> [] \<or> body = []))"
    using assms(1) unfolding parseOllamaSource_def by (simp split: if_split_asm) blast+
  then show thesis using setOllamaURL_Inr [OF _ assms(2)] tag url by metis
qed

lemma ParseOneSource_ok:
  assumes "ParseOneSource ul i raw local role = Inr m"
  shows "source_ok m" "ms_Index m = i" "ms_Role m = role \<or> ms_Role m = RoleMmproj"
proof -
  let ?n = "new_source i role raw"
  obtain scheme head body flags m0 where
    b: "body \<noteq> []" "cut head ''://'' = Some (scheme, body)" "parse_body ul scheme head body flags ?n = Inr m0"
      "ms_Kind m0 = KindURL \<Longrightarrow> local \<noteq> []"
      "m = (if ms_Kind m0 = KindURL then m0\<lparr>ms_LocalPath := local\<rparr> else m0)
             \<lparr>ms_RedactedSource := redactRaw ul raw\<rparr>"
    and r: "role = RoleMain \<or> role = RoleExtra"
    using assms by (auto simp: ParseOneSource_def split: if_splits sum.splits list.splits option.splits)
  have head: "head \<noteq> []" using b(2) by (cases head) auto
  consider (hf) "parseHFSource body flags ?n = Inr m0" | (ollama) "parseOllamaSource ul body flags ?n = Inr m0"
    | (url) "parseURLSource ul head flags ?n = Inr m0"
    using b(3) by (auto simp: parse_body_def Let_def split: if_splits)
  then have "source_ok m \<and> ms_Index m = i \<and> (ms_Role m = role \<or> ms_Role m = RoleMmproj)"
  proof cases
    case hf
    then obtain v where v: "parseHFRepo body = Inr v"
      "hf_flag_loop flags (?n\<lparr>ms_Kind := KindHF, ms_HFRepo := body\<rparr>) = Inr m0"
      by (auto simp: parseHFSource_def split: sum.splits)
    moreover have "parseHFRepo body = Inr body"
      using v(1) by (auto simp: parseHFRepo_def split: list.splits if_splits)
    ultimately show ?thesis
      using hf_flag_loop_keeps [OF v(2)] b(5) by (auto simp: source_ok_def new_source_def subdir_ok_def)
  next
    case ollama
    moreover have "digest_ok (ms_URLSha256 ?n)" by (simp add: new_source_def digest_ok_def)
    ultimately show ?thesis
      using b(1,5) r
      by (cases rule: parseOllamaSource_Inr) (auto simp: source_ok_def hf_fields_empty_def new_source_def)
  next
    case url
    then show ?thesis
      using b(4,5) r head
      by (auto simp: parseURLSource_def source_ok_def hf_fields_empty_def new_source_def Let_def digest_ok_def
          dest: parseSHA256_Inr split: if_splits option.splits sum.splits)
  qed
  then show "source_ok m" "ms_Index m = i" "ms_Role m = role \<or> ms_Role m = RoleMmproj" by auto
qed

lemma source_loop_ok:
  assumes "source_loop ul i segs out n = Inr (res, k)"
    and "list_all source_ok out" "map ms_Index out = [1..<Suc (length out)]" "length out = i"
    and "0 < i \<Longrightarrow> ms_Role (hd out) = RoleMain" "list_all (\<lambda>m. ms_Role m \<noteq> RoleMain) (tl out)"
    and "length (projectors out) = n"
    and "list_all (\<lambda>m. length (ms_HFInclude m) = 1) (projectors out)"
  shows "list_all source_ok res \<and> map ms_Index res = [1..<Suc (length res)] \<and>
    length res = i + length segs \<and> (res \<noteq> [] \<longrightarrow> ms_Role (hd res) = RoleMain) \<and>
    list_all (\<lambda>m. ms_Role m \<noteq> RoleMain) (tl res) \<and> length (projectors res) = k \<and>
    list_all (\<lambda>m. length (ms_HFInclude m) = 1) (projectors res)"
  using assms
proof (induction ul i segs out n rule: source_loop.induct)
  case (1 ul i out n)
  then show ?case by auto
next
  case (2 ul i seg local segs out n)
  let ?role = "if i = 0 then RoleMain else RoleExtra"
  obtain m where m: "ParseOneSource ul (i + 1) seg local ?role = Inr m"
    using "2.prems"(1) by (auto split: sum.splits)
  note ok = ParseOneSource_ok [OF m]
  have tl: "i = 0 \<or> tl (out @ [m]) = tl out @ [m] \<and> hd (out @ [m]) = hd out"
    using "2.prems"(4) by (cases out) auto
  show ?case
  proof (cases "ms_Role m = RoleMmproj")
    case True
    then have s: "i \<noteq> 0" "length (ms_HFInclude m) = 1"
      "source_loop ul (i + 1) segs (out @ [m]) (n + 1) = Inr (res, k)"
      using "2.prems"(1) m by (auto split: if_splits)
    show ?thesis
      using "2.IH"(1) [OF m True s(1) _ s(3)] s "2.prems"(2-) ok tl True
      by (auto simp: projectors_def)
  next
    case False
    then have s: "source_loop ul (i + 1) segs (out @ [m]) n = Inr (res, k)"
      using "2.prems"(1) m by simp
    have "ms_Role m = ?role" using ok(3) False by simp
    then show ?thesis
      using "2.IH"(2) [OF m False s] "2.prems"(2-) ok tl False
      by (cases "i = 0") (auto simp: projectors_def)
  qed
qed

lemma splitModelSourceLocals_length: "splitModelSourceLocals raw n = Inr ls \<Longrightarrow> length ls = n"
  by (auto simp: splitModelSourceLocals_def Let_def split: if_splits)

lemma LoadModelSources_segments:
  assumes "LoadModelSources ul g = Inr out"
  shows "sources_ok out" "length out = length (splitModelSourceList (trim_space (g ''MODEL_SOURCE'')))"
proof -
  define segs where "segs = splitModelSourceList (trim_space (g ''MODEL_SOURCE''))"
  obtain ls k where ls: "segs \<noteq> []" "splitModelSourceLocals (trim_space (g ''MODEL_SOURCE_LOCAL'')) (length segs) = Inr ls"
    "source_loop ul 0 (zip segs ls) [] 0 = Inr (out, k)" "\<not> 1 < k" "k = 1 \<longrightarrow> ms_Kind (hd out) = KindHF"
    using assms unfolding LoadModelSources_def loadCommaSeparatedSources_def Let_def segs_def
    by (auto split: if_split_asm sum.splits)
  note l = source_loop_ok [OF ls(3)]
  have len: "length out = length segs"
    using l splitModelSourceLocals_length [OF ls(2)] by (simp add: projectors_def)
  then show "length out = length (splitModelSourceList (trim_space (g ''MODEL_SOURCE'')))"
    by (simp add: segs_def)
  have ne: "out \<noteq> []" using len ls(1) by auto
  have pk: "length (projectors out) = k" using l by (simp add: projectors_def)
  then have "list_all (\<lambda>m. ms_Kind (hd out) = KindHF) (projectors out)"
    using ls(4,5) by (cases "projectors out") (auto simp: list_all_iff)
  then show "sources_ok out"
    using l ne pk ls(4) by (auto simp: sources_ok_def projectors_def list_all_iff)
qed

section \<open>Properties\<close>

definition example_url_lib :: url_lib where
  "example_url_lib =
     \<lparr>ul_parse = (\<lambda>s. if contains s ''host'' then Some \<lparr>url_Scheme = ''https'', url_Host = ''host'', url_Fragment = []\<rparr> else None),
      ul_redacted = (\<lambda>s. if contains s ''@'' then Some ''https://REDACTED@host/'' else None)\<rparr>"

definition example_sources :: "string \<Rightarrow> string" where
  "example_sources k =
     (if k = ''MODEL_SOURCE''
      then ''hf://o/r --include a.gguf --subdir onnx,hf://o/p --include=p.gguf --role mmproj, ollama://q:7b''
      else [])"

lemma example_sources_load: "case LoadModelSources example_url_lib example_sources of Inl e \<Rightarrow> False | Inr out \<Rightarrow> length out = 3"
  by code_simp

text \<open>C16: whatever MODEL_SOURCE holds, a successful load yields one entry per segment and a well-formed
  list: every entry has the fields of its kind with values of the right shape and leaves the fields of the
  other kinds empty, positions
  count from 1, the first entry is the one main source, and a projector is unique, names one file
  and stands behind an \<open>hf://\<close> main source.\<close>
theorem loaded_sources_conform:
  assumes "LoadModelSources ul g = Inr out"
  shows "sources_ok out \<and> length out = length (splitModelSourceList (trim_space (g ''MODEL_SOURCE'')))"
  using LoadModelSources_segments [OF assms] by simp

theorem loaded_sources_conform_witness:
  "\<exists>out. LoadModelSources example_url_lib example_sources = Inr out \<and> sources_ok out \<and> length out = 3"
proof -
  obtain out where out: "LoadModelSources example_url_lib example_sources = Inr out" "length out = 3"
    using example_sources_load by (cases "LoadModelSources example_url_lib example_sources") simp_all
  then show ?thesis using loaded_sources_conform [OF out(1)] by blast
qed

lemma split_on_app: "split_on c (a @ c # b) = split_on c a @ split_on c b"
proof (induction a)
  case (Cons x a)
  then show ?case by (cases "split_on c a") simp_all
qed simp

lemma join_with_app:
  "xs \<noteq> [] \<Longrightarrow> ys \<noteq> [] \<Longrightarrow> join_with sep (xs @ ys) = join_with sep xs @ sep @ join_with sep ys"
proof (induction xs)
  case (Cons x xs)
  then show ?case by (cases xs; cases ys) simp_all
qed simp

lemma clean_proper_below:
  assumes "list_all proper_seg (split_on (CHR ''/'') sub)" "path_is_abs root"
    "path_clean root = root" "root \<noteq> ''/''"
  shows "path_clean (root @ CHR ''/'' # sub) = root @ CHR ''/'' # sub"
proof -
  define ss where "ss = split_on (CHR ''/'') sub"
  define rs where "rs = clean_segs True (split_on (CHR ''/'') root)"
  have "foldl (clean_step True) st ss = rev ss @ st" for st
    using assms(1) unfolding ss_def [symmetric]
    by (induction ss arbitrary: st) (auto simp: proper_seg_def)
  then have cs: "clean_segs True (split_on (CHR ''/'') (root @ CHR ''/'' # sub)) = rs @ ss"
    by (simp add: split_on_app clean_segs_def rs_def ss_def [symmetric])
  have root: "CHR ''/'' # join_with ''/'' rs = root"
    using assms(2,3) by (simp add: path_clean_def Let_def rs_def)
  have "rs \<noteq> []" using root assms(4) by auto
  then have "join_with ''/'' (rs @ ss) = join_with ''/'' rs @ ''/'' @ join_with ''/'' ss"
    by (intro join_with_app) (simp_all add: ss_def)
  moreover have "join_with ''/'' ss = sub" by (simp add: ss_def join_split_on)
  moreover have "path_is_abs (root @ CHR ''/'' # sub)"
    using assms(2) by (auto simp: path_is_abs_def has_prefix_def)
  ultimately have "path_clean (root @ CHR ''/'' # sub) = (CHR ''/'' # join_with ''/'' rs) @ CHR ''/'' # sub"
    unfolding path_clean_def Let_def by (simp add: cs)
  then show ?thesis unfolding root .
qed

text \<open>an accepted --subdir stays below the snapshot: joined to a clean absolute root it is that
  root followed by a slash and the value as stored, which has no empty, dot or dot-dot element.\<close>
theorem subdir_stays_in_snapshot:
  assumes "validateHFSubdir raw = Inr sub" "path_is_abs root" "path_clean root = root" "root \<noteq> ''/''"
  shows "path_join [root, sub] = root @ ''/'' @ sub \<and> list_all proper_seg (split_on (CHR ''/'') sub)"
proof -
  have sub: "list_all proper_seg (split_on (CHR ''/'') sub)" "sub \<noteq> []"
    using validateHFSubdir_ok [OF assms(1)] by (auto simp: subdir_ok_def)
  have "root \<noteq> []" using assms(2) by (auto simp: path_is_abs_def has_prefix_def)
  then show ?thesis
    using clean_proper_below [OF sub(1) assms(2-4)] sub by (simp add: path_join_def Let_def)
qed

theorem subdir_stays_in_snapshot_witness:
  "validateHFSubdir '' nested/./dir/ '' = Inr ''nested/dir'' \<and>
   path_join [''/snap/abc'', ''nested/dir''] = ''/snap/abc/nested/dir''"
proof -
  have v: "validateHFSubdir '' nested/./dir/ '' = Inr ''nested/dir''" by code_simp
  have r: "path_is_abs ''/snap/abc''" "path_clean ''/snap/abc'' = ''/snap/abc''" by code_simp+
  show ?thesis using subdir_stays_in_snapshot [OF v r] v by simp
qed

text \<open>a source written with an upper-case scheme is accepted and its user information is not
  redacted: the redacted form that /api/config shows is the raw value, password included.\<close>
theorem uppercase_scheme_not_redacted:
  assumes "ul_parse ul ''HTTPS://user:pw@host/m.gguf'' =
             Some \<lparr>url_Scheme = ''https'', url_Host = ''host'', url_Fragment = []\<rparr>"
  shows "\<exists>m. ParseOneSource ul 1 ''HTTPS://user:pw@host/m.gguf'' ''/models/m.gguf'' RoleMain = Inr m \<and>
           ms_Kind m = KindURL \<and> ms_RedactedSource m = ''HTTPS://user:pw@host/m.gguf''"
proof -
  let ?r = "''HTTPS://user:pw@host/m.gguf''"
  have sh: "shlex ?r = Inr [?r]" by code_simp
  have c: "cut ?r ''://'' = Some (''HTTPS'', ''user:pw@host/m.gguf'')" by code_simp
  have l: "to_lower ''HTTPS'' = ''https''" by code_simp
  have p: "\<not> has_prefix ?r ''http://''" "\<not> has_prefix ?r ''https://''"
    "\<not> has_prefix ?r ''ollama://http://''" "\<not> has_prefix ?r ''ollama://https://''" by code_simp+
  have r: "redactRaw ul ?r = ?r" unfolding redactRaw_def sh by (simp add: redact_token_def p)
  have u: "parseURLSource ul ?r [] ms = Inr (ms\<lparr>ms_Kind := KindURL, ms_URL := ?r\<rparr>)" for ms
    unfolding parseURLSource_def assms by simp
  have b: "parse_body ul ''HTTPS'' ?r body [] ms = Inr (ms\<lparr>ms_Kind := KindURL, ms_URL := ?r\<rparr>)" for body ms
    unfolding parse_body_def l Let_def u by simp
  show ?thesis
    unfolding ParseOneSource_def sh sum.case list.case c option.case prod.case b r by simp
qed

theorem uppercase_scheme_not_redacted_witness:
  "\<exists>m. ParseOneSource example_url_lib 1 ''HTTPS://user:pw@host/m.gguf'' ''/models/m.gguf'' RoleMain = Inr m \<and>
     ms_Kind m = KindURL \<and> ms_RedactedSource m = ''HTTPS://user:pw@host/m.gguf''"
proof (rule uppercase_scheme_not_redacted)
  show "ul_parse example_url_lib ''HTTPS://user:pw@host/m.gguf'' =
      Some \<lparr>url_Scheme = ''https'', url_Host = ''host'', url_Fragment = []\<rparr>"
    by code_simp
qed

end
