(* ===== verification/Reasoning.thy ===== *)
theory Reasoning
  imports Sources
begin

text \<open>The reasoning vocabulary: \<open>internal/reasoning/reasoning.go\<close>.\<close>

definition reasoning_Param :: string where "reasoning_Param = ''reasoning_effort''"

definition Ladder :: "string list" where
  "Ladder = [''none'', ''minimal'', ''low'', ''medium'', ''high'', ''xhigh'', ''max'']"

definition Normalize :: "string \<Rightarrow> string" where
  "Normalize effort = to_lower (trim_space effort)"

definition IsOff :: "string \<Rightarrow> bool" where
  "IsOff effort \<longleftrightarrow> effort \<in> {''none'', ''off'', ''disabled''}"

definition IsLevel :: "string \<Rightarrow> bool" where
  "IsLevel effort \<longleftrightarrow> effort \<in> set Ladder"

end
