(* ===== verification/Regex.thy ===== *)
theory Regex
  imports Prelude
begin

text \<open>
  What the code uses of package \<open>regexp\<close>: the leftmost match that a backtracking search finds first,
  with its groups. Every repetition of the patterns repeats a class of characters. Classes are over
  bytes; they are ASCII classes or complements of ASCII classes, for which reading bytes and reading
  runes select the same text.
\<close>

datatype rx =
    REmpty
  | RSet "char \<Rightarrow> bool"
  | RMany "char \<Rightarrow> bool"
  | RFew "char \<Rightarrow> bool"
  | RSeq rx rx
  | RAlt rx rx
  | RGroup nat rx
  | RBoundary

text \<open>A position: the character before it, the text after it, and the groups so far, innermost first.\<close>

type_synonym rx_pos = "char option \<times> string \<times> (nat \<times> string) list"

definition word_char :: "char \<Rightarrow> bool" where
  "word_char c \<longleftrightarrow>
     (let n = of_char c :: nat in (48 \<le> n \<and> n \<le> 57) \<or> (65 \<le> n \<and> n \<le> 90) \<or> (97 \<le> n \<and> n \<le> 122) \<or> n = 95)"

definition at_boundary :: "char option \<Rightarrow> string \<Rightarrow> bool" where
  "at_boundary pre s \<longleftrightarrow>
     (case pre of None \<Rightarrow> False | Some c \<Rightarrow> word_char c) \<noteq> (case s of [] \<Rightarrow> False | c # _ \<Rightarrow> word_char c)"

text \<open>The positions after 0, 1, 2, ... characters of a class.\<close>

fun run_of :: "(char \<Rightarrow> bool) \<Rightarrow> char option \<Rightarrow> string \<Rightarrow> (char option \<times> string) list" where
  "run_of P pre [] = [(pre, [])]"
| "run_of P pre (c # cs) = (pre, c # cs) # (if P c then run_of P (Some c) cs else [])"

text \<open>All ways to match at a position, the preferred one first.\<close>

fun rx_run :: "rx \<Rightarrow> rx_pos \<Rightarrow> rx_pos list" where
  "rx_run REmpty p = [p]"
| "rx_run (RSet P) (pre, s, gs) = (case s of [] \<Rightarrow> [] | c # cs \<Rightarrow> if P c then [(Some c, cs, gs)] else [])"
| "rx_run (RMany P) (pre, s, gs) = map (\<lambda>(q, t). (q, t, gs)) (rev (run_of P pre s))"
| "rx_run (RFew P) (pre, s, gs) = map (\<lambda>(q, t). (q, t, gs)) (run_of P pre s)"
| "rx_run (RSeq r t) p = concat (map (rx_run t) (rx_run r p))"
| "rx_run (RAlt r t) p = rx_run r p @ rx_run t p"
| "rx_run (RGroup n r) (pre, s, gs) =
     map (\<lambda>(q, t, hs). (q, t, (n, take (length s - length t) s) # hs)) (rx_run r (pre, s, gs))"
| "rx_run RBoundary (pre, s, gs) = (if at_boundary pre s then [(pre, s, gs)] else [])"

definition rx_at :: "rx \<Rightarrow> char option \<Rightarrow> string \<Rightarrow> rx_pos option" where
  "rx_at r pre s = (case rx_run r (pre, s, []) of [] \<Rightarrow> None | p # _ \<Rightarrow> Some p)"

fun rx_search :: "rx \<Rightarrow> char option \<Rightarrow> string \<Rightarrow> rx_pos option" where
  "rx_search r pre s =
     (case rx_at r pre s of
        Some p \<Rightarrow> Some p
      | None \<Rightarrow> (case s of [] \<Rightarrow> None | c # cs \<Rightarrow> rx_search r (Some c) cs))"

declare rx_search.simps [simp del]

definition rx_group :: "nat \<Rightarrow> (nat \<times> string) list \<Rightarrow> string" where
  "rx_group n gs = (case map_of gs n of None \<Rightarrow> [] | Some s \<Rightarrow> s)"

text \<open>\<open>MatchString\<close>, \<open>FindStringSubmatch\<close> of a pattern that starts with \<open>^\<close>, and \<open>ReplaceAllString\<close> of a
  pattern that matches no empty text: \<open>f\<close> gives the replacement from the groups.\<close>

definition rx_matches :: "rx \<Rightarrow> string \<Rightarrow> bool" where
  "rx_matches r s \<longleftrightarrow> rx_search r None s \<noteq> None"

definition rx_submatch :: "rx \<Rightarrow> string \<Rightarrow> (nat \<times> string) list option" where
  "rx_submatch r s = map_option (\<lambda>(q, t, gs). gs) (rx_at r None s)"

function rx_replace :: "rx \<Rightarrow> ((nat \<times> string) list \<Rightarrow> string) \<Rightarrow> char option \<Rightarrow> string \<Rightarrow> string" where
  "rx_replace r f pre [] = []"
| "rx_replace r f pre (c # cs) =
     (case rx_at r pre (c # cs) of
        Some (q, t, gs) \<Rightarrow>
          if length t \<le> length cs then f gs @ rx_replace r f q t else c # rx_replace r f (Some c) cs
      | None \<Rightarrow> c # rx_replace r f (Some c) cs)"
  by pat_completeness auto
termination by (relation "measure (\<lambda>(r, f, pre, s). length s)") auto

definition rx_lit :: "string \<Rightarrow> rx" where
  "rx_lit w = foldr (\<lambda>c r. RSeq (RSet (\<lambda>d. d = c)) r) w REmpty"

definition rx_seq :: "rx list \<Rightarrow> rx" where
  "rx_seq rs = foldr RSeq rs REmpty"

definition rx_opt :: "rx \<Rightarrow> rx" where "rx_opt r = RAlt r REmpty"

definition rx_many1 :: "(char \<Rightarrow> bool) \<Rightarrow> rx" where "rx_many1 P = RSeq (RSet P) (RMany P)"

text \<open>\<open>\s\<close>\<close>

definition rx_space :: "char \<Rightarrow> bool" where
  "rx_space c \<longleftrightarrow> c \<in> {CHR 0x09, CHR 0x0A, CHR 0x0C, CHR 0x0D, CHR 0x20}"

section \<open>Soundness of the search\<close>

lemma run_of_suffix: "(q, t) \<in> set (run_of P pre s) \<Longrightarrow> \<exists>w. s = w @ t \<and> list_all P w"
proof (induction P pre s rule: run_of.induct)
  case (2 P pre c cs)
  show ?case
  proof (cases "(q, t) = (pre, c # cs)")
    case True
    then show ?thesis by (intro exI [of _ "[]"]) simp
  next
    case False
    then have "P c" "(q, t) \<in> set (run_of P (Some c) cs)" using 2(2) by (auto split: if_splits)
    then obtain w where "cs = w @ t" "list_all P w" using 2(1) by blast
    then show ?thesis using \<open>P c\<close> by (intro exI [of _ "c # w"]) simp
  qed
qed simp

lemma rx_run_suffix: "(q, t, hs) \<in> set (rx_run r p) \<Longrightarrow> \<exists>w. fst (snd p) = w @ t"
proof (induction r arbitrary: p q t hs)
  case (RSet P)
  then show ?case by (cases p) (auto split: list.splits if_splits)
next
  case (RSeq r1 r2)
  then obtain q1 t1 h1 where 1: "(q1, t1, h1) \<in> set (rx_run r1 p)" "(q, t, hs) \<in> set (rx_run r2 (q1, t1, h1))"
    by auto
  then obtain w v where "fst (snd p) = w @ t1" "t1 = v @ t"
    using RSeq.IH(1) [OF 1(1)] RSeq.IH(2) [OF 1(2)] by auto
  then show ?case by auto
qed (auto dest!: run_of_suffix split: if_splits prod.splits)

lemma rx_at_suffix:
  assumes "rx_at r pre s = Some (q, t, gs)"
  shows "\<exists>w. s = w @ t"
proof -
  have "(q, t, gs) \<in> set (rx_run r (pre, s, []))" using assms by (auto simp: rx_at_def split: list.splits)
  then show ?thesis by (auto dest!: rx_run_suffix)
qed

end
