(* ===== verification/Capacity.thy ===== *)
theory Capacity
  imports KvDerive JsonText
begin

text \<open>
  Asking a running engine what it can hold: \<open>internal/enginecapacity/enginecapacity.go\<close> and
  \<open>read.go\<close>, the label readers of \<open>internal/enginemetrics/enginemetrics.go\<close>, and the loop of
  \<open>internal/enginecapacity/reporter.go\<close> that decides when to ask. The network, the text of a decoding
  error, Go's \<open>%q\<close>, the parser of the Prometheus exposition and \<open>int(ParseFloat(s))\<close> are fields of
  \<open>probe_env\<close>. \<open>Probe\<close> derives the declared numbers first, so it panics where that division does.
\<close>

section \<open>Data (enginecapacity.go)\<close>

definition SourceEngineArgs :: string where "SourceEngineArgs = ''engine_args''"
definition SourceEngineCapacity :: string where "SourceEngineCapacity = ''engine_capacity''"
definition SourceEngineConfig :: string where "SourceEngineConfig = ''engine_config''"
definition SourceLlamacppProps :: string where "SourceLlamacppProps = ''llamacpp_props''"
definition SourceSGLangServerInfo :: string where "SourceSGLangServerInfo = ''sglang_server_info''"
definition SourceSGLangGetSrvInfo :: string where "SourceSGLangGetSrvInfo = ''sglang_get_server_info''"
definition SourceOllamaPS :: string where "SourceOllamaPS = ''ollama_ps''"
definition SourceVLLMMetrics :: string where "SourceVLLMMetrics = ''vllm_metrics''"

lemmas source_defs = SourceEngineArgs_def SourceEngineCapacity_def SourceEngineConfig_def
  SourceLlamacppProps_def SourceSGLangServerInfo_def SourceSGLangGetSrvInfo_def SourceOllamaPS_def
  SourceVLLMMetrics_def

definition FieldContextSize :: string where "FieldContextSize = ''context_size''"
definition FieldMaxConcurrency :: string where "FieldMaxConcurrency = ''max_concurrency''"
definition FieldPoolTokens :: string where "FieldPoolTokens = ''pool_tokens''"

lemmas field_defs = FieldContextSize_def FieldMaxConcurrency_def FieldPoolTokens_def

text \<open>A time is in nanoseconds; \<open>None\<close> is the zero time.\<close>

record capacity =
  cap_ContextSize :: int
  cap_MaxConcurrency :: int
  cap_PoolTokens :: int
  cap_Source :: string
  cap_ReportedAt :: "int option"
  cap_FromArgs :: "string list"
  cap_Warnings :: "string list"

record probe_options =
  po_Kind :: engine_kind
  po_Args :: engine_args
  po_EngineURL :: string
  po_ConfiguredMax :: int
  po_Model :: string

record reported =
  rp_contextSize :: int
  rp_maxConcurrency :: int
  rp_poolTokens :: int
  rp_source :: string

definition no_report :: reported where
  "no_report = \<lparr>rp_contextSize = 0, rp_maxConcurrency = 0, rp_poolTokens = 0, rp_source = []\<rparr>"

section \<open>One GET\<close>

text \<open>No request could be made of the URL, none could be sent, the body broke off, or an answer.\<close>

datatype http_reply =
    HttpNoRequest string | HttpNoReply string | HttpUnread int string | HttpReply int string

type_synonym families = "string \<Rightarrow> (string \<times> string) list option"

record probe_env =
  pe_http :: "string \<Rightarrow> http_reply"
  pe_json_error :: "string \<Rightarrow> string"
  pe_quote :: "string \<Rightarrow> string"
  pe_families :: "string \<Rightarrow> string + families"
  pe_float_int :: "string \<Rightarrow> int option"

definition probeBodyLimit :: int where "probeBodyLimit = 1048576"

definition limit_body :: "string \<Rightarrow> string" where
  "limit_body b = (if int (length b) \<le> probeBodyLimit then b else take (nat probeBodyLimit) b)"

definition trim_right_slashes :: "string \<Rightarrow> string" where
  "trim_right_slashes s = rev (dropWhile (\<lambda>c. c = CHR ''/'') (rev s))"

definition client_get :: "probe_env \<Rightarrow> string \<Rightarrow> string \<Rightarrow> string + string \<times> int" where
  "client_get E base path =
     (case pe_http E (trim_right_slashes base @ path) of
        HttpNoRequest e \<Rightarrow> Inl e
      | HttpNoReply e \<Rightarrow> Inl (''GET '' @ path @ '': '' @ e)
      | HttpUnread status e \<Rightarrow> Inl (''read GET '' @ path @ '': '' @ e)
      | HttpReply status body \<Rightarrow> Inr (limit_body body, status))"

datatype get_error = NotFoundErr string | GetErr string

fun get_error_text :: "get_error \<Rightarrow> string" where
  "get_error_text (NotFoundErr path) = ''GET '' @ path @ '' status 404''"
| "get_error_text (GetErr e) = e"

definition getJSON :: "probe_env \<Rightarrow> string \<Rightarrow> string \<Rightarrow> 'a \<Rightarrow> 'a store \<Rightarrow> get_error + 'a" where
  "getJSON E base path zero st =
     (case client_get E base path of
        Inl e \<Rightarrow> Inl (GetErr e)
      | Inr (body, status) \<Rightarrow>
          if status = 404 then Inl (NotFoundErr path)
          else if status \<noteq> 200 then Inl (GetErr (''GET '' @ path @ '' status '' @ itoa status))
          else case unmarshal zero st body of
                 None \<Rightarrow> Inl (GetErr (''decode GET '' @ path @ '': '' @ pe_json_error E body))
               | Some v \<Rightarrow> Inr v)"

definition fellBack :: "string \<Rightarrow> string \<Rightarrow> string list" where
  "fellBack engine reason = [engine @ '': '' @ reason @ ''; capacity falls back to engine_args'']"

section \<open>The probes\<close>

text \<open>\<open>GET /api/engine-capacity\<close> of a sibling engine\<close>

definition sibling_fallback :: string where
  "sibling_fallback = ''; capacity falls back to ENGINE_MAX_CONCURRENCY when configured''"

definition probeSiblingCapacity :: "probe_env \<Rightarrow> string \<Rightarrow> reported \<times> string list" where
  "probeSiblingCapacity E base =
     (case getJSON E base ''/api/engine-capacity'' 0 (store_struct [(''max_concurrency'', store_int)]) of
        Inl e \<Rightarrow> (no_report, [''engine capacity: '' @ get_error_text e @ sibling_fallback])
      | Inr n \<Rightarrow>
          if n \<le> 0 then
            (no_report, [''engine capacity: GET /api/engine-capacity returned invalid max_concurrency='' @
               itoa n @ sibling_fallback])
          else (no_report\<lparr>rp_maxConcurrency := n, rp_source := SourceEngineCapacity\<rparr>, []))"

text \<open>llama.cpp: the resolved window and slots, and a warning where the flags predict others\<close>

definition store_props :: "(int \<times> int) store" where
  "store_props = store_struct
     [(''total_slots'', on fst (\<lambda>v p. (v, snd p)) store_int),
      (''default_generation_settings'', on snd (\<lambda>v p. (fst p, v)) (store_struct [(''n_ctx'', store_int)]))]"

definition context_drift :: "reported \<Rightarrow> int option \<Rightarrow> string list" where
  "context_drift got want =
     (case want of
        Some w \<Rightarrow>
          if rp_contextSize got > 0 \<and> w \<noteq> rp_contextSize got
          then [''llamacpp: /props reports n_ctx_slot='' @ itoa (rp_contextSize got) @
                '' but engine_args derive '' @ itoa w @
                ''; the model's training context may be lower than -c, or this build's unified-KV arithmetic is wrong'']
          else []
      | None \<Rightarrow> [])"

definition slots_drift :: "reported \<Rightarrow> int option \<Rightarrow> string list" where
  "slots_drift got want =
     (case want of
        Some w \<Rightarrow>
          if rp_maxConcurrency got > 0 \<and> w \<noteq> rp_maxConcurrency got
          then [''llamacpp: /props reports total_slots='' @ itoa (rp_maxConcurrency got) @
                '' but engine_args derive '' @ itoa w]
          else []
      | None \<Rightarrow> [])"

definition llamacppDriftWarnings :: "engine_args \<Rightarrow> reported \<Rightarrow> go_panic + string list" where
  "llamacppDriftWarnings args got =
     (case DeriveContextSize EngineLlamaCpp args of
        Inl p \<Rightarrow> Inl p
      | Inr want \<Rightarrow>
          Inr (context_drift got want @ slots_drift got (DeriveMaxConcurrency EngineLlamaCpp args)))"

definition positive :: "int \<Rightarrow> int" where "positive n = (if n > 0 then n else 0)"

definition probeLlamacpp :: "probe_env \<Rightarrow> string \<Rightarrow> engine_args \<Rightarrow> go_panic + reported \<times> string list" where
  "probeLlamacpp E base args =
     (case getJSON E base ''/props'' (0, 0) store_props of
        Inl e \<Rightarrow> Inr (no_report, fellBack ''llamacpp'' (get_error_text e))
      | Inr (slots, n_ctx) \<Rightarrow>
          let r = no_report\<lparr>rp_source := SourceLlamacppProps, rp_contextSize := positive n_ctx,
                    rp_maxConcurrency := positive slots\<rparr>
          in case llamacppDriftWarnings args r of Inl p \<Rightarrow> Inl p | Inr ws \<Rightarrow> Inr (r, ws))"

text \<open>SGLang: the resolved server arguments, under either name of the endpoint\<close>

record server_info =
  si_MaxTotalNumTokens :: int
  si_MaxRunningRequests :: int
  si_ContextLength :: int
  si_DPSize :: int
  si_PerDP :: "int list"

definition store_server_info :: "server_info store" where
  "store_server_info = store_struct
     [(''max_total_num_tokens'', on si_MaxTotalNumTokens (\<lambda>v s. s\<lparr>si_MaxTotalNumTokens := v\<rparr>) store_int),
      (''max_running_requests'', on si_MaxRunningRequests (\<lambda>v s. s\<lparr>si_MaxRunningRequests := v\<rparr>) store_int),
      (''context_length'', on si_ContextLength (\<lambda>v s. s\<lparr>si_ContextLength := v\<rparr>) store_int),
      (''dp_size'', on si_DPSize (\<lambda>v s. s\<lparr>si_DPSize := v\<rparr>) store_int),
      (''internal_states'', on si_PerDP (\<lambda>v s. s\<lparr>si_PerDP := v\<rparr>)
         (store_slice 0 (store_struct [(''effective_max_running_requests_per_dp'', store_int)])))]"

definition zero_info :: server_info where
  "zero_info = \<lparr>si_MaxTotalNumTokens = 0, si_MaxRunningRequests = 0, si_ContextLength = 0,
     si_DPSize = 0, si_PerDP = []\<rparr>"

definition sglang_width :: "server_info \<Rightarrow> int" where
  "sglang_width info =
     (if si_MaxRunningRequests info > 0 then si_MaxRunningRequests info
      else case si_PerDP info of
             [] \<Rightarrow> 0
           | d # ds \<Rightarrow> if si_DPSize info > 0 \<and> d > 0 then wrap64 (d * si_DPSize info) else 0)"

definition sglang_report :: "string \<Rightarrow> server_info \<Rightarrow> reported" where
  "sglang_report source info =
     \<lparr>rp_contextSize = positive (si_ContextLength info), rp_maxConcurrency = sglang_width info,
      rp_poolTokens = positive (si_MaxTotalNumTokens info), rp_source = source\<rparr>"

definition probeSGLang :: "probe_env \<Rightarrow> string \<Rightarrow> reported \<times> string list" where
  "probeSGLang E base =
     (let ask = (\<lambda>path. getJSON E base path zero_info store_server_info);
          (source, answer) =
            (case ask ''/server_info'' of
               Inl (NotFoundErr p) \<Rightarrow> (SourceSGLangGetSrvInfo, ask ''/get_server_info'')
             | a \<Rightarrow> (SourceSGLangServerInfo, a))
      in case answer of
           Inl e \<Rightarrow> (no_report, fellBack ''sglang'' (get_error_text e))
         | Inr info \<Rightarrow> (sglang_report source info, []))"

text \<open>Ollama: the entry of the model, or the only one\<close>

record ps_model =
  pm_Name :: string
  pm_Model :: string
  pm_ContextLength :: int

definition store_ps :: "ps_model list store" where
  "store_ps = store_struct
     [(''models'', store_slice \<lparr>pm_Name = [], pm_Model = [], pm_ContextLength = 0\<rparr>
        (store_struct
          [(''name'', on pm_Name (\<lambda>v s. s\<lparr>pm_Name := v\<rparr>) store_string),
           (''model'', on pm_Model (\<lambda>v s. s\<lparr>pm_Model := v\<rparr>) store_string),
           (''context_length'', on pm_ContextLength (\<lambda>v s. s\<lparr>pm_ContextLength := v\<rparr>) store_int)]))]"

definition ollama_drift :: "int \<Rightarrow> int option \<Rightarrow> string list" where
  "ollama_drift got want =
     (case want of
        Some w \<Rightarrow>
          if got > 0 \<and> w \<noteq> got
          then [''ollama: running with context_length='' @ itoa got @ '', not the '' @ itoa w @
                '' that ENGINE_ARGS asked for; the daemon lowered it to fit memory'']
          else []
      | None \<Rightarrow> [])"

definition ollama_answer :: "ps_model \<Rightarrow> engine_args \<Rightarrow> go_panic + reported \<times> string list" where
  "ollama_answer x args =
     (let r = no_report\<lparr>rp_source := SourceOllamaPS, rp_contextSize := positive (pm_ContextLength x)\<rparr>
      in case DeriveContextSize EngineOllama args of
           Inl p \<Rightarrow> Inl p
         | Inr want \<Rightarrow> Inr (r, ollama_drift (rp_contextSize r) want))"

definition probeOllama ::
  "probe_env \<Rightarrow> string \<Rightarrow> string \<Rightarrow> engine_args \<Rightarrow> go_panic + reported \<times> string list" where
  "probeOllama E base model args =
     (case getJSON E base ''/api/ps'' [] store_ps of
        Inl e \<Rightarrow> Inr (no_report, fellBack ''ollama'' (get_error_text e))
      | Inr [] \<Rightarrow> Inr (no_report, fellBack ''ollama'' ''/api/ps lists no resident model'')
      | Inr (m # ms) \<Rightarrow>
          (case find (\<lambda>x. pm_Name x = model \<or> pm_Model x = model) (m # ms) of
             None \<Rightarrow>
               if ms \<noteq> [] then
                 Inr (no_report, fellBack ''ollama'' (''/api/ps lists '' @ itoa (int (length (m # ms))) @
                   '' resident models, none named '' @ pe_quote E model))
               else ollama_answer m args
           | Some x \<Rightarrow> ollama_answer x args))"

text \<open>The label readers (\<open>enginemetrics.go\<close>): \<open>None\<close> in a family table is a family that is absent or has
  no sample.\<close>

definition metrics_Parse :: "probe_env \<Rightarrow> string \<Rightarrow> string + families" where
  "metrics_Parse E body =
     (case pe_families E body of Inl e \<Rightarrow> Inl (''parse /metrics: '' @ e) | Inr fams \<Rightarrow> Inr fams)"

definition metrics_Label :: "families \<Rightarrow> string \<Rightarrow> string \<Rightarrow> string" where
  "metrics_Label fams name label =
     (case fams name of
        None \<Rightarrow> []
      | Some labels \<Rightarrow> (case map_of labels label of None \<Rightarrow> [] | Some v \<Rightarrow> v))"

definition metrics_IntLabel :: "probe_env \<Rightarrow> families \<Rightarrow> string \<Rightarrow> string \<Rightarrow> int option" where
  "metrics_IntLabel E fams name label =
     (let s = metrics_Label fams name label in if s = [] then None else pe_float_int E s)"

definition metricVLLMCacheConfig :: string where "metricVLLMCacheConfig = ''vllm:cache_config_info''"
definition labelNumGPUBlocks :: string where "labelNumGPUBlocks = ''num_gpu_blocks''"
definition labelBlockSize :: string where "labelBlockSize = ''block_size''"

text \<open>vLLM: the pool as the number of blocks times their size\<close>

definition vllm_unusable :: "reported \<times> string list" where
  "vllm_unusable =
     (no_report, fellBack ''vllm'' (''/metrics carries no usable '' @ metricVLLMCacheConfig @ [CHR 0x7B] @
        labelNumGPUBlocks @ '','' @ labelBlockSize @ [CHR 0x7D]))"

definition vllm_pool :: "int option \<Rightarrow> int option \<Rightarrow> reported \<times> string list" where
  "vllm_pool blocks bsize =
     (case (blocks, bsize) of
        (Some b, Some k) \<Rightarrow>
          if b \<le> 0 \<or> k \<le> 0 then vllm_unusable
          else (no_report\<lparr>rp_poolTokens := wrap64 (b * k), rp_source := SourceVLLMMetrics\<rparr>, [])
      | _ \<Rightarrow> vllm_unusable)"

definition probeVLLM :: "probe_env \<Rightarrow> string \<Rightarrow> reported \<times> string list" where
  "probeVLLM E base =
     (case client_get E base ''/metrics'' of
        Inl e \<Rightarrow> (no_report, fellBack ''vllm'' e)
      | Inr (body, status) \<Rightarrow>
          if status \<noteq> 200 then (no_report, fellBack ''vllm'' (''GET /metrics status '' @ itoa status))
          else case metrics_Parse E body of
                 Inl e \<Rightarrow> (no_report, fellBack ''vllm'' e)
               | Inr fams \<Rightarrow>
                   vllm_pool (metrics_IntLabel E fams metricVLLMCacheConfig labelNumGPUBlocks)
                     (metrics_IntLabel E fams metricVLLMCacheConfig labelBlockSize))"

section \<open>Probe\<close>

definition isLLMEngine :: "engine_kind \<Rightarrow> bool" where
  "isLLMEngine kind \<longleftrightarrow>
     kind \<in> {EngineLlamaCpp, EngineSGLang, EngineOllama, EngineVLLM, EngineFreeToken, EngineStrata}"

definition or_zero :: "int option \<Rightarrow> int" where
  "or_zero x = (case x of None \<Rightarrow> 0 | Some n \<Rightarrow> n)"

definition declaredCapacity :: "engine_kind \<Rightarrow> engine_args \<Rightarrow> go_panic + reported" where
  "declaredCapacity kind args =
     (case DeriveContextSize kind args of
        Inl p \<Rightarrow> Inl p
      | Inr ctx \<Rightarrow>
          Inr \<lparr>rp_contextSize = or_zero ctx, rp_maxConcurrency = or_zero (DeriveMaxConcurrency kind args),
            rp_poolTokens = or_zero (DerivePoolTokens kind args), rp_source = []\<rparr>)"

definition probeEngine :: "probe_env \<Rightarrow> probe_options \<Rightarrow> go_panic + reported \<times> string list" where
  "probeEngine E opts =
     (let base = po_EngineURL opts; args = po_Args opts in
      if base = [] then Inr (no_report, [])
      else case po_Kind opts of
             EngineLlamaCpp \<Rightarrow> probeLlamacpp E base args
           | EngineSGLang \<Rightarrow> Inr (probeSGLang E base)
           | EngineOllama \<Rightarrow> probeOllama E base (po_Model opts) args
           | EngineVLLM \<Rightarrow> Inr (probeVLLM E base)
           | EngineFreeToken \<Rightarrow> Inr (no_report, [])
           | EngineStrata \<Rightarrow> Inr (no_report, [])
           | _ \<Rightarrow> Inr (probeSiblingCapacity E base))"

definition pick :: "int \<Rightarrow> int \<Rightarrow> string \<Rightarrow> string list \<Rightarrow> int \<times> string list" where
  "pick measured declared field fromArgs =
     (if measured > 0 then (measured, fromArgs)
      else if declared > 0 then (declared, fromArgs @ [field])
      else (0, fromArgs))"

definition probe_source :: "probe_options \<Rightarrow> reported \<Rightarrow> string" where
  "probe_source opts got =
     (if rp_source got \<noteq> [] then rp_source got
      else if \<not> isLLMEngine (po_Kind opts) \<and> po_ConfiguredMax opts > 0 then SourceEngineConfig
      else SourceEngineArgs)"

definition seeded :: "probe_options \<Rightarrow> reported \<Rightarrow> reported" where
  "seeded opts declared =
     (if isLLMEngine (po_Kind opts) then declared
      else declared\<lparr>rp_maxConcurrency := po_ConfiguredMax opts\<rparr>)"

definition pick_width :: "engine_kind \<Rightarrow> int \<Rightarrow> int \<Rightarrow> string list \<Rightarrow> int \<times> string list" where
  "pick_width kind measured declared fromArgs =
     (if isLLMEngine kind then pick measured declared FieldMaxConcurrency fromArgs
      else if measured > 0 then (measured, fromArgs)
      else if declared > 0 then (declared, fromArgs)
      else (0, fromArgs))"

definition combine ::
  "probe_options \<Rightarrow> int option \<Rightarrow> reported \<Rightarrow> reported \<Rightarrow> string list \<Rightarrow> capacity" where
  "combine opts now declared got warnings =
     (let (ctx, from1) = pick (rp_contextSize got) (rp_contextSize declared) FieldContextSize [];
          (width, from2) = pick_width (po_Kind opts) (rp_maxConcurrency got) (rp_maxConcurrency declared) from1;
          (pool, from3) = pick (rp_poolTokens got) (rp_poolTokens declared) FieldPoolTokens from2
      in \<lparr>cap_ContextSize = ctx, cap_MaxConcurrency = width, cap_PoolTokens = pool,
          cap_Source = probe_source opts got, cap_ReportedAt = now, cap_FromArgs = from3,
          cap_Warnings = warnings\<rparr>)"

definition Probe :: "probe_env \<Rightarrow> int option \<Rightarrow> probe_options \<Rightarrow> go_panic + capacity" where
  "Probe E now opts =
     (case declaredCapacity (po_Kind opts) (po_Args opts) of
        Inl p \<Rightarrow> Inl p
      | Inr declared \<Rightarrow>
          (case probeEngine E opts of
             Inl p \<Rightarrow> Inl p
           | Inr (got, warnings) \<Rightarrow> Inr (combine opts now (seeded opts declared) got warnings)))"

section \<open>The block on the card (read.go)\<close>

definition ExtensionKey :: string where "ExtensionKey = ''capacity''"

text \<open>What \<open>json.Marshal\<close> makes of a \<open>Capacity\<close>; the text of a time is a parameter.\<close>

definition capacity_value :: "(int option \<Rightarrow> string) \<Rightarrow> capacity \<Rightarrow> json" where
  "capacity_value fmt c = JObj
     (opt_int ''context_size'' (cap_ContextSize c) @ opt_int ''max_concurrency'' (cap_MaxConcurrency c) @
      opt_int ''pool_tokens'' (cap_PoolTokens c) @
      [(''source'', JStr (cap_Source c)), (''reported_at'', JStr (fmt (cap_ReportedAt c)))] @
      opt_strings ''from_args'' (cap_FromArgs c) @ opt_strings ''warnings'' (cap_Warnings c))"

definition zero_capacity :: capacity where
  "zero_capacity = \<lparr>cap_ContextSize = 0, cap_MaxConcurrency = 0, cap_PoolTokens = 0, cap_Source = [],
     cap_ReportedAt = None, cap_FromArgs = [], cap_Warnings = []\<rparr>"

definition store_instant :: "(string \<Rightarrow> int option option) \<Rightarrow> int option store" where
  "store_instant parse cur j =
     (case j of
        RScalar x (JStr t) \<Rightarrow> parse t
      | RScalar x JNull \<Rightarrow> Some cur
      | _ \<Rightarrow> None)"

definition store_capacity :: "(string \<Rightarrow> int option option) \<Rightarrow> capacity store" where
  "store_capacity parse = store_struct
     [(''context_size'', on cap_ContextSize (\<lambda>v c. c\<lparr>cap_ContextSize := v\<rparr>) store_int),
      (''max_concurrency'', on cap_MaxConcurrency (\<lambda>v c. c\<lparr>cap_MaxConcurrency := v\<rparr>) store_int),
      (''pool_tokens'', on cap_PoolTokens (\<lambda>v c. c\<lparr>cap_PoolTokens := v\<rparr>) store_int),
      (''source'', on cap_Source (\<lambda>v c. c\<lparr>cap_Source := v\<rparr>) store_string),
      (''reported_at'', on cap_ReportedAt (\<lambda>v c. c\<lparr>cap_ReportedAt := v\<rparr>) (store_instant parse)),
      (''from_args'', on cap_FromArgs (\<lambda>v c. c\<lparr>cap_FromArgs := v\<rparr>) (store_slice [] store_string)),
      (''warnings'', on cap_Warnings (\<lambda>v c. c\<lparr>cap_Warnings := v\<rparr>) (store_slice [] store_string))]"

text \<open>The extensions of a card are a map from keys to generic values.\<close>

definition FromExtensions ::
  "(string \<Rightarrow> int option option) \<Rightarrow> (string \<times> json) list \<Rightarrow> capacity option" where
  "FromExtensions parse ext =
     (case map_of ext ExtensionKey of
        None \<Rightarrow> None
      | Some v \<Rightarrow>
          (case unmarshal zero_capacity (store_capacity parse) (json_encode v) of
             None \<Rightarrow> None
           | Some c \<Rightarrow> if cap_Source c = [] \<or> cap_ReportedAt c = None then None else Some c))"

definition PoolTokensOf ::
  "(string \<Rightarrow> int option option) \<Rightarrow> engine_kind \<Rightarrow> engine_args \<Rightarrow> (string \<times> json) list \<Rightarrow> int option" where
  "PoolTokensOf parse kind args ext =
     (case FromExtensions parse ext of
        Some c \<Rightarrow> if cap_PoolTokens c > 0 then Some (cap_PoolTokens c) else DerivePoolTokens kind args
      | None \<Rightarrow> DerivePoolTokens kind args)"

section \<open>The reporter (reporter.go)\<close>

definition retryLimit :: int where "retryLimit = 10"

record reporter =
  rep_attempts :: int
  rep_settled :: bool
  rep_probed :: string
  rep_probedMax :: int
  rep_relaunch :: string

text \<open>Which callbacks are wired; \<open>Ready\<close> and \<open>Target\<close> are asked together.\<close>

record reporter_config =
  rcf_Wired :: bool
  rcf_Restarted :: bool

text \<open>What one tick sees.\<close>

record tick =
  tk_ready :: bool
  tk_token :: string
  tk_target :: probe_options
  tk_env :: probe_env
  tk_now :: "int option"

definition reporter_start :: "reporter_config \<Rightarrow> string \<Rightarrow> reporter" where
  "reporter_start cfg token =
     \<lparr>rep_attempts = 0, rep_settled = False, rep_probed = [], rep_probedMax = 0,
      rep_relaunch = (if rcf_Restarted cfg then token else [])\<rparr>"

definition arm :: "reporter \<Rightarrow> reporter" where
  "arm s = s\<lparr>rep_attempts := 0, rep_settled := False\<rparr>"

definition notice_relaunch :: "reporter_config \<Rightarrow> string \<Rightarrow> reporter \<Rightarrow> reporter" where
  "notice_relaunch cfg token s =
     (if rcf_Restarted cfg \<and> token \<noteq> [] \<and> token \<noteq> rep_relaunch s
      then arm (s\<lparr>rep_relaunch := token\<rparr>) else s)"

definition is_done :: "reporter \<Rightarrow> bool" where
  "is_done s \<longleftrightarrow> rep_settled s \<or> rep_attempts s \<ge> retryLimit"

definition notice_flags :: "probe_options \<Rightarrow> reporter \<Rightarrow> reporter" where
  "notice_flags target s =
     (if is_done s \<and> (ea_Raw (po_Args target) \<noteq> rep_probed s \<or> po_ConfiguredMax target \<noteq> rep_probedMax s)
      then arm s else s)"

definition measured :: "capacity \<Rightarrow> bool" where
  "measured c \<longleftrightarrow> cap_Source c \<noteq> SourceEngineArgs \<and> cap_Source c \<noteq> SourceEngineConfig"

text \<open>What a tick did: whether the engine was probed, and the reading handed to \<open>Record\<close>.\<close>

datatype tick_outcome = Idle | Probed | Recorded capacity

definition after_probe :: "probe_options \<Rightarrow> capacity \<Rightarrow> reporter \<Rightarrow> reporter \<times> tick_outcome" where
  "after_probe target got s =
     (let s = s\<lparr>rep_attempts := rep_attempts s + 1\<rparr> in
      if \<not> measured got \<and> rep_attempts s < retryLimit then (s, Probed)
      else (s\<lparr>rep_settled := rep_settled s \<or> measured got, rep_probed := ea_Raw (po_Args target),
              rep_probedMax := po_ConfiguredMax target\<rparr>, Recorded got))"

definition reporter_tick ::
  "reporter_config \<Rightarrow> tick \<Rightarrow> reporter \<Rightarrow> go_panic + reporter \<times> tick_outcome" where
  "reporter_tick cfg t s =
     (if \<not> rcf_Wired cfg \<or> \<not> tk_ready t then Inr (arm s, Idle)
      else let s = notice_flags (tk_target t) (notice_relaunch cfg (tk_token t) s) in
        if is_done s then Inr (s, Idle)
        else case Probe (tk_env t) (tk_now t) (tk_target t) of
               Inl p \<Rightarrow> Inl p
             | Inr got \<Rightarrow> Inr (after_probe (tk_target t) got s))"

text \<open>A run over ticks, with what each did; a panic ends the process.\<close>

fun reporter_run ::
  "reporter_config \<Rightarrow> tick list \<Rightarrow> reporter \<Rightarrow> go_panic + reporter \<times> (tick \<times> tick_outcome) list" where
  "reporter_run cfg [] s = Inr (s, [])"
| "reporter_run cfg (t # ts) s =
     (case reporter_tick cfg t s of
        Inl p \<Rightarrow> Inl p
      | Inr (s', x) \<Rightarrow>
          (case reporter_run cfg ts s' of
             Inl p \<Rightarrow> Inl p
           | Inr (s'', xs) \<Rightarrow> Inr (s'', (t, x) # xs)))"

text \<open>The states the loop reaches, with the record of what it did.\<close>

inductive reporter_reach ::
  "reporter_config \<Rightarrow> string \<Rightarrow> reporter \<Rightarrow> (tick \<times> tick_outcome) list \<Rightarrow> bool"
  for cfg :: reporter_config and token :: string where
  start: "reporter_reach cfg token (reporter_start cfg token) []"
| tick: "reporter_reach cfg token s log \<Longrightarrow> reporter_tick cfg t s = Inr (s', x) \<Longrightarrow>
    reporter_reach cfg token s' (log @ [(t, x)])"

inductive_cases reporter_reach_snocE: "reporter_reach cfg token s (log @ [(t, x)])"

section \<open>One tick\<close>

text \<open>What a tick that goes through does, case by case.\<close>

lemma reporter_tick_cases [consumes 1, case_names dip quiet probed recorded]:
  assumes "reporter_tick cfg t s = Inr (s', x)"
  obtains "\<not> rcf_Wired cfg \<or> \<not> tk_ready t" "s' = arm s" "x = Idle"
  | "rcf_Wired cfg" "tk_ready t" "s' = notice_flags (tk_target t) (notice_relaunch cfg (tk_token t) s)"
    "is_done s'" "x = Idle"
  | s1 where "rcf_Wired cfg" "tk_ready t" "s1 = notice_flags (tk_target t) (notice_relaunch cfg (tk_token t) s)"
    "\<not> is_done s1" "s' = s1\<lparr>rep_attempts := rep_attempts s1 + 1\<rparr>" "x = Probed"
    "rep_attempts s1 + 1 < retryLimit"
  | s1 c where "rcf_Wired cfg" "tk_ready t" "s1 = notice_flags (tk_target t) (notice_relaunch cfg (tk_token t) s)"
    "\<not> is_done s1" "Probe (tk_env t) (tk_now t) (tk_target t) = Inr c" "x = Recorded c"
    "s' = s1\<lparr>rep_attempts := rep_attempts s1 + 1, rep_settled := measured c,
       rep_probed := ea_Raw (po_Args (tk_target t)), rep_probedMax := po_ConfiguredMax (tk_target t)\<rparr>"
    "measured c \<or> rep_attempts s1 + 1 \<ge> retryLimit"
proof -
  define s1 where "s1 = notice_flags (tk_target t) (notice_relaunch cfg (tk_token t) s)"
  note tick = assms [unfolded reporter_tick_def s1_def [symmetric] Let_def]
  consider "\<not> rcf_Wired cfg \<or> \<not> tk_ready t" | "rcf_Wired cfg" "tk_ready t" "is_done s1"
    | "rcf_Wired cfg" "tk_ready t" "\<not> is_done s1" by blast
  then show thesis
  proof cases
    case 1
    then show thesis using tick that(1) by simp
  next
    case 2
    then show thesis using tick that(2) by (simp add: s1_def)
  next
    case 3
    then obtain c where c: "Probe (tk_env t) (tk_now t) (tk_target t) = Inr c"
        "after_probe (tk_target t) c s1 = (s', x)"
      using tick by (auto split: sum.splits)
    have settled: "\<not> rep_settled s1" using 3(3) by (simp add: is_done_def)
    show thesis
    proof (cases "\<not> measured c \<and> rep_attempts s1 + 1 < retryLimit")
      case True
      then show thesis using c(2) that(3) [OF 3(1,2) s1_def 3(3)] by (simp add: after_probe_def)
    next
      case False
      then have lim: "measured c \<or> rep_attempts s1 + 1 \<ge> retryLimit" by linarith
      have "after_probe (tk_target t) c s1 =
          (s1\<lparr>rep_attempts := rep_attempts s1 + 1, rep_settled := measured c,
             rep_probed := ea_Raw (po_Args (tk_target t)),
             rep_probedMax := po_ConfiguredMax (tk_target t)\<rparr>, Recorded c)"
        using False settled unfolding after_probe_def Let_def by simp
      then show thesis using lim c that(4) [OF 3(1,2) s1_def 3(3) c(1)] by simp
    qed
  qed
qed

lemma notice_relaunch_same [simp]:
  "rep_probed (notice_relaunch cfg k s) = rep_probed s" "rep_probedMax (notice_relaunch cfg k s) = rep_probedMax s"
  "rep_attempts (notice_relaunch cfg k s) = rep_attempts s \<or> rep_attempts (notice_relaunch cfg k s) = 0"
  by (simp_all add: notice_relaunch_def arm_def)

text \<open>A quiet tick saw no new relaunch and the flags of the last reading, and changed nothing.\<close>

lemma quiet_tick:
  assumes "is_done (notice_flags target (notice_relaunch cfg token s))"
  shows "notice_flags target (notice_relaunch cfg token s) = s" "is_done s"
    "rcf_Restarted cfg \<Longrightarrow> token = [] \<or> token = rep_relaunch s"
    "ea_Raw (po_Args target) = rep_probed s" "po_ConfiguredMax target = rep_probedMax s"
  using assms
  by (auto simp: notice_flags_def notice_relaunch_def arm_def is_done_def retryLimit_def split: if_splits)

section \<open>How often the engine is asked\<close>

definition same_flags :: "probe_options \<Rightarrow> probe_options \<Rightarrow> bool" where
  "same_flags a b \<longleftrightarrow> ea_Raw (po_Args a) = ea_Raw (po_Args b) \<and> po_ConfiguredMax a = po_ConfiguredMax b"

definition probes :: "(tick \<times> tick_outcome) list \<Rightarrow> nat" where
  "probes log = length (filter (\<lambda>(t, x). x \<noteq> Idle) log)"

definition readings :: "(tick \<times> tick_outcome) list \<Rightarrow> nat" where
  "readings log = length (filter (\<lambda>(t, x). case x of Recorded c \<Rightarrow> True | _ \<Rightarrow> False) log)"

text \<open>Nothing happens to the engine: it stays ready, is not relaunched and keeps its flags.\<close>

definition undisturbed :: "reporter_config \<Rightarrow> string \<Rightarrow> probe_options \<Rightarrow> tick \<Rightarrow> bool" where
  "undisturbed cfg token target t \<longleftrightarrow> tk_ready t \<and> (tk_token t = [] \<or> tk_token t = token) \<and>
     same_flags (tk_target t) target"

definition asked_out :: "probe_options \<Rightarrow> reporter \<Rightarrow> bool" where
  "asked_out target s \<longleftrightarrow> is_done s \<and> ea_Raw (po_Args target) = rep_probed s \<and>
     po_ConfiguredMax target = rep_probedMax s"

text \<open>How many probes may still follow.\<close>

definition left :: "probe_options \<Rightarrow> reporter \<Rightarrow> int" where
  "left target s =
     (if asked_out target s then 0 else if is_done s then retryLimit else retryLimit - rep_attempts s)"

lemma undisturbed_tick:
  assumes "undisturbed cfg (rep_relaunch s) target t" "reporter_tick cfg t s = Inr (s', x)"
    and "rcf_Wired cfg" "0 \<le> rep_attempts s"
  shows "rep_relaunch s' = rep_relaunch s" "0 \<le> rep_attempts s'"
    "x = Idle \<Longrightarrow> asked_out target s \<and> s' = s"
    "x = Probed \<Longrightarrow> left target s' = left target s - 1 \<and> \<not> asked_out target s'"
    "x = Recorded c \<Longrightarrow> asked_out target s' \<and> 1 \<le> left target s"
    "asked_out target s \<Longrightarrow> x = Idle"
proof -
  have n: "notice_relaunch cfg (tk_token t) s = s" and r: "tk_ready t"
    and f: "ea_Raw (po_Args (tk_target t)) = ea_Raw (po_Args target)"
      "po_ConfiguredMax (tk_target t) = po_ConfiguredMax target"
    using assms(1) by (auto simp: undisturbed_def notice_relaunch_def same_flags_def)
  note defs = notice_flags_def n f arm_def is_done_def asked_out_def left_def retryLimit_def
  show "rep_relaunch s' = rep_relaunch s" "0 \<le> rep_attempts s'"
    "x = Idle \<Longrightarrow> asked_out target s \<and> s' = s"
    "x = Probed \<Longrightarrow> left target s' = left target s - 1 \<and> \<not> asked_out target s'"
    "x = Recorded c \<Longrightarrow> asked_out target s' \<and> 1 \<le> left target s"
    "asked_out target s \<Longrightarrow> x = Idle"
    using assms(2) r assms(3,4)
    by (cases rule: reporter_tick_cases; auto simp: defs split: if_splits)+
qed

lemma undisturbed_run:
  assumes "reporter_run cfg ts s = Inr (s', log)" "rcf_Wired cfg" "0 \<le> rep_attempts s"
    and "list_all (undisturbed cfg (rep_relaunch s) target) ts"
  shows "int (probes log) \<le> left target s \<and> readings log \<le> (if asked_out target s then 0 else 1) \<and>
    (left target s \<le> int (length ts) \<longrightarrow> asked_out target s')"
  using assms
proof (induction ts arbitrary: s log)
  case Nil
  then show ?case by (auto simp: probes_def readings_def left_def is_done_def retryLimit_def split: if_splits)
next
  case (Cons t ts)
  obtain s1 x log1 where 1: "reporter_tick cfg t s = Inr (s1, x)" "reporter_run cfg ts s1 = Inr (s', log1)"
      "log = (t, x) # log1"
    using Cons.prems(1) by (auto split: sum.splits)
  have u: "undisturbed cfg (rep_relaunch s) target t" using Cons.prems(4) by simp
  note step = undisturbed_tick [OF u 1(1) Cons.prems(2,3)]
  have IH: "int (probes log1) \<le> left target s1 \<and> readings log1 \<le> (if asked_out target s1 then 0 else 1) \<and>
      (left target s1 \<le> int (length ts) \<longrightarrow> asked_out target s')"
    using Cons.prems(2,4) step(1,2) by (intro Cons.IH [OF 1(2)]) simp_all
  show ?case
  proof (cases x)
    case Idle
    then show ?thesis using IH step(3) by (auto simp: 1(3) probes_def readings_def left_def)
  next
    case Probed
    then show ?thesis using IH step(4,6) by (auto simp: 1(3) probes_def readings_def)
  next
    case (Recorded c)
    have "left target s1 = 0" using step(5) [OF Recorded] by (simp add: left_def)
    then show ?thesis using IH step(5) [OF Recorded] step(6) Recorded
      by (auto simp: 1(3) probes_def readings_def)
  qed
qed

text \<open>C32: While the engine stays ready, is not relaunched and keeps its flags, the reporter probes it at
  most ten times and records at most one reading; after ten ticks it is done asking, with a reading
  that was taken under these flags.\<close>
theorem reading_costs_at_most_ten_probes:
  assumes "reporter_reach cfg token s past" "reporter_run cfg ts s = Inr (s', log)" "rcf_Wired cfg"
    and "list_all (undisturbed cfg (rep_relaunch s) target) ts"
  shows "int (probes log) \<le> retryLimit \<and> readings log \<le> 1 \<and>
    (retryLimit \<le> int (length ts) \<longrightarrow> asked_out target s')"
proof -
  have a: "0 \<le> rep_attempts s"
    using assms(1)
  proof (induction rule: reporter_reach.induct)
    case start
    then show ?case by (simp add: reporter_start_def)
  next
    case (tick s log t s' x)
    from tick(2,3) show ?case
      by (cases rule: reporter_tick_cases)
        (auto simp: arm_def notice_flags_def notice_relaunch_def split: if_splits)
  qed
  have "left target s \<le> retryLimit" using a by (simp add: left_def retryLimit_def)
  then show ?thesis using undisturbed_run [OF assms(2,3) a assms(4)] by (auto split: if_splits)
qed

section \<open>What a quiet tick says of the card\<close>

text \<open>The newest relaunch the loop has been told of.\<close>

definition known_token :: "string \<Rightarrow> tick list \<Rightarrow> string" where
  "known_token token ts =
     foldl (\<lambda>k t. if tk_ready t \<and> tk_token t \<noteq> [] then tk_token t else k) token ts"

lemma reach_relaunch:
  "reporter_reach cfg token s log \<Longrightarrow> rcf_Wired cfg \<Longrightarrow> rcf_Restarted cfg \<Longrightarrow>
   rep_relaunch s = known_token token (map fst log)"
proof (induction rule: reporter_reach.induct)
  case start
  then show ?case by (simp add: reporter_start_def known_token_def)
next
  case (tick s log t s' x)
  from tick(2) tick(3) [OF tick.prems] tick.prems show ?case
    by (cases rule: reporter_tick_cases)
      (auto simp: known_token_def arm_def notice_flags_def notice_relaunch_def split: if_splits)
qed

text \<open>The reading the state rests on.\<close>

definition rests_on ::
  "reporter_config \<Rightarrow> string \<Rightarrow> reporter \<Rightarrow> (tick \<times> tick_outcome) list \<Rightarrow> bool" where
  "rests_on cfg token s log \<longleftrightarrow> (\<exists>ys t c zs. log = ys @ (t, Recorded c) # zs \<and>
     ea_Raw (po_Args (tk_target t)) = rep_probed s \<and> po_ConfiguredMax (tk_target t) = rep_probedMax s \<and>
     (rcf_Restarted cfg \<longrightarrow> rep_relaunch s = known_token token (map fst ys @ [t])) \<and>
     list_all (\<lambda>(u, x). tk_ready u \<and> x = Idle \<and> same_flags (tk_target u) (tk_target t) \<and>
        (rcf_Restarted cfg \<longrightarrow> tk_token u = [] \<or> tk_token u = known_token token (map fst ys @ [t]))) zs)"

lemma done_rests_on_reading:
  "reporter_reach cfg token s log \<Longrightarrow> rcf_Wired cfg \<Longrightarrow> is_done s \<Longrightarrow> rests_on cfg token s log"
proof (induction rule: reporter_reach.induct)
  case start
  then show ?case by (simp add: reporter_start_def is_done_def retryLimit_def)
next
  case (tick s log t s' x)
  from tick(2) show ?case
  proof (cases rule: reporter_tick_cases)
    case dip
    then show ?thesis using tick.prems by (simp add: arm_def is_done_def retryLimit_def)
  next
    case quiet
    note q = quiet_tick [OF quiet(4) [unfolded quiet(3)]]
    have eq: "s' = s" using q(1) quiet(3) by simp
    obtain ys t0 c zs where r: "log = ys @ (t0, Recorded c) # zs"
      "ea_Raw (po_Args (tk_target t0)) = rep_probed s" "po_ConfiguredMax (tk_target t0) = rep_probedMax s"
      "rcf_Restarted cfg \<longrightarrow> rep_relaunch s = known_token token (map fst ys @ [t0])"
      "list_all (\<lambda>(u, x). tk_ready u \<and> x = Idle \<and> same_flags (tk_target u) (tk_target t0) \<and>
        (rcf_Restarted cfg \<longrightarrow> tk_token u = [] \<or> tk_token u = known_token token (map fst ys @ [t0]))) zs"
      using tick.IH [OF tick.prems(1) q(2)] unfolding rests_on_def by blast
    then show ?thesis unfolding rests_on_def eq using q quiet(2,5)
      by (intro exI [of _ ys] exI [of _ t0] exI [of _ c] exI [of _ "zs @ [(t, x)]"])
        (auto simp: same_flags_def)
  next
    case (probed s1)
    then show ?thesis using tick.prems by (simp add: is_done_def)
  next
    case (recorded s1 c)
    have "reporter_reach cfg token s' (log @ [(t, x)])" using tick.hyps by (rule reporter_reach.tick)
    note k = reach_relaunch [OF this tick.prems(1)]
    show ?thesis unfolding rests_on_def using k recorded
      by (intro exI [of _ log] exI [of _ t] exI [of _ c] exI [of _ "[]"]) simp
  qed
qed

text \<open>C35: A tick on which a ready engine is not asked has a reading behind it that was taken under the very
  flags now in force, and since then the engine has been ready on every tick and no relaunch was
  reported: the number on the card is that of the engine that is running.\<close>
theorem quiet_reporter_is_current:
  assumes "reporter_reach cfg token s (log @ [(t, Idle)])" "rcf_Wired cfg" "tk_ready t"
  shows "\<exists>ys t0 c zs. log = ys @ (t0, Recorded c) # zs \<and> same_flags (tk_target t0) (tk_target t) \<and>
     list_all (\<lambda>(u, x). tk_ready u \<and> x = Idle \<and> same_flags (tk_target u) (tk_target t0)) zs \<and>
     (rcf_Restarted cfg \<longrightarrow> list_all (\<lambda>u. tk_token u = [] \<or> tk_token u = known_token token (map fst ys @ [t0]))
        (map fst zs @ [t]))"
  using assms(1)
proof (rule reporter_reach_snocE)
  fix s0
  assume 1: "reporter_reach cfg token s0 log" "reporter_tick cfg t s0 = Inr (s, Idle)"
  from 1(2) show ?thesis
  proof (cases rule: reporter_tick_cases)
    case dip
    then show ?thesis using assms(2,3) by simp
  next
    case quiet
    note q = quiet_tick [OF quiet(4) [unfolded quiet(3)]]
    obtain ys t0 c zs where r: "log = ys @ (t0, Recorded c) # zs"
      "ea_Raw (po_Args (tk_target t0)) = rep_probed s0" "po_ConfiguredMax (tk_target t0) = rep_probedMax s0"
      "rcf_Restarted cfg \<longrightarrow> rep_relaunch s0 = known_token token (map fst ys @ [t0])"
      "list_all (\<lambda>(u, x). tk_ready u \<and> x = Idle \<and> same_flags (tk_target u) (tk_target t0) \<and>
        (rcf_Restarted cfg \<longrightarrow> tk_token u = [] \<or> tk_token u = known_token token (map fst ys @ [t0]))) zs"
      using done_rests_on_reading [OF 1(1) assms(2) q(2)] unfolding rests_on_def by blast
    then show ?thesis using q
      by (intro exI [of _ ys] exI [of _ t0] exI [of _ c] exI [of _ zs])
        (auto simp: same_flags_def list_all_iff)
  qed simp_all
qed

section \<open>When declared numbers are published\<close>

definition trailing_probes :: "(tick \<times> tick_outcome) list \<Rightarrow> nat" where
  "trailing_probes log = length (takeWhile (\<lambda>(t, x). x = Probed) (rev log))"

lemma trailing_probes_snoc:
  "trailing_probes (log @ [(t, x)]) = (if x = Probed then Suc (trailing_probes log) else 0)"
  by (simp add: trailing_probes_def)

lemma trailing_all:
  assumes "n \<le> trailing_probes log"
  shows "n \<le> length log \<and> list_all (\<lambda>(t, x). x = Probed) (drop (length log - n) log)"
proof -
  let ?P = "\<lambda>(t, x). x = Probed"
  have len: "n \<le> length log"
    using assms length_takeWhile_le [of ?P "rev log"] by (simp add: trailing_probes_def)
  have "take n (rev log) = take n (takeWhile ?P (rev log))"
    using assms by (metis append_take_drop_id takeWhile_eq_take take_take min.absorb1 trailing_probes_def)
  then have "list_all ?P (take n (rev log))"
    by (auto simp: list_all_iff dest!: in_set_takeD dest: set_takeWhileD)
  then have "list_all ?P (rev (drop (length log - n) log))" by (simp add: take_rev)
  then show ?thesis using len by simp
qed

lemma attempts_are_probes:
  "reporter_reach cfg token s log \<Longrightarrow> is_done s \<or> rep_attempts s \<le> int (trailing_probes log)"
proof (induction rule: reporter_reach.induct)
  case start
  then show ?case by (simp add: reporter_start_def)
next
  case (tick s log t s' x)
  have low: "rep_attempts (notice_flags (tk_target t) (notice_relaunch cfg (tk_token t) s)) \<le> int (trailing_probes log)"
    if "\<not> is_done (notice_flags (tk_target t) (notice_relaunch cfg (tk_token t) s))"
    using that tick.IH by (auto simp: notice_flags_def notice_relaunch_def arm_def split: if_splits)
  from tick(2) show ?case
  proof (cases rule: reporter_tick_cases)
    case (recorded s1 c)
    then show ?thesis by (auto simp: is_done_def)
  qed (auto simp: arm_def trailing_probes_snoc dest: low)
qed

text \<open>C34: Numbers nothing has measured reach the card only after nine probes in a row without an answer,
  with no dip, relaunch or answer between them: the reading that publishes them is the tenth attempt.\<close>
theorem declared_numbers_wait:
  assumes "reporter_reach cfg token s (log @ [(t, Recorded c)])" "\<not> measured c"
  shows "9 \<le> length log \<and> list_all (\<lambda>(u, x). x = Probed) (drop (length log - 9) log)"
  using assms(1)
proof (rule reporter_reach_snocE)
  fix s0
  assume 1: "reporter_reach cfg token s0 log" "reporter_tick cfg t s0 = Inr (s, Recorded c)"
  from 1(2) show ?thesis
  proof (cases rule: reporter_tick_cases)
    case (recorded s1 c')
    have "9 \<le> rep_attempts s1" using recorded(6,8) assms(2) by (auto simp: retryLimit_def)
    moreover have "rep_attempts s1 \<le> int (trailing_probes log)"
      using recorded(3,4) attempts_are_probes [OF 1(1)]
      by (auto simp: notice_flags_def notice_relaunch_def arm_def split: if_splits)
    ultimately show ?thesis by (intro trailing_all) simp
  qed simp_all
qed

section \<open>What a capacity says of itself\<close>

definition measured_sources :: "string list" where
  "measured_sources = [SourceEngineCapacity, SourceLlamacppProps, SourceSGLangServerInfo,
     SourceSGLangGetSrvInfo, SourceOllamaPS, SourceVLLMMetrics]"

definition answered_or_silent :: "reported \<Rightarrow> bool" where
  "answered_or_silent r \<longleftrightarrow> r = no_report \<or> rp_source r \<in> set measured_sources"

lemma probes_answer:
  "answered_or_silent (fst (probeSiblingCapacity E base))"
  "probeLlamacpp E base args = Inr q \<Longrightarrow> answered_or_silent (fst q)"
  "answered_or_silent (fst (probeSGLang E base))"
  "ollama_answer x args = Inr q \<Longrightarrow> answered_or_silent (fst q)"
  "answered_or_silent (fst (vllm_pool b k))"
  by (auto simp: probeSiblingCapacity_def answered_or_silent_def measured_sources_def split: sum.splits;
      fail | auto simp: probeLlamacpp_def answered_or_silent_def measured_sources_def Let_def split: sum.splits;
      fail | auto simp: probeSGLang_def sglang_report_def answered_or_silent_def measured_sources_def Let_def
        split: sum.splits prod.splits get_error.splits;
      fail | auto simp: ollama_answer_def answered_or_silent_def measured_sources_def Let_def split: sum.splits;
      fail | auto simp: vllm_pool_def vllm_unusable_def answered_or_silent_def measured_sources_def
        split: option.splits)+

lemma probes_answer2:
  "probeOllama E base model args = Inr q \<Longrightarrow> answered_or_silent (fst q)"
  "answered_or_silent (fst (probeVLLM E base))"
proof -
  have n: "answered_or_silent no_report" by (simp add: answered_or_silent_def)
  show "probeOllama E base model args = Inr q \<Longrightarrow> answered_or_silent (fst q)"
    by (auto simp: probeOllama_def n dest: probes_answer(4) split: sum.splits list.splits option.splits if_splits)
  show "answered_or_silent (fst (probeVLLM E base))"
    by (auto simp: probeVLLM_def n probes_answer(5) split: sum.splits prod.splits)
qed

lemma probeEngine_answers:
  assumes "probeEngine E opts = Inr (got, ws)"
  shows "answered_or_silent got"
proof -
  have silent: "answered_or_silent no_report" by (simp add: answered_or_silent_def)
  have pairs: "probeSGLang E b = (got, ws) \<Longrightarrow> answered_or_silent got"
    "probeVLLM E b = (got, ws) \<Longrightarrow> answered_or_silent got"
    "probeSiblingCapacity E b = (got, ws) \<Longrightarrow> answered_or_silent got" for b
    using probes_answer(1,3) [of E b] probes_answer2(2) [of E b] by simp_all
  note monadic = probes_answer(2) [where q = "(got, ws)", simplified] probes_answer2(1) [where q = "(got, ws)", simplified]
  show ?thesis
  proof (cases "po_EngineURL opts = []")
    case True
    then show ?thesis using assms silent by (simp add: probeEngine_def)
  next
    case False
    then show ?thesis using assms
      by (cases "po_Kind opts") (auto simp: probeEngine_def silent intro: pairs monadic)
  qed
qed

definition cap_numbers :: "capacity \<Rightarrow> (string \<times> int) list" where
  "cap_numbers c = [(FieldContextSize, cap_ContextSize c), (FieldMaxConcurrency, cap_MaxConcurrency c),
     (FieldPoolTokens, cap_PoolTokens c)]"

definition fell :: "string \<Rightarrow> int \<Rightarrow> int \<Rightarrow> string list" where
  "fell field got declared = (if got > 0 \<or> declared \<le> 0 then [] else [field])"

definition chosen :: "int \<Rightarrow> int \<Rightarrow> int" where
  "chosen got declared = (if got > 0 then got else positive declared)"

lemma pick_chosen: "pick got declared field from = (chosen got declared, from @ fell field got declared)"
  by (simp add: pick_def chosen_def fell_def positive_def)

lemma pick_width_chosen:
  "pick_width kind got declared from =
     (chosen got declared, from @ (if isLLMEngine kind then fell FieldMaxConcurrency got declared else []))"
  by (simp add: pick_width_def pick_chosen chosen_def positive_def)

lemma combine_parts:
  "cap_ContextSize (combine opts now d got ws) = chosen (rp_contextSize got) (rp_contextSize d)"
  "cap_MaxConcurrency (combine opts now d got ws) = chosen (rp_maxConcurrency got) (rp_maxConcurrency d)"
  "cap_PoolTokens (combine opts now d got ws) = chosen (rp_poolTokens got) (rp_poolTokens d)"
  "cap_FromArgs (combine opts now d got ws) =
     fell FieldContextSize (rp_contextSize got) (rp_contextSize d) @
     (if isLLMEngine (po_Kind opts) then fell FieldMaxConcurrency (rp_maxConcurrency got) (rp_maxConcurrency d) else []) @
     fell FieldPoolTokens (rp_poolTokens got) (rp_poolTokens d)"
  "cap_Source (combine opts now d got ws) = probe_source opts got"
  by (simp_all add: combine_def pick_chosen pick_width_chosen)

lemma fell_set: "k \<in> set (fell f got d) \<longleftrightarrow> k = f \<and> got \<le> 0 \<and> 0 < d"
  by (auto simp: fell_def)

lemma field_names: "FieldContextSize \<noteq> FieldMaxConcurrency" "FieldContextSize \<noteq> FieldPoolTokens"
  "FieldMaxConcurrency \<noteq> FieldPoolTokens"
  by (simp_all add: field_defs)

text \<open>Where the number of a field comes from: from what the engine said of the field when that is positive,
  else from the declaration \<open>d\<close>. A declared number is named in \<open>from_args\<close>, except the configured width
  of an engine that is no language model, which no flag declares.\<close>

definition number_of :: "reported \<Rightarrow> string \<Rightarrow> int" where
  "number_of r k =
     (if k = FieldContextSize then rp_contextSize r
      else if k = FieldMaxConcurrency then rp_maxConcurrency r else rp_poolTokens r)"

definition honest :: "probe_options \<Rightarrow> reported \<Rightarrow> reported \<Rightarrow> capacity \<Rightarrow> string \<times> int \<Rightarrow> bool" where
  "honest opts got d c kn \<longleftrightarrow>
     (case kn of (k, n) \<Rightarrow>
        0 \<le> n \<and>
        (if 0 < number_of got k then n = number_of got k \<and> k \<notin> set (cap_FromArgs c)
         else n = max 0 (number_of d k) \<and>
           (k \<in> set (cap_FromArgs c) \<longleftrightarrow> 0 < n \<and> (isLLMEngine (po_Kind opts) \<or> k \<noteq> FieldMaxConcurrency))))"

lemma combine_honest:
  "list_all (honest opts got d (combine opts now d got ws)) (cap_numbers (combine opts now d got ws))"
  using field_names
  by (simp add: cap_numbers_def honest_def number_of_def combine_parts chosen_def positive_def fell_set)

lemma measured_iff_answered:
  assumes "answered_or_silent got"
  shows "measured (combine opts now d got ws) \<longleftrightarrow> got \<noteq> no_report"
proof (cases "got = no_report")
  case True
  then show ?thesis by (auto simp: measured_def combine_parts probe_source_def no_report_def)
next
  case False
  then have "rp_source got \<in> set measured_sources" using assms by (simp add: answered_or_silent_def)
  then have "rp_source got \<noteq> []" "rp_source got \<noteq> SourceEngineArgs" "rp_source got \<noteq> SourceEngineConfig"
    by (auto simp: measured_sources_def source_defs)
  then show ?thesis using False by (simp add: measured_def combine_parts probe_source_def)
qed

text \<open>C38: Every number of a capacity is honest about where it comes from, whatever the engine answers and
  whatever the source of the whole: a number the engine gave (a positive one) is taken as it is and not
  named as declared; any other is the declared one, or zero where nothing positive is declared, and is
  named in \<open>from_args\<close> exactly when it is positive, save for the configured width of an engine that is no
  language model, which is never named. No number is negative, and a capacity counts as measured exactly
  when the engine answered.\<close>
theorem capacity_is_honest:
  assumes "Probe E now opts = Inr c"
  shows "\<exists>d got ws. declaredCapacity (po_Kind opts) (po_Args opts) = Inr d \<and> probeEngine E opts = Inr (got, ws) \<and>
    list_all (honest opts got (seeded opts d) c) (cap_numbers c) \<and> (measured c \<longleftrightarrow> got \<noteq> no_report)"
proof -
  obtain d got ws where p: "declaredCapacity (po_Kind opts) (po_Args opts) = Inr d"
      "probeEngine E opts = Inr (got, ws)" "c = combine opts now (seeded opts d) got ws"
    using assms by (auto simp: Probe_def split: sum.splits)
  show ?thesis
    using combine_honest measured_iff_answered [OF probeEngine_answers [OF p(2)]] p by blast
qed

section \<open>Reading a recorded capacity back\<close>

text \<open>A capacity the code can hold: 64-bit numbers. The two sides of the text of a time belong together,
  and the time is set.\<close>

definition storable :: "capacity \<Rightarrow> bool" where
  "storable c \<longleftrightarrow> in_int64 (cap_ContextSize c) \<and> in_int64 (cap_MaxConcurrency c) \<and>
     in_int64 (cap_PoolTokens c) \<and> cap_Source c \<noteq> [] \<and> cap_ReportedAt c \<noteq> None"

lemma stores_instant: "parse t = Some x \<Longrightarrow> stores (store_instant parse) cur (JStr t) x"
  by (auto simp: stores_def proper_plain store_instant_def)

lemma capacity_stores:
  assumes "storable c" "parse (fmt (cap_ReportedAt c)) = Some (cap_ReportedAt c)"
  shows "stores (store_capacity parse) zero_capacity (capacity_value fmt c) c"
proof -
  let ?tbl = "[(''context_size'', on cap_ContextSize (\<lambda>v c. c\<lparr>cap_ContextSize := v\<rparr>) store_int),
      (''max_concurrency'', on cap_MaxConcurrency (\<lambda>v c. c\<lparr>cap_MaxConcurrency := v\<rparr>) store_int),
      (''pool_tokens'', on cap_PoolTokens (\<lambda>v c. c\<lparr>cap_PoolTokens := v\<rparr>) store_int),
      (''source'', on cap_Source (\<lambda>v c. c\<lparr>cap_Source := v\<rparr>) store_string),
      (''reported_at'', on cap_ReportedAt (\<lambda>v c. c\<lparr>cap_ReportedAt := v\<rparr>) (store_instant parse)),
      (''from_args'', on cap_FromArgs (\<lambda>v c. c\<lparr>cap_FromArgs := v\<rparr>) (store_slice [] store_string)),
      (''warnings'', on cap_Warnings (\<lambda>v c. c\<lparr>cap_Warnings := v\<rparr>) (store_slice [] store_string))]"
  let ?c1 = "zero_capacity\<lparr>cap_ContextSize := cap_ContextSize c\<rparr>"
  let ?c2 = "?c1\<lparr>cap_MaxConcurrency := cap_MaxConcurrency c\<rparr>"
  let ?c3 = "?c2\<lparr>cap_PoolTokens := cap_PoolTokens c\<rparr>"
  let ?c4 = "?c3\<lparr>cap_Source := cap_Source c\<rparr>"
  let ?c5 = "?c4\<lparr>cap_ReportedAt := cap_ReportedAt c\<rparr>"
  let ?c6 = "?c5\<lparr>cap_FromArgs := cap_FromArgs c\<rparr>"
  let ?c7 = "?c6\<lparr>cap_Warnings := cap_Warnings c\<rparr>"
  note storable = assms(1) [unfolded storable_def]
  have 1: "members_store ?tbl zero_capacity (opt_int ''context_size'' (cap_ContextSize c)) ?c1"
    by (rule members_opt_int) (simp_all add: field_of_def storable zero_capacity_def)
  have 2: "members_store ?tbl ?c1 (opt_int ''max_concurrency'' (cap_MaxConcurrency c)) ?c2"
    by (rule members_opt_int) (simp_all add: field_of_def storable zero_capacity_def)
  have 3: "members_store ?tbl ?c2 (opt_int ''pool_tokens'' (cap_PoolTokens c)) ?c3"
    by (rule members_opt_int) (simp_all add: field_of_def storable zero_capacity_def)
  have 4: "members_store ?tbl ?c3 [(''source'', JStr (cap_Source c))] ?c4"
    by (rule members_one [OF _ stores_on [OF stores_scalar(1)]]) (simp add: field_of_def)
  have 5: "members_store ?tbl ?c4 [(''reported_at'', JStr (fmt (cap_ReportedAt c)))] ?c5"
    by (rule members_one [OF _ stores_on [OF stores_instant [where parse = parse]]])
      (simp_all add: field_of_def assms(2))
  have 6: "members_store ?tbl ?c5 (opt_strings ''from_args'' (cap_FromArgs c)) ?c6"
    by (rule members_opt_strings [where get = cap_FromArgs]) (simp_all add: field_of_def zero_capacity_def)
  have 7: "members_store ?tbl ?c6 (opt_strings ''warnings'' (cap_Warnings c)) ?c7"
    by (rule members_opt_strings [where get = cap_Warnings]) (simp_all add: field_of_def zero_capacity_def)
  have whole: "?c7 = c" by simp
  have "stores (store_struct ?tbl) zero_capacity (JObj (opt_int ''context_size'' (cap_ContextSize c) @
      opt_int ''max_concurrency'' (cap_MaxConcurrency c) @ opt_int ''pool_tokens'' (cap_PoolTokens c) @
      [(''source'', JStr (cap_Source c))] @ [(''reported_at'', JStr (fmt (cap_ReportedAt c)))] @
      opt_strings ''from_args'' (cap_FromArgs c) @ opt_strings ''warnings'' (cap_Warnings c))) ?c7"
    by (intro stores_struct members_append [OF 1] members_append [OF 2] members_append [OF 3]
        members_append [OF 4] members_append [OF 5] members_append [OF 6] 7)
  then show ?thesis unfolding whole store_capacity_def capacity_value_def by (simp only: append.simps)
qed

lemma numbers_ok_Cons: "numbers_ok (JObj (p # gs)) \<longleftrightarrow> numbers_ok (snd p) \<and> numbers_ok (JObj gs)"
  by (cases p) (simp add: numbers_ok_simps)

lemma capacity_value_ok:
  "numbers_ok (capacity_value fmt c)" "depth (capacity_value fmt c) \<le> 2"
proof -
  show "numbers_ok (capacity_value fmt c)"
    unfolding capacity_value_def
    by (simp only: numbers_ok_opt numbers_ok_Cons append.simps snd_conv numbers_ok_simps(6) simp_thms)
  show "depth (capacity_value fmt c) \<le> 2"
    unfolding capacity_value_def numeral_2_eq_2 depth_bounds by (auto dest!: depth_opt)
qed

text \<open>A card whose extensions hold the block as it was marshalled.\<close>

lemma FromExtensions_value:
  assumes "map_of ext ExtensionKey = Some (capacity_value fmt c)" "storable c"
    and "parse (fmt (cap_ReportedAt c)) = Some (cap_ReportedAt c)"
  shows "FromExtensions parse ext = Some c"
proof -
  have "json_parse (json_encode (capacity_value fmt c)) = Some (capacity_value fmt c)"
    using capacity_value_ok [of fmt c] by (intro json_parse_encode) (simp_all add: maxNestingDepth_def)
  then have "unmarshal zero_capacity (store_capacity parse) (json_encode (capacity_value fmt c)) = Some c"
    by (rule unmarshal_stores) (rule capacity_stores, fact+)
  then show ?thesis using assms(1,2) by (simp add: FromExtensions_def storable_def)
qed

section \<open>A run\<close>

lemma run_reaches:
  "reporter_run cfg ts s = Inr (s', log) \<Longrightarrow> reporter_reach cfg token s past \<Longrightarrow>
   reporter_reach cfg token s' (past @ log)"
proof (induction ts arbitrary: s past log)
  case (Cons t ts)
  obtain s1 x log1 where 1: "reporter_tick cfg t s = Inr (s1, x)" "reporter_run cfg ts s1 = Inr (s', log1)"
      "log = (t, x) # log1"
    using Cons.prems(1) by (auto split: sum.splits)
  then show ?case using Cons.IH [OF 1(2) reporter_reach.tick [OF Cons.prems(2) 1(1)]] by simp
qed simp

text \<open>A vLLM engine whose metrics never answer, launched with a width.\<close>

definition ex_capacity_env :: probe_env where
  "ex_capacity_env = \<lparr>pe_http = (\<lambda>u. HttpNoReply ''refused''), pe_json_error = (\<lambda>b. []), pe_quote = (\<lambda>s. s),
     pe_families = (\<lambda>b. Inl []), pe_float_int = atoi\<rparr>"

definition ex_target :: probe_options where
  "ex_target = \<lparr>po_Kind = EngineVLLM,
     po_Args = \<lparr>ea_Raw = ''--max-num-seqs 8'', ea_Known = [''max_num_seqs'' \<mapsto> ''8''], ea_Unknown = []\<rparr>,
     po_EngineURL = ''http://engine'', po_ConfiguredMax = 0, po_Model = ''m''\<rparr>"

definition ex_tick :: tick where
  "ex_tick = \<lparr>tk_ready = True, tk_token = [], tk_target = ex_target, tk_env = ex_capacity_env, tk_now = Some 1\<rparr>"

definition ex_reading :: capacity where
  "ex_reading = \<lparr>cap_ContextSize = 0, cap_MaxConcurrency = 8, cap_PoolTokens = 0,
     cap_Source = SourceEngineArgs, cap_ReportedAt = Some 1, cap_FromArgs = [FieldMaxConcurrency],
     cap_Warnings = [''vllm: GET /metrics: refused; capacity falls back to engine_args'']\<rparr>"

definition wired :: reporter_config where
  "wired = \<lparr>rcf_Wired = True, rcf_Restarted = True\<rparr>"

lemma ex_probe: "Probe (tk_env ex_tick) (tk_now ex_tick) (tk_target ex_tick) = Inr ex_reading"
  by code_simp

definition ex_asked :: "int \<Rightarrow> reporter" where
  "ex_asked n = \<lparr>rep_attempts = n, rep_settled = False, rep_probed = [], rep_probedMax = 0, rep_relaunch = []\<rparr>"

definition ex_settled :: reporter where
  "ex_settled = (ex_asked 10)\<lparr>rep_probed := ''--max-num-seqs 8''\<rparr>"

lemma ex_steps:
  "0 \<le> n \<Longrightarrow> n < 9 \<Longrightarrow> reporter_tick wired ex_tick (ex_asked n) = Inr (ex_asked (n + 1), Probed)"
  "reporter_tick wired ex_tick (ex_asked 9) = Inr (ex_settled, Recorded ex_reading)"
  "reporter_tick wired ex_tick ex_settled = Inr (ex_settled, Idle)"
proof -
  have m: "\<not> measured ex_reading" by (simp add: measured_def ex_reading_def)
  have f: "tk_ready ex_tick" "tk_token ex_tick = []" "ea_Raw (po_Args (tk_target ex_tick)) = ''--max-num-seqs 8''"
    "po_ConfiguredMax (tk_target ex_tick) = 0" by (simp_all add: ex_tick_def ex_target_def)
  note defs = reporter_tick_def ex_probe m f Let_def notice_relaunch_def notice_flags_def is_done_def retryLimit_def
    after_probe_def ex_asked_def ex_settled_def wired_def
  show "0 \<le> n \<Longrightarrow> n < 9 \<Longrightarrow> reporter_tick wired ex_tick (ex_asked n) = Inr (ex_asked (n + 1), Probed)"
    "reporter_tick wired ex_tick (ex_asked 9) = Inr (ex_settled, Recorded ex_reading)"
    "reporter_tick wired ex_tick ex_settled = Inr (ex_settled, Idle)"
    by (simp_all add: defs)
qed

definition ex_past :: "(tick \<times> tick_outcome) list" where
  "ex_past = [(ex_tick, Probed), (ex_tick, Probed), (ex_tick, Probed), (ex_tick, Probed), (ex_tick, Probed),
     (ex_tick, Probed), (ex_tick, Probed), (ex_tick, Probed), (ex_tick, Probed)]"

lemma ex_run:
  "reporter_run wired (replicate 10 ex_tick) (ex_asked 0) = Inr (ex_settled, ex_past @ [(ex_tick, Recorded ex_reading)])"
  by (simp add: eval_nat_numeral ex_steps ex_past_def)

lemma ex_start: "reporter_start wired [] = ex_asked 0"
  by (simp add: reporter_start_def ex_asked_def)

lemma ex_reach: "reporter_reach wired [] (ex_asked 0) []"
  using reporter_reach.start [of wired "[]"] by (simp add: ex_start)

lemma ex_reach10: "reporter_reach wired [] ex_settled (ex_past @ [(ex_tick, Recorded ex_reading)])"
  using run_reaches [OF ex_run ex_reach] by simp

theorem reading_costs_at_most_ten_probes_witness:
  "int (probes (ex_past @ [(ex_tick, Recorded ex_reading)])) \<le> retryLimit \<and>
   readings (ex_past @ [(ex_tick, Recorded ex_reading)]) \<le> 1 \<and>
   asked_out ex_target ex_settled"
proof -
  have "list_all (undisturbed wired (rep_relaunch (ex_asked 0)) ex_target) (replicate 10 ex_tick)"
    by (simp add: list_all_iff undisturbed_def same_flags_def ex_tick_def)
  then show ?thesis
    using reading_costs_at_most_ten_probes [OF ex_reach ex_run, of ex_target] by (simp add: wired_def retryLimit_def)
qed

theorem declared_numbers_wait_witness:
  "9 \<le> length ex_past \<and> list_all (\<lambda>(u, x). x = Probed) (drop (length ex_past - 9) ex_past)"
  by (rule declared_numbers_wait [OF ex_reach10]) (simp add: measured_def ex_reading_def)

theorem quiet_reporter_is_current_witness:
  "\<exists>ys t0 c zs. ex_past @ [(ex_tick, Recorded ex_reading)] = ys @ (t0, Recorded c) # zs \<and>
     same_flags (tk_target t0) (tk_target ex_tick)"
proof -
  have "reporter_reach wired [] ex_settled ((ex_past @ [(ex_tick, Recorded ex_reading)]) @ [(ex_tick, Idle)])"
    by (rule reporter_reach.tick [OF ex_reach10 ex_steps(3)])
  from quiet_reporter_is_current [OF this] show ?thesis by (auto simp: wired_def ex_tick_def)
qed

theorem capacity_is_honest_witness:
  "\<exists>d got. list_all (honest (tk_target ex_tick) got (seeded (tk_target ex_tick) d) ex_reading) (cap_numbers ex_reading) \<and>
     (measured ex_reading \<longleftrightarrow> got \<noteq> no_report)"
  using capacity_is_honest [OF ex_probe] by blast

end
