(* ===== verification/ModelCard.thy ===== *)
theory ModelCard
  imports Complex_Main "HOL-Library.Multiset" JsonStream KvDerive Handoff Reasoning Regex Capacity
begin

text \<open>
  The model card: \<open>internal/config/modelspec.go\<close> with the reasoning ladder of \<open>config_load_model.go\<close>. The
  card's data and its JSON text, its validation, its file, the normalisation against the engine, and
  the reconciliation at boot. A Go map is an association list with distinct keys; it is written in
  the order of its keys, as \<open>Marshal\<close> does. A float64 is the literal \<open>Marshal\<close> writes for it:
  \<open>card_env\<close> holds the reading of a literal as a float64 and its exact value. Logs are left out.
\<close>

section \<open>Data\<close>

text \<open>In a rule, \<open>pr_Default\<close> is \<open>JNull\<close> when absent.\<close>

record parameter_rule =
  pr_Name :: string
  pr_UseTemplate :: string
  pr_Label :: "(string \<times> string) list"
  pr_Help :: "(string \<times> string) list"
  pr_Type :: string
  pr_Required :: bool
  pr_Default :: json
  pr_Min :: "string option"
  pr_Max :: "string option"
  pr_Precision :: int
  pr_Options :: "string list"

record model_spec =
  sp_Name :: string
  sp_Mode :: string
  sp_Label :: "(string \<times> string) list"
  sp_Description :: "(string \<times> string) list"
  sp_Supports :: "(string \<times> bool) list"
  sp_Pricing :: "(string \<times> string) list"
  sp_ParameterRules :: "parameter_rule list"
  sp_ContextSize :: int
  sp_MaxOutputToks :: int
  sp_EngineArgs :: string
  sp_Extensions :: "(string \<times> json) list"

definition zero_rule :: parameter_rule where
  "zero_rule = \<lparr>pr_Name = [], pr_UseTemplate = [], pr_Label = [], pr_Help = [], pr_Type = [],
     pr_Required = False, pr_Default = JNull, pr_Min = None, pr_Max = None, pr_Precision = 0, pr_Options = []\<rparr>"

definition zero_spec :: model_spec where
  "zero_spec = \<lparr>sp_Name = [], sp_Mode = [], sp_Label = [], sp_Description = [], sp_Supports = [],
     sp_Pricing = [], sp_ParameterRules = [], sp_ContextSize = 0, sp_MaxOutputToks = 0,
     sp_EngineArgs = [], sp_Extensions = []\<rparr>"

record card_env =
  ce_float :: "string \<Rightarrow> string option"
  ce_value :: "string \<Rightarrow> rat"

definition allSupports :: "string list" where
  "allSupports =
     [''supports_vision'', ''supports_function_calling'', ''supports_parallel_function_calling'',
      ''supports_native_streaming'', ''supports_response_schema'', ''supports_reasoning'',
      ''supports_prompt_caching'', ''supports_web_search'',
      ''supports_audio_input'', ''supports_audio_output'', ''supports_video_input'',
      ''supports_pdf_input'', ''supports_computer_use'', ''supports_url_context'',
      ''supports_reasoning_effort'', ''supports_assistant_prefill'', ''supports_tool_choice'',
      ''supports_tokenizer'',
      ''supports_system_messages'', ''supports_temperature'', ''supports_top_p'', ''supports_top_k'',
      ''supports_stop_sequences'', ''supports_frequency_penalty'', ''supports_presence_penalty'',
      ''supports_n'', ''supports_logprobs'', ''supports_seed'', ''supports_response_format'',
      ''supports_logit_bias'', ''supports_user'',
      ''supports_embedding_image_input'', ''supports_embedding_audio_input'',
      ''supports_embedding_video_input'', ''supports_embedding_interleaved_input'',
      ''supports_embedding_async'']"

definition allAudioSupports :: "string list" where
  "allAudioSupports =
     [''supports_stt'', ''supports_stt_stream'', ''supports_align'',
      ''supports_diar'', ''supports_diar_stream'', ''supports_speaker_embed'',
      ''supports_vad'', ''supports_enhance'',
      ''supports_tts'', ''supports_tts_clone'', ''supports_tts_design'', ''supports_tts_custom'',
      ''supports_tts_dialogue'',
      ''supports_audio_llm'', ''supports_audio_s2s'', ''supports_sound_fx'']"

definition knownSupports :: "string list" where
  "knownSupports = allSupports @ allAudioSupports"

definition supportsReasoningKey :: string where "supportsReasoningKey = ''supports_reasoning''"
definition ParamRuleTypeString :: string where "ParamRuleTypeString = ''string''"

definition allowedParameterRuleTypes :: "string list" where
  "allowedParameterRuleTypes = [''int'', ''float'', ParamRuleTypeString, ''boolean'', ''tag'']"

text \<open>\<open>^-?\d+(\.\d+)?$\<close>: the search is anchored at both ends.\<close>

definition pricingDecimalRE :: rx where
  "pricingDecimalRE = rx_seq
     [rx_opt (RSet (\<lambda>c. c = CHR ''-'')), rx_many1 is_digit,
      rx_opt (rx_seq [RSet (\<lambda>c. c = CHR ''.''), rx_many1 is_digit])]"

definition matches_whole :: "rx \<Rightarrow> string \<Rightarrow> bool" where
  "matches_whole r s \<longleftrightarrow> list_ex (\<lambda>(q, t, gs). t = []) (rx_run r (None, s, []))"

section \<open>Validation\<close>

datatype card_error =
    ModeRequired | ModeUnknown string | ContextSizeNegative int | MaxOutputNegative int
  | PricingNotDecimal string string
  | RuleNameRequired nat | RuleTypeRequired nat | RuleTypeUnknown nat string
  | TTSNotObject string | TTSSpeedMissing string | TTSSpeedNotPositive string | TTSSpeedOrder
  | SystemOneContext | SystemOneMissing string | SystemOneNotObject | SystemOneNotBool
  | SystemOneLimit string int int | SystemOneLanguageType | SystemOneNoLanguages
  | SystemOneLanguageEmpty string | SystemOneLanguageSpace string | SystemOneLanguageTwice string

definition modelSpecNumber :: "card_env \<Rightarrow> json \<Rightarrow> rat option" where
  "modelSpecNumber ce v = (case v of JNum l \<Rightarrow> Some (ce_value ce l) | _ \<Rightarrow> None)"

text \<open>A result is the error, if any.\<close>

definition speed_values :: "card_env \<Rightarrow> (string \<times> json) list \<Rightarrow> string list \<Rightarrow> card_error + rat list" where
  "speed_values ce speed keys =
     foldl (\<lambda>acc key.
        case acc of
          Inl e \<Rightarrow> Inl e
        | Inr vs \<Rightarrow>
            (case map_of speed key of
               None \<Rightarrow> Inl (TTSSpeedMissing key)
             | Some v \<Rightarrow>
                 (case modelSpecNumber ce v of
                    None \<Rightarrow> Inl (TTSSpeedNotPositive key)
                  | Some n \<Rightarrow> if n \<le> 0 then Inl (TTSSpeedNotPositive key) else Inr (vs @ [n]))))
       (Inr []) keys"

definition speed_error :: "card_env \<Rightarrow> (string \<times> json) list \<Rightarrow> card_error option" where
  "speed_error ce speed =
     (case speed_values ce speed [''min'', ''default'', ''max''] of
        Inl e \<Rightarrow> Some e
      | Inr vs \<Rightarrow> if vs ! 0 > vs ! 1 \<or> vs ! 1 > vs ! 2 then Some TTSSpeedOrder else None)"

definition validateTTSSpeedExtension :: "card_env \<Rightarrow> (string \<times> json) list \<Rightarrow> card_error option" where
  "validateTTSSpeedExtension ce ext =
     (case map_of ext ''tts'' of
        None \<Rightarrow> None
      | Some (JObj tts) \<Rightarrow>
          (case map_of tts ''voice_settings'' of
             None \<Rightarrow> None
           | Some (JObj settings) \<Rightarrow>
               (case map_of settings ''speed'' of
                  None \<Rightarrow> None
                | Some (JObj speed) \<Rightarrow> speed_error ce speed
                | Some _ \<Rightarrow> Some (TTSNotObject ''voice_settings.speed''))
           | Some _ \<Rightarrow> Some (TTSNotObject ''voice_settings''))
      | Some _ \<Rightarrow> Some (TTSNotObject []))"

definition systemOneLimits :: "(string \<times> int \<times> int) list" where
  "systemOneLimits = [(''max_choice_options'', 2, 255), (''max_score_levels'', 2, 10)]"

definition limit_error :: "card_env \<Rightarrow> (string \<times> json) list \<Rightarrow> string \<times> int \<times> int \<Rightarrow> card_error option" where
  "limit_error ce ext bound =
     (case bound of (key, lo, hi) \<Rightarrow>
        (case map_of ext key of
           None \<Rightarrow> Some (SystemOneMissing key)
         | Some v \<Rightarrow>
             (case modelSpecNumber ce v of
                None \<Rightarrow> Some (SystemOneLimit key lo hi)
              | Some n \<Rightarrow>
                  if of_int \<lfloor>n\<rfloor> \<noteq> n \<or> n < of_int lo \<or> n > of_int hi
                  then Some (SystemOneLimit key lo hi) else None)))"

fun first_error :: "'e option list \<Rightarrow> 'e option" where
  "first_error [] = None"
| "first_error (Some e # es) = Some e"
| "first_error (None # es) = first_error es"

definition validateSystemOneLimits :: "card_env \<Rightarrow> (string \<times> json) list \<Rightarrow> card_error option" where
  "validateSystemOneLimits ce ext = first_error (map (limit_error ce ext) systemOneLimits)"

fun language_error :: "string list \<Rightarrow> string list \<Rightarrow> card_error option" where
  "language_error seen [] = None"
| "language_error seen (l # ls) =
     (let n = trim_space l in
      if n = [] \<or> n = ''*'' then Some (SystemOneLanguageEmpty l)
      else if n \<noteq> l then Some (SystemOneLanguageSpace l)
      else if n \<in> set seen then Some (SystemOneLanguageTwice l)
      else language_error (n # seen) ls)"

definition validateSystemOneLanguages :: "(string \<times> json) list \<Rightarrow> card_error option" where
  "validateSystemOneLanguages ext =
     (case map_of ext ''languages'' of
        None \<Rightarrow> Some (SystemOneMissing ''languages'')
      | Some (JArr vs) \<Rightarrow>
          if list_all (\<lambda>v. case v of JStr s \<Rightarrow> True | _ \<Rightarrow> False) vs then
            (let ls = map (\<lambda>v. case v of JStr s \<Rightarrow> s | _ \<Rightarrow> []) vs
             in if ls = [] then Some SystemOneNoLanguages else language_error [] ls)
          else Some SystemOneLanguageType
      | Some _ \<Rightarrow> Some SystemOneLanguageType)"

definition validateSystemOneExtension :: "card_env \<Rightarrow> model_spec \<Rightarrow> card_error option" where
  "validateSystemOneExtension ce spec =
     (let value = map_of (sp_Extensions spec) ''system_one'';
          one = (sp_Mode spec = model_type_name ModelSystemOne) in
      if \<not> one \<and> value = None then None
      else if one \<and> sp_ContextSize spec \<le> 0 then Some SystemOneContext
      else case value of
             None \<Rightarrow> Some (SystemOneMissing [])
           | Some (JObj ext) \<Rightarrow>
               (case map_of ext ''default_eligible'' of
                  Some (JBool b) \<Rightarrow>
                    first_error [validateSystemOneLimits ce ext, validateSystemOneLanguages ext]
                | _ \<Rightarrow> Some SystemOneNotBool)
           | Some _ \<Rightarrow> Some SystemOneNotObject)"

definition card_modes :: "string list" where
  "card_modes = map model_type_name [ModelChat, ModelEmbedding, ModelAudio, ModelTTS, ModelOCR, ModelRerank,
     ModelTranslate, ModelMusicGeneration, ModelSystemOne]"

definition rule_errors :: "nat \<times> parameter_rule \<Rightarrow> card_error list" where
  "rule_errors ir =
     (case ir of (i, r) \<Rightarrow>
        (if pr_Name r = [] then [RuleNameRequired i] else []) @
        (if pr_Type r = [] then [RuleTypeRequired i]
         else if pr_Type r \<notin> set allowedParameterRuleTypes then [RuleTypeUnknown i (pr_Type r)] else []))"

definition option_list :: "'a option \<Rightarrow> 'a list" where
  "option_list x = (case x of None \<Rightarrow> [] | Some y \<Rightarrow> [y])"

definition card_errors :: "card_env \<Rightarrow> model_spec \<Rightarrow> card_error list" where
  "card_errors ce spec =
     (if sp_Mode spec = [] then [ModeRequired]
      else if sp_Mode spec \<notin> set card_modes then [ModeUnknown (sp_Mode spec)] else []) @
     (if sp_ContextSize spec < 0 then [ContextSizeNegative (sp_ContextSize spec)] else []) @
     (if sp_MaxOutputToks spec < 0 then [MaxOutputNegative (sp_MaxOutputToks spec)] else []) @
     concat (map (\<lambda>(k, v). if matches_whole pricingDecimalRE v then [] else [PricingNotDecimal k v]) (sp_Pricing spec)) @
     concat (map rule_errors (zip [0..<length (sp_ParameterRules spec)] (sp_ParameterRules spec))) @
     option_list (validateTTSSpeedExtension ce (sp_Extensions spec)) @
     option_list (validateSystemOneExtension ce spec)"

text \<open>The loop of the insertion sort, over the part already sorted, from its end.\<close>

fun sink_left :: "string list \<Rightarrow> string \<Rightarrow> string list" where
  "sink_left [] x = [x]"
| "sink_left (y # ys) x = (if y > x then y # sink_left ys x else x # y # ys)"

definition insertion_sort :: "string list \<Rightarrow> string list" where
  "insertion_sort xs = rev (foldl sink_left [] xs)"

definition unknownSupports :: "(string \<times> bool) list \<Rightarrow> string list" where
  "unknownSupports m = insertion_sort (filter (\<lambda>k. k \<notin> set knownSupports) (map fst m))"

definition validateModelSpec :: "card_env \<Rightarrow> model_spec \<Rightarrow> card_error list + model_spec" where
  "validateModelSpec ce spec =
     (let errs = card_errors ce spec; unknown = unknownSupports (sp_Supports spec) in
      if errs \<noteq> [] then Inl errs
      else if unknown = [] then Inr spec
      else Inr (spec\<lparr>sp_Extensions := obj_put ''_unknown_flag'' (JArr (map JStr unknown)) (sp_Extensions spec)\<rparr>))"

section \<open>The text of a card\<close>

definition opt_bool :: "string \<Rightarrow> bool \<Rightarrow> (string \<times> json) list" where
  "opt_bool k b = (if b then [(k, JBool True)] else [])"

definition opt_any :: "string \<Rightarrow> json \<Rightarrow> (string \<times> json) list" where
  "opt_any k v = (if v = JNull then [] else [(k, sorted_any v)])"

definition opt_float :: "string \<Rightarrow> string option \<Rightarrow> (string \<times> json) list" where
  "opt_float k v = (case v of None \<Rightarrow> [] | Some l \<Rightarrow> [(k, JNum l)])"

definition rule_value :: "parameter_rule \<Rightarrow> json" where
  "rule_value r = JObj ([(''name'', JStr (pr_Name r))] @ opt_string ''use_template'' (pr_UseTemplate r) @
     opt_map ''label'' JStr (pr_Label r) @ opt_map ''help'' JStr (pr_Help r) @ [(''type'', JStr (pr_Type r))] @
     opt_bool ''required'' (pr_Required r) @ opt_any ''default'' (pr_Default r) @
     opt_float ''min'' (pr_Min r) @ opt_float ''max'' (pr_Max r) @ opt_int ''precision'' (pr_Precision r) @
     opt_strings ''options'' (pr_Options r))"

definition opt_rules :: "string \<Rightarrow> parameter_rule list \<Rightarrow> (string \<times> json) list" where
  "opt_rules k rs = (if rs = [] then [] else [(k, JArr (map rule_value rs))])"

definition spec_value :: "model_spec \<Rightarrow> json" where
  "spec_value s = JObj ([(''name'', JStr (sp_Name s))] @ [(''mode'', JStr (sp_Mode s))] @
     opt_map ''label'' JStr (sp_Label s) @ opt_map ''description'' JStr (sp_Description s) @
     opt_map ''supports'' JBool (sp_Supports s) @ opt_map ''pricing'' JStr (sp_Pricing s) @
     opt_rules ''parameter_rules'' (sp_ParameterRules s) @ opt_int ''context_size'' (sp_ContextSize s) @
     opt_int ''max_output_tokens'' (sp_MaxOutputToks s) @ [(''engine_args'', JStr (sp_EngineArgs s))] @
     opt_map ''extensions'' sorted_any (sp_Extensions s))"

definition card_text :: "model_spec \<Rightarrow> string" where
  "card_text s = json_indent 0 (spec_value s) @ [CHR 0x0A]"

definition rule_fields :: "card_env \<Rightarrow> (string \<times> parameter_rule store) list" where
  "rule_fields ce =
     [(''name'', on pr_Name (\<lambda>v r. r\<lparr>pr_Name := v\<rparr>) store_string),
      (''use_template'', on pr_UseTemplate (\<lambda>v r. r\<lparr>pr_UseTemplate := v\<rparr>) store_string),
      (''label'', on pr_Label (\<lambda>v r. r\<lparr>pr_Label := v\<rparr>) (store_map [] store_string)),
      (''help'', on pr_Help (\<lambda>v r. r\<lparr>pr_Help := v\<rparr>) (store_map [] store_string)),
      (''type'', on pr_Type (\<lambda>v r. r\<lparr>pr_Type := v\<rparr>) store_string),
      (''required'', on pr_Required (\<lambda>v r. r\<lparr>pr_Required := v\<rparr>) store_bool),
      (''default'', on pr_Default (\<lambda>v r. r\<lparr>pr_Default := v\<rparr>) (store_any (ce_float ce))),
      (''min'', on pr_Min (\<lambda>v r. r\<lparr>pr_Min := v\<rparr>) (store_ptr ''0'' (store_float (ce_float ce)))),
      (''max'', on pr_Max (\<lambda>v r. r\<lparr>pr_Max := v\<rparr>) (store_ptr ''0'' (store_float (ce_float ce)))),
      (''precision'', on pr_Precision (\<lambda>v r. r\<lparr>pr_Precision := v\<rparr>) store_int),
      (''options'', on pr_Options (\<lambda>v r. r\<lparr>pr_Options := v\<rparr>) (store_slice [] store_string))]"

definition spec_fields :: "card_env \<Rightarrow> (string \<times> model_spec store) list" where
  "spec_fields ce =
     [(''name'', on sp_Name (\<lambda>v s. s\<lparr>sp_Name := v\<rparr>) store_string),
      (''mode'', on sp_Mode (\<lambda>v s. s\<lparr>sp_Mode := v\<rparr>) store_string),
      (''label'', on sp_Label (\<lambda>v s. s\<lparr>sp_Label := v\<rparr>) (store_map [] store_string)),
      (''description'', on sp_Description (\<lambda>v s. s\<lparr>sp_Description := v\<rparr>) (store_map [] store_string)),
      (''supports'', on sp_Supports (\<lambda>v s. s\<lparr>sp_Supports := v\<rparr>) (store_map False store_bool)),
      (''pricing'', on sp_Pricing (\<lambda>v s. s\<lparr>sp_Pricing := v\<rparr>) (store_map [] store_string)),
      (''parameter_rules'', on sp_ParameterRules (\<lambda>v s. s\<lparr>sp_ParameterRules := v\<rparr>)
         (store_slice zero_rule (strict_struct (rule_fields ce)))),
      (''context_size'', on sp_ContextSize (\<lambda>v s. s\<lparr>sp_ContextSize := v\<rparr>) store_int),
      (''max_output_tokens'', on sp_MaxOutputToks (\<lambda>v s. s\<lparr>sp_MaxOutputToks := v\<rparr>) store_int),
      (''engine_args'', on sp_EngineArgs (\<lambda>v s. s\<lparr>sp_EngineArgs := v\<rparr>) store_string),
      (''extensions'', on sp_Extensions (\<lambda>v s. s\<lparr>sp_Extensions := v\<rparr>) (store_map JNull (store_any (ce_float ce))))]"

datatype card_fault =
    FaultJSON | FaultCard "card_error list" | FaultArgs engine_args_error | FaultIO io_error | FaultStat
  | FaultPanic go_panic

definition ParseModelSpecBytes :: "card_env \<Rightarrow> string \<Rightarrow> card_fault + model_spec" where
  "ParseModelSpecBytes ce data =
     (case decode_first zero_spec (strict_struct (spec_fields ce)) data of
        None \<Rightarrow> Inl FaultJSON
      | Some spec \<Rightarrow>
          (case validateModelSpec ce spec of Inl es \<Rightarrow> Inl (FaultCard es) | Inr spec' \<Rightarrow> Inr spec'))"

section \<open>The file\<close>

type_synonym 'a card_run = "(card_fault + 'a) \<times> fs list"

definition card_bind :: "'a card_run \<Rightarrow> ('a \<Rightarrow> fs \<Rightarrow> 'b card_run) \<Rightarrow> 'b card_run" where
  "card_bind r k =
     (case r of
        (Inl e, tr) \<Rightarrow> (Inl e, tr)
      | (Inr x, tr) \<Rightarrow> (case k x (last tr) of (y, tr') \<Rightarrow> (y, tr @ tr')))"

definition card_io :: "io_run \<Rightarrow> unit card_run" where
  "card_io r = (case r of (None, tr) \<Rightarrow> (Inr (), tr) | (Some e, tr) \<Rightarrow> (Inl (FaultIO e), tr))"

definition card_put :: "io_plan \<Rightarrow> path \<Rightarrow> string \<Rightarrow> fs \<Rightarrow> io_run" where
  "card_put io p data fs =
     io_then (os_mkdir_all io fs) (\<lambda>fs.
       io_then (os_write_file io (tmp_of p) data fs) (os_rename io (tmp_of p) p))"

interpretation card: atomic_write card_put
proof -
  have "card_put = writeFileAtomic" by (intro ext) (simp add: card_put_def writeFileAtomic_def)
  then show "atomic_write card_put" using hand.atomic_write_axioms by simp
qed

definition WriteModelSpecFile :: "io_plan \<Rightarrow> path \<Rightarrow> model_spec \<Rightarrow> fs \<Rightarrow> io_run" where
  "WriteModelSpecFile io p spec fs = card_put io p (card_text spec) fs"

definition LoadModelSpecFile :: "card_env \<Rightarrow> (path \<Rightarrow> bool) \<Rightarrow> path \<Rightarrow> fs \<Rightarrow> card_fault + model_spec" where
  "LoadModelSpecFile ce read_err p fs =
     (case read_file read_err p fs of Inl e \<Rightarrow> Inl (FaultIO e) | Inr data \<Rightarrow> ParseModelSpecBytes ce data)"

text \<open>The probe unmarshals the whole text into a map, so its key is compared exactly.\<close>

definition modelSpecJSONHasEngineArgsKey :: "string \<Rightarrow> bool" where
  "modelSpecJSONHasEngineArgsKey data =
     (case json_parse data of Some (JObj fs) \<Rightarrow> ''engine_args'' \<in> fst ` set fs | _ \<Rightarrow> False)"

section \<open>The reasoning ladder of the environment (config_load_model.go)\<close>

definition reasoningEffortEnv :: string where "reasoningEffortEnv = ''MODEL_REASONING_EFFORT''"
definition reasoningEffortDefaultEnv :: string where
  "reasoningEffortDefaultEnv = ''MODEL_REASONING_EFFORT_DEFAULT''"

datatype effort_error =
    DefaultWithoutLadder | UnknownLevels "string list" | NoLevel | DefaultNotDeclared string

definition declared_levels :: "string \<Rightarrow> string list" where
  "declared_levels raw = filter (\<lambda>l. l \<noteq> []) (map Normalize (split_on (CHR '','') raw))"

definition ladder_rule :: "string list \<Rightarrow> string \<Rightarrow> parameter_rule" where
  "ladder_rule levels def = zero_rule\<lparr>pr_Name := reasoning_Param, pr_Type := ParamRuleTypeString,
     pr_Options := filter (\<lambda>l. l \<in> set levels) Ladder, pr_Default := (if def = [] then JNull else JStr def)\<rparr>"

definition reasoningEffortRuleFromEnv :: "(string \<Rightarrow> string) \<Rightarrow> effort_error + parameter_rule option" where
  "reasoningEffortRuleFromEnv g =
     (let raw = trim_space (g reasoningEffortEnv); def = Normalize (g reasoningEffortDefaultEnv);
          levels = declared_levels raw; unknown = filter (\<lambda>l. \<not> IsLevel l) levels;
          seen = filter IsLevel levels
      in if raw = [] then (if def \<noteq> [] then Inl DefaultWithoutLadder else Inr None)
         else if unknown \<noteq> [] then Inl (UnknownLevels unknown)
         else if seen = [] then Inl NoLevel
         else if def \<noteq> [] \<and> def \<notin> set seen then Inl (DefaultNotDeclared def)
         else Inr (Some (ladder_rule seen def)))"

fun overlay_rule :: "parameter_rule \<Rightarrow> parameter_rule list \<Rightarrow> parameter_rule list \<times> bool" where
  "overlay_rule rule [] = ([rule], True)"
| "overlay_rule rule (r # rs) =
     (if pr_Name r \<noteq> pr_Name rule then (case overlay_rule rule rs of (rs', b) \<Rightarrow> (r # rs', b))
      else let candidate = rule\<lparr>pr_Label := pr_Label r, pr_Help := pr_Help r\<rparr> in
        if json_encode (rule_value r) = json_encode (rule_value candidate) then (r # rs, False)
        else (candidate # rs, True))"

definition overlayReasoningEffortRuleFromEnv :: "(string \<Rightarrow> string) \<Rightarrow> model_spec \<Rightarrow> model_spec \<times> bool" where
  "overlayReasoningEffortRuleFromEnv g spec =
     (case reasoningEffortRuleFromEnv g of
        Inr (Some rule) \<Rightarrow>
          (case overlay_rule rule (sp_ParameterRules spec) of
             (rules, b) \<Rightarrow> (spec\<lparr>sp_ParameterRules := rules\<rparr>, b))
      | _ \<Rightarrow> (spec, False))"

section \<open>The card against the engine\<close>

text \<open>The part of \<open>Config\<close> the card meets. An empty kind is \<open>EngineOther []\<close>, an empty path is \<open>None\<close>.\<close>

record card_config =
  cg_Kind :: engine_kind
  cg_Args :: engine_args
  cg_Spec :: model_spec
  cg_SpecPath :: "path option"
  cg_RunDir :: string
  cg_ModelName :: string
  cg_ModelType :: string
  cg_ThinkSupported :: bool

definition no_engine :: engine_kind where "no_engine = EngineOther []"

definition applyModelSpec :: "card_config \<Rightarrow> model_spec \<Rightarrow> card_config" where
  "applyModelSpec c spec =
     (let c = c\<lparr>cg_Spec := spec\<rparr>;
          c = (if sp_Name spec \<noteq> [] then c\<lparr>cg_ModelName := sp_Name spec\<rparr> else c);
          c = (if sp_Mode spec \<noteq> [] then c\<lparr>cg_ModelType := sp_Mode spec\<rparr> else c)
      in case map_of (sp_Supports spec) supportsReasoningKey of
           Some v \<Rightarrow> c\<lparr>cg_ThinkSupported := v\<rparr> | None \<Rightarrow> c)"

definition ApplyEngineArgsFromSpec :: "card_config \<Rightarrow> engine_args_error option \<times> card_config" where
  "ApplyEngineArgsFromSpec c =
     (if cg_Kind c = no_engine then (None, c\<lparr>cg_Args := zero_args []\<rparr>)
      else case ParseEngineArgs (cg_Kind c) (sp_EngineArgs (cg_Spec c)) of
             Inl e \<Rightarrow> (Some e, c)
           | Inr args \<Rightarrow> (None, c\<lparr>cg_Args := args\<rparr>))"

definition ensureLlamacppEmbeddingArgs :: "card_config \<Rightarrow> card_config \<times> bool" where
  "ensureLlamacppEmbeddingArgs c =
     (let s = cg_Spec c in
      if cg_Kind c \<noteq> EngineLlamaCpp \<or> sp_Mode s \<noteq> model_type_name ModelEmbedding \<or>
         contains (sp_EngineArgs s) ''--embedding'' then (c, False)
      else (c\<lparr>cg_Spec := s\<lparr>sp_EngineArgs := trim_space (sp_EngineArgs s @ '' --embedding'')\<rparr>\<rparr>, True))"

text \<open>The view the synchronisations of \<open>KvDerive\<close> work on, and writing it back.\<close>

definition card_view :: "card_config \<Rightarrow> card_cfg" where
  "card_view c = \<lparr>cc_Kind = cg_Kind c, cc_Args = cg_Args c, cc_Mode = sp_Mode (cg_Spec c),
     cc_ContextSize = sp_ContextSize (cg_Spec c), cc_MaxOutputToks = sp_MaxOutputToks (cg_Spec c)\<rparr>"

definition with_view :: "card_config \<Rightarrow> card_cfg \<Rightarrow> card_config" where
  "with_view c v = c\<lparr>cg_Spec := (cg_Spec c)\<lparr>sp_ContextSize := cc_ContextSize v,
     sp_MaxOutputToks := cc_MaxOutputToks v\<rparr>\<rparr>"

definition sync_card :: "card_config \<Rightarrow> go_panic + card_config \<times> bool" where
  "sync_card c =
     (case syncContextSizeFromEngineArgs (Some (card_view c)) of
        Inl p \<Rightarrow> Inl p
      | Inr (v, b1) \<Rightarrow>
          (case syncMaxOutputTokensFromContext v of
             (Some w, b2) \<Rightarrow> Inr (with_view c w, b1 \<or> b2)
           | (None, b2) \<Rightarrow> Inr (c, b1 \<or> b2)))"

definition NormalizeSpecForEngine ::
  "card_config \<Rightarrow> go_panic + card_config \<times> bool \<times> engine_args_error option" where
  "NormalizeSpecForEngine c =
     (case ensureLlamacppEmbeddingArgs c of
        (c, b) \<Rightarrow>
          (case ApplyEngineArgsFromSpec c of
             (Some e, c) \<Rightarrow> Inr (c, b, Some e)
           | (None, c) \<Rightarrow>
               (case sync_card c of Inl p \<Rightarrow> Inl p | Inr (c, b') \<Rightarrow> Inr (c, b \<or> b', None))))"

section \<open>Boot\<close>

text \<open>What the operating system does to the calls of one boot: the plans of the writes in their order,
  the readable files, a failing \<open>stat\<close>, the second read of the card, and the clock of the bump.\<close>

record boot_io =
  bi_seed :: io_plan
  bi_norm :: io_plan
  bi_args :: io_plan
  bi_bump :: io_plan
  bi_read_err :: "path \<Rightarrow> bool"
  bi_stat_err :: bool
  bi_reread_err :: bool
  bi_nano :: int

definition publish_args :: "boot_io \<Rightarrow> card_config \<Rightarrow> fs \<Rightarrow> card_config card_run" where
  "publish_args bi c fs =
     (let args = sp_EngineArgs (cg_Spec c); (prev, missing) = ReadEngineArgs (bi_read_err bi) (cg_RunDir c) fs in
      card_bind (card_io (WriteEngineArgs (bi_args bi) (cg_RunDir c) args fs)) (\<lambda>u fs.
        if (missing \<or> prev \<noteq> args) \<and> cg_Kind c \<noteq> no_engine \<and> cg_RunDir c \<noteq> [] then
          (case Bump (bi_bump bi) (bi_read_err bi) (bi_nano bi) (cg_RunDir c) fs of
             (Inl e, tr) \<Rightarrow> (Inl (FaultIO e), tr)
           | (Inr gen, tr) \<Rightarrow> (Inr c, tr))
        else (Inr c, [fs])))"

definition applySpecSideEffects :: "boot_io \<Rightarrow> card_config \<Rightarrow> fs \<Rightarrow> card_config card_run" where
  "applySpecSideEffects bi c fs =
     (case NormalizeSpecForEngine c of
        Inl p \<Rightarrow> (Inl (FaultPanic p), [fs])
      | Inr (c, changed, Some e) \<Rightarrow> (Inl (FaultArgs e), [fs])
      | Inr (c, changed, None) \<Rightarrow>
          (case (changed, cg_SpecPath c) of
             (True, Some p) \<Rightarrow>
               card_bind (card_io (WriteModelSpecFile (bi_norm bi) p (cg_Spec c) fs)) (\<lambda>u. publish_args bi c)
           | _ \<Rightarrow> publish_args bi c fs))"

text \<open>A card found on disk: the ladder of the environment, and the flags of the chart when the file has
  no key for them.\<close>

definition upgrade_card ::
  "(string \<Rightarrow> string) \<Rightarrow> boot_io \<Rightarrow> card_config \<Rightarrow> path \<Rightarrow> model_spec \<Rightarrow> fs \<Rightarrow> model_spec \<times> bool" where
  "upgrade_card g bi c p spec fs =
     (case overlayReasoningEffortRuleFromEnv g spec of
        (spec, b) \<Rightarrow>
          (case (if bi_reread_err bi then Inl ReadError else read_file (bi_read_err bi) p fs) of
             Inr raw \<Rightarrow>
               if \<not> modelSpecJSONHasEngineArgsKey raw \<and> sp_EngineArgs (cg_Spec c) \<noteq> []
               then (spec\<lparr>sp_EngineArgs := sp_EngineArgs (cg_Spec c)\<rparr>, True) else (spec, b)
           | Inl e \<Rightarrow> (spec, b)))"

definition ReconcileModelSpecFile ::
  "card_env \<Rightarrow> (string \<Rightarrow> string) \<Rightarrow> boot_io \<Rightarrow> card_config \<Rightarrow> fs \<Rightarrow> card_config card_run" where
  "ReconcileModelSpecFile ce g bi c fs =
     (case cg_SpecPath c of
        None \<Rightarrow> applySpecSideEffects bi c fs
      | Some p \<Rightarrow>
          if bi_stat_err bi then (Inl FaultStat, [fs])
          else if fs p = None then
            card_bind (card_io (WriteModelSpecFile (bi_seed bi) p (cg_Spec c) fs)) (\<lambda>u. applySpecSideEffects bi c)
          else
            (case LoadModelSpecFile ce (bi_read_err bi) p fs of
               Inl e \<Rightarrow> (Inl e, [fs])
             | Inr spec \<Rightarrow>
                 (case upgrade_card g bi c p spec fs of
                    (spec, True) \<Rightarrow>
                      card_bind (card_io (WriteModelSpecFile (bi_seed bi) p spec fs))
                        (\<lambda>u. applySpecSideEffects bi (applyModelSpec c spec))
                  | (spec, False) \<Rightarrow> applySpecSideEffects bi (applyModelSpec c spec) fs)))"

section \<open>Unknown capability keys\<close>

lemma mset_sink_left: "mset (sink_left ys x) = add_mset x (mset ys)"
  by (induction ys) auto

lemma sorted_sink_left: "sorted (rev ys) \<Longrightarrow> sorted (rev (sink_left ys x))"
proof (induction ys)
  case (Cons y ys)
  have "set (sink_left ys x) = insert x (set ys)" using mset_sink_left [of ys x] by (metis set_mset_add_mset_insert set_mset_mset)
  then show ?case using Cons by (auto simp: sorted_append)
qed simp

lemma insertion_sort_sorts: "insertion_sort xs = sort xs"
proof -
  have "mset (foldl sink_left acc xs) = mset acc + mset xs \<and> (sorted (rev acc) \<longrightarrow> sorted (rev (foldl sink_left acc xs)))"
    for acc by (induction xs arbitrary: acc) (auto simp: mset_sink_left sorted_sink_left)
  from this [of "[]"] show ?thesis
    unfolding insertion_sort_def by (intro properties_for_sort [symmetric]) simp_all
qed

text \<open>The tag on the card does not depend on the order in which Go walks the map.\<close>

lemma unknown_tag_ignores_map_order:
  "mset m = mset m' \<Longrightarrow> unknownSupports m = unknownSupports m'"
  unfolding unknownSupports_def insertion_sort_sorts
  by (rule properties_for_sort) (simp_all add: mset_filter [symmetric])

section \<open>Validation again\<close>

lemma obj_put_known: "map_of m k = Some v \<Longrightarrow> obj_put k v m = m"
  by (induction k v m rule: obj_put.induct) (auto split: if_splits)

lemma card_errors_tagged:
  "card_errors ce (s\<lparr>sp_Extensions := obj_put ''_unknown_flag'' v (sp_Extensions s)\<rparr>) = card_errors ce s"
  by (simp add: card_errors_def validateTTSSpeedExtension_def validateSystemOneExtension_def Let_def)

lemma validate_Inr:
  "validateModelSpec ce s = Inr s' \<Longrightarrow> card_errors ce s = [] \<and> card_errors ce s' = [] \<and>
   sp_Supports s' = sp_Supports s \<and> sp_Mode s' = sp_Mode s \<and> sp_EngineArgs s' = sp_EngineArgs s \<and>
   sp_Name s' = sp_Name s"
  by (auto simp: validateModelSpec_def Let_def card_errors_tagged split: if_splits)

lemma validate_again: "validateModelSpec ce s = Inr s' \<Longrightarrow> validateModelSpec ce s' = Inr s'"
  by (auto simp: validateModelSpec_def Let_def card_errors_tagged obj_put_known split: if_splits)

section \<open>A card read back\<close>

definition canonical_map :: "(string \<times> 'a) list \<Rightarrow> bool" where
  "canonical_map m \<longleftrightarrow> sorted (map fst m) \<and> distinct (map fst m)"

definition canonical_any :: "card_env \<Rightarrow> json \<Rightarrow> bool" where
  "canonical_any ce v \<longleftrightarrow> any_value (ce_float ce) v = Some v \<and> sorted_any v = v \<and> numbers_ok v \<and> depth v \<le> 9000"

definition canonical_float :: "card_env \<Rightarrow> string option \<Rightarrow> bool" where
  "canonical_float ce v \<longleftrightarrow> (case v of None \<Rightarrow> True | Some l \<Rightarrow> ce_float ce l = Some l \<and> number_text l)"

text \<open>A card as memory holds it: maps in the order of their keys, numbers that float64 and int can hold.\<close>

definition canonical_rule :: "card_env \<Rightarrow> parameter_rule \<Rightarrow> bool" where
  "canonical_rule ce r \<longleftrightarrow> canonical_map (pr_Label r) \<and> canonical_map (pr_Help r) \<and>
     canonical_any ce (pr_Default r) \<and> canonical_float ce (pr_Min r) \<and> canonical_float ce (pr_Max r) \<and>
     in_int64 (pr_Precision r)"

definition canonical_spec :: "card_env \<Rightarrow> model_spec \<Rightarrow> bool" where
  "canonical_spec ce s \<longleftrightarrow> canonical_map (sp_Label s) \<and> canonical_map (sp_Description s) \<and>
     canonical_map (sp_Supports s) \<and> canonical_map (sp_Pricing s) \<and>
     list_all (canonical_rule ce) (sp_ParameterRules s) \<and> in_int64 (sp_ContextSize s) \<and>
     in_int64 (sp_MaxOutputToks s) \<and> canonical_map (sp_Extensions s) \<and>
     list_all (\<lambda>(k, v). canonical_any ce v) (sp_Extensions s)"

lemma stores_any: "canonical_any ce v \<Longrightarrow> stores (store_any (ce_float ce)) cur (sorted_any v) v"
  by (simp add: stores_def store_any_def canonical_any_def)

lemma members_opt_bool:
  assumes "field_of tbl k = Some (on get put store_bool)" "put False cur = cur"
  shows "members_store tbl cur (opt_bool k b) (put b cur)"
  using assms members_one [OF assms(1) stores_on [OF stores_scalar(2)]] members_Nil [of tbl cur]
  by (cases b) (simp_all add: opt_bool_def)

lemma members_opt_any:
  assumes "field_of tbl k = Some (on get put (store_any (ce_float ce)))" "put JNull cur = cur" "canonical_any ce v"
  shows "members_store tbl cur (opt_any k v) (put v cur)"
  using assms members_one [OF assms(1) stores_on [OF stores_any [OF assms(3)]]] members_Nil [of tbl cur]
  by (simp add: opt_any_def)

lemma stores_float:
  "ce_float ce l = Some l \<Longrightarrow> stores (store_ptr z (store_float (ce_float ce))) None (JNum l) (Some l)"
  by (auto simp: stores_def proper_plain store_ptr_def store_float_def)

lemma members_opt_float:
  assumes "field_of tbl k = Some (on get put (store_ptr z (store_float (ce_float ce))))" "put None cur = cur"
    "get cur = None" "canonical_float ce v"
  shows "members_store tbl cur (opt_float k v) (put v cur)"
proof (cases v)
  case None
  then show ?thesis using assms(2) members_Nil [of tbl cur] by (simp add: opt_float_def)
next
  case (Some l)
  have "stores (store_ptr z (store_float (ce_float ce))) (get cur) (JNum l) (Some l)"
    unfolding assms(3) using assms(4) Some by (intro stores_float) (simp add: canonical_float_def)
  then show ?thesis using members_one [OF assms(1) stores_on] Some by (simp add: opt_float_def)
qed

lemma members_texts:
  assumes "field_of tbl k = Some (on get put (store_map [] store_string))" "put [] cur = cur" "get cur = []"
    "canonical_map m"
  shows "members_store tbl cur (opt_map k JStr m) (put m cur)"
  by (rule members_opt_map [where get = get and zero = "[]" and st = store_string])
    (use assms in \<open>simp_all add: canonical_map_def stores_scalar\<close>)

lemma members_text:
  assumes "field_of tbl k = Some (on get put store_string)"
  shows "members_store tbl cur [(k, JStr s)] (put s cur)"
  by (rule members_one [OF assms stores_on [OF stores_scalar(1)]])

lemma rule_stores:
  assumes "canonical_rule ce r"
  shows "stores (strict_struct (rule_fields ce)) zero_rule (rule_value r) r"
proof -
  note can = assms [unfolded canonical_rule_def]
  let ?tbl = "rule_fields ce"
  note fields = field_of_def rule_fields_def zero_rule_def
  let ?r1 = "zero_rule\<lparr>pr_Name := pr_Name r\<rparr>"
  let ?r2 = "?r1\<lparr>pr_UseTemplate := pr_UseTemplate r\<rparr>"
  let ?r3 = "?r2\<lparr>pr_Label := pr_Label r\<rparr>"
  let ?r4 = "?r3\<lparr>pr_Help := pr_Help r\<rparr>"
  let ?r5 = "?r4\<lparr>pr_Type := pr_Type r\<rparr>"
  let ?r6 = "?r5\<lparr>pr_Required := pr_Required r\<rparr>"
  let ?r7 = "?r6\<lparr>pr_Default := pr_Default r\<rparr>"
  let ?r8 = "?r7\<lparr>pr_Min := pr_Min r\<rparr>"
  let ?r9 = "?r8\<lparr>pr_Max := pr_Max r\<rparr>"
  let ?ra = "?r9\<lparr>pr_Precision := pr_Precision r\<rparr>"
  let ?rb = "?ra\<lparr>pr_Options := pr_Options r\<rparr>"
  have 1: "members_store ?tbl zero_rule [(''name'', JStr (pr_Name r))] ?r1"
    by (rule members_text) (simp add: fields)
  have 2: "members_store ?tbl ?r1 (opt_string ''use_template'' (pr_UseTemplate r)) ?r2"
    by (rule members_opt_string) (simp_all add: fields)
  have 3: "members_store ?tbl ?r2 (opt_map ''label'' JStr (pr_Label r)) ?r3"
    by (rule members_texts [where get = pr_Label]) (simp_all add: fields can)
  have 4: "members_store ?tbl ?r3 (opt_map ''help'' JStr (pr_Help r)) ?r4"
    by (rule members_texts [where get = pr_Help]) (simp_all add: fields can)
  have 5: "members_store ?tbl ?r4 [(''type'', JStr (pr_Type r))] ?r5"
    by (rule members_text) (simp add: fields)
  have 6: "members_store ?tbl ?r5 (opt_bool ''required'' (pr_Required r)) ?r6"
    by (rule members_opt_bool) (simp_all add: fields)
  have 7: "members_store ?tbl ?r6 (opt_any ''default'' (pr_Default r)) ?r7"
    by (rule members_opt_any [where ce = ce]) (simp_all add: fields can)
  have 8: "members_store ?tbl ?r7 (opt_float ''min'' (pr_Min r)) ?r8"
    by (rule members_opt_float [where get = pr_Min and z = "''0''" and ce = ce]) (simp_all add: fields can)
  have 9: "members_store ?tbl ?r8 (opt_float ''max'' (pr_Max r)) ?r9"
    by (rule members_opt_float [where get = pr_Max and z = "''0''" and ce = ce]) (simp_all add: fields can)
  have a: "members_store ?tbl ?r9 (opt_int ''precision'' (pr_Precision r)) ?ra"
    by (rule members_opt_int) (simp_all add: fields can)
  have b: "members_store ?tbl ?ra (opt_strings ''options'' (pr_Options r)) ?rb"
    by (rule members_opt_strings [where get = pr_Options]) (simp_all add: fields)
  have whole: "?rb = r" by simp
  note all = members_append [OF 1 members_append [OF 2 members_append [OF 3 members_append [OF 4
    members_append [OF 5 members_append [OF 6 members_append [OF 7 members_append [OF 8
    members_append [OF 9 members_append [OF a b]]]]]]]]]]
  show ?thesis unfolding rule_value_def
  proof (rule stores_strict)
    show "members_store ?tbl zero_rule ([(''name'', JStr (pr_Name r))] @ opt_string ''use_template'' (pr_UseTemplate r) @
       opt_map ''label'' JStr (pr_Label r) @ opt_map ''help'' JStr (pr_Help r) @ [(''type'', JStr (pr_Type r))] @
       opt_bool ''required'' (pr_Required r) @ opt_any ''default'' (pr_Default r) @
       opt_float ''min'' (pr_Min r) @ opt_float ''max'' (pr_Max r) @ opt_int ''precision'' (pr_Precision r) @
       opt_strings ''options'' (pr_Options r)) r"
      using all unfolding whole .
    show "list_all (\<lambda>(k, v). field_of ?tbl k \<noteq> None) ([(''name'', JStr (pr_Name r))] @
       opt_string ''use_template'' (pr_UseTemplate r) @
       opt_map ''label'' JStr (pr_Label r) @ opt_map ''help'' JStr (pr_Help r) @ [(''type'', JStr (pr_Type r))] @
       opt_bool ''required'' (pr_Required r) @ opt_any ''default'' (pr_Default r) @
       opt_float ''min'' (pr_Min r) @ opt_float ''max'' (pr_Max r) @ opt_int ''precision'' (pr_Precision r) @
       opt_strings ''options'' (pr_Options r))"
      by (simp add: field_of_def rule_fields_def opt_string_def opt_map_def opt_bool_def opt_any_def opt_float_def
          opt_int_def opt_strings_def split: option.splits)
  qed
qed

lemma members_opt_rules:
  assumes "field_of tbl k = Some (on get put (store_slice zero_rule (strict_struct (rule_fields ce))))"
    "put [] cur = cur" "get cur = []" "list_all (canonical_rule ce) rs"
  shows "members_store tbl cur (opt_rules k rs) (put rs cur)"
proof -
  have "stores (store_slice zero_rule (strict_struct (rule_fields ce))) (get cur) (JArr (map rule_value rs)) rs"
    unfolding assms(3) using assms(4) by (intro stores_slice rule_stores) (simp add: list_all_iff)
  then show ?thesis using assms(1,2) members_one [OF assms(1) stores_on] members_Nil [of tbl cur]
    by (simp add: opt_rules_def)
qed

lemma spec_stores:
  assumes "canonical_spec ce s"
  shows "stores (strict_struct (spec_fields ce)) zero_spec (spec_value s) s"
proof -
  note can = assms [unfolded canonical_spec_def]
  let ?tbl = "spec_fields ce"
  note fields = field_of_def spec_fields_def zero_spec_def
  let ?s1 = "zero_spec\<lparr>sp_Name := sp_Name s\<rparr>"
  let ?s2 = "?s1\<lparr>sp_Mode := sp_Mode s\<rparr>"
  let ?s3 = "?s2\<lparr>sp_Label := sp_Label s\<rparr>"
  let ?s4 = "?s3\<lparr>sp_Description := sp_Description s\<rparr>"
  let ?s5 = "?s4\<lparr>sp_Supports := sp_Supports s\<rparr>"
  let ?s6 = "?s5\<lparr>sp_Pricing := sp_Pricing s\<rparr>"
  let ?s7 = "?s6\<lparr>sp_ParameterRules := sp_ParameterRules s\<rparr>"
  let ?s8 = "?s7\<lparr>sp_ContextSize := sp_ContextSize s\<rparr>"
  let ?s9 = "?s8\<lparr>sp_MaxOutputToks := sp_MaxOutputToks s\<rparr>"
  let ?sa = "?s9\<lparr>sp_EngineArgs := sp_EngineArgs s\<rparr>"
  let ?sb = "?sa\<lparr>sp_Extensions := sp_Extensions s\<rparr>"
  have 1: "members_store ?tbl zero_spec [(''name'', JStr (sp_Name s))] ?s1"
    by (rule members_text) (simp add: fields)
  have 2: "members_store ?tbl ?s1 [(''mode'', JStr (sp_Mode s))] ?s2"
    by (rule members_text) (simp add: fields)
  have 3: "members_store ?tbl ?s2 (opt_map ''label'' JStr (sp_Label s)) ?s3"
    by (rule members_texts [where get = sp_Label]) (simp_all add: fields can)
  have 4: "members_store ?tbl ?s3 (opt_map ''description'' JStr (sp_Description s)) ?s4"
    by (rule members_texts [where get = sp_Description]) (simp_all add: fields can)
  have 5: "members_store ?tbl ?s4 (opt_map ''supports'' JBool (sp_Supports s)) ?s5"
    by (rule members_opt_map [where get = sp_Supports and zero = False and st = store_bool])
      (use can in \<open>simp_all add: fields canonical_map_def stores_scalar\<close>)
  have 6: "members_store ?tbl ?s5 (opt_map ''pricing'' JStr (sp_Pricing s)) ?s6"
    by (rule members_texts [where get = sp_Pricing]) (simp_all add: fields can)
  have 7: "members_store ?tbl ?s6 (opt_rules ''parameter_rules'' (sp_ParameterRules s)) ?s7"
    by (rule members_opt_rules [where get = sp_ParameterRules and ce = ce]) (simp_all add: fields can)
  have 8: "members_store ?tbl ?s7 (opt_int ''context_size'' (sp_ContextSize s)) ?s8"
    by (rule members_opt_int) (simp_all add: fields can)
  have 9: "members_store ?tbl ?s8 (opt_int ''max_output_tokens'' (sp_MaxOutputToks s)) ?s9"
    by (rule members_opt_int) (simp_all add: fields can)
  have a: "members_store ?tbl ?s9 [(''engine_args'', JStr (sp_EngineArgs s))] ?sa"
    by (rule members_text) (simp add: fields)
  have b: "members_store ?tbl ?sa (opt_map ''extensions'' sorted_any (sp_Extensions s)) ?sb"
  proof (rule members_opt_map [where get = sp_Extensions and zero = JNull and st = "store_any (ce_float ce)"])
    show "stores (store_any (ce_float ce)) JNull (sorted_any v) v" if "(k, v) \<in> set (sp_Extensions s)" for k v
      using can that by (intro stores_any) (auto simp: list_all_iff)
  qed (use can in \<open>simp_all add: fields canonical_map_def\<close>)
  have whole: "?sb = s" by simp
  note all = members_append [OF 1 members_append [OF 2 members_append [OF 3 members_append [OF 4
    members_append [OF 5 members_append [OF 6 members_append [OF 7 members_append [OF 8
    members_append [OF 9 members_append [OF a b]]]]]]]]]]
  show ?thesis unfolding spec_value_def
  proof (rule stores_strict)
    show "members_store ?tbl zero_spec ([(''name'', JStr (sp_Name s))] @ [(''mode'', JStr (sp_Mode s))] @
       opt_map ''label'' JStr (sp_Label s) @ opt_map ''description'' JStr (sp_Description s) @
       opt_map ''supports'' JBool (sp_Supports s) @ opt_map ''pricing'' JStr (sp_Pricing s) @
       opt_rules ''parameter_rules'' (sp_ParameterRules s) @ opt_int ''context_size'' (sp_ContextSize s) @
       opt_int ''max_output_tokens'' (sp_MaxOutputToks s) @ [(''engine_args'', JStr (sp_EngineArgs s))] @
       opt_map ''extensions'' sorted_any (sp_Extensions s)) s"
      using all unfolding whole .
    show "list_all (\<lambda>(k, v). field_of ?tbl k \<noteq> None) ([(''name'', JStr (sp_Name s))] @ [(''mode'', JStr (sp_Mode s))] @
       opt_map ''label'' JStr (sp_Label s) @ opt_map ''description'' JStr (sp_Description s) @
       opt_map ''supports'' JBool (sp_Supports s) @ opt_map ''pricing'' JStr (sp_Pricing s) @
       opt_rules ''parameter_rules'' (sp_ParameterRules s) @ opt_int ''context_size'' (sp_ContextSize s) @
       opt_int ''max_output_tokens'' (sp_MaxOutputToks s) @ [(''engine_args'', JStr (sp_EngineArgs s))] @
       opt_map ''extensions'' sorted_any (sp_Extensions s))"
      by (simp add: field_of_def spec_fields_def opt_map_def opt_rules_def opt_int_def)
  qed
qed

lemma numbers_ok_members:
  "canonical_any ce v \<Longrightarrow> numbers_ok (JObj (opt_any k v))"
  "canonical_float ce f \<Longrightarrow> numbers_ok (JObj (opt_float k f))"
  "numbers_ok (JObj (opt_bool k b))" "numbers_ok (JObj (opt_map k JStr m))" "numbers_ok (JObj (opt_map k JBool m'))"
  by (auto simp: opt_any_def opt_float_def opt_bool_def opt_map_def map_value_def canonical_any_def
      canonical_float_def numbers_ok_simps split: option.splits)

lemma depth_members:
  "canonical_any ce v \<Longrightarrow> (k', x) \<in> set (opt_any k v) \<Longrightarrow> depth x \<le> 9000"
  "(k', x) \<in> set (opt_float k f) \<Longrightarrow> depth x = 0" "(k', x) \<in> set (opt_bool k b) \<Longrightarrow> depth x = 0"
  "(k', x) \<in> set (opt_map k JStr m) \<Longrightarrow> depth x \<le> 1" "(k', x) \<in> set (opt_map k JBool m') \<Longrightarrow> depth x \<le> 1"
  by (auto simp: opt_any_def opt_float_def opt_bool_def opt_map_def map_value_def canonical_any_def depth_bounds
      split: option.splits if_splits simp del: depth.simps(2))

lemma rule_value_ok:
  assumes "canonical_rule ce r"
  shows "numbers_ok (rule_value r)" "depth (rule_value r) \<le> 9001"
proof -
  show "numbers_ok (rule_value r)" using assms
    unfolding rule_value_def canonical_rule_def
    by (simp only: numbers_ok_opt numbers_ok_Cons numbers_ok_members append.simps snd_conv numbers_ok_simps(6) simp_thms)
      (blast intro: numbers_ok_members)
  have "depth x \<le> 9000" if "(k, x) \<in> set (opt_any k' (pr_Default r))" for k k' x
    using depth_members(1) that assms unfolding canonical_rule_def by blast
  then show "depth (rule_value r) \<le> 9001"
    unfolding rule_value_def depth_bounds(1) [of _ 9000, simplified]
    by (fastforce dest: depth_members(2-4) depth_opt)
qed

lemma extensions_ok:
  assumes "list_all (\<lambda>(k, v). canonical_any ce v) m"
  shows "numbers_ok (JObj (opt_map k sorted_any m))" "(k', x) \<in> set (opt_map k sorted_any m) \<Longrightarrow> depth x \<le> 9001"
proof -
  have fixed: "sorted_any v = v" "numbers_ok v" "depth v \<le> 9000" if "(k, v) \<in> set m" for k v
    using assms that by (auto simp: list_all_iff canonical_any_def)
  show "numbers_ok (JObj (opt_map k sorted_any m))"
    using fixed by (auto simp: opt_map_def map_value_def numbers_ok_simps)
  show "depth x \<le> 9001" if "(k', x) \<in> set (opt_map k sorted_any m)"
  proof -
    have x: "x = JObj (map (\<lambda>(k, v). (k, sorted_any v)) (sort_key fst m))"
      using that by (auto simp: opt_map_def map_value_def split: if_splits)
    have "depth x \<le> Suc 9000" unfolding x depth_bounds using fixed by auto
    then show ?thesis by simp
  qed
qed

lemma rules_ok:
  assumes "list_all (canonical_rule ce) rs"
  shows "numbers_ok (JObj (opt_rules k rs))" "(k', x) \<in> set (opt_rules k rs) \<Longrightarrow> depth x \<le> 9002"
proof -
  have fixed: "numbers_ok (rule_value r)" "depth (rule_value r) \<le> 9001" if "r \<in> set rs" for r
    using assms that rule_value_ok by (auto simp: list_all_iff)
  show "numbers_ok (JObj (opt_rules k rs))" using fixed by (auto simp: opt_rules_def numbers_ok_simps)
  show "depth x \<le> 9002" if "(k', x) \<in> set (opt_rules k rs)"
  proof -
    have x: "x = JArr (map rule_value rs)" using that by (auto simp: opt_rules_def split: if_splits)
    have "depth x \<le> Suc 9001" unfolding x depth_bounds using fixed by auto
    then show ?thesis by simp
  qed
qed

lemma spec_value_ok:
  assumes "canonical_spec ce s"
  shows "numbers_ok (spec_value s)" "depth (spec_value s) \<le> 9003"
proof -
  note can = assms [unfolded canonical_spec_def]
  note parts = rules_ok [of ce "sp_ParameterRules s"] extensions_ok [of ce "sp_Extensions s"]
  show "numbers_ok (spec_value s)" using can parts
    unfolding spec_value_def
    by (simp only: numbers_ok_opt numbers_ok_Cons numbers_ok_members append.simps snd_conv numbers_ok_simps(6) simp_thms)
  have "depth x \<le> 9002" if "(k, x) \<in> set (opt_rules k' (sp_ParameterRules s))" for k k' x
    using parts(2) that can by blast
  moreover have "depth x \<le> 9001" if "(k, x) \<in> set (opt_map k' sorted_any (sp_Extensions s))" for k k' x
    using parts(4) that can by blast
  ultimately show "depth (spec_value s) \<le> 9003"
    unfolding spec_value_def depth_bounds(1) [of _ 9002, simplified]
    by (fastforce dest: depth_members(4,5) depth_opt)
qed

lemma card_text_decodes:
  assumes "canonical_spec ce s"
  shows "decode_first zero_spec (strict_struct (spec_fields ce)) (card_text s) = Some s"
    "modelSpecJSONHasEngineArgsKey (card_text s)"
proof -
  have p: "json_parse (card_text s) = Some (spec_value s)"
    unfolding card_text_def using spec_value_ok [OF assms] by (intro json_parse_indent(2)) (simp_all add: maxNestingDepth_def)
  then show "decode_first zero_spec (strict_struct (spec_fields ce)) (card_text s) = Some s"
    using spec_stores [OF assms] by (rule decode_first_stores)
  show "modelSpecJSONHasEngineArgsKey (card_text s)"
    unfolding modelSpecJSONHasEngineArgsKey_def p by (simp add: spec_value_def)
qed

text \<open>A valid card is loaded as what was written, whatever was on disk before.\<close>

lemma card_loads:
  assumes "canonical_spec ce s" "validateModelSpec ce s = Inr s" "fs p = Some (card_text s)" "\<not> read_err p"
  shows "LoadModelSpecFile ce read_err p fs = Inr s"
  using assms by (simp add: LoadModelSpecFile_def read_file_def ParseModelSpecBytes_def card_text_decodes)

section \<open>Normalisation settles\<close>

lemma prefix_contains: "has_prefix xs p \<Longrightarrow> contains xs p"
  by (cases xs) (auto simp: has_prefix_def)

lemma contains_suffix: "suffix p xs \<Longrightarrow> contains xs p"
proof (induction xs)
  case (Cons x xs)
  then show ?case using prefix_contains [of "x # xs" p] by (auto simp: suffix_Cons has_prefix_def)
qed simp

lemma trim_left_suffix:
  assumes "suffix (c # w) s" "graphic c"
  shows "suffix (c # w) (trim_left s)"
  using assms
proof (induction s rule: trim_left.induct)
  case (1 s)
  show ?case
  proof (cases "leading_space s")
    case None
    then show ?thesis using 1(2) by (simp add: trim_left.simps [of s])
  next
    case (Some p)
    then have p: "p \<in> set space_runes" "prefix p s"
      by (auto simp: leading_space_def find_Some_iff has_prefix_def in_set_conv_nth)
    obtain u where u: "s = p @ u" using p(2) by (auto simp: prefix_def)
    obtain z where z: "s = z @ c # w" using 1(2) by (auto simp: suffix_def)
    have "suffix (c # w) u"
    proof (cases "length p \<le> length z")
      case True
      then have "drop (length p) s = drop (length p) z @ c # w" unfolding z by simp
      then have "u = drop (length p) z @ c # w" by (simp add: u)
      then show ?thesis by (auto simp: suffix_def)
    next
      case False
      then obtain x where x: "p = z @ x" "x \<noteq> []" using u z by (auto simp: append_eq_append_conv2 Cons_eq_append_conv)
      then have h: "hd x = c" using u z by (cases x) auto
      have "\<forall>p \<in> set space_runes. \<forall>q \<in> set p. \<not> graphic q" by code_simp
      then show ?thesis using p(1) x h 1(3) by (metis hd_in_set in_set_conv_decomp append_assoc Un_iff set_append)
    qed
    moreover have "drop (length p) s = u" by (simp add: u)
    ultimately show ?thesis using 1(1) [OF Some _ 1(3)] Some by (simp add: trim_left.simps [of s])
  qed
qed

lemma trim_right_graphic: "w \<noteq> [] \<Longrightarrow> graphic (last w) \<Longrightarrow> trim_right w = w"
proof -
  assume w: "w \<noteq> []" "graphic (last w)"
  have "\<not> suffix x w" if "x \<in> set space_runes" for x
    using space_rune_ends [OF that] space_runes_nonempty [OF that] w by (auto simp: suffix_def)
  then have "trailing_space w = None" by (auto simp: trailing_space_def find_None_iff has_suffix_def)
  then show ?thesis by (simp add: trim_right.simps [of w])
qed

lemma flag_is_kept: "contains (trim_space (s @ '' --embedding'')) ''--embedding''"
proof -
  have g: "graphic (CHR ''-'')" "graphic (CHR ''g'')" by (simp_all add: graphic_def)
  have s: "suffix ''--embedding'' (trim_left (s @ '' --embedding''))"
    using g by (intro trim_left_suffix) (auto simp: suffix_def)
  then have "trim_left (s @ '' --embedding'') \<noteq> []" "last (trim_left (s @ '' --embedding'')) = CHR ''g''"
    by (auto simp: suffix_def)
  then have "trim_space (s @ '' --embedding'') = trim_left (s @ '' --embedding'')"
    unfolding trim_space_def using g by (intro trim_right_graphic) auto
  then show ?thesis using contains_suffix [OF s] by simp
qed

lemma no_flag_added_twice:
  "ensureLlamacppEmbeddingArgs c = (c', b) \<Longrightarrow> ensureLlamacppEmbeddingArgs c' = (c', False)"
  using flag_is_kept [of "sp_EngineArgs (cg_Spec c)"]
  by (auto simp: ensureLlamacppEmbeddingArgs_def Let_def split: if_splits)

lemma sync_card_cases:
  assumes "sync_card c = Inr (c', b)"
  obtains v w b1 b2 where "syncContextSizeFromEngineArgs (Some (card_view c)) = Inr (Some v, b1)"
    "syncMaxOutputTokensFromContext (Some v) = (Some w, b2)" "c' = with_view c w" "b = (b1 \<or> b2)"
  using assms
  by (auto simp: sync_card_def syncContextSizeFromEngineArgs_def syncMaxOutputTokensFromContext_def Let_def
      split: sum.splits option.splits if_splits)

lemma context_size_settles:
  "syncContextSizeFromEngineArgs (Some v) = Inr (Some w, b) \<Longrightarrow>
   cc_Kind w = cc_Kind v \<and> cc_Args w = cc_Args v \<and> cc_Mode w = cc_Mode v \<and>
   syncContextSizeFromEngineArgs (Some (w\<lparr>cc_MaxOutputToks := m\<rparr>)) = Inr (Some (w\<lparr>cc_MaxOutputToks := m\<rparr>), False)"
  by (auto simp: syncContextSizeFromEngineArgs_def split: sum.splits option.splits if_splits)

lemma output_size_settles:
  "syncMaxOutputTokensFromContext (Some v) = (Some w, b) \<Longrightarrow>
   (\<exists>m. w = v\<lparr>cc_MaxOutputToks := m\<rparr>) \<and> syncMaxOutputTokensFromContext (Some w) = (Some w, False)"
  by (auto simp: syncMaxOutputTokensFromContext_def Let_def split: if_splits intro: exI [of _ "cc_MaxOutputToks v"])

lemma sync_settles:
  assumes "sync_card c = Inr (c', b)"
  shows "sync_card c' = Inr (c', False)"
proof -
  obtain v w b1 b2 where
    1: "syncContextSizeFromEngineArgs (Some (card_view c)) = Inr (Some v, b1)" and
    2: "syncMaxOutputTokensFromContext (Some v) = (Some w, b2)" and
    c': "c' = with_view c w" using assms by (rule sync_card_cases)
  note s1 = context_size_settles [OF 1] and s2 = output_size_settles [OF 2]
  obtain m where w: "w = v\<lparr>cc_MaxOutputToks := m\<rparr>" using s2 by blast
  have view: "card_view c' = w"
    using s1 unfolding c' w card_view_def with_view_def by (cases v) simp
  have "with_view c' w = c'" by (simp add: c' with_view_def)
  then show ?thesis using s1 s2 unfolding sync_card_def view w by simp
qed

text \<open>A normalised card is normalised again to itself.\<close>

lemma normalize_settles:
  assumes "NormalizeSpecForEngine c = Inr (c', b, None)"
  shows "NormalizeSpecForEngine c' = Inr (c', False, None)"
proof -
  obtain c1 b1 where 1: "ensureLlamacppEmbeddingArgs c = (c1, b1)" by fastforce
  obtain c2 where 2: "ApplyEngineArgsFromSpec c1 = (None, c2)"
    using assms 1 by (auto simp: NormalizeSpecForEngine_def split: prod.splits option.splits)
  obtain b2 where 3: "sync_card c2 = Inr (c', b2)"
    using assms 1 2 by (auto simp: NormalizeSpecForEngine_def split: sum.splits)
  have c': "\<exists>x y. c' = c2\<lparr>cg_Spec := (cg_Spec c2)\<lparr>sp_ContextSize := x, sp_MaxOutputToks := y\<rparr>\<rparr>"
    using 3 by (elim sync_card_cases) (auto simp: with_view_def)
  have "ensureLlamacppEmbeddingArgs c' = (c', False)"
    using no_flag_added_twice [OF 1] c' 2
    by (auto simp: ensureLlamacppEmbeddingArgs_def ApplyEngineArgsFromSpec_def Let_def
        split: if_splits sum.splits)
  moreover have "ApplyEngineArgsFromSpec c' = (None, c')"
    using 2 c' by (auto simp: ApplyEngineArgsFromSpec_def split: if_splits sum.splits)
  ultimately show ?thesis using sync_settles [OF 3] by (simp add: NormalizeSpecForEngine_def)
qed

text \<open>What normalisation leaves alone, and that it looks at nothing but the engine and the card.\<close>

lemma normalize_keeps:
  assumes "NormalizeSpecForEngine c = Inr (c', b, r)"
  shows "cg_Kind c' = cg_Kind c" "cg_SpecPath c' = cg_SpecPath c" "cg_RunDir c' = cg_RunDir c"
    "sp_Name (cg_Spec c') = sp_Name (cg_Spec c)" "sp_Extensions (cg_Spec c') = sp_Extensions (cg_Spec c)"
    "sp_ParameterRules (cg_Spec c') = sp_ParameterRules (cg_Spec c)"
    "sp_Mode (cg_Spec c') = sp_Mode (cg_Spec c)" "sp_Supports (cg_Spec c') = sp_Supports (cg_Spec c)"
  using assms
  by (auto simp: NormalizeSpecForEngine_def ensureLlamacppEmbeddingArgs_def ApplyEngineArgsFromSpec_def Let_def
      with_view_def elim!: sync_card_cases split: prod.splits option.splits sum.splits if_splits)

lemma normalize_depends:
  assumes "NormalizeSpecForEngine c = Inr (c', b, None)" "cg_Kind d = cg_Kind c" "cg_Spec d = cg_Spec c"
  shows "NormalizeSpecForEngine d = Inr (d\<lparr>cg_Args := cg_Args c', cg_Spec := cg_Spec c'\<rparr>, b, None)"
proof -
  obtain x where e: "ensureLlamacppEmbeddingArgs c = (c\<lparr>cg_Spec := x\<rparr>, snd (ensureLlamacppEmbeddingArgs c))"
      "ensureLlamacppEmbeddingArgs d = (d\<lparr>cg_Spec := x\<rparr>, snd (ensureLlamacppEmbeddingArgs c))"
  proof (rule that [of "cg_Spec (fst (ensureLlamacppEmbeddingArgs c))"])
    show "ensureLlamacppEmbeddingArgs c = (c\<lparr>cg_Spec := cg_Spec (fst (ensureLlamacppEmbeddingArgs c))\<rparr>,
        snd (ensureLlamacppEmbeddingArgs c))"
      by (simp add: ensureLlamacppEmbeddingArgs_def Let_def)
    show "ensureLlamacppEmbeddingArgs d = (d\<lparr>cg_Spec := cg_Spec (fst (ensureLlamacppEmbeddingArgs c))\<rparr>,
        snd (ensureLlamacppEmbeddingArgs c))"
      by (simp add: ensureLlamacppEmbeddingArgs_def Let_def assms(2,3) [symmetric])
  qed
  obtain a where a: "ApplyEngineArgsFromSpec (c\<lparr>cg_Spec := x\<rparr>) = (None, c\<lparr>cg_Spec := x, cg_Args := a\<rparr>)"
    using assms(1) e(1) by (auto simp: NormalizeSpecForEngine_def ApplyEngineArgsFromSpec_def
        split: prod.splits option.splits sum.splits if_splits)
  have args_eq: "p = a" if "c\<lparr>cg_Spec := x, cg_Args := p\<rparr> = c\<lparr>cg_Spec := x, cg_Args := a\<rparr>" for p
    using that by (cases c) simp
  have a': "ApplyEngineArgsFromSpec (d\<lparr>cg_Spec := x\<rparr>) = (None, d\<lparr>cg_Spec := x, cg_Args := a\<rparr>)"
  proof (cases "cg_Kind c = no_engine")
    case True
    then have "zero_args [] = a" using a by (intro args_eq) (simp add: ApplyEngineArgsFromSpec_def)
    then show ?thesis using True assms(2) by (simp add: ApplyEngineArgsFromSpec_def)
  next
    case False
    then obtain p where p: "ParseEngineArgs (cg_Kind c) (sp_EngineArgs x) = Inr p"
      using a by (simp add: ApplyEngineArgsFromSpec_def split: sum.splits)
    then have "p = a" using False a by (intro args_eq) (simp add: ApplyEngineArgsFromSpec_def)
    then show ?thesis using False p assms(2) by (simp add: ApplyEngineArgsFromSpec_def)
  qed
  have view: "card_view (d\<lparr>cg_Spec := x, cg_Args := a\<rparr>) = card_view (c\<lparr>cg_Spec := x, cg_Args := a\<rparr>)"
    using assms(2) by (simp add: card_view_def)
  obtain b' where s: "sync_card (c\<lparr>cg_Spec := x, cg_Args := a\<rparr>) = Inr (c', b')"
      "b = (snd (ensureLlamacppEmbeddingArgs c) \<or> b')"
    using assms(1) e(1) a by (auto simp: NormalizeSpecForEngine_def split: prod.splits sum.splits)
  have "sync_card (d\<lparr>cg_Spec := x, cg_Args := a\<rparr>) = Inr (d\<lparr>cg_Args := cg_Args c', cg_Spec := cg_Spec c'\<rparr>, b')"
    using s(1) by (elim sync_card_cases) (simp add: sync_card_def view with_view_def)
  then show ?thesis using e(2) a' s(2) by (simp add: NormalizeSpecForEngine_def)
qed

lemma obj_put_lookup: "map_of (obj_put k v m) j = (if j = k then Some v else map_of m j)"
  by (induction k v m rule: obj_put.induct) auto

section \<open>The order of the extensions\<close>

text \<open>In memory new extensions are at the end; on disk they are in the order of their keys.\<close>

definition in_key_order :: "model_spec \<Rightarrow> model_spec" where
  "in_key_order s = s\<lparr>sp_Extensions := sort_key fst (sp_Extensions s)\<rparr>"

lemma in_key_order_simps [simp]:
  "sp_Name (in_key_order s) = sp_Name s" "sp_Mode (in_key_order s) = sp_Mode s"
  "sp_Supports (in_key_order s) = sp_Supports s" "sp_EngineArgs (in_key_order s) = sp_EngineArgs s"
  "sp_Extensions (in_key_order s) = sort_key fst (sp_Extensions s)"
  by (simp_all add: in_key_order_def)

lemma sort_key_again: "sort_key f (sort_key f xs) = sort_key f xs"
  by (rule sort_key_id_if_sorted) simp

lemma card_text_order: "card_text (in_key_order s) = card_text s"
proof -
  have "opt_map k f (sort_key fst m) = opt_map k f m" for k and f :: "json \<Rightarrow> json" and m
    by (simp add: opt_map_def map_value_def sort_key_again) (metis length_0_conv length_sort)
  then show ?thesis by (simp add: card_text_def spec_value_def in_key_order_def)
qed

lemma map_of_order:
  "canonical_spec ce (in_key_order s) \<Longrightarrow> map_of (sp_Extensions (in_key_order s)) = map_of (sp_Extensions s)"
proof -
  assume "canonical_spec ce (in_key_order s)"
  then have d: "distinct (map fst (sort_key fst (sp_Extensions s)))"
    by (simp add: canonical_spec_def canonical_map_def)
  have "mset (map fst (sort_key fst (sp_Extensions s))) = mset (map fst (sp_Extensions s))" by simp
  then have "distinct (map fst (sp_Extensions s))" using d by (metis mset_eq_imp_distinct_iff)
  then show ?thesis using d by (simp add: map_of_inject_set del: mset_map)
qed

lemma valid_in_order:
  assumes "validateModelSpec ce s0 = Inr s" "canonical_spec ce (in_key_order s)"
  shows "validateModelSpec ce (in_key_order s) = Inr (in_key_order s)"
proof -
  note again = validate_again [OF assms(1)]
  note order = map_of_order [OF assms(2)]
  have e: "card_errors ce (in_key_order s) = card_errors ce s"
    using order unfolding card_errors_def validateTTSSpeedExtension_def validateSystemOneExtension_def Let_def
    by (simp add: in_key_order_def)
  show ?thesis
  proof (cases "unknownSupports (sp_Supports s) = []")
    case True
    then show ?thesis using again e by (simp add: validateModelSpec_def Let_def split: if_splits)
  next
    case False
    let ?v = "JArr (map JStr (unknownSupports (sp_Supports s)))"
    have x: "s\<lparr>sp_Extensions := obj_put ''_unknown_flag'' ?v (sp_Extensions s)\<rparr> = s" "card_errors ce s = []"
      using again False by (simp_all add: validateModelSpec_def Let_def split: if_splits)
    have "obj_put ''_unknown_flag'' ?v (sp_Extensions s) = sp_Extensions s"
      using arg_cong [OF x(1), of sp_Extensions] by simp
    then have "map_of (sp_Extensions s) ''_unknown_flag'' = Some ?v"
      using obj_put_lookup [of "''_unknown_flag''" ?v "sp_Extensions s" "''_unknown_flag''"] by simp
    then have "obj_put ''_unknown_flag'' ?v (sp_Extensions (in_key_order s)) = sp_Extensions (in_key_order s)"
      using order by (intro obj_put_known) simp
    then have "(in_key_order s)\<lparr>sp_Extensions := obj_put ''_unknown_flag'' ?v (sp_Extensions (in_key_order s))\<rparr> =
        in_key_order s" by simp
    then show ?thesis using e False x(2) by (simp add: validateModelSpec_def Let_def del: in_key_order_simps(5))
  qed
qed

text \<open>C37: A card that was written is the card that is loaded: every field, every rule and every extension
  survives the JSON text, and validation of what it has validated changes nothing. Only the extensions
  come back in the order of their keys.\<close>
theorem written_card_is_loaded:
  assumes "WriteModelSpecFile io p s fs = (None, tr)" "validateModelSpec ce s0 = Inr s"
    and "canonical_spec ce (in_key_order s)" "\<not> read_err p"
  shows "LoadModelSpecFile ce read_err p (last tr) = Inr (in_key_order s)"
proof -
  have "last tr p = Some (card_text (in_key_order s))"
    using assms(1) unfolding WriteModelSpecFile_def card_text_order by (rule card.put_ok)
  then show ?thesis using card_loads [OF assms(3) valid_in_order [OF assms(2,3)]] assms(4) by blast
qed

section \<open>Concrete cards\<close>

definition example_card :: "string \<Rightarrow> model_spec" where
  "example_card raw = zero_spec\<lparr>sp_Name := ''m'', sp_Mode := ''chat'', sp_EngineArgs := raw\<rparr>"

definition example_env :: card_env where
  "example_env = \<lparr>ce_float = Some, ce_value = (\<lambda>l. case atoi l of Some n \<Rightarrow> of_int n | None \<Rightarrow> 0)\<rparr>"

lemma example_canonical: "canonical_spec example_env (example_card raw)"
  by (simp add: canonical_spec_def example_card_def zero_spec_def canonical_map_def in_int64_def)

lemma example_valid: "validateModelSpec example_env (example_card raw) = Inr (example_card raw)"
  by (simp add: validateModelSpec_def card_errors_def example_card_def zero_spec_def card_modes_def
      option_list_def validateTTSSpeedExtension_def validateSystemOneExtension_def unknownSupports_def
      insertion_sort_def)

text \<open>A card with a price, a rule, an extension and a capability nobody knows.\<close>

definition rich_card :: model_spec where
  "rich_card = (example_card ''--seed 1'')\<lparr>sp_Supports := [(''supports_n'', True), (''supports_x'', True)],
     sp_Pricing := [(''input'', ''0.5'')],
     sp_ParameterRules := [zero_rule\<lparr>pr_Name := ''top_k'', pr_Type := ''int'', pr_Default := JNum ''4'',
       pr_Min := Some ''1'', pr_Max := Some ''64''\<rparr>],
     sp_Extensions := [(''media'', JArr [JStr ''music'', JBool True])]\<rparr>"

definition tagged_card :: model_spec where
  "tagged_card = rich_card\<lparr>sp_Extensions := [(''media'', JArr [JStr ''music'', JBool True]),
     (''_unknown_flag'', JArr [JStr ''supports_x''])]\<rparr>"

lemma tagged_canonical: "canonical_spec example_env (in_key_order tagged_card)"
  by code_simp

lemma rich_valid: "validateModelSpec example_env rich_card = Inr tagged_card"
proof -
  have "case validateModelSpec example_env rich_card of Inr s \<Rightarrow> s = tagged_card | _ \<Rightarrow> False" by code_simp
  then show ?thesis by (auto split: sum.splits)
qed

theorem written_card_is_loaded_witness:
  "\<exists>tr. WriteModelSpecFile fault_free (''/c'', ''card'') tagged_card (\<lambda>p. None) = (None, tr) \<and>
     LoadModelSpecFile example_env (\<lambda>p. False) (''/c'', ''card'') (last tr) = Inr (in_key_order tagged_card)"
proof -
  obtain tr where w: "WriteModelSpecFile fault_free (''/c'', ''card'') tagged_card (\<lambda>p. None) = (None, tr)"
    using card.put_succeeds unfolding WriteModelSpecFile_def by blast
  from written_card_is_loaded [OF w rich_valid tagged_canonical, of "\<lambda>p. False"] show ?thesis using w by blast
qed

end
