(* ===== verification/Tracker.thy ===== *)
theory Tracker
  imports Handoff
begin

text \<open>
  The restart tracker: \<open>internal/handoff/tracker.go\<close>. A \<open>Request\<close> bumps the generation file, then
  takes the mutex to register it and start an observer; the observers in flight, the requests
  between their two halves and the files are the state, and \<open>tracker_step\<close> interleaves them. Probe
  answers and clock readings are arguments. \<open>settle\<close> is the generation guard of every write an
  observer makes.
\<close>

section \<open>Data\<close>

datatype tracker_state = StateIdle | StateWatching | StateConfirmed | StateNoSupervisor | StateUnverified

record status =
  st_State :: tracker_state
  st_Supervision :: supervision
  st_Generation :: string
  st_RequestedAt :: "int option"
  st_ObservedDownAt :: "int option"
  st_ObservedBackAt :: "int option"

record receipt =
  rc_Signaled :: bool
  rc_Generation :: string
  rc_Supervision :: supervision

text \<open>\<open>tc_Probe\<close> says whether a probe is wired.\<close>

record tracker_config =
  tc_RunDir :: string
  tc_Probe :: bool
  tc_Window :: int
  tc_Interval :: int

definition DefaultWindow :: int where "DefaultWindow = 60000000000"
definition DefaultInterval :: int where "DefaultInterval = 2000000000"

definition tracker_defaults :: "tracker_config \<Rightarrow> tracker_config" where
  "tracker_defaults cfg =
     (let cfg = (if tc_Window cfg \<le> 0 then cfg\<lparr>tc_Window := DefaultWindow\<rparr> else cfg)
      in if tc_Interval cfg \<le> 0 then cfg\<lparr>tc_Interval := DefaultInterval\<rparr> else cfg)"

text \<open>What an observer has established so far; \<open>Baseline\<close> is before its first probe. The deadline
  is set before that probe.\<close>

datatype ob_phase = Baseline | Polling int bool bool

record observer =
  ob_gen :: string
  ob_phase :: ob_phase
  ob_cancelled :: bool

record tracker =
  tr_status :: status
  tr_observers :: "observer list"
  tr_pending :: "string list"
  tr_fs :: fs

definition NewTracker :: "(string \<Rightarrow> bool) \<Rightarrow> (path \<Rightarrow> bool) \<Rightarrow> tracker_config \<Rightarrow> fs \<Rightarrow> tracker" where
  "NewTracker time_ok read_err cfg fs =
     \<lparr>tr_status = \<lparr>st_State = StateIdle,
        st_Supervision = loadSupervision time_ok read_err (tc_RunDir cfg) fs,
        st_Generation = [], st_RequestedAt = None, st_ObservedDownAt = None,
        st_ObservedBackAt = None\<rparr>,
      tr_observers = [], tr_pending = [], tr_fs = fs\<rparr>"

section \<open>Reading the status\<close>

definition Relaunching :: "status \<Rightarrow> bool" where
  "Relaunching s =
     (case st_State s of
        StateWatching \<Rightarrow> True
      | StateConfirmed \<Rightarrow> st_ObservedBackAt s = None
      | _ \<Rightarrow> False)"

definition Relaunch :: "(int \<Rightarrow> string) \<Rightarrow> status \<Rightarrow> string" where
  "Relaunch fmt_time s =
     (case st_ObservedBackAt s of
        None \<Rightarrow> []
      | Some t \<Rightarrow> st_Generation s @ ''@'' @ fmt_time t)"

section \<open>Request\<close>

definition request_status :: "tracker_config \<Rightarrow> int \<Rightarrow> string \<Rightarrow> status \<Rightarrow> status" where
  "request_status cfg now gen s =
     s\<lparr>st_Generation := gen, st_RequestedAt := Some now, st_ObservedDownAt := None,
       st_ObservedBackAt := None,
       st_State := (if \<not> tc_Probe cfg \<or> tc_RunDir cfg = [] then StateUnverified else StateWatching)\<rparr>"

text \<open>The half of \<open>Request\<close> under the mutex. Only the latest observer can still be running
  uncancelled, so cancelling it cancels all.\<close>

definition request_register :: "tracker_config \<Rightarrow> int \<Rightarrow> string \<Rightarrow> tracker \<Rightarrow> tracker \<times> receipt" where
  "request_register cfg now gen t =
     (let st = request_status cfg now gen (tr_status t);
          obs = map (\<lambda>ob. ob\<lparr>ob_cancelled := True\<rparr>) (tr_observers t)
      in (t\<lparr>tr_status := st, tr_pending := remove1 gen (tr_pending t),
            tr_observers :=
              (if st_State st = StateWatching
               then obs @ [\<lparr>ob_gen = gen, ob_phase = Baseline, ob_cancelled = False\<rparr>] else obs)\<rparr>,
          \<lparr>rc_Signaled = (tc_RunDir cfg \<noteq> []), rc_Generation = gen,
            rc_Supervision = st_Supervision st\<rparr>))"

section \<open>Observing\<close>

definition settle :: "string \<Rightarrow> (status \<Rightarrow> status) \<Rightarrow> status \<Rightarrow> status" where
  "settle gen mutate s = (if st_Generation s \<noteq> gen then s else mutate s)"

text \<open>The baseline probe: \<open>now0\<close> starts the window, \<open>now1\<close> is read after a failed probe.\<close>

definition observe_baseline ::
  "tracker_config \<Rightarrow> string \<Rightarrow> int \<Rightarrow> bool \<Rightarrow> int \<Rightarrow> status \<Rightarrow> status \<times> ob_phase" where
  "observe_baseline cfg gen now0 alive now1 s =
     (if \<not> alive
      then (settle gen (\<lambda>s. s\<lparr>st_ObservedDownAt := Some now1\<rparr>) s, Polling (now0 + tc_Window cfg) True False)
      else (s, Polling (now0 + tc_Window cfg) False False))"

text \<open>The end of an iteration once nothing returned earlier.\<close>

definition observe_deadline ::
  "string \<Rightarrow> int \<Rightarrow> int \<Rightarrow> bool \<Rightarrow> bool \<Rightarrow> status \<Rightarrow> status \<times> ob_phase option" where
  "observe_deadline gen now deadline down confirmed s =
     (if now < deadline then (s, Some (Polling deadline down confirmed))
      else if \<not> down then (settle gen (\<lambda>s. s\<lparr>st_State := StateNoSupervisor\<rparr>) s, None)
      else if \<not> confirmed then (settle gen (\<lambda>s. s\<lparr>st_State := StateUnverified\<rparr>) s, None)
      else (s, None))"

text \<open>One iteration after the sleep: the new status, whether the notebook is written, and the
  phase the observer goes on in, \<open>None\<close> when it returns.\<close>

definition observe_tick ::
  "string \<Rightarrow> int \<Rightarrow> bool \<Rightarrow> bool \<Rightarrow> bool \<Rightarrow> int \<Rightarrow> status \<Rightarrow> status \<times> bool \<times> ob_phase option" where
  "observe_tick gen deadline down confirmed alive now s =
     (if \<not> alive \<and> \<not> down then
        (case observe_deadline gen now deadline True True
            (settle gen (\<lambda>s. s\<lparr>st_State := StateConfirmed, st_ObservedDownAt := Some now,
               st_Supervision := SupervisionConfirmed\<rparr>) s) of
           (s', nxt) \<Rightarrow> (s', True, nxt))
      else if alive \<and> down then
        (settle gen (\<lambda>s. s\<lparr>st_State := StateConfirmed, st_ObservedBackAt := Some now,
           st_Supervision := SupervisionConfirmed\<rparr>) s, \<not> confirmed, None)
      else
        (case observe_deadline gen now deadline down confirmed s of
           (s', nxt) \<Rightarrow> (s', False, nxt)))"

text \<open>An observation on its own, over the probe answers and clock readings of its iterations.\<close>

fun observe_run :: "string \<Rightarrow> ob_phase \<Rightarrow> (bool \<times> int) list \<Rightarrow> status \<Rightarrow> status \<times> ob_phase option" where
  "observe_run gen (Polling deadline down confirmed) ((alive, now) # samples) s =
     (case observe_tick gen deadline down confirmed alive now s of
        (s', p, None) \<Rightarrow> (s', None)
      | (s', p, Some ph) \<Rightarrow> observe_run gen ph samples s')"
| "observe_run gen ph samples s = (s, Some ph)"

section \<open>All together\<close>

fun drop_at :: "nat \<Rightarrow> 'a list \<Rightarrow> 'a list" where
  "drop_at i [] = []"
| "drop_at 0 (x # xs) = xs"
| "drop_at (Suc i) (x # xs) = x # drop_at i xs"

definition replace_observer :: "nat \<Rightarrow> ob_phase option \<Rightarrow> observer list \<Rightarrow> observer list" where
  "replace_observer i nxt obs =
     (case nxt of None \<Rightarrow> drop_at i obs | Some ph \<Rightarrow> obs[i := (obs ! i)\<lparr>ob_phase := ph\<rparr>])"

text \<open>A generation no request in flight carries: two requests in the same nanosecond are told apart
  by the suffix, three are not.\<close>

definition fresh_generation :: "string \<Rightarrow> tracker \<Rightarrow> bool" where
  "fresh_generation gen t \<longleftrightarrow> gen \<noteq> [] \<and> gen \<notin> set (tr_pending t) \<and>
     gen \<notin> ob_gen ` set (tr_observers t) \<and> gen \<noteq> st_Generation (tr_status t)"

inductive tracker_step :: "(int \<Rightarrow> string) \<Rightarrow> tracker_config \<Rightarrow> tracker \<Rightarrow> tracker \<Rightarrow> bool"
  for fmt_time :: "int \<Rightarrow> string" and cfg :: tracker_config where
  bump: "Bump io read_err nano (tc_RunDir cfg) (tr_fs t) = (Inr gen, tr) \<Longrightarrow>
    fresh_generation gen t \<or> tc_RunDir cfg = [] \<Longrightarrow>
    tracker_step fmt_time cfg t (t\<lparr>tr_fs := last tr, tr_pending := gen # tr_pending t\<rparr>)"
| bump_failed: "Bump io read_err nano (tc_RunDir cfg) (tr_fs t) = (Inl e, tr) \<Longrightarrow>
    tracker_step fmt_time cfg t (t\<lparr>tr_fs := last tr\<rparr>)"
| register: "gen \<in> set (tr_pending t) \<Longrightarrow> request_register cfg now gen t = (t', rc) \<Longrightarrow>
    tracker_step fmt_time cfg t t'"
| baseline: "i < length (tr_observers t) \<Longrightarrow> tr_observers t ! i = ob \<Longrightarrow> ob_phase ob = Baseline \<Longrightarrow>
    observe_baseline cfg (ob_gen ob) now0 alive now1 (tr_status t) = (s, ph) \<Longrightarrow>
    tracker_step fmt_time cfg t
      (t\<lparr>tr_status := s, tr_observers := replace_observer i (Some ph) (tr_observers t)\<rparr>)"
| tick: "i < length (tr_observers t) \<Longrightarrow> tr_observers t ! i = ob \<Longrightarrow>
    ob_phase ob = Polling deadline down confirmed \<Longrightarrow>
    observe_tick (ob_gen ob) deadline down confirmed alive now (tr_status t) = (s, persist, nxt) \<Longrightarrow>
    fs = (if persist then last (persistSupervision io fmt_time (tc_RunDir cfg) (ob_gen ob) now (tr_fs t))
          else tr_fs t) \<Longrightarrow>
    tracker_step fmt_time cfg t
      (t\<lparr>tr_status := s, tr_observers := replace_observer i nxt (tr_observers t), tr_fs := fs\<rparr>)"
| cancelled: "i < length (tr_observers t) \<Longrightarrow> ob_cancelled (tr_observers t ! i) \<Longrightarrow>
    tracker_step fmt_time cfg t (t\<lparr>tr_observers := drop_at i (tr_observers t)\<rparr>)"

inductive_cases tracker_stepE: "tracker_step fmt_time cfg t t'"

inductive tracker_reachable :: "(int \<Rightarrow> string) \<Rightarrow> tracker_config \<Rightarrow> tracker \<Rightarrow> bool"
  for fmt_time :: "int \<Rightarrow> string" and cfg :: tracker_config where
  start: "tracker_reachable fmt_time cfg (NewTracker time_ok read_err cfg fs)"
| step: "tracker_reachable fmt_time cfg t \<Longrightarrow> tracker_step fmt_time cfg t t' \<Longrightarrow>
    tracker_reachable fmt_time cfg t'"

section \<open>The invariant\<close>

text \<open>What the verdicts mean.\<close>

definition status_ok :: "status \<Rightarrow> bool" where
  "status_ok s \<longleftrightarrow>
     (st_State s = StateConfirmed \<longrightarrow>
        st_Supervision s = SupervisionConfirmed \<and> st_ObservedDownAt s \<noteq> None) \<and>
     (st_ObservedBackAt s \<noteq> None \<longrightarrow> st_State s = StateConfirmed) \<and>
     (st_State s = StateNoSupervisor \<longrightarrow> st_ObservedDownAt s = None) \<and>
     (st_State s = StateIdle \<longrightarrow> st_Generation s = [] \<and> st_ObservedDownAt s = None)"

text \<open>What the current generation's observer knows about the status.\<close>

definition phase_agrees :: "status \<Rightarrow> ob_phase \<Rightarrow> bool" where
  "phase_agrees s ph =
     (case ph of
        Baseline \<Rightarrow> st_State s = StateWatching \<and> st_ObservedDownAt s = None \<and> st_ObservedBackAt s = None
      | Polling dl down confirmed \<Rightarrow>
          st_ObservedBackAt s = None \<and> (st_ObservedDownAt s \<noteq> None \<longleftrightarrow> down) \<and>
          st_State s = (if confirmed then StateConfirmed else StateWatching) \<and> (confirmed \<longrightarrow> down))"

definition tracker_inv :: "tracker \<Rightarrow> bool" where
  "tracker_inv t \<longleftrightarrow>
     status_ok (tr_status t) \<and>
     distinct (map ob_gen (tr_observers t)) \<and>
     (\<forall>ob \<in> set (tr_observers t). ob_gen ob = st_Generation (tr_status t) \<longrightarrow>
        \<not> ob_cancelled ob \<and> phase_agrees (tr_status t) (ob_phase ob)) \<and>
     (\<forall>ob \<in> set (tr_observers t). ob_gen ob \<notin> set (tr_pending t) \<and> ob_gen ob \<noteq> []) \<and>
     distinct (filter (\<lambda>g. g \<noteq> []) (tr_pending t)) \<and>
     (st_Generation (tr_status t) \<noteq> [] \<longrightarrow> st_Generation (tr_status t) \<notin> set (tr_pending t)) \<and>
     (st_State (tr_status t) = StateWatching \<longrightarrow>
        (\<exists>ob \<in> set (tr_observers t). ob_gen ob = st_Generation (tr_status t)))"

lemma map_drop_at: "map f (drop_at i xs) = drop_at i (map f xs)"
  by (induction i xs rule: drop_at.induct) auto

lemma set_drop_at_subset: "set (drop_at i xs) \<subseteq> set xs"
  by (induction i xs rule: drop_at.induct) auto

lemma distinct_drop_at: "distinct xs \<Longrightarrow> distinct (drop_at i xs)"
proof (induction i xs rule: drop_at.induct)
  case (3 i x xs)
  then show ?case using set_drop_at_subset [of i xs] by auto
qed auto

lemma set_drop_at: "distinct xs \<Longrightarrow> i < length xs \<Longrightarrow> set (drop_at i xs) = set xs - {xs ! i}"
proof (induction i xs rule: drop_at.induct)
  case (3 i x xs)
  then have "x \<noteq> xs ! i" using nth_mem [of i xs] by fastforce
  then show ?case using 3 by (simp add: insert_Diff_if)
qed simp_all

lemma distinct_remove1_filter:
  "distinct (filter P xs) \<Longrightarrow> P g \<Longrightarrow> g \<notin> set (remove1 g xs)"
  by (induction xs) (auto split: if_splits)

lemma distinct_filter_remove1: "distinct (filter P xs) \<Longrightarrow> distinct (filter P (remove1 g xs))"
  by (simp add: filter_remove1 distinct_remove1)

section \<open>What an observer's write does to the verdict\<close>

lemma settle_other: "st_Generation s \<noteq> gen \<Longrightarrow> settle gen f s = s"
  by (simp add: settle_def)

lemma observe_baseline_other:
  "observe_baseline cfg gen now0 alive now1 s = (s', ph) \<Longrightarrow> st_Generation s \<noteq> gen \<Longrightarrow> s' = s"
  by (auto simp: observe_baseline_def settle_def split: if_splits)

lemma observe_baseline_own:
  assumes "observe_baseline cfg gen now0 alive now1 s = (s', ph)" "st_Generation s = gen"
    "phase_agrees s Baseline" "status_ok s"
  shows "status_ok s' \<and> phase_agrees s' ph \<and> st_Generation s' = gen"
  using assms
  by (auto simp: observe_baseline_def settle_def phase_agrees_def status_ok_def split: if_splits)

lemma observe_deadline_other:
  "observe_deadline gen now dl down confirmed s = (s', nxt) \<Longrightarrow> st_Generation s \<noteq> gen \<Longrightarrow> s' = s"
  by (auto simp: observe_deadline_def settle_def split: if_splits)

lemma observe_deadline_own:
  assumes "observe_deadline gen now dl down confirmed s = (s', nxt)" "st_Generation s = gen"
    "phase_agrees s (Polling dl down confirmed)" "status_ok s"
  shows "status_ok s' \<and> st_Generation s' = gen \<and>
    (case nxt of None \<Rightarrow> st_State s' \<noteq> StateWatching | Some ph \<Rightarrow> phase_agrees s' ph)"
  using assms
  by (auto simp: observe_deadline_def settle_def phase_agrees_def status_ok_def split: if_splits)

lemma observe_tick_other:
  "observe_tick gen dl down confirmed alive now s = (s', p, nxt) \<Longrightarrow> st_Generation s \<noteq> gen \<Longrightarrow> s' = s"
  by (auto simp: observe_tick_def settle_other split: if_splits prod.splits
      dest!: observe_deadline_other)

lemma observe_tick_own:
  assumes "observe_tick gen dl down confirmed alive now s = (s', p, nxt)" "st_Generation s = gen"
    "phase_agrees s (Polling dl down confirmed)" "status_ok s"
  shows "status_ok s' \<and> st_Generation s' = gen \<and>
    (case nxt of None \<Rightarrow> st_State s' \<noteq> StateWatching | Some ph \<Rightarrow> phase_agrees s' ph)"
proof -
  consider "\<not> alive \<and> \<not> down" | "alive \<and> down" | "\<not> (\<not> alive \<and> \<not> down)" "\<not> (alive \<and> down)" by blast
  then show ?thesis
  proof cases
    case 1
    let ?s1 = "settle gen (\<lambda>s. s\<lparr>st_State := StateConfirmed, st_ObservedDownAt := Some now,
        st_Supervision := SupervisionConfirmed\<rparr>) s"
    have "observe_deadline gen now dl True True ?s1 = (s', nxt)"
      using assms(1) 1 by (auto simp: observe_tick_def split: prod.splits)
    moreover have "st_Generation ?s1 = gen" "phase_agrees ?s1 (Polling dl True True)" "status_ok ?s1"
      using assms(2-4) 1 by (auto simp: settle_def phase_agrees_def status_ok_def)
    ultimately show ?thesis using observe_deadline_own by blast
  next
    case 2
    then show ?thesis using assms
      by (auto simp: observe_tick_def settle_def phase_agrees_def status_ok_def)
  next
    case 3
    then have "observe_deadline gen now dl down confirmed s = (s', nxt)"
      using assms(1) by (auto simp: observe_tick_def split: prod.splits if_splits)
    then show ?thesis using observe_deadline_own assms(2-4) by blast
  qed
qed

section \<open>The invariant is preserved\<close>

lemma inv_replace:
  assumes inv: "tracker_inv t" and i: "i < length (tr_observers t)"
    and gen: "st_Generation s = st_Generation (tr_status t)"
    and other: "ob_gen (tr_observers t ! i) \<noteq> st_Generation (tr_status t) \<Longrightarrow> s = tr_status t"
    and own: "ob_gen (tr_observers t ! i) = st_Generation (tr_status t) \<Longrightarrow>
      status_ok s \<and> (case nxt of None \<Rightarrow> st_State s \<noteq> StateWatching | Some ph \<Rightarrow> phase_agrees s ph)"
  shows "tracker_inv (t\<lparr>tr_status := s, tr_observers := replace_observer i nxt (tr_observers t), tr_fs := fs\<rparr>)"
proof -
  let ?obs = "tr_observers t" and ?ob = "tr_observers t ! i"
  let ?new = "replace_observer i nxt ?obs"
  have dist: "distinct (map ob_gen ?obs)" using inv by (simp add: tracker_inv_def)
  then have dobs: "distinct ?obs" by (simp add: distinct_map)
  have mem: "?ob \<in> set ?obs" using i by simp
  have gens: "ob_gen ob \<noteq> ob_gen ?ob" if "ob \<in> set ?obs - {?ob}" for ob
    using dist that mem by (auto simp: distinct_map dest: inj_onD)
  have rest: "set ?new - (case nxt of None \<Rightarrow> {} | Some ph \<Rightarrow> {?ob\<lparr>ob_phase := ph\<rparr>}) \<subseteq> set ?obs - {?ob}"
    "set ?obs - {?ob} \<subseteq> set ?new"
    using set_drop_at [OF dobs i] set_update_distinct [OF dobs i]
    by (auto simp: replace_observer_def split: option.splits)
  have "map ob_gen ?new = (case nxt of None \<Rightarrow> drop_at i (map ob_gen ?obs) | Some ph \<Rightarrow> map ob_gen ?obs)"
    using i by (auto simp: replace_observer_def map_drop_at map_update list_update_same_conv split: option.splits)
  then have dist': "distinct (map ob_gen ?new)" using dist by (auto simp: distinct_drop_at split: option.splits)
  have gen_sub: "ob_gen ` set ?new \<subseteq> ob_gen ` set ?obs"
    using rest(1) mem by (auto split: option.splits)
  note I = inv [unfolded tracker_inv_def]
  have ok: "status_ok s" using own other I by (cases "ob_gen ?ob = st_Generation (tr_status t)") auto
  have agree: "\<not> ob_cancelled ob \<and> phase_agrees s (ob_phase ob)"
    if new: "ob \<in> set ?new" and cur: "ob_gen ob = st_Generation s" for ob
  proof (cases "ob \<in> set ?obs - {?ob}")
    case True
    then have "s = tr_status t" using gens [OF True] cur gen other by auto
    then show ?thesis using True I cur by auto
  next
    case False
    then obtain ph where ph: "nxt = Some ph" "ob = ?ob\<lparr>ob_phase := ph\<rparr>"
      using rest(1) new False by (cases nxt) auto
    then have "ob_gen ?ob = st_Generation (tr_status t)" using cur gen by simp
    then show ?thesis using own ph I mem by auto
  qed
  have watch: "\<exists>ob \<in> set ?new. ob_gen ob = st_Generation s" if w: "st_State s = StateWatching"
  proof (cases "ob_gen ?ob = st_Generation (tr_status t)")
    case True
    then obtain ph where "nxt = Some ph" using own w by (cases nxt) auto
    then have "?ob\<lparr>ob_phase := ph\<rparr> \<in> set ?new" using i by (simp add: replace_observer_def set_update_memI)
    then show ?thesis using True gen by (intro bexI [of _ "?ob\<lparr>ob_phase := ph\<rparr>"]) simp_all
  next
    case False
    then obtain ob where "ob \<in> set ?obs" "ob_gen ob = st_Generation (tr_status t)"
      using other w I by auto
    then have "ob \<in> set ?new" using rest(2) False by auto
    then show ?thesis using \<open>ob_gen ob = _\<close> gen by auto
  qed
  have "\<forall>ob \<in> set ?new. ob_gen ob \<notin> set (tr_pending t) \<and> ob_gen ob \<noteq> []"
  proof
    fix ob assume "ob \<in> set ?new"
    then have "ob_gen ob \<in> ob_gen ` set ?obs" by (intro subsetD [OF gen_sub] imageI)
    then obtain ob0 where "ob0 \<in> set ?obs" "ob_gen ob = ob_gen ob0" by (rule imageE)
    then show "ob_gen ob \<notin> set (tr_pending t) \<and> ob_gen ob \<noteq> []" using I by simp
  qed
  then show ?thesis
    unfolding tracker_inv_def using ok agree watch dist' I gen by auto
qed

lemma inv_bump:
  assumes "tracker_inv t" "fresh_generation gen t \<or> gen = []"
  shows "tracker_inv (t\<lparr>tr_fs := fs, tr_pending := gen # tr_pending t\<rparr>)"
  using assms by (auto simp: tracker_inv_def fresh_generation_def)

lemma inv_register:
  assumes inv: "tracker_inv t" and g: "gen \<in> set (tr_pending t)"
    and run: "tc_RunDir cfg = [] \<longleftrightarrow> gen = []"
    and r: "request_register cfg now gen t = (t', rc)"
  shows "tracker_inv t'"
proof -
  let ?st = "request_status cfg now gen (tr_status t)"
  let ?obs = "map (\<lambda>ob. ob\<lparr>ob_cancelled := True\<rparr>) (tr_observers t)"
  note I = inv [unfolded tracker_inv_def]
  have t': "t' = t\<lparr>tr_status := ?st, tr_pending := remove1 gen (tr_pending t), tr_observers :=
      (if st_State ?st = StateWatching
       then ?obs @ [\<lparr>ob_gen = gen, ob_phase = Baseline, ob_cancelled = False\<rparr>] else ?obs)\<rparr>"
    using r by (simp add: request_register_def Let_def)
  have st: "st_Generation ?st = gen" "status_ok ?st" "phase_agrees ?st Baseline \<or> st_State ?st = StateUnverified"
    "st_State ?st = StateWatching \<longrightarrow> gen \<noteq> [] \<and> phase_agrees ?st Baseline"
    "st_State ?st = StateWatching \<or> st_State ?st = StateUnverified"
    using run by (auto simp: request_status_def status_ok_def phase_agrees_def)
  have old: "ob_gen ob \<noteq> gen" if "ob \<in> set (tr_observers t)" for ob using I that g by auto
  have notin: "gen \<notin> set (remove1 gen (tr_pending t))" if "gen \<noteq> []"
    using I distinct_remove1_filter [of "\<lambda>g. g \<noteq> []" "tr_pending t" gen] that by blast
  have gens: "map ob_gen ?obs = map ob_gen (tr_observers t)" by simp
  have pend: "distinct (filter (\<lambda>g. g \<noteq> []) (remove1 gen (tr_pending t)))"
    using I by (blast intro: distinct_filter_remove1)
  show ?thesis
    unfolding t' tracker_inv_def
    using st I old notin pend set_remove1_subset [of gen "tr_pending t"]
    by (auto simp: comp_def image_iff)
qed

lemma inv_cancelled:
  assumes inv: "tracker_inv t" and i: "i < length (tr_observers t)" "ob_cancelled (tr_observers t ! i)"
  shows "tracker_inv (t\<lparr>tr_observers := drop_at i (tr_observers t)\<rparr>)"
proof -
  have "ob_gen (tr_observers t ! i) \<noteq> st_Generation (tr_status t)"
    using inv i nth_mem [OF i(1)] by (auto simp: tracker_inv_def)
  then have "tracker_inv (t\<lparr>tr_status := tr_status t,
      tr_observers := replace_observer i None (tr_observers t), tr_fs := tr_fs t\<rparr>)"
    by (intro inv_replace [OF inv i(1)]) simp_all
  then show ?thesis by (simp add: replace_observer_def)
qed

text \<open>In a run dir that exists the generation is never empty, and in an absent one always.\<close>

lemma Bump_generation:
  "Bump io read_err nano runDir fs = (Inr gen, tr) \<Longrightarrow> runDir = [] \<longleftrightarrow> gen = []"
  by (auto simp: Bump_def Let_def next_generation_trimmed split: if_splits prod.splits option.splits)

definition pending_ok :: "tracker_config \<Rightarrow> tracker \<Rightarrow> bool" where
  "pending_ok cfg t \<longleftrightarrow> (\<forall>g \<in> set (tr_pending t). tc_RunDir cfg = [] \<longleftrightarrow> g = [])"

lemma inv_step:
  assumes "tracker_step fmt_time cfg t t'" "tracker_inv t" "pending_ok cfg t"
  shows "tracker_inv t' \<and> pending_ok cfg t'"
  using assms(1)
proof cases
  case (bump io read_err nano gen tr)
  then show ?thesis
    using inv_bump [OF assms(2), of gen] Bump_generation [OF bump(2)] assms(3)
    by (auto simp: pending_ok_def)
next
  case (bump_failed io read_err nano e tr)
  then show ?thesis using assms(2,3) by (simp add: tracker_inv_def pending_ok_def)
next
  case (register gen now rc)
  then have "tc_RunDir cfg = [] \<longleftrightarrow> gen = []" using assms(3) by (auto simp: pending_ok_def)
  moreover have "tr_pending t' = remove1 gen (tr_pending t)"
    using register by (auto simp: request_register_def Let_def)
  ultimately show ?thesis
    using inv_register [OF assms(2) register(1) _ register(2)] assms(3) set_remove1_subset
    by (fastforce simp: pending_ok_def)
next
  case (baseline i ob now0 alive now1 s ph)
  have gen: "st_Generation s = st_Generation (tr_status t)"
    using baseline(5) by (auto simp: observe_baseline_def settle_def split: if_splits)
  have "tracker_inv (t\<lparr>tr_status := s, tr_observers := replace_observer i (Some ph) (tr_observers t),
      tr_fs := tr_fs t\<rparr>)"
  proof (rule inv_replace [OF assms(2) baseline(2) gen])
    show "s = tr_status t" if "ob_gen (tr_observers t ! i) \<noteq> st_Generation (tr_status t)"
      using observe_baseline_other [OF baseline(5)] that baseline(3) by auto
    assume own: "ob_gen (tr_observers t ! i) = st_Generation (tr_status t)"
    then have "phase_agrees (tr_status t) Baseline" "status_ok (tr_status t)"
      using assms(2) nth_mem [OF baseline(2)] baseline(3,4) by (auto simp: tracker_inv_def)
    then show "status_ok s \<and> (case Some ph of None \<Rightarrow> st_State s \<noteq> StateWatching | Some ph \<Rightarrow> phase_agrees s ph)"
      using observe_baseline_own [OF baseline(5)] own baseline(3) by auto
  qed
  then show ?thesis using baseline(1) assms(3) by (simp add: pending_ok_def)
next
  case (tick i ob deadline down confirmed alive now s persist nxt fs io)
  have gen: "st_Generation s = st_Generation (tr_status t)"
  proof (cases "ob_gen ob = st_Generation (tr_status t)")
    case False
    then show ?thesis using observe_tick_other [OF tick(5)] by simp
  next
    case True
    then have "phase_agrees (tr_status t) (Polling deadline down confirmed)" "status_ok (tr_status t)"
      using assms(2) nth_mem [OF tick(2)] tick(3,4) by (auto simp: tracker_inv_def)
    then show ?thesis using observe_tick_own [OF tick(5)] True by auto
  qed
  have "tracker_inv (t\<lparr>tr_status := s, tr_observers := replace_observer i nxt (tr_observers t), tr_fs := fs\<rparr>)"
  proof (rule inv_replace [OF assms(2) tick(2) gen])
    show "s = tr_status t" if "ob_gen (tr_observers t ! i) \<noteq> st_Generation (tr_status t)"
      using observe_tick_other [OF tick(5)] that tick(3) by auto
    assume own: "ob_gen (tr_observers t ! i) = st_Generation (tr_status t)"
    then have "phase_agrees (tr_status t) (Polling deadline down confirmed)" "status_ok (tr_status t)"
      using assms(2) nth_mem [OF tick(2)] tick(3,4) by (auto simp: tracker_inv_def)
    then show "status_ok s \<and> (case nxt of None \<Rightarrow> st_State s \<noteq> StateWatching | Some ph \<Rightarrow> phase_agrees s ph)"
      using observe_tick_own [OF tick(5)] own tick(3) by auto
  qed
  then show ?thesis using tick(1) assms(3) by (simp add: pending_ok_def)
next
  case (cancelled i)
  then show ?thesis using inv_cancelled [OF assms(2)] assms(3) by (simp add: pending_ok_def)
qed

lemma inv_start: "tracker_inv (NewTracker time_ok read_err cfg fs) \<and>
    pending_ok cfg (NewTracker time_ok read_err cfg fs)"
  by (simp add: NewTracker_def tracker_inv_def status_ok_def pending_ok_def)

lemma inv_reachable:
  "tracker_reachable fmt_time cfg t \<Longrightarrow> tracker_inv t \<and> pending_ok cfg t"
  by (induction rule: tracker_reachable.induct) (simp_all add: inv_start inv_step)

section \<open>Observations end\<close>

text \<open>The clock readings of the iterations are at least the interval apart.\<close>

fun spaced :: "int \<Rightarrow> int \<Rightarrow> (bool \<times> int) list \<Rightarrow> bool" where
  "spaced gap t [] = True"
| "spaced gap t ((alive, now) # samples) = (t + gap \<le> now \<and> spaced gap now samples)"

lemma observe_tick_phase:
  "observe_tick gen dl down confirmed alive now s = (s', p, Some ph) \<Longrightarrow>
     now < dl \<and> (\<exists>down' confirmed'. ph = Polling dl down' confirmed')"
  by (auto simp: observe_tick_def observe_deadline_def split: if_splits prod.splits)

lemma observe_run_ends:
  assumes "spaced gap t samples" "0 < gap" "t < dl" "dl - t < gap * int (length samples)"
  shows "\<exists>s'. observe_run gen (Polling dl down confirmed) samples s = (s', None)"
  using assms
proof (induction samples arbitrary: t down confirmed s)
  case Nil
  then show ?case by simp
next
  case (Cons sample samples)
  obtain alive now where sample: "sample = (alive, now)" by fastforce
  obtain s1 p nxt where tick: "observe_tick gen dl down confirmed alive now s = (s1, p, nxt)"
    by (metis prod.exhaust_sel)
  show ?case
  proof (cases nxt)
    case None
    then show ?thesis using tick sample by simp
  next
    case (Some ph)
    then obtain d c where ph: "ph = Polling dl d c" "now < dl"
      using observe_tick_phase tick by blast
    have "dl - now < gap * int (length samples)"
      using Cons.prems sample ph by (simp add: algebra_simps)
    then show ?thesis using Cons.IH [of now] Cons.prems sample tick Some ph(1,2) by auto
  qed
qed

lemma observe_run_own:
  assumes "observe_run gen ph samples s = (s', nxt)" "st_Generation s = gen" "phase_agrees s ph"
    "status_ok s" "ph \<noteq> Baseline"
  shows "status_ok s' \<and> st_Generation s' = gen \<and>
    (case nxt of None \<Rightarrow> st_State s' \<noteq> StateWatching | Some ph \<Rightarrow> phase_agrees s' ph)"
  using assms
proof (induction gen ph samples s arbitrary: s' nxt rule: observe_run.induct)
  case (1 gen dl down confirmed alive now samples s)
  obtain s1 p n where tick: "observe_tick gen dl down confirmed alive now s = (s1, p, n)"
    by (metis prod.exhaust_sel)
  note own = observe_tick_own [OF tick "1.prems"(2-4)]
  show ?case
  proof (cases n)
    case None
    then show ?thesis using own tick "1.prems"(1) by simp
  next
    case (Some ph)
    then have "ph \<noteq> Baseline" using tick observe_tick_phase by blast
    then show ?thesis using "1.IH" [OF tick [symmetric] refl Some] own tick Some "1.prems"(1) by simp
  qed
qed auto

section \<open>A concrete run\<close>

definition example_config :: tracker_config where
  "example_config = \<lparr>tc_RunDir = ''/run'', tc_Probe = True, tc_Window = 60, tc_Interval = 20\<rparr>"

definition watching :: status where
  "watching = \<lparr>st_State = StateWatching, st_Supervision = SupervisionUnknown, st_Generation = ''1'',
     st_RequestedAt = Some 0, st_ObservedDownAt = None, st_ObservedBackAt = None\<rparr>"

definition dipped :: status where
  "dipped = watching\<lparr>st_State := StateConfirmed, st_ObservedDownAt := Some 20,
     st_Supervision := SupervisionConfirmed\<rparr>"

lemma Bump_succeeds:
  assumes "next_generation (bump_prev rd runDir fs) nano = gen" "runDir \<noteq> []"
  shows "\<exists>tr. Bump fault_free rd nano runDir fs = (Inr gen, tr)"
proof -
  obtain tr where "writeFileAtomic fault_free (runDir, RestartName) (gen @ [CHR 0x0A]) fs = (None, tr)"
    using hand.put_succeeds by blast
  then show ?thesis using assms by (auto simp: Bump_def Let_def)
qed

lemma example_requested:
  "\<exists>t. tracker_reachable fmt example_config t \<and> tr_observers t = [] \<and> tr_pending t = [''1''] \<and>
     st_Supervision (tr_status t) = SupervisionUnknown"
proof -
  define t0 where "t0 = NewTracker (\<lambda>s. True) (\<lambda>p. False) example_config (\<lambda>p. None)"
  have t0: "tr_fs t0 = (\<lambda>p. None)" "tr_pending t0 = []" "tr_observers t0 = []"
    "st_Supervision (tr_status t0) = SupervisionUnknown" "st_Generation (tr_status t0) = []"
    by (simp_all add: t0_def NewTracker_def loadSupervision_def read_file_def)
  have dir: "tc_RunDir example_config = ''/run''" by (simp add: example_config_def)
  have "next_generation (bump_prev (\<lambda>p. False) ''/run'' (\<lambda>p. None)) 1 = ''1''" by code_simp
  then obtain tr where "Bump fault_free (\<lambda>p. False) 1 ''/run'' (\<lambda>p. None) = (Inr ''1'', tr)"
    using Bump_succeeds by blast
  then have "Bump fault_free (\<lambda>p. False) 1 (tc_RunDir example_config) (tr_fs t0) = (Inr ''1'', tr)"
    by (simp only: dir t0(1))
  then have "tracker_step fmt example_config t0 (t0\<lparr>tr_fs := last tr, tr_pending := ''1'' # tr_pending t0\<rparr>)"
    by (rule tracker_step.bump) (simp add: fresh_generation_def t0)
  moreover have "tracker_reachable fmt example_config t0"
    unfolding t0_def by (rule tracker_reachable.start)
  ultimately have "tracker_reachable fmt example_config
      (t0\<lparr>tr_fs := last tr, tr_pending := ''1'' # tr_pending t0\<rparr>)"
    by (metis tracker_reachable.step)
  then show ?thesis by (intro exI conjI, assumption) (simp_all add: t0)
qed

lemma example_watching:
  "\<exists>t. tracker_reachable fmt example_config t \<and> tr_status t = watching \<and> tr_pending t = [] \<and>
     tr_observers t = [\<lparr>ob_gen = ''1'', ob_phase = Polling 60 False False, ob_cancelled = False\<rparr>]"
proof -
  obtain t1 where t1: "tracker_reachable fmt example_config t1" "tr_observers t1 = []"
    "tr_pending t1 = [''1'']" "st_Supervision (tr_status t1) = SupervisionUnknown"
    using example_requested by blast
  obtain t2 rc where reg: "request_register example_config 0 ''1'' t1 = (t2, rc)" by fastforce
  have "tracker_step fmt example_config t1 t2"
    by (rule tracker_step.register [OF _ reg]) (simp add: t1)
  with t1(1) have r2: "tracker_reachable fmt example_config t2" by (rule tracker_reachable.step)
  have t2: "tr_status t2 = watching" "tr_pending t2 = []"
    "tr_observers t2 = [\<lparr>ob_gen = ''1'', ob_phase = Baseline, ob_cancelled = False\<rparr>]"
    using reg t1
    by (auto simp: request_register_def request_status_def Let_def watching_def example_config_def)
  have "tracker_step fmt example_config t2
      (t2\<lparr>tr_status := watching, tr_observers := replace_observer 0 (Some (Polling 60 False False)) (tr_observers t2)\<rparr>)"
    by (rule tracker_step.baseline [of 0 t2 "\<lparr>ob_gen = ''1'', ob_phase = Baseline, ob_cancelled = False\<rparr>"
          example_config 0 True 0 watching "Polling 60 False False"])
      (simp_all add: t2 observe_baseline_def example_config_def)
  with r2 have "tracker_reachable fmt example_config
      (t2\<lparr>tr_status := watching, tr_observers := replace_observer 0 (Some (Polling 60 False False)) (tr_observers t2)\<rparr>)"
    by (rule tracker_reachable.step)
  then show ?thesis by (intro exI conjI, assumption) (simp_all add: t2 replace_observer_def)
qed

lemma example_tick:
  assumes "tracker_reachable fmt example_config t" "tr_status t = s" "tr_pending t = []"
    "tr_observers t = [\<lparr>ob_gen = ''1'', ob_phase = Polling dl d c, ob_cancelled = False\<rparr>]"
    "observe_tick ''1'' dl d c alive now s = (s', p, nxt)"
  shows "\<exists>t'. tracker_reachable fmt example_config t' \<and> tr_status t' = s' \<and> tr_pending t' = [] \<and>
     tr_observers t' = replace_observer 0 nxt [\<lparr>ob_gen = ''1'', ob_phase = Polling dl d c, ob_cancelled = False\<rparr>]"
proof -
  let ?ob = "\<lparr>ob_gen = ''1'', ob_phase = Polling dl d c, ob_cancelled = False\<rparr>"
  let ?fs = "if p then last (persistSupervision fault_free fmt (tc_RunDir example_config) (ob_gen ?ob) now (tr_fs t))
    else tr_fs t"
  have "tracker_step fmt example_config t
      (t\<lparr>tr_status := s', tr_observers := replace_observer 0 nxt (tr_observers t), tr_fs := ?fs\<rparr>)"
    by (rule tracker_step.tick [of 0 t ?ob dl d c alive now s' p nxt]) (simp_all add: assms)
  with assms(1) have "tracker_reachable fmt example_config
      (t\<lparr>tr_status := s', tr_observers := replace_observer 0 nxt (tr_observers t), tr_fs := ?fs\<rparr>)"
    by (rule tracker_reachable.step)
  then show ?thesis by (intro exI conjI, assumption) (simp_all add: assms)
qed

lemma example_dipped:
  "\<exists>t. tracker_reachable fmt example_config t \<and> tr_status t = dipped \<and> tr_pending t = [] \<and> tr_observers t = []"
proof -
  obtain t where t: "tracker_reachable fmt example_config t" "tr_status t = watching" "tr_pending t = []"
    "tr_observers t = [\<lparr>ob_gen = ''1'', ob_phase = Polling 60 False False, ob_cancelled = False\<rparr>]"
    using example_watching by blast
  have "observe_tick ''1'' 60 False False False 20 watching = (dipped, True, Some (Polling 60 True True))"
    by (simp add: observe_tick_def observe_deadline_def settle_def watching_def dipped_def)
  from example_tick [OF t this] obtain t' where t': "tracker_reachable fmt example_config t'"
    "tr_status t' = dipped" "tr_pending t' = []"
    "tr_observers t' = [\<lparr>ob_gen = ''1'', ob_phase = Polling 60 True True, ob_cancelled = False\<rparr>]"
    by (auto simp: replace_observer_def)
  have "observe_tick ''1'' 60 True True False 60 dipped = (dipped, False, None)"
    by (simp add: observe_tick_def observe_deadline_def)
  from example_tick [OF t' this] show ?thesis by (auto simp: replace_observer_def)
qed

section \<open>Properties\<close>

text \<open>C20: What a status says is backed by what was seen: in every reachable state, under any
  interleaving of requests and observers, a confirmed restart was observed as a dip and has made
  supervision \<open>confirmed\<close>, an observed return belongs to a confirmed restart, and \<open>no-supervisor\<close>
  is only ever said of an engine that was never seen down.\<close>
theorem verdicts_are_observed:
  assumes "tracker_reachable fmt_time cfg t"
  shows "status_ok (tr_status t)"
  using inv_reachable [OF assms] by (simp add: tracker_inv_def)

theorem verdicts_are_observed_witness: "status_ok dipped"
proof -
  obtain t where "tracker_reachable itoa example_config t" "tr_status t = dipped"
    using example_dipped by blast
  then show ?thesis using verdicts_are_observed by metis
qed

text \<open>A request under observation is never abandoned: while the state is \<open>watching\<close> an observer
  for exactly that generation is in flight and has not been cancelled.\<close>
theorem watching_has_observer:
  assumes "tracker_reachable fmt_time cfg t" and "st_State (tr_status t) = StateWatching"
  shows "\<exists>ob \<in> set (tr_observers t). ob_gen ob = st_Generation (tr_status t) \<and> \<not> ob_cancelled ob"
  using inv_reachable [OF assms(1)] assms(2) by (auto simp: tracker_inv_def)

theorem watching_has_observer_witness:
  "\<exists>t. tracker_reachable itoa example_config t \<and>
     (\<exists>ob \<in> set (tr_observers t). ob_gen ob = ''1'' \<and> \<not> ob_cancelled ob)"
proof -
  obtain t where "tracker_reachable itoa example_config t" "tr_status t = watching"
    using example_watching by blast
  then show ?thesis using watching_has_observer [of itoa example_config t] by (auto simp: watching_def)
qed

text \<open>Once a supervisor has been confirmed no step of the tracker takes it back.\<close>
theorem supervision_is_monotone:
  assumes "tracker_step fmt_time cfg t t'"
    and "st_Supervision (tr_status t) = SupervisionConfirmed"
  shows "st_Supervision (tr_status t') = SupervisionConfirmed"
  using assms
  by cases
    (auto simp: request_register_def request_status_def Let_def observe_baseline_def
      observe_tick_def observe_deadline_def settle_def split: if_splits prod.splits)

lemma example_failed_bump:
  "\<exists>tr. tracker_step fmt example_config t (t\<lparr>tr_fs := last tr\<rparr>)"
proof -
  have "Bump (fault_free\<lparr>io_mkdir := False\<rparr>) (\<lambda>p. False) 1 (tc_RunDir example_config) (tr_fs t) =
      (Inl MkdirError, [tr_fs t])"
    by (simp add: Bump_def Let_def example_config_def writeFileAtomic_def io_then_def
        os_mkdir_all_def check_def)
  then show ?thesis using tracker_step.bump_failed by blast
qed

text \<open>C36: An observation always ends: with iterations at least the interval apart, one more than the
  window holds is enough, and the request it was for is then decided, no longer \<open>watching\<close>.\<close>
theorem observation_ends:
  assumes "st_Generation s = gen" and "phase_agrees s Baseline" and "status_ok s"
    and "observe_baseline cfg gen now0 alive now1 s = (s1, ph)"
    and "spaced (tc_Interval cfg) now0 samples" and "0 < tc_Interval cfg" and "0 < tc_Window cfg"
    and "tc_Window cfg < tc_Interval cfg * int (length samples)"
  shows "\<exists>s'. observe_run gen ph samples s1 = (s', None) \<and> st_State s' \<noteq> StateWatching \<and> status_ok s'"
proof -
  obtain d where ph: "ph = Polling (now0 + tc_Window cfg) d False"
    using assms(4) by (auto simp: observe_baseline_def split: if_splits)
  have own: "status_ok s1" "phase_agrees s1 ph" "st_Generation s1 = gen"
    using observe_baseline_own [OF assms(4,1,2,3)] by auto
  obtain s' where s': "observe_run gen ph samples s1 = (s', None)"
    using observe_run_ends [OF assms(5,6), of "now0 + tc_Window cfg" gen d False s1] assms(7,8) ph by auto
  then show ?thesis using observe_run_own [OF s' own(3,2,1)] ph by auto
qed

theorem observation_ends_witness:
  "\<exists>s'. observe_run ''1'' (Polling 60 False False) [(True, 20), (False, 40), (True, 60), (True, 80)] watching
      = (s', None) \<and> st_State s' \<noteq> StateWatching"
  using observation_ends [of watching "''1''" example_config 0 True 0 watching "Polling 60 False False"
      "[(True, 20), (False, 40), (True, 60), (True, 80)]"]
  by (auto simp: watching_def example_config_def phase_agrees_def status_ok_def observe_baseline_def)

text \<open>A relaunch that outlasts the window is never closed: when the observation ends on an
  engine that went down and is not back, the request stays outstanding, and no later step but
  another registration changes the status, however long the engine has been serving by then; so
  \<open>Relaunch\<close> stays empty for it.\<close>
theorem late_return_is_never_seen:
  assumes "\<forall>ob \<in> set (tr_observers t). ob_gen ob \<noteq> st_Generation (tr_status t)"
    and "st_State (tr_status t) = StateConfirmed" and "st_ObservedBackAt (tr_status t) = None"
    and "tracker_step fmt_time cfg t t'" and "\<forall>gen now. t' \<noteq> fst (request_register cfg now gen t)"
  shows "tr_status t' = tr_status t \<and> Relaunching (tr_status t') \<and> Relaunch fmt_time (tr_status t') = []"
proof -
  have "tr_status t' = tr_status t"
    using assms(4)
  proof cases
    case (register gen now rc)
    then show ?thesis using assms(5) by (metis fst_conv)
  next
    case (baseline i ob now0 alive now1 s ph)
    then show ?thesis
      using observe_baseline_other [OF baseline(5)] assms(1) nth_mem [OF baseline(2)] by auto
  next
    case (tick i ob deadline down confirmed alive now s persist nxt fs io)
    then show ?thesis
      using observe_tick_other [OF tick(5)] assms(1) nth_mem [OF tick(2)] by auto
  qed simp_all
  then show ?thesis using assms(2,3) by (simp add: Relaunching_def Relaunch_def)
qed

theorem late_return_is_never_seen_witness:
  "\<exists>t t'. tr_status t = dipped \<and> tracker_step itoa example_config t t' \<and> Relaunching (tr_status t')"
proof -
  obtain t where t: "tracker_reachable itoa example_config t" "tr_status t = dipped" "tr_observers t = []"
    using example_dipped by blast
  obtain tr where st: "tracker_step itoa example_config t (t\<lparr>tr_fs := last tr\<rparr>)"
    using example_failed_bump by blast
  have "tr_status (fst (request_register example_config now gen t)) = request_status example_config now gen dipped" for now gen
    using t(2) by (simp add: request_register_def Let_def)
  then have "st_State (tr_status (fst (request_register example_config now gen t))) = StateWatching" for now gen
    by (simp add: request_status_def example_config_def)
  moreover have "st_State (tr_status (t\<lparr>tr_fs := last tr\<rparr>)) = StateConfirmed"
    using t(2) by (simp add: dipped_def)
  ultimately have "\<forall>gen now. t\<lparr>tr_fs := last tr\<rparr> \<noteq> fst (request_register example_config now gen t)"
    by (metis tracker_state.distinct(9))
  then have "Relaunching (tr_status (t\<lparr>tr_fs := last tr\<rparr>))"
    using late_return_is_never_seen [OF _ _ _ st] t by (auto simp: dipped_def watching_def)
  then show ?thesis using st t(2) by blast
qed

theorem supervision_is_monotone_witness:
  "\<exists>t t'. tracker_step itoa example_config t t' \<and> st_Supervision (tr_status t') = SupervisionConfirmed"
proof -
  obtain t where t: "tracker_reachable itoa example_config t" "tr_status t = dipped"
    using example_dipped by blast
  obtain tr where st: "tracker_step itoa example_config t (t\<lparr>tr_fs := last tr\<rparr>)"
    using example_failed_bump by blast
  have "st_Supervision (tr_status t) = SupervisionConfirmed" using t(2) by (simp add: dipped_def)
  then show ?thesis using supervision_is_monotone [OF st] st by blast
qed

end
