(* ===== verification/Store.thy ===== *)
theory Store
  imports ModelCard Tracker
begin

text \<open>
  The running configuration: \<open>internal/runtimecfg/store.go\<close> with the handlers of
  \<open>internal/controlplane/modelspec.go\<close> and \<open>engine_restart.go\<close> in front of it, and the reporter of
  \<open>Capacity\<close> that records through it. The mutex makes every operation one step. The files are those of
  the tracker. A nil map or slice and an empty one are one value, so a card that differs from the old
  one only there counts as equal.
\<close>

section \<open>Equality of generic values\<close>

text \<open>\<open>reflect.DeepEqual\<close> on what \<open>encoding/json\<close> decodes: numbers by value, maps in any order.\<close>

fun deep_equal :: "(string \<Rightarrow> rat) \<Rightarrow> json \<Rightarrow> json \<Rightarrow> bool"
and deep_elems :: "(string \<Rightarrow> rat) \<Rightarrow> json list \<Rightarrow> json list \<Rightarrow> bool"
and deep_members :: "(string \<Rightarrow> rat) \<Rightarrow> (string \<times> json) list \<Rightarrow> (string \<times> json) list \<Rightarrow> bool" where
  "deep_equal val (JNum a) w = (case w of JNum b \<Rightarrow> val a = val b | _ \<Rightarrow> False)"
| "deep_equal val (JArr vs) w = (case w of JArr ws \<Rightarrow> deep_elems val vs ws | _ \<Rightarrow> False)"
| "deep_equal val (JObj fs) w =
     (case w of JObj gs \<Rightarrow> length fs = length gs \<and> deep_members val fs gs | _ \<Rightarrow> False)"
| "deep_equal val v w = (v = w)"
| "deep_elems val [] ws = (ws = [])"
| "deep_elems val (v # vs) ws =
     (case ws of [] \<Rightarrow> False | w # ws' \<Rightarrow> deep_equal val v w \<and> deep_elems val vs ws')"
| "deep_members val [] gs = True"
| "deep_members val ((k, v) # fs) gs =
     ((case map_of gs k of None \<Rightarrow> False | Some w \<Rightarrow> deep_equal val v w) \<and> deep_members val fs gs)"

definition equal_map :: "(string \<times> 'a) list \<Rightarrow> (string \<times> 'a) list \<Rightarrow> bool" where
  "equal_map m m' \<longleftrightarrow> length m = length m' \<and> list_all (\<lambda>(k, v). map_of m' k = Some v) m"

definition equal_rule :: "(string \<Rightarrow> rat) \<Rightarrow> parameter_rule \<Rightarrow> parameter_rule \<Rightarrow> bool" where
  "equal_rule val r q \<longleftrightarrow> pr_Name r = pr_Name q \<and> pr_UseTemplate r = pr_UseTemplate q \<and>
     equal_map (pr_Label r) (pr_Label q) \<and> equal_map (pr_Help r) (pr_Help q) \<and> pr_Type r = pr_Type q \<and>
     pr_Required r = pr_Required q \<and> deep_equal val (pr_Default r) (pr_Default q) \<and>
     map_option val (pr_Min r) = map_option val (pr_Min q) \<and>
     map_option val (pr_Max r) = map_option val (pr_Max q) \<and>
     pr_Precision r = pr_Precision q \<and> pr_Options r = pr_Options q"

section \<open>The store\<close>

text \<open>\<open>rt_Typed\<close>: the keys of the extensions that still hold the Go value the environment seeded them
  with and not a decoded one. \<open>DeepEqual\<close> tells the two apart.\<close>

record runtime_store =
  rt_Config :: card_config
  rt_Typed :: "string list"
  rt_Tracker :: tracker_config
  rt_Handoff :: tracker

record applied =
  ap_Spec :: model_spec
  ap_EngineArgsChanged :: bool
  ap_PendingAppRestart :: "string list"

datatype refusal = Renamed string string | AudioSupportsFixed | ArgsRefused engine_args_error

datatype apply_error = ErrInvalidSpec refusal | ErrPersist io_error | ApplyPanic go_panic

text \<open>What the operating system does to one operation, and the two clocks of a request.\<close>

record store_io =
  si_card :: io_plan
  si_args :: io_plan
  si_bump :: io_plan
  si_read_err :: "path \<Rightarrow> bool"
  si_nano :: int
  si_now :: int

definition NewStore ::
  "(string \<Rightarrow> bool) \<Rightarrow> (path \<Rightarrow> bool) \<Rightarrow> card_config \<Rightarrow> string list \<Rightarrow>
   (tracker_config \<times> tracker) option \<Rightarrow> fs \<Rightarrow> runtime_store" where
  "NewStore time_ok read_err c typed h fs =
     (case h of
        Some (tc, t) \<Rightarrow> \<lparr>rt_Config = c, rt_Typed = typed, rt_Tracker = tc, rt_Handoff = t\<rparr>
      | None \<Rightarrow>
          let tc = tracker_defaults \<lparr>tc_RunDir = cg_RunDir c, tc_Probe = False, tc_Window = 0, tc_Interval = 0\<rparr>
          in \<lparr>rt_Config = c, rt_Typed = typed, rt_Tracker = tc,
               rt_Handoff = NewTracker time_ok read_err tc fs\<rparr>)"

definition disk :: "runtime_store \<Rightarrow> fs" where
  "disk s = tr_fs (rt_Handoff s)"

definition with_disk :: "fs \<Rightarrow> runtime_store \<Rightarrow> runtime_store" where
  "with_disk fs s = s\<lparr>rt_Handoff := (rt_Handoff s)\<lparr>tr_fs := fs\<rparr>\<rparr>"

definition supports :: "(string \<times> bool) list \<Rightarrow> string \<Rightarrow> bool" where
  "supports m k = (map_of m k = Some True)"

definition equalSupports :: "(string \<times> bool) list \<Rightarrow> (string \<times> bool) list \<Rightarrow> bool" where
  "equalSupports before after \<longleftrightarrow>
     list_all (\<lambda>(k, v). v = supports after k) before \<and> list_all (\<lambda>(k, v). v = supports before k) after"

definition checkRename :: "string \<Rightarrow> string \<Rightarrow> refusal option" where
  "checkRename current incoming =
     (if current = [] \<or> incoming = [] \<or> current = incoming then None else Some (Renamed current incoming))"

definition extension :: "model_spec \<Rightarrow> string \<Rightarrow> json" where
  "extension spec k = (case map_of (sp_Extensions spec) k of None \<Rightarrow> JNull | Some v \<Rightarrow> v)"

definition pendingAppRestart ::
  "(string \<Rightarrow> rat) \<Rightarrow> string list \<Rightarrow> model_spec \<Rightarrow> model_spec \<Rightarrow> string list" where
  "pendingAppRestart val typed before after =
     (if sp_Mode before \<noteq> sp_Mode after then [''mode''] else []) @
     (if supports (sp_Supports before) supportsReasoningKey \<noteq> supports (sp_Supports after) supportsReasoningKey
      then [''supports.'' @ supportsReasoningKey] else []) @
     (if ''translate'' \<in> set typed \<or> \<not> deep_equal val (extension before ''translate'') (extension after ''translate'')
      then [''extensions.translate''] else []) @
     (if list_all2 (equal_rule val) (sp_ParameterRules before) (sp_ParameterRules after)
      then [] else [''parameter_rules''])"

text \<open>Writing the card, where there is a path for it.\<close>

definition persist_card :: "store_io \<Rightarrow> card_config \<Rightarrow> fs \<Rightarrow> io_run" where
  "persist_card io c fs =
     (case cg_SpecPath c of
        None \<Rightarrow> (None, [fs]) | Some p \<Rightarrow> WriteModelSpecFile (si_card io) p (cg_Spec c) fs)"

definition admitted :: "card_config \<Rightarrow> model_spec \<Rightarrow> refusal option" where
  "admitted c spec =
     (case checkRename (sp_Name (cg_Spec c)) (sp_Name spec) of
        Some e \<Rightarrow> Some e
      | None \<Rightarrow>
          if cg_Kind c = EngineAudio \<and> \<not> equalSupports (sp_Supports (cg_Spec c)) (sp_Supports spec)
          then Some AudioSupportsFixed else None)"

definition named :: "card_config \<Rightarrow> model_spec \<Rightarrow> model_spec" where
  "named c spec = (if sp_Name spec = [] then spec\<lparr>sp_Name := sp_Name (cg_Spec c)\<rparr> else spec)"

text \<open>The disk, then memory.\<close>

definition adopt ::
  "(string \<Rightarrow> rat) \<Rightarrow> store_io \<Rightarrow> card_config \<Rightarrow> runtime_store \<Rightarrow> (apply_error + applied) \<times> runtime_store" where
  "adopt val io nxt s =
     (let old = cg_Spec (rt_Config s); new = cg_Spec nxt in
      case persist_card io nxt (disk s) of
        (Some e, tr) \<Rightarrow> (Inl (ErrPersist e), with_disk (last tr) s)
      | (None, tr) \<Rightarrow>
          (case WriteEngineArgs (si_args io) (tc_RunDir (rt_Tracker s)) (sp_EngineArgs new) (last tr) of
             (Some e, tr') \<Rightarrow> (Inl (ErrPersist e), with_disk (last tr') s)
           | (None, tr') \<Rightarrow>
               (Inr \<lparr>ap_Spec = new, ap_EngineArgsChanged = (sp_EngineArgs old \<noteq> sp_EngineArgs new),
                     ap_PendingAppRestart = pendingAppRestart val (rt_Typed s) old new\<rparr>,
                with_disk (last tr') (s\<lparr>rt_Config := nxt, rt_Typed := []\<rparr>))))"

definition ApplySpec ::
  "(string \<Rightarrow> rat) \<Rightarrow> store_io \<Rightarrow> model_spec \<Rightarrow> runtime_store \<Rightarrow> (apply_error + applied) \<times> runtime_store" where
  "ApplySpec val io spec s =
     (let c = rt_Config s in
      case admitted c spec of
        Some e \<Rightarrow> (Inl (ErrInvalidSpec e), s)
      | None \<Rightarrow>
          (case NormalizeSpecForEngine (c\<lparr>cg_Spec := named c spec\<rparr>) of
             Inl p \<Rightarrow> (Inl (ApplyPanic p), s)
           | Inr (nxt, b, Some e) \<Rightarrow> (Inl (ErrInvalidSpec (ArgsRefused e)), s)
           | Inr (nxt, b, None) \<Rightarrow> adopt val io nxt s))"

section \<open>A measured capacity\<close>

text \<open>A capacity goes through JSON, as a card does; a 64-bit number is always a float64.\<close>

definition capacityBlock :: "(string \<Rightarrow> string option) \<Rightarrow> (int option \<Rightarrow> string) \<Rightarrow> capacity \<Rightarrow> json" where
  "capacityBlock fl fmt c = (case any_value fl (capacity_value fmt c) of None \<Rightarrow> JNull | Some v \<Rightarrow> v)"

definition reportedAtKey :: string where "reportedAtKey = ''reported_at''"

definition withoutKey :: "string \<Rightarrow> (string \<times> json) list \<Rightarrow> (string \<times> json) list" where
  "withoutKey key m = filter (\<lambda>(k, v). k \<noteq> key) m"

definition sameCapacity :: "(string \<Rightarrow> rat) \<Rightarrow> json \<Rightarrow> json \<Rightarrow> bool" where
  "sameCapacity val stored nxt =
     (case stored of
        JObj m \<Rightarrow> deep_equal val (JObj (withoutKey reportedAtKey m))
                   (JObj (withoutKey reportedAtKey (case nxt of JObj m' \<Rightarrow> m' | _ \<Rightarrow> [])))
      | _ \<Rightarrow> False)"

definition RecordCapacity ::
  "card_env \<Rightarrow> (int option \<Rightarrow> string) \<Rightarrow> store_io \<Rightarrow> capacity \<Rightarrow> runtime_store \<Rightarrow>
   (apply_error + bool) \<times> runtime_store" where
  "RecordCapacity ce fmt io cap s =
     (let c = rt_Config s; spec = cg_Spec c; block = capacityBlock (ce_float ce) fmt cap in
      if sameCapacity (ce_value ce) (extension spec ExtensionKey) block then (Inr False, s)
      else
        let nxt = c\<lparr>cg_Spec := spec\<lparr>sp_Extensions := obj_put ExtensionKey block (sp_Extensions spec)\<rparr>\<rparr> in
        case persist_card io nxt (disk s) of
          (Some e, tr) \<Rightarrow> (Inl (ErrPersist e), with_disk (last tr) s)
        | (None, tr) \<Rightarrow> (Inr True, with_disk (last tr) (s\<lparr>rt_Config := nxt\<rparr>)))"

text \<open>A tick of the reporter whose \<open>Record\<close> is the store's: a failed publication is only logged.\<close>

definition reporting_tick ::
  "card_env \<Rightarrow> (int option \<Rightarrow> string) \<Rightarrow> reporter_config \<Rightarrow> store_io \<Rightarrow> tick \<Rightarrow> reporter \<times> runtime_store \<Rightarrow>
   go_panic + reporter \<times> runtime_store" where
  "reporting_tick ce fmt cfg io t rs =
     (case reporter_tick cfg t (fst rs) of
        Inl p \<Rightarrow> Inl p
      | Inr (r, Recorded cap) \<Rightarrow> Inr (r, snd (RecordCapacity ce fmt io cap (snd rs)))
      | Inr (r, x) \<Rightarrow> Inr (r, snd rs))"

fun reporting ::
  "card_env \<Rightarrow> (int option \<Rightarrow> string) \<Rightarrow> reporter_config \<Rightarrow> (store_io \<times> tick) list \<Rightarrow>
   reporter \<times> runtime_store \<Rightarrow> go_panic + reporter \<times> runtime_store" where
  "reporting ce fmt cfg [] rs = Inr rs"
| "reporting ce fmt cfg ((io, t) # ts) rs =
     (case reporting_tick ce fmt cfg io t rs of
        Inl p \<Rightarrow> Inl p | Inr rs' \<Rightarrow> reporting ce fmt cfg ts rs')"

section \<open>The handlers\<close>

text \<open>\<open>Request\<close> of the tracker, both halves.\<close>

definition Request :: "store_io \<Rightarrow> tracker_config \<Rightarrow> tracker \<Rightarrow> (io_error + receipt) \<times> tracker" where
  "Request io tc t =
     (case Bump (si_bump io) (si_read_err io) (si_nano io) (tc_RunDir tc) (tr_fs t) of
        (Inl e, tr) \<Rightarrow> (Inl e, t\<lparr>tr_fs := last tr\<rparr>)
      | (Inr gen, tr) \<Rightarrow>
          (case request_register tc (si_now io) gen (t\<lparr>tr_fs := last tr, tr_pending := gen # tr_pending t\<rparr>) of
             (t', rc) \<Rightarrow> (Inr rc, t')))"

datatype reply =
    Problem nat string
  | CardReply "(string \<times> string) list" model_spec
  | RestartReply "(string \<times> string) list" string receipt
  | ReplyPanic go_panic

definition headerRestart :: string where "headerRestart = ''X-Engine-Restart''"
definition headerRestartGeneration :: string where "headerRestartGeneration = ''X-Engine-Restart-Generation''"
definition headerRestartSupervision :: string where
  "headerRestartSupervision = ''X-Engine-Restart-Supervision''"
definition headerRestarted :: string where "headerRestarted = ''X-Engine-Restarted''"
definition headerPendingAppRestart :: string where
  "headerPendingAppRestart = ''X-Model-Spec-Pending-App-Restart''"
definition restartNotNeeded :: string where "restartNotNeeded = ''not-needed''"
definition restartSignaled :: string where "restartSignaled = ''signaled''"

definition supervision_text :: "supervision \<Rightarrow> string" where
  "supervision_text v = (case v of SupervisionUnknown \<Rightarrow> ''unknown'' | SupervisionConfirmed \<Rightarrow> ''confirmed'')"

definition writeRestartHeaders :: "string \<Rightarrow> receipt \<Rightarrow> (string \<times> string) list" where
  "writeRestartHeaders outcome rc =
     [(headerRestart, outcome), (headerRestartSupervision, supervision_text (rc_Supervision rc))] @
     (if rc_Generation rc \<noteq> [] then [(headerRestartGeneration, rc_Generation rc)] else []) @
     (if outcome = restartSignaled \<and> rc_Supervision rc = SupervisionConfirmed
      then [(headerRestarted, ''true'')] else [])"

definition maxModelSpecBytes :: nat where "maxModelSpecBytes = 256 * 1024"

definition put_headers :: "string \<Rightarrow> receipt \<Rightarrow> applied \<Rightarrow> (string \<times> string) list" where
  "put_headers outcome rc ap = writeRestartHeaders outcome rc @
     (if ap_PendingAppRestart ap = [] then []
      else [(headerPendingAppRestart, join_with '','' (ap_PendingAppRestart ap))])"

text \<open>The part behind \<open>ApplySpec\<close>.\<close>

definition answer_put :: "store_io \<Rightarrow> applied \<Rightarrow> runtime_store \<Rightarrow> reply \<times> runtime_store" where
  "answer_put io ap s =
     (if ap_EngineArgsChanged ap \<and> cg_Kind (rt_Config s) \<noteq> no_engine then
        (if tc_RunDir (rt_Tracker s) = [] then (Problem 503 ''run_dir_unset'', s)
         else case Request io (rt_Tracker s) (rt_Handoff s) of
                (Inl e, t) \<Rightarrow> (Problem 500 ''restart_failed'', s\<lparr>rt_Handoff := t\<rparr>)
              | (Inr rc, t) \<Rightarrow> (CardReply (put_headers restartSignaled rc ap) (ap_Spec ap), s\<lparr>rt_Handoff := t\<rparr>))
      else
        (CardReply (put_headers restartNotNeeded
           \<lparr>rc_Signaled = False, rc_Generation = [], rc_Supervision = st_Supervision (tr_status (rt_Handoff s))\<rparr> ap)
           (ap_Spec ap), s))"

text \<open>The body is \<open>None\<close> when reading it fails.\<close>

definition handlePutModelSpec ::
  "card_env \<Rightarrow> store_io \<Rightarrow> string option \<Rightarrow> runtime_store \<Rightarrow> reply \<times> runtime_store" where
  "handlePutModelSpec ce io body s =
     (case body of
        None \<Rightarrow> (Problem 400 ''invalid_request'', s)
      | Some text \<Rightarrow>
          let data = take (Suc maxModelSpecBytes) text in
          if length data > maxModelSpecBytes then (Problem 413 ''payload_too_large'', s)
          else case ParseModelSpecBytes ce data of
                 Inl e \<Rightarrow> (Problem 400 ''invalid_model_spec'', s)
               | Inr spec \<Rightarrow>
                   (case ApplySpec (ce_value ce) io spec s of
                      (Inl (ErrInvalidSpec e), s') \<Rightarrow> (Problem 400 ''invalid_model_spec'', s')
                    | (Inl (ErrPersist e), s') \<Rightarrow> (Problem 500 ''persist_failed'', s')
                    | (Inl (ApplyPanic p), s') \<Rightarrow> (ReplyPanic p, s')
                    | (Inr ap, s') \<Rightarrow> answer_put io ap s'))"

definition handleEngineRestart :: "store_io \<Rightarrow> runtime_store \<Rightarrow> reply \<times> runtime_store" where
  "handleEngineRestart io s =
     (if cg_Kind (rt_Config s) = no_engine then (Problem 400 ''no_engine'', s)
      else if tc_RunDir (rt_Tracker s) = [] then (Problem 503 ''run_dir_unset'', s)
      else case Request io (rt_Tracker s) (rt_Handoff s) of
             (Inl e, t) \<Rightarrow> (Problem 500 ''restart_failed'', s\<lparr>rt_Handoff := t\<rparr>)
           | (Inr rc, t) \<Rightarrow>
               (RestartReply (writeRestartHeaders restartSignaled rc) (tc_RunDir (rt_Tracker s)) rc,
                s\<lparr>rt_Handoff := t\<rparr>))"

text \<open>What the engine reports about its own card, and the card that is served.\<close>

record engine_report =
  er_authoritative :: bool
  er_modelMatches :: bool
  er_extensions :: "(string \<times> json) list"

definition engineModelExtensions :: "(string \<times> json) list \<Rightarrow> (string \<times> json) list" where
  "engineModelExtensions source = filter (\<lambda>(k, v). k \<noteq> ''capacity'') source"

definition handleModelSpec :: "engine_report \<Rightarrow> runtime_store \<Rightarrow> model_spec" where
  "handleModelSpec r s =
     (let spec = cg_Spec (rt_Config s) in
      if er_authoritative r \<and> er_modelMatches r \<and> er_extensions r \<noteq> []
      then spec\<lparr>sp_Extensions := foldl (\<lambda>m (k, v). obj_put k v m) (sp_Extensions spec) (er_extensions r)\<rparr>
      else spec)"

section \<open>What a change of the card does\<close>

lemma disk_simps [simp]:
  "disk (with_disk fs s) = fs" "rt_Config (with_disk fs s) = rt_Config s" "rt_Typed (with_disk fs s) = rt_Typed s"
  "rt_Tracker (with_disk fs s) = rt_Tracker s" "tr_pending (rt_Handoff (with_disk fs s)) = tr_pending (rt_Handoff s)"
  "tr_status (rt_Handoff (with_disk fs s)) = tr_status (rt_Handoff s)"
  by (simp_all add: disk_def with_disk_def)

text \<open>The writes of one operation leave every other file alone.\<close>

lemma persist_card_frame:
  assumes "persist_card io c fs = (e, tr)" "\<And>p. cg_SpecPath c = Some p \<Longrightarrow> q \<noteq> p \<and> q \<noteq> tmp_of p"
  shows "last tr q = fs q"
  using assms card.put_last_frame [of "si_card io" _ "card_text (cg_Spec c)" fs e tr q]
  by (auto simp: persist_card_def WriteModelSpecFile_def split: option.splits)

lemma persist_card_result:
  assumes "persist_card io c fs = (e, tr)" "cg_SpecPath c = Some p"
  shows "last tr p = (if e = None then Some (card_text (cg_Spec c)) else fs p)"
  using assms card.put_ok [of "si_card io" p "card_text (cg_Spec c)" fs tr]
    card.put_failed [of "si_card io" p "card_text (cg_Spec c)" fs _ tr]
  by (auto simp: persist_card_def WriteModelSpecFile_def)

lemma engine_args_frame:
  assumes "WriteEngineArgs io d raw fs = (e, tr)" "fst q \<noteq> d \<or> q \<noteq> (d, EngineArgsName) \<and> q \<noteq> tmp_of (d, EngineArgsName)"
  shows "last tr q = fs q"
proof -
  have "q \<noteq> (d, EngineArgsName) \<and> q \<noteq> tmp_of (d, EngineArgsName)" using assms(2) by (auto simp: tmp_of_def)
  then show ?thesis using assms(1) hand.put_last_frame [of io "(d, EngineArgsName)" raw fs e tr q]
    by (auto simp: WriteEngineArgs_def split: if_splits)
qed

lemma engine_args_result:
  assumes "WriteEngineArgs io d raw fs = (e, tr)" "d \<noteq> []"
  shows "last tr (d, EngineArgsName) = (if e = None then Some raw else fs (d, EngineArgsName))"
  using assms hand.put_ok [of io "(d, EngineArgsName)" raw fs tr] hand.put_failed [of io "(d, EngineArgsName)" raw fs _ tr]
  by (auto simp: WriteEngineArgs_def)

text \<open>The ways through \<open>ApplySpec\<close>.\<close>

lemma ApplySpec_cases [consumes 1, case_names refused card_failed args_failed stored]:
  assumes "ApplySpec val io spec s = (r, s')"
  obtains e where "r = Inl e" "s' = s" "\<And>x. e \<noteq> ErrPersist x"
  | nxt b e tr where "admitted (rt_Config s) spec = None"
      "NormalizeSpecForEngine ((rt_Config s)\<lparr>cg_Spec := named (rt_Config s) spec\<rparr>) = Inr (nxt, b, None)"
      "persist_card io nxt (disk s) = (Some e, tr)" "r = Inl (ErrPersist e)" "s' = with_disk (last tr) s"
  | nxt b tr e tr' where "admitted (rt_Config s) spec = None"
      "NormalizeSpecForEngine ((rt_Config s)\<lparr>cg_Spec := named (rt_Config s) spec\<rparr>) = Inr (nxt, b, None)"
      "persist_card io nxt (disk s) = (None, tr)"
      "WriteEngineArgs (si_args io) (tc_RunDir (rt_Tracker s)) (sp_EngineArgs (cg_Spec nxt)) (last tr) = (Some e, tr')"
      "r = Inl (ErrPersist e)" "s' = with_disk (last tr') s"
  | nxt b tr tr' where "admitted (rt_Config s) spec = None"
      "NormalizeSpecForEngine ((rt_Config s)\<lparr>cg_Spec := named (rt_Config s) spec\<rparr>) = Inr (nxt, b, None)"
      "persist_card io nxt (disk s) = (None, tr)"
      "WriteEngineArgs (si_args io) (tc_RunDir (rt_Tracker s)) (sp_EngineArgs (cg_Spec nxt)) (last tr) = (None, tr')"
      "r = Inr \<lparr>ap_Spec = cg_Spec nxt,
         ap_EngineArgsChanged = (sp_EngineArgs (cg_Spec (rt_Config s)) \<noteq> sp_EngineArgs (cg_Spec nxt)),
         ap_PendingAppRestart = pendingAppRestart val (rt_Typed s) (cg_Spec (rt_Config s)) (cg_Spec nxt)\<rparr>"
      "s' = with_disk (last tr') (s\<lparr>rt_Config := nxt, rt_Typed := []\<rparr>)"
proof (cases "admitted (rt_Config s) spec")
  case (Some e)
  then show thesis using assms that(1) by (auto simp: ApplySpec_def Let_def)
next
  case None
  show thesis
  proof (cases "NormalizeSpecForEngine ((rt_Config s)\<lparr>cg_Spec := named (rt_Config s) spec\<rparr>)")
    case (Inl p)
    then show thesis using assms None that(1) by (auto simp: ApplySpec_def Let_def)
  next
    case (Inr x)
    obtain nxt b e where x: "x = (nxt, b, e)" by (cases x) auto
    show thesis
    proof (cases e)
      case (Some e')
      then show thesis using assms None Inr x that(1) by (auto simp: ApplySpec_def Let_def)
    next
      case e: None
      obtain e1 tr where 1: "persist_card io nxt (disk s) = (e1, tr)" by fastforce
      obtain e2 tr' where 2: "WriteEngineArgs (si_args io) (tc_RunDir (rt_Tracker s)) (sp_EngineArgs (cg_Spec nxt))
          (last tr) = (e2, tr')" by fastforce
      have r: "adopt val io nxt s = (r, s')" using assms None Inr x e by (simp add: ApplySpec_def Let_def)
      show thesis
      proof (cases e1)
        case (Some a)
        then show thesis using r 1 that(2) [OF None Inr [unfolded x e]] by (simp add: adopt_def Let_def)
      next
        case e1: None
        show thesis
        proof (cases e2)
          case (Some a)
          then show thesis using r 1 2 e1 that(3) [OF None Inr [unfolded x e]] by (simp add: adopt_def Let_def)
        next
          case e2: None
          then show thesis using r 1 2 e1 that(4) [OF None Inr [unfolded x e]] by (simp add: adopt_def Let_def)
        qed
      qed
    qed
  qed
qed

lemma named_again:
  assumes "NormalizeSpecForEngine (c\<lparr>cg_Spec := named c spec\<rparr>) = Inr (nxt, b, None)" "cg_Spec d = cg_Spec nxt"
  shows "named d spec = named c spec"
  using normalize_keeps(4) [OF assms(1)] assms(2) by (auto simp: named_def)

text \<open>The same card a second time needs no new flags.\<close>

lemma apply_again:
  assumes "ApplySpec val io spec s = (Inr ap, s1)" "ApplySpec val' io' spec s2 = (Inr ap', s3)"
    and "cg_Spec (rt_Config s2) = cg_Spec (rt_Config s1)" "cg_Kind (rt_Config s2) = cg_Kind (rt_Config s1)"
  shows "\<not> ap_EngineArgsChanged ap'" "ap_Spec ap' = ap_Spec ap"
proof -
  obtain nxt b where 1: "NormalizeSpecForEngine ((rt_Config s)\<lparr>cg_Spec := named (rt_Config s) spec\<rparr>) = Inr (nxt, b, None)"
      "rt_Config s1 = nxt" "ap_Spec ap = cg_Spec nxt" using assms(1) by (cases rule: ApplySpec_cases) auto
  obtain nxt' b' where 2: "NormalizeSpecForEngine ((rt_Config s2)\<lparr>cg_Spec := named (rt_Config s2) spec\<rparr>) = Inr (nxt', b', None)"
      "ap_EngineArgsChanged ap' = (sp_EngineArgs (cg_Spec (rt_Config s2)) \<noteq> sp_EngineArgs (cg_Spec nxt'))"
      "ap_Spec ap' = cg_Spec nxt'"
    using assms(2) by (cases rule: ApplySpec_cases) auto
  have "named (rt_Config s2) spec = named (rt_Config s) spec" using named_again [OF 1(1)] assms(3) 1(2) by simp
  then have "cg_Spec nxt' = cg_Spec nxt"
    using normalize_depends [OF 1(1), of "(rt_Config s2)\<lparr>cg_Spec := named (rt_Config s2) spec\<rparr>"] 2(1)
      normalize_keeps(1) [OF 1(1)] assms(4) 1(2) by auto
  then show "\<not> ap_EngineArgsChanged ap'" "ap_Spec ap' = ap_Spec ap" using 1 2 assms(3) by simp_all
qed

section \<open>Requests\<close>

lemma Bump_cases:
  assumes "Bump io read_err nano d fs = (r, tr)" "d \<noteq> []"
  shows "(\<exists>gen. r = Inr gen \<and> last tr (d, RestartName) = Some (gen @ [CHR 0x0A])) \<or>
      (\<exists>e. r = Inl e \<and> last tr (d, RestartName) = fs (d, RestartName))"
    "fst q \<noteq> d \<or> q \<noteq> (d, RestartName) \<and> q \<noteq> tmp_of (d, RestartName) \<Longrightarrow> last tr q = fs q"
proof -
  let ?n = "next_generation (bump_prev read_err d fs) nano"
  obtain e tr' where w: "writeFileAtomic io (d, RestartName) (?n @ [CHR 0x0A]) fs = (e, tr')" by fastforce
  have r: "tr = tr'" "r = (case e of None \<Rightarrow> Inr ?n | Some x \<Rightarrow> Inl x)"
    using assms w by (auto simp: Bump_def Let_def split: option.splits)
  show "(\<exists>gen. r = Inr gen \<and> last tr (d, RestartName) = Some (gen @ [CHR 0x0A])) \<or>
      (\<exists>e. r = Inl e \<and> last tr (d, RestartName) = fs (d, RestartName))"
    using r w hand.put_ok hand.put_failed by (cases e) auto
  show "last tr q = fs q" if "fst q \<noteq> d \<or> q \<noteq> (d, RestartName) \<and> q \<noteq> tmp_of (d, RestartName)"
  proof -
    have "q \<noteq> (d, RestartName) \<and> q \<noteq> tmp_of (d, RestartName)" using that by (auto simp: tmp_of_def)
    then show ?thesis using hand.put_last_frame [OF w] r(1) by simp
  qed
qed

lemma Request_result:
  assumes "Request io tc t = (r, t')" "tc_RunDir tc \<noteq> []"
  shows "(\<exists>rc. r = Inr rc \<and> tr_fs t' (tc_RunDir tc, RestartName) = Some (rc_Generation rc @ [CHR 0x0A])) \<or>
      (\<exists>e. r = Inl e \<and> tr_fs t' (tc_RunDir tc, RestartName) = tr_fs t (tc_RunDir tc, RestartName))"
    "fst q \<noteq> tc_RunDir tc \<or> q \<noteq> (tc_RunDir tc, RestartName) \<and> q \<noteq> tmp_of (tc_RunDir tc, RestartName) \<Longrightarrow>
      tr_fs t' q = tr_fs t q"
proof -
  obtain x tr where b: "Bump (si_bump io) (si_read_err io) (si_nano io) (tc_RunDir tc) (tr_fs t) = (x, tr)" by fastforce
  note B = Bump_cases [OF b assms(2)]
  show "(\<exists>rc. r = Inr rc \<and> tr_fs t' (tc_RunDir tc, RestartName) = Some (rc_Generation rc @ [CHR 0x0A])) \<or>
      (\<exists>e. r = Inl e \<and> tr_fs t' (tc_RunDir tc, RestartName) = tr_fs t (tc_RunDir tc, RestartName))"
    using assms(1) b B(1) by (cases x) (auto simp: Request_def request_register_def Let_def)
  show "tr_fs t' q = tr_fs t q"
    if "fst q \<noteq> tc_RunDir tc \<or> q \<noteq> (tc_RunDir tc, RestartName) \<and> q \<noteq> tmp_of (tc_RunDir tc, RestartName)"
    using assms(1) b B(2) [OF that] by (cases x) (auto simp: Request_def request_register_def Let_def)
qed

text \<open>A request is a bump and a registration of the tracker.\<close>

lemma Request_reachable:
  assumes "Request io tc t = (r, t')" "tracker_reachable ft tc t"
    and "\<And>gen tr. Bump (si_bump io) (si_read_err io) (si_nano io) (tc_RunDir tc) (tr_fs t) = (Inr gen, tr) \<Longrightarrow>
      fresh_generation gen t \<or> tc_RunDir tc = []"
  shows "tracker_reachable ft tc t'"
proof -
  obtain x tr where b: "Bump (si_bump io) (si_read_err io) (si_nano io) (tc_RunDir tc) (tr_fs t) = (x, tr)" by fastforce
  show ?thesis
  proof (cases x)
    case (Inl e)
    then have "t' = t\<lparr>tr_fs := last tr\<rparr>" using assms(1) b by (simp add: Request_def)
    then show ?thesis using tracker_step.bump_failed b [unfolded Inl] assms(2) tracker_reachable.step by blast
  next
    case (Inr gen)
    let ?u = "t\<lparr>tr_fs := last tr, tr_pending := gen # tr_pending t\<rparr>"
    have 1: "tracker_step ft tc t ?u" by (rule tracker_step.bump [OF b [unfolded Inr] assms(3) [OF b [unfolded Inr]]])
    obtain rc where reg: "request_register tc (si_now io) gen ?u = (t', rc)"
      using assms(1) b Inr by (auto simp: Request_def split: prod.splits)
    have 2: "tracker_step ft tc ?u t'" by (rule tracker_step.register [OF _ reg]) simp
    show ?thesis using tracker_reachable.step [OF tracker_reachable.step [OF assms(2) 1] 2] .
  qed
qed

lemma header_simps [simp]:
  "map_of (put_headers out rc ap) headerRestart = Some out"
  "map_of (put_headers out rc ap) headerRestartGeneration =
     (if rc_Generation rc = [] then None else Some (rc_Generation rc))"
  by (simp_all add: put_headers_def writeRestartHeaders_def headerRestart_def headerRestartSupervision_def
      headerRestartGeneration_def headerRestarted_def headerPendingAppRestart_def)

text \<open>The ways through a PUT.\<close>

lemma put_cases [consumes 1, case_names refused unstored stored]:
  assumes "handlePutModelSpec ce io body s = (r, s')"
  obtains n code where "r = Problem n code" "s' = s" "code \<noteq> ''restart_failed''" "code \<noteq> ''run_dir_unset''"
      "code \<noteq> ''persist_failed''"
  | data spec e where "body = Some data" "ParseModelSpecBytes ce data = Inr spec"
      "ApplySpec (ce_value ce) io spec s = (Inl e, s')"
      "r = (case e of ErrInvalidSpec x \<Rightarrow> Problem 400 ''invalid_model_spec'' | ErrPersist x \<Rightarrow> Problem 500 ''persist_failed''
            | ApplyPanic p \<Rightarrow> ReplyPanic p)"
  | data spec ap s1 where "body = Some data" "ParseModelSpecBytes ce data = Inr spec"
      "ApplySpec (ce_value ce) io spec s = (Inr ap, s1)" "answer_put io ap s1 = (r, s')"
proof (cases body)
  case None
  then show thesis using assms that(1) by (auto simp: handlePutModelSpec_def)
next
  case (Some t)
  let ?data = "take (Suc maxModelSpecBytes) t"
  show thesis
  proof (cases "length ?data > maxModelSpecBytes")
    case True
    then show thesis using assms Some that(1) by (auto simp: handlePutModelSpec_def Let_def)
  next
    case False
    then have data: "?data = t" by simp
    show thesis
    proof (cases "ParseModelSpecBytes ce t")
      case (Inl e)
      then show thesis using assms Some False data that(1) by (auto simp: handlePutModelSpec_def Let_def)
    next
      case (Inr spec)
      obtain x s1 where x: "ApplySpec (ce_value ce) io spec s = (x, s1)" by fastforce
      show thesis
      proof (cases x)
        case (Inl e)
        then show thesis using assms Some False data Inr x that(2) [OF Some Inr]
          by (cases e) (auto simp: handlePutModelSpec_def Let_def)
      next
        case X: (Inr ap)
        then show thesis using assms Some False data Inr x that(3) [OF Some Inr, of ap s1]
          by (auto simp: handlePutModelSpec_def Let_def)
      qed
    qed
  qed
qed

text \<open>What the part behind \<open>ApplySpec\<close> does.\<close>

lemma answer_cases [consumes 1, case_names unset failed signaled unneeded]:
  assumes "answer_put io ap s = (r, s')"
  obtains "r = Problem 503 ''run_dir_unset''" "s' = s"
  | e t where "r = Problem 500 ''restart_failed''" "s' = s\<lparr>rt_Handoff := t\<rparr>" "tc_RunDir (rt_Tracker s) \<noteq> []"
      "Request io (rt_Tracker s) (rt_Handoff s) = (Inl e, t)"
  | rc t where "r = CardReply (put_headers restartSignaled rc ap) (ap_Spec ap)" "s' = s\<lparr>rt_Handoff := t\<rparr>"
      "tc_RunDir (rt_Tracker s) \<noteq> []" "Request io (rt_Tracker s) (rt_Handoff s) = (Inr rc, t)"
      "ap_EngineArgsChanged ap"
  | rc where "r = CardReply (put_headers restartNotNeeded rc ap) (ap_Spec ap)" "s' = s" "rc_Generation rc = []"
      "\<not> ap_EngineArgsChanged ap \<or> cg_Kind (rt_Config s) = no_engine"
  using assms
  by (auto simp: answer_put_def split: if_splits sum.splits prod.splits)

section \<open>Memory and disk agree\<close>

text \<open>What the process, the wrapper and the next boot each read: the card in memory, the card on disk, and
  the flags in the run directory.\<close>

definition agrees :: "runtime_store \<Rightarrow> bool" where
  "agrees s \<longleftrightarrow>
     (case cg_SpecPath (rt_Config s) of None \<Rightarrow> True | Some p \<Rightarrow> disk s p = Some (card_text (cg_Spec (rt_Config s)))) \<and>
     (tc_RunDir (rt_Tracker s) = [] \<or>
      disk s (tc_RunDir (rt_Tracker s), EngineArgsName) = Some (sp_EngineArgs (cg_Spec (rt_Config s))))"

text \<open>The card is a file of its own: neither it nor its temporary is one of the two files the hand-off writes
  into the run directory, or the temporary of one. It holds of the default, \<open>model-spec.json\<close> in the run
  directory itself (\<open>default_card_apart\<close>), and of every card elsewhere.\<close>

definition handoff_files :: "string \<Rightarrow> path list" where
  "handoff_files d = [(d, EngineArgsName), tmp_of (d, EngineArgsName), (d, RestartName), tmp_of (d, RestartName)]"

definition card_apart :: "runtime_store \<Rightarrow> bool" where
  "card_apart s \<longleftrightarrow>
     (case cg_SpecPath (rt_Config s) of
        None \<Rightarrow> True
      | Some p \<Rightarrow> list_all (\<lambda>q. p \<noteq> q \<and> tmp_of p \<noteq> q) (handoff_files (tc_RunDir (rt_Tracker s))))"

lemma default_card_apart:
  "cg_SpecPath (rt_Config s) = Some (tc_RunDir (rt_Tracker s), ''model-spec.json'') \<Longrightarrow> card_apart s"
  "cg_SpecPath (rt_Config s) = Some p \<Longrightarrow> fst p \<noteq> tc_RunDir (rt_Tracker s) \<Longrightarrow> card_apart s"
  by (auto simp: card_apart_def handoff_files_def tmp_of_def EngineArgsName_def RestartName_def)

text \<open>The operations in whatever order; \<open>ok\<close> says what the operating system may do to each.\<close>

inductive store_reach ::
  "card_env \<Rightarrow> (int option \<Rightarrow> string) \<Rightarrow> (store_io \<Rightarrow> bool) \<Rightarrow> runtime_store \<Rightarrow> runtime_store \<Rightarrow> bool"
  for ce :: card_env and fmt :: "int option \<Rightarrow> string" and ok :: "store_io \<Rightarrow> bool" and s0 :: runtime_store where
  start: "store_reach ce fmt ok s0 s0"
| put: "store_reach ce fmt ok s0 s \<Longrightarrow> ok io \<Longrightarrow> handlePutModelSpec ce io body s = (r, s') \<Longrightarrow>
    store_reach ce fmt ok s0 s'"
| restart: "store_reach ce fmt ok s0 s \<Longrightarrow> ok io \<Longrightarrow> handleEngineRestart io s = (r, s') \<Longrightarrow>
    store_reach ce fmt ok s0 s'"
| recording: "store_reach ce fmt ok s0 s \<Longrightarrow> ok io \<Longrightarrow> RecordCapacity ce fmt io cap s = (x, s') \<Longrightarrow>
    store_reach ce fmt ok s0 s'"

lemma run_dir_frame:
  assumes "persist_card io c fs = (e, tr)" "cg_SpecPath c = cg_SpecPath (rt_Config s)" "card_apart s"
  shows "last tr (tc_RunDir (rt_Tracker s), EngineArgsName) = fs (tc_RunDir (rt_Tracker s), EngineArgsName)"
    "last tr (tc_RunDir (rt_Tracker s), RestartName) = fs (tc_RunDir (rt_Tracker s), RestartName)"
proof -
  have "last tr q = fs q" if "q \<in> set (handoff_files (tc_RunDir (rt_Tracker s)))" for q
  proof (rule persist_card_frame [OF assms(1)])
    show "q \<noteq> p \<and> q \<noteq> tmp_of p" if "cg_SpecPath c = Some p" for p
    proof -
      have "cg_SpecPath (rt_Config s) = Some p" using assms(2) that by simp
      then show ?thesis using assms(3) \<open>q \<in> _\<close> by (auto simp: card_apart_def list_all_iff)
    qed
  qed
  then show "last tr (tc_RunDir (rt_Tracker s), EngineArgsName) = fs (tc_RunDir (rt_Tracker s), EngineArgsName)"
    "last tr (tc_RunDir (rt_Tracker s), RestartName) = fs (tc_RunDir (rt_Tracker s), RestartName)"
    by (simp_all add: handoff_files_def)
qed

text \<open>A change of the handoff that touches neither the card nor the flags.\<close>

lemma agrees_handoff:
  assumes "agrees s" "card_apart s" "tc_RunDir (rt_Tracker s) \<noteq> []"
    and "Request io (rt_Tracker s) (rt_Handoff s) = (r, t)"
  shows "agrees (s\<lparr>rt_Handoff := t\<rparr>)" "card_apart (s\<lparr>rt_Handoff := t\<rparr>)"
proof -
  note R = Request_result(2) [OF assms(4,3)]
  have n: "(tc_RunDir (rt_Tracker s), EngineArgsName) \<noteq> (tc_RunDir (rt_Tracker s), RestartName)"
    "(tc_RunDir (rt_Tracker s), EngineArgsName) \<noteq> tmp_of (tc_RunDir (rt_Tracker s), RestartName)"
    by (simp_all add: EngineArgsName_def RestartName_def tmp_of_def)
  have "tr_fs t (tc_RunDir (rt_Tracker s), EngineArgsName) = disk s (tc_RunDir (rt_Tracker s), EngineArgsName)"
    using R n by (simp add: disk_def)
  moreover have "tr_fs t p = disk s p" if "cg_SpecPath (rt_Config s) = Some p" for p
    using R [of p] assms(2) that by (simp add: card_apart_def handoff_files_def disk_def)
  ultimately show "agrees (s\<lparr>rt_Handoff := t\<rparr>)" using assms(1)
    by (cases "cg_SpecPath (rt_Config s)") (simp_all add: agrees_def disk_def)
  show "card_apart (s\<lparr>rt_Handoff := t\<rparr>)" using assms(2)
    by (cases "cg_SpecPath (rt_Config s)") (simp_all add: card_apart_def)
qed

lemma agrees_apply:
  assumes "agrees s" "card_apart s" "ApplySpec val io spec s = (x, s')" "si_args io = fault_free"
  shows "agrees s'" "card_apart s'" "x = Inl (ErrPersist e) \<Longrightarrow> rt_Config s' = rt_Config s"
proof -
  have "agrees s' \<and> card_apart s' \<and> (x = Inl (ErrPersist e) \<longrightarrow> rt_Config s' = rt_Config s)"
    using assms(3)
  proof (cases rule: ApplySpec_cases)
    case (refused e)
    then show ?thesis using assms(1,2) by simp
  next
    case (card_failed nxt b e tr)
    note keeps = normalize_keeps [OF card_failed(2)]
    have path: "cg_SpecPath nxt = cg_SpecPath (rt_Config s)" using keeps by simp
    have "last tr p = disk s p" if "cg_SpecPath (rt_Config s) = Some p" for p
      using persist_card_result [OF card_failed(3)] that path by simp
    moreover have "last tr (tc_RunDir (rt_Tracker s), EngineArgsName) = disk s (tc_RunDir (rt_Tracker s), EngineArgsName)"
      using run_dir_frame(1) [OF card_failed(3) path assms(2)] .
    ultimately show ?thesis using assms(1,2) card_failed(5)
      by (cases "cg_SpecPath (rt_Config s)") (simp_all add: agrees_def card_apart_def)
  next
    case (args_failed nxt b tr e tr')
    have "\<not> (\<exists>e tr'. WriteEngineArgs fault_free d raw fs = (Some e, tr'))" for d raw fs
      using hand.put_fault_free [of "(d, EngineArgsName)" raw fs] by (auto simp: WriteEngineArgs_def)
    then show ?thesis using args_failed(4) assms(4) by simp
  next
    case (stored nxt b tr tr')
    note keeps = normalize_keeps [OF stored(2)]
    have path: "cg_SpecPath nxt = cg_SpecPath (rt_Config s)" using keeps by simp
    have "last tr' p = Some (card_text (cg_Spec nxt))" if "cg_SpecPath (rt_Config s) = Some p" for p
      using persist_card_result [OF stored(3)] engine_args_frame [OF stored(4), of p] that path assms(2)
      by (simp add: card_apart_def handoff_files_def)
    then show ?thesis using assms(2) stored(5,6) engine_args_result [OF stored(4)] path
      by (auto simp: agrees_def card_apart_def split: option.splits)
  qed
  then show "agrees s'" "card_apart s'" "x = Inl (ErrPersist e) \<Longrightarrow> rt_Config s' = rt_Config s" by blast+
qed

lemma agrees_answer:
  assumes "agrees s" "card_apart s" "answer_put io ap s = (r, s')"
  shows "agrees s'" "card_apart s'"
  using assms(3)
proof (atomize (full), cases rule: answer_cases)
  case (failed e t)
  then show "agrees s' \<and> card_apart s'" using agrees_handoff [OF assms(1,2) failed(3,4)] by simp
next
  case (signaled rc t)
  then show "agrees s' \<and> card_apart s'" using agrees_handoff [OF assms(1,2) signaled(3,4)] by simp
qed (use assms in simp_all)

lemma agrees_put:
  assumes "agrees s" "card_apart s" "handlePutModelSpec ce io body s = (r, s')" "si_args io = fault_free"
  shows "agrees s'" "card_apart s'"
  using assms(3)
proof (atomize (full), cases rule: put_cases)
  case (unstored data spec e)
  then show "agrees s' \<and> card_apart s'" using agrees_apply [OF assms(1,2) unstored(3) assms(4)] by simp
next
  case (stored data spec ap s1)
  then show "agrees s' \<and> card_apart s'"
    using agrees_answer [OF _ _ stored(4)] agrees_apply [OF assms(1,2) stored(3) assms(4)] by simp
qed (use assms in simp_all)

lemma agrees_restart:
  assumes "agrees s" "card_apart s" "handleEngineRestart io s = (r, s')"
  shows "agrees s'" "card_apart s'"
proof -
  obtain x t where x: "Request io (rt_Tracker s) (rt_Handoff s) = (x, t)" by fastforce
  have "s' = s \<or> tc_RunDir (rt_Tracker s) \<noteq> [] \<and> s' = s\<lparr>rt_Handoff := t\<rparr>"
    using assms(3) x by (auto simp: handleEngineRestart_def split: if_splits sum.splits)
  then show "agrees s'" "card_apart s'" using assms(1,2) agrees_handoff [OF assms(1,2) _ x] by auto
qed

lemma record_cases [consumes 1]:
  assumes "RecordCapacity ce fmt io cap s = (x, s')"
  obtains (same) "x = Inr False" "s' = s" "sameCapacity (ce_value ce) (extension (cg_Spec (rt_Config s)) ExtensionKey)
      (capacityBlock (ce_float ce) fmt cap)"
  | (failed) nxt e tr where "x = Inl (ErrPersist e)" "s' = with_disk (last tr) s"
      "nxt = (rt_Config s)\<lparr>cg_Spec := (cg_Spec (rt_Config s))\<lparr>sp_Extensions :=
         obj_put ExtensionKey (capacityBlock (ce_float ce) fmt cap) (sp_Extensions (cg_Spec (rt_Config s)))\<rparr>\<rparr>"
      "persist_card io nxt (disk s) = (Some e, tr)"
  | (recorded) nxt tr where "x = Inr True" "s' = with_disk (last tr) (s\<lparr>rt_Config := nxt\<rparr>)"
      "nxt = (rt_Config s)\<lparr>cg_Spec := (cg_Spec (rt_Config s))\<lparr>sp_Extensions :=
         obj_put ExtensionKey (capacityBlock (ce_float ce) fmt cap) (sp_Extensions (cg_Spec (rt_Config s)))\<rparr>\<rparr>"
      "persist_card io nxt (disk s) = (None, tr)"
proof (cases "sameCapacity (ce_value ce) (extension (cg_Spec (rt_Config s)) ExtensionKey)
    (capacityBlock (ce_float ce) fmt cap)")
  case True
  then show thesis using assms by (intro same) (simp_all add: RecordCapacity_def Let_def)
next
  case False
  let ?nxt = "(rt_Config s)\<lparr>cg_Spec := (cg_Spec (rt_Config s))\<lparr>sp_Extensions :=
    obj_put ExtensionKey (capacityBlock (ce_float ce) fmt cap) (sp_Extensions (cg_Spec (rt_Config s)))\<rparr>\<rparr>"
  obtain e tr where p: "persist_card io ?nxt (disk s) = (e, tr)" by (rule prod.exhaust)
  show thesis
  proof (cases e)
    case None
    show thesis
    proof (rule recorded [OF _ _ refl])
      show "persist_card io ?nxt (disk s) = (None, tr)" using p None by simp
      then show "x = Inr True" "s' = with_disk (last tr) (s\<lparr>rt_Config := ?nxt\<rparr>)"
        using assms False by (simp_all add: RecordCapacity_def Let_def)
    qed
  next
    case (Some e0)
    show thesis
    proof (rule failed [OF _ _ refl])
      show "persist_card io ?nxt (disk s) = (Some e0, tr)" using p Some by simp
      then show "x = Inl (ErrPersist e0)" "s' = with_disk (last tr) s"
        using assms False by (simp_all add: RecordCapacity_def Let_def)
    qed
  qed
qed

lemma agrees_record:
  assumes "agrees s" "card_apart s" "RecordCapacity ce fmt io cap s = (x, s')"
  shows "agrees s'" "card_apart s'"
proof -
  have *: "last tr (tc_RunDir (rt_Tracker s), EngineArgsName) = disk s (tc_RunDir (rt_Tracker s), EngineArgsName)"
    if "persist_card io nxt (disk s) = (e, tr)" "cg_SpecPath nxt = cg_SpecPath (rt_Config s)" for e tr nxt
    using run_dir_frame(1) [OF that assms(2)] .
  have "agrees s' \<and> card_apart s'" using assms(3)
  proof (cases rule: record_cases)
    case (failed nxt e tr)
    then show ?thesis using * [OF failed(4)] persist_card_result [OF failed(4)] assms(1,2)
      by (auto simp: agrees_def card_apart_def split: option.splits)
  next
    case (recorded nxt tr)
    then show ?thesis using * [OF recorded(4)] persist_card_result [OF recorded(4)] assms(1,2)
      by (auto simp: agrees_def card_apart_def split: option.splits)
  qed (use assms in simp)
  then show "agrees s'" "card_apart s'" by blast+
qed

lemma all_agree:
  assumes "store_reach ce fmt (\<lambda>io. si_args io = fault_free) s0 s" "agrees s0" "card_apart s0"
  shows "agrees s \<and> card_apart s"
  using assms
proof (induction rule: store_reach.induct)
  case (put s io body r s')
  then show ?case using agrees_put [OF _ _ put.hyps(3,2)] by simp
next
  case (restart s io r s')
  then show ?case using agrees_restart [OF _ _ restart.hyps(3)] by simp
next
  case (recording s io cap x s')
  then show ?case using agrees_record [OF _ _ recording.hyps(3)] by simp
qed simp

text \<open>C5: Through any edits, restarts and recorded capacities, succeeding or failing, the card in memory, the
  card on disk and the flags in the run directory describe one card, as long as the flags can be written
  and the card is a file of its own, as the default \<open>model-spec.json\<close> in the run directory is.\<close>
theorem card_and_flags_agree:
  assumes "store_reach ce fmt (\<lambda>io. si_args io = fault_free) s0 s" "agrees s0" "card_apart s0"
  shows "agrees s"
  using all_agree [OF assms] by simp

section \<open>The name that is served\<close>

lemma normalize_model_name: "NormalizeSpecForEngine c = Inr (c', b, r) \<Longrightarrow> cg_ModelName c' = cg_ModelName c"
  by (auto simp: NormalizeSpecForEngine_def ensureLlamacppEmbeddingArgs_def ApplyEngineArgsFromSpec_def Let_def
      with_view_def elim!: sync_card_cases split: prod.splits option.splits sum.splits if_splits)

lemma admitted_name:
  "admitted c spec = None \<Longrightarrow> sp_Name (cg_Spec c) \<noteq> [] \<Longrightarrow> sp_Name (named c spec) = sp_Name (cg_Spec c)"
  by (auto simp: admitted_def checkRename_def named_def split: if_splits)

definition serves :: "string \<Rightarrow> runtime_store \<Rightarrow> bool" where
  "serves name s \<longleftrightarrow> sp_Name (cg_Spec (rt_Config s)) = name \<and> cg_ModelName (rt_Config s) = name"

lemma apply_serves:
  assumes "ApplySpec val io spec s = (x, s')" "serves name s" "name \<noteq> []"
  shows "serves name s'"
  using assms(1)
proof (cases rule: ApplySpec_cases)
  case (stored nxt b tr tr')
  have "cg_ModelName nxt = cg_ModelName (rt_Config s)" using stored(2) by (auto dest: normalize_model_name)
  then show ?thesis using stored normalize_keeps(4) [OF stored(2)] admitted_name [OF stored(1)] assms(2,3)
    by (simp add: serves_def)
qed (use assms(2) in \<open>auto simp: serves_def\<close>)

lemma handoff_serves [simp]: "serves name (s\<lparr>rt_Handoff := t\<rparr>) = serves name s"
  by (simp add: serves_def)

lemma put_serves:
  assumes "handlePutModelSpec ce io body s = (r, s')" "serves name s" "name \<noteq> []"
  shows "serves name s'"
  using assms(1)
proof (cases rule: put_cases)
  case (unstored data spec e)
  then show ?thesis using apply_serves assms(2,3) by blast
next
  case (stored data spec ap s1)
  have "serves name s1" using apply_serves [OF stored(3) assms(2,3)] .
  with stored(4) show ?thesis by (cases rule: answer_cases) auto
qed (use assms(2) in simp)

text \<open>C31: The name a process serves is the name on its card and never changes while it runs, whatever cards
  it is sent, whatever fails and however often the engine is relaunched.\<close>
theorem served_name_is_fixed:
  assumes "store_reach ce fmt ok s0 s" "serves name s0" "name \<noteq> []"
  shows "serves name s"
  using assms
proof (induction rule: store_reach.induct)
  case (put s io body r s')
  then show ?case using put_serves by blast
next
  case (restart s io r s')
  then have "serves name s" by simp
  then show ?case using restart.hyps(3)
    by (auto simp: handleEngineRestart_def split: if_splits sum.splits prod.splits)
next
  case (recording s io cap x s')
  then have "serves name s" by simp
  then show ?case using recording.hyps(3) by (auto simp: serves_def elim!: record_cases)
qed simp

section \<open>What a failure leaves behind\<close>

text \<open>C39: When the card can be written but its flags cannot be published, the edit is refused and memory
  keeps the old card, but the new card is already on disk beside the old flags: the next boot runs the
  refused card. The card is a file of its own, as the default is.\<close>
theorem refused_card_stays_on_disk:
  assumes "ApplySpec val io spec s = (Inl (ErrPersist e), s')"
    and "NormalizeSpecForEngine ((rt_Config s)\<lparr>cg_Spec := named (rt_Config s) spec\<rparr>) = Inr (nxt, b, None)"
    and "fst (persist_card io nxt (disk s)) = None" "cg_SpecPath (rt_Config s) = Some p"
    and "card_apart s"
  shows "rt_Config s' = rt_Config s \<and> disk s' p = Some (card_text (cg_Spec nxt)) \<and>
    disk s' (tc_RunDir (rt_Tracker s), EngineArgsName) = disk s (tc_RunDir (rt_Tracker s), EngineArgsName)"
  using assms(1)
proof (cases rule: ApplySpec_cases)
  case (card_failed nxt' b' e' tr)
  then show ?thesis using assms(2,3) by simp
next
  case (args_failed nxt' b' tr e' tr')
  then have n: "nxt' = nxt" using assms(2) by simp
  note p = persist_card_result [OF args_failed(3), unfolded n]
  have path: "cg_SpecPath nxt = Some p" using normalize_keeps(2) [OF assms(2)] assms(4) by simp
  have args: "tc_RunDir (rt_Tracker s) \<noteq> []"
    using args_failed(4) by (auto simp: WriteEngineArgs_def)
  have "last tr' p = last tr p"
    using engine_args_frame [OF args_failed(4)] assms(4,5) by (simp add: card_apart_def handoff_files_def)
  moreover have "last tr (tc_RunDir (rt_Tracker s), EngineArgsName) = disk s (tc_RunDir (rt_Tracker s), EngineArgsName)"
    using run_dir_frame [OF args_failed(3)] normalize_keeps(2) [OF assms(2)] n assms(5) by simp
  ultimately show ?thesis using p path args_failed(6) engine_args_result [OF args_failed(4) args] by simp
qed auto

lemma apply_leaves_signal:
  assumes "ApplySpec val io spec s = (x, s')" "card_apart s"
  shows "disk s' (tc_RunDir (rt_Tracker s), RestartName) = disk s (tc_RunDir (rt_Tracker s), RestartName)"
    "rt_Tracker s' = rt_Tracker s" "card_apart s'"
proof -
  let ?q = "(tc_RunDir (rt_Tracker s), RestartName)"
  have n: "?q \<noteq> (tc_RunDir (rt_Tracker s), EngineArgsName) \<and> ?q \<noteq> tmp_of (tc_RunDir (rt_Tracker s), EngineArgsName)"
    by (simp add: EngineArgsName_def RestartName_def tmp_of_def)
  have "disk s' ?q = disk s ?q \<and> rt_Tracker s' = rt_Tracker s \<and> card_apart s'" using assms(1)
  proof (cases rule: ApplySpec_cases)
    case (card_failed nxt b e tr)
    have "last tr ?q = disk s ?q"
      using run_dir_frame [OF card_failed(3)] normalize_keeps(2) [OF card_failed(2)] assms(2) by simp
    then show ?thesis using card_failed assms(2)
      by (cases "cg_SpecPath (rt_Config s)") (simp_all add: card_apart_def)
  next
    case (args_failed nxt b tr e tr')
    have "last tr ?q = disk s ?q"
      using run_dir_frame [OF args_failed(3)] normalize_keeps(2) [OF args_failed(2)] assms(2) by simp
    then show ?thesis using engine_args_frame [OF args_failed(4)] n args_failed assms(2)
      by (cases "cg_SpecPath (rt_Config s)") (simp_all add: card_apart_def)
  next
    case (stored nxt b tr tr')
    have path: "cg_SpecPath nxt = cg_SpecPath (rt_Config s)" using normalize_keeps(2) [OF stored(2)] by simp
    have "last tr ?q = disk s ?q" using run_dir_frame(2) [OF stored(3) path assms(2)] .
    then show ?thesis using engine_args_frame [OF stored(4)] n stored path assms(2)
      by (cases "cg_SpecPath (rt_Config s)") (simp_all add: card_apart_def)
  qed (use assms(2) in simp)
  then show "disk s' ?q = disk s ?q" "rt_Tracker s' = rt_Tracker s" "card_apart s'" by blast+
qed

text \<open>C7: A relaunch whose signal failed is never sent: the caller is told \<open>restart_failed\<close>, and the same
  edit again, when it is answered with a card, is answered as stored with no restart needed, while the
  generation file is as it was before both and the engine still runs the old flags. The card is a file of
  its own, as the default is.\<close>
theorem failed_restart_is_not_retried:
  assumes "handlePutModelSpec ce io (Some body) s = (Problem 500 ''restart_failed'', s')"
    and "handlePutModelSpec ce io' (Some body) s' = (CardReply hs spec, s'')" "card_apart s"
  shows "map_of hs headerRestart = Some restartNotNeeded \<and>
    disk s'' (tc_RunDir (rt_Tracker s), RestartName) = disk s (tc_RunDir (rt_Tracker s), RestartName)"
proof -
  let ?q = "(tc_RunDir (rt_Tracker s), RestartName)"
  obtain c ap s1 where 1: "ParseModelSpecBytes ce body = Inr c" "ApplySpec (ce_value ce) io c s = (Inr ap, s1)"
      "answer_put io ap s1 = (Problem 500 ''restart_failed'', s')"
    using assms(1) by (cases rule: put_cases) (auto split: apply_error.splits)
  obtain e t where 2: "s' = s1\<lparr>rt_Handoff := t\<rparr>" "tc_RunDir (rt_Tracker s1) \<noteq> []"
      "Request io (rt_Tracker s1) (rt_Handoff s1) = (Inl e, t)"
    using 1(3) by (cases rule: answer_cases) auto
  note f1 = apply_leaves_signal [OF 1(2) assms(3)]
  have d1: "disk s' ?q = disk s ?q" using Request_result(1) [OF 2(3,2)] f1 2(1) by (simp add: disk_def)
  have o1: "card_apart s'" "rt_Tracker s' = rt_Tracker s" "rt_Config s' = rt_Config s1"
    using f1 2(1) by (cases "cg_SpecPath (rt_Config s1)"; simp add: card_apart_def)+
  obtain ap' s2 where 3: "ApplySpec (ce_value ce) io' c s' = (Inr ap', s2)"
      "answer_put io' ap' s2 = (CardReply hs spec, s'')"
    using assms(2) 1(1) by (cases rule: put_cases) (auto split: apply_error.splits)
  have same: "\<not> ap_EngineArgsChanged ap'" using apply_again(1) [OF 1(2) 3(1)] o1(3) by simp
  from 3(2) obtain rc where 4: "hs = put_headers restartNotNeeded rc ap'" "s'' = s2"
    by (cases rule: answer_cases) (use same in auto)
  show ?thesis using apply_leaves_signal(1) [OF 3(1) o1(1)] d1 o1(2) 4 by simp
qed

text \<open>An answer that says the relaunch was signaled is true of the disk: the generation it names is the
  one in the file the wrapper polls.\<close>
theorem signaled_means_on_disk:
  assumes "handlePutModelSpec ce io body s = (CardReply hs spec, s')" "map_of hs headerRestart = Some restartSignaled"
  shows "\<exists>gen. disk s' (tc_RunDir (rt_Tracker s'), RestartName) = Some (gen @ [CHR 0x0A]) \<and>
    map_of hs headerRestartGeneration = (if gen = [] then None else Some gen)"
proof -
  obtain c ap s1 where 1: "answer_put io ap s1 = (CardReply hs spec, s')"
    using assms(1) by (cases rule: put_cases) (auto split: apply_error.splits)
  then show ?thesis
  proof (cases rule: answer_cases)
    case (signaled rc t)
    then show ?thesis using Request_result(1) [OF signaled(4,3)] by (auto simp: disk_def)
  next
    case (unneeded rc)
    then show ?thesis using assms(2) by (auto simp: restartNotNeeded_def restartSignaled_def)
  qed auto
qed

section \<open>A capacity on the card\<close>

text \<open>A value whose maps have no key twice equals itself.\<close>

lemma deep_members_refl:
  assumes "distinct (map fst m)" "\<And>k v. (k, v) \<in> set m \<Longrightarrow> deep_equal val v v"
  shows "deep_members val m m"
proof -
  have "deep_members val fs m" if "set fs \<subseteq> set m" for fs
    using that assms by (induction fs) (auto split: option.splits)
  then show ?thesis by simp
qed

text \<open>The numbers of a capacity a float64 holds exactly.\<close>

definition exact_capacity :: "(string \<Rightarrow> string option) \<Rightarrow> capacity \<Rightarrow> bool" where
  "exact_capacity fl c \<longleftrightarrow>
     list_all (\<lambda>n. fl (itoa n) = Some (itoa n)) [cap_ContextSize c, cap_MaxConcurrency c, cap_PoolTokens c]"

lemma any_elems_strings: "any_elems fl (map JStr xs) = Some (map JStr xs)"
  by (induction xs) simp_all

lemma capacity_block:
  "exact_capacity fl c \<Longrightarrow> capacityBlock fl fmt c = capacity_value fmt c"
  by (auto simp: capacityBlock_def capacity_value_def exact_capacity_def opt_int_def opt_strings_def any_elems_strings)

lemma deep_elems_strings: "deep_elems val (map JStr xs) (map JStr xs)"
  by (induction xs) simp_all

lemma capacity_members:
  assumes "capacity_value fmt c = JObj m"
  shows "distinct (map fst m)" "(k, v) \<in> set m \<Longrightarrow> deep_equal val v v"
  using assms by (auto simp: capacity_value_def opt_int_def opt_strings_def deep_elems_strings split: if_splits)

lemma same_but_later:
  "sameCapacity val (capacity_value fmt c) (capacity_value fmt (c\<lparr>cap_ReportedAt := t\<rparr>))"
proof -
  obtain m where m: "capacity_value fmt c = JObj m" by (simp add: capacity_value_def)
  obtain m' where m': "capacity_value fmt (c\<lparr>cap_ReportedAt := t\<rparr>) = JObj m'" by (simp add: capacity_value_def)
  have eq: "withoutKey reportedAtKey m' = withoutKey reportedAtKey m"
    using m m' by (auto simp: capacity_value_def withoutKey_def reportedAtKey_def opt_int_def opt_strings_def)
  have "distinct (map fst (withoutKey reportedAtKey m))"
    using capacity_members(1) [OF m] by (simp add: withoutKey_def distinct_map_filter)
  then have "deep_members val (withoutKey reportedAtKey m) (withoutKey reportedAtKey m)"
    using capacity_members(2) [OF m] by (intro deep_members_refl) (auto simp: withoutKey_def)
  then show ?thesis by (simp add: sameCapacity_def m m' eq)
qed

text \<open>C28: A recorded capacity is what every reader of the card gets, and the same numbers read later change
  neither memory nor disk: the card keeps when they were first seen.\<close>
theorem recorded_capacity_is_read:
  assumes "RecordCapacity ce fmt io c s = (Inr True, s')" "storable c" "exact_capacity (ce_float ce) c"
    and "parse (fmt (cap_ReportedAt c)) = Some (cap_ReportedAt c)"
  shows "FromExtensions parse (sp_Extensions (cg_Spec (rt_Config s'))) = Some c \<and>
    RecordCapacity ce fmt io' (c\<lparr>cap_ReportedAt := t\<rparr>) s' = (Inr False, s')"
proof -
  note block = capacity_block [OF assms(3)]
  have later: "capacityBlock (ce_float ce) fmt (c\<lparr>cap_ReportedAt := t\<rparr>) = capacity_value fmt (c\<lparr>cap_ReportedAt := t\<rparr>)"
    using assms(3) by (intro capacity_block) (simp add: exact_capacity_def)
  have ext: "map_of (sp_Extensions (cg_Spec (rt_Config s'))) ExtensionKey = Some (capacity_value fmt c)"
    using assms(1) by (cases rule: record_cases) (auto simp: block obj_put_lookup)
  have "FromExtensions parse (sp_Extensions (cg_Spec (rt_Config s'))) = Some c"
    using ext assms(2,4) by (rule FromExtensions_value [where fmt = fmt])
  moreover have "RecordCapacity ce fmt io' (c\<lparr>cap_ReportedAt := t\<rparr>) s' = (Inr False, s')"
    using ext same_but_later by (simp add: RecordCapacity_def Let_def later extension_def)
  ultimately show ?thesis ..
qed

text \<open>Whatever the engine reports about itself, the capacity on the served card is the one measured
  here.\<close>
theorem engine_cannot_claim_capacity:
  assumes "er_extensions report = engineModelExtensions source"
  shows "FromExtensions parse (sp_Extensions (handleModelSpec report s)) =
    FromExtensions parse (sp_Extensions (cg_Spec (rt_Config s)))"
proof -
  have keep: "map_of (foldl (\<lambda>m (k, v). obj_put k v m) m fs) ExtensionKey = map_of m ExtensionKey"
    if "list_all (\<lambda>(k, v). k \<noteq> ExtensionKey) fs" for m fs
    using that by (induction fs arbitrary: m) (auto simp: obj_put_lookup)
  have "list_all (\<lambda>(k, v). k \<noteq> ExtensionKey) (er_extensions report)"
    unfolding assms by (auto simp: engineModelExtensions_def ExtensionKey_def list_all_iff)
  from keep [OF this] have "map_of (sp_Extensions (handleModelSpec report s)) ExtensionKey =
      map_of (sp_Extensions (cg_Spec (rt_Config s))) ExtensionKey"
    by (simp add: handleModelSpec_def Let_def)
  then show ?thesis by (simp add: FromExtensions_def)
qed

text \<open>A reporter that is done and undisturbed leaves the store alone.\<close>

lemma done_reporter_is_idle:
  assumes "asked_out target r" "0 \<le> rep_attempts r" "rcf_Wired cfg"
    and "list_all (\<lambda>(io, t). undisturbed cfg (rep_relaunch r) target t) ts"
    and "reporting ce fmt cfg ts (r, s) = Inr rs"
  shows "rs = (r, s)"
  using assms(4,5)
proof (induction ts)
  case (Cons iot ts)
  obtain io t where iot: "iot = (io, t)" by (cases iot)
  have u: "undisturbed cfg (rep_relaunch r) target t" using Cons.prems(1) iot by simp
  obtain rs1 where tick: "reporting_tick ce fmt cfg io t (r, s) = Inr rs1" "reporting ce fmt cfg ts rs1 = Inr rs"
    using Cons.prems(2) iot by (auto split: sum.splits)
  obtain r1 x where x: "reporter_tick cfg t r = Inr (r1, x)"
    using tick(1) by (auto simp: reporting_tick_def split: sum.splits)
  have idle: "x = Idle" by (rule undisturbed_tick(6) [OF u x assms(3,2,1)])
  have "r1 = r" using undisturbed_tick(3) [OF u x assms(3,2) idle] by simp
  then have "rs1 = (r, s)" using tick(1) x idle by (simp add: reporting_tick_def)
  then show ?case using Cons.IH Cons.prems(1) tick(2) iot by simp
qed simp

text \<open>C33: A reading that could not be written is lost: however long the engine then runs undisturbed, the
  reporter, which holds it for published, never hands it to the store again.\<close>
theorem unwritten_reading_is_lost:
  assumes "reporter_tick cfg t r = Inr (r', Recorded c)" "RecordCapacity ce fmt io c s = (Inl e, s')"
    and "0 \<le> rep_attempts r" "list_all (\<lambda>(io, u). undisturbed cfg (rep_relaunch r') (tk_target t) u) ts"
    and "reporting ce fmt cfg ((io, t) # ts) (r, s) = Inr rs"
  shows "rt_Config (snd rs) = rt_Config s"
proof -
  have w: "rcf_Wired cfg" using assms(1) by (cases rule: reporter_tick_cases) auto
  have "asked_out (tk_target t) r'" "0 \<le> rep_attempts r'" using assms(1,3)
    by (cases rule: reporter_tick_cases;
        auto simp: asked_out_def is_done_def notice_flags_def notice_relaunch_def arm_def split: if_splits)+
  moreover have "reporting ce fmt cfg ts (r', s') = Inr rs" using assms(5,1,2) by (simp add: reporting_tick_def)
  ultimately have "rs = (r', s')" using done_reporter_is_idle w assms(4) by blast
  moreover have "rt_Config s' = rt_Config s" using assms(2) by (cases rule: record_cases) auto
  ultimately show ?thesis by simp
qed

text \<open>A card edited without its capacity block has no capacity until the engine is relaunched or its
  flags change: the reporter is done and does not put it back.\<close>
theorem edited_card_forgets_capacity:
  assumes "handlePutModelSpec ce io (Some body) s = (CardReply hs spec, s')"
    and "ParseModelSpecBytes ce body = Inr edit" "map_of (sp_Extensions edit) ExtensionKey = None"
    and "asked_out target r" "0 \<le> rep_attempts r" "rcf_Wired cfg"
    and "list_all (\<lambda>(io, t). undisturbed cfg (rep_relaunch r) target t) ts"
    and "reporting ce fmt cfg ts (r, s') = Inr rs"
  shows "FromExtensions parse (sp_Extensions (cg_Spec (rt_Config (snd rs)))) = None"
proof -
  obtain ap s1 where 1: "ApplySpec (ce_value ce) io edit s = (Inr ap, s1)" "answer_put io ap s1 = (CardReply hs spec, s')"
    using assms(1,2) by (cases rule: put_cases) (auto split: apply_error.splits)
  have "sp_Extensions (cg_Spec (rt_Config s1)) = sp_Extensions edit"
    using 1(1) by (cases rule: ApplySpec_cases) (auto dest!: normalize_keeps(5) simp: named_def)
  moreover have "rt_Config s' = rt_Config s1" using 1(2) by (cases rule: answer_cases) auto
  ultimately have "FromExtensions parse (sp_Extensions (cg_Spec (rt_Config s'))) = None"
    using assms(3) by (simp add: FromExtensions_def)
  then show ?thesis using done_reporter_is_idle [OF assms(4-8)] by simp
qed

section \<open>The next boot\<close>

definition settled :: "card_config \<Rightarrow> bool" where
  "settled c \<longleftrightarrow> NormalizeSpecForEngine c = Inr (c, False, None)"

lemma settled_extensions:
  assumes "settled c"
  shows "settled (c\<lparr>cg_Spec := (cg_Spec c)\<lparr>sp_Extensions := x\<rparr>\<rparr>)"
proof -
  let ?d = "c\<lparr>cg_Spec := (cg_Spec c)\<lparr>sp_Extensions := x\<rparr>\<rparr>"
  obtain c1 b1 c2 b2 where 1: "ensureLlamacppEmbeddingArgs c = (c1, b1)" "ApplyEngineArgsFromSpec c1 = (None, c2)"
      "sync_card c2 = Inr (c, b2)" "\<not> b1" "\<not> b2"
    using assms by (auto simp: settled_def NormalizeSpecForEngine_def split: prod.splits option.splits sum.splits)
  have c1: "c1 = c" "ensureLlamacppEmbeddingArgs ?d = (?d, False)"
    using 1(1,4) by (auto simp: ensureLlamacppEmbeddingArgs_def Let_def split: if_splits)
  have args: "cg_Args c2 = cg_Args c" using 1(3) by (elim sync_card_cases) (simp add: with_view_def)
  have c2: "ApplyEngineArgsFromSpec ?d = (None, ?d)" "c2 = c"
    using 1(2) args unfolding c1
    by (auto simp: ApplyEngineArgsFromSpec_def split: if_splits sum.splits)
  have "sync_card ?d = Inr (?d, False)"
  proof -
    obtain v w b3 b4 where s: "syncContextSizeFromEngineArgs (Some (card_view c)) = Inr (Some v, b3)"
        "syncMaxOutputTokensFromContext (Some v) = (Some w, b4)" "c = with_view c w" "False = (b3 \<or> b4)"
      using 1(3,5) unfolding c2 by (elim sync_card_cases) simp
    have "card_view ?d = card_view c" by (simp add: card_view_def)
    moreover have "with_view ?d w = ?d"
    proof -
      have "sp_ContextSize (cg_Spec c) = cc_ContextSize w" "sp_MaxOutputToks (cg_Spec c) = cc_MaxOutputToks w"
        using arg_cong [OF s(3), of "\<lambda>c. sp_ContextSize (cg_Spec c)"]
          arg_cong [OF s(3), of "\<lambda>c. sp_MaxOutputToks (cg_Spec c)"] by (simp_all add: with_view_def)
      then show ?thesis by (simp add: with_view_def)
    qed
    ultimately show ?thesis using s by (simp add: sync_card_def)
  qed
  then show ?thesis using c1(2) c2(1) by (simp add: settled_def NormalizeSpecForEngine_def)
qed

lemma settled_reach:
  assumes "store_reach ce fmt ok s0 s" "settled (rt_Config s0)"
  shows "settled (rt_Config s)"
  using assms
proof (induction rule: store_reach.induct)
  case (put s io body r s')
  have old: "settled (rt_Config s)" using put by simp
  have apply_settled: "settled (rt_Config s1)" if "ApplySpec val io spec s = (x, s1)" for val spec x s1
    using that
  proof (cases rule: ApplySpec_cases)
    case (stored nxt b tr tr')
    then show ?thesis using normalize_settles [OF stored(2)] by (simp add: settled_def)
  qed (use old in simp_all)
  from put.hyps(3) show ?case
  proof (cases rule: put_cases)
    case (unstored data spec e)
    then show ?thesis using apply_settled by blast
  next
    case (stored data spec ap s1)
    have "settled (rt_Config s1)" using apply_settled [OF stored(3)] .
    with stored(4) show ?thesis by (cases rule: answer_cases) auto
  qed (use old in simp)
next
  case (restart s io r s')
  then have "settled (rt_Config s)" by simp
  then show ?case using restart.hyps(3)
    by (auto simp: handleEngineRestart_def split: if_splits sum.splits prod.splits)
next
  case (recording s io cap x s')
  then have old: "settled (rt_Config s)" by simp
  from recording.hyps(3) show ?case
    by (cases rule: record_cases) (use old settled_extensions in auto)
qed simp

text \<open>A boot on which nothing of the operating system fails.\<close>

definition calm_boot :: "boot_io \<Rightarrow> bool" where
  "calm_boot bi \<longleftrightarrow> bi_args bi = fault_free \<and> bi_read_err bi = (\<lambda>p. False) \<and> \<not> bi_stat_err bi"

lemma boot_on_settled_card:
  assumes "fs p = Some (card_text spec)" "fs (cg_RunDir c, EngineArgsName) = Some (sp_EngineArgs spec)"
    and "canonical_spec ce spec" "validateModelSpec ce spec = Inr spec"
    and "settled d" "cg_Spec d = spec" "cg_Kind d = cg_Kind c" "cg_SpecPath c = Some p" "cg_RunDir c \<noteq> []"
    and "reasoningEffortRuleFromEnv g = Inr None" "calm_boot bi"
  shows "\<exists>c' tr. ReconcileModelSpecFile ce g bi c fs = (Inr c', tr) \<and> cg_Spec c' = spec \<and>
    (last tr)(tmp_of (cg_RunDir c, EngineArgsName) := None) = fs(tmp_of (cg_RunDir c, EngineArgsName) := None)"
proof -
  let ?q = "(cg_RunDir c, EngineArgsName)" and ?c = "applyModelSpec c spec"
  note calm = assms(11) [unfolded calm_boot_def]
  have load: "LoadModelSpecFile ce (bi_read_err bi) p fs = Inr spec"
    using assms(1,3,4) calm by (intro card_loads) simp_all
  have up: "upgrade_card g bi c p spec fs = (spec, False)"
    using card_text_decodes(2) [OF assms(3)] assms(1,10) calm
    by (simp add: upgrade_card_def overlayReasoningEffortRuleFromEnv_def read_file_def)
  have cfg: "cg_Spec ?c = spec" "cg_Kind ?c = cg_Kind d" "cg_SpecPath ?c = Some p" "cg_RunDir ?c = cg_RunDir c"
    using assms(7,8) by (simp_all add: applyModelSpec_def Let_def split: option.splits)
  obtain c' where n: "NormalizeSpecForEngine ?c = Inr (c', False, None)" "cg_Spec c' = spec"
      "cg_RunDir c' = cg_RunDir c"
    using normalize_depends [OF assms(5) [unfolded settled_def], of ?c] cfg assms(6) by auto
  obtain e tr where w: "WriteEngineArgs fault_free (cg_RunDir c) (sp_EngineArgs spec) fs = (e, tr)" by fastforce
  have e: "e = None"
    using w assms(9) hand.put_fault_free [of ?q "sp_EngineArgs spec" fs] by (simp add: WriteEngineArgs_def)
  have "(last tr) q = fs q" if "q \<noteq> tmp_of ?q" for q
    using engine_args_frame [OF w, of q] engine_args_result [OF w assms(9)] e assms(2) that by (cases "q = ?q") auto
  then have same: "(last tr)(tmp_of ?q := None) = fs(tmp_of ?q := None)" by auto
  have read: "ReadEngineArgs (bi_read_err bi) (cg_RunDir c) fs = (sp_EngineArgs spec, False)"
    using assms(2,9) calm by (simp add: ReadEngineArgs_def read_file_def)
  have "applySpecSideEffects bi ?c fs = (Inr c', tr @ [last tr])"
    using n w e read calm by (simp add: applySpecSideEffects_def publish_args_def card_bind_def card_io_def)
  then have "ReconcileModelSpecFile ce g bi c fs = (Inr c', tr @ [last tr])"
    using assms(1,8) load up calm by (simp add: ReconcileModelSpecFile_def)
  then show ?thesis using n(2) same by auto
qed

text \<open>C6: A restart changes nothing, under these conditions: the card is a file of its own (the default is),
  in every step of the run the flags could be written, and the card being served is one that validation
  returns and that JSON carries (\<open>canonical_spec\<close>), no \<open>MODEL_REASONING_EFFORT\<close> rule is set in the
  environment, and nothing fails at the boot. Then, after any sequence of edits, relaunches and recorded
  capacities, the next boot loads the very card that was being served, with its extensions in key order,
  rewrites no card, republishes the same flags and asks for no relaunch. Where the flags could not be
  written, \<open>refused_card_stays_on_disk\<close> shows another outcome.\<close>
theorem restart_keeps_the_card:
  assumes "store_reach ce fmt (\<lambda>io. si_args io = fault_free) s0 s" "agrees s0" "card_apart s0"
    and "settled (rt_Config s0)" "canonical_spec ce (in_key_order (cg_Spec (rt_Config s)))"
    and "validateModelSpec ce x = Inr (cg_Spec (rt_Config s))"
    and "cg_SpecPath (rt_Config s) = Some p" "cg_SpecPath c = Some p" "cg_Kind c = cg_Kind (rt_Config s)"
    and "cg_RunDir c = tc_RunDir (rt_Tracker s)" "cg_RunDir c \<noteq> []"
    and "reasoningEffortRuleFromEnv g = Inr None" "calm_boot bi"
  shows "\<exists>c' tr. ReconcileModelSpecFile ce g bi c (disk s) = (Inr c', tr) \<and>
    cg_Spec c' = in_key_order (cg_Spec (rt_Config s)) \<and>
    (last tr)(tmp_of (cg_RunDir c, EngineArgsName) := None) =
      (disk s)(tmp_of (cg_RunDir c, EngineArgsName) := None)"
proof -
  let ?spec = "cg_Spec (rt_Config s)" and ?x = "sort_key fst (sp_Extensions (cg_Spec (rt_Config s)))"
  have a: "agrees s" using all_agree [OF assms(1-3)] by simp
  have "settled ((rt_Config s)\<lparr>cg_Spec := ?spec\<lparr>sp_Extensions := ?x\<rparr>\<rparr>)"
    using settled_extensions settled_reach [OF assms(1,4)] by blast
  then have "settled ((rt_Config s)\<lparr>cg_Spec := in_key_order ?spec\<rparr>)" unfolding in_key_order_def .
  moreover have "disk s p = Some (card_text (in_key_order ?spec))"
    "disk s (cg_RunDir c, EngineArgsName) = Some (sp_EngineArgs (in_key_order ?spec))"
    using a assms(7,10,11) by (simp_all add: agrees_def card_text_order)
  ultimately show ?thesis
    using boot_on_settled_card [OF _ _ assms(5) valid_in_order [OF assms(6,5)], where c = c and g = g and bi = bi]
      assms(8-13) by simp
qed

section \<open>A run on concrete cards\<close>

definition seed_cfg :: card_config where
  "seed_cfg = \<lparr>cg_Kind = EngineVLLM, cg_Args = zero_args [], cg_Spec = example_card [],
     cg_SpecPath = Some (''/run'', ''model-spec.json''), cg_RunDir = ''/run'', cg_ModelName = ''m'', cg_ModelType = ''chat'',
     cg_ThinkSupported = False\<rparr>"

definition example_cfg :: card_config where
  "example_cfg = (case NormalizeSpecForEngine seed_cfg of Inr (c, b, e) \<Rightarrow> c | Inl p \<Rightarrow> seed_cfg)"

definition example_disk :: fs where
  "example_disk = [(''/run'', ''model-spec.json'') \<mapsto> card_text (example_card []), (''/run'', EngineArgsName) \<mapsto> []]"

definition example_store :: runtime_store where
  "example_store = \<lparr>rt_Config = example_cfg, rt_Typed = [], rt_Tracker = \<lparr>tc_RunDir = ''/run'', tc_Probe = False,
       tc_Window = 0, tc_Interval = 0\<rparr>,
     rt_Handoff = \<lparr>tr_status = \<lparr>st_State = StateIdle, st_Supervision = SupervisionUnknown, st_Generation = [],
         st_RequestedAt = None, st_ObservedDownAt = None, st_ObservedBackAt = None\<rparr>,
       tr_observers = [], tr_pending = [], tr_fs = example_disk\<rparr>\<rparr>"

lemma example_cfg:
  "settled example_cfg" "cg_Spec example_cfg = example_card []" "cg_Kind example_cfg = EngineVLLM"
  "cg_SpecPath example_cfg = Some (''/run'', ''model-spec.json'')" "cg_RunDir example_cfg = ''/run''" "cg_ModelName example_cfg = ''m''"
proof -
  have "case NormalizeSpecForEngine seed_cfg of Inr (d, b, None) \<Rightarrow> cg_Spec d = example_card [] \<and> \<not> b | _ \<Rightarrow> False"
    by code_simp
  then have n: "NormalizeSpecForEngine seed_cfg = Inr (example_cfg, False, None)" "cg_Spec example_cfg = example_card []"
    by (auto simp: example_cfg_def split: sum.splits prod.splits option.splits)
  show "settled example_cfg" using normalize_settles [OF n(1)] by (simp add: settled_def)
  show "cg_Spec example_cfg = example_card []" "cg_Kind example_cfg = EngineVLLM"
    "cg_SpecPath example_cfg = Some (''/run'', ''model-spec.json'')" "cg_RunDir example_cfg = ''/run''" "cg_ModelName example_cfg = ''m''"
    using n(2) normalize_keeps [OF n(1)] normalize_model_name [OF n(1)] by (simp_all add: seed_cfg_def)
qed

definition calm_io :: store_io where
  "calm_io = \<lparr>si_card = fault_free, si_args = fault_free, si_bump = fault_free, si_read_err = (\<lambda>p. False),
     si_nano = 7, si_now = 7\<rparr>"

definition full_disk :: io_plan where "full_disk = fault_free\<lparr>io_mkdir := False\<rparr>"

lemma example_parse: "ParseModelSpecBytes example_env (card_text (example_card raw)) = Inr (example_card raw)"
  by (simp add: ParseModelSpecBytes_def card_text_decodes(1) example_canonical example_valid)

lemma example_short: "length (card_text (example_card ''--seed 1'')) \<le> maxModelSpecBytes"
proof -
  have "length (card_text (example_card ''--seed 1'')) < 300" by code_simp
  then show ?thesis by (simp add: maxModelSpecBytes_def)
qed

lemma put_goes_through:
  assumes "ParseModelSpecBytes ce body = Inr spec" "length body \<le> maxModelSpecBytes"
    "ApplySpec (ce_value ce) io spec s = (Inr ap, s1)"
  shows "handlePutModelSpec ce io (Some body) s = answer_put io ap s1"
  using assms by (simp add: handlePutModelSpec_def Let_def)

text \<open>Every configuration the edit is applied to in the example: the first one and the edited one.\<close>

lemma example_normal:
  assumes "cg_Kind c = EngineVLLM" "cg_Spec c = example_card ''--seed 1''"
  shows "\<exists>args. NormalizeSpecForEngine c = Inr (c\<lparr>cg_Args := args\<rparr>, False, None)"
proof -
  let ?c = "seed_cfg\<lparr>cg_Spec := example_card ''--seed 1''\<rparr>"
  have "case NormalizeSpecForEngine ?c of
      Inr (d, b, None) \<Rightarrow> cg_Spec d = example_card ''--seed 1'' \<and> \<not> b | _ \<Rightarrow> False" by code_simp
  then obtain d where d: "NormalizeSpecForEngine ?c = Inr (d, False, None)" "cg_Spec d = example_card ''--seed 1''"
    by (auto split: sum.splits prod.splits option.splits)
  have "NormalizeSpecForEngine c = Inr (c\<lparr>cg_Args := cg_Args d, cg_Spec := cg_Spec c\<rparr>, False, None)"
    using normalize_depends [OF d(1), of c] d(2) assms by (simp add: seed_cfg_def)
  moreover have "c\<lparr>cg_Args := cg_Args d, cg_Spec := cg_Spec c\<rparr> = c\<lparr>cg_Args := cg_Args d\<rparr>" by (cases c) simp
  ultimately show ?thesis by auto
qed

lemma example_apply:
  assumes "cg_Kind (rt_Config s) = EngineVLLM" "cg_Spec (rt_Config s) = example_card raw"
    and "cg_SpecPath (rt_Config s) = Some p" "si_card io = fault_free"
  obtains nxt tr where "nxt = (rt_Config s)\<lparr>cg_Args := cg_Args nxt, cg_Spec := example_card ''--seed 1''\<rparr>"
    "NormalizeSpecForEngine ((rt_Config s)\<lparr>cg_Spec := named (rt_Config s) (example_card ''--seed 1'')\<rparr>) = Inr (nxt, False, None)"
    "persist_card io nxt (disk s) = (None, tr)"
    "ApplySpec val io (example_card ''--seed 1'') s = adopt val io nxt s"
proof -
  have n: "named (rt_Config s) (example_card ''--seed 1'') = example_card ''--seed 1''"
    by (simp add: named_def example_card_def)
  have a: "admitted (rt_Config s) (example_card ''--seed 1'') = None"
    using assms(1,2) by (simp add: admitted_def checkRename_def example_card_def)
  let ?c = "(rt_Config s)\<lparr>cg_Spec := example_card ''--seed 1''\<rparr>"
  obtain args where N: "NormalizeSpecForEngine ?c = Inr (?c\<lparr>cg_Args := args\<rparr>, False, None)"
    using example_normal [of ?c] assms(1) by auto
  let ?n = "?c\<lparr>cg_Args := args\<rparr>"
  have "fst (persist_card io ?n (disk s)) = None"
    using assms(3,4) card.put_fault_free by (simp add: persist_card_def WriteModelSpecFile_def)
  then obtain tr where p: "persist_card io ?n (disk s) = (None, tr)" by (cases "persist_card io ?n (disk s)") auto
  show thesis
  proof (rule that)
    show "?n = (rt_Config s)\<lparr>cg_Args := cg_Args ?n, cg_Spec := example_card ''--seed 1''\<rparr>" by (cases "rt_Config s") simp
    show "NormalizeSpecForEngine ((rt_Config s)\<lparr>cg_Spec := named (rt_Config s) (example_card ''--seed 1'')\<rparr>) =
        Inr (?n, False, None)" unfolding n by (rule N)
    show "persist_card io ?n (disk s) = (None, tr)" by (rule p)
    show "ApplySpec val io (example_card ''--seed 1'') s = adopt val io ?n s"
      using a N n by (simp add: ApplySpec_def Let_def)
  qed
qed

lemma example_start:
  "agrees example_store" "card_apart example_store" "serves ''m'' example_store"
  "rt_Config example_store = example_cfg" "tc_RunDir (rt_Tracker example_store) = ''/run''"
  by (simp_all add: agrees_def default_card_apart serves_def example_store_def example_cfg disk_def
      example_disk_def example_card_def EngineArgsName_def)

lemma publish_ok:
  "si_args io = fault_free \<Longrightarrow> \<exists>tr. WriteEngineArgs (si_args io) d raw fs = (None, tr)"
  using hand.put_fault_free [of "(d, EngineArgsName)" raw fs]
  by (cases "writeFileAtomic fault_free (d, EngineArgsName) raw fs") (auto simp: WriteEngineArgs_def)

lemma adopt_ok:
  assumes "persist_card io nxt (disk s) = (None, tr)"
    "WriteEngineArgs (si_args io) (tc_RunDir (rt_Tracker s)) (sp_EngineArgs (cg_Spec nxt)) (last tr) = (None, tr')"
  shows "adopt val io nxt s =
    (Inr \<lparr>ap_Spec = cg_Spec nxt,
          ap_EngineArgsChanged = (sp_EngineArgs (cg_Spec (rt_Config s)) \<noteq> sp_EngineArgs (cg_Spec nxt)),
          ap_PendingAppRestart = pendingAppRestart val (rt_Typed s) (cg_Spec (rt_Config s)) (cg_Spec nxt)\<rparr>,
     with_disk (last tr') (s\<lparr>rt_Config := nxt, rt_Typed := []\<rparr>))"
  using assms by (simp add: adopt_def Let_def)

text \<open>The edit goes through and asks for a relaunch when the flags are new.\<close>

lemma example_edit:
  assumes "cg_Kind (rt_Config s) = EngineVLLM" "cg_Spec (rt_Config s) = example_card raw"
    and "cg_SpecPath (rt_Config s) = Some p" "si_card io = fault_free" "si_args io = fault_free"
  obtains ap s1 where "ApplySpec val io (example_card ''--seed 1'') s = (Inr ap, s1)"
    "ap_EngineArgsChanged ap = (raw \<noteq> ''--seed 1'')" "cg_Spec (rt_Config s1) = example_card ''--seed 1''"
    "cg_Kind (rt_Config s1) = EngineVLLM" "cg_SpecPath (rt_Config s1) = Some p"
    "rt_Tracker s1 = rt_Tracker s"
proof -
  obtain nxt tr where n: "nxt = (rt_Config s)\<lparr>cg_Args := cg_Args nxt, cg_Spec := example_card ''--seed 1''\<rparr>"
    "persist_card io nxt (disk s) = (None, tr)" "ApplySpec val io (example_card ''--seed 1'') s = adopt val io nxt s"
    using example_apply [OF assms(1-4)] by blast
  obtain tr' where p: "WriteEngineArgs (si_args io) (tc_RunDir (rt_Tracker s)) (sp_EngineArgs (cg_Spec nxt)) (last tr) = (None, tr')"
    using publish_ok [OF assms(5)] by blast
  have k: "cg_Spec nxt = example_card ''--seed 1''" "cg_Kind nxt = EngineVLLM" "cg_SpecPath nxt = Some p"
    using assms(1,3) by (subst n(1), simp)+
  have c: "(raw \<noteq> ''--seed 1'') = (sp_EngineArgs (cg_Spec (rt_Config s)) \<noteq> sp_EngineArgs (cg_Spec nxt))"
    using assms(2) k(1) by (simp add: example_card_def)
  note a = adopt_ok [OF n(2) p]
  show thesis by (rule that [OF trans [OF n(3) a]]) (simp_all only: applied.simps k c disk_simps, simp_all add: k)
qed

abbreviation edited :: string where "edited \<equiv> card_text (example_card ''--seed 1'')"

lemma example_put:
  assumes "cg_Kind (rt_Config s) = EngineVLLM" "cg_Spec (rt_Config s) = example_card raw"
    and "cg_SpecPath (rt_Config s) = Some p" "si_card io = fault_free" "si_args io = fault_free"
    and "tc_RunDir (rt_Tracker s) \<noteq> []"
  obtains r s' where "handlePutModelSpec example_env io (Some edited) s = (r, s')"
    "cg_Spec (rt_Config s') = example_card ''--seed 1''" "cg_Kind (rt_Config s') = EngineVLLM"
    "cg_SpecPath (rt_Config s') = Some p" "rt_Tracker s' = rt_Tracker s"
    "raw = ''--seed 1'' \<Longrightarrow> \<exists>hs spec. r = CardReply hs spec"
    "raw \<noteq> ''--seed 1'' \<Longrightarrow> si_bump io = full_disk \<Longrightarrow> r = Problem 500 ''restart_failed''"
    "raw \<noteq> ''--seed 1'' \<Longrightarrow> si_bump io = fault_free \<Longrightarrow>
       \<exists>hs spec. r = CardReply hs spec \<and> map_of hs headerRestart = Some restartSignaled"
proof -
  obtain ap s1 where a: "ApplySpec (ce_value example_env) io (example_card ''--seed 1'') s = (Inr ap, s1)"
    "ap_EngineArgsChanged ap = (raw \<noteq> ''--seed 1'')" "cg_Spec (rt_Config s1) = example_card ''--seed 1''"
    "cg_Kind (rt_Config s1) = EngineVLLM" "cg_SpecPath (rt_Config s1) = Some p" "rt_Tracker s1 = rt_Tracker s"
    by (rule example_edit [OF assms(1-5)])
  have put: "handlePutModelSpec example_env io (Some edited) s = answer_put io ap s1"
    using example_parse example_short a(1) by (rule put_goes_through)
  obtain r s' where r: "answer_put io ap s1 = (r, s')" by fastforce
  have kept: "rt_Config s' = rt_Config s1 \<and> rt_Tracker s' = rt_Tracker s1"
    using r by (cases rule: answer_cases) auto
  have fail: "\<exists>tr e. Bump full_disk re n d fs = (Inl e, tr)" if "d \<noteq> []" for re n d fs
    using that by (simp add: Bump_def Let_def full_disk_def writeFileAtomic_def io_then_def os_mkdir_all_def check_def)
  have ok: "\<exists>tr gen. Bump fault_free re n d fs = (Inr gen, tr)" if "d \<noteq> []" for re n d fs
  proof -
    let ?n = "next_generation (bump_prev re d fs) n"
    obtain tr where "writeFileAtomic fault_free (d, RestartName) (?n @ [CHR 0x0A]) fs = (None, tr)"
      using hand.put_fault_free [of "(d, RestartName)" "?n @ [CHR 0x0A]" fs]
      by (cases "writeFileAtomic fault_free (d, RestartName) (?n @ [CHR 0x0A]) fs") simp
    then show ?thesis using that by (simp add: Bump_def Let_def)
  qed
  have k: "cg_Kind (rt_Config s1) \<noteq> no_engine" "tc_RunDir (rt_Tracker s1) \<noteq> []"
    using a(4,6) assms(6) by (simp_all add: no_engine_def)
  show thesis
  proof (rule that [OF put [unfolded r]])
    show "\<exists>hs spec. r = CardReply hs spec" if "raw = ''--seed 1''"
      using r a(2) that by (auto simp: answer_put_def)
    show "r = Problem 500 ''restart_failed''" if "raw \<noteq> ''--seed 1''" "si_bump io = full_disk"
      using r a(2) that k fail [OF k(2), of "si_read_err io" "si_nano io" "tr_fs (rt_Handoff s1)"]
      by (auto simp: answer_put_def Request_def)
    show "\<exists>hs spec. r = CardReply hs spec \<and> map_of hs headerRestart = Some restartSignaled"
      if "raw \<noteq> ''--seed 1''" "si_bump io = fault_free"
      using r a(2) that k ok [OF k(2), of "si_read_err io" "si_nano io" "tr_fs (rt_Handoff s1)"]
      by (auto simp: answer_put_def Request_def split: prod.splits)
  qed (use kept a in simp_all)
qed

lemma calm_simps [simp]:
  "si_card calm_io = fault_free" "si_args calm_io = fault_free" "si_bump calm_io = fault_free"
  by (simp_all add: calm_io_def)

lemma example_run:
  obtains s hs spec where "handlePutModelSpec example_env calm_io (Some edited) example_store = (CardReply hs spec, s)"
    "map_of hs headerRestart = Some restartSignaled"
    "store_reach example_env fmt (\<lambda>io. si_args io = fault_free) example_store s"
    "cg_Spec (rt_Config s) = example_card ''--seed 1''" "cg_Kind (rt_Config s) = EngineVLLM"
    "cg_SpecPath (rt_Config s) = Some (''/run'', ''model-spec.json'')" "tc_RunDir (rt_Tracker s) = ''/run''"
proof -
  have c: "cg_Kind (rt_Config example_store) = EngineVLLM" "cg_Spec (rt_Config example_store) = example_card []"
    "cg_SpecPath (rt_Config example_store) = Some (''/run'', ''model-spec.json'')" "tc_RunDir (rt_Tracker example_store) \<noteq> []"
    using example_cfg by (simp_all add: example_start)
  obtain r s where p: "handlePutModelSpec example_env calm_io (Some edited) example_store = (r, s)"
    "cg_Spec (rt_Config s) = example_card ''--seed 1''" "cg_Kind (rt_Config s) = EngineVLLM"
    "cg_SpecPath (rt_Config s) = Some (''/run'', ''model-spec.json'')" "rt_Tracker s = rt_Tracker example_store"
    "\<exists>hs spec. r = CardReply hs spec \<and> map_of hs headerRestart = Some restartSignaled"
    using example_put [OF c(1-3) calm_simps(1,2) c(4)] by (metis calm_simps(3) list.distinct(1))
  obtain hs spec where r: "r = CardReply hs spec" "map_of hs headerRestart = Some restartSignaled" using p(6) by blast
  show thesis
    by (rule that [OF p(1) [unfolded r(1)] r(2) store_reach.put [OF store_reach.start _ p(1)] p(2-4)])
      (simp_all add: p(5) example_start)
qed

theorem card_and_flags_agree_witness:
  "\<exists>s. agrees s \<and> cg_Spec (rt_Config s) \<noteq> cg_Spec (rt_Config example_store)"
proof -
  obtain s where s: "store_reach example_env (\<lambda>x. []) (\<lambda>io. si_args io = fault_free) example_store s"
    "cg_Spec (rt_Config s) = example_card ''--seed 1''" by (rule example_run)
  have "agrees s" by (rule card_and_flags_agree [OF s(1) example_start(1,2)])
  moreover have "cg_Spec (rt_Config s) \<noteq> cg_Spec (rt_Config example_store)"
    using s(2) example_cfg(2) by (simp add: example_start example_card_def zero_spec_def)
  ultimately show ?thesis by blast
qed

theorem served_name_is_fixed_witness:
  "\<exists>s. serves ''m'' s \<and> cg_Spec (rt_Config s) \<noteq> cg_Spec (rt_Config example_store)"
proof -
  obtain s where s: "store_reach example_env (\<lambda>x. []) (\<lambda>io. si_args io = fault_free) example_store s"
    "cg_Spec (rt_Config s) = example_card ''--seed 1''" by (rule example_run)
  have "serves ''m'' s" by (rule served_name_is_fixed [OF s(1) example_start(3)]) simp
  moreover have "cg_Spec (rt_Config s) \<noteq> cg_Spec (rt_Config example_store)"
    using s(2) example_cfg(2) by (simp add: example_start example_card_def zero_spec_def)
  ultimately show ?thesis by blast
qed

theorem signaled_means_on_disk_witness:
  "\<exists>hs spec s gen. handlePutModelSpec example_env calm_io (Some edited) example_store = (CardReply hs spec, s) \<and>
     disk s (''/run'', RestartName) = Some (gen @ [CHR 0x0A])"
proof -
  obtain s hs spec where s: "handlePutModelSpec example_env calm_io (Some edited) example_store = (CardReply hs spec, s)"
    "map_of hs headerRestart = Some restartSignaled" "tc_RunDir (rt_Tracker s) = ''/run''" by (rule example_run)
  show ?thesis using signaled_means_on_disk [OF s(1,2)] s(1,3) by auto
qed

theorem failed_restart_is_not_retried_witness:
  "\<exists>s' s'' hs spec. handlePutModelSpec example_env (calm_io\<lparr>si_bump := full_disk\<rparr>) (Some edited) example_store =
      (Problem 500 ''restart_failed'', s') \<and>
     handlePutModelSpec example_env calm_io (Some edited) s' = (CardReply hs spec, s'') \<and>
     map_of hs headerRestart = Some restartNotNeeded"
proof -
  have c: "cg_Kind (rt_Config example_store) = EngineVLLM" "cg_Spec (rt_Config example_store) = example_card []"
    "cg_SpecPath (rt_Config example_store) = Some (''/run'', ''model-spec.json'')" "tc_RunDir (rt_Tracker example_store) \<noteq> []"
    using example_cfg by (simp_all add: example_start)
  have i: "si_card (calm_io\<lparr>si_bump := full_disk\<rparr>) = fault_free" "si_args (calm_io\<lparr>si_bump := full_disk\<rparr>) = fault_free"
    "si_bump (calm_io\<lparr>si_bump := full_disk\<rparr>) = full_disk" by simp_all
  obtain s' where 1: "handlePutModelSpec example_env (calm_io\<lparr>si_bump := full_disk\<rparr>) (Some edited) example_store =
      (Problem 500 ''restart_failed'', s')"
    "cg_Spec (rt_Config s') = example_card ''--seed 1''" "cg_Kind (rt_Config s') = EngineVLLM"
    "cg_SpecPath (rt_Config s') = Some (''/run'', ''model-spec.json'')" "rt_Tracker s' = rt_Tracker example_store"
    using example_put [OF c(1-3) i(1,2) c(4)] by (metis i(3) list.distinct(1))
  obtain hs spec s'' where 2: "handlePutModelSpec example_env calm_io (Some edited) s' = (CardReply hs spec, s'')"
    using example_put [OF 1(3,2,4) calm_simps(1,2)] 1(5) c(4) by metis
  show ?thesis using failed_restart_is_not_retried [OF 1(1) 2 example_start(2)] 1(1) 2 by blast
qed

theorem refused_card_stays_on_disk_witness:
  "\<exists>s'. cg_Spec (rt_Config s') = example_card [] \<and> disk s' (''/run'', ''model-spec.json'') = Some edited \<and>
     disk s' (''/run'', EngineArgsName) = Some []"
proof -
  let ?io = "calm_io\<lparr>si_args := full_disk\<rparr>"
  have c: "cg_Kind (rt_Config example_store) = EngineVLLM" "cg_Spec (rt_Config example_store) = example_card []"
    "cg_SpecPath (rt_Config example_store) = Some (''/run'', ''model-spec.json'')" "si_card ?io = fault_free"
    using example_cfg by (simp_all add: example_start)
  obtain nxt tr where n: "nxt = (rt_Config example_store)\<lparr>cg_Args := cg_Args nxt, cg_Spec := example_card ''--seed 1''\<rparr>"
    "NormalizeSpecForEngine ((rt_Config example_store)\<lparr>cg_Spec := named (rt_Config example_store) (example_card ''--seed 1'')\<rparr>) =
       Inr (nxt, False, None)"
    "persist_card ?io nxt (disk example_store) = (None, tr)"
    "ApplySpec (\<lambda>l. 0) ?io (example_card ''--seed 1'') example_store = adopt (\<lambda>l. 0) ?io nxt example_store"
    by (rule example_apply [OF c])
  have k: "cg_Spec nxt = example_card ''--seed 1''" by (subst n(1)) simp
  have "\<exists>e tr'. WriteEngineArgs full_disk ''/run'' raw fs = (Some e, tr')" for raw fs
    by (simp add: WriteEngineArgs_def full_disk_def writeFileAtomic_def io_then_def os_mkdir_all_def check_def)
  then obtain e tr' where "WriteEngineArgs (si_args ?io) (tc_RunDir (rt_Tracker example_store)) (sp_EngineArgs (cg_Spec nxt))
      (last tr) = (Some e, tr')" by (fastforce simp: example_start)
  then have a: "ApplySpec (\<lambda>l. 0) ?io (example_card ''--seed 1'') example_store =
      (Inl (ErrPersist e), with_disk (last tr') example_store)"
    unfolding n(4) using n(3) by (simp add: adopt_def Let_def)
  let ?s = "with_disk (last tr') example_store"
  have "rt_Config ?s = rt_Config example_store \<and> disk ?s (''/run'', ''model-spec.json'') = Some (card_text (cg_Spec nxt)) \<and>
    disk ?s (tc_RunDir (rt_Tracker example_store), EngineArgsName) =
      disk example_store (tc_RunDir (rt_Tracker example_store), EngineArgsName)"
    using refused_card_stays_on_disk [OF a n(2) _ c(3) example_start(2)] n(3) by simp
  moreover have "disk example_store (''/run'', EngineArgsName) = Some []"
    by (simp add: disk_def example_store_def example_disk_def)
  ultimately show ?thesis using k example_cfg(2) by (intro exI [of _ ?s]) (simp add: example_start)
qed

lemma example_canonical_order: "canonical_spec example_env (in_key_order (example_card raw))"
proof -
  have "in_key_order (example_card raw) = example_card raw"
    by (simp add: in_key_order_def example_card_def zero_spec_def)
  then show ?thesis by (simp add: example_canonical)
qed

lemma settled_start: "settled (rt_Config example_store)"
  using example_cfg(1) by (simp add: example_start)

theorem restart_keeps_the_card_witness:
  "\<exists>s c' tr. ReconcileModelSpecFile example_env (\<lambda>k. []) \<lparr>bi_seed = full_disk, bi_norm = full_disk, bi_args = fault_free,
       bi_bump = full_disk, bi_read_err = (\<lambda>p. False), bi_stat_err = False, bi_reread_err = False, bi_nano = 0\<rparr>
       example_cfg (disk s) = (Inr c', tr) \<and>
       cg_Spec c' = in_key_order (example_card ''--seed 1'')"
proof -
  let ?bi = "\<lparr>bi_seed = full_disk, bi_norm = full_disk, bi_args = fault_free, bi_bump = full_disk,
    bi_read_err = (\<lambda>p. False), bi_stat_err = False, bi_reread_err = False, bi_nano = 0\<rparr>"
  obtain s where s: "store_reach example_env (\<lambda>x. []) (\<lambda>io. si_args io = fault_free) example_store s"
    "cg_Spec (rt_Config s) = example_card ''--seed 1''" "cg_Kind (rt_Config s) = EngineVLLM"
    "cg_SpecPath (rt_Config s) = Some (''/run'', ''model-spec.json'')" "tc_RunDir (rt_Tracker s) = ''/run''" by (rule example_run)
  have "reasoningEffortRuleFromEnv (\<lambda>k. []) = Inr None"
    by (simp add: reasoningEffortRuleFromEnv_def Normalize_def to_lower_def)
  moreover have "calm_boot ?bi" by (simp add: calm_boot_def)
  ultimately obtain c' tr where "ReconcileModelSpecFile example_env (\<lambda>k. []) ?bi example_cfg (disk s) = (Inr c', tr)"
      "cg_Spec c' = in_key_order (cg_Spec (rt_Config s))"
    using restart_keeps_the_card [OF s(1) example_start(1,2) settled_start, of "example_card ''--seed 1''"
        "(''/run'', ''model-spec.json'')" example_cfg "\<lambda>k. []" ?bi] example_canonical_order s(2-5) example_cfg example_valid by auto
  then show ?thesis using s(2) by auto
qed

definition example_capacity :: capacity where
  "example_capacity = \<lparr>cap_ContextSize = 8192, cap_MaxConcurrency = 4, cap_PoolTokens = 32768,
     cap_Source = SourceLlamacppProps, cap_ReportedAt = Some 5, cap_FromArgs = [], cap_Warnings = []\<rparr>"

lemma example_exact: "exact_capacity (ce_float example_env) c"
  by (simp add: exact_capacity_def example_env_def)

lemma example_new: "sameCapacity val (extension (example_card raw) ExtensionKey) x = False"
  by (simp add: extension_def example_card_def zero_spec_def sameCapacity_def)

lemma example_record:
  obtains s' where "RecordCapacity example_env (\<lambda>t. ''t'') calm_io c example_store = (Inr True, s')"
proof -
  let ?n = "example_cfg\<lparr>cg_Spec := (cg_Spec example_cfg)\<lparr>sp_Extensions :=
     obj_put ExtensionKey (capacityBlock (ce_float example_env) (\<lambda>t. ''t'') c) (sp_Extensions (cg_Spec example_cfg))\<rparr>\<rparr>"
  have "fst (persist_card calm_io ?n (disk example_store)) = None"
    using card.put_fault_free by (simp add: persist_card_def WriteModelSpecFile_def split: option.splits)
  then obtain tr where "persist_card calm_io ?n (disk example_store) = (None, tr)"
    by (cases "persist_card calm_io ?n (disk example_store)") auto
  then show thesis using that example_new example_cfg(2)
    by (simp add: RecordCapacity_def Let_def example_start)
qed

theorem recorded_capacity_is_read_witness:
  "\<exists>s. FromExtensions (\<lambda>t. Some (Some 5)) (sp_Extensions (cg_Spec (rt_Config s))) = Some example_capacity \<and>
     RecordCapacity example_env (\<lambda>t. ''t'') calm_io (example_capacity\<lparr>cap_ReportedAt := Some 9\<rparr>) s = (Inr False, s)"
proof -
  obtain s where s: "RecordCapacity example_env (\<lambda>t. ''t'') calm_io example_capacity example_store = (Inr True, s)"
    by (rule example_record)
  have "storable example_capacity"
    by (simp add: storable_def example_capacity_def in_int64_def SourceLlamacppProps_def)
  from recorded_capacity_is_read [where parse = "\<lambda>t. Some (Some 5)" and t = "Some 9" and io' = calm_io,
      OF s this example_exact] show ?thesis
    by (auto simp: example_capacity_def)
qed

theorem engine_cannot_claim_capacity_witness:
  "FromExtensions (\<lambda>t. None) (sp_Extensions (handleModelSpec \<lparr>er_authoritative = True, er_modelMatches = True,
     er_extensions = engineModelExtensions [(''capacity'', JNull), (''creative'', JBool True)]\<rparr> example_store)) = None"
  using engine_cannot_claim_capacity
    [of "\<lparr>er_authoritative = True, er_modelMatches = True,
       er_extensions = engineModelExtensions [(''capacity'', JNull), (''creative'', JBool True)]\<rparr>"
      "[(''capacity'', JNull), (''creative'', JBool True)]" "\<lambda>t. None" example_store]
  by (simp add: FromExtensions_def example_start example_cfg(2) example_card_def zero_spec_def)

theorem unwritten_reading_is_lost_witness:
  "\<exists>rs. reporting example_env (\<lambda>t. ''t'') wired
      [(calm_io\<lparr>si_card := full_disk\<rparr>, ex_tick), (calm_io, ex_tick), (calm_io, ex_tick)] (ex_asked 9, example_store) = Inr rs \<and>
     rt_Config (snd rs) = rt_Config example_store"
proof -
  let ?io = "calm_io\<lparr>si_card := full_disk\<rparr>"
  let ?n = "example_cfg\<lparr>cg_Spec := (cg_Spec example_cfg)\<lparr>sp_Extensions :=
     obj_put ExtensionKey (capacityBlock (ce_float example_env) (\<lambda>t. ''t'') ex_reading) (sp_Extensions (cg_Spec example_cfg))\<rparr>\<rparr>"
  have "persist_card ?io ?n (disk example_store) = (Some MkdirError, [disk example_store])"
    using example_cfg(4) by (simp add: persist_card_def WriteModelSpecFile_def card_put_def full_disk_def io_then_def
        os_mkdir_all_def check_def)
  then obtain e s' where r: "RecordCapacity example_env (\<lambda>t. ''t'') ?io ex_reading example_store = (Inl e, s')"
    using example_new example_cfg(2) by (simp add: RecordCapacity_def Let_def example_start)
  have u: "undisturbed wired (rep_relaunch ex_settled) (tk_target ex_tick) ex_tick"
    by (simp add: undisturbed_def same_flags_def ex_tick_def)
  have run: "reporting example_env (\<lambda>t. ''t'') wired [(?io, ex_tick), (calm_io, ex_tick), (calm_io, ex_tick)]
      (ex_asked 9, example_store) = Inr (ex_settled, s')"
    by (simp add: reporting_tick_def ex_steps(2,3) r)
  have "rt_Config (snd (ex_settled, s')) = rt_Config example_store"
    by (rule unwritten_reading_is_lost [OF ex_steps(2) r _ _ run]) (simp_all add: ex_asked_def u)
  then show ?thesis using run by blast
qed

theorem edited_card_forgets_capacity_witness:
  "\<exists>hs spec s' rs. handlePutModelSpec example_env calm_io (Some edited) example_store = (CardReply hs spec, s') \<and>
     reporting example_env (\<lambda>t. ''t'') wired [(calm_io, ex_tick), (calm_io, ex_tick)] (ex_settled, s') = Inr rs \<and>
     FromExtensions (\<lambda>t. None) (sp_Extensions (cg_Spec (rt_Config (snd rs)))) = None"
proof -
  obtain s' hs spec where s: "handlePutModelSpec example_env calm_io (Some edited) example_store = (CardReply hs spec, s')"
    by (rule example_run)
  have u: "undisturbed wired (rep_relaunch ex_settled) ex_target ex_tick"
    by (simp add: undisturbed_def same_flags_def ex_tick_def)
  have run: "reporting example_env (\<lambda>t. ''t'') wired [(calm_io, ex_tick), (calm_io, ex_tick)] (ex_settled, s') =
      Inr (ex_settled, s')" by (simp add: reporting_tick_def ex_steps(3))
  have "FromExtensions (\<lambda>t. None) (sp_Extensions (cg_Spec (rt_Config (snd (ex_settled, s'))))) = None"
  proof (rule edited_card_forgets_capacity [OF s example_parse])
    show "map_of (sp_Extensions (example_card ''--seed 1'')) ExtensionKey = None"
      by (simp add: example_card_def zero_spec_def)
    show "asked_out ex_target ex_settled"
      by (simp add: asked_out_def is_done_def ex_settled_def ex_asked_def retryLimit_def ex_target_def)
    show "list_all (\<lambda>(io, t). undisturbed wired (rep_relaunch ex_settled) ex_target t) [(calm_io, ex_tick), (calm_io, ex_tick)]"
      by (simp add: u)
    show "reporting example_env (\<lambda>t. ''t'') wired [(calm_io, ex_tick), (calm_io, ex_tick)] (ex_settled, s') =
      Inr (ex_settled, s')" by (rule run)
  qed (simp_all add: ex_settled_def ex_asked_def wired_def)
  then show ?thesis using s run by blast
qed

end
