(* ===== verification/KvBudget.thy ===== *)
theory KvBudget
  imports KvDerive Json
begin

text \<open>
  The gate in front of a shared llama.cpp KV pool: package \<open>internal/dataplane/kvbudget\<close>
  (\<open>kvbudget.go\<close>, \<open>cost.go\<close>, \<open>tokenize.go\<close>) and \<open>internal/dataplane/kvbudgetfor.go\<close>.

  A request handler runs concurrently with the others. The shared state is the guard's pointer to
  its semaphore and the semaphores themselves; \<open>kv_step\<close> interleaves the handlers at the points
  where they touch it: \<open>semaphore()\<close>, \<open>TryAcquire\<close>, the grant or timeout of \<open>Acquire\<close>, and the
  deferred release. Semaphores live in a list whose index is their address, because the guard may
  drop one while requests still hold room on it.

  \<open>golang.org/x/sync/semaphore\<close> is not part of the repository: its operations are a parameter
  (\<open>sem_ops\<close>), with its documentation as the hypothesis \<open>weighted_semaphore\<close>. What the engine
  answers over HTTP is a parameter of the tokenizer.
\<close>

section \<open>Requests and their cost (cost.go)\<close>

definition maxBodyBytes :: nat where
  "maxBodyBytes = 8388608"

definition defaultOutputReserve :: int where
  "defaultOutputReserve = 2048"

text \<open>A body delivers bytes and then ends, with an error when the flag is set.\<close>

record http_request =
  rq_Path :: string
  rq_Body :: "(string \<times> bool) option"
  rq_ContentLength :: int

datatype read_error = ReadError

definition bodyOf :: "http_request \<Rightarrow> (read_error + string) \<times> http_request" where
  "bodyOf r =
     (case rq_Body r of
        None \<Rightarrow> (Inr [], r)
      | Some (bytes, broken) \<Rightarrow>
          let raw = take (maxBodyBytes + 1) bytes
          in if broken \<and> length bytes < maxBodyBytes + 1
             then (Inl ReadError, r\<lparr>rq_Body := Some (raw, False)\<rparr>)
             else (Inr raw, r\<lparr>rq_Body := Some (raw, False), rq_ContentLength := int (length raw)\<rparr>))"

text \<open>A \<open>json.RawMessage\<close> field is nonempty exactly when the body has the key.\<close>

record request_shape =
  sh_Prompt :: "json option"
  sh_Messages :: "json option"
  sh_MaxTokens :: "int option"
  sh_MaxCompletionTokens :: "int option"

definition zero_shape :: request_shape where
  "zero_shape = \<lparr>sh_Prompt = None, sh_Messages = None, sh_MaxTokens = None,
     sh_MaxCompletionTokens = None\<rparr>"

definition store_shape :: "request_shape \<Rightarrow> string \<times> json \<Rightarrow> request_shape" where
  "store_shape s kv =
     (case kv of (k, v) \<Rightarrow>
        if field_is ''prompt'' k then s\<lparr>sh_Prompt := Some v\<rparr>
        else if field_is ''messages'' k then s\<lparr>sh_Messages := Some v\<rparr>
        else if field_is ''max_tokens'' k
          then s\<lparr>sh_MaxTokens := store_int_ptr (sh_MaxTokens s) v\<rparr>
        else if field_is ''max_completion_tokens'' k
          then s\<lparr>sh_MaxCompletionTokens := store_int_ptr (sh_MaxCompletionTokens s) v\<rparr>
        else s)"

text \<open>\<open>json.Unmarshal\<close> into a fresh shape, its error ignored as \<open>admit\<close> does.\<close>

definition unmarshal_shape :: "string \<Rightarrow> request_shape" where
  "unmarshal_shape body =
     (case json_parse body of
        Some (JObj fs) \<Rightarrow> foldl store_shape zero_shape fs
      | _ \<Rightarrow> zero_shape)"

definition generates :: "request_shape \<Rightarrow> bool" where
  "generates s \<longleftrightarrow> sh_Messages s \<noteq> None \<or> sh_Prompt s \<noteq> None"

definition stated_output :: "request_shape \<Rightarrow> int" where
  "stated_output shape =
     (let stated = (case sh_MaxCompletionTokens shape of Some n \<Rightarrow> if n > 0 then n else 0 | None \<Rightarrow> 0)
      in case sh_MaxTokens shape of Some n \<Rightarrow> if n > 0 then n else stated | None \<Rightarrow> stated)"

definition outputReserve :: "request_shape \<Rightarrow> int \<Rightarrow> int" where
  "outputReserve shape cardMax =
     (let stated = stated_output shape
      in if stated \<le> 0 then
           (if cardMax > 0 \<and> cardMax < defaultOutputReserve then cardMax else defaultOutputReserve)
         else if cardMax > 0 \<and> stated > cardMax then cardMax
         else stated)"

definition promptUpperBound :: "string \<Rightarrow> int" where
  "promptUpperBound body = int (length body)"

section \<open>Counting a prompt (tokenize.go)\<close>

definition tokenizeBodyLimit :: nat where
  "tokenizeBodyLimit = 16777216"

text \<open>\<open>tk_Do\<close> is the engine: the URL and the JSON body to the status and the bytes it answers,
  \<open>None\<close> when the call fails or times out.\<close>

record tokenizer =
  tk_BaseURL :: string
  tk_Do :: "string \<Rightarrow> json \<Rightarrow> (int \<times> string) option"

datatype count_error = NoEngineURL | TransportError | BadStatus int | BadReply | NotAnArray

definition trim_right_slash :: "string \<Rightarrow> string" where
  "trim_right_slash s = rev (dropWhile (\<lambda>c. c = CHR ''/'') (rev s))"

definition post :: "tokenizer \<Rightarrow> string \<Rightarrow> json \<Rightarrow> count_error + json" where
  "post t path body =
     (if tk_BaseURL t = [] then Inl NoEngineURL
      else case tk_Do t (trim_right_slash (tk_BaseURL t) @ path) body of
             None \<Rightarrow> Inl TransportError
           | Some (status, reply) \<Rightarrow>
               if status \<noteq> 200 then Inl (BadStatus status)
               else case json_parse (take tokenizeBodyLimit reply) of
                      None \<Rightarrow> Inl BadReply
                    | Some v \<Rightarrow> Inr v)"

text \<open>The reply's one field: a string for the template, raw JSON for the token list.\<close>

fun prompt_field :: "string \<Rightarrow> (string \<times> json) list \<Rightarrow> count_error + string" where
  "prompt_field cur [] = Inr cur"
| "prompt_field cur ((k, v) # fs) =
     (if field_is ''prompt'' k
      then (case v of
              JStr s \<Rightarrow> prompt_field s fs
            | JNull \<Rightarrow> prompt_field cur fs
            | _ \<Rightarrow> Inl BadReply)
      else prompt_field cur fs)"

definition applyTemplate :: "tokenizer \<Rightarrow> json \<Rightarrow> count_error + string" where
  "applyTemplate t messages =
     (case post t ''/apply-template'' (JObj [(''messages'', messages)]) of
        Inl e \<Rightarrow> Inl e
      | Inr JNull \<Rightarrow> Inr []
      | Inr (JObj fs) \<Rightarrow> prompt_field [] fs
      | Inr _ \<Rightarrow> Inl BadReply)"

definition contentOf :: "tokenizer \<Rightarrow> request_shape \<Rightarrow> count_error + string" where
  "contentOf t shape =
     (case sh_Messages shape of
        Some msgs \<Rightarrow> applyTemplate t msgs
      | None \<Rightarrow>
          (case sh_Prompt shape of
             Some (JStr s) \<Rightarrow> Inr s
           | _ \<Rightarrow> Inr []))"

definition countArray :: "json option \<Rightarrow> count_error + int" where
  "countArray raw =
     (case raw of
        None \<Rightarrow> Inr 0
      | Some (JArr xs) \<Rightarrow> Inr (int (length xs))
      | Some _ \<Rightarrow> Inl NotAnArray)"

fun tokens_field :: "json option \<Rightarrow> (string \<times> json) list \<Rightarrow> json option" where
  "tokens_field cur [] = cur"
| "tokens_field cur ((k, v) # fs) = tokens_field (if field_is ''tokens'' k then Some v else cur) fs"

definition tokenize :: "tokenizer \<Rightarrow> string \<Rightarrow> count_error + int" where
  "tokenize t content =
     (case post t ''/tokenize'' (JObj [(''content'', JStr content)]) of
        Inl e \<Rightarrow> Inl e
      | Inr JNull \<Rightarrow> countArray None
      | Inr (JObj fs) \<Rightarrow> countArray (tokens_field None fs)
      | Inr _ \<Rightarrow> Inl BadReply)"

definition CountPrompt :: "tokenizer \<Rightarrow> request_shape \<Rightarrow> count_error + int" where
  "CountPrompt t shape =
     (case contentOf t shape of
        Inl e \<Rightarrow> Inl e
      | Inr content \<Rightarrow> if content = [] then Inr 0 else tokenize t content)"

section \<open>The guard (kvbudget.go)\<close>

text \<open>What the option functions answer at the moment they are called; \<open>None\<close> on the outside is a
  nil function, inside \<open>ge_Capacity\<close> a false second result.\<close>

record gate_env =
  ge_Active :: "bool option"
  ge_Capacity :: "int option option"
  ge_Tokenizer :: "tokenizer option"
  ge_MaxOutputTokens :: "int option"

text \<open>\<open>so_try\<close> is \<open>TryAcquire\<close>, \<open>None\<close> when it answers false; \<open>so_acquire\<close> is the moment a call blocked in
  \<open>Acquire\<close> is given its room, \<open>None\<close> as long as it has to wait; \<open>so_release\<close> is \<open>None\<close> when it panics.\<close>

record 's sem_ops =
  so_new :: "int \<Rightarrow> 's"
  so_try :: "'s \<Rightarrow> int \<Rightarrow> 's option"
  so_acquire :: "'s \<Rightarrow> int \<Rightarrow> 's option"
  so_release :: "'s \<Rightarrow> int \<Rightarrow> 's option"

text \<open>The guard's mutable fields and the heap of semaphores.\<close>

record 's gate =
  gt_sem :: "nat option"
  gt_capacity :: int
  gt_heap :: "'s list"

definition guard_semaphore ::
  "'s sem_ops \<Rightarrow> gate_env \<Rightarrow> 's gate \<Rightarrow> 's gate \<times> (nat \<times> int) option" where
  "guard_semaphore ops env g =
     (case ge_Capacity env of
        None \<Rightarrow> (g, None)
      | Some None \<Rightarrow> (g, None)
      | Some (Some capacity) \<Rightarrow>
          if capacity \<le> 0 then (g, None)
          else if gt_sem g = None \<or> gt_capacity g \<noteq> capacity
          then (let a = length (gt_heap g)
                in (g\<lparr>gt_sem := Some a, gt_capacity := capacity,
                      gt_heap := gt_heap g @ [so_new ops capacity]\<rparr>, Some (a, capacity)))
          else (g, map_option (\<lambda>a. (a, capacity)) (gt_sem g)))"

definition guard_count :: "gate_env \<Rightarrow> request_shape \<Rightarrow> int option" where
  "guard_count env shape =
     (case ge_Tokenizer env of
        None \<Rightarrow> None
      | Some t \<Rightarrow>
          (case CountPrompt t shape of
             Inl _ \<Rightarrow> None
           | Inr n \<Rightarrow> if n > 0 then Some n else None))"

definition fastPathDivisor :: int where
  "fastPathDivisor = 8"

text \<open>Where a handler is. \<open>Serving\<close> carries its reservation, \<open>None\<close> when it is unmetered.\<close>

datatype phase =
    Arrived http_request
  | Entered http_request nat int
  | Queued http_request nat int
  | Serving http_request "(nat \<times> int) option"
  | Refused
  | Finished

text \<open>\<open>admit\<close> up to and including \<open>g.semaphore()\<close>.\<close>

definition admit_enter :: "'s sem_ops \<Rightarrow> gate_env \<Rightarrow> 's gate \<Rightarrow> http_request \<Rightarrow> 's gate \<times> phase" where
  "admit_enter ops env g r =
     (if ge_Active env = Some False then (g, Serving r None)
      else case guard_semaphore ops env g of
             (g', None) \<Rightarrow> (g', Serving r None)
           | (g', Some (a, capacity)) \<Rightarrow> (g', Entered r a capacity))"

definition max_output :: "gate_env \<Rightarrow> int" where
  "max_output env = (case ge_MaxOutputTokens env of None \<Rightarrow> 0 | Some n \<Rightarrow> n)"

text \<open>The rest of \<open>admit\<close>, up to the blocking \<open>Acquire\<close>.\<close>

definition admit_size ::
  "'s sem_ops \<Rightarrow> gate_env \<Rightarrow> 's list \<Rightarrow> http_request \<Rightarrow> nat \<Rightarrow> int \<Rightarrow> 's list \<times> phase" where
  "admit_size ops env heap r0 a capacity =
     (case bodyOf r0 of
        (Inl _, r) \<Rightarrow> (heap, Serving r None)
      | (Inr body, r) \<Rightarrow>
          let shape = unmarshal_shape body
          in if \<not> generates shape then (heap, Serving r None)
             else let output = outputReserve shape (max_output env);
                      bound = wrap64 (promptUpperBound body + output)
             in if bound \<le> 0 then (heap, Serving r None)
                else case (if bound \<le> go_quot capacity fastPathDivisor
                           then so_try ops (heap ! a) bound else None) of
                       Some s \<Rightarrow> (heap[a := s], Serving r (Some (a, bound)))
                     | None \<Rightarrow>
                         let cost = (case guard_count env shape of
                                       Some measured \<Rightarrow> wrap64 (measured + output)
                                     | None \<Rightarrow> bound)
                         in if cost > capacity then (heap, Serving r None)
                            else (heap, Queued r a cost))"

definition Second :: int where
  "Second = 1000000000"

definition defaultWait :: int where
  "defaultWait = 10 * Second"

definition guard_wait :: "int \<Rightarrow> int" where
  "guard_wait optsWait = (if optsWait > 0 then optsWait else defaultWait)"

definition retryAfterSeconds :: "int \<Rightarrow> int" where
  "retryAfterSeconds w =
     (let secs = go_quot (wrap64 (wrap64 (w + Second) - 1)) Second
      in if secs < 1 then 1 else secs)"

definition CodeExhausted :: string where
  "CodeExhausted = ''kv_budget_exhausted''"

text \<open>Status, \<open>Retry-After\<close> and error code of the refusal.\<close>

definition writeExhausted :: "int \<Rightarrow> int \<times> int \<times> string" where
  "writeExhausted w = (503, retryAfterSeconds w, CodeExhausted)"

section \<open>The handlers together\<close>

record 's kv_system =
  kv_gate :: "'s gate"
  kv_reqs :: "phase list"

definition initial_gate :: "'s gate" where
  "initial_gate = \<lparr>gt_sem = None, gt_capacity = 0, gt_heap = []\<rparr>"

definition initial_system :: "'s kv_system" where
  "initial_system = \<lparr>kv_gate = initial_gate, kv_reqs = []\<rparr>"

inductive kv_step :: "'s sem_ops \<Rightarrow> (gate_env \<Rightarrow> bool) \<Rightarrow> 's kv_system \<Rightarrow> 's kv_system \<Rightarrow> bool"
  for ops :: "'s sem_ops" and envs :: "gate_env \<Rightarrow> bool" where
  arrive: "kv_step ops envs s (s\<lparr>kv_reqs := kv_reqs s @ [Arrived r]\<rparr>)"
| enter: "i < length (kv_reqs s) \<Longrightarrow> kv_reqs s ! i = Arrived r \<Longrightarrow> envs env \<Longrightarrow>
    admit_enter ops env (kv_gate s) r = (g, p) \<Longrightarrow>
    kv_step ops envs s (s\<lparr>kv_gate := g, kv_reqs := (kv_reqs s)[i := p]\<rparr>)"
| size_up: "i < length (kv_reqs s) \<Longrightarrow> kv_reqs s ! i = Entered r a cap \<Longrightarrow> envs env \<Longrightarrow>
    admit_size ops env (gt_heap (kv_gate s)) r a cap = (h, p) \<Longrightarrow>
    kv_step ops envs s (s\<lparr>kv_gate := (kv_gate s)\<lparr>gt_heap := h\<rparr>, kv_reqs := (kv_reqs s)[i := p]\<rparr>)"
| grant: "i < length (kv_reqs s) \<Longrightarrow> kv_reqs s ! i = Queued r a n \<Longrightarrow>
    so_acquire ops (gt_heap (kv_gate s) ! a) n = Some m \<Longrightarrow>
    kv_step ops envs s (s\<lparr>kv_gate := (kv_gate s)\<lparr>gt_heap := (gt_heap (kv_gate s))[a := m]\<rparr>,
      kv_reqs := (kv_reqs s)[i := Serving r (Some (a, n))]\<rparr>)"
| timeout: "i < length (kv_reqs s) \<Longrightarrow> kv_reqs s ! i = Queued r a n \<Longrightarrow>
    kv_step ops envs s (s\<lparr>kv_reqs := (kv_reqs s)[i := Refused]\<rparr>)"
| finish_unmetered: "i < length (kv_reqs s) \<Longrightarrow> kv_reqs s ! i = Serving r None \<Longrightarrow>
    kv_step ops envs s (s\<lparr>kv_reqs := (kv_reqs s)[i := Finished]\<rparr>)"
| finish: "i < length (kv_reqs s) \<Longrightarrow> kv_reqs s ! i = Serving r (Some (a, n)) \<Longrightarrow>
    so_release ops (gt_heap (kv_gate s) ! a) n = Some m \<Longrightarrow>
    kv_step ops envs s (s\<lparr>kv_gate := (kv_gate s)\<lparr>gt_heap := (gt_heap (kv_gate s))[a := m]\<rparr>,
      kv_reqs := (kv_reqs s)[i := Finished]\<rparr>)"

inductive kv_reachable :: "'s sem_ops \<Rightarrow> (gate_env \<Rightarrow> bool) \<Rightarrow> 's kv_system \<Rightarrow> bool"
  for ops :: "'s sem_ops" and envs :: "gate_env \<Rightarrow> bool" where
  init: "kv_reachable ops envs initial_system"
| step: "kv_reachable ops envs s \<Longrightarrow> kv_step ops envs s s' \<Longrightarrow> kv_reachable ops envs s'"

section \<open>Which deployments have a gate (kvbudgetfor.go)\<close>

record kv_snapshot =
  ks_Kind :: engine_kind
  ks_URL :: string
  ks_Args :: engine_args
  ks_MaxOutputToks :: int

definition kvBudgetWanted :: "engine_args \<Rightarrow> bool" where
  "kvBudgetWanted args = LlamacppKVOversubscribed args"

text \<open>\<open>None\<close> is a nil guard. The options read the later snapshot and pool size they are asked
  with.\<close>

definition KVBudgetFor ::
  "kv_snapshot option \<Rightarrow> (string \<Rightarrow> json \<Rightarrow> (int \<times> string) option) \<Rightarrow> bool \<Rightarrow>
   (kv_snapshot \<Rightarrow> int option \<Rightarrow> gate_env) option" where
  "KVBudgetFor boot http hasPool =
     (case boot of
        None \<Rightarrow> None
      | Some b \<Rightarrow>
          if \<not> hasPool then None
          else if ks_Kind b \<noteq> EngineLlamaCpp then None
          else Some (\<lambda>snap pool.
            \<lparr>ge_Active = Some (kvBudgetWanted (ks_Args snap)), ge_Capacity = Some pool,
             ge_Tokenizer = Some \<lparr>tk_BaseURL = ks_URL b, tk_Do = http\<rparr>,
             ge_MaxOutputTokens = Some (ks_MaxOutputToks snap)\<rparr>))"

section \<open>What a reservation can be\<close>

lemma outputReserve_pos: "0 < outputReserve shape m"
  by (auto simp: outputReserve_def defaultOutputReserve_def Let_def)

lemma outputReserve_le_card: "0 < m \<Longrightarrow> outputReserve shape m \<le> m"
  by (auto simp: outputReserve_def defaultOutputReserve_def Let_def)

text \<open>The card states a completion ceiling of a sane size.\<close>

definition card_states_ceiling :: "gate_env \<Rightarrow> bool" where
  "card_states_ceiling env \<longleftrightarrow> 0 < max_output env \<and> max_output env \<le> 2 ^ 62"

lemma post_small: "post t path body = Inr v \<Longrightarrow> json_elems v \<le> tokenizeBodyLimit"
  by (auto simp: post_def split: if_splits option.splits dest!: json_parse_elems)

lemma tokens_field_elems:
  "tokens_field cur fs = Some v \<Longrightarrow>
     cur = Some v \<or> json_elems v \<le> json_elems (JObj fs)"
  by (induction cur fs rule: tokens_field.induct) (auto split: if_splits)

lemma countArray_elems:
  "countArray (Some v) = Inr n \<Longrightarrow> 0 \<le> n \<and> n \<le> int (json_elems v)"
  by (auto simp: countArray_def split: json.splits)

lemma countArray_None [simp]: "countArray None = Inr 0"
  by (simp add: countArray_def)

lemma tokenize_bound:
  assumes "tokenize t content = Inr n"
  shows "0 \<le> n \<and> n \<le> int tokenizeBodyLimit"
proof (cases "post t ''/tokenize'' (JObj [(''content'', JStr content)])")
  case (Inl e)
  then show ?thesis using assms by (simp add: tokenize_def)
next
  case (Inr v)
  note small = post_small [OF Inr]
  show ?thesis
  proof (cases "\<exists>fs. v = JObj fs")
    case True
    then obtain fs where v: "v = JObj fs" by blast
    then have n: "countArray (tokens_field None fs) = Inr n"
      using assms Inr by (simp add: tokenize_def)
    show ?thesis
    proof (cases "tokens_field None fs")
      case None
      then show ?thesis using n by (simp add: tokenizeBodyLimit_def)
    next
      case (Some w)
      then have "json_elems w \<le> json_elems v" using tokens_field_elems [of None fs w] v by simp
      then show ?thesis using n Some small countArray_elems [of w n] by simp
    qed
  next
    case False
    then show ?thesis using assms Inr
      by (auto simp: tokenize_def tokenizeBodyLimit_def split: json.splits)
  qed
qed

lemma guard_count_bound: "guard_count env shape = Some n \<Longrightarrow> 0 < n \<and> n \<le> int tokenizeBodyLimit"
  by (auto simp: guard_count_def CountPrompt_def split: option.splits sum.splits if_splits
      dest: tokenize_bound)

lemma bodyOf_length: "bodyOf r = (Inr body, r') \<Longrightarrow> length body \<le> maxBodyBytes + 1"
  by (auto simp: bodyOf_def Let_def maxBodyBytes_def split: option.splits if_splits prod.splits)

lemma no_wrap_sum: "0 \<le> a \<Longrightarrow> a \<le> 2 ^ 32 \<Longrightarrow> 0 < b \<Longrightarrow> b \<le> 2 ^ 62 \<Longrightarrow> wrap64 (a + b) = a + (b :: int)"
  by (rule wrap64_id) (simp add: in_int64_def)

lemma reserve_ceiling:
  "card_states_ceiling env \<Longrightarrow>
     0 < outputReserve shape (max_output env) \<and> outputReserve shape (max_output env) \<le> 2 ^ 62"
  using outputReserve_le_card [of "max_output env" shape] outputReserve_pos
  by (auto simp: card_states_ceiling_def)

lemma body_bound_no_wrap:
  assumes "card_states_ceiling env" "bodyOf r = (Inr body, r')"
  shows "wrap64 (promptUpperBound body + outputReserve shape (max_output env)) =
    promptUpperBound body + outputReserve shape (max_output env)"
  using bodyOf_length [OF assms(2)] reserve_ceiling [OF assms(1), of shape]
  by (intro no_wrap_sum) (simp_all add: promptUpperBound_def maxBodyBytes_def)

lemma measured_no_wrap:
  assumes "card_states_ceiling env" "guard_count env shape = Some n"
  shows "wrap64 (n + outputReserve shape (max_output env)) = n + outputReserve shape (max_output env)"
  using guard_count_bound [OF assms(2)] reserve_ceiling [OF assms(1), of shape]
  by (intro no_wrap_sum) (simp_all add: tokenizeBodyLimit_def)

text \<open>The outcomes of \<open>admit\<close> after its semaphore is known.\<close>

definition size_charge :: "gate_env \<Rightarrow> request_shape \<Rightarrow> int \<Rightarrow> int" where
  "size_charge env shape bound =
     (case guard_count env shape of
        Some measured \<Rightarrow> wrap64 (measured + outputReserve shape (max_output env))
      | None \<Rightarrow> bound)"

lemma admit_size_unfold:
  "admit_size ops env h r0 a cap =
     (case bodyOf r0 of
        (Inl _, r) \<Rightarrow> (h, Serving r None)
      | (Inr body, r) \<Rightarrow>
          let shape = unmarshal_shape body;
              bound = wrap64 (promptUpperBound body + outputReserve shape (max_output env));
              cost = size_charge env shape bound
          in if \<not> generates shape \<or> bound \<le> 0 then (h, Serving r None)
             else if bound \<le> go_quot cap fastPathDivisor \<and> so_try ops (h ! a) bound \<noteq> None
             then (h[a := the (so_try ops (h ! a) bound)], Serving r (Some (a, bound)))
             else if cost > cap then (h, Serving r None) else (h, Queued r a cost))"
  by (simp add: admit_size_def size_charge_def Let_def split: prod.split sum.split option.split)

lemma size_charge_pos:
  assumes "card_states_ceiling env" "0 < bound"
  shows "0 < size_charge env shape bound"
  using measured_no_wrap [OF assms(1), of shape] guard_count_bound [of env shape] assms(2)
    outputReserve_pos [of shape "max_output env"]
  by (fastforce simp: size_charge_def split: option.split)

lemma admit_size_cases:
  assumes "admit_size ops env h r0 a cap = (h', p)" "card_states_ceiling env"
  obtains (unmetered) r where "p = Serving r None" "h' = h"
    | (fast) r n s where "p = Serving r (Some (a, n))" "0 < n" "n \<le> go_quot cap fastPathDivisor"
        "so_try ops (h ! a) n = Some s" "h' = h[a := s]"
    | (queued) r n where "p = Queued r a n" "0 < n" "n \<le> cap" "h' = h"
proof -
  obtain e r where b: "bodyOf r0 = (e, r)" by fastforce
  show thesis
  proof (cases e)
    case (Inl _)
    then show thesis using assms b unmetered by (auto simp: admit_size_def)
  next
    case (Inr body)
    define bound where "bound = wrap64 (promptUpperBound body +
      outputReserve (unmarshal_shape body) (max_output env))"
    let ?cost = "size_charge env (unmarshal_shape body) bound"
    let ?fast = "bound \<le> go_quot cap fastPathDivisor \<and> so_try ops (h ! a) bound \<noteq> None"
    have eq: "(h', p) =
      (if \<not> generates (unmarshal_shape body) \<or> bound \<le> 0 then (h, Serving r None)
       else if ?fast
       then (h[a := the (so_try ops (h ! a) bound)], Serving r (Some (a, bound)))
       else if ?cost > cap then (h, Serving r None) else (h, Queued r a ?cost))"
      using assms(1) b Inr unfolding admit_size_unfold Let_def bound_def by simp
    consider "(h', p) = (h, Serving r None)"
      | "0 < bound" ?fast "(h', p) = (h[a := the (so_try ops (h ! a) bound)], Serving r (Some (a, bound)))"
      | "0 < bound" "?cost \<le> cap" "(h', p) = (h, Queued r a ?cost)"
      using eq by (meson not_le)
    then show thesis
    proof cases
      case 1
      then show thesis using unmetered by simp
    next
      case 2
      then show thesis using fast by auto
    next
      case 3
      then show thesis using queued size_charge_pos [OF assms(2)] by simp
    qed
  qed
qed

section \<open>The accounting invariant\<close>

text \<open>The documented behaviour of a weighted semaphore: \<open>held\<close> is what is acquired and not yet
  released. Room is only given where there is room. The converse holds for neither kind of
  acquisition: \<open>TryAcquire\<close> also refuses while others wait, and a blocked \<open>Acquire\<close> waits for those in
  front of it; all that is sure is that a call waiting at a semaphore of which nothing is held can be
  served. Releasing more than is held panics.\<close>

definition gives_room :: "('s \<Rightarrow> int) \<Rightarrow> ('s \<Rightarrow> int) \<Rightarrow> ('s \<Rightarrow> int \<Rightarrow> 's option) \<Rightarrow> bool" where
  "gives_room held sz acquire \<longleftrightarrow>
     (\<forall>s n s'. acquire s n = Some s' \<longrightarrow> held s' = held s + n \<and> sz s' = sz s \<and> held s' \<le> sz s')"

definition weighted_semaphore :: "'s sem_ops \<Rightarrow> ('s \<Rightarrow> int) \<Rightarrow> ('s \<Rightarrow> int) \<Rightarrow> bool" where
  "weighted_semaphore ops held sz \<longleftrightarrow>
     (\<forall>n. held (so_new ops n) = 0 \<and> sz (so_new ops n) = n) \<and>
     gives_room held sz (so_try ops) \<and> gives_room held sz (so_acquire ops) \<and>
     (\<forall>s n. held s = 0 \<longrightarrow> n \<le> sz s \<longrightarrow> so_acquire ops s n \<noteq> None) \<and>
     (\<forall>s n. so_release ops s n = None \<longleftrightarrow> held s < n) \<and>
     (\<forall>s n s'. so_release ops s n = Some s' \<longrightarrow> held s' = held s - n \<and> sz s' = sz s)"

lemma weighted_semaphoreD:
  assumes "weighted_semaphore ops held sz"
  shows "held (so_new ops n) = 0" "sz (so_new ops n) = n"
    "held s = 0 \<Longrightarrow> n \<le> sz s \<Longrightarrow> so_acquire ops s n \<noteq> None"
    "so_acquire ops s n = Some s' \<Longrightarrow> held s' = held s + n \<and> sz s' = sz s \<and> held s' \<le> sz s'"
    "so_release ops s n = None \<longleftrightarrow> held s < n"
    "so_release ops s n = Some s' \<Longrightarrow> held s' = held s - n \<and> sz s' = sz s"
    "so_try ops s n = Some s' \<Longrightarrow> held s' = held s + n \<and> sz s' = sz s \<and> held s' \<le> sz s'"
  using assms unfolding weighted_semaphore_def gives_room_def by blast+

fun reserved_by :: "nat \<Rightarrow> phase \<Rightarrow> int" where
  "reserved_by a (Serving r (Some (b, n))) = (if b = a then n else 0)"
| "reserved_by a (Serving r None) = 0"
| "reserved_by a (Arrived r) = 0" | "reserved_by a (Entered r b c) = 0"
| "reserved_by a (Queued r b n) = 0" | "reserved_by a Refused = 0" | "reserved_by a Finished = 0"

definition reserved :: "phase list \<Rightarrow> nat \<Rightarrow> int" where
  "reserved ps a = sum_list (map (reserved_by a) ps)"

lemma sum_list_upd_int:
  "i < length xs \<Longrightarrow> sum_list (map f (xs[i := p])) = sum_list (map f xs) + f p - (f (xs ! i) :: int)"
  by (induction xs arbitrary: i) (auto split: nat.splits)

lemma reserved_update:
  "i < length ps \<Longrightarrow> reserved (ps[i := p]) a = reserved ps a + reserved_by a p - reserved_by a (ps ! i)"
  by (simp add: reserved_def sum_list_upd_int)

lemma reserved_snoc [simp]: "reserved (ps @ [p]) a = reserved ps a + reserved_by a p"
  by (simp add: reserved_def)

fun phase_ok :: "('s \<Rightarrow> int) \<Rightarrow> 's list \<Rightarrow> phase \<Rightarrow> bool" where
  "phase_ok sz h (Entered r a cap) = (a < length h \<and> sz (h ! a) = cap \<and> 0 < cap)"
| "phase_ok sz h (Queued r a n) = (a < length h \<and> 0 < n \<and> n \<le> sz (h ! a))"
| "phase_ok sz h (Serving r (Some (a, n))) = (a < length h \<and> 0 < n \<and> n \<le> sz (h ! a))"
| "phase_ok sz h (Serving r None) = True"
| "phase_ok sz h (Arrived r) = True" | "phase_ok sz h Refused = True"
| "phase_ok sz h Finished = True"

definition heap_ok :: "('s \<Rightarrow> int) \<Rightarrow> ('s \<Rightarrow> int) \<Rightarrow> 's list \<Rightarrow> phase list \<Rightarrow> bool" where
  "heap_ok held sz h ps \<longleftrightarrow>
     (\<forall>a < length h. held (h ! a) = reserved ps a \<and> held (h ! a) \<le> sz (h ! a))"

definition guard_ok :: "('s \<Rightarrow> int) \<Rightarrow> 's gate \<Rightarrow> bool" where
  "guard_ok sz g \<longleftrightarrow>
     (\<forall>a. gt_sem g = Some a \<longrightarrow> a < length (gt_heap g) \<and> sz (gt_heap g ! a) = gt_capacity g)"

definition kv_inv :: "('s \<Rightarrow> int) \<Rightarrow> ('s \<Rightarrow> int) \<Rightarrow> 's kv_system \<Rightarrow> bool" where
  "kv_inv held sz s \<longleftrightarrow>
     heap_ok held sz (gt_heap (kv_gate s)) (kv_reqs s) \<and> guard_ok sz (kv_gate s) \<and>
     (\<forall>p \<in> set (kv_reqs s). phase_ok sz (gt_heap (kv_gate s)) p) \<and>
     (\<forall>a. length (gt_heap (kv_gate s)) \<le> a \<longrightarrow> reserved (kv_reqs s) a = 0)"

text \<open>The heap changes in three ways: not at all, in one cell, by one more cell.\<close>

lemma heap_ok_same:
  "heap_ok held sz h ps \<Longrightarrow> i < length ps \<Longrightarrow> (\<And>b. reserved_by b p = reserved_by b (ps ! i)) \<Longrightarrow>
     heap_ok held sz h (ps[i := p])"
  by (auto simp: heap_ok_def reserved_update)

lemma heap_ok_cell:
  "heap_ok held sz h ps \<Longrightarrow> i < length ps \<Longrightarrow> held m = held (h ! a) + d \<Longrightarrow> held m \<le> sz m \<Longrightarrow>
     (\<And>b. reserved_by b p = reserved_by b (ps ! i) + (if b = a then d else 0)) \<Longrightarrow>
     heap_ok held sz (h[a := m]) (ps[i := p])"
  by (auto simp: heap_ok_def reserved_update nth_list_update)

lemma heap_ok_snoc:
  "heap_ok held sz h ps \<Longrightarrow> reserved ps (length h) = 0 \<Longrightarrow> held m = 0 \<Longrightarrow> 0 \<le> sz m \<Longrightarrow>
     heap_ok held sz (h @ [m]) ps"
  by (auto simp: heap_ok_def nth_append less_Suc_eq)

text \<open>Semaphores never move and never change their size.\<close>

definition heap_grows :: "('s \<Rightarrow> int) \<Rightarrow> 's list \<Rightarrow> 's list \<Rightarrow> bool" where
  "heap_grows sz h h' \<longleftrightarrow> length h \<le> length h' \<and> (\<forall>a < length h. sz (h' ! a) = sz (h ! a))"

lemma heap_grows_refl [simp]: "heap_grows sz h h"
  by (simp add: heap_grows_def)

lemma heap_grows_cell: "sz m = sz (h ! a) \<Longrightarrow> heap_grows sz h (h[a := m])"
  by (cases "a < length h") (auto simp: heap_grows_def nth_list_update)

lemma heap_grows_snoc: "heap_grows sz h (h @ [m])"
  by (auto simp: heap_grows_def nth_append)

lemma phase_ok_grows:
  "phase_ok sz h p \<Longrightarrow> heap_grows sz h h' \<Longrightarrow> phase_ok sz h' p"
  by (induction sz h p rule: phase_ok.induct) (auto simp: heap_grows_def)

lemma guard_ok_grows:
  "guard_ok sz g \<Longrightarrow> heap_grows sz (gt_heap g) h \<Longrightarrow> guard_ok sz (g\<lparr>gt_heap := h\<rparr>)"
  by (auto simp: guard_ok_def heap_grows_def)

lemma phases_update:
  "\<forall>p \<in> set ps. phase_ok sz h p \<Longrightarrow> phase_ok sz h' p' \<Longrightarrow> heap_grows sz h h' \<Longrightarrow>
     \<forall>p \<in> set (ps[i := p']). phase_ok sz h' p"
  by (intro ballI) (auto dest!: subsetD [OF set_update_subset_insert] intro: phase_ok_grows)

lemma reserved_fresh_update:
  assumes "\<forall>b. length h \<le> b \<longrightarrow> reserved ps b = 0" "length h \<le> length h'" "i < length ps"
    "\<And>b. length h \<le> b \<Longrightarrow> reserved_by b p = 0 \<and> reserved_by b (ps ! i) = 0"
  shows "\<forall>b. length h' \<le> b \<longrightarrow> reserved (ps[i := p]) b = 0"
  using assms by (simp add: reserved_update)

lemma kv_inv_replace:
  assumes "kv_inv held sz s" "i < length (kv_reqs s)"
    "heap_ok held sz h ((kv_reqs s)[i := p])" "heap_grows sz (gt_heap (kv_gate s)) h"
    "phase_ok sz h p"
    "\<And>b. length (gt_heap (kv_gate s)) \<le> b \<Longrightarrow>
       reserved_by b p = 0 \<and> reserved_by b (kv_reqs s ! i) = 0"
    "gt_heap g = h" "guard_ok sz g"
  shows "kv_inv held sz (s\<lparr>kv_gate := g, kv_reqs := (kv_reqs s)[i := p]\<rparr>)"
  using assms reserved_fresh_update [of "gt_heap (kv_gate s)" "kv_reqs s" h i p]
    phases_update [of "kv_reqs s" sz "gt_heap (kv_gate s)" h p i]
  by (auto simp: kv_inv_def heap_grows_def)

lemma kv_invD:
  assumes "kv_inv held sz s"
  shows "heap_ok held sz (gt_heap (kv_gate s)) (kv_reqs s)" "guard_ok sz (kv_gate s)"
    "i < length (kv_reqs s) \<Longrightarrow> phase_ok sz (gt_heap (kv_gate s)) (kv_reqs s ! i)"
    "reserved (kv_reqs s) (length (gt_heap (kv_gate s))) = 0"
  using assms by (auto simp: kv_inv_def)

lemma kv_inv_init: "kv_inv held sz initial_system"
  by (simp add: kv_inv_def initial_system_def initial_gate_def heap_ok_def guard_ok_def reserved_def)

lemma guard_semaphore_cases:
  assumes "guard_semaphore ops env g = (g', res)"
  obtains (none) "res = None" "g' = g"
    | (fresh) cap where "0 < cap" "res = Some (length (gt_heap g), cap)"
        "g' = g\<lparr>gt_sem := Some (length (gt_heap g)), gt_capacity := cap,
          gt_heap := gt_heap g @ [so_new ops cap]\<rparr>"
    | (live) a where "0 < gt_capacity g" "gt_sem g = Some a" "res = Some (a, gt_capacity g)" "g' = g"
proof (cases "ge_Capacity env")
  case None
  then show thesis using assms none by (simp add: guard_semaphore_def)
next
  case (Some c)
  show thesis
  proof (cases c)
    case None
    then show thesis using assms Some none by (simp add: guard_semaphore_def)
  next
    case (Some cap)
    then have "ge_Capacity env = Some (Some cap)" using \<open>ge_Capacity env = Some c\<close> by simp
    then have "guard_semaphore ops env g =
      (if cap \<le> 0 then (g, None)
       else if gt_sem g = None \<or> gt_capacity g \<noteq> cap
       then (g\<lparr>gt_sem := Some (length (gt_heap g)), gt_capacity := cap,
               gt_heap := gt_heap g @ [so_new ops cap]\<rparr>, Some (length (gt_heap g), cap))
       else (g, map_option (\<lambda>a. (a, cap)) (gt_sem g)))"
      by (simp add: guard_semaphore_def Let_def)
    note eq = trans [OF sym [OF assms] this]
    show thesis
    proof (cases "0 < cap \<and> (gt_sem g = None \<or> gt_capacity g \<noteq> cap)")
      case True
      then show thesis using eq fresh [of cap] by simp
    next
      case False
      show thesis
      proof (cases "cap \<le> 0")
        case True
        then show thesis using eq none by simp
      next
        case False
        then have "gt_capacity g = cap" "gt_sem g \<noteq> None"
          using \<open>\<not> (0 < cap \<and> (gt_sem g = None \<or> gt_capacity g \<noteq> cap))\<close> by auto
        then show thesis using eq live False by auto
      qed
    qed
  qed
qed

lemma kv_inv_enter:
  assumes ws: "weighted_semaphore ops held sz" and inv: "kv_inv held sz s"
    and i: "i < length (kv_reqs s)" "kv_reqs s ! i = Arrived r"
    and e: "admit_enter ops env (kv_gate s) r = (g, p)"
  shows "kv_inv held sz (s\<lparr>kv_gate := g, kv_reqs := (kv_reqs s)[i := p]\<rparr>)"
proof -
  note D = kv_invD [OF inv]
  have same: "p = Serving r None \<and> g = kv_gate s \<Longrightarrow> ?thesis"
    by (rule kv_inv_replace [OF inv i(1)]) (use D i in \<open>auto intro!: heap_ok_same\<close>)
  show ?thesis
  proof (cases "ge_Active env = Some False")
    case True
    then show ?thesis using e same by (simp add: admit_enter_def)
  next
    case False
    obtain g' res where gs: "guard_semaphore ops env (kv_gate s) = (g', res)" by fastforce
    show ?thesis using gs
    proof (cases rule: guard_semaphore_cases)
      case none
      then show ?thesis using e same False gs by (simp add: admit_enter_def)
    next
      case (fresh cap)
      have m: "held (so_new ops cap) = 0" "sz (so_new ops cap) = cap"
        using weighted_semaphoreD(1,2) [OF ws] by simp_all
      then have "heap_ok held sz (gt_heap (kv_gate s) @ [so_new ops cap]) ((kv_reqs s)[i := p])"
        using D i e fresh gs False
        by (intro heap_ok_same heap_ok_snoc) (auto simp: admit_enter_def)
      then show ?thesis
        by (rule kv_inv_replace [OF inv i(1)])
          (use e fresh gs False m i in \<open>auto simp: admit_enter_def heap_grows_snoc guard_ok_def\<close>)
    next
      case (live a)
      then show ?thesis
        by (intro kv_inv_replace [OF inv i(1)])
          (use D i e gs False in \<open>auto simp: admit_enter_def guard_ok_def intro!: heap_ok_same\<close>)
    qed
  qed
qed

lemma kv_inv_size_up:
  assumes ws: "weighted_semaphore ops held sz" and inv: "kv_inv held sz s"
    and i: "i < length (kv_reqs s)" "kv_reqs s ! i = Entered r a cap" and c: "card_states_ceiling env"
    and e: "admit_size ops env (gt_heap (kv_gate s)) r a cap = (h, p)"
  shows "kv_inv held sz
    (s\<lparr>kv_gate := (kv_gate s)\<lparr>gt_heap := h\<rparr>, kv_reqs := (kv_reqs s)[i := p]\<rparr>)"
proof -
  note D = kv_invD [OF inv]
  have ent: "a < length (gt_heap (kv_gate s))" "sz (gt_heap (kv_gate s) ! a) = cap" "0 < cap"
    using D(3) [OF i(1)] i(2) by simp_all
  from e c show ?thesis
  proof (cases rule: admit_size_cases)
    case (unmetered r')
    then show ?thesis
      by (intro kv_inv_replace [OF inv i(1)]) (use D i in \<open>auto intro!: heap_ok_same\<close>)
  next
    case (fast r' n m)
    note m = weighted_semaphoreD(7) [OF ws fast(4)]
    have h: "heap_ok held sz h ((kv_reqs s)[i := p])"
      unfolding fast by (rule heap_ok_cell [OF D(1) i(1), where d = n]) (use m i in auto)
    have "n \<le> cap" using fast(3) ent(3) by (simp add: fastPathDivisor_def)
    then show ?thesis
      by (intro kv_inv_replace [OF inv i(1) h])
        (use fast m ent D(2) i in \<open>auto intro!: heap_grows_cell guard_ok_grows\<close>)
  next
    case (queued r' n)
    then show ?thesis
      by (intro kv_inv_replace [OF inv i(1)]) (use D i ent in \<open>auto intro!: heap_ok_same\<close>)
  qed
qed

lemma kv_inv_cell:
  assumes inv: "kv_inv held sz s" and i: "i < length (kv_reqs s)"
    and m: "held m = held (gt_heap (kv_gate s) ! a) + d" "held m \<le> sz m"
      "sz m = sz (gt_heap (kv_gate s) ! a)"
    and p: "\<And>b. reserved_by b p = reserved_by b (kv_reqs s ! i) + (if b = a then d else 0)"
    and ok: "phase_ok sz (gt_heap (kv_gate s)) p" "a < length (gt_heap (kv_gate s))"
    and fresh: "\<And>b. length (gt_heap (kv_gate s)) \<le> b \<Longrightarrow> reserved_by b (kv_reqs s ! i) = 0"
  shows "kv_inv held sz (s\<lparr>kv_gate := (kv_gate s)\<lparr>gt_heap := (gt_heap (kv_gate s))[a := m]\<rparr>,
    kv_reqs := (kv_reqs s)[i := p]\<rparr>)"
proof (rule kv_inv_replace [OF inv i])
  note D = kv_invD [OF inv]
  show "heap_ok held sz ((gt_heap (kv_gate s))[a := m]) ((kv_reqs s)[i := p])"
    by (rule heap_ok_cell [OF D(1) i m(1,2) p])
  show "heap_grows sz (gt_heap (kv_gate s)) ((gt_heap (kv_gate s))[a := m])"
    using m(3) by (rule heap_grows_cell)
  then show "phase_ok sz ((gt_heap (kv_gate s))[a := m]) p" using ok(1) by (rule phase_ok_grows [rotated])
  show "reserved_by b p = 0 \<and> reserved_by b (kv_reqs s ! i) = 0"
    if "length (gt_heap (kv_gate s)) \<le> b" for b
    using fresh [OF that] p [of b] that ok(2) by simp
  show "guard_ok sz ((kv_gate s)\<lparr>gt_heap := (gt_heap (kv_gate s))[a := m]\<rparr>)"
    using D(2) heap_grows_cell [OF m(3)] by (rule guard_ok_grows)
qed simp

lemma kv_inv_step:
  assumes ws: "weighted_semaphore ops held sz" and inv: "kv_inv held sz s"
    and st: "kv_step ops card_states_ceiling s s'"
  shows "kv_inv held sz s'"
  using st
proof cases
  case (arrive r)
  then show ?thesis using inv by (auto simp: kv_inv_def heap_ok_def)
next
  case (enter i r env g p)
  then show ?thesis using kv_inv_enter [OF ws inv] by simp
next
  case (size_up i r a cap env h p)
  then show ?thesis using kv_inv_size_up [OF ws inv] by simp
next
  case (grant i r a n m)
  note m = weighted_semaphoreD(4) [OF ws grant(4)]
  have "phase_ok sz (gt_heap (kv_gate s)) (Queued r a n)" using kv_invD(3) [OF inv grant(2)] grant(3) by simp
  then show ?thesis unfolding grant(1)
    by (intro kv_inv_cell [OF inv grant(2), where d = n]) (use m grant(3) in auto)
next
  case (timeout i r a n)
  then have "kv_inv held sz (s\<lparr>kv_gate := kv_gate s, kv_reqs := (kv_reqs s)[i := Refused]\<rparr>)"
    by (intro kv_inv_replace [OF inv]) (use kv_invD [OF inv] in \<open>auto intro!: heap_ok_same\<close>)
  then show ?thesis using timeout(1) by simp
next
  case (finish_unmetered i r)
  then have "kv_inv held sz (s\<lparr>kv_gate := kv_gate s, kv_reqs := (kv_reqs s)[i := Finished]\<rparr>)"
    by (intro kv_inv_replace [OF inv]) (use kv_invD [OF inv] in \<open>auto intro!: heap_ok_same\<close>)
  then show ?thesis using finish_unmetered(1) by simp
next
  case (finish i r a n m)
  note m = weighted_semaphoreD(6) [OF ws finish(4)]
  have ok: "a < length (gt_heap (kv_gate s))" "0 < n"
    using kv_invD(3) [OF inv finish(2)] finish(3) by simp_all
  then have "held (gt_heap (kv_gate s) ! a) \<le> sz (gt_heap (kv_gate s) ! a)"
    using kv_invD(1) [OF inv] unfolding heap_ok_def by blast
  then show ?thesis unfolding finish(1)
    by (intro kv_inv_cell [OF inv finish(2), where d = "- n"]) (use m ok finish(3) in auto)
qed

lemma kv_inv_reachable:
  assumes "kv_reachable ops card_states_ceiling s" "weighted_semaphore ops held sz"
  shows "kv_inv held sz s"
  using assms by (induction rule: kv_reachable.induct) (auto intro: kv_inv_init kv_inv_step)

section \<open>A concrete run\<close>

text \<open>A semaphore that satisfies its documentation: what is held and the size.\<close>

definition counter_sem :: "(int \<times> int) sem_ops" where
  "counter_sem = \<lparr>so_new = (\<lambda>n. (0, n)),
     so_try = (\<lambda>s n. if snd s < fst s + n then None else Some (fst s + n, snd s)),
     so_acquire = (\<lambda>s n. if snd s < fst s + n then None else Some (fst s + n, snd s)),
     so_release = (\<lambda>s n. if fst s < n then None else Some (fst s - n, snd s))\<rparr>"

lemma counter_sem_ok: "weighted_semaphore counter_sem fst snd"
  by (auto simp: weighted_semaphore_def gives_room_def counter_sem_def split: if_splits)

definition example_request :: http_request where
  "example_request = \<lparr>rq_Path = ''/v1/chat/completions'',
     rq_Body = Some (''{\"messages\":[1],\"max_tokens\":10}'', False), rq_ContentLength = 32\<rparr>"

definition example_env :: "int \<Rightarrow> gate_env" where
  "example_env cap = \<lparr>ge_Active = Some True, ge_Capacity = Some (Some cap), ge_Tokenizer = None,
     ge_MaxOutputTokens = Some 512\<rparr>"

lemma example_env_ok: "card_states_ceiling (example_env cap)"
  by (simp add: card_states_ceiling_def max_output_def example_env_def)

definition example_state :: "int \<Rightarrow> int \<times> int \<Rightarrow> phase \<Rightarrow> (int \<times> int) kv_system" where
  "example_state cap m p =
     \<lparr>kv_gate = \<lparr>gt_sem = Some 0, gt_capacity = cap, gt_heap = [m]\<rparr>, kv_reqs = [p]\<rparr>"

lemma example_entered:
  assumes "0 < cap"
  shows "kv_reachable counter_sem card_states_ceiling
    (example_state cap (0, cap) (Entered example_request 0 cap))"
proof -
  have 1: "kv_reachable counter_sem card_states_ceiling
      (initial_system\<lparr>kv_reqs := [Arrived example_request]\<rparr>)"
    using kv_reachable.step [OF kv_reachable.init kv_step.arrive, of counter_sem card_states_ceiling example_request]
    by (simp add: initial_system_def)
  have e: "admit_enter counter_sem (example_env cap) initial_gate example_request =
      (\<lparr>gt_sem = Some 0, gt_capacity = cap, gt_heap = [(0, cap)]\<rparr>, Entered example_request 0 cap)"
    using assms
    by (simp add: admit_enter_def guard_semaphore_def example_env_def counter_sem_def initial_gate_def)
  show ?thesis
    by (rule kv_reachable.step [OF 1])
      (use kv_step.enter [of 0 "initial_system\<lparr>kv_reqs := [Arrived example_request]\<rparr>"
          example_request card_states_ceiling "example_env cap" counter_sem] e example_env_ok
       in \<open>simp add: initial_system_def example_state_def\<close>)
qed

lemma example_size_up:
  assumes "0 < cap"
    "admit_size counter_sem (example_env cap) [(0, cap)] example_request 0 cap = ([m], p)"
  shows "kv_reachable counter_sem card_states_ceiling (example_state cap m p)"
  by (rule kv_reachable.step [OF example_entered [OF assms(1)]])
    (use kv_step.size_up [of 0 "example_state cap (0, cap) (Entered example_request 0 cap)"
        example_request 0 cap card_states_ceiling "example_env cap" counter_sem] assms(2) example_env_ok
     in \<open>simp add: example_state_def\<close>)

lemma example_body: "bodyOf example_request = (Inr ''{\"messages\":[1],\"max_tokens\":10}'', example_request)"
  by (simp add: bodyOf_def maxBodyBytes_def example_request_def Let_def)

lemma example_shape:
  "unmarshal_shape ''{\"messages\":[1],\"max_tokens\":10}'' =
     \<lparr>sh_Prompt = None, sh_Messages = Some (JArr [JNum ''1'']), sh_MaxTokens = Some 10,
      sh_MaxCompletionTokens = None\<rparr>"
  by code_simp

lemmas example_admit = admit_size_def example_body example_shape generates_def outputReserve_def
  stated_output_def max_output_def example_env_def promptUpperBound_def fastPathDivisor_def
  counter_sem_def guard_count_def wrap64_def Let_def

lemma example_fast:
  "kv_reachable counter_sem card_states_ceiling
     (example_state 800 (42, 800) (Serving example_request (Some (0, 42))))"
proof (rule example_size_up)
  show "admit_size counter_sem (example_env 800) [(0, 800)] example_request 0 800 =
      ([(42, 800)], Serving example_request (Some (0, 42)))"
    by (simp add: example_admit)
qed simp

lemma example_queued:
  "kv_reachable counter_sem card_states_ceiling
     (example_state 100 (0, 100) (Queued example_request 0 42))"
proof (rule example_size_up)
  show "admit_size counter_sem (example_env 100) [(0, 100)] example_request 0 100 =
      ([(0, 100)], Queued example_request 0 42)"
    by (simp add: example_admit)
qed simp

section \<open>Properties\<close>



text \<open>C24: As long as the card states a completion ceiling, a release never gives back room that is not
  held (which would panic), so a request being served can always finish and its reservation is then
  gone. Without a ceiling a charge can wrap around, see \<open>overflowing_charge_is_negative\<close>.\<close>
theorem release_never_panics:
  assumes "kv_reachable ops card_states_ceiling s" and "weighted_semaphore ops held sz"
    and "i < length (kv_reqs s)" and "kv_reqs s ! i = Serving r (Some (a, n))"
  shows "\<exists>s'. kv_step ops card_states_ceiling s s' \<and> kv_reqs s' ! i = Finished \<and>
    reserved (kv_reqs s') a = reserved (kv_reqs s) a - n"
proof -
  note inv = kv_inv_reachable [OF assms(1,2)]
  have ok: "a < length (gt_heap (kv_gate s))" using kv_invD(3) [OF inv assms(3)] assms(4) by simp
  have "reserved_by a p \<ge> 0" if "p \<in> set (kv_reqs s)" for p
    using inv that by (cases "(a, p)" rule: reserved_by.cases) (auto simp: kv_inv_def)
  then have "reserved_by a (kv_reqs s ! i) \<le> reserved (kv_reqs s) a"
    unfolding reserved_def using assms(3) by (intro member_le_sum_list) auto
  then have "n \<le> held (gt_heap (kv_gate s) ! a)"
    using kv_invD(1) [OF inv] ok assms(4) by (simp add: heap_ok_def)
  then have "so_release ops (gt_heap (kv_gate s) ! a) n \<noteq> None"
    using weighted_semaphoreD(5) [OF assms(2)] by (simp add: not_less)
  then obtain m where m: "so_release ops (gt_heap (kv_gate s) ! a) n = Some m" by blast
  show ?thesis
    by (rule exI, rule conjI, rule kv_step.finish [OF assms(3,4) m])
      (simp add: assms(3,4) reserved_update)
qed

theorem release_never_panics_witness:
  "\<exists>s'. kv_step counter_sem card_states_ceiling
      (example_state 800 (42, 800) (Serving example_request (Some (0, 42)))) s' \<and>
    kv_reqs s' ! 0 = Finished \<and> reserved (kv_reqs s') 0 = 0"
  using release_never_panics [OF example_fast counter_sem_ok, of 0 example_request 0 42]
  by (simp add: example_state_def reserved_def)

text \<open>A request only ever waits for room it can get: whenever nothing is reserved on its
  semaphore, the acquisition it is blocked in can go through, and it is served with exactly that
  reservation.\<close>
theorem queued_request_fits:
  assumes "kv_reachable ops card_states_ceiling s" and "weighted_semaphore ops held sz"
    and "i < length (kv_reqs s)" and "kv_reqs s ! i = Queued r a n"
    and "reserved (kv_reqs s) a = 0"
  shows "0 < n \<and> (\<exists>s'. kv_step ops card_states_ceiling s s' \<and>
    kv_reqs s' ! i = Serving r (Some (a, n)) \<and> reserved (kv_reqs s') a = n)"
proof -
  note inv = kv_inv_reachable [OF assms(1,2)]
  have ok: "a < length (gt_heap (kv_gate s))" "0 < n" "n \<le> sz (gt_heap (kv_gate s) ! a)"
    using kv_invD(3) [OF inv assms(3)] assms(4) by simp_all
  then have "held (gt_heap (kv_gate s) ! a) = 0" using kv_invD(1) [OF inv] assms(5) by (simp add: heap_ok_def)
  then have "so_acquire ops (gt_heap (kv_gate s) ! a) n \<noteq> None"
    using weighted_semaphoreD(3) [OF assms(2)] ok by simp
  then obtain m where m: "so_acquire ops (gt_heap (kv_gate s) ! a) n = Some m" by blast
  show ?thesis
    by (rule conjI [OF ok(2)], rule exI, rule conjI, rule kv_step.grant [OF assms(3,4) m])
      (simp add: assms(3,4,5) reserved_update)
qed

theorem queued_request_fits_witness:
  "\<exists>s'. kv_step counter_sem card_states_ceiling
      (example_state 100 (0, 100) (Queued example_request 0 42)) s' \<and>
    kv_reqs s' ! 0 = Serving example_request (Some (0, 42))"
  using queued_request_fits [OF example_queued counter_sem_ok, of 0 example_request 0 42]
  by (auto simp: example_state_def reserved_def)

text \<open>Reading a body to size it hands the same bytes on, with their length, up to 8 MiB and one
  byte; a longer body is forwarded cut off there, with the shorter length declared.\<close>
theorem bodyOf_forwards:
  assumes "rq_Body r = Some (bytes, False)"
  shows "bodyOf r = (Inr (take (maxBodyBytes + 1) bytes),
      r\<lparr>rq_Body := Some (take (maxBodyBytes + 1) bytes, False),
        rq_ContentLength := int (min (length bytes) (maxBodyBytes + 1))\<rparr>) \<and>
    (rq_Body (snd (bodyOf r)) = rq_Body r \<longleftrightarrow> length bytes \<le> maxBodyBytes + 1)"
  using assms by (auto simp: bodyOf_def Let_def min.commute)

theorem bodyOf_forwards_witness:
  "rq_Body (snd (bodyOf \<lparr>rq_Path = [], rq_Body = Some (replicate 9000000 CHR ''x'', False),
     rq_ContentLength = 9000000\<rparr>)) \<noteq> Some (replicate 9000000 CHR ''x'', False)"
  using bodyOf_forwards [of "\<lparr>rq_Path = [], rq_Body = Some (replicate 9000000 CHR ''x'', False),
     rq_ContentLength = 9000000\<rparr>" "replicate 9000000 CHR ''x''"]
  by (simp add: maxBodyBytes_def)

text \<open>A body that does not parse as JSON is forwarded without any reservation, whatever its
  length.\<close>
theorem unparsable_body_unmetered:
  assumes "bodyOf r0 = (Inr body, r)" and "json_parse body = None"
  shows "admit_size ops env h r0 a cap = (h, Serving r None)"
  using assms by (simp add: admit_size_def unmarshal_shape_def generates_def zero_shape_def)

theorem unparsable_body_unmetered_witness:
  "snd (admit_size counter_sem (example_env 100) [(0, 100)]
     (example_request\<lparr>rq_Body := Some (''{\"messages\":[1],'', False)\<rparr>) 0 100) =
   Serving (example_request\<lparr>rq_Body := Some (''{\"messages\":[1],'', False), rq_ContentLength := 16\<rparr>)
     None"
proof -
  have "bodyOf (example_request\<lparr>rq_Body := Some (''{\"messages\":[1],'', False)\<rparr>) =
      (Inr ''{\"messages\":[1],'',
       example_request\<lparr>rq_Body := Some (''{\"messages\":[1],'', False), rq_ContentLength := 16\<rparr>)"
    by (simp add: bodyOf_def maxBodyBytes_def Let_def)
  moreover have "json_parse ''{\"messages\":[1],'' = None" by code_simp
  ultimately show ?thesis by (simp only: unparsable_body_unmetered snd_conv)
qed

definition wrap_request :: http_request where
  "wrap_request = \<lparr>rq_Path = ''/v1/chat/completions'',
     rq_Body = Some (''{\"messages\":[],\"max_tokens\":9223372036854775757}'', False),
     rq_ContentLength = 48\<rparr>"

text \<open>An engine whose template adds tokens of its own: 60 of them for no message.\<close>

definition wrap_engine :: "string \<Rightarrow> json \<Rightarrow> (int \<times> string) option" where
  "wrap_engine url body =
     (if has_suffix url ''/tokenize''
      then Some (200, ''{\"tokens\":['' @ concat (replicate 59 ''1,'') @ ''1]}'')
      else Some (200, ''{\"prompt\":\"system\"}''))"

definition wrap_env :: gate_env where
  "wrap_env = \<lparr>ge_Active = Some True, ge_Capacity = Some (Some 8192),
     ge_Tokenizer = Some \<lparr>tk_BaseURL = ''http://localhost:8080'', tk_Do = wrap_engine\<rparr>,
     ge_MaxOutputTokens = Some 0\<rparr>"

lemma wrap_body:
  "bodyOf wrap_request =
     (Inr ''{\"messages\":[],\"max_tokens\":9223372036854775757}'', wrap_request)"
  by (simp add: bodyOf_def maxBodyBytes_def wrap_request_def Let_def)

lemma wrap_shape:
  "unmarshal_shape ''{\"messages\":[],\"max_tokens\":9223372036854775757}'' =
     \<lparr>sh_Prompt = None, sh_Messages = Some (JArr []), sh_MaxTokens = Some 9223372036854775757,
      sh_MaxCompletionTokens = None\<rparr>"
  by code_simp

lemma wrap_replies:
  "json_parse ''{\"prompt\":\"system\"}'' = Some (JObj [(''prompt'', JStr ''system'')])"
  "json_parse (''{\"tokens\":['' @ concat (replicate 59 ''1,'') @ ''1]}'') =
     Some (JObj [(''tokens'', JArr (replicate 60 (JNum ''1'')))])"
  by code_simp+

lemma wrap_urls:
  "has_suffix (trim_right_slash ''http://localhost:8080'' @ ''/tokenize'') ''/tokenize''"
  "\<not> has_suffix (trim_right_slash ''http://localhost:8080'' @ ''/apply-template'') ''/tokenize''"
  by code_simp+

lemma wrap_count:
  "guard_count wrap_env
     \<lparr>sh_Prompt = None, sh_Messages = Some (JArr []), sh_MaxTokens = Some 9223372036854775757,
      sh_MaxCompletionTokens = None\<rparr> = Some 60"
proof -
  let ?tk = "\<lparr>tk_BaseURL = ''http://localhost:8080'', tk_Do = wrap_engine\<rparr>"
  let ?reply = "''{\"tokens\":['' @ concat (replicate 59 ''1,'') @ ''1]}''"
  have "take tokenizeBodyLimit ?reply = ?reply"
    by (simp add: tokenizeBodyLimit_def length_concat comp_def sum_list_replicate)
  then have t: "post ?tk ''/tokenize'' b = Inr (JObj [(''tokens'', JArr (replicate 60 (JNum ''1'')))])" for b
    using wrap_replies(2) wrap_urls(1) by (simp add: post_def wrap_engine_def)
  have "post ?tk ''/apply-template'' b = Inr (JObj [(''prompt'', JStr ''system'')])" for b
    using wrap_replies(1) wrap_urls(2) by (simp add: post_def wrap_engine_def tokenizeBodyLimit_def)
  then show ?thesis using t
    by (simp add: guard_count_def wrap_env_def CountPrompt_def contentOf_def applyTemplate_def
        tokenize_def countArray_def field_is_def)
qed

text \<open>Without a ceiling on the card a request can make its charge wrap around: one whose stated
  output is close to the 64-bit limit, and whose counted prompt is longer than its body, queues for
  a negative amount, which is granted on a pool that is entirely reserved and opens it to the next
  requests.\<close>
theorem overflowing_charge_is_negative:
  "admit_size counter_sem wrap_env [(8192, 8192)] wrap_request 0 8192 =
     ([(8192, 8192)], Queued wrap_request 0 (- 9223372036854775799)) \<and>
   so_acquire counter_sem (8192, 8192) (- 9223372036854775799) =
     Some (8192 - 9223372036854775799, 8192) \<and>
   so_acquire counter_sem (8192 - 9223372036854775799, 8192) 8192 \<noteq> None"
  by (simp add: admit_size_def wrap_body wrap_shape wrap_count generates_def outputReserve_def
      stated_output_def max_output_def promptUpperBound_def fastPathDivisor_def counter_sem_def
      wrap64_def Let_def) (simp add: wrap_env_def)

text \<open>The \<open>Retry-After\<close> of a refusal is the wait in whole seconds, rounded up and never below
  one.\<close>
theorem retry_after_rounds_up:
  assumes "0 \<le> w" and "w \<le> 2 ^ 62"
  shows "1 \<le> retryAfterSeconds w \<and> w \<le> retryAfterSeconds w * Second \<and>
    (retryAfterSeconds w = 1 \<or> (retryAfterSeconds w - 1) * Second < w) \<and>
    writeExhausted w = (503, retryAfterSeconds w, CodeExhausted)"
proof -
  define q where "q = (w + 999999999) div 1000000000"
  have "wrap64 (wrap64 (w + Second) - 1) = w + 999999999"
    using assms by (simp add: in_int64_def Second_def)
  then have r: "retryAfterSeconds w = (if q < 1 then 1 else q)"
    using assms by (simp add: retryAfterSeconds_def Second_def q_def Let_def)
  have "q * 1000000000 \<le> w + 999999999" "w + 999999999 < (q + 1) * 1000000000"
    using div_mult_mod_eq [of "w + 999999999" 1000000000]
      pos_mod_bound [of 1000000000 "w + 999999999"] pos_mod_sign [of 1000000000 "w + 999999999"]
    unfolding q_def by (simp_all add: algebra_simps)
  then show ?thesis using assms unfolding r writeExhausted_def Second_def by auto
qed

theorem retry_after_rounds_up_witness:
  "retryAfterSeconds 10000000000 * Second \<ge> 10000000000 \<and> 1 \<le> retryAfterSeconds 10000000000"
  using retry_after_rounds_up [of 10000000000] by simp

end
