(* ===== verification/Progress.thy ===== *)
theory Progress
  imports AtomicFile
begin

text \<open>
  The progress manager: \<open>internal/progress/progress.go\<close>, \<open>file.go\<close> and \<open>sink.go\<close>. Every exported
  operation is a function of the manager's state; \<open>now\<close> is what \<open>time.Now\<close> returns inside it, in
  nanoseconds. Byte counters are int64 and wrap; counters that move by one (files, retries) are not
  wrapped. The zero time is \<open>None\<close>.

  The displayed speed is a float64. Floating point is a parameter (\<open>'f float_ops\<close>): what the code
  computes with it is named there, and nothing proved here depends on its rounding.
\<close>

section \<open>State\<close>

datatype progress_phase = PhaseInit | PhaseDownload | PhaseLoading | PhaseReady | PhaseDegraded | PhaseFailed

text \<open>\<open>FileUnset\<close> is the empty string a caller of \<open>SeedDownloadFileList\<close> may leave.\<close>

datatype file_status = FileWaiting | FileDownloading | FileDone | FileUnset

record file_progress =
  fp_Path :: string
  fp_BytesTotal :: int
  fp_BytesCompleted :: int
  fp_Status :: file_status

record 'f pstate =
  ps_Phase :: progress_phase
  ps_StartedAt :: int
  ps_UpdatedAt :: int
  ps_BytesTotal :: int
  ps_BytesCompleted :: int
  ps_Speed :: 'f
  ps_ETASeconds :: int
  ps_FilesTotal :: int
  ps_FilesCompleted :: int
  ps_CurrentFile :: string
  ps_Files :: "file_progress list"
  ps_LastError :: string
  ps_RetryCount :: int
  ps_TransportRetries :: int
  ps_LastVerifyAt :: "int option"
  ps_LastVerifyOK :: "bool option"
  ps_EngineColdStartMS :: "int option"
  ps_ResolvedCommit :: string
  ps_Note :: string

record 'f float_ops =
  fl_zero :: 'f
  fl_is_zero :: "'f \<Rightarrow> bool"
  fl_le_zero :: "'f \<Rightarrow> bool"
  fl_rate :: "int \<Rightarrow> int \<Rightarrow> 'f"
  fl_ema :: "'f \<Rightarrow> 'f \<Rightarrow> 'f"
  fl_eta :: "int \<Rightarrow> 'f \<Rightarrow> int"

text \<open>A subscriber is its identity and the frames waiting in its channel, oldest first.\<close>

record 'f mgr =
  mg_state :: "'f pstate"
  mg_subs :: "(nat \<times> 'f pstate list) list"
  mg_lastBytes :: int
  mg_lastSample :: int
  mg_bytesBudgetActive :: bool
  mg_filesBudgetActive :: bool
  mg_seenFiles :: "string list"
  mg_doneFiles :: "string list"
  mg_rateFilePath :: string
  mg_rateFileBytes :: int

definition initial_pstate :: "'f float_ops \<Rightarrow> int \<Rightarrow> 'f pstate" where
  "initial_pstate F now =
     \<lparr>ps_Phase = PhaseInit, ps_StartedAt = now, ps_UpdatedAt = now, ps_BytesTotal = 0,
      ps_BytesCompleted = 0, ps_Speed = fl_zero F, ps_ETASeconds = 0, ps_FilesTotal = 0,
      ps_FilesCompleted = 0, ps_CurrentFile = [], ps_Files = [], ps_LastError = [],
      ps_RetryCount = 0, ps_TransportRetries = 0, ps_LastVerifyAt = None, ps_LastVerifyOK = None,
      ps_EngineColdStartMS = None, ps_ResolvedCommit = [], ps_Note = []\<rparr>"

definition new_manager :: "'f float_ops \<Rightarrow> int \<Rightarrow> 'f mgr" where
  "new_manager F now =
     \<lparr>mg_state = initial_pstate F now, mg_subs = [], mg_lastBytes = 0, mg_lastSample = now,
      mg_bytesBudgetActive = False, mg_filesBudgetActive = False, mg_seenFiles = [],
      mg_doneFiles = [], mg_rateFilePath = [], mg_rateFileBytes = 0\<rparr>"

section \<open>The speed (progress.go)\<close>

definition minSampleInterval :: int where "minSampleInterval = 1000000000"
definition minRateFileBytes :: int where "minRateFileBytes = 8388608"
definition minRateUnknownDelta :: int where "minRateUnknownDelta = 1048576"

definition fileQualifiesForRate :: "int \<Rightarrow> int \<Rightarrow> bool" where
  "fileQualifiesForRate fileTotal bytesTotal =
     (if fileTotal \<ge> minRateFileBytes then True
      else if fileTotal > 0 \<and> bytesTotal > 0 \<and> fileTotal \<ge> go_quot bytesTotal 100 then True
      else False)"

definition rateSampleEligible :: "int \<Rightarrow> int \<Rightarrow> int \<Rightarrow> bool" where
  "rateSampleEligible fileTotal bytesTotal windowDelta =
     (if fileQualifiesForRate fileTotal bytesTotal then True
      else fileTotal \<le> 0 \<and> windowDelta \<ge> minRateUnknownDelta)"

definition refreshETA :: "'f float_ops \<Rightarrow> 'f pstate \<Rightarrow> 'f pstate" where
  "refreshETA F s =
     (let remaining = wrap64 (ps_BytesTotal s - ps_BytesCompleted s)
      in if remaining \<le> 0 \<or> fl_le_zero F (ps_Speed s) then s\<lparr>ps_ETASeconds := 0\<rparr>
         else s\<lparr>ps_ETASeconds := fl_eta F remaining (ps_Speed s)\<rparr>)"

definition recomputeRate :: "'f float_ops \<Rightarrow> 'f pstate \<Rightarrow> 'f mgr \<Rightarrow> 'f mgr" where
  "recomputeRate F old m =
     (let s = mg_state m;
          now = ps_UpdatedAt s;
          dt = now - mg_lastSample m
      in if dt < minSampleInterval then m\<lparr>mg_state := refreshETA F s\<rparr>
         else let delta = wrap64 (ps_BytesCompleted s - mg_lastBytes m)
           in if delta < 0 then
                m\<lparr>mg_lastBytes := ps_BytesCompleted s, mg_lastSample := now,
                  mg_state := refreshETA F (s\<lparr>ps_Speed := fl_zero F\<rparr>)\<rparr>
              else
                let s' = (if rateSampleEligible (mg_rateFileBytes m) (ps_BytesTotal s) delta
                          then s\<lparr>ps_Speed :=
                                   (if fl_is_zero F (ps_Speed old) then fl_rate F delta dt
                                    else fl_ema F (fl_rate F delta dt) (ps_Speed old))\<rparr>
                          else s)
                in m\<lparr>mg_lastBytes := ps_BytesCompleted s, mg_lastSample := now,
                     mg_state := refreshETA F s'\<rparr>)"

section \<open>Update and subscriptions (progress.go)\<close>

definition subBufferSize :: nat where "subBufferSize = 8"

definition offer :: "'f pstate \<Rightarrow> nat \<times> 'f pstate list \<Rightarrow> nat \<times> 'f pstate list" where
  "offer frame sub =
     (case sub of (i, buf) \<Rightarrow> (i, if length buf < subBufferSize then buf @ [frame] else buf))"

definition mgr_Update :: "'f float_ops \<Rightarrow> int \<Rightarrow> ('f pstate \<Rightarrow> 'f pstate) \<Rightarrow> 'f mgr \<Rightarrow> 'f mgr" where
  "mgr_Update F now fn m =
     (let old = mg_state m;
          m' = recomputeRate F old (m\<lparr>mg_state := (fn old)\<lparr>ps_UpdatedAt := now\<rparr>\<rparr>)
      in m'\<lparr>mg_subs := map (offer (mg_state m')) (mg_subs m')\<rparr>)"

definition Subscribe :: "nat \<Rightarrow> 'f mgr \<Rightarrow> 'f mgr" where
  "Subscribe i m = m\<lparr>mg_subs := mg_subs m @ [offer (mg_state m) (i, [])]\<rparr>"

definition Unsubscribe :: "nat \<Rightarrow> 'f mgr \<Rightarrow> 'f mgr" where
  "Unsubscribe i m = m\<lparr>mg_subs := filter (\<lambda>s. fst s \<noteq> i) (mg_subs m)\<rparr>"

section \<open>File rows (file.go)\<close>

text \<open>\<open>filepath.Base\<close> of the path with its backslashes turned.\<close>

definition path_base :: "string \<Rightarrow> string" where
  "path_base p =
     (if p = [] then ''.''
      else let q = rev (dropWhile (\<lambda>c. c = CHR ''/'') (rev p))
        in if q = [] then ''/'' else last (split_on CHR ''/'' q))"

definition fileBase :: "string \<Rightarrow> string" where
  "fileBase p = path_base (map (\<lambda>c. if c = CHR 0x5C then CHR ''/'' else c) p)"

definition find_index :: "('a \<Rightarrow> bool) \<Rightarrow> 'a list \<Rightarrow> nat option" where
  "find_index P xs = find (\<lambda>i. P (xs ! i)) [0..<length xs]"

text \<open>The exact row, else the first waiting row of the same base name before it is found, else the
  first row of that name. The scan stops at an exact match, which wins anyway.\<close>

definition matchFileIndex :: "file_progress list \<Rightarrow> string \<Rightarrow> nat option" where
  "matchFileIndex files path =
     (if path = [] \<or> files = [] then None
      else case find_index (\<lambda>f. fp_Path f = path) files of
             Some i \<Rightarrow> Some i
           | None \<Rightarrow>
               (case find_index (\<lambda>f. fileBase (fp_Path f) = fileBase path \<and> fp_Status f = FileWaiting) files of
                  Some i \<Rightarrow> Some i
                | None \<Rightarrow> find_index (\<lambda>f. fileBase (fp_Path f) = fileBase path) files))"

definition append_row :: "file_progress \<Rightarrow> bool \<Rightarrow> 'f pstate \<Rightarrow> 'f pstate" where
  "append_row fp growTotal st =
     (let files = ps_Files st @ [fp]
      in st\<lparr>ps_Files := files,
            ps_FilesTotal := (if growTotal \<and> ps_FilesTotal st < int (length files)
                              then int (length files) else ps_FilesTotal st)\<rparr>)"

definition start_row :: "int \<Rightarrow> file_progress \<Rightarrow> file_progress" where
  "start_row totalBytes f =
     f\<lparr>fp_Status := (if fp_Status f \<noteq> FileDone then FileDownloading else fp_Status f),
       fp_BytesTotal := (if totalBytes > fp_BytesTotal f then totalBytes else fp_BytesTotal f)\<rparr>"

definition markFileStart :: "string \<Rightarrow> int \<Rightarrow> bool \<Rightarrow> 'f pstate \<Rightarrow> 'f pstate" where
  "markFileStart path totalBytes growTotal st =
     (if path = [] then st
      else let st = st\<lparr>ps_CurrentFile := path\<rparr>
        in case matchFileIndex (ps_Files st) path of
             None \<Rightarrow> append_row \<lparr>fp_Path = path, fp_BytesTotal = (if totalBytes > 0 then totalBytes else 0),
                 fp_BytesCompleted = 0, fp_Status = FileDownloading\<rparr> growTotal st
           | Some i \<Rightarrow> st\<lparr>ps_Files := (ps_Files st)[i := start_row totalBytes (ps_Files st ! i)]\<rparr>)"

definition add_row :: "int \<Rightarrow> file_progress \<Rightarrow> file_progress" where
  "add_row delta f =
     (let c = wrap64 (fp_BytesCompleted f + delta);
          c = (if c < 0 then 0 else c);
          c = (if fp_BytesTotal f > 0 \<and> c > fp_BytesTotal f then fp_BytesTotal f else c)
      in f\<lparr>fp_Status := (if fp_Status f = FileWaiting then FileDownloading else fp_Status f),
           fp_BytesCompleted := c\<rparr>)"

definition addFileBytes :: "string \<Rightarrow> int \<Rightarrow> bool \<Rightarrow> 'f pstate \<Rightarrow> 'f pstate" where
  "addFileBytes path delta growTotal st =
     (if path = [] \<or> delta = 0 then st
      else case matchFileIndex (ps_Files st) path of
             None \<Rightarrow> append_row \<lparr>fp_Path = path, fp_BytesTotal = 0, fp_BytesCompleted = delta,
                 fp_Status = FileDownloading\<rparr> growTotal st
           | Some i \<Rightarrow> st\<lparr>ps_Files := (ps_Files st)[i := add_row delta (ps_Files st ! i)]\<rparr>)"

definition done_row :: "file_progress \<Rightarrow> file_progress" where
  "done_row f =
     f\<lparr>fp_Status := FileDone,
       fp_BytesCompleted := (if fp_BytesTotal f > 0 then fp_BytesTotal f else fp_BytesCompleted f)\<rparr>"

definition markFileDone :: "string \<Rightarrow> bool \<Rightarrow> 'f pstate \<Rightarrow> 'f pstate" where
  "markFileDone path growTotal st =
     (if path = [] then st
      else case matchFileIndex (ps_Files st) path of
             None \<Rightarrow> append_row \<lparr>fp_Path = path, fp_BytesTotal = 0, fp_BytesCompleted = 0,
                 fp_Status = FileDone\<rparr> growTotal st
           | Some i \<Rightarrow> st\<lparr>ps_Files := (ps_Files st)[i := done_row (ps_Files st ! i)]\<rparr>)"

section \<open>Seeding a pass (progress.go)\<close>

definition SeedDownloadBudget :: "'f float_ops \<Rightarrow> int \<Rightarrow> int \<Rightarrow> int \<Rightarrow> 'f mgr \<Rightarrow> 'f mgr" where
  "SeedDownloadBudget F now total0 completed0 m =
     (let tot = (if total0 < 0 then 0 else total0);
          completed = (if completed0 < 0 then 0 else completed0);
          completed = (if completed > tot \<and> tot > 0 then tot else completed)
      in (mgr_Update F now (\<lambda>st. st\<lparr>ps_BytesTotal := tot, ps_BytesCompleted := completed\<rparr>) m)
           \<lparr>mg_bytesBudgetActive := tot > 0, mg_lastBytes := completed\<rparr>)"

definition clean_row :: "file_progress \<Rightarrow> file_progress" where
  "clean_row f =
     (let f = (if fp_Status f = FileUnset then f\<lparr>fp_Status := FileWaiting\<rparr> else f);
          f = (if fp_BytesCompleted f < 0 then f\<lparr>fp_BytesCompleted := 0\<rparr> else f);
          f = (if fp_BytesTotal f < 0 then f\<lparr>fp_BytesTotal := 0\<rparr> else f)
      in if fp_BytesTotal f > 0 \<and> fp_BytesCompleted f > fp_BytesTotal f
         then f\<lparr>fp_BytesCompleted := fp_BytesTotal f\<rparr> else f)"

definition SeedDownloadFileList :: "'f float_ops \<Rightarrow> int \<Rightarrow> file_progress list \<Rightarrow> 'f mgr \<Rightarrow> 'f mgr" where
  "SeedDownloadFileList F now files m =
     (let cloned = map clean_row files;
          ndone = length (filter (\<lambda>f. fp_Status f = FileDone) cloned)
      in (mgr_Update F now (\<lambda>st. st\<lparr>ps_Files := cloned, ps_FilesTotal := int (length cloned),
             ps_FilesCompleted := int ndone\<rparr>) m)
           \<lparr>mg_filesBudgetActive := cloned \<noteq> []\<rparr>)"

definition SeedDownloadFiles :: "'f float_ops \<Rightarrow> int \<Rightarrow> int \<Rightarrow> int \<Rightarrow> 'f mgr \<Rightarrow> 'f mgr" where
  "SeedDownloadFiles F now total0 completed0 m =
     (let tot = (if total0 < 0 then 0 else total0);
          completed = (if completed0 < 0 then 0 else completed0);
          completed = (if completed > tot \<and> tot > 0 then tot else completed)
      in (mgr_Update F now (\<lambda>st. st\<lparr>ps_FilesTotal := tot, ps_FilesCompleted := completed\<rparr>) m)
           \<lparr>mg_filesBudgetActive := tot > 0\<rparr>)"

definition ClearDownloadBudget :: "'f mgr \<Rightarrow> 'f mgr" where
  "ClearDownloadBudget m =
     m\<lparr>mg_bytesBudgetActive := False, mg_filesBudgetActive := False, mg_seenFiles := [],
       mg_doneFiles := [], mg_rateFilePath := [], mg_rateFileBytes := 0\<rparr>"

section \<open>The sink (sink.go)\<close>

definition note_rate_file :: "string \<Rightarrow> int \<Rightarrow> 'f mgr \<Rightarrow> 'f mgr" where
  "note_rate_file path totalBytes m =
     (if path = [] then m
      else if path \<noteq> mg_rateFilePath m
      then m\<lparr>mg_rateFilePath := path, mg_rateFileBytes := totalBytes\<rparr>
      else if totalBytes > mg_rateFileBytes m then m\<lparr>mg_rateFileBytes := totalBytes\<rparr>
      else m)"

definition OnFileStart :: "'f float_ops \<Rightarrow> int \<Rightarrow> string \<Rightarrow> int \<Rightarrow> 'f mgr \<Rightarrow> 'f mgr" where
  "OnFileStart F now path totalBytes m0 =
     (let m1 = note_rate_file path totalBytes m0;
          bytesPinned = mg_bytesBudgetActive m1;
          filesPinned = mg_filesBudgetActive m1;
          m2 = (if path \<noteq> [] \<and> \<not> filesPinned
                then m1\<lparr>mg_seenFiles := List.insert path (mg_seenFiles m1)\<rparr> else m1);
          seenCount = (if path \<noteq> [] \<and> \<not> filesPinned then int (length (mg_seenFiles m2)) else 0);
          growBytes = (\<not> bytesPinned \<and> totalBytes > 0)
      in if \<not> growBytes \<and> path = [] \<and> seenCount = 0 then m2
         else mgr_Update F now (\<lambda>st.
           let st = (if growBytes
                     then st\<lparr>ps_BytesTotal := wrap64 (ps_BytesTotal st + totalBytes)\<rparr> else st);
               st = (if seenCount > ps_FilesTotal st then st\<lparr>ps_FilesTotal := seenCount\<rparr> else st)
           in if path \<noteq> [] then markFileStart path totalBytes (\<not> filesPinned) st else st) m2)"

definition OnBytes :: "'f float_ops \<Rightarrow> int \<Rightarrow> int \<Rightarrow> 'f mgr \<Rightarrow> 'f mgr" where
  "OnBytes F now delta m =
     (if delta = 0 then m
      else let pinned = mg_filesBudgetActive m
        in mgr_Update F now (\<lambda>st.
             let st = st\<lparr>ps_BytesCompleted := wrap64 (ps_BytesCompleted st + delta)\<rparr>
             in if ps_CurrentFile st \<noteq> [] then addFileBytes (ps_CurrentFile st) delta (\<not> pinned) st
                else st) m)"

definition OnFileBytes :: "'f float_ops \<Rightarrow> int \<Rightarrow> string \<Rightarrow> int \<Rightarrow> 'f mgr \<Rightarrow> 'f mgr" where
  "OnFileBytes F now path delta m =
     (if delta = 0 \<and> path = [] then m
      else let pinned = mg_filesBudgetActive m
        in mgr_Update F now (\<lambda>st.
             let st = (if delta \<noteq> 0
                       then st\<lparr>ps_BytesCompleted := wrap64 (ps_BytesCompleted st + delta)\<rparr> else st)
             in if path \<noteq> [] then addFileBytes path delta (\<not> pinned) (st\<lparr>ps_CurrentFile := path\<rparr>)
                else st) m)"

definition count_done :: "'f pstate \<Rightarrow> 'f pstate" where
  "count_done st =
     (let n = ps_FilesCompleted st + 1
      in st\<lparr>ps_FilesCompleted := (if ps_FilesTotal st > 0 \<and> n > ps_FilesTotal st
                                  then ps_FilesTotal st else n)\<rparr>)"

definition clear_current :: "string \<Rightarrow> 'f pstate \<Rightarrow> 'f pstate" where
  "clear_current path st = (if ps_CurrentFile st = path then st\<lparr>ps_CurrentFile := []\<rparr> else st)"

definition OnFileDone :: "'f float_ops \<Rightarrow> int \<Rightarrow> string \<Rightarrow> 'f mgr \<Rightarrow> 'f mgr" where
  "OnFileDone F now path m =
     (if path \<noteq> [] then
        (if path \<in> set (mg_doneFiles m) then mgr_Update F now (clear_current path) m
         else let m1 = m\<lparr>mg_doneFiles := path # mg_doneFiles m\<rparr>;
                  m2 = (if mg_rateFilePath m1 = path
                        then m1\<lparr>mg_rateFilePath := [], mg_rateFileBytes := 0\<rparr> else m1);
                  pinned = mg_filesBudgetActive m2
           in mgr_Update F now (\<lambda>st. clear_current path (markFileDone path (\<not> pinned) (count_done st))) m2)
      else mgr_Update F now count_done m)"

definition OnFilesTotal :: "'f float_ops \<Rightarrow> int \<Rightarrow> int \<Rightarrow> 'f mgr \<Rightarrow> 'f mgr" where
  "OnFilesTotal F now n m =
     (if n \<le> 0 then m
      else mgr_Update F now (\<lambda>st. if n > ps_FilesTotal st then st\<lparr>ps_FilesTotal := n\<rparr> else st) m)"

text \<open>The argument says whether the error is non-nil.\<close>

definition OnError :: "'f float_ops \<Rightarrow> int \<Rightarrow> bool \<Rightarrow> 'f mgr \<Rightarrow> 'f mgr" where
  "OnError F now is_err m =
     (if \<not> is_err then m
      else mgr_Update F now (\<lambda>st. st\<lparr>ps_TransportRetries := ps_TransportRetries st + 1\<rparr>) m)"

definition OnPhase :: "'f float_ops \<Rightarrow> int \<Rightarrow> progress_phase \<Rightarrow> 'f mgr \<Rightarrow> 'f mgr" where
  "OnPhase F now p m = mgr_Update F now (\<lambda>st. st\<lparr>ps_Phase := p\<rparr>) m"

definition OnResolvedCommit :: "'f float_ops \<Rightarrow> int \<Rightarrow> string \<Rightarrow> 'f mgr \<Rightarrow> 'f mgr" where
  "OnResolvedCommit F now sha m =
     (if sha = [] then m else mgr_Update F now (\<lambda>st. st\<lparr>ps_ResolvedCommit := sha\<rparr>) m)"

definition OnNote :: "'f float_ops \<Rightarrow> int \<Rightarrow> string \<Rightarrow> 'f mgr \<Rightarrow> 'f mgr" where
  "OnNote F now text m = mgr_Update F now (\<lambda>st. st\<lparr>ps_Note := text\<rparr>) m"

section \<open>The snapshot file (progress.go)\<close>

text \<open>What \<open>MarshalJSON\<close> changes before it encodes, and what \<open>LoadFrom\<close> changes after it decoded.
  The encoding itself is a parameter of \<open>SaveTo\<close>.\<close>

definition wire_state :: "'f pstate \<Rightarrow> 'f pstate" where
  "wire_state s = (if ps_LastVerifyAt s = None then s\<lparr>ps_LastVerifyOK := None\<rparr> else s)"

definition progress_put :: "io_plan \<Rightarrow> path \<Rightarrow> string \<Rightarrow> fs \<Rightarrow> io_run" where
  "progress_put io p data fs =
     io_then (os_mkdir_all io fs) (\<lambda>fs.
       io_then (os_write_file io (tmp_of p) data fs)
         (\<lambda>fs. io_or_else (os_rename io (tmp_of p) p fs) (os_remove io (tmp_of p))))"

definition SaveTo :: "io_plan \<Rightarrow> ('f pstate \<Rightarrow> string) \<Rightarrow> path \<Rightarrow> 'f mgr \<Rightarrow> fs \<Rightarrow> io_run" where
  "SaveTo io encode p m fs = progress_put io p (encode (wire_state (mg_state m))) fs"

definition LoadFrom ::
  "(string \<Rightarrow> 'f pstate option) \<Rightarrow> path \<Rightarrow> fs \<Rightarrow> 'f mgr \<Rightarrow> (io_error + 'f mgr)" where
  "LoadFrom decode p fs m =
     (case fs p of
        None \<Rightarrow> Inl NotExist
      | Some data \<Rightarrow>
          (case decode data of
             None \<Rightarrow> Inl ReadError
           | Some s \<Rightarrow>
               let s = (if ps_LastVerifyAt s = None then s\<lparr>ps_LastVerifyOK := None\<rparr> else s)
               in Inr (m\<lparr>mg_state := s, mg_lastBytes := ps_BytesCompleted s,
                         mg_lastSample := ps_UpdatedAt s\<rparr>)))"

section \<open>Facts about Update\<close>

lemma refreshETA_fields [simp]:
  "ps_BytesTotal (refreshETA F s) = ps_BytesTotal s"
  "ps_BytesCompleted (refreshETA F s) = ps_BytesCompleted s"
  "ps_FilesTotal (refreshETA F s) = ps_FilesTotal s"
  "ps_FilesCompleted (refreshETA F s) = ps_FilesCompleted s"
  "ps_Files (refreshETA F s) = ps_Files s" "ps_CurrentFile (refreshETA F s) = ps_CurrentFile s"
  "ps_Phase (refreshETA F s) = ps_Phase s" "ps_LastError (refreshETA F s) = ps_LastError s"
  "ps_Speed (refreshETA F s) = ps_Speed s" "ps_UpdatedAt (refreshETA F s) = ps_UpdatedAt s"
  "ps_TransportRetries (refreshETA F s) = ps_TransportRetries s"
  "ps_RetryCount (refreshETA F s) = ps_RetryCount s"
  "ps_StartedAt (refreshETA F s) = ps_StartedAt s"
  "ps_EngineColdStartMS (refreshETA F s) = ps_EngineColdStartMS s"
  by (simp_all add: refreshETA_def Let_def)

text \<open>Outside the speed, its estimate and the time stamp an update is exactly what its function
  does.\<close>

lemma mgr_Update_state [simp]:
  "ps_BytesTotal (mg_state (mgr_Update F now fn m)) = ps_BytesTotal (fn (mg_state m))"
  "ps_BytesCompleted (mg_state (mgr_Update F now fn m)) = ps_BytesCompleted (fn (mg_state m))"
  "ps_FilesTotal (mg_state (mgr_Update F now fn m)) = ps_FilesTotal (fn (mg_state m))"
  "ps_FilesCompleted (mg_state (mgr_Update F now fn m)) = ps_FilesCompleted (fn (mg_state m))"
  "ps_Files (mg_state (mgr_Update F now fn m)) = ps_Files (fn (mg_state m))"
  "ps_CurrentFile (mg_state (mgr_Update F now fn m)) = ps_CurrentFile (fn (mg_state m))"
  "ps_Phase (mg_state (mgr_Update F now fn m)) = ps_Phase (fn (mg_state m))"
  "ps_LastError (mg_state (mgr_Update F now fn m)) = ps_LastError (fn (mg_state m))"
  "ps_TransportRetries (mg_state (mgr_Update F now fn m)) = ps_TransportRetries (fn (mg_state m))"
  "ps_RetryCount (mg_state (mgr_Update F now fn m)) = ps_RetryCount (fn (mg_state m))"
  "ps_StartedAt (mg_state (mgr_Update F now fn m)) = ps_StartedAt (fn (mg_state m))"
  "ps_EngineColdStartMS (mg_state (mgr_Update F now fn m)) = ps_EngineColdStartMS (fn (mg_state m))"
  by (simp_all add: mgr_Update_def recomputeRate_def Let_def)

lemma mgr_Update_rest [simp]:
  "mg_bytesBudgetActive (mgr_Update F now fn m) = mg_bytesBudgetActive m"
  "mg_filesBudgetActive (mgr_Update F now fn m) = mg_filesBudgetActive m"
  "mg_seenFiles (mgr_Update F now fn m) = mg_seenFiles m"
  "mg_doneFiles (mgr_Update F now fn m) = mg_doneFiles m"
  "mg_rateFilePath (mgr_Update F now fn m) = mg_rateFilePath m"
  "mg_rateFileBytes (mgr_Update F now fn m) = mg_rateFileBytes m"
  by (simp_all add: mgr_Update_def recomputeRate_def Let_def)

lemma note_rate_file_rest [simp]:
  "mg_state (note_rate_file p n m) = mg_state m"
  "mg_bytesBudgetActive (note_rate_file p n m) = mg_bytesBudgetActive m"
  "mg_filesBudgetActive (note_rate_file p n m) = mg_filesBudgetActive m"
  "mg_seenFiles (note_rate_file p n m) = mg_seenFiles m"
  "mg_doneFiles (note_rate_file p n m) = mg_doneFiles m"
  by (simp_all add: note_rate_file_def)

section \<open>Sink events\<close>

datatype sink_event =
    EvFileStart string int | EvBytes int | EvFileBytes string int | EvFileDone string
  | EvFilesTotal int | EvError bool | EvPhase progress_phase | EvCommit string | EvNote string

fun sink_step :: "'f float_ops \<Rightarrow> int \<Rightarrow> sink_event \<Rightarrow> 'f mgr \<Rightarrow> 'f mgr" where
  "sink_step F now (EvFileStart p n) m = OnFileStart F now p n m"
| "sink_step F now (EvBytes d) m = OnBytes F now d m"
| "sink_step F now (EvFileBytes p d) m = OnFileBytes F now p d m"
| "sink_step F now (EvFileDone p) m = OnFileDone F now p m"
| "sink_step F now (EvFilesTotal n) m = OnFilesTotal F now n m"
| "sink_step F now (EvError e) m = OnError F now e m"
| "sink_step F now (EvPhase p) m = OnPhase F now p m"
| "sink_step F now (EvCommit s) m = OnResolvedCommit F now s m"
| "sink_step F now (EvNote t) m = OnNote F now t m"

definition sink_run :: "'f float_ops \<Rightarrow> (int \<times> sink_event) list \<Rightarrow> 'f mgr \<Rightarrow> 'f mgr" where
  "sink_run F evs m = foldl (\<lambda>m (now, ev). sink_step F now ev m) m evs"

lemmas sink_defs = OnFileStart_def OnBytes_def OnFileBytes_def OnFileDone_def OnFilesTotal_def
  OnError_def OnPhase_def OnResolvedCommit_def OnNote_def

section \<open>Which row an event moves\<close>

lemma find_index_Some:
  "find_index P xs = Some i \<Longrightarrow> i < length xs \<and> P (xs ! i)"
  by (auto simp: find_index_def find_Some_iff)

lemma find_index_None: "find_index P xs = None \<longleftrightarrow> (\<forall>x \<in> set xs. \<not> P x)"
  using nth_mem by (fastforce simp: find_index_def find_None_iff in_set_conv_nth)

lemma matchFileIndex_lt: "matchFileIndex files path = Some i \<Longrightarrow> i < length files"
  by (auto simp: matchFileIndex_def dest: find_index_Some split: if_splits option.splits)

section \<open>Row invariant\<close>

definition row_ok :: "file_progress \<Rightarrow> bool" where
  "row_ok f \<longleftrightarrow> 0 \<le> fp_BytesTotal f \<and> 0 \<le> fp_BytesCompleted f \<and>
     (0 < fp_BytesTotal f \<longrightarrow> fp_BytesCompleted f \<le> fp_BytesTotal f)"

definition rows_ok :: "'f pstate \<Rightarrow> bool" where
  "rows_ok st \<longleftrightarrow> (\<forall>f \<in> set (ps_Files st). row_ok f)"

text \<open>The events the row invariant needs nothing more from: a delta for a file that has no row is not
  negative, and a size announced for a row is not below what the row has already counted.\<close>

definition delta_ok :: "file_progress list \<Rightarrow> string \<Rightarrow> int \<Rightarrow> bool" where
  "delta_ok files path d \<longleftrightarrow> path = [] \<or> 0 \<le> d \<or> matchFileIndex files path \<noteq> None"

fun event_ok :: "'f pstate \<Rightarrow> sink_event \<Rightarrow> bool" where
  "event_ok st (EvFileStart p n) =
     (case matchFileIndex (ps_Files st) p of
        None \<Rightarrow> True
      | Some i \<Rightarrow> n \<le> fp_BytesTotal (ps_Files st ! i) \<or> fp_BytesCompleted (ps_Files st ! i) \<le> n)"
| "event_ok st (EvBytes d) = delta_ok (ps_Files st) (ps_CurrentFile st) d"
| "event_ok st (EvFileBytes p d) = delta_ok (ps_Files st) p d"
| "event_ok st _ = True"

lemma rows_ok_update:
  "rows_ok st \<Longrightarrow> row_ok f \<Longrightarrow> rows_ok (st\<lparr>ps_Files := (ps_Files st)[i := f]\<rparr>)"
  unfolding rows_ok_def by (auto dest!: subsetD [OF set_update_subset_insert])

lemma rows_ok_append: "rows_ok st \<Longrightarrow> row_ok f \<Longrightarrow> rows_ok (append_row f g st)"
  by (auto simp: rows_ok_def append_row_def Let_def)

lemma add_row_ok: "row_ok f \<Longrightarrow> row_ok (add_row d f)"
  by (auto simp: row_ok_def add_row_def Let_def)

lemma done_row_ok: "row_ok f \<Longrightarrow> row_ok (done_row f)"
  by (auto simp: row_ok_def done_row_def)

lemma start_row_ok:
  "row_ok f \<Longrightarrow> n \<le> fp_BytesTotal f \<or> fp_BytesCompleted f \<le> n \<Longrightarrow> row_ok (start_row n f)"
  by (auto simp: row_ok_def start_row_def)

lemma clean_row_ok: "row_ok (clean_row f)"
  by (auto simp: row_ok_def clean_row_def Let_def)

lemma rows_ok_nth: "rows_ok st \<Longrightarrow> matchFileIndex (ps_Files st) p = Some i \<Longrightarrow> row_ok (ps_Files st ! i)"
  by (auto simp: rows_ok_def dest: matchFileIndex_lt)

lemma rows_ok_files: "ps_Files st = ps_Files st' \<Longrightarrow> rows_ok st = rows_ok st'"
  by (simp add: rows_ok_def)

lemma markFileStart_ok:
  assumes "rows_ok st" "event_ok st (EvFileStart path n)"
  shows "rows_ok (markFileStart path n g st)"
proof (cases "matchFileIndex (ps_Files st) path")
  case None
  have "rows_ok (st\<lparr>ps_CurrentFile := path\<rparr>)" using assms(1) by (simp add: rows_ok_def)
  then show ?thesis using None assms(1)
    by (auto simp: markFileStart_def Let_def row_ok_def intro!: rows_ok_append)
next
  case (Some i)
  have "row_ok (start_row n (ps_Files st ! i))"
    using assms(2) Some by (intro start_row_ok rows_ok_nth [OF assms(1) Some]) simp
  then show ?thesis using Some assms(1) rows_ok_update [of "st\<lparr>ps_CurrentFile := path\<rparr>"]
    by (simp add: markFileStart_def Let_def rows_ok_def)
qed

lemma start_ok:
  assumes "rows_ok st" "event_ok st (EvFileStart path n)" "ps_Files st' = ps_Files st"
  shows "rows_ok (markFileStart path n g st')"
proof (rule markFileStart_ok)
  show "rows_ok st'" using assms(1,3) by (simp add: rows_ok_def)
  show "event_ok st' (EvFileStart path n)" using assms(2,3) by (simp split: option.splits)
qed

lemma rows_ok_fields [simp]:
  "rows_ok (st\<lparr>ps_BytesTotal := x\<rparr>) = rows_ok st" "rows_ok (st\<lparr>ps_BytesCompleted := x\<rparr>) = rows_ok st"
  "rows_ok (st\<lparr>ps_FilesTotal := x\<rparr>) = rows_ok st" "rows_ok (st\<lparr>ps_CurrentFile := p\<rparr>) = rows_ok st"
  by (simp_all add: rows_ok_def)

lemma addFileBytes_ok:
  assumes "rows_ok st" "delta_ok (ps_Files st) path d"
  shows "rows_ok (addFileBytes path d g st)"
proof (cases "matchFileIndex (ps_Files st) path")
  case None
  then show ?thesis using assms
    by (auto simp: addFileBytes_def row_ok_def delta_ok_def intro!: rows_ok_append)
next
  case (Some i)
  then show ?thesis using assms(1) add_row_ok [OF rows_ok_nth [OF assms(1) Some]]
    by (auto simp: addFileBytes_def intro!: rows_ok_update)
qed

lemma markFileDone_ok:
  assumes "rows_ok st"
  shows "rows_ok (markFileDone path g st)"
proof (cases "matchFileIndex (ps_Files st) path")
  case None
  then show ?thesis using assms by (auto simp: markFileDone_def row_ok_def intro!: rows_ok_append)
next
  case (Some i)
  then show ?thesis using assms done_row_ok [OF rows_ok_nth [OF assms Some]]
    by (auto simp: markFileDone_def intro!: rows_ok_update)
qed

lemma rows_ok_Update [simp]: "rows_ok (mg_state (mgr_Update F now fn m)) = rows_ok (fn (mg_state m))"
  by (simp add: rows_ok_def)

lemma counter_files [simp]:
  "ps_Files (count_done st) = ps_Files st" "ps_Files (clear_current p st) = ps_Files st"
  by (simp_all add: count_done_def clear_current_def Let_def)

lemma rows_ok_counters [simp]:
  "rows_ok (clear_current p st) = rows_ok st" "rows_ok (count_done st) = rows_ok st"
  by (simp_all add: rows_ok_def)

interpretation prog: atomic_write progress_put
proof
  fix io p d
  let ?prep = "\<lambda>fs. io_then (os_mkdir_all io fs) (os_write_file io (tmp_of p) d)"
  show "replaces (progress_put io p d) p d"
  proof (rule replaces_tmp_rename [where prep = ?prep and clean = "os_remove io (tmp_of p)" and io = io])
    fix fs
    show "touches {tmp_of p} (?prep fs) fs" by (intro touches_intros) simp_all
    show "touches {tmp_of p} (None, fs # snd (os_remove io (tmp_of p) fs)) fs"
      by (intro touches_Cons touches_intros) simp
    show "progress_put io p d fs = io_then (?prep fs)
        (\<lambda>fs'. io_or_else (os_rename io (tmp_of p) p fs') (os_remove io (tmp_of p)))"
      by (cases "os_write_file io (tmp_of p) d fs"; cases "fst (os_write_file io (tmp_of p) d fs)")
        (auto simp: progress_put_def io_then_def os_mkdir_all_def check_def
          dest: os_write_file_ok split: prod.split)
    fix tr
    assume "?prep fs = (None, tr)"
    then show "last tr (tmp_of p) = Some d"
      by (cases "os_write_file io (tmp_of p) d fs")
        (auto simp: io_then_def os_mkdir_all_def check_def dest: os_write_file_ok split: if_splits)
  qed
next
  fix p d fs
  show "fst (progress_put fault_free p d fs) = None"
    by (simp add: progress_put_def io_then_def io_or_else_def os_write_file_def os_open_trunc_def
        write_bytes_def os_rename_def os_mkdir_all_def check_def fault_free_def)
qed

section \<open>Counting files\<close>

text \<open>What a pass keeps: the completed count within the total, every row counted while the count is
  not pinned, and a pinned count positive.\<close>

definition counts_ok :: "'f mgr \<Rightarrow> bool" where
  "counts_ok m \<longleftrightarrow>
     0 \<le> ps_FilesCompleted (mg_state m) \<and>
     ps_FilesCompleted (mg_state m) \<le> ps_FilesTotal (mg_state m) \<and>
     (\<not> mg_filesBudgetActive m \<longrightarrow> int (length (ps_Files (mg_state m))) \<le> ps_FilesTotal (mg_state m)) \<and>
     (mg_filesBudgetActive m \<longrightarrow> 0 < ps_FilesTotal (mg_state m))"

lemma append_row_counts [simp]:
  "ps_FilesCompleted (append_row fp g st) = ps_FilesCompleted st"
  "ps_BytesTotal (append_row fp g st) = ps_BytesTotal st"
  "ps_CurrentFile (append_row fp g st) = ps_CurrentFile st"
  "length (ps_Files (append_row fp g st)) = Suc (length (ps_Files st))"
  "ps_FilesTotal (append_row fp g st) =
     (if g then max (ps_FilesTotal st) (int (length (ps_Files st)) + 1) else ps_FilesTotal st)"
  by (auto simp: append_row_def Let_def)

lemma mark_counts [simp]:
  "ps_FilesCompleted (markFileStart p n g st) = ps_FilesCompleted st"
  "ps_FilesCompleted (addFileBytes p d g st) = ps_FilesCompleted st"
  "ps_FilesCompleted (markFileDone p g st) = ps_FilesCompleted st"
  "ps_BytesTotal (markFileStart p n g st) = ps_BytesTotal st"
  "ps_BytesTotal (addFileBytes p d g st) = ps_BytesTotal st"
  "ps_BytesTotal (markFileDone p g st) = ps_BytesTotal st"
  by (simp_all add: markFileStart_def addFileBytes_def markFileDone_def Let_def split: option.split)

lemma mark_total:
  "ps_FilesTotal st \<le> ps_FilesTotal (markFileStart p n g st)"
  "ps_FilesTotal st \<le> ps_FilesTotal (addFileBytes p d g st)"
  "ps_FilesTotal st \<le> ps_FilesTotal (markFileDone p g st)"
  by (simp_all add: markFileStart_def addFileBytes_def markFileDone_def Let_def split: option.split)

lemma mark_rows:
  "int (length (ps_Files st)) \<le> ps_FilesTotal st \<Longrightarrow>
     int (length (ps_Files (markFileStart p n True st))) \<le> ps_FilesTotal (markFileStart p n True st)"
  "int (length (ps_Files st)) \<le> ps_FilesTotal st \<Longrightarrow>
     int (length (ps_Files (addFileBytes p d True st))) \<le> ps_FilesTotal (addFileBytes p d True st)"
  "int (length (ps_Files st)) \<le> ps_FilesTotal st \<Longrightarrow>
     int (length (ps_Files (markFileDone p True st))) \<le> ps_FilesTotal (markFileDone p True st)"
  by (simp_all add: markFileStart_def addFileBytes_def markFileDone_def Let_def le_max_iff_disj split: option.split)

lemma mark_done_row:
  assumes "p \<noteq> []" "ps_Files st = []"
  shows "1 \<le> ps_FilesTotal (markFileDone p True st)"
  using assms by (simp add: markFileDone_def matchFileIndex_def)

lemma clear_current_fields [simp]:
  "ps_FilesTotal (clear_current p st) = ps_FilesTotal st"
  "ps_FilesCompleted (clear_current p st) = ps_FilesCompleted st"
  "ps_BytesTotal (clear_current p st) = ps_BytesTotal st"
  "ps_FilesTotal (count_done st) = ps_FilesTotal st"
  "ps_BytesTotal (count_done st) = ps_BytesTotal st"
  by (simp_all add: clear_current_def count_done_def Let_def)

lemma OnFileDone_counts:
  assumes "counts_ok m" "path \<noteq> []"
  shows "counts_ok (OnFileDone F now path m)"
proof (cases "path \<in> set (mg_doneFiles m)")
  case True
  then show ?thesis using assms by (simp add: OnFileDone_def counts_ok_def)
next
  case False
  let ?st = "count_done (mg_state m)" and ?g = "\<not> mg_filesBudgetActive m"
  let ?st' = "markFileDone path ?g ?st"
  have le: "ps_FilesTotal (mg_state m) \<le> ps_FilesTotal ?st'" using mark_total(3) [of ?st] by simp
  have cnt: "0 \<le> ps_FilesCompleted ?st \<and>
      (0 < ps_FilesTotal (mg_state m) \<longrightarrow> ps_FilesCompleted ?st \<le> ps_FilesTotal (mg_state m)) \<and>
      ps_FilesCompleted ?st \<le> ps_FilesCompleted (mg_state m) + 1"
    using assms(1) by (auto simp: counts_ok_def count_done_def Let_def)
  have bound: "ps_FilesCompleted ?st \<le> ps_FilesTotal ?st'"
  proof (cases "0 < ps_FilesTotal (mg_state m)")
    case True
    then show ?thesis using cnt le by simp
  next
    case pos: False
    then have g: "?g" "ps_FilesCompleted (mg_state m) \<le> 0"
      "int (length (ps_Files (mg_state m))) \<le> ps_FilesTotal (mg_state m)"
      using assms(1) by (auto simp: counts_ok_def)
    with pos have "int (length (ps_Files (mg_state m))) \<le> 0" by linarith
    then have "ps_Files (mg_state m) = []" by simp
    then show ?thesis using mark_done_row [OF assms(2), of ?st] cnt g by simp
  qed
  have rows: "?g \<longrightarrow> int (length (ps_Files ?st')) \<le> ps_FilesTotal ?st'"
    using assms(1) mark_rows(3) [of ?st path] by (auto simp: counts_ok_def)
  show ?thesis
    using False assms le cnt bound rows by (auto simp: OnFileDone_def counts_ok_def Let_def)
qed

text \<open>The events of a pass name the file they are about.\<close>

fun named_event :: "sink_event \<Rightarrow> bool" where
  "named_event (EvFileDone p) = (p \<noteq> [])"
| "named_event ev = True"

lemma grow_counts:
  assumes "counts_ok m" "ps_FilesCompleted st = ps_FilesCompleted (mg_state m)"
    "ps_FilesTotal (mg_state m) \<le> ps_FilesTotal st"
    "\<not> mg_filesBudgetActive m \<Longrightarrow> int (length (ps_Files st)) \<le> ps_FilesTotal st"
    "mg_filesBudgetActive m' = mg_filesBudgetActive m" "mg_state m' = mg_state m" "fn (mg_state m) = st"
  shows "counts_ok (mgr_Update F now fn m')"
  using assms by (auto simp: counts_ok_def)

lemma sink_step_counts:
  assumes "counts_ok m" "named_event ev"
  shows "counts_ok (sink_step F now ev m)"
proof -
  have rows: "\<not> mg_filesBudgetActive m \<Longrightarrow> int (length (ps_Files (mg_state m))) \<le> ps_FilesTotal (mg_state m)"
    using assms(1) by (simp add: counts_ok_def)
  show ?thesis
proof (cases ev)
  case (EvFileStart p n)
  show ?thesis unfolding EvFileStart sink_step.simps OnFileStart_def Let_def
  proof (split if_split, intro conjI impI, goal_cases)
    case 1
    then show ?case using assms(1) by (auto simp: counts_ok_def)
  next
    case 2
    show ?case
      by (rule grow_counts [OF assms(1) _ _ _ _ _ refl])
        (use rows in \<open>auto simp: mark_total(1) intro!: mark_rows(1)
           intro: order_trans [OF _ mark_total(1)]\<close>)
  qed
next
  case (EvBytes d)
  show ?thesis unfolding EvBytes sink_step.simps OnBytes_def Let_def
  proof (split if_split, intro conjI impI, goal_cases)
    case 1
    then show ?case using assms(1) by simp
  next
    case 2
    show ?case
      by (rule grow_counts [OF assms(1) _ _ _ refl refl refl])
        (use rows in \<open>auto intro!: mark_rows(2) intro: order_trans [OF _ mark_total(2)]\<close>)
  qed
next
  case (EvFileBytes p d)
  show ?thesis unfolding EvFileBytes sink_step.simps OnFileBytes_def Let_def
  proof (split if_split, intro conjI impI, goal_cases)
    case 1
    then show ?case using assms(1) by simp
  next
    case 2
    show ?case
      by (rule grow_counts [OF assms(1) _ _ _ refl refl refl])
        (use rows in \<open>auto intro!: mark_rows(2) intro: order_trans [OF _ mark_total(2)]\<close>)
  qed
next
  case (EvFileDone p)
  then show ?thesis using OnFileDone_counts assms by simp
qed (use assms(1) in \<open>auto simp: sink_defs counts_ok_def\<close>)
qed

lemma sink_run_counts:
  "counts_ok m \<Longrightarrow> \<forall>(now, ev) \<in> set evs. named_event ev \<Longrightarrow> counts_ok (sink_run F evs m)"
  unfolding sink_run_def
  by (induction evs arbitrary: m) (auto simp: sink_step_counts)

section \<open>A concrete pass\<close>

definition unit_floats :: "int float_ops" where
  "unit_floats = \<lparr>fl_zero = 0, fl_is_zero = (\<lambda>x. x = 0), fl_le_zero = (\<lambda>x. x \<le> 0),
     fl_rate = (\<lambda>d t. d * 1000000000 div t), fl_ema = (\<lambda>x y. (x + 4 * y) div 5),
     fl_eta = (\<lambda>r v. r div v)\<rparr>"

definition two_files :: "int mgr" where
  "two_files = SeedDownloadFileList unit_floats 0
     [\<lparr>fp_Path = ''w/a.bin'', fp_BytesTotal = 10, fp_BytesCompleted = 0, fp_Status = FileWaiting\<rparr>,
      \<lparr>fp_Path = ''w/b.bin'', fp_BytesTotal = 20, fp_BytesCompleted = 25, fp_Status = FileUnset\<rparr>]
     (SeedDownloadBudget unit_floats 0 30 0 (new_manager unit_floats 0))"

lemma two_files_fields:
  "ps_Files (mg_state two_files) =
     [\<lparr>fp_Path = ''w/a.bin'', fp_BytesTotal = 10, fp_BytesCompleted = 0, fp_Status = FileWaiting\<rparr>,
      \<lparr>fp_Path = ''w/b.bin'', fp_BytesTotal = 20, fp_BytesCompleted = 20, fp_Status = FileWaiting\<rparr>]"
  "ps_FilesTotal (mg_state two_files) = 2" "ps_FilesCompleted (mg_state two_files) = 0"
  "ps_BytesTotal (mg_state two_files) = 30" "mg_filesBudgetActive two_files"
  "mg_bytesBudgetActive two_files"
  by (simp_all add: two_files_def SeedDownloadFileList_def SeedDownloadBudget_def clean_row_def Let_def)

section \<open>Properties\<close>

text \<open>Every file row keeps its counters sane through any sink event: sizes and counts stay
  nonnegative, and a row of known size never counts more than that size.\<close>
theorem rows_stay_within_size:
  assumes "rows_ok (mg_state m)" and "event_ok (mg_state m) ev"
  shows "rows_ok (mg_state (sink_step F now ev m))"
proof (cases ev)
  case (EvFileStart p n)
  then have ok: "event_ok (mg_state m) (EvFileStart p n)" using assms(2) by simp
  show ?thesis using EvFileStart assms(1)
    by (auto simp: OnFileStart_def Let_def simp del: event_ok.simps intro!: start_ok [OF assms(1) ok])
next
  case (EvBytes d)
  then show ?thesis using assms
    by (auto simp: OnBytes_def Let_def intro!: addFileBytes_ok)
next
  case (EvFileBytes p d)
  then show ?thesis using assms
    by (auto simp: OnFileBytes_def Let_def intro!: addFileBytes_ok)
next
  case (EvFileDone p)
  then show ?thesis using assms by (auto simp: OnFileDone_def Let_def intro!: markFileDone_ok)
qed (use assms(1) in \<open>auto simp: sink_defs rows_ok_def\<close>)

theorem rows_stay_within_size_witness:
  "rows_ok (mg_state (sink_step unit_floats 5 (EvFileBytes ''a.bin'' 12) two_files))"
proof (rule rows_stay_within_size)
  show "rows_ok (mg_state two_files)" by (simp add: rows_ok_def row_ok_def two_files_fields)
  show "event_ok (mg_state two_files) (EvFileBytes ''a.bin'' 12)" by (simp add: delta_ok_def)
qed

text \<open>C22: Through any sequence of sink events that name their files, the number of completed files
  stays between zero and the total the dashboard shows, and every row is counted in that total while
  the count is not pinned.\<close>
theorem completed_files_within_total:
  assumes "counts_ok m" and "\<forall>(now, ev) \<in> set evs. named_event ev"
  shows "counts_ok (sink_run F evs m)"
  using sink_run_counts [OF assms] .

theorem completed_files_within_total_witness:
  "counts_ok (sink_run unit_floats [(1, EvFileDone ''w/a.bin''), (2, EvFileDone ''c''), (3, EvFileDone ''d'')]
     two_files)"
  by (rule completed_files_within_total) (simp_all add: counts_ok_def two_files_fields)

text \<open>A pinned byte total is not moved by any sink event, and the file total never shrinks; while
  the file count is pinned only an announced batch size can raise it.\<close>
theorem pinned_budget_is_kept:
  assumes "0 \<le> ps_FilesTotal (mg_state m)"
  shows "(mg_bytesBudgetActive m \<longrightarrow>
      ps_BytesTotal (mg_state (sink_step F now ev m)) = ps_BytesTotal (mg_state m)) \<and>
   ps_FilesTotal (mg_state m) \<le> ps_FilesTotal (mg_state (sink_step F now ev m)) \<and>
   (mg_filesBudgetActive m \<and> (\<nexists>n. ev = EvFilesTotal n) \<longrightarrow>
      ps_FilesTotal (mg_state (sink_step F now ev m)) = ps_FilesTotal (mg_state m)) \<and>
   mg_bytesBudgetActive (sink_step F now ev m) = mg_bytesBudgetActive m \<and>
   mg_filesBudgetActive (sink_step F now ev m) = mg_filesBudgetActive m"
proof -
  have keep: "ps_FilesTotal (markFileStart p n False st) = ps_FilesTotal st"
    "ps_FilesTotal (addFileBytes p n False st) = ps_FilesTotal st"
    "ps_FilesTotal (markFileDone p False st) = ps_FilesTotal st" for p n and st :: "'a pstate"
    by (simp_all add: markFileStart_def addFileBytes_def markFileDone_def Let_def split: option.split)
  have up: "x \<le> ps_FilesTotal st \<Longrightarrow> x \<le> ps_FilesTotal (markFileStart p n g st)"
    "x \<le> ps_FilesTotal st \<Longrightarrow> x \<le> ps_FilesTotal (addFileBytes p n g st)"
    "x \<le> ps_FilesTotal st \<Longrightarrow> x \<le> ps_FilesTotal (markFileDone p g st)" for p n g x and st :: "'a pstate"
    using mark_total order_trans by blast+
  show ?thesis
    using assms by (cases ev) (auto simp: sink_defs Let_def keep intro!: up)
qed

theorem pinned_budget_is_kept_witness:
  "ps_BytesTotal (mg_state (sink_step unit_floats 5 (EvFileStart ''c'' 99) two_files)) = 30"
  using pinned_budget_is_kept [of two_files unit_floats 5 "EvFileStart ''c'' 99"]
  by (simp add: two_files_fields)

text \<open>Reporting the same file done a second time changes no counter and no row.\<close>
theorem file_done_is_idempotent:
  assumes "path \<noteq> []"
  shows "let once = OnFileDone F now path m; twice = OnFileDone F now' path once
    in ps_FilesCompleted (mg_state twice) = ps_FilesCompleted (mg_state once) \<and>
       ps_FilesTotal (mg_state twice) = ps_FilesTotal (mg_state once) \<and>
       ps_Files (mg_state twice) = ps_Files (mg_state once)"
  using assms by (simp add: OnFileDone_def Let_def)

theorem file_done_is_idempotent_witness:
  "ps_FilesCompleted (mg_state (OnFileDone unit_floats 2 ''w/a.bin'' (OnFileDone unit_floats 1 ''w/a.bin'' two_files)))
   = ps_FilesCompleted (mg_state (OnFileDone unit_floats 1 ''w/a.bin'' two_files))"
  using file_done_is_idempotent [of "''w/a.bin''" unit_floats 1 two_files 2] by (simp add: Let_def)

text \<open>Handshake-bound files do not set the speed: within the sampling window nothing moves it, and
  while the open file is known to be small an update keeps it or, when the byte count went back,
  resets it to zero.\<close>
theorem small_files_keep_speed:
  assumes "ps_Speed (fn (mg_state m)) = ps_Speed (mg_state m)"
    and "now - mg_lastSample m < minSampleInterval \<or>
      0 < mg_rateFileBytes m \<and> \<not> fileQualifiesForRate (mg_rateFileBytes m) (ps_BytesTotal (fn (mg_state m)))"
  shows "ps_Speed (mg_state (mgr_Update F now fn m)) \<in> {ps_Speed (mg_state m), fl_zero F} \<and>
    (now - mg_lastSample m < minSampleInterval \<longrightarrow>
       ps_Speed (mg_state (mgr_Update F now fn m)) = ps_Speed (mg_state m) \<and>
       mg_lastSample (mgr_Update F now fn m) = mg_lastSample m)"
  using assms by (auto simp: mgr_Update_def recomputeRate_def rateSampleEligible_def Let_def)

theorem small_files_keep_speed_witness:
  "ps_Speed (mg_state (mgr_Update unit_floats 5 (\<lambda>st. st\<lparr>ps_BytesCompleted := 7\<rparr>) (new_manager unit_floats 0)))
   \<in> {0, 0}"
  using small_files_keep_speed [of "\<lambda>st. st\<lparr>ps_BytesCompleted := 7\<rparr>" "new_manager unit_floats 0" 5 unit_floats]
  by (simp add: new_manager_def initial_pstate_def unit_floats_def minSampleInterval_def)

text \<open>An update reaches every subscriber with room, as its newest frame and behind the frames it
  has not read yet; a full channel keeps its frames and drops this one; no channel holds more than
  eight.\<close>
theorem update_reaches_subscribers:
  assumes "i < length (mg_subs m)" and "\<forall>s \<in> set (mg_subs m). length (snd s) \<le> subBufferSize"
  shows "let m' = mgr_Update F now fn m
    in fst (mg_subs m' ! i) = fst (mg_subs m ! i) \<and>
       snd (mg_subs m' ! i) =
         (if length (snd (mg_subs m ! i)) < subBufferSize
          then snd (mg_subs m ! i) @ [mg_state m'] else snd (mg_subs m ! i)) \<and>
       (\<forall>s \<in> set (mg_subs m'). length (snd s) \<le> subBufferSize)"
proof -
  have subs: "mg_subs (mgr_Update F now fn m) = map (offer (mg_state (mgr_Update F now fn m))) (mg_subs m)"
    by (simp add: mgr_Update_def recomputeRate_def Let_def)
  show ?thesis using assms by (auto simp: Let_def subs offer_def split: prod.splits)
qed

theorem update_reaches_subscribers_witness:
  "snd (mg_subs (mgr_Update unit_floats 5 (\<lambda>st. st\<lparr>ps_Phase := PhaseReady\<rparr>)
      (Subscribe 7 (new_manager unit_floats 0))) ! 0) ! 1 =
   mg_state (mgr_Update unit_floats 5 (\<lambda>st. st\<lparr>ps_Phase := PhaseReady\<rparr>) (Subscribe 7 (new_manager unit_floats 0)))"
  using update_reaches_subscribers [of 0 "Subscribe 7 (new_manager unit_floats 0)" unit_floats 5
      "\<lambda>st. st\<lparr>ps_Phase := PhaseReady\<rparr>"]
  by (simp add: Subscribe_def new_manager_def offer_def subBufferSize_def Let_def)

text \<open>A label always selects the same row: an exact path wins over every other row, otherwise the
  row has the label's base name and a waiting one is preferred; there is no row exactly when no row
  shares the path or the base name.\<close>
theorem matchFileIndex_selects:
  assumes "path \<noteq> []"
  shows "(matchFileIndex files path = None \<longleftrightarrow>
      (\<forall>f \<in> set files. fp_Path f \<noteq> path \<and> fileBase (fp_Path f) \<noteq> fileBase path)) \<and>
    (\<forall>i. matchFileIndex files path = Some i \<longrightarrow> i < length files \<and>
       fileBase (fp_Path (files ! i)) = fileBase path \<and>
       ((\<exists>f \<in> set files. fp_Path f = path) \<longrightarrow> fp_Path (files ! i) = path) \<and>
       ((\<forall>f \<in> set files. fp_Path f \<noteq> path) \<and>
        (\<exists>f \<in> set files. fileBase (fp_Path f) = fileBase path \<and> fp_Status f = FileWaiting) \<longrightarrow>
          fp_Status (files ! i) = FileWaiting))"
  using assms
  by (auto simp: matchFileIndex_def find_index_None dest!: find_index_Some split: option.splits if_splits)

theorem matchFileIndex_selects_witness:
  "matchFileIndex (ps_Files (mg_state two_files)) ''b.bin'' \<noteq> None"
proof -
  have "fileBase ''w/b.bin'' = fileBase ''b.bin''" by code_simp
  then show ?thesis
    using matchFileIndex_selects [of "''b.bin''" "ps_Files (mg_state two_files)"]
    by (simp add: two_files_fields)
qed

text \<open>A saved snapshot loads back: after a \<open>SaveTo\<close> that reports success, \<open>LoadFrom\<close> restores
  the state, without a verify flag that has no time stamp, and restarts the sampling there.\<close>
theorem snapshot_roundtrip:
  assumes "SaveTo io encode p m fs = (None, tr)" and "decode (encode (wire_state (mg_state m))) = Some (wire_state (mg_state m))"
  shows "LoadFrom decode p (last tr) m' = Inr (m'\<lparr>mg_state := wire_state (mg_state m),
    mg_lastBytes := ps_BytesCompleted (mg_state m), mg_lastSample := ps_UpdatedAt (mg_state m)\<rparr>)"
  using prog.put_ok [OF assms(1) [unfolded SaveTo_def]] assms(2)
  by (cases "ps_LastVerifyAt (mg_state m)") (simp_all add: LoadFrom_def wire_state_def Let_def)

theorem snapshot_roundtrip_witness:
  "\<exists>tr. LoadFrom (\<lambda>d. if d = ''{}'' then Some (initial_pstate unit_floats 3) else None) (''/run'', ''p.json'')
     (last tr) (new_manager unit_floats 9) =
   Inr ((new_manager unit_floats 9)\<lparr>mg_state := initial_pstate unit_floats 3, mg_lastBytes := 0, mg_lastSample := 3\<rparr>)"
proof -
  let ?m = "new_manager unit_floats 3"
  have wire: "wire_state (mg_state ?m) = initial_pstate unit_floats 3"
    by (simp add: wire_state_def new_manager_def initial_pstate_def)
  obtain tr where "SaveTo fault_free (\<lambda>s. ''{}'') (''/run'', ''p.json'') ?m (\<lambda>p. None) = (None, tr)"
    unfolding SaveTo_def using prog.put_succeeds by blast
  from snapshot_roundtrip [OF this, of "\<lambda>d. if d = ''{}'' then Some (initial_pstate unit_floats 3) else None"
      "new_manager unit_floats 9"]
  have "LoadFrom (\<lambda>d. if d = ''{}'' then Some (initial_pstate unit_floats 3) else None) (''/run'', ''p.json'')
      (last tr) (new_manager unit_floats 9) =
    Inr ((new_manager unit_floats 9)\<lparr>mg_state := initial_pstate unit_floats 3,
      mg_lastBytes := ps_BytesCompleted (mg_state ?m), mg_lastSample := ps_UpdatedAt (mg_state ?m)\<rparr>)"
    by (simp add: wire)
  moreover have "ps_BytesCompleted (mg_state ?m) = 0" "ps_UpdatedAt (mg_state ?m) = 3"
    by (simp_all add: new_manager_def initial_pstate_def)
  ultimately show ?thesis by (simp only:) (rule exI, assumption)
qed

end
