(* ===== verification/Lifecycle.thy ===== *)
theory Lifecycle
  imports Progress Tracker
begin

text \<open>
  The lifecycle state machine around one model: the manager's state, its wake-up channel and
  \<open>Run\<close>'s waiting (\<open>internal/lifecycle/manager.go\<close>), the health loop (\<open>healthloop.go\<close>), the
  readiness verdict (\<open>readiness.go\<close>) and the writes an ensure pass makes to the shared state
  (\<open>setPhase\<close>, \<open>fail\<close>, \<open>settleFileRows\<close>, \<open>reconcileModelBytes\<close> of \<open>ensure.go\<close>).

  The adapter is another component: what \<open>Ready\<close> answers is an argument of a probe, and
  \<open>RelaunchInFlight\<close> is the answer of that hook, which is \<open>Tracker.Relaunching\<close> when it is wired.
  Clock readings are arguments; durations are nanoseconds. A wake-up channel is a number: channels
  below the current one are closed. The count of engine returns is a \<open>nat\<close> where the code has a
  uint64.
\<close>

section \<open>State\<close>

record ready_state =
  rs_Alive :: bool
  rs_ModelExists :: bool
  rs_ModelBytes :: int

record retry_options =
  ro_Force :: bool
  ro_Level :: string

definition no_retry_options :: retry_options where
  "no_retry_options = \<lparr>ro_Force = False, ro_Level = []\<rparr>"

record lc_options =
  lo_HealthInterval :: int
  lo_EngineDownGrace :: int
  lo_RelaunchProbeInterval :: int
  lo_RetriableBackoff :: int
  lo_AliveBeforeBoot :: bool

record 'f lifecycle =
  lc_progress :: "'f mgr"
  lc_retry :: nat
  lc_pendingOpts :: retry_options
  lc_stopped :: bool
  lc_lastReady :: "ready_state option"
  lc_unhealthySince :: "int option"
  lc_engineReturns :: nat
  lc_relaunchLoading :: bool

definition defaultRelaunchProbeInterval :: int where "defaultRelaunchProbeInterval = 1000000000"
definition defaultEngineDownGrace :: int where "defaultEngineDownGrace = 60000000000"

definition lc_defaults :: "lc_options \<Rightarrow> lc_options" where
  "lc_defaults opts =
     opts\<lparr>lo_HealthInterval := (if lo_HealthInterval opts = 0 then 10000000000 else lo_HealthInterval opts),
       lo_RelaunchProbeInterval :=
         (if lo_RelaunchProbeInterval opts = 0 then defaultRelaunchProbeInterval else lo_RelaunchProbeInterval opts),
       lo_EngineDownGrace :=
         (if lo_EngineDownGrace opts = 0 then defaultEngineDownGrace else lo_EngineDownGrace opts),
       lo_RetriableBackoff :=
         (if lo_RetriableBackoff opts = 0 then 30000000000 else lo_RetriableBackoff opts)\<rparr>"

definition new_lifecycle :: "'f mgr \<Rightarrow> 'f lifecycle" where
  "new_lifecycle p =
     \<lparr>lc_progress = p, lc_retry = 0, lc_pendingOpts = no_retry_options, lc_stopped = False,
      lc_lastReady = None, lc_unhealthySince = None, lc_engineReturns = 0, lc_relaunchLoading = False\<rparr>"

definition upd :: "'f float_ops \<Rightarrow> int \<Rightarrow> ('f pstate \<Rightarrow> 'f pstate) \<Rightarrow> 'f lifecycle \<Rightarrow> 'f lifecycle" where
  "upd F now fn l = l\<lparr>lc_progress := mgr_Update F now fn (lc_progress l)\<rparr>"

definition cur_phase :: "'f lifecycle \<Rightarrow> progress_phase" where
  "cur_phase l = ps_Phase (mg_state (lc_progress l))"

section \<open>The wake-up channel (manager.go)\<close>

definition wakeLocked :: "'f lifecycle \<Rightarrow> 'f lifecycle" where
  "wakeLocked l = l\<lparr>lc_retry := Suc (lc_retry l)\<rparr>"

definition RetryWith :: "retry_options \<Rightarrow> 'f lifecycle \<Rightarrow> 'f lifecycle" where
  "RetryWith opts l = wakeLocked (l\<lparr>lc_pendingOpts := opts\<rparr>)"

definition Retry :: "'f lifecycle \<Rightarrow> 'f lifecycle" where
  "Retry l = RetryWith no_retry_options l"

definition requestReensure :: "'f lifecycle \<Rightarrow> 'f lifecycle" where
  "requestReensure l = wakeLocked l"

definition consumePendingOpts :: "'f lifecycle \<Rightarrow> retry_options \<times> 'f lifecycle" where
  "consumePendingOpts l = (lc_pendingOpts l, l\<lparr>lc_pendingOpts := no_retry_options\<rparr>)"

definition Stop :: "'f lifecycle \<Rightarrow> 'f lifecycle" where
  "Stop l = l\<lparr>lc_stopped := True\<rparr>"

text \<open>\<open>waitForRetryOrCtx\<close> takes the channel that is current when it starts, and is woken by the
  closing of that one.\<close>

definition wait_channel :: "'f lifecycle \<Rightarrow> nat" where
  "wait_channel l = lc_retry l"

definition woken :: "nat \<Rightarrow> 'f lifecycle \<Rightarrow> bool" where
  "woken ch l \<longleftrightarrow> ch < lc_retry l"

section \<open>What a pass writes (ensure.go)\<close>

definition settle_row :: "file_progress \<Rightarrow> file_progress" where
  "settle_row f = done_row f"

definition settleFileRows :: "'f pstate \<Rightarrow> 'f pstate" where
  "settleFileRows s =
     (let files = map settle_row (ps_Files s);
          tot = (if int (length files) > ps_FilesTotal s then int (length files) else ps_FilesTotal s)
      in s\<lparr>ps_Files := files, ps_FilesTotal := tot, ps_FilesCompleted := tot\<rparr>)"

definition phase_write :: "'f float_ops \<Rightarrow> int \<Rightarrow> progress_phase \<Rightarrow> 'f pstate \<Rightarrow> 'f pstate" where
  "phase_write F now p s0 =
     (let s = s0\<lparr>ps_Phase := p\<rparr>
      in case p of
           PhaseDownload \<Rightarrow>
             s\<lparr>ps_BytesTotal := 0, ps_BytesCompleted := 0, ps_Speed := fl_zero F, ps_ETASeconds := 0,
               ps_FilesTotal := 0, ps_FilesCompleted := 0, ps_CurrentFile := [], ps_Files := [],
               ps_LastError := []\<rparr>
         | PhaseLoading \<Rightarrow> settleFileRows s
         | PhaseReady \<Rightarrow>
             (let s = s\<lparr>ps_LastError := []\<rparr>
              in case ps_EngineColdStartMS s of
                   None \<Rightarrow> s\<lparr>ps_EngineColdStartMS :=
                     Some (let ms = go_quot (now - ps_StartedAt s) 1000000 in if ms < 0 then 0 else ms)\<rparr>
                 | Some _ \<Rightarrow> s)
         | _ \<Rightarrow> s)"

text \<open>\<open>now\<close> is \<open>NowFunc\<close>, \<open>now'\<close> the clock inside \<open>Update\<close>.\<close>

definition setPhase :: "'f float_ops \<Rightarrow> int \<Rightarrow> int \<Rightarrow> progress_phase \<Rightarrow> 'f lifecycle \<Rightarrow> 'f lifecycle" where
  "setPhase F now now' p l =
     (let l = upd F now' (phase_write F now p) l
      in if p = PhaseDownload then l\<lparr>lc_progress := ClearDownloadBudget (lc_progress l)\<rparr> else l)"

datatype pass_error = PassRetriable string | PassPermanent string

definition pass_fail ::
  "'f float_ops \<Rightarrow> int \<Rightarrow> string \<Rightarrow> bool \<Rightarrow> 'f lifecycle \<Rightarrow> pass_error \<times> 'f lifecycle" where
  "pass_fail F now msg retriable l =
     (if retriable then PassRetriable msg else PassPermanent msg,
      upd F now (\<lambda>s. s\<lparr>ps_Phase := (if retriable then PhaseDegraded else PhaseFailed),
        ps_LastError := msg, ps_RetryCount := ps_RetryCount s + 1\<rparr>) l)"

text \<open>\<open>onDiskSize\<close> of each path is given.\<close>

definition reconcileModelBytes :: "'f float_ops \<Rightarrow> int \<Rightarrow> (string \<times> int) list \<Rightarrow> 'f lifecycle \<Rightarrow> 'f lifecycle" where
  "reconcileModelBytes F now paths l =
     (let tot0 = foldl (\<lambda>a (p, n). if p = [] then a else wrap64 (a + n)) 0 paths
      in upd F now (\<lambda>s.
           let tot = (if ps_BytesTotal s > tot0 then ps_BytesTotal s else tot0)
           in if tot > 0 then s\<lparr>ps_BytesTotal := tot, ps_BytesCompleted := tot\<rparr> else s) l)"

definition setModelBytes :: "'f float_ops \<Rightarrow> int \<Rightarrow> int \<Rightarrow> 'f lifecycle \<Rightarrow> 'f lifecycle" where
  "setModelBytes F now tot l =
     (if tot \<le> 0 then l else upd F now (\<lambda>s. s\<lparr>ps_BytesTotal := tot, ps_BytesCompleted := tot\<rparr>) l)"

text \<open>The first lines of \<open>ensure\<close>.\<close>

definition begin_pass :: "'f lifecycle \<Rightarrow> retry_options \<times> 'f lifecycle" where
  "begin_pass l = (case consumePendingOpts l of (opts, l) \<Rightarrow> (opts, l\<lparr>lc_relaunchLoading := False\<rparr>))"

section \<open>The health loop (healthloop.go)\<close>

definition engineDownGrace :: "lc_options \<Rightarrow> int" where
  "engineDownGrace opts = (if lo_EngineDownGrace opts > 0 then lo_EngineDownGrace opts else defaultEngineDownGrace)"

text \<open>\<open>None\<close> is a nil hook.\<close>

definition in_flight :: "bool option \<Rightarrow> bool" where
  "in_flight hook = (hook = Some True)"

definition probeInterval :: "lc_options \<Rightarrow> bool option \<Rightarrow> int" where
  "probeInterval opts hook =
     (if \<not> in_flight hook then lo_HealthInterval opts
      else let d = lo_RelaunchProbeInterval opts
        in if d > 0 \<and> d < lo_HealthInterval opts then d else lo_HealthInterval opts)"

definition ownsRelaunchLoading :: "'f lifecycle \<Rightarrow> progress_phase \<Rightarrow> bool" where
  "ownsRelaunchLoading l p \<longleftrightarrow> p = PhaseLoading \<and> lc_relaunchLoading l"

definition reasonFor :: "string option \<Rightarrow> string" where
  "reasonFor err =
     (case err of
        Some e \<Rightarrow> ''engine health probe failed: '' @ e
      | None \<Rightarrow> ''engine health probe reports the model is not being served'')"

definition markEngineRelaunching ::
  "'f float_ops \<Rightarrow> int \<Rightarrow> bool option \<Rightarrow> 'f lifecycle \<Rightarrow> bool \<times> 'f lifecycle" where
  "markEngineRelaunching F now hook l =
     (if \<not> in_flight hook then (False, l)
      else let moved = (cur_phase l = PhaseReady);
               l = upd F now (\<lambda>s. if ps_Phase s \<noteq> PhaseReady then s else s\<lparr>ps_Phase := PhaseLoading\<rparr>) l
        in (moved, if moved then l\<lparr>lc_relaunchLoading := True\<rparr> else l))"

definition markEngineDown :: "'f float_ops \<Rightarrow> int \<Rightarrow> string \<Rightarrow> 'f lifecycle \<Rightarrow> bool \<times> 'f lifecycle" where
  "markEngineDown F now reason l0 =
     (let l = (case lc_lastReady l0 of
                 None \<Rightarrow> l0\<lparr>lc_lastReady := Some \<lparr>rs_Alive = False, rs_ModelExists = False, rs_ModelBytes = 0\<rparr>\<rparr>
               | Some prev \<Rightarrow>
                   if rs_Alive prev
                   then l0\<lparr>lc_lastReady := Some \<lparr>rs_Alive = False,
                          rs_ModelExists = rs_ModelExists prev, rs_ModelBytes = 0\<rparr>\<rparr>
                   else l0);
          moved = (cur_phase l = PhaseReady \<or> ownsRelaunchLoading l (cur_phase l));
          l' = upd F now (\<lambda>s. if ps_Phase s \<noteq> PhaseReady \<and> \<not> ownsRelaunchLoading l (ps_Phase s) then s
                 else s\<lparr>ps_Phase := PhaseDegraded, ps_LastError := reason\<rparr>) l
      in (moved, if moved then l'\<lparr>lc_relaunchLoading := False\<rparr> else l'))"

definition recoverFromEngineOutage :: "'f float_ops \<Rightarrow> int \<Rightarrow> 'f lifecycle \<Rightarrow> 'f lifecycle" where
  "recoverFromEngineOutage F now l =
     (let moved = (cur_phase l = PhaseDegraded \<or> ownsRelaunchLoading l (cur_phase l));
          l' = upd F now (\<lambda>s. if ps_Phase s \<noteq> PhaseDegraded \<and> \<not> ownsRelaunchLoading l (ps_Phase s) then s
                 else s\<lparr>ps_Phase := PhaseReady, ps_LastError := []\<rparr>) l
      in if moved then l'\<lparr>lc_relaunchLoading := False\<rparr> else l')"

definition probe_healthy :: "string + ready_state \<Rightarrow> bool" where
  "probe_healthy answer = (case answer of Inl _ \<Rightarrow> False | Inr rs \<Rightarrow> rs_Alive rs \<and> rs_ModelExists rs)"

text \<open>One probe: \<open>cancelled\<close> is the parent context, \<open>answer\<close> what \<open>Ready\<close> returned, \<open>now\<close> the clock of
  the loop and \<open>t\<close> the clock inside the updates.\<close>

definition probeAndPublish ::
  "'f float_ops \<Rightarrow> lc_options \<Rightarrow> bool \<Rightarrow> string + ready_state \<Rightarrow> bool option \<Rightarrow> int \<Rightarrow> int \<Rightarrow>
   'f lifecycle \<Rightarrow> 'f lifecycle" where
  "probeAndPublish F opts cancelled answer hook now t l0 =
     (if cancelled then l0
      else let l1 = (case answer of Inl _ \<Rightarrow> l0 | Inr rs \<Rightarrow> l0\<lparr>lc_lastReady := Some rs\<rparr>)
        in if probe_healthy answer then
             (let l2 = (if lc_unhealthySince l1 \<noteq> None
                        then l1\<lparr>lc_unhealthySince := None, lc_engineReturns := Suc (lc_engineReturns l1)\<rparr>
                        else l1)
              in recoverFromEngineOutage F t l2)
           else
             let since = (case lc_unhealthySince l1 of None \<Rightarrow> now | Some s \<Rightarrow> s);
                 l2 = l1\<lparr>lc_unhealthySince := Some since\<rparr>;
                 l3 = snd (markEngineRelaunching F t hook l2)
             in if now - since < engineDownGrace opts then l3
                else case markEngineDown F t (reasonFor (case answer of Inl e \<Rightarrow> Some e | Inr _ \<Rightarrow> None)) l3 of
                       (moved, l4) \<Rightarrow>
                         if \<not> moved then l4
                         else (case answer of
                                 Inl _ \<Rightarrow> l4
                               | Inr rs \<Rightarrow>
                                   if rs_Alive rs \<and> \<not> rs_ModelExists rs \<and> lo_AliveBeforeBoot opts
                                   then requestReensure l4 else l4))"

section \<open>The main loop (manager.go)\<close>

text \<open>What a pass returned, and what \<open>WaitAlive\<close> did: \<open>Cancelled\<close> is the context's error.\<close>

datatype pass_result = PassOk | PassError pass_error | PassCancelled
datatype alive_result = Alive | NeverAlive string | AliveCancelled string

text \<open>How an iteration of \<open>Run\<close> ends: it returns, or it waits for a signal, at most so long (zero: no
  timer).\<close>

datatype run_end = RunReturns | RunWaits int

definition never_alive :: "'f float_ops \<Rightarrow> int \<Rightarrow> string \<Rightarrow> 'f lifecycle \<Rightarrow> 'f lifecycle" where
  "never_alive F now msg l =
     upd F now (\<lambda>s. s\<lparr>ps_Phase := PhaseFailed, ps_LastError := ''engine never came alive: '' @ msg\<rparr>) l"

text \<open>\<open>Run\<close> before its loop, for an engine that is alive before boot.\<close>

definition run_start :: "'f float_ops \<Rightarrow> int \<Rightarrow> lc_options \<Rightarrow> alive_result \<Rightarrow> 'f lifecycle \<Rightarrow> bool \<times> 'f lifecycle" where
  "run_start F now opts alive l =
     (if lc_stopped l then (False, l)
      else if \<not> lo_AliveBeforeBoot opts then (True, l)
      else case alive of
        Alive \<Rightarrow> (True, l)
      | NeverAlive msg \<Rightarrow> (False, never_alive F now msg l)
      | AliveCancelled msg \<Rightarrow> (False, never_alive F now msg l))"

definition run_iteration ::
  "'f float_ops \<Rightarrow> lc_options \<Rightarrow> pass_result \<Rightarrow> alive_result \<Rightarrow> string + ready_state \<Rightarrow> int \<Rightarrow> int \<Rightarrow>
   'f lifecycle \<Rightarrow> run_end \<times> 'f lifecycle" where
  "run_iteration F opts pass alive answer now now' l =
     (case pass of
        PassOk \<Rightarrow>
          if lo_AliveBeforeBoot opts then (RunWaits 0, l)
          else (case alive of
                  AliveCancelled _ \<Rightarrow> (RunReturns, l)
                | NeverAlive msg \<Rightarrow> (RunWaits 0, never_alive F now' msg l)
                | Alive \<Rightarrow>
                    (let l = (case answer of Inl _ \<Rightarrow> l | Inr rs \<Rightarrow> l\<lparr>lc_lastReady := Some rs\<rparr>)
                     in (RunWaits 0, setPhase F now now' PhaseReady l)))
      | PassCancelled \<Rightarrow> (RunReturns, l)
      | PassError (PassRetriable _) \<Rightarrow> (RunWaits (lo_RetriableBackoff opts), l)
      | PassError (PassPermanent _) \<Rightarrow> (RunWaits 0, l))"

section \<open>The verdict (readiness.go)\<close>

record readiness =
  rd_Phase :: progress_phase
  rd_EngineAlive :: bool
  rd_ModelExists :: bool
  rd_Ready :: bool
  rd_Reason :: string

definition Readiness :: "'f lifecycle \<Rightarrow> readiness" where
  "Readiness l =
     (let snap = mg_state (lc_progress l);
          alive = (case lc_lastReady l of None \<Rightarrow> False | Some rs \<Rightarrow> rs_Alive rs);
          ex = (case lc_lastReady l of None \<Rightarrow> False | Some rs \<Rightarrow> rs_ModelExists rs);
          rdy = (ps_Phase snap = PhaseReady \<and> alive \<and> ex)
      in \<lparr>rd_Phase = ps_Phase snap, rd_EngineAlive = alive, rd_ModelExists = ex, rd_Ready = rdy,
          rd_Reason =
            (if rdy then []
             else if ps_LastError snap \<noteq> [] then ps_LastError snap
             else if \<not> alive then ''engine_not_alive''
             else if \<not> ex then ''model_missing''
             else ''phase != ready'')\<rparr>)"

definition lifecycle_Ready :: "'f lifecycle \<Rightarrow> bool" where
  "lifecycle_Ready l = rd_Ready (Readiness l)"

section \<open>The loop and the passes as sequences\<close>

record probe =
  pr_cancelled :: bool
  pr_answer :: "string + ready_state"
  pr_hook :: "bool option"
  pr_now :: int
  pr_at :: int

definition probe_step :: "'f float_ops \<Rightarrow> lc_options \<Rightarrow> probe \<Rightarrow> 'f lifecycle \<Rightarrow> 'f lifecycle" where
  "probe_step F opts p =
     probeAndPublish F opts (pr_cancelled p) (pr_answer p) (pr_hook p) (pr_now p) (pr_at p)"

text \<open>\<open>healthLoop\<close>: the first probe is immediate, then one per wait.\<close>

definition health_run :: "'f float_ops \<Rightarrow> lc_options \<Rightarrow> probe list \<Rightarrow> 'f lifecycle \<Rightarrow> 'f lifecycle" where
  "health_run F opts = fold (probe_step F opts)"

definition live_probes :: "probe list \<Rightarrow> probe list" where
  "live_probes = filter (\<lambda>p. \<not> pr_cancelled p)"

datatype signal = Operator retry_options | Reensure | Consume

fun signal_step :: "signal \<Rightarrow> 'f lifecycle \<Rightarrow> 'f lifecycle" where
  "signal_step (Operator opts) l = RetryWith opts l"
| "signal_step Reensure l = requestReensure l"
| "signal_step Consume l = snd (consumePendingOpts l)"

definition signal_run :: "signal list \<Rightarrow> 'f lifecycle \<Rightarrow> 'f lifecycle" where
  "signal_run = fold signal_step"

section \<open>Field lemmas\<close>

abbreviation cur_error :: "'f lifecycle \<Rightarrow> string" where
  "cur_error l \<equiv> ps_LastError (mg_state (lc_progress l))"

lemma upd_fields [simp]:
  "lc_retry (upd F now fn l) = lc_retry l" "lc_pendingOpts (upd F now fn l) = lc_pendingOpts l"
  "lc_stopped (upd F now fn l) = lc_stopped l" "lc_lastReady (upd F now fn l) = lc_lastReady l"
  "lc_unhealthySince (upd F now fn l) = lc_unhealthySince l"
  "lc_engineReturns (upd F now fn l) = lc_engineReturns l"
  "lc_relaunchLoading (upd F now fn l) = lc_relaunchLoading l"
  "lc_progress (upd F now fn l) = mgr_Update F now fn (lc_progress l)"
  by (simp_all add: upd_def)

lemma cur_phase_upd [simp]: "cur_phase (upd F now fn l) = ps_Phase (fn (mg_state (lc_progress l)))"
  by (simp add: cur_phase_def)

lemma cur_phase_rest [simp]:
  "cur_phase (l\<lparr>lc_retry := a\<rparr>) = cur_phase l" "cur_phase (l\<lparr>lc_pendingOpts := b\<rparr>) = cur_phase l"
  "cur_phase (l\<lparr>lc_lastReady := c\<rparr>) = cur_phase l" "cur_phase (l\<lparr>lc_unhealthySince := d\<rparr>) = cur_phase l"
  "cur_phase (l\<lparr>lc_engineReturns := e\<rparr>) = cur_phase l" "cur_phase (l\<lparr>lc_relaunchLoading := r\<rparr>) = cur_phase l"
  by (simp_all add: cur_phase_def)

lemma requestReensure_fields [simp]:
  "lc_progress (requestReensure l) = lc_progress l" "cur_phase (requestReensure l) = cur_phase l"
  "lc_unhealthySince (requestReensure l) = lc_unhealthySince l"
  "lc_relaunchLoading (requestReensure l) = lc_relaunchLoading l"
  "lc_pendingOpts (requestReensure l) = lc_pendingOpts l"
  "lc_lastReady (requestReensure l) = lc_lastReady l"
  "lc_retry (requestReensure l) = Suc (lc_retry l)"
  by (simp_all add: requestReensure_def wakeLocked_def cur_phase_def)

text \<open>What each of the loop's three writers does to the fields the properties read.\<close>

lemma markEngineRelaunching_eqs:
  "cur_phase (snd (markEngineRelaunching F t hook l)) =
     (if in_flight hook \<and> cur_phase l = PhaseReady then PhaseLoading else cur_phase l)"
  "cur_error (snd (markEngineRelaunching F t hook l)) = cur_error l"
  "lc_relaunchLoading (snd (markEngineRelaunching F t hook l)) =
     (in_flight hook \<and> cur_phase l = PhaseReady \<or> lc_relaunchLoading l)"
  "lc_unhealthySince (snd (markEngineRelaunching F t hook l)) = lc_unhealthySince l"
  "lc_lastReady (snd (markEngineRelaunching F t hook l)) = lc_lastReady l"
  "lc_retry (snd (markEngineRelaunching F t hook l)) = lc_retry l"
  "lc_pendingOpts (snd (markEngineRelaunching F t hook l)) = lc_pendingOpts l"
  by (auto simp: markEngineRelaunching_def Let_def cur_phase_def)

definition owned_by_loop :: "'f lifecycle \<Rightarrow> bool" where
  "owned_by_loop l \<longleftrightarrow> cur_phase l = PhaseReady \<or> ownsRelaunchLoading l (cur_phase l)"

lemma markEngineDown_eqs:
  "fst (markEngineDown F t reason l) = owned_by_loop l"
  "cur_phase (snd (markEngineDown F t reason l)) =
     (if owned_by_loop l then PhaseDegraded else cur_phase l)"
  "cur_error (snd (markEngineDown F t reason l)) = (if owned_by_loop l then reason else cur_error l)"
  "lc_relaunchLoading (snd (markEngineDown F t reason l)) = (lc_relaunchLoading l \<and> \<not> owned_by_loop l)"
  "lc_unhealthySince (snd (markEngineDown F t reason l)) = lc_unhealthySince l"
  "lc_retry (snd (markEngineDown F t reason l)) = lc_retry l"
  "lc_pendingOpts (snd (markEngineDown F t reason l)) = lc_pendingOpts l"
  "(case lc_lastReady (snd (markEngineDown F t reason l)) of None \<Rightarrow> False | Some rs \<Rightarrow> \<not> rs_Alive rs)"
  by (auto simp: markEngineDown_def Let_def owned_by_loop_def ownsRelaunchLoading_def cur_phase_def
      split: option.splits)

lemma recover_eqs:
  "cur_phase (recoverFromEngineOutage F t l) =
     (if cur_phase l = PhaseDegraded \<or> ownsRelaunchLoading l (cur_phase l) then PhaseReady else cur_phase l)"
  "cur_error (recoverFromEngineOutage F t l) =
     (if cur_phase l = PhaseDegraded \<or> ownsRelaunchLoading l (cur_phase l) then [] else cur_error l)"
  "lc_relaunchLoading (recoverFromEngineOutage F t l) =
     (lc_relaunchLoading l \<and> \<not> (cur_phase l = PhaseDegraded \<or> ownsRelaunchLoading l (cur_phase l)))"
  "lc_unhealthySince (recoverFromEngineOutage F t l) = lc_unhealthySince l"
  "lc_lastReady (recoverFromEngineOutage F t l) = lc_lastReady l"
  "lc_retry (recoverFromEngineOutage F t l) = lc_retry l"
  "lc_pendingOpts (recoverFromEngineOutage F t l) = lc_pendingOpts l"
  by (auto simp: recoverFromEngineOutage_def Let_def ownsRelaunchLoading_def cur_phase_def)

lemmas loop_writers = markEngineRelaunching_eqs markEngineDown_eqs recover_eqs

text \<open>One live probe: a healthy one, a failing one inside the grace, a failing one past it.\<close>

definition failing_since :: "probe \<Rightarrow> 'f lifecycle \<Rightarrow> int" where
  "failing_since p l = (case lc_unhealthySince l of None \<Rightarrow> pr_now p | Some t \<Rightarrow> t)"

definition cached_answer :: "probe \<Rightarrow> 'f lifecycle \<Rightarrow> ready_state option" where
  "cached_answer p l = (case pr_answer p of Inl _ \<Rightarrow> lc_lastReady l | Inr rs \<Rightarrow> Some rs)"

lemma probe_cancelled: "pr_cancelled p \<Longrightarrow> probe_step F opts p l = l"
  by (simp add: probe_step_def probeAndPublish_def)

lemma probe_up:
  assumes "\<not> pr_cancelled p" "probe_healthy (pr_answer p)"
  shows "cur_phase (probe_step F opts p l) =
      (if cur_phase l = PhaseDegraded \<or> ownsRelaunchLoading l (cur_phase l) then PhaseReady else cur_phase l)"
    "cur_error (probe_step F opts p l) =
      (if cur_phase l = PhaseDegraded \<or> ownsRelaunchLoading l (cur_phase l) then [] else cur_error l)"
    "lc_unhealthySince (probe_step F opts p l) = None"
    "lc_retry (probe_step F opts p l) = lc_retry l"
    "lc_pendingOpts (probe_step F opts p l) = lc_pendingOpts l"
    "lc_lastReady (probe_step F opts p l) = cached_answer p l"
    "lc_relaunchLoading (probe_step F opts p l) =
      (lc_relaunchLoading l \<and> \<not> (cur_phase l = PhaseDegraded \<or> ownsRelaunchLoading l (cur_phase l)))"
  using assms
  by (auto simp: probe_step_def probeAndPublish_def Let_def loop_writers ownsRelaunchLoading_def
      cached_answer_def split: sum.splits)

definition past_grace :: "lc_options \<Rightarrow> probe \<Rightarrow> 'f lifecycle \<Rightarrow> bool" where
  "past_grace opts p l \<longleftrightarrow> engineDownGrace opts \<le> pr_now p - failing_since p l"

lemma probe_down:
  assumes "\<not> pr_cancelled p" "\<not> probe_healthy (pr_answer p)"
  shows "cur_phase (probe_step F opts p l) =
      (if owned_by_loop l
       then if past_grace opts p l then PhaseDegraded
            else if in_flight (pr_hook p) then PhaseLoading else cur_phase l
       else cur_phase l)"
    "cur_error (probe_step F opts p l) =
      (if owned_by_loop l \<and> past_grace opts p l
       then reasonFor (case pr_answer p of Inl e \<Rightarrow> Some e | Inr _ \<Rightarrow> None) else cur_error l)"
    "lc_unhealthySince (probe_step F opts p l) = Some (failing_since p l)"
    "lc_retry (probe_step F opts p l) =
      (case pr_answer p of
         Inl _ \<Rightarrow> lc_retry l
       | Inr rs \<Rightarrow>
           if owned_by_loop l \<and> past_grace opts p l \<and> rs_Alive rs \<and> \<not> rs_ModelExists rs \<and>
              lo_AliveBeforeBoot opts
           then Suc (lc_retry l) else lc_retry l)"
    "lc_pendingOpts (probe_step F opts p l) = lc_pendingOpts l"
    "lc_relaunchLoading (probe_step F opts p l) =
      (if owned_by_loop l
       then \<not> past_grace opts p l \<and> (in_flight (pr_hook p) \<or> lc_relaunchLoading l)
       else lc_relaunchLoading l)"
proof -
  have o: "owned_by_loop (l\<lparr>lc_lastReady := x, lc_unhealthySince := y\<rparr>) = owned_by_loop l"
    "owned_by_loop (l\<lparr>lc_unhealthySince := y\<rparr>) = owned_by_loop l" for x y
    by (simp_all add: owned_by_loop_def ownsRelaunchLoading_def)
  have m: "owned_by_loop (snd (markEngineRelaunching F t hook k)) = owned_by_loop k" for t hook and k :: "'a lifecycle"
    by (auto simp: owned_by_loop_def ownsRelaunchLoading_def markEngineRelaunching_eqs)
  have s: "(case lc_unhealthySince l of None \<Rightarrow> pr_now p | Some t \<Rightarrow> t) = failing_since p l"
    by (simp add: failing_since_def)
  show "cur_phase (probe_step F opts p l) =
      (if owned_by_loop l
       then if past_grace opts p l then PhaseDegraded
            else if in_flight (pr_hook p) then PhaseLoading else cur_phase l
       else cur_phase l)"
    using assms
    by (auto simp: probe_step_def probeAndPublish_def Let_def loop_writers o m s past_grace_def not_less
        case_prod_beta owned_by_loop_def ownsRelaunchLoading_def split: sum.splits)
  show "cur_error (probe_step F opts p l) =
      (if owned_by_loop l \<and> past_grace opts p l
       then reasonFor (case pr_answer p of Inl e \<Rightarrow> Some e | Inr _ \<Rightarrow> None) else cur_error l)"
    using assms
    by (auto simp: probe_step_def probeAndPublish_def Let_def loop_writers o m s past_grace_def not_less
        case_prod_beta split: sum.splits)
  show "lc_unhealthySince (probe_step F opts p l) = Some (failing_since p l)"
    using assms
    by (auto simp: probe_step_def probeAndPublish_def Let_def loop_writers o m s
        case_prod_beta split: sum.splits)
  show "lc_retry (probe_step F opts p l) =
      (case pr_answer p of
         Inl _ \<Rightarrow> lc_retry l
       | Inr rs \<Rightarrow>
           if owned_by_loop l \<and> past_grace opts p l \<and> rs_Alive rs \<and> \<not> rs_ModelExists rs \<and>
              lo_AliveBeforeBoot opts
           then Suc (lc_retry l) else lc_retry l)"
    using assms
    by (auto simp: probe_step_def probeAndPublish_def Let_def loop_writers o m s past_grace_def not_less
        case_prod_beta split: sum.splits)
  show "lc_pendingOpts (probe_step F opts p l) = lc_pendingOpts l"
    using assms
    by (auto simp: probe_step_def probeAndPublish_def Let_def loop_writers case_prod_beta
        split: sum.splits)
  show "lc_relaunchLoading (probe_step F opts p l) =
      (if owned_by_loop l
       then \<not> past_grace opts p l \<and> (in_flight (pr_hook p) \<or> lc_relaunchLoading l)
       else lc_relaunchLoading l)"
    using assms
    by (auto simp: probe_step_def probeAndPublish_def Let_def loop_writers o m s past_grace_def not_less
        case_prod_beta owned_by_loop_def ownsRelaunchLoading_def split: sum.splits)
qed

section \<open>A writer that keeps to its own phases\<close>

text \<open>Two goroutines write the phase. The contract that keeps them apart: a state the writer does
  not own it neither changes nor takes over.\<close>

locale phase_writer =
  fixes step :: "'e \<Rightarrow> 's \<Rightarrow> 's"
    and owns :: "'s \<Rightarrow> bool"
    and view :: "'s \<Rightarrow> 'v"
  assumes foreign_kept: "\<not> owns s \<Longrightarrow> view (step e s) = view s"
    and not_taken: "\<not> owns s \<Longrightarrow> \<not> owns (step e s)"
begin

lemma run_foreign: "\<not> owns s \<Longrightarrow> view (fold step es s) = view s \<and> \<not> owns (fold step es s)"
  by (induction es arbitrary: s) (simp_all add: foreign_kept not_taken)

lemmas run_keeps = run_foreign [THEN conjunct1]

end

definition loop_may_write :: "'f lifecycle \<Rightarrow> bool" where
  "loop_may_write l \<longleftrightarrow> owned_by_loop l \<or> cur_phase l = PhaseDegraded"

definition phase_view :: "'f lifecycle \<Rightarrow> progress_phase \<times> string \<times> bool \<times> retry_options \<times> nat" where
  "phase_view l = (cur_phase l, cur_error l, lc_relaunchLoading l, lc_pendingOpts l, lc_retry l)"

lemma probe_foreign:
  assumes "\<not> loop_may_write l"
  shows "phase_view (probe_step F opts p l) = phase_view l"
proof (cases "pr_cancelled p")
  case True
  then show ?thesis by (simp add: probe_cancelled)
next
  case live: False
  from assms have n: "\<not> owned_by_loop l" "cur_phase l \<noteq> PhaseDegraded" "\<not> ownsRelaunchLoading l (cur_phase l)"
    by (auto simp: loop_may_write_def owned_by_loop_def)
  show ?thesis
  proof (cases "probe_healthy (pr_answer p)")
    case True
    from live True n show ?thesis by (simp add: phase_view_def probe_up)
  next
    case False
    from live False n show ?thesis by (simp add: phase_view_def probe_down split: sum.split)
  qed
qed

lemma phase_view_owner: "phase_view l = phase_view l' \<Longrightarrow> loop_may_write l = loop_may_write l'"
  by (simp add: phase_view_def loop_may_write_def owned_by_loop_def ownsRelaunchLoading_def)

interpretation health: phase_writer "probe_step F opts" loop_may_write phase_view for F opts
proof unfold_locales
  fix l :: "'a lifecycle" and p
  assume n: "\<not> loop_may_write l"
  show kept: "phase_view (probe_step F opts p l) = phase_view l" by (rule probe_foreign [OF n])
  from n show "\<not> loop_may_write (probe_step F opts p l)"
    using phase_view_owner [OF kept] by simp
qed

section \<open>Outages\<close>

lemma health_run_append [simp]: "health_run F opts (ps @ qs) l = health_run F opts qs (health_run F opts ps l)"
  by (simp add: health_run_def)

lemma health_run_Cons [simp]:
  "health_run F opts [] l = l"
  "health_run F opts (p # ps) l = health_run F opts ps (probe_step F opts p l)"
  by (simp_all add: health_run_def)

lemma health_run_live: "health_run F opts (live_probes ps) l = health_run F opts ps l"
  unfolding live_probes_def by (induction ps arbitrary: l) (simp_all add: probe_cancelled)

definition failing :: "probe \<Rightarrow> bool" where
  "failing p \<longleftrightarrow> \<not> probe_healthy (pr_answer p)"

text \<open>The probes end in an unbroken run of failures that begins with \<open>p\<close>.\<close>

definition outage_from :: "probe \<Rightarrow> probe list \<Rightarrow> probe list \<Rightarrow> bool" where
  "outage_from p run ps \<longleftrightarrow> (\<exists>pre. ps = pre @ run) \<and> run \<noteq> [] \<and> hd run = p \<and> list_all failing run"

lemma outage_snoc: "outage_from p run ps \<Longrightarrow> failing x \<Longrightarrow> outage_from p (run @ [x]) (ps @ [x])"
  by (auto simp: outage_from_def)

lemma outage_start: "failing x \<Longrightarrow> outage_from x [x] (ps @ [x])"
  by (auto simp: outage_from_def)

lemma outage_invariant:
  assumes "list_all (\<lambda>p. \<not> pr_cancelled p) ps"
    and start: "lc_unhealthySince l = None" "cur_phase l \<noteq> PhaseDegraded"
  shows "(\<forall>t. lc_unhealthySince (health_run F opts ps l) = Some t \<longrightarrow>
            (\<exists>p run. outage_from p run ps \<and> pr_now p = t)) \<and>
         (cur_phase (health_run F opts ps l) = PhaseDegraded \<longrightarrow>
            (\<exists>p run q. outage_from p run ps \<and> q \<in> set run \<and>
               engineDownGrace opts \<le> pr_now q - pr_now p))"
  using assms(1)
proof (induction ps rule: rev_induct)
  case Nil
  then show ?case by (simp add: start)
next
  case (snoc x ps)
  let ?s = "health_run F opts ps l"
  from snoc.prems have live: "\<not> pr_cancelled x" "list_all (\<lambda>p. \<not> pr_cancelled p) ps" by simp_all
  note IH = snoc.IH [OF live(2)]
  show ?case
  proof (cases "probe_healthy (pr_answer x)")
    case True
    from live True show ?thesis by (auto simp: probe_up)
  next
    case False
    then have f: "failing x" by (simp add: failing_def)
    have since: "\<exists>p run. outage_from p run (ps @ [x]) \<and> pr_now p = failing_since x ?s \<and> x \<in> set run"
    proof (cases "lc_unhealthySince ?s")
      case None
      then show ?thesis using outage_start [OF f, of ps] by (force simp: failing_since_def)
    next
      case (Some t)
      then obtain p run where "outage_from p run ps" "pr_now p = t" using IH by blast
      then show ?thesis using outage_snoc [OF _ f] Some by (force simp: failing_since_def)
    qed
    have deg: "cur_phase (probe_step F opts x ?s) = PhaseDegraded \<Longrightarrow>
        cur_phase ?s = PhaseDegraded \<or> past_grace opts x ?s"
      using live False by (auto simp: probe_down split: if_splits)
    have old: "cur_phase ?s = PhaseDegraded \<Longrightarrow> \<exists>p run q. outage_from p run (ps @ [x]) \<and> q \<in> set run \<and>
        engineDownGrace opts \<le> pr_now q - pr_now p"
    proof -
      assume "cur_phase ?s = PhaseDegraded"
      then obtain p run q where "outage_from p run ps" "q \<in> set run"
        "engineDownGrace opts \<le> pr_now q - pr_now p" using IH by blast
      then show ?thesis using outage_snoc [OF _ f] by (metis Un_iff set_append)
    qed
    have fresh: "past_grace opts x ?s \<Longrightarrow> \<exists>p run q. outage_from p run (ps @ [x]) \<and> q \<in> set run \<and>
        engineDownGrace opts \<le> pr_now q - pr_now p"
      using since unfolding past_grace_def by metis
    from since old fresh deg live False show ?thesis
      by (simp add: probe_down) blast
  qed
qed

section \<open>Signals\<close>

fun wakes :: "signal \<Rightarrow> bool" where
  "wakes Consume = False"
| "wakes _ = True"

fun latest_options :: "retry_options \<Rightarrow> signal list \<Rightarrow> retry_options" where
  "latest_options d [] = d"
| "latest_options d (Operator opts # sigs) = latest_options opts sigs"
| "latest_options d (Reensure # sigs) = latest_options d sigs"
| "latest_options d (Consume # sigs) = latest_options no_retry_options sigs"

lemma signal_run_simps [simp]:
  "signal_run [] l = l" "signal_run (s # sigs) l = signal_run sigs (signal_step s l)"
  "signal_run (xs @ sigs) l = signal_run sigs (signal_run xs l)"
  by (simp_all add: signal_run_def)

lemma signal_step_retry: "lc_retry (signal_step s l) = (if wakes s then Suc (lc_retry l) else lc_retry l)"
  by (cases s) (simp_all add: RetryWith_def requestReensure_def wakeLocked_def consumePendingOpts_def)

lemma signal_run_retry: "lc_retry (signal_run sigs l) = lc_retry l + length (filter wakes sigs)"
  by (induction sigs arbitrary: l) (simp_all add: signal_step_retry)

lemma signal_run_options: "lc_pendingOpts (signal_run sigs l) = latest_options (lc_pendingOpts l) sigs"
proof (induction sigs arbitrary: l)
  case (Cons s sigs)
  then show ?case
    by (cases s) (simp_all add: RetryWith_def requestReensure_def wakeLocked_def consumePendingOpts_def)
qed simp

section \<open>What the pass writes\<close>

lemma setPhase_progress:
  "lc_progress (setPhase F now now' p l) =
     (if p = PhaseDownload then ClearDownloadBudget (mgr_Update F now' (phase_write F now p) (lc_progress l))
      else mgr_Update F now' (phase_write F now p) (lc_progress l))"
  by (simp add: setPhase_def Let_def)

lemma phase_write_phase [simp]: "ps_Phase (phase_write F now p s) = p"
  by (cases p) (simp_all add: phase_write_def settleFileRows_def Let_def split: option.split)

lemma setPhase_phase [simp]: "cur_phase (setPhase F now now' p l) = p"
  by (simp add: cur_phase_def setPhase_progress ClearDownloadBudget_def)

lemma setPhase_rest [simp]:
  "lc_relaunchLoading (setPhase F now now' p l) = lc_relaunchLoading l"
  "lc_retry (setPhase F now now' p l) = lc_retry l"
  "lc_unhealthySince (setPhase F now now' p l) = lc_unhealthySince l"
  "lc_lastReady (setPhase F now now' p l) = lc_lastReady l"
  "lc_pendingOpts (setPhase F now now' p l) = lc_pendingOpts l"
  by (simp_all add: setPhase_def Let_def)

lemma download_clears_counts: "counts_ok (lc_progress (setPhase F now now' PhaseDownload l))"
  by (simp add: counts_ok_def setPhase_progress ClearDownloadBudget_def phase_write_def Let_def)

lemma settle_rows_done: "f \<in> set (ps_Files (settleFileRows s)) \<Longrightarrow> fp_Status f = FileDone"
  by (auto simp: settleFileRows_def Let_def settle_row_def done_row_def)

lemma cold_start_kept:
  "ps_EngineColdStartMS s = Some v \<Longrightarrow> ps_EngineColdStartMS (phase_write F now p s) = Some v"
  by (cases p) (simp_all add: phase_write_def settleFileRows_def Let_def)

lemma begin_pass_fields [simp]:
  "cur_phase (snd (begin_pass l)) = cur_phase l" "lc_relaunchLoading (snd (begin_pass l)) = False"
  "lc_unhealthySince (snd (begin_pass l)) = lc_unhealthySince l"
  "fst (begin_pass l) = lc_pendingOpts l" "lc_pendingOpts (snd (begin_pass l)) = no_retry_options"
  "lc_retry (snd (begin_pass l)) = lc_retry l"
  by (simp_all add: begin_pass_def consumePendingOpts_def cur_phase_def)

section \<open>Concrete states\<close>

definition lc_opts :: lc_options where
  "lc_opts = lc_defaults \<lparr>lo_HealthInterval = 0, lo_EngineDownGrace = 0, lo_RelaunchProbeInterval = 0,
     lo_RetriableBackoff = 0, lo_AliveBeforeBoot = True\<rparr>"

definition lc_boot :: "int lifecycle" where
  "lc_boot = new_lifecycle (new_manager unit_floats 0)"

definition lc_serving :: "int lifecycle" where
  "lc_serving = setPhase unit_floats 5000000 5000000 PhaseReady lc_boot"

definition refused :: "bool option \<Rightarrow> int \<Rightarrow> probe" where
  "refused hook t = \<lparr>pr_cancelled = False, pr_answer = Inl ''connection refused'', pr_hook = hook,
     pr_now = t, pr_at = t\<rparr>"

definition answered :: "bool \<Rightarrow> int \<Rightarrow> probe" where
  "answered ex t = \<lparr>pr_cancelled = False,
     pr_answer = Inr \<lparr>rs_Alive = True, rs_ModelExists = ex, rs_ModelBytes = 0\<rparr>, pr_hook = None,
     pr_now = t, pr_at = t\<rparr>"

lemma concrete_probes [simp]:
  "\<not> pr_cancelled (refused h t)" "\<not> probe_healthy (pr_answer (refused h t))" "pr_now (refused h t) = t"
  "pr_hook (refused h t) = h" "\<not> pr_cancelled (answered b t)" "pr_now (answered b t) = t"
  "pr_hook (answered b t) = None" "probe_healthy (pr_answer (answered b t)) = b"
  "pr_answer (refused h t) = Inl ''connection refused''"
  by (simp_all add: refused_def answered_def probe_healthy_def)

lemma probe_healthy_error [simp]: "\<not> probe_healthy (Inl e)"
  by (simp add: probe_healthy_def)

lemma lc_serving_fields [simp]:
  "cur_phase lc_serving = PhaseReady" "lc_unhealthySince lc_serving = None"
  "lc_relaunchLoading lc_serving = False" "owned_by_loop lc_serving"
  by (simp_all add: lc_serving_def lc_boot_def new_lifecycle_def owned_by_loop_def)

lemma lc_boot_fields [simp]:
  "cur_phase lc_boot = PhaseInit" "lc_unhealthySince lc_boot = None" "\<not> owned_by_loop lc_boot"
  by (simp_all add: lc_boot_def new_lifecycle_def cur_phase_def new_manager_def initial_pstate_def
      owned_by_loop_def ownsRelaunchLoading_def)

lemma grace_default [simp]: "engineDownGrace lc_opts = 60000000000"
  by (simp add: engineDownGrace_def lc_opts_def lc_defaults_def defaultEngineDownGrace_def)

section \<open>Properties\<close>

text \<open>C18: The health loop writes only the phases that are its own. While the phase is one of the
  pass's (initialising, downloading, the pass's loading, failed), no sequence of probes, whatever
  they answer, changes the phase, the recorded error, the pending options or the wake-up channel.\<close>
theorem health_loop_keeps_pass_phases:
  assumes "cur_phase l \<notin> {PhaseReady, PhaseDegraded}" and "cur_phase l = PhaseLoading \<Longrightarrow> \<not> lc_relaunchLoading l"
  shows "phase_view (health_run F opts ps l) = phase_view l"
proof -
  from assms have "\<not> loop_may_write l"
    by (auto simp: loop_may_write_def owned_by_loop_def ownsRelaunchLoading_def)
  then show ?thesis unfolding health_run_def by (rule health.run_keeps)
qed

theorem health_loop_keeps_pass_phases_witness:
  "phase_view (health_run unit_floats lc_opts [refused (Some True) 0, answered True 99] lc_boot) = phase_view lc_boot"
  by (rule health_loop_keeps_pass_phases) simp_all

text \<open>C19: The health loop calls a model degraded only after an outage that lasted: when probes
  have moved the phase to degraded, the probes made so far end in an unbroken run of failures, and
  a probe of that run came at least the grace after its first one.\<close>
theorem degraded_means_outage:
  assumes "lc_unhealthySince l = None" and "cur_phase l \<noteq> PhaseDegraded"
    and "cur_phase (health_run F opts ps l) = PhaseDegraded"
  shows "\<exists>p run q. outage_from p run (live_probes ps) \<and> q \<in> set run \<and>
    engineDownGrace opts \<le> pr_now q - pr_now p"
proof -
  have "list_all (\<lambda>p. \<not> pr_cancelled p) (live_probes ps)"
    by (simp add: live_probes_def list_all_iff)
  from outage_invariant [OF this assms(1,2), of F opts] assms(3) show ?thesis
    by (simp add: health_run_live)
qed

lemma outage_degrades:
  "cur_phase (health_run unit_floats lc_opts [answered True 1, refused None 5, refused None 60000000005] lc_serving)
   = PhaseDegraded"
proof -
  let ?a = "probe_step unit_floats lc_opts (answered True 1) lc_serving"
  let ?b = "probe_step unit_floats lc_opts (refused None 5) ?a"
  have a: "cur_phase ?a = PhaseReady" "lc_unhealthySince ?a = None"
    by (simp_all add: probe_up ownsRelaunchLoading_def)
  then have oa: "owned_by_loop ?a" by (simp add: owned_by_loop_def)
  have b: "cur_phase ?b = PhaseReady" "lc_unhealthySince ?b = Some 5"
    using a oa by (simp_all add: probe_down past_grace_def failing_since_def in_flight_def)
  then have ob: "owned_by_loop ?b" by (simp add: owned_by_loop_def)
  show ?thesis using b ob by (simp add: probe_down past_grace_def failing_since_def)
qed

theorem degraded_means_outage_witness:
  "\<exists>p run q. outage_from p run (live_probes [answered True 1, refused None 5, refused None 60000000005]) \<and>
     q \<in> set run \<and> engineDownGrace lc_opts \<le> pr_now q - pr_now p"
  by (rule degraded_means_outage [OF _ _ outage_degrades]) simp_all

text \<open>C29: An engine that was refusing connections when its outage passed the grace and then comes
  back alive without its model is never given the model again: from the probe that called it
  degraded on, no sequence of probes short of a healthy one wakes the lifecycle loop, whatever they
  report about a live engine with a missing model.\<close>
theorem lost_model_is_not_reregistered:
  assumes "\<not> pr_cancelled p" "pr_answer p = Inl e" "owned_by_loop l" "past_grace opts p l"
    and "list_all failing ps"
  shows "lc_retry (health_run F opts (p # ps) l) = lc_retry l \<and>
    cur_phase (health_run F opts (p # ps) l) = PhaseDegraded"
proof -
  have f: "\<not> probe_healthy (pr_answer p)" using assms(2) by (simp add: probe_healthy_def)
  have "cur_phase k = PhaseDegraded \<Longrightarrow> list_all failing ps \<Longrightarrow>
      lc_retry (health_run F opts ps k) = lc_retry k \<and> cur_phase (health_run F opts ps k) = PhaseDegraded" for k :: "'a lifecycle"
  proof (induction ps arbitrary: k)
    case (Cons q ps)
    then have n: "\<not> owned_by_loop k" by (simp add: owned_by_loop_def ownsRelaunchLoading_def)
    show ?case
    proof (cases "pr_cancelled q")
      case True
      then show ?thesis using Cons by (simp add: probe_cancelled)
    next
      case False
      then have "lc_retry (probe_step F opts q k) = lc_retry k" "cur_phase (probe_step F opts q k) = PhaseDegraded"
        using Cons.prems n by (simp_all add: failing_def probe_down split: sum.split)
      then show ?thesis using Cons.IH [of "probe_step F opts q k"] Cons.prems by simp
    qed
  qed simp
  moreover have "cur_phase (probe_step F opts p l) = PhaseDegraded" "lc_retry (probe_step F opts p l) = lc_retry l"
    using assms f by (simp_all add: probe_down)
  ultimately show ?thesis using assms(5) by simp
qed

theorem lost_model_is_not_reregistered_witness:
  "\<exists>l :: int lifecycle. owned_by_loop l \<and>
     lc_retry (health_run unit_floats lc_opts (refused None 60000000005 # replicate 9 (answered False 70000000000)) l) = lc_retry l \<and>
     cur_phase (health_run unit_floats lc_opts (refused None 60000000005 # replicate 9 (answered False 70000000000)) l) = PhaseDegraded"
proof -
  let ?l = "lc_serving\<lparr>lc_unhealthySince := Some 5\<rparr>"
  have o: "owned_by_loop ?l" by (simp add: owned_by_loop_def)
  moreover have "past_grace lc_opts (refused None 60000000005) ?l"
    by (simp add: past_grace_def failing_since_def)
  moreover have "list_all failing (replicate 9 (answered False 70000000000))"
    by (simp add: failing_def list_all_iff)
  ultimately show ?thesis
    using lost_model_is_not_reregistered [of "refused None 60000000005" "''connection refused''" ?l lc_opts
        "replicate 9 (answered False 70000000000)" unit_floats]
    by (intro exI [of _ ?l]) simp
qed

text \<open>A wait is ended by a signal exactly when one is sent after the wait began: what was sent
  before, during the pass, never ends it (its options are still there for the next pass). The
  options a pass consumes are those of the latest operator request, which a re-ensure request of the
  health loop leaves untouched.\<close>
theorem wait_sees_only_later_signals:
  "(woken (wait_channel (signal_run before l)) (signal_run (before @ after) l) \<longleftrightarrow> filter wakes after \<noteq> []) \<and>
   fst (begin_pass (signal_run before l)) = latest_options (lc_pendingOpts l) before"
  by (simp add: woken_def wait_channel_def signal_run_retry signal_run_options)

text \<open>The loading a pass writes can be taken over by the health loop. When a relaunch is
  outstanding and a probe fails after the pass has begun and before it writes loading (while it
  verifies the bytes on disk, the phase is still ready), the next healthy probe calls the model
  ready although the engine was never waited for; without that failing probe it does not.\<close>
theorem pass_loading_taken_over:
  assumes "cur_phase l = PhaseReady"
    and "\<not> pr_cancelled p" "failing p" "in_flight (pr_hook p)" "\<not> past_grace opts p l"
    and "\<not> pr_cancelled q" "\<not> failing q"
  shows "cur_phase (probe_step F opts q (setPhase F n n' PhaseLoading
           (probe_step F opts p (snd (begin_pass l))))) = PhaseReady \<and>
         cur_phase (probe_step F opts q (setPhase F n n' PhaseLoading (snd (begin_pass l)))) = PhaseLoading"
proof -
  let ?b = "snd (begin_pass l)"
  have o: "owned_by_loop ?b" using assms(1) by (simp add: owned_by_loop_def)
  have g: "\<not> past_grace opts p ?b" using assms(5) by (simp add: past_grace_def failing_since_def)
  have "lc_relaunchLoading (probe_step F opts p ?b)"
    using assms(2-4) o g by (simp add: failing_def probe_down)
  then show ?thesis using assms(6,7) by (simp add: failing_def probe_up ownsRelaunchLoading_def)
qed

theorem pass_loading_taken_over_witness:
  "cur_phase (probe_step unit_floats lc_opts (answered True 9) (setPhase unit_floats 8 8 PhaseLoading
     (probe_step unit_floats lc_opts (refused (Some True) 7) (snd (begin_pass lc_serving))))) = PhaseReady"
  by (rule pass_loading_taken_over [THEN conjunct1])
    (simp_all add: failing_def in_flight_def past_grace_def failing_since_def)

text \<open>The verdict: a process may serve exactly when the phase is ready and the last answer had
  the engine alive with its model; the reason is empty exactly then, and otherwise the recorded
  error where there is one. The engine's liveness goes out of the verdict with the probe that calls
  it down, and a healthy probe of a degraded model restores it.\<close>
theorem readiness_verdict:
  "(lifecycle_Ready l \<longleftrightarrow> cur_phase l = PhaseReady \<and>
      (\<exists>rs. lc_lastReady l = Some rs \<and> rs_Alive rs \<and> rs_ModelExists rs)) \<and>
   (rd_Reason (Readiness l) = [] \<longleftrightarrow> lifecycle_Ready l) \<and>
   rd_Reason (Readiness l) \<in> {[], cur_error l, ''engine_not_alive'', ''model_missing'', ''phase != ready''} \<and>
   \<not> lifecycle_Ready (snd (markEngineDown F t reason l)) \<and>
   (lifecycle_Ready (probe_step F opts p l) \<or> pr_cancelled p \<or> failing p \<or> \<not> loop_may_write l)"
proof -
  have down: "\<not> lifecycle_Ready (snd (markEngineDown F t reason l))"
    using markEngineDown_eqs(8) [of F t reason l]
    by (auto simp: lifecycle_Ready_def Readiness_def Let_def split: option.splits)
  have up: "\<not> pr_cancelled p \<Longrightarrow> \<not> failing p \<Longrightarrow> loop_may_write l \<Longrightarrow> lifecycle_Ready (probe_step F opts p l)"
  proof -
    assume h: "\<not> pr_cancelled p" "\<not> failing p" "loop_may_write l"
    then have "cur_phase (probe_step F opts p l) = PhaseReady"
      by (auto simp: failing_def probe_up loop_may_write_def owned_by_loop_def)
    moreover obtain rs where "lc_lastReady (probe_step F opts p l) = Some rs" "rs_Alive rs" "rs_ModelExists rs"
      using h by (auto simp: failing_def probe_up cached_answer_def probe_healthy_def split: sum.splits)
    ultimately show "lifecycle_Ready (probe_step F opts p l)"
      by (simp add: lifecycle_Ready_def Readiness_def Let_def cur_phase_def)
  qed
  have v: "lifecycle_Ready l \<longleftrightarrow> cur_phase l = PhaseReady \<and>
      (\<exists>rs. lc_lastReady l = Some rs \<and> rs_Alive rs \<and> rs_ModelExists rs)"
    by (auto simp: lifecycle_Ready_def Readiness_def Let_def cur_phase_def split: option.splits)
  have r: "rd_Reason (Readiness l) = [] \<longleftrightarrow> lifecycle_Ready l"
    by (simp add: lifecycle_Ready_def Readiness_def Let_def)
  have e: "rd_Reason (Readiness l) \<in> {[], cur_error l, ''engine_not_alive'', ''model_missing'', ''phase != ready''}"
    by (simp add: Readiness_def Let_def)
  from v r e down up show ?thesis by blast
qed

theorem readiness_verdict_witness:
  "lifecycle_Ready (probe_step unit_floats lc_opts (answered True 3) lc_serving)"
proof -
  have "\<not> failing (answered True 3)" "loop_may_write lc_serving" "\<not> pr_cancelled (answered True 3)"
    by (simp_all add: failing_def loop_may_write_def)
  with readiness_verdict [of lc_serving unit_floats 0 "[]" lc_opts "answered True 3"] show ?thesis by blast
qed

text \<open>The counters of a pass: entering the download phase forgets the last pass, so through any
  named sink events that follow the completed count stays within the total; writing loading then
  settles every row as done, with the completed count equal to the total and at least the rows.\<close>
theorem pass_counters:
  assumes "list_all (\<lambda>(now, ev). named_event ev) evs"
    and "m = sink_run F evs (lc_progress (setPhase F n0 n0' PhaseDownload l))"
    and "l' = setPhase F n1 n1' PhaseLoading (l\<lparr>lc_progress := m\<rparr>)"
  shows "counts_ok m \<and> list_all (\<lambda>f. fp_Status f = FileDone) (ps_Files (mg_state (lc_progress l'))) \<and>
    ps_FilesCompleted (mg_state (lc_progress l')) = ps_FilesTotal (mg_state (lc_progress l')) \<and>
    int (length (ps_Files (mg_state (lc_progress l')))) \<le> ps_FilesTotal (mg_state (lc_progress l')) \<and>
    ps_FilesTotal (mg_state m) \<le> ps_FilesTotal (mg_state (lc_progress l'))"
proof -
  have "counts_ok m"
    unfolding assms(2)
    by (rule sink_run_counts [OF download_clears_counts]) (use assms(1) in \<open>simp add: list_all_iff\<close>)
  then show ?thesis
    by (auto simp: assms(3) setPhase_progress phase_write_def Let_def list_all_iff settle_rows_done)
      (simp_all add: settleFileRows_def Let_def)
qed

theorem pass_counters_witness:
  "counts_ok (sink_run unit_floats [(1, EvFileStart ''a.bin'' 10), (2, EvFileDone ''a.bin'')]
     (lc_progress (setPhase unit_floats 0 0 PhaseDownload lc_boot)))"
  by (rule pass_counters [OF _ refl refl, THEN conjunct1]) simp

text \<open>The engine's cold start is stamped by the first ready a process reaches, never negative,
  and never again: no later phase change moves it.\<close>
theorem cold_start_stamped_once:
  assumes "ps_EngineColdStartMS (mg_state (lc_progress l)) = None"
  shows "\<exists>v. 0 \<le> v \<and> ps_EngineColdStartMS (mg_state (lc_progress
      (fold (\<lambda>(n, n', p). setPhase F n n' p) steps (setPhase F now now' PhaseReady l)))) = Some v"
proof -
  have keep: "ps_EngineColdStartMS (mg_state (lc_progress k)) = Some v \<Longrightarrow>
      ps_EngineColdStartMS (mg_state (lc_progress (fold (\<lambda>(n, n', p). setPhase F n n' p) steps k))) = Some v"
    for k :: "'a lifecycle" and v
  proof (induction steps arbitrary: k)
    case (Cons s steps)
    obtain n n' p where s: "s = (n, n', p)" by (cases s)
    have "ps_EngineColdStartMS (mg_state (lc_progress (setPhase F n n' p k))) = Some v"
      using Cons.prems by (simp add: setPhase_progress ClearDownloadBudget_def cold_start_kept)
    then show ?case using Cons.IH s by simp
  qed simp
  have "\<exists>v \<ge> 0. ps_EngineColdStartMS (mg_state (lc_progress (setPhase F now now' PhaseReady l))) = Some v"
    using assms by (simp add: setPhase_progress phase_write_def Let_def)
  then show ?thesis using keep by blast
qed

theorem cold_start_stamped_once_witness:
  "\<exists>v. 0 \<le> v \<and> ps_EngineColdStartMS (mg_state (lc_progress
      (fold (\<lambda>(n, n', p). setPhase unit_floats n n' p) [(9, 9, PhaseDownload), (99, 99, PhaseReady)]
        (setPhase unit_floats 5000000 7 PhaseReady lc_boot)))) = Some v"
  by (rule cold_start_stamped_once)
    (simp add: lc_boot_def new_lifecycle_def new_manager_def initial_pstate_def)

text \<open>The main loop retries on a timer only after a pass that failed retriably, with the phase
  degraded and the error counted; and after a pass for an engine that reads a path, the model is
  called ready exactly when the engine came alive. Everything else waits for a signal or returns.\<close>
theorem run_waits_and_readies:
  assumes "0 < lo_RetriableBackoff opts" and "cur_phase l \<noteq> PhaseReady" and "\<not> lo_AliveBeforeBoot opts"
  shows "((\<exists>d > 0. fst (run_iteration F opts pass alive answer now now' l) = RunWaits d) \<longleftrightarrow>
      (\<exists>msg. pass = PassError (PassRetriable msg))) \<and>
    (cur_phase (snd (run_iteration F opts pass alive answer now now' l)) = PhaseReady \<longleftrightarrow>
      pass = PassOk \<and> alive = Alive) \<and>
    (case pass_fail F now msg retriable l of (e, l') \<Rightarrow>
       fst (run_iteration F opts (PassError e) alive answer now now' l') =
         RunWaits (if cur_phase l' = PhaseDegraded then lo_RetriableBackoff opts else 0) \<and>
       cur_phase l' \<in> {PhaseDegraded, PhaseFailed} \<and>
       ps_RetryCount (mg_state (lc_progress l')) = ps_RetryCount (mg_state (lc_progress l)) + 1)"
  using assms
  by (auto simp: run_iteration_def never_alive_def Let_def pass_fail_def
      split: pass_result.split alive_result.split pass_error.split sum.split)

theorem run_waits_and_readies_witness:
  "cur_phase (snd (run_iteration unit_floats (lc_opts\<lparr>lo_AliveBeforeBoot := False\<rparr>) PassOk Alive (Inl [])
     3 3 lc_boot)) = PhaseReady"
  using run_waits_and_readies [of "lc_opts\<lparr>lo_AliveBeforeBoot := False\<rparr>" lc_boot unit_floats PassOk Alive "Inl []" 3 3]
  by (simp add: lc_opts_def lc_defaults_def)

end
