(* ===== verification/Fetch.thy ===== *)
theory Fetch
  imports Progress Json
begin

text \<open>
  Resumable downloads (\<open>internal/fetch/range.go\<close>, \<open>retry.go\<close>, \<open>range_verify.go\<close>, \<open>probe.go\<close>): the
  probe, one attempt, the streaming loop, the retry loop, \<open>Download\<close> and \<open>Verify\<close>.

  The files a download touches are the partial file and the destination. The upstream, the disk's
  faults, the back-off sleeps and the contents' digest are arguments: \<open>fetch_env\<close> says what each
  attempt meets. A body is the list of its reads; its end is the end of the body. Progress is
  reported as the list of sink events, to be run by the sink of the progress manager. The \<open>OnRetry\<close>
  callback (metrics) is not modelled, \<open>redactSecrets\<close> (regular expressions) is an argument, and
  header construction is reduced to the two headers the protocol rests on.
\<close>

section \<open>Errors (range.go, retry.go)\<close>

datatype transport_error = TimeoutError | ConnReset | ConnRefused | ConnAborted | EofError
  | UnexpectedEof | UrlError transport_error | OtherTransport string

datatype ctx_error = Canceled | DeadlineExceeded

datatype disk_op = DkMkdir | DkStat | DkOpen | DkWrite | DkSync | DkRename | DkRead

datatype fetch_error =
    UrlRequired | DestRequired
  | Disk disk_op transport_error
  | BuildRequest
  | HeadFailed transport_error
  | HttpStatus string int string
  | SizeMismatch int int
  | Sha256Mismatch string string
  | Transport transport_error
  | ContextErr ctx_error
  | ReadBody transport_error
  | MaxBytesExceeded int int
  | ShortRead int int
  | RangeMismatch int int
  | RangeNotSatisfiable
  | Retryable fetch_error
  | TooManyRetries fetch_error

fun isRetriableError :: "transport_error \<Rightarrow> bool" where
  "isRetriableError TimeoutError = True"
| "isRetriableError ConnReset = True"
| "isRetriableError ConnRefused = True"
| "isRetriableError ConnAborted = True"
| "isRetriableError EofError = True"
| "isRetriableError UnexpectedEof = True"
| "isRetriableError (UrlError e) = isRetriableError e"
| "isRetriableError (OtherTransport _) = False"

definition isRetriableStatus :: "int \<Rightarrow> bool" where
  "isRetriableStatus code \<longleftrightarrow> code = 408 \<or> code = 429 \<or> 500 \<le> code \<and> code \<le> 599"

text \<open>\<open>isRetriableError\<close> on the errors of an attempt, which wrap their cause. An expired deadline is
  a timeout to \<open>net.Error\<close>.\<close>

fun wraps_retriable :: "fetch_error \<Rightarrow> bool" where
  "wraps_retriable (Disk _ e) = isRetriableError e"
| "wraps_retriable (HeadFailed e) = isRetriableError e"
| "wraps_retriable (Transport e) = isRetriableError e"
| "wraps_retriable (ReadBody e) = isRetriableError e"
| "wraps_retriable (ContextErr c) = (c = DeadlineExceeded)"
| "wraps_retriable (Retryable e) = wraps_retriable e"
| "wraps_retriable (TooManyRetries e) = wraps_retriable e"
| "wraps_retriable _ = False"

fun marked_retryable :: "fetch_error \<Rightarrow> bool" where
  "marked_retryable (Retryable _) = True"
| "marked_retryable (TooManyRetries e) = marked_retryable e"
| "marked_retryable _ = False"

definition shouldRetry :: "fetch_error \<Rightarrow> bool" where
  "shouldRetry e \<longleftrightarrow> marked_retryable e \<or> wraps_retriable e"

section \<open>Back-off (retry.go)\<close>

definition productionBackoffBase :: int where "productionBackoffBase = 500000000"
definition productionBackoffCap :: int where "productionBackoffCap = 60000000000"
definition defaultMaxRetries :: nat where "defaultMaxRetries = 5"

fun double_until :: "int \<Rightarrow> nat \<Rightarrow> int \<Rightarrow> int" where
  "double_until cap 0 d = d"
| "double_until cap (Suc n) d = (if d < cap then double_until cap n (wrap64 (d * 2)) else d)"

text \<open>\<open>jit\<close> is the 20 percent of a float64 product, \<open>rnd\<close> the number drawn below \<open>2 * jitter\<close>.\<close>

definition backoff :: "(int \<Rightarrow> int) \<Rightarrow> int \<Rightarrow> int \<Rightarrow> int \<Rightarrow> int \<Rightarrow> int" where
  "backoff jit rnd attempt base cap =
     (let d = double_until cap (nat attempt) base;
          d = (if d > cap then cap else d);
          jitter = jit d
      in if jitter \<le> 0 then d
         else let delta = rnd - jitter; w = d + delta in if w < 0 then 0 else w)"

section \<open>The environment of a download\<close>

record body_read =
  br_ctx :: "ctx_error option"
  br_data :: string
  br_end :: "transport_error option option"
  br_ctx_after :: "ctx_error option"

text \<open>\<open>br_end\<close>: \<open>None\<close> when more may follow, \<open>Some None\<close> at the end of the body, \<open>Some (Some e)\<close> on
  an error.\<close>

record response =
  rs_status :: int
  rs_content_range :: string
  rs_body :: "body_read list"

record head_response =
  hr_status :: int
  hr_content_length :: string
  hr_etag :: string

record disk_plan =
  dp_stat :: "transport_error option"
  dp_remove :: bool
  dp_open :: "transport_error option"
  dp_write :: "nat \<Rightarrow> (nat \<times> transport_error) option"
  dp_sync :: "transport_error option"

definition good_disk :: disk_plan where
  "good_disk = \<lparr>dp_stat = None, dp_remove = True, dp_open = None, dp_write = (\<lambda>_. None), dp_sync = None\<rparr>"

text \<open>\<open>en_get i rng ifr\<close> is what attempt \<open>i\<close> gets for a request with this Range start and If-Range
  value (empty: no such header).\<close>

record fetch_env =
  en_build :: bool
  en_mkdir :: "transport_error option"
  en_head :: "transport_error + head_response"
  en_get :: "nat \<Rightarrow> int option \<Rightarrow> string \<Rightarrow> transport_error + response"
  en_disk :: "nat \<Rightarrow> disk_plan"
  en_sleep :: "nat \<Rightarrow> ctx_error option"
  en_rename :: "transport_error option"
  en_redact :: "string \<Rightarrow> string"

record range_opts =
  fo_URL :: string
  fo_DestPath :: string
  fo_ExpectedSize :: int
  fo_ETag :: string
  fo_MaxRetries :: int
  fo_MaxBytes :: int

record disk =
  dk_part :: "string option"
  dk_dest :: "string option"

section \<open>Small parts (range.go, probe.go)\<close>

definition parseContentRangeStart :: "string \<Rightarrow> int option" where
  "parseContentRangeStart s =
     (case cut_prefix s ''bytes '' of
        None \<Rightarrow> None
      | Some rest \<Rightarrow>
          (case index_byte rest CHR ''-'' of
             None \<Rightarrow> None
           | Some dash \<Rightarrow> atoi (take dash rest)))"

definition fetch_probe :: "fetch_env \<Rightarrow> fetch_error + (int \<times> string)" where
  "fetch_probe env =
     (if \<not> en_build env then Inl BuildRequest
      else case en_head env of
        Inl e \<Rightarrow> if isRetriableError e then Inr (0, []) else Inl (HeadFailed e)
      | Inr r \<Rightarrow>
          if hr_status r = 405 \<or> hr_status r = 403 then Inr (0, [])
          else if hr_status r \<noteq> 200 then Inl (HttpStatus ''HEAD'' (hr_status r) [])
          else Inr (if hr_content_length r = [] then -1
                    else (case atoi (hr_content_length r) of None \<Rightarrow> -1 | Some v \<Rightarrow> v), hr_etag r))"

fun sum_probes :: "(fetch_error + int) list \<Rightarrow> int \<Rightarrow> bool \<Rightarrow> int \<Rightarrow> int \<times> bool \<times> int" where
  "sum_probes [] tot ok known = (tot, ok, known)"
| "sum_probes (Inl _ # rs) tot ok known = sum_probes rs tot ok known"
| "sum_probes (Inr sz # rs) tot ok known =
     (if sz > 0 then sum_probes rs (wrap64 (tot + sz)) True (known + 1)
      else sum_probes rs tot ok known)"

text \<open>The answers of the non-empty URLs, in order.\<close>

definition SumProbeContentLength :: "(fetch_error + int) list \<Rightarrow> int \<times> bool \<times> bool" where
  "SumProbeContentLength answers =
     (case sum_probes answers 0 False 0 of
        (tot, ok, known) \<Rightarrow> (tot, ok, int (length answers) > 0 \<and> known = int (length answers)))"

definition remove_part :: "disk_plan \<Rightarrow> disk \<Rightarrow> disk" where
  "remove_part p d = (if dp_remove p then d\<lparr>dk_part := None\<rparr> else d)"

definition partSize :: "disk_plan \<Rightarrow> disk \<Rightarrow> fetch_error + int" where
  "partSize p d =
     (case dp_stat p of
        Some e \<Rightarrow> Inl (Disk DkStat e)
      | None \<Rightarrow> Inr (case dk_part d of None \<Rightarrow> 0 | Some s \<Rightarrow> int (length s)))"

section \<open>Streaming a body (range.go)\<close>

text \<open>The loop over the reads: error, what the partial file holds, the bytes written and the events.
  \<open>k\<close> numbers the write calls.\<close>

fun stream_loop ::
  "disk_plan \<Rightarrow> int \<Rightarrow> nat \<Rightarrow> body_read list \<Rightarrow> string \<Rightarrow> int \<Rightarrow>
   fetch_error option \<times> string \<times> int \<times> sink_event list" where
  "stream_loop dp mb k [] file written = (None, file, written, [])"
| "stream_loop dp mb k (r # rs) file written =
     (case br_ctx r of
        Some c \<Rightarrow> (Some (ContextErr c), file, written, [])
      | None \<Rightarrow>
          let data = br_data r; n = int (length data)
          in case (if data = [] then None else dp_write dp k) of
               Some (m, e) \<Rightarrow> (Some (Disk DkWrite e), file @ take m data, written, [])
             | None \<Rightarrow>
                 let file = file @ data; w = written + n; ev = (if data = [] then [] else [EvBytes n])
                 in if data \<noteq> [] \<and> mb > 0 \<and> w > mb then (Some (MaxBytesExceeded w mb), file, w, ev)
                    else case br_end r of
                      Some None \<Rightarrow> (None, file, w, ev)
                    | Some (Some e) \<Rightarrow>
                        (Some (case br_ctx_after r of
                                 Some c \<Rightarrow> ContextErr c
                               | None \<Rightarrow> if isRetriableError e then Retryable (Transport e) else ReadBody e),
                         file, w, ev)
                    | None \<Rightarrow>
                        (case stream_loop dp mb (if data = [] then k else Suc k) rs file w of
                           (err, f, w', evs) \<Rightarrow> (err, f, w', ev @ evs)))"

definition streamInto ::
  "disk_plan \<Rightarrow> body_read list \<Rightarrow> bool \<Rightarrow> int \<Rightarrow> int \<Rightarrow> int \<Rightarrow> disk \<Rightarrow>
   fetch_error option \<times> disk \<times> sink_event list" where
  "streamInto dp body app tot existing mb d =
     (case dp_open dp of
        Some e \<Rightarrow> (Some (Disk DkOpen e), d, [])
      | None \<Rightarrow>
          let file0 = (if app then (case dk_part d of None \<Rightarrow> [] | Some s \<Rightarrow> s) else [])
          in case stream_loop dp mb 0 body file0 existing of
               (err, file, written, evs) \<Rightarrow>
                 ((case err of
                     Some e \<Rightarrow> Some e
                   | None \<Rightarrow>
                       if tot > 0 \<and> written \<noteq> tot then Some (Retryable (ShortRead written tot))
                       else map_option (Disk DkSync) (dp_sync dp)),
                  d\<lparr>dk_part := Some file\<rparr>, evs))"

section \<open>One attempt (range.go)\<close>

definition attempt ::
  "fetch_env \<Rightarrow> range_opts \<Rightarrow> int \<Rightarrow> nat \<Rightarrow> disk \<Rightarrow> fetch_error option \<times> disk \<times> sink_event list" where
  "attempt env o1 tot i d0 =
     (let dp = en_disk env i
      in case partSize dp d0 of
           Inl e \<Rightarrow> (Some e, d0, [])
         | Inr existing0 \<Rightarrow>
             let big = (tot > 0 \<and> existing0 > tot);
                 d = (if big then remove_part dp d0 else d0);
                 existing = (if big then 0 else existing0)
             in if tot > 0 \<and> existing = tot then (None, d, [])
                else if \<not> en_build env then (Some BuildRequest, d, [])
                else case en_get env i (if existing > 0 then Some existing else None)
                            (if existing > 0 then fo_ETag o1 else []) of
                  Inl e \<Rightarrow> (Some (Transport e), d, [])
                | Inr r \<Rightarrow>
                    if rs_status r = 200 then
                      streamInto dp (rs_body r) False tot 0 (fo_MaxBytes o1)
                        (if existing > 0 then remove_part dp d else d)
                    else if rs_status r = 206 then
                      (case (if rs_content_range r = [] then None
                             else parseContentRangeStart (rs_content_range r)) of
                         Some start \<Rightarrow>
                           if start \<noteq> existing
                           then (Some (Retryable (RangeMismatch start existing)), remove_part dp d, [])
                           else streamInto dp (rs_body r) True tot existing (fo_MaxBytes o1) d
                       | None \<Rightarrow> streamInto dp (rs_body r) True tot existing (fo_MaxBytes o1) d)
                    else if rs_status r = 416 then
                      (if tot > 0 \<and> existing = tot then (None, d, [])
                       else (Some (Retryable RangeNotSatisfiable), remove_part dp d, []))
                    else
                      let err = HttpStatus ''GET'' (rs_status r)
                            (en_redact env (trim_space (take 512 (concat (map br_data (rs_body r))))))
                      in (Some (if isRetriableStatus (rs_status r) then Retryable err else err), d, []))"

section \<open>Download (range.go)\<close>

text \<open>\<open>n\<close> attempts are left, the next one is number \<open>i\<close>.\<close>

fun retry_loop ::
  "fetch_env \<Rightarrow> range_opts \<Rightarrow> int \<Rightarrow> nat \<Rightarrow> nat \<Rightarrow> fetch_error \<Rightarrow> disk \<Rightarrow>
   fetch_error option \<times> disk \<times> sink_event list" where
  "retry_loop env o1 tot i 0 lastErr d = (Some (TooManyRetries lastErr), d, [])"
| "retry_loop env o1 tot i (Suc n) lastErr d =
     (case (if i > 0 then en_sleep env i else None) of
        Some c \<Rightarrow> (Some (ContextErr c), d, [])
      | None \<Rightarrow>
          (case attempt env o1 tot i d of
             (None, d, evs) \<Rightarrow> (None, d, evs)
           | (Some e, d, evs) \<Rightarrow>
               if \<not> shouldRetry e then (Some e, d, evs)
               else (case retry_loop env o1 tot (Suc i) n e d of
                       (r, d, evs') \<Rightarrow> (r, d, evs @ EvError True # evs'))))"

record download =
  dl_error :: "fetch_error option"
  dl_meta :: "(int \<times> string) option"
  dl_disk :: disk
  dl_events :: "sink_event list"

definition retry_budget :: "range_opts \<Rightarrow> nat" where
  "retry_budget o1 = (if fo_MaxRetries o1 \<le> 0 then defaultMaxRetries else nat (fo_MaxRetries o1))"

text \<open>A recorded ETag that is no longer the upstream's drops the partial file.\<close>

definition drop_stale :: "fetch_env \<Rightarrow> range_opts \<Rightarrow> string \<Rightarrow> disk \<Rightarrow> disk" where
  "drop_stale env o1 etag d =
     (if fo_ETag o1 \<noteq> [] \<and> etag \<noteq> [] \<and> fo_ETag o1 \<noteq> etag then remove_part (en_disk env 0) d else d)"

definition with_etag :: "string \<Rightarrow> range_opts \<Rightarrow> range_opts" where
  "with_etag etag o1 = (if etag \<noteq> [] then o1\<lparr>fo_ETag := etag\<rparr> else o1)"

definition already_there :: "int \<Rightarrow> disk \<Rightarrow> bool" where
  "already_there tot d \<longleftrightarrow> tot > 0 \<and> (case dk_dest d of None \<Rightarrow> False | Some s \<Rightarrow> int (length s) = tot)"

text \<open>After the loop: its error, or the rename.\<close>

definition finish_download ::
  "fetch_env \<Rightarrow> range_opts \<Rightarrow> int \<times> string \<Rightarrow> fetch_error option \<times> disk \<times> sink_event list \<Rightarrow> download" where
  "finish_download env o1 meta looped =
     (case looped of (err, d, evs) \<Rightarrow>
        let start = EvFileStart (fo_DestPath o1) (fst meta)
        in case (case err of Some e \<Rightarrow> Some e | None \<Rightarrow> map_option (Disk DkRename) (en_rename env)) of
             Some e \<Rightarrow> \<lparr>dl_error = Some e, dl_meta = Some meta, dl_disk = d, dl_events = start # evs\<rparr>
           | None \<Rightarrow>
               \<lparr>dl_error = None, dl_meta = Some meta, dl_disk = \<lparr>dk_part = None, dk_dest = dk_part d\<rparr>,
                dl_events = start # evs @ [EvFileDone (fo_DestPath o1)]\<rparr>)"

definition failed_download :: "fetch_error \<Rightarrow> disk \<Rightarrow> download" where
  "failed_download e d = \<lparr>dl_error = Some e, dl_meta = None, dl_disk = d, dl_events = []\<rparr>"

definition Download :: "fetch_env \<Rightarrow> range_opts \<Rightarrow> disk \<Rightarrow> download" where
  "Download env o1 d =
     (if fo_URL o1 = [] then failed_download UrlRequired d
      else if fo_DestPath o1 = [] then failed_download DestRequired d
      else case en_mkdir env of
        Some e \<Rightarrow> failed_download (Disk DkMkdir e) d
      | None \<Rightarrow>
          (case fetch_probe env of
             Inl e \<Rightarrow> failed_download e d
           | Inr (head, etag) \<Rightarrow>
               if fo_ExpectedSize o1 > 0 \<and> head > 0 \<and> fo_ExpectedSize o1 \<noteq> head
               then failed_download (SizeMismatch head (fo_ExpectedSize o1)) d
               else
                 let tot = (if head \<le> 0 then fo_ExpectedSize o1 else head); d = drop_stale env o1 etag d
                 in if already_there tot d
                    then \<lparr>dl_error = None, dl_meta = Some (tot, etag), dl_disk = d,
                           dl_events = [EvFileStart (fo_DestPath o1) tot, EvFileDone (fo_DestPath o1)]\<rparr>
                    else finish_download env o1 (tot, etag)
                      (retry_loop env (with_etag etag o1) tot 0 (Suc (retry_budget o1)) UrlRequired d)))"

text \<open>\<open>Verify\<close>: \<open>hash\<close> is the hex SHA-256; the file is its contents, or the error of stat and of
  reading it.\<close>

definition verify_download ::
  "(string \<Rightarrow> string) \<Rightarrow> transport_error + string \<Rightarrow> transport_error option \<Rightarrow> int \<Rightarrow> string \<Rightarrow> fetch_error option" where
  "verify_download hash file unreadable expectedSize expectedSHA =
     (case file of
        Inl e \<Rightarrow> Some (Disk DkStat e)
      | Inr s \<Rightarrow>
          if expectedSize > 0 \<and> int (length s) \<noteq> expectedSize
          then Some (SizeMismatch (int (length s)) expectedSize)
          else if expectedSHA = [] then None
          else let want = trim_prefix (map ascii_lower (trim_space expectedSHA)) ''sha256:''
            in case unreadable of
                 Some e \<Rightarrow> Some (Disk DkRead e)
               | None \<Rightarrow> if hash s \<noteq> want then Some (Sha256Mismatch (hash s) want) else None)"

section \<open>Decimal numbers read back\<close>

lemma index_byte_digits: "index_byte (nat_digits n @ CHR ''-'' # r) CHR ''-'' = Some (length (nat_digits n))"
proof -
  have "list_all is_digit ds \<Longrightarrow> index_byte (ds @ CHR ''-'' # r) CHR ''-'' = Some (length ds)" for ds
    by (induction ds) (auto simp: is_digit_def)
  then show ?thesis by (simp add: nat_digits_digits)
qed

lemma parseContentRangeStart_header:
  "in_int64 (int n) \<Longrightarrow> parseContentRangeStart (''bytes '' @ nat_digits n @ CHR ''-'' # r) = Some (int n)"
  by (simp add: parseContentRangeStart_def cut_prefix_def has_prefix_def index_byte_digits atoi_nat_digits)

section \<open>What a body can do to the partial file\<close>

abbreviation body_data :: "body_read list \<Rightarrow> string" where
  "body_data body \<equiv> concat (map br_data body)"

lemma stream_loop_prefix:
  "stream_loop dp mb k body fl w = (err, f, w', evs) \<Longrightarrow>
   prefix (fl @ body_data body) C \<Longrightarrow> int (length fl) = w \<Longrightarrow>
   prefix f C \<and> prefix fl f \<and> (err = None \<longrightarrow> int (length f) = w')"
proof (induction body arbitrary: k w fl err f w' evs)
  case Nil
  then show ?case by simp
next
  case (Cons r rs)
  let ?d = "br_data r"
  have pre: "prefix (fl @ ?d) C" "prefix fl C"
    using Cons.prems(2) by (auto simp: prefix_def)
  have part: "prefix (fl @ take m ?d) C" for m
    using pre(1) take_is_prefix [of m ?d] by (metis prefix_order.trans same_prefix_prefix)
  obtain err1 f1 w1 evs1 where rec:
    "stream_loop dp mb (if ?d = [] then k else Suc k) rs (fl @ ?d) (w + int (length ?d)) = (err1, f1, w1, evs1)"
    by (metis prod_cases4)
  have IH: "prefix f1 C \<and> prefix (fl @ ?d) f1 \<and> (err1 = None \<longrightarrow> int (length f1) = w1)"
    using Cons.IH [OF rec] Cons.prems(2,3) by simp
  then have file1: "prefix fl f1" by (auto simp: prefix_def)
  show ?case
    using Cons.prems(1,3) IH file1 pre part rec
    by (auto simp: Let_def split: option.splits if_splits)
qed

text \<open>The disk keeps a prefix of \<open>C\<close> in the partial file.\<close>

definition part_of :: "string \<Rightarrow> disk \<Rightarrow> bool" where
  "part_of C d \<longleftrightarrow> (case dk_part d of None \<Rightarrow> True | Some s \<Rightarrow> prefix s C)"

lemma part_of_remove [simp]: "part_of C d \<Longrightarrow> part_of C (remove_part dp d)"
  by (simp add: part_of_def remove_part_def)

lemma remove_part_dest [simp]: "dk_dest (remove_part dp d) = dk_dest d"
  by (simp add: remove_part_def)

lemma streamInto_prefix:
  assumes run: "streamInto dp body app tot existing mb d = (err, d', evs)"
    and data: "prefix ((if app then (case dk_part d of None \<Rightarrow> [] | Some s \<Rightarrow> s) else []) @ body_data body) C"
    and ex: "existing = int (length (if app then (case dk_part d of None \<Rightarrow> [] | Some s \<Rightarrow> s) else []))"
    and tot: "tot = int (length C)" "0 < tot" and old: "part_of C d"
  shows "part_of C d' \<and> dk_dest d' = dk_dest d \<and> (err = None \<longrightarrow> dk_part d' = Some C)"
proof (cases "dp_open dp")
  case (Some e)
  then show ?thesis using run old by (auto simp: streamInto_def)
next
  case None
  let ?file = "if app then (case dk_part d of None \<Rightarrow> [] | Some s \<Rightarrow> s) else []"
  obtain err1 f w evs1 where loop: "stream_loop dp mb 0 body ?file existing = (err1, f, w, evs1)"
    by (metis prod_cases4)
  have f: "prefix f C" "err1 = None \<longrightarrow> int (length f) = w"
    using stream_loop_prefix [OF loop data ex [symmetric]] by auto
  have d': "d' = d\<lparr>dk_part := Some f\<rparr>"
    using run None loop by (simp add: streamInto_def Let_def)
  moreover have "err = None \<Longrightarrow> f = C"
  proof -
    assume "err = None"
    then have "err1 = None" "w = tot"
      using run None loop tot(2) by (auto simp: streamInto_def Let_def split: option.splits if_splits)
    then have "length f = length C" using f(2) tot(1) by simp
    then show "f = C" using f(1) by (auto simp: prefix_def)
  qed
  ultimately show ?thesis using f(1) by (simp add: part_of_def)
qed

section \<open>An upstream that serves one object\<close>

text \<open>Every body is a part of \<open>C\<close>, cut anywhere: of the whole for a 200, of what follows the
  requested offset for a 206.\<close>

definition serves :: "string \<Rightarrow> fetch_env \<Rightarrow> bool" where
  "serves C env \<longleftrightarrow>
     (\<forall>i rng ifr r. en_get env i rng ifr = Inr r \<longrightarrow>
        (rs_status r = 200 \<longrightarrow> prefix (body_data (rs_body r)) C) \<and>
        (rs_status r = 206 \<longrightarrow>
           prefix (body_data (rs_body r)) (drop (nat (case rng of None \<Rightarrow> 0 | Some k \<Rightarrow> k)) C)))"

lemma partSize_Inr:
  "partSize dp d = Inr n \<Longrightarrow> n = int (length (case dk_part d of None \<Rightarrow> [] | Some s \<Rightarrow> s))"
  by (auto simp: partSize_def split: option.splits)

lemma attempt_prefix:
  assumes run: "attempt env o1 tot i d = (err, d', evs)"
    and srv: "serves C env" and old: "part_of C d" and tot: "tot = int (length C)" "0 < tot"
  shows "part_of C d' \<and> dk_dest d' = dk_dest d \<and> (err = None \<longrightarrow> dk_part d' = Some C)"
proof -
  let ?dp = "en_disk env i" and ?s = "case dk_part d of None \<Rightarrow> [] | Some s \<Rightarrow> s"
  show ?thesis
  proof (cases "partSize ?dp d")
    case (Inl e)
    then show ?thesis using run old by (auto simp: attempt_def)
  next
    case (Inr n)
    have n: "n = int (length ?s)" by (rule partSize_Inr [OF Inr])
    have ps: "prefix ?s C" using old by (simp add: part_of_def split: option.splits)
    then have le: "n \<le> tot" using n tot(1) prefix_length_le by fastforce
    show ?thesis
    proof (cases "n = tot")
      case True
      then have "?s = C" using ps n tot(1) by (auto simp: prefix_def)
      moreover from this have "dk_part d = Some C" using tot by (auto split: option.splits)
      moreover have "(err, d', evs) = (None, d, [])"
        using run Inr True tot(2) by (simp add: attempt_def)
      ultimately show ?thesis using old by simp
    next
      case False
      let ?rng = "if n > 0 then Some n else None" and ?ifr = "if n > 0 then fo_ETag o1 else []"
      have nat: "nat (case ?rng of None \<Rightarrow> 0 | Some k \<Rightarrow> k) = length ?s" using n by simp
      have small: "(tot > 0 \<and> n > tot) = False" using le by simp
      note unf = run [unfolded attempt_def Let_def Inr sum.case small if_False]
      show ?thesis
      proof (cases "en_build env")
        case False
        then show ?thesis using unf le \<open>n \<noteq> tot\<close> old by auto
      next
        case b: True
        show ?thesis
        proof (cases "en_get env i ?rng ?ifr")
          case (Inl e)
          then show ?thesis using unf le \<open>n \<noteq> tot\<close> b old by auto
        next
          case get: (Inr r)
          note unf' = unf [unfolded get sum.case]
          consider (full) "rs_status r = 200" | (part) "rs_status r = 206" | (other) "rs_status r \<noteq> 200" "rs_status r \<noteq> 206"
            by blast
          then show ?thesis
          proof cases
            case full
            have body: "prefix ([] @ body_data (rs_body r)) C"
              using srv get full unfolding serves_def by fastforce
            let ?d = "if n > 0 then remove_part ?dp d else d"
            have "streamInto ?dp (rs_body r) False tot 0 (fo_MaxBytes o1) ?d = (err, d', evs)"
              using unf' le \<open>n \<noteq> tot\<close> b full get by simp
            from streamInto_prefix [OF this _ _ tot] body old show ?thesis by simp
          next
            case part
            have body: "prefix (?s @ body_data (rs_body r)) C"
            proof -
              have "prefix (body_data (rs_body r)) (drop (length ?s) C)"
                using srv get part nat unfolding serves_def by metis
              moreover have "C = ?s @ drop (length ?s) C" using ps by (auto simp: prefix_def)
              ultimately show ?thesis by (metis same_prefix_prefix)
            qed
            consider "err \<noteq> None" "d' = remove_part ?dp d"
              | "streamInto ?dp (rs_body r) True tot n (fo_MaxBytes o1) d = (err, d', evs)"
              using unf' le \<open>n \<noteq> tot\<close> b part get by (auto split: option.splits if_splits)
            then show ?thesis
            proof cases
              case 1
              then show ?thesis using old by auto
            next
              case 2
              from streamInto_prefix [OF 2 _ _ tot old] body n show ?thesis by simp
            qed
          next
            case other
            then show ?thesis using unf' le \<open>n \<noteq> tot\<close> b get old
              by (auto simp: Let_def split: if_splits)
          qed
        qed
      qed
    qed
  qed
qed

lemma retry_loop_prefix:
  assumes "retry_loop env o1 tot i n e d = (err, d', evs)"
    and "serves C env" "part_of C d" "tot = int (length C)" "0 < tot"
  shows "part_of C d' \<and> dk_dest d' = dk_dest d \<and> (err = None \<longrightarrow> dk_part d' = Some C)"
  using assms(1,3)
proof (induction n arbitrary: i e d evs)
  case 0
  then show ?case by auto
next
  case (Suc n)
  obtain err1 d1 evs1 where a: "attempt env o1 tot i d = (err1, d1, evs1)" by (metis prod_cases3)
  note A = attempt_prefix [OF a assms(2) Suc.prems(2) assms(4,5)]
  show ?case
  proof (cases "if i > 0 then en_sleep env i else None")
    case (Some c)
    then show ?thesis using Suc.prems by auto
  next
    case None
    show ?thesis
    proof (cases err1)
      case None': None
      then show ?thesis using Suc.prems None a A by simp
    next
      case (Some e1)
      obtain r2 d2 evs2 where rec: "retry_loop env o1 tot (Suc i) n e1 d1 = (r2, d2, evs2)" by (metis prod_cases3)
      show ?thesis
      proof (cases "shouldRetry e1")
        case False
        then show ?thesis using Suc.prems None a A Some by simp
      next
        case True
        then have "r2 = err" "d2 = d'" using Suc.prems None a Some rec by simp_all
        then show ?thesis using Suc.IH [of "Suc i" e1 d1 evs2] rec A by simp
      qed
    qed
  qed
qed

section \<open>A conforming upstream\<close>

definition whole :: "string \<Rightarrow> body_read list" where
  "whole s = [\<lparr>br_ctx = None, br_data = s, br_end = Some None, br_ctx_after = None\<rparr>]"

definition range_header :: "nat \<Rightarrow> nat \<Rightarrow> string" where
  "range_header k n =
     ''bytes '' @ nat_digits k @ CHR ''-'' # nat_digits (n - 1) @ CHR ''/'' # nat_digits n"

lemma range_header_parses [simp]:
  "in_int64 (int k) \<Longrightarrow> parseContentRangeStart (range_header k n) = Some (int k)"
  by (simp only: range_header_def parseContentRangeStart_header)

lemma range_header_nonempty [simp]: "range_header k n \<noteq> []"
  by (simp add: range_header_def)

text \<open>The object \<open>B\<close> under the ETag \<open>tag\<close>: a Range is honoured when there is no If-Range or it names
  this ETag (RFC 9110).\<close>

definition serve :: "string \<Rightarrow> string \<Rightarrow> int option \<Rightarrow> string \<Rightarrow> transport_error + response" where
  "serve B tag rng ifr =
     (case rng of
        None \<Rightarrow> Inr \<lparr>rs_status = 200, rs_content_range = [], rs_body = whole B\<rparr>
      | Some k \<Rightarrow>
          if ifr \<noteq> [] \<and> ifr \<noteq> tag
          then Inr \<lparr>rs_status = 200, rs_content_range = [], rs_body = whole B\<rparr>
          else if int (length B) \<le> k then Inr \<lparr>rs_status = 416, rs_content_range = [], rs_body = []\<rparr>
          else Inr \<lparr>rs_status = 206,
                    rs_content_range = range_header (nat k) (length B),
                    rs_body = whole (drop (nat k) B)\<rparr>)"

definition conforming_env :: "string \<Rightarrow> string \<Rightarrow> fetch_env" where
  "conforming_env B tag =
     \<lparr>en_build = True, en_mkdir = None,
      en_head = Inr \<lparr>hr_status = 200, hr_content_length = nat_digits (length B), hr_etag = tag\<rparr>,
      en_get = (\<lambda>_. serve B tag), en_disk = (\<lambda>_. good_disk), en_sleep = (\<lambda>_. None), en_rename = None,
      en_redact = (\<lambda>s. s)\<rparr>"

text \<open>The same upstream after \<open>n\<close> attempts whose connection was reset.\<close>

definition flaky_env :: "nat \<Rightarrow> string \<Rightarrow> string \<Rightarrow> fetch_env" where
  "flaky_env n B tag =
     (conforming_env B tag)\<lparr>en_get := (\<lambda>i rng ifr. if i < n then Inl (UrlError ConnReset) else serve B tag rng ifr)\<rparr>"

lemma conforming_fields [simp]:
  "en_build (flaky_env n B tag)" "en_mkdir (flaky_env n B tag) = None" "en_rename (flaky_env n B tag) = None"
  "en_sleep (flaky_env n B tag) i = None" "en_disk (flaky_env n B tag) i = good_disk"
  "en_get (flaky_env n B tag) i rng ifr = (if i < n then Inl (UrlError ConnReset) else serve B tag rng ifr)"
  by (simp_all add: flaky_env_def conforming_env_def)

lemma flaky_probe [simp]:
  "in_int64 (int (length B)) \<Longrightarrow> fetch_probe (flaky_env n B tag) = Inr (int (length B), tag)"
  by (simp add: fetch_probe_def flaky_env_def conforming_env_def atoi_nat_digits)

lemma good_disk_fields [simp]:
  "dp_stat good_disk = None" "dp_remove good_disk" "dp_open good_disk = None"
  "dp_write good_disk k = None" "dp_sync good_disk = None"
  by (simp_all add: good_disk_def)

text \<open>An attempt against it, from any partial file shorter than the object.\<close>

lemma attempt_conforming:
  assumes part: "dk_part d = (if P = [] then None else Some P)" and len: "length P < length B"
    and n: "n \<le> i" and ok: "in_int64 (int (length B))" and mb: "fo_MaxBytes o1 = 0"
    and tag: "fo_ETag o1 = [] \<or> fo_ETag o1 = tag"
  shows "attempt (flaky_env n B tag) o1 (int (length B)) i d =
    (None, d\<lparr>dk_part := Some (P @ drop (length P) B)\<rparr>, [EvBytes (int (length B) - int (length P))])"
proof -
  have B: "B \<noteq> []" "drop (length P) B \<noteq> []" using len by auto
  show ?thesis
  proof (cases "P = []")
    case True
    then show ?thesis using part B n mb
      by (simp add: attempt_def partSize_def serve_def streamInto_def whole_def Let_def)
  next
    case False
    have "in_int64 (int (length P))" using ok len by (auto simp: in_int64_def)
    then show ?thesis using part len B n mb tag False
      by (auto simp: attempt_def partSize_def serve_def streamInto_def whole_def Let_def)
  qed
qed

lemma attempt_reset:
  assumes part: "dk_part d = (if P = [] then None else Some P)" and len: "length P < length B" and n: "i < n"
  shows "attempt (flaky_env n B tag) o1 (int (length B)) i d = (Some (Transport (UrlError ConnReset)), d, [])"
  using assms by (cases "P = []") (auto simp: attempt_def partSize_def Let_def)

lemma retry_conforming:
  assumes part: "dk_part d = (if P = [] then None else Some P)" and len: "length P < length B"
    and ok: "in_int64 (int (length B))" and mb: "fo_MaxBytes o1 = 0"
    and tag: "fo_ETag o1 = [] \<or> fo_ETag o1 = tag" and k: "0 < k" "n < i + k"
  shows "retry_loop (flaky_env n B tag) o1 (int (length B)) i k e d =
    (None, d\<lparr>dk_part := Some (P @ drop (length P) B)\<rparr>,
     replicate (n - i) (EvError True) @ [EvBytes (int (length B) - int (length P))])"
  using k
proof (induction k arbitrary: i e)
  case 0
  then show ?case by simp
next
  case (Suc k)
  show ?case
  proof (cases "i < n")
    case True
    then have "replicate (n - i) (EvError True) = EvError True # replicate (n - Suc i) (EvError True)"
      by (simp flip: replicate_Suc add: Suc_diff_Suc)
    then show ?thesis using Suc True attempt_reset [OF part len True, of tag o1]
      by (cases "i = 0") (simp_all add: shouldRetry_def)
  next
    case False
    then show ?thesis using Suc attempt_conforming [OF part len _ ok mb tag, of n i]
      by (cases "i = 0") simp_all
  qed
qed

text \<open>The whole download from such a partial file.\<close>

lemma Download_conforming:
  assumes part: "dk_part d = (if P = [] then None else Some P)" and len: "length P < length B"
    and ok: "in_int64 (int (length B))" and opts: "fo_MaxBytes o1 = 0" "fo_URL o1 \<noteq> []" "fo_DestPath o1 \<noteq> []"
      "fo_ExpectedSize o1 \<le> 0" "fo_ETag o1 = []"
    and retries: "n \<le> retry_budget o1"
    and dest: "dk_dest d = None"
  shows "Download (flaky_env n B tag) o1 d =
    \<lparr>dl_error = None, dl_meta = Some (int (length B), tag),
     dl_disk = \<lparr>dk_part = None, dk_dest = Some (P @ drop (length P) B)\<rparr>,
     dl_events = EvFileStart (fo_DestPath o1) (int (length B)) # replicate n (EvError True)
       @ [EvBytes (int (length B) - int (length P)), EvFileDone (fo_DestPath o1)]\<rparr>"
proof -
  have "fo_MaxBytes (with_etag tag o1) = 0" "fo_ETag (with_etag tag o1) = [] \<or> fo_ETag (with_etag tag o1) = tag"
    using opts by (simp_all add: with_etag_def)
  from retry_conforming [OF part len ok this, of "Suc (retry_budget o1)" n 0]
  have run: "retry_loop (flaky_env n B tag) (with_etag tag o1) (int (length B)) 0 (Suc (retry_budget o1)) UrlRequired d =
    (None, d\<lparr>dk_part := Some (P @ drop (length P) B)\<rparr>,
     replicate n (EvError True) @ [EvBytes (int (length B) - int (length P))])"
    using retries by simp
  have "0 < length B" "B \<noteq> []" using len by auto
  then show ?thesis using run opts dest ok
    by (simp add: Download_def drop_stale_def already_there_def finish_download_def Let_def del: retry_loop.simps)
qed

section \<open>Properties\<close>

text \<open>C10: A download delivers the object. When every body the upstream sends, cut wherever it is, is
  part of one object whose length it advertised, then through whatever faults of network and disk
  the partial file stays a prefix of that object, a failed download leaves the destination alone,
  and a successful one leaves the object there, unless a file of exactly that length was there
  already.\<close>
theorem download_delivers:
  assumes "serves C env" and "part_of C d" and "fetch_probe env = Inr (int (length C), tag)" and "C \<noteq> []"
    and "r = Download env o1 d"
  shows "part_of C (dl_disk r) \<and>
    (dl_error r \<noteq> None \<longrightarrow> dk_dest (dl_disk r) = dk_dest d) \<and>
    (dl_error r = None \<longrightarrow> dk_dest (dl_disk r) = Some C \<or>
       dk_dest (dl_disk r) = dk_dest d \<and> (\<exists>s. dk_dest d = Some s \<and> length s = length C))"
proof -
  have tot: "0 < int (length C)" using assms(4) by simp
  let ?d = "drop_stale env o1 tag d" and ?o = "with_etag tag o1"
  have d: "part_of C ?d" "dk_dest ?d = dk_dest d" using assms(2) by (simp_all add: drop_stale_def)
  obtain err d2 evs where run:
    "retry_loop env ?o (int (length C)) 0 (Suc (retry_budget o1)) UrlRequired ?d = (err, d2, evs)"
    by (metis prod_cases3)
  have R: "part_of C d2" "dk_dest d2 = dk_dest d" "err = None \<Longrightarrow> dk_part d2 = Some C"
    using retry_loop_prefix [OF run assms(1) d(1) refl tot] d(2) by simp_all
  let ?early = "fo_URL o1 = [] \<or> fo_DestPath o1 = [] \<or> en_mkdir env \<noteq> None \<or>
    fo_ExpectedSize o1 > 0 \<and> fo_ExpectedSize o1 \<noteq> int (length C)"
  show ?thesis
  proof (cases ?early)
    case True
    then have "dl_error r \<noteq> None" "dl_disk r = d"
      using assms(3-5) tot by (auto simp: Download_def failed_download_def split: option.splits)
    then show ?thesis using assms(2) by auto
  next
    case False
    then have r: "r = (if already_there (int (length C)) ?d
        then \<lparr>dl_error = None, dl_meta = Some (int (length C), tag), dl_disk = ?d,
               dl_events = [EvFileStart (fo_DestPath o1) (int (length C)), EvFileDone (fo_DestPath o1)]\<rparr>
        else finish_download env o1 (int (length C), tag) (err, d2, evs))"
      using assms(3-5) tot run
      by (cases "0 < fo_ExpectedSize o1") (simp_all add: Download_def Let_def del: retry_loop.simps)
    show ?thesis
    proof (cases "already_there (int (length C)) ?d")
      case True
      then obtain s where "dk_dest d = Some s" "length s = length C"
        using d(2) by (auto simp: already_there_def split: option.splits)
      then show ?thesis using r True d by simp
    next
      case False
      then show ?thesis using r R
        by (cases err; cases "en_rename env") (simp_all add: finish_download_def part_of_def Let_def)
    qed
  qed
qed

lemma serves_conforming: "in_int64 (int (length B)) \<Longrightarrow> serves B (flaky_env n B tag)"
  by (auto simp: serves_def serve_def whole_def split: option.splits if_splits)

theorem download_delivers_witness:
  "dk_dest (dl_disk (Download (flaky_env 2 ''abcdef'' ''v1'')
     \<lparr>fo_URL = ''https://h/m'', fo_DestPath = ''/m'', fo_ExpectedSize = 0, fo_ETag = [], fo_MaxRetries = 0,
      fo_MaxBytes = 0\<rparr> \<lparr>dk_part = Some ''abc'', dk_dest = None\<rparr>)) \<in> {None, Some ''abcdef''}"
proof -
  let ?o = "\<lparr>fo_URL = ''https://h/m'', fo_DestPath = ''/m'', fo_ExpectedSize = 0, fo_ETag = [], fo_MaxRetries = 0,
      fo_MaxBytes = 0\<rparr>" and ?d = "\<lparr>dk_part = Some ''abc'', dk_dest = None\<rparr>"
  have i: "in_int64 (int (length ''abcdef''))" by (simp add: in_int64_def)
  have p: "part_of ''abcdef'' ?d" by (simp add: part_of_def)
  from download_delivers [OF serves_conforming [OF i] p flaky_probe [OF i] _ refl, of 2 "''v1''" ?o]
  show ?thesis by (cases "dl_error (Download (flaky_env 2 ''abcdef'' ''v1'') ?o ?d)") auto
qed

text \<open>C23: A resumed download fetches just the missing bytes, and completes: with the partial file any
  proper beginning of the object, against an upstream that resets the connection at most as often
  as the retry budget allows and then serves it, the destination is the object, the bytes reported
  are those that were missing, and each failed attempt is reported once.\<close>
theorem resume_fetches_missing_bytes:
  assumes "dk_part d = (if k = 0 then None else Some (take k B))" and "k < length B"
    and "in_int64 (int (length B))" and "fo_MaxBytes o1 = 0" "fo_URL o1 \<noteq> []" "fo_DestPath o1 \<noteq> []"
    and "fo_ExpectedSize o1 \<le> 0" "fo_ETag o1 = []" and "n \<le> retry_budget o1" and "dk_dest d = None"
  shows "Download (flaky_env n B tag) o1 d =
    \<lparr>dl_error = None, dl_meta = Some (int (length B), tag),
     dl_disk = \<lparr>dk_part = None, dk_dest = Some B\<rparr>,
     dl_events = EvFileStart (fo_DestPath o1) (int (length B)) # replicate n (EvError True)
       @ [EvBytes (int (length B) - int k), EvFileDone (fo_DestPath o1)]\<rparr>"
proof -
  have "dk_part d = (if take k B = [] then None else Some (take k B))" "length (take k B) < length B"
    using assms(1,2) by auto
  from Download_conforming [OF this assms(3-10), of tag] assms(2) show ?thesis by simp
qed

theorem resume_fetches_missing_bytes_witness:
  "dk_dest (dl_disk (Download (flaky_env 5 ''abcdef'' ''v1'')
     \<lparr>fo_URL = ''https://h/m'', fo_DestPath = ''/m'', fo_ExpectedSize = 0, fo_ETag = [], fo_MaxRetries = 0,
      fo_MaxBytes = 0\<rparr> \<lparr>dk_part = Some ''abc'', dk_dest = None\<rparr>)) = Some ''abcdef''"
  by (subst resume_fetches_missing_bytes [where k = 3])
    (simp_all add: in_int64_def retry_budget_def defaultMaxRetries_def)

text \<open>C26: Resuming trusts the partial file. A caller that does not hand over the ETag its partial
  file was fetched under gets whatever that file holds in front of the rest of the upstream's
  current object, as a successful download of the right length, when the object was replaced
  between the two passes: the If-Range header sent is the new object's own ETag, so the upstream
  always honours the range. Handing over the old ETag gives the current object.\<close>
theorem resume_splices_replaced_object:
  assumes "dk_part d = Some P" and "P \<noteq> take (length P) B" and "length P < length B"
    and "in_int64 (int (length B))" and "fo_MaxBytes o1 = 0" "fo_URL o1 \<noteq> []" "fo_DestPath o1 \<noteq> []"
    and "fo_ExpectedSize o1 \<le> 0" "fo_ETag o1 = []" and "dk_dest d = None" and "tag \<noteq> []" "old \<noteq> []" "old \<noteq> tag"
  shows "dl_error (Download (flaky_env 0 B tag) o1 d) = None \<and>
    dk_dest (dl_disk (Download (flaky_env 0 B tag) o1 d)) = Some (P @ drop (length P) B) \<and>
    P @ drop (length P) B \<noteq> B \<and> length (P @ drop (length P) B) = length B \<and>
    dk_dest (dl_disk (Download (flaky_env 0 B tag) (o1\<lparr>fo_ETag := old\<rparr>) d)) = Some B"
proof -
  have ne: "P \<noteq> []" using assms(2) by auto
  have part: "dk_part d = (if P = [] then None else Some P)" using assms(1) ne by simp
  note splice = Download_conforming [OF part assms(3-9) _ assms(10), of 0 tag]
  have "P @ drop (length P) B \<noteq> B"
    using assms(2) by (metis append_eq_conv_conj)
  moreover have "dk_dest (dl_disk (Download (flaky_env 0 B tag) (o1\<lparr>fo_ETag := old\<rparr>) d)) = Some B"
  proof -
    let ?d = "d\<lparr>dk_part := None\<rparr>" and ?o = "o1\<lparr>fo_ETag := tag\<rparr>"
    have "retry_loop (flaky_env 0 B tag) ?o (int (length B)) 0 (Suc (retry_budget o1)) UrlRequired ?d =
      (None, ?d\<lparr>dk_part := Some B\<rparr>, [EvBytes (int (length B))])"
      using retry_conforming [of ?d "[]" B ?o tag "Suc (retry_budget o1)" 0 0] assms
      by (cases "B = []") (simp_all del: retry_loop.simps)
    moreover have "retry_budget (o1\<lparr>fo_ETag := old\<rparr>) = retry_budget o1" by (simp add: retry_budget_def)
    ultimately show ?thesis using assms
      by (auto simp: Download_def drop_stale_def with_etag_def remove_part_def already_there_def
          finish_download_def Let_def simp del: retry_loop.simps)
  qed
  ultimately show ?thesis using splice assms(3) by simp
qed

theorem resume_splices_replaced_object_witness:
  "dk_dest (dl_disk (Download (flaky_env 0 ''ABCDEF'' ''v2'')
     \<lparr>fo_URL = ''https://h/m'', fo_DestPath = ''/m'', fo_ExpectedSize = 0, fo_ETag = [], fo_MaxRetries = 0,
      fo_MaxBytes = 0\<rparr> \<lparr>dk_part = Some ''abc'', dk_dest = None\<rparr>)) = Some ''abcDEF''"
  using resume_splices_replaced_object [of "\<lparr>dk_part = Some ''abc'', dk_dest = None\<rparr>" "''abc''" "''ABCDEF''"
    "\<lparr>fo_URL = ''https://h/m'', fo_DestPath = ''/m'', fo_ExpectedSize = 0, fo_ETag = [], fo_MaxRetries = 0,
      fo_MaxBytes = 0\<rparr>" "''v2''" "''v1''"]
  by (simp add: in_int64_def)

lemma stream_loop_bound:
  "stream_loop dp mb k body fl w = (err, f, w', evs) \<Longrightarrow> int (length fl) = w \<Longrightarrow> 0 < mb \<Longrightarrow> w \<le> mb \<Longrightarrow>
   \<forall>r \<in> set body. int (length (br_data r)) \<le> buf \<Longrightarrow> 0 \<le> buf \<Longrightarrow> int (length f) \<le> mb + buf"
proof (induction body arbitrary: k w fl err f w' evs)
  case Nil
  then show ?case by simp
next
  case (Cons r rs)
  let ?d = "br_data r"
  obtain err1 f1 w1 evs1 where rec:
    "stream_loop dp mb (if ?d = [] then k else Suc k) rs (fl @ ?d) (w + int (length ?d)) = (err1, f1, w1, evs1)"
    by (metis prod_cases4)
  have cut: "int (length (take m ?d)) \<le> buf" for m
    using Cons.prems(5) by (auto simp: min_def)
  have IH: "w + int (length ?d) \<le> mb \<Longrightarrow> int (length f1) \<le> mb + buf"
    using Cons.IH [OF rec] Cons.prems by simp
  have d: "int (length ?d) \<le> buf" using Cons.prems(5) by simp
  show ?case
    using Cons.prems(1-4,6) rec IH d cut
    by (force simp: Let_def split: option.splits if_splits)
qed

lemma streamInto_bound:
  assumes st: "streamInto dp body app tot n mb d = (err, d', evs)" and s': "dk_part d' = Some s'"
    and n: "n = int (length (if app then (case dk_part d of None \<Rightarrow> [] | Some s \<Rightarrow> s) else []))"
    and old: "\<forall>s. dk_part d = Some s \<longrightarrow> int (length s) \<le> mb"
    and mb: "0 < mb" "0 \<le> buf" "\<forall>r \<in> set body. int (length (br_data r)) \<le> buf"
  shows "int (length s') \<le> mb + buf"
proof (cases "dp_open dp")
  case (Some e)
  then have "d' = d" using st by (simp add: streamInto_def)
  then show ?thesis using s' old mb by auto
next
  case None
  let ?f = "if app then (case dk_part d of None \<Rightarrow> [] | Some s \<Rightarrow> s) else []"
  obtain e1 f w evs1 where loop: "stream_loop dp mb 0 body ?f n = (e1, f, w, evs1)" by (metis prod_cases4)
  have "d' = d\<lparr>dk_part := Some f\<rparr>" using st None loop by (simp add: streamInto_def Let_def)
  then have "s' = f" using s' by simp
  moreover have "n \<le> mb" using n old mb by (auto split: if_splits option.splits)
  ultimately show ?thesis using stream_loop_bound [OF loop n [symmetric] mb(1) _ mb(3,2)] by simp
qed

text \<open>An attempt keeps the partial file, removes it or streams into it, appending exactly when the
  count it starts from is the file's length.\<close>

lemma attempt_cases:
  assumes "attempt env o1 tot i d = (err, d', evs)" and "dp_remove (en_disk env i)"
  obtains "d' = d" | "d' = remove_part (en_disk env i) d"
  | rng ifr r app n k where "en_get env i rng ifr = Inr r" "k = d \<or> k = remove_part (en_disk env i) d"
      "streamInto (en_disk env i) (rs_body r) app tot n (fo_MaxBytes o1) k = (err, d', evs)"
      "n = int (length (if app then (case dk_part k of None \<Rightarrow> [] | Some s \<Rightarrow> s) else []))"
proof (cases "partSize (en_disk env i) d")
  case (Inl e)
  then show thesis using that(1) assms by (simp add: attempt_def)
next
  case (Inr n0)
  let ?dp = "en_disk env i"
  let ?big = "tot > 0 \<and> n0 > tot"
  let ?k = "if ?big then remove_part ?dp d else d" and ?n = "if ?big then 0 else n0"
  have n0: "n0 = int (length (case dk_part d of None \<Rightarrow> [] | Some s \<Rightarrow> s))" by (rule partSize_Inr [OF Inr])
  have n: "?n = int (length (case dk_part ?k of None \<Rightarrow> [] | Some s \<Rightarrow> s))"
    using n0 assms(2) by (simp add: remove_part_def)
  have rr: "remove_part ?dp (remove_part ?dp x) = remove_part ?dp x" for x by (simp add: remove_part_def)
  let ?rng = "if ?n > 0 then Some ?n else None" and ?ifr = "if ?n > 0 then fo_ETag o1 else []"
  have kept: "d' = ?k \<Longrightarrow> thesis" using that(1,2) by (cases ?big) simp_all
  have gone: "d' = remove_part ?dp ?k \<Longrightarrow> thesis" using that(2) rr by (cases ?big) simp_all
  note unf = assms(1) [unfolded attempt_def Let_def Inr sum.case]
  show thesis
  proof (cases "tot > 0 \<and> ?n = tot \<or> \<not> en_build env")
    case True
    then show thesis using unf kept by (auto split: if_splits)
  next
    case go: False
    show thesis
    proof (cases "en_get env i ?rng ?ifr")
      case (Inl e)
      then have "d' = ?k" using unf go by (auto split: if_splits)
      then show thesis by (rule kept)
    next
      case get: (Inr r)
      have res: "d' = ?k \<or> d' = remove_part ?dp ?k \<or>
        streamInto ?dp (rs_body r) False tot 0 (fo_MaxBytes o1) (if ?n > 0 then remove_part ?dp ?k else ?k) = (err, d', evs) \<or>
        streamInto ?dp (rs_body r) True tot ?n (fo_MaxBytes o1) ?k = (err, d', evs)"
        using unf [unfolded get sum.case] go by (auto split: if_splits option.splits)
      have k: "?k = d \<or> ?k = remove_part ?dp d" by simp
      have k': "(if ?n > 0 then remove_part ?dp ?k else ?k) = d \<or>
        (if ?n > 0 then remove_part ?dp ?k else ?k) = remove_part ?dp d" using rr by auto
      from res show thesis
        using kept gone that(3) [OF get k', of False 0] that(3) [OF get k, of True ?n] n by auto
    qed
  qed
qed

text \<open>The byte cap bounds an attempt: one that starts within the cap never leaves more in the
  partial file than the cap and one read, whatever the upstream sends.\<close>
theorem byte_cap_bounds_attempt:
  assumes "0 < fo_MaxBytes o1" and "0 \<le> buf" and "attempt env o1 tot i d = (err, d', evs)"
    and "dp_remove (en_disk env i)"
    and "\<And>rng ifr r x. en_get env i rng ifr = Inr r \<Longrightarrow> x \<in> set (rs_body r) \<Longrightarrow> int (length (br_data x)) \<le> buf"
    and "\<And>s. dk_part d = Some s \<Longrightarrow> int (length s) \<le> fo_MaxBytes o1" and "dk_part d' = Some s'"
  shows "int (length s') \<le> fo_MaxBytes o1 + buf"
  using assms(3,4)
proof (cases rule: attempt_cases)
  case 1
  then show ?thesis using assms(2,6,7) by force
next
  case 2
  then show ?thesis using assms(2,4,7) by (simp add: remove_part_def)
next
  case (3 rng ifr r app n k)
  have "\<forall>s. dk_part k = Some s \<longrightarrow> int (length s) \<le> fo_MaxBytes o1"
    using 3(2) assms(4,6) by (auto simp: remove_part_def)
  from streamInto_bound [OF 3(3) assms(7) 3(4) this assms(1,2)] assms(5) [OF 3(1)] show ?thesis by simp
qed

lemma capped_attempt:
  "attempt (flaky_env 0 ''abcdef'' ''v1'') \<lparr>fo_URL = ''u'', fo_DestPath = ''/m'', fo_ExpectedSize = 0,
     fo_ETag = [], fo_MaxRetries = 0, fo_MaxBytes = 2\<rparr> 6 0 \<lparr>dk_part = Some ''a'', dk_dest = None\<rparr> =
   (Some (MaxBytesExceeded 6 2), \<lparr>dk_part = Some ''abcdef'', dk_dest = None\<rparr>, [EvBytes 5])"
proof -
  have p: "parseContentRangeStart (range_header (Suc 0) n) = Some 1" for n
    using range_header_parses [of "Suc 0" n] by (simp add: in_int64_def)
  show ?thesis
    by (simp add: attempt_def partSize_def serve_def streamInto_def whole_def Let_def p)
qed

theorem byte_cap_bounds_attempt_witness:
  "\<exists>s'. dk_part (fst (snd (attempt (flaky_env 0 ''abcdef'' ''v1'') \<lparr>fo_URL = ''u'', fo_DestPath = ''/m'',
     fo_ExpectedSize = 0, fo_ETag = [], fo_MaxRetries = 0, fo_MaxBytes = 2\<rparr> 6 0
     \<lparr>dk_part = Some ''a'', dk_dest = None\<rparr>))) = Some s' \<and> int (length s') \<le> 2 + 6"
proof -
  have small: "int (length (br_data x)) \<le> 6"
    if "en_get (flaky_env 0 ''abcdef'' ''v1'') 0 rng ifr = Inr r" "x \<in> set (rs_body r)" for rng ifr r x
    using that by (auto simp: serve_def whole_def split: option.splits if_splits)
  have "int (length ''abcdef'') \<le> 2 + 6"
    using byte_cap_bounds_attempt [OF _ _ capped_attempt _ small] by simp
  then show ?thesis by (simp only: capped_attempt) simp
qed

text \<open>The cap does not bound the passes. Once the partial file is over the cap, an attempt whose
  size is unknown and which the upstream resumes appends one more read before it fails; the error
  ends the pass without a retry, and the partial file that the next pass resumes has grown.\<close>
theorem capped_part_grows_every_pass:
  assumes "dk_part d = Some s" "0 < fo_MaxBytes o1" "fo_MaxBytes o1 < int (length s)" "tot \<le> 0" "en_build env"
    and "en_disk env i = good_disk" "br_ctx x = None" "br_data x \<noteq> []"
    and "en_get env i (Some (int (length s))) (fo_ETag o1) =
      Inr \<lparr>rs_status = 206, rs_content_range = [], rs_body = x # xs\<rparr>"
  shows "\<exists>e evs. attempt env o1 tot i d = (Some e, d\<lparr>dk_part := Some (s @ br_data x)\<rparr>, evs) \<and> \<not> shouldRetry e"
  using assms
  by (cases "s = []") (simp_all add: attempt_def partSize_def Let_def streamInto_def shouldRetry_def)

theorem capped_part_grows_every_pass_witness:
  "\<exists>e evs. attempt ((flaky_env 0 [] [])\<lparr>en_get := \<lambda>_ _ _. Inr \<lparr>rs_status = 206, rs_content_range = [],
       rs_body = whole ''zz''\<rparr>\<rparr>) \<lparr>fo_URL = ''u'', fo_DestPath = ''/m'', fo_ExpectedSize = 0, fo_ETag = [],
       fo_MaxRetries = 0, fo_MaxBytes = 2\<rparr> (-1) 0 \<lparr>dk_part = Some ''abc'', dk_dest = None\<rparr> =
     (Some e, \<lparr>dk_part = Some ''abczz'', dk_dest = None\<rparr>, evs) \<and> \<not> shouldRetry e"
  using capped_part_grows_every_pass [of "\<lparr>dk_part = Some ''abc'', dk_dest = None\<rparr>" "''abc''"
      "\<lparr>fo_URL = ''u'', fo_DestPath = ''/m'', fo_ExpectedSize = 0, fo_ETag = [], fo_MaxRetries = 0, fo_MaxBytes = 2\<rparr>"
      "-1" "(flaky_env 0 [] [])\<lparr>en_get := \<lambda>_ _ _. Inr \<lparr>rs_status = 206, rs_content_range = [], rs_body = whole ''zz''\<rparr>\<rparr>"
      0 "hd (whole ''zz'')" "[]"]
  by (simp add: whole_def)

text \<open>The back-off grows to its cap and never past it: for a positive base and a cap below a
  quarter of the int64 range, and a jitter of at most the delay, the wait lies between zero and twice
  the smaller of the cap and the delay, and the doubling never wraps.\<close>
theorem backoff_bounded:
  assumes "0 < base" "0 < cap" "cap < 2 ^ 61" "base < 2 ^ 61" and "\<And>d. 0 \<le> d \<Longrightarrow> jit d \<le> d"
    and "0 \<le> rnd" "\<And>d. 0 < jit d \<Longrightarrow> rnd < 2 * jit d"
  shows "0 \<le> backoff jit rnd i base cap \<and> backoff jit rnd i base cap \<le> 2 * cap \<and>
    backoff (\<lambda>_. 0) rnd i base cap = min cap (base * 2 ^ nat i)"
proof -
  have dbl: "0 < d \<Longrightarrow> d < 2 ^ 62 \<Longrightarrow>
      0 < double_until cap n d \<and> min cap (double_until cap n d) = min cap (d * 2 ^ n)" for n d
  proof (induction n arbitrary: d)
    case (Suc n)
    show ?case
    proof (cases "d < cap")
      case True
      then have "d * 2 < 2 ^ 62" using assms(3) by simp
      moreover from this have "wrap64 (d * 2) = d * 2" using Suc.prems by (simp add: in_int64_def)
      ultimately show ?thesis using Suc.IH [of "d * 2"] Suc.prems True by (simp add: mult.assoc)
    next
      case False
      have "(1 :: int) \<le> 2 ^ Suc n" by (rule one_le_power) simp
      then have "d * 1 \<le> d * 2 ^ Suc n" using Suc.prems(1) by (intro mult_left_mono) simp_all
      with False have "cap \<le> d * 2 ^ Suc n" by linarith
      then show ?thesis using False Suc.prems by (simp add: min_def)
    qed
  qed simp
  let ?d = "double_until cap (nat i) base"
  have d: "0 < ?d" "min cap ?d = min cap (base * 2 ^ nat i)"
    using dbl [of base "nat i"] assms(1,4) by simp_all
  let ?m = "if ?d > cap then cap else ?d"
  have m: "0 < ?m" "?m \<le> cap" using d(1) assms(2) by auto
  have m3: "?m = min cap ?d" by (simp add: min_def)
  have j: "jit ?m \<le> ?m" using assms(5) m(1) by simp
  have r: "0 < jit ?m \<Longrightarrow> rnd < 2 * jit ?m" by (rule assms(7))
  have "backoff (\<lambda>_. 0) rnd i base cap = ?m" by (simp add: backoff_def Let_def)
  then have z: "backoff (\<lambda>_. 0) rnd i base cap = min cap (base * 2 ^ nat i)" using m3 d(2) by argo
  have "backoff jit rnd i base cap = (if jit ?m \<le> 0 then ?m else if ?m + (rnd - jit ?m) < 0 then 0 else ?m + (rnd - jit ?m))"
    by (simp only: backoff_def Let_def)
  then have "0 \<le> backoff jit rnd i base cap" "backoff jit rnd i base cap \<le> 2 * cap"
    using m(1,2) j r assms(6) by (auto split: if_splits)
  with z show ?thesis by blast
qed

theorem backoff_bounded_witness:
  "backoff (\<lambda>d. d div 5) 0 3 500000000 60000000000 \<le> 2 * 60000000000"
  by (rule backoff_bounded [THEN conjunct2, THEN conjunct1]) auto

end
