(* ===== verification/Anthropic.thy ===== *)
theory Anthropic
  imports JsonDecode
begin

text \<open>
  \<open>internal/anthropic\<close>: the request and response types of the Messages API with their decoders
  (types.go), the translation of tools, tool calls and images into the OpenAI shape (tools.go,
  vision.go), the token estimate (count_tokens.go) and the server-sent event stream (events.go). The
  stream protocol that events.go documents is an automaton here, and the contract of a translator
  that produces such streams is the locale \<open>stream_translator\<close>; the two adapters interpret it.

  A value of type \<open>any\<close> is a \<open>json\<close> whose objects have no repeated key. \<open>fl\<close> is the float64 reading
  of a number literal (see \<open>JsonDecode\<close>). The text of an error that a library produced is left out of
  the messages.
\<close>

section \<open>Content blocks (types.go)\<close>

abbreviation BlockText :: string where "BlockText \<equiv> ''text''"
abbreviation BlockImage :: string where "BlockImage \<equiv> ''image''"
abbreviation BlockToolUse :: string where "BlockToolUse \<equiv> ''tool_use''"
abbreviation BlockToolResult :: string where "BlockToolResult \<equiv> ''tool_result''"
abbreviation RoleUser :: string where "RoleUser \<equiv> ''user''"
abbreviation RoleAssistant :: string where "RoleAssistant \<equiv> ''assistant''"
abbreviation RoleSystem :: string where "RoleSystem \<equiv> ''system''"
abbreviation RoleTool :: string where "RoleTool \<equiv> ''tool''"

record image_source =
  is_Type :: string
  is_MediaType :: string
  is_Data :: string
  is_URL :: string

definition zero_source :: image_source where
  "zero_source = \<lparr>is_Type = [], is_MediaType = [], is_Data = [], is_URL = []\<rparr>"

datatype content = Content (c_plain: string) (c_blocks: "content_block list")
and content_block =
  Block (b_Type: string) (b_Text: string) (b_Source: "image_source option") (b_ID: string)
    (b_Name: string) (b_Input: string) (b_ToolUseID: string) (b_Content: "content option")
    (b_IsError: bool)

definition zero_content :: content where
  "zero_content = Content [] []"

definition zero_block :: content_block where
  "zero_block = Block [] [] None [] [] [] [] None False"

definition text_block :: "string \<Rightarrow> content_block" where
  "text_block t = Block BlockText t None [] [] [] [] None False"

definition tool_use_block :: "string \<Rightarrow> string \<Rightarrow> string \<Rightarrow> content_block" where
  "tool_use_block i n inp = Block BlockToolUse [] None i n inp [] None False"

text \<open>The canonical view of a content, and its text.\<close>

definition Blocks :: "content \<Rightarrow> content_block list" where
  "Blocks c =
     (if c_blocks c \<noteq> [] then c_blocks c
      else if c_plain c \<noteq> [] then [text_block (c_plain c)]
      else [])"

definition texts_of :: "content_block list \<Rightarrow> string" where
  "texts_of bs = concat (map (\<lambda>b. if b_Type b = BlockText then b_Text b else []) bs)"

definition Text :: "content \<Rightarrow> string" where
  "Text c = (if c_plain c \<noteq> [] \<and> c_blocks c = [] then c_plain c else texts_of (c_blocks c))"

section \<open>Decoding a request (types.go, count_tokens.go)\<close>

datatype block_field =
    FType | FText | FSource | FID | FName | FInput | FToolUseID | FContent | FIsError

definition block_fields :: "(string \<times> block_field) list" where
  "block_fields =
     [(''type'', FType), (''text'', FText), (''source'', FSource), (''id'', FID), (''name'', FName),
      (''input'', FInput), (''tool_use_id'', FToolUseID), (''content'', FContent),
      (''is_error'', FIsError)]"

definition store_source :: "image_source store" where
  "store_source = store_struct
     [(''type'', on is_Type (\<lambda>v s. s\<lparr>is_Type := v\<rparr>) store_string),
      (''media_type'', on is_MediaType (\<lambda>v s. s\<lparr>is_MediaType := v\<rparr>) store_string),
      (''data'', on is_Data (\<lambda>v s. s\<lparr>is_Data := v\<rparr>) store_string),
      (''url'', on is_URL (\<lambda>v s. s\<lparr>is_URL := v\<rparr>) store_string)]"

definition set_content :: "content option \<Rightarrow> content_block \<Rightarrow> content_block" where
  "set_content c' b =
     (case b of Block ty tx src i n inp tu c e \<Rightarrow> Block ty tx src i n inp tu c' e)"

fun store_flat :: "block_field \<Rightarrow> content_block \<Rightarrow> rjson \<Rightarrow> content_block option" where
  "store_flat f (Block ty tx src i n inp tu c e) j =
     (case f of
        FType \<Rightarrow> map_option (\<lambda>v. Block v tx src i n inp tu c e) (store_string ty j)
      | FText \<Rightarrow> map_option (\<lambda>v. Block ty v src i n inp tu c e) (store_string tx j)
      | FSource \<Rightarrow> map_option (\<lambda>v. Block ty tx v i n inp tu c e)
                   (store_ptr zero_source store_source src j)
      | FID \<Rightarrow> map_option (\<lambda>v. Block ty tx src v n inp tu c e) (store_string i j)
      | FName \<Rightarrow> map_option (\<lambda>v. Block ty tx src i v inp tu c e) (store_string n j)
      | FInput \<Rightarrow> map_option (\<lambda>v. Block ty tx src i n v tu c e) (store_raw inp j)
      | FToolUseID \<Rightarrow> map_option (\<lambda>v. Block ty tx src i n inp v c e) (store_string tu j)
      | FContent \<Rightarrow> None
      | FIsError \<Rightarrow> map_option (\<lambda>v. Block ty tx src i n inp tu c v) (store_bool e j))"

text \<open>\<open>Content.UnmarshalJSON\<close>: a string or an array of blocks; each block may hold a content again.\<close>

fun store_content :: "content \<Rightarrow> rjson \<Rightarrow> content option"
and store_blocks :: "content_block list \<Rightarrow> rjson list \<Rightarrow> content_block list option"
and store_block :: "content_block \<Rightarrow> rjson \<Rightarrow> content_block option"
and store_block_members :: "content_block \<Rightarrow> (string \<times> rjson) list \<Rightarrow> content_block option" where
  "store_content c (RScalar x v) =
     (case v of
        JStr s \<Rightarrow> Some (Content s (c_blocks c))
      | JNull \<Rightarrow> Some c
      | _ \<Rightarrow> None)"
| "store_content c (RArr x js) = map_option (Content (c_plain c)) (store_blocks (c_blocks c) js)"
| "store_content c (RObj x fs) = None"
| "store_blocks cur [] = Some []"
| "store_blocks cur (j # js) =
     (case store_block (case cur of [] \<Rightarrow> zero_block | b # bs \<Rightarrow> b) j of
        None \<Rightarrow> None
      | Some b \<Rightarrow> map_option (Cons b) (store_blocks (drop 1 cur) js))"
| "store_block b (RScalar x v) = (if v = JNull then Some b else None)"
| "store_block b (RArr x js) = None"
| "store_block b (RObj x fs) = store_block_members b fs"
| "store_block_members b [] = Some b"
| "store_block_members b ((k, j) # fs) =
     (case field_of block_fields k of
        None \<Rightarrow> store_block_members b fs
      | Some f \<Rightarrow>
          (case (if f \<noteq> FContent then store_flat f b j
                 else if plain j = JNull then Some (set_content None b)
                 else map_option (\<lambda>c. set_content (Some c) b)
                   (store_content (case b_Content b of None \<Rightarrow> zero_content | Some c \<Rightarrow> c) j)) of
             None \<Rightarrow> None
           | Some b' \<Rightarrow> store_block_members b' fs))"

text \<open>\<open>SystemPrompt.UnmarshalJSON\<close>; only the flattened text is read by the adapters.\<close>

definition store_system :: "string store" where
  "store_system cur j =
     (case j of
        RScalar x (JStr s) \<Rightarrow> Some s
      | RScalar x JNull \<Rightarrow> Some cur
      | RArr x js \<Rightarrow> map_option texts_of (store_blocks [] js)
      | _ \<Rightarrow> None)"

record message =
  m_Role :: string
  m_Content :: content

record tool =
  t_Name :: string
  t_Description :: string
  t_InputSchema :: string

definition store_message :: "message store" where
  "store_message = store_struct
     [(''role'', on m_Role (\<lambda>v m. m\<lparr>m_Role := v\<rparr>) store_string),
      (''content'', on m_Content (\<lambda>v m. m\<lparr>m_Content := v\<rparr>) store_content)]"

definition store_tool :: "tool store" where
  "store_tool = store_struct
     [(''name'', on t_Name (\<lambda>v t. t\<lparr>t_Name := v\<rparr>) store_string),
      (''description'', on t_Description (\<lambda>v t. t\<lparr>t_Description := v\<rparr>) store_string),
      (''input_schema'', on t_InputSchema (\<lambda>v t. t\<lparr>t_InputSchema := v\<rparr>) store_raw)]"

definition zero_message :: message where
  "zero_message = \<lparr>m_Role = [], m_Content = zero_content\<rparr>"

definition zero_tool :: tool where
  "zero_tool = \<lparr>t_Name = [], t_Description = [], t_InputSchema = []\<rparr>"

definition store_float :: "(string \<Rightarrow> string option) \<Rightarrow> string store" where
  "store_float fl cur j =
     (case j of RScalar x (JNum l) \<Rightarrow> fl l | RScalar x JNull \<Rightarrow> Some cur | _ \<Rightarrow> None)"

record messages_request =
  mr_Model :: string
  mr_MaxTokens :: int
  mr_Messages :: "message list"
  mr_System :: string
  mr_Stream :: bool
  mr_Temperature :: "string option"
  mr_TopP :: "string option"
  mr_TopK :: "int option"
  mr_StopSequences :: "string list"
  mr_Metadata :: string
  mr_Tools :: "tool list"
  mr_ToolChoice :: string

definition zero_request :: messages_request where
  "zero_request = \<lparr>mr_Model = [], mr_MaxTokens = 0, mr_Messages = [], mr_System = [],
     mr_Stream = False, mr_Temperature = None, mr_TopP = None, mr_TopK = None,
     mr_StopSequences = [], mr_Metadata = [], mr_Tools = [], mr_ToolChoice = []\<rparr>"

definition store_request :: "(string \<Rightarrow> string option) \<Rightarrow> messages_request store" where
  "store_request fl = store_struct
     [(''model'', on mr_Model (\<lambda>v r. r\<lparr>mr_Model := v\<rparr>) store_string),
      (''max_tokens'', on mr_MaxTokens (\<lambda>v r. r\<lparr>mr_MaxTokens := v\<rparr>) store_int),
      (''messages'', on mr_Messages (\<lambda>v r. r\<lparr>mr_Messages := v\<rparr>)
         (store_slice zero_message store_message)),
      (''system'', on mr_System (\<lambda>v r. r\<lparr>mr_System := v\<rparr>) store_system),
      (''stream'', on mr_Stream (\<lambda>v r. r\<lparr>mr_Stream := v\<rparr>) store_bool),
      (''temperature'', on mr_Temperature (\<lambda>v r. r\<lparr>mr_Temperature := v\<rparr>)
         (store_ptr ''0'' (store_float fl))),
      (''top_p'', on mr_TopP (\<lambda>v r. r\<lparr>mr_TopP := v\<rparr>) (store_ptr ''0'' (store_float fl))),
      (''top_k'', on mr_TopK (\<lambda>v r. r\<lparr>mr_TopK := v\<rparr>) (store_ptr 0 store_int)),
      (''stop_sequences'', on mr_StopSequences (\<lambda>v r. r\<lparr>mr_StopSequences := v\<rparr>)
         (store_slice [] store_string)),
      (''metadata'', on mr_Metadata (\<lambda>v r. r\<lparr>mr_Metadata := v\<rparr>) store_raw),
      (''tools'', on mr_Tools (\<lambda>v r. r\<lparr>mr_Tools := v\<rparr>) (store_slice zero_tool store_tool)),
      (''tool_choice'', on mr_ToolChoice (\<lambda>v r. r\<lparr>mr_ToolChoice := v\<rparr>) store_raw)]"

definition decode_request :: "(string \<Rightarrow> string option) \<Rightarrow> string \<Rightarrow> messages_request option" where
  "decode_request fl = unmarshal zero_request (store_request fl)"

record count_request =
  cr_Model :: string
  cr_Messages :: "message list"
  cr_System :: string
  cr_Tools :: "tool list"
  cr_ToolChoice :: string

definition decode_count_request :: "string \<Rightarrow> count_request option" where
  "decode_count_request = unmarshal
     \<lparr>cr_Model = [], cr_Messages = [], cr_System = [], cr_Tools = [], cr_ToolChoice = []\<rparr>
     (store_struct
       [(''model'', on cr_Model (\<lambda>v r. r\<lparr>cr_Model := v\<rparr>) store_string),
        (''messages'', on cr_Messages (\<lambda>v r. r\<lparr>cr_Messages := v\<rparr>)
           (store_slice zero_message store_message)),
        (''system'', on cr_System (\<lambda>v r. r\<lparr>cr_System := v\<rparr>) store_system),
        (''tools'', on cr_Tools (\<lambda>v r. r\<lparr>cr_Tools := v\<rparr>) (store_slice zero_tool store_tool)),
        (''tool_choice'', on cr_ToolChoice (\<lambda>v r. r\<lparr>cr_ToolChoice := v\<rparr>) store_raw)])"

section \<open>Responses (types.go)\<close>

record usage =
  u_InputTokens :: int
  u_OutputTokens :: int

record messages_response =
  mp_ID :: string
  mp_Content :: "content_block list"
  mp_Model :: string
  mp_StopReason :: string
  mp_Usage :: usage

abbreviation StopReasonEndTurn :: string where "StopReasonEndTurn \<equiv> ''end_turn''"
abbreviation StopReasonMaxTokens :: string where "StopReasonMaxTokens \<equiv> ''max_tokens''"
abbreviation StopReasonToolUse :: string where "StopReasonToolUse \<equiv> ''tool_use''"

definition MapFinishReason :: "string \<Rightarrow> string" where
  "MapFinishReason finish =
     (if finish = ''stop'' \<or> finish = [] then StopReasonEndTurn
      else if finish = ''length'' then StopReasonMaxTokens
      else if finish = ''tool_calls'' \<or> finish = ''function_call'' then StopReasonToolUse
      else StopReasonEndTurn)"

section \<open>Tools (tools.go)\<close>

definition tool_to_openai :: "(string \<Rightarrow> string option) \<Rightarrow> tool \<Rightarrow> json" where
  "tool_to_openai fl t =
     JObj
      [(''function'', JObj
          ((if t_Description t = [] then [] else [(''description'', JStr (t_Description t))]) @
           [(''name'', JStr (t_Name t))] @
           (if t_InputSchema t = [] then []
            else case unmarshal_any fl (t_InputSchema t) of
                   None \<Rightarrow> [] | Some schema \<Rightarrow> [(''parameters'', schema)]))),
       (''type'', JStr ''function'')]"

text \<open>\<open>None\<close> is Go's \<open>nil\<close>: the caller leaves the field out.\<close>

definition ToolsToOpenAI :: "(string \<Rightarrow> string option) \<Rightarrow> tool list \<Rightarrow> json list option" where
  "ToolsToOpenAI fl tools = (if tools = [] then None else Some (map (tool_to_openai fl) tools))"

definition trimSpaceBytes :: "string \<Rightarrow> string" where
  "trimSpaceBytes b = rev (dropWhile json_space (rev (dropWhile json_space b)))"

definition choice_of_object :: "json \<Rightarrow> json" where
  "choice_of_object obj =
     (let t = (case member_str obj ''type'' of None \<Rightarrow> [] | Some s \<Rightarrow> s) in
      if t = ''auto'' \<or> t = ''none'' then JStr t
      else if t = ''any'' then JStr ''required''
      else if t = ''tool'' then
        (let name = (case member_str obj ''name'' of None \<Rightarrow> [] | Some s \<Rightarrow> s) in
         if name = [] then JStr ''required''
         else JObj [(''function'', JObj [(''name'', JStr name)]), (''type'', JStr ''function'')])
      else obj)"

definition ToolChoiceToOpenAI :: "(string \<Rightarrow> string option) \<Rightarrow> string \<Rightarrow> json option" where
  "ToolChoiceToOpenAI fl raw =
     (let trimmed = trimSpaceBytes raw in
      if trimmed = [] then None
      else if hd trimmed = CHR 0x22 then
        (case unmarshal [] store_string trimmed of
           Some s \<Rightarrow> Some (JStr s) | None \<Rightarrow> Some (JStr raw))
      else
        (case unmarshal_any fl trimmed of
           Some (JObj fs) \<Rightarrow> Some (choice_of_object (JObj fs))
         | Some JNull \<Rightarrow> Some (choice_of_object JNull)
         | _ \<Rightarrow> Some (JStr raw)))"

record openai_tool_call =
  tc_ID :: string
  tc_Type :: string
  tc_Name :: string
  tc_Arguments :: string

definition call_input :: "(string \<Rightarrow> string option) \<Rightarrow> string \<Rightarrow> string" where
  "call_input fl args = (if unmarshal_any fl args = None \<or> args = [] then ''{}'' else args)"

definition ToolCallsToBlocks ::
  "(string \<Rightarrow> string option) \<Rightarrow> openai_tool_call list \<Rightarrow> content_block list" where
  "ToolCallsToBlocks fl calls =
     map (\<lambda>c. tool_use_block (tc_ID c) (tc_Name c) (call_input fl (tc_Arguments c))) calls"

definition tool_result_message :: "content_block \<Rightarrow> json" where
  "tool_result_message blk =
     (let text = (case b_Content blk of None \<Rightarrow> [] | Some c \<Rightarrow> Text c);
          shown = (if b_IsError blk \<and> text \<noteq> [] then ''[error] '' @ text else text)
      in JObj [(''content'', JStr shown), (''role'', JStr RoleTool),
               (''tool_call_id'', JStr (b_ToolUseID blk))])"

definition ToolResultsFromMessage :: "message \<Rightarrow> json list \<times> content_block list" where
  "ToolResultsFromMessage m =
     (let bs = Blocks (m_Content m)
      in (map tool_result_message (filter (\<lambda>b. b_Type b = BlockToolResult) bs),
          filter (\<lambda>b. b_Type b \<noteq> BlockToolResult) bs))"

definition tool_use_call :: "content_block \<Rightarrow> json" where
  "tool_use_call blk =
     (let args = (if b_Input blk = [] then ''{}'' else b_Input blk)
      in JObj [(''function'', JObj [(''arguments'', JStr args), (''name'', JStr (b_Name blk))]),
               (''id'', JStr (b_ID blk)), (''type'', JStr ''function'')])"

definition AssistantToolUseToOpenAI :: "message \<Rightarrow> string \<times> json list" where
  "AssistantToolUseToOpenAI m =
     (let bs = Blocks (m_Content m)
      in (texts_of bs, map tool_use_call (filter (\<lambda>b. b_Type b = BlockToolUse) bs)))"

section \<open>Images (vision.go)\<close>

definition imageBlockToDataURL :: "content_block \<Rightarrow> string option" where
  "imageBlockToDataURL b =
     (case b_Source b of
        None \<Rightarrow> None
      | Some s \<Rightarrow>
          if is_Type s = ''base64'' then
            (if is_Data s = [] then None
             else Some (''data:'' @ (if is_MediaType s = [] then ''image/png'' else is_MediaType s) @
                        '';base64,'' @ is_Data s))
          else if is_Type s = ''url'' then (if is_URL s = [] then None else Some (is_URL s))
          else None)"

definition content_part :: "content_block \<Rightarrow> json list" where
  "content_part b =
     (if b_Type b = BlockText then
        (if b_Text b = [] then []
         else [JObj [(''text'', JStr (b_Text b)), (''type'', JStr ''text'')]])
      else if b_Type b = BlockImage then
        (case imageBlockToDataURL b of
           None \<Rightarrow> []
         | Some url \<Rightarrow>
             [JObj [(''image_url'', JObj [(''url'', JStr url)]), (''type'', JStr ''image_url'')]])
      else [])"

definition OpenAIContentFromBlocks :: "content_block list \<Rightarrow> json option" where
  "OpenAIContentFromBlocks bs =
     (if bs = [] then None
      else if \<not> list_ex (\<lambda>b. b_Type b = BlockImage) bs then Some (JStr (texts_of bs))
      else let out = concat (map content_part bs)
           in if out = [] then Some (JStr []) else Some (JArr out))"

definition OllamaImagesFromBlocks :: "content_block list \<Rightarrow> string list \<times> nat" where
  "OllamaImagesFromBlocks bs =
     (let srcs = List.map_filter (\<lambda>b. if b_Type b = BlockImage then b_Source b else None) bs
      in (map is_Data (filter (\<lambda>s. is_Type s = ''base64'' \<and> is_Data s \<noteq> []) srcs),
          length (filter (\<lambda>s. is_Type s = ''url'') srcs)))"

section \<open>The token estimate (count_tokens.go)\<close>

definition imageTokenBudget :: int where "imageTokenBudget = 1568"

text \<open>What one block adds to the two counters, characters and image tokens.\<close>

definition block_cost :: "content_block \<Rightarrow> int \<times> int" where
  "block_cost blk =
     (if b_Type blk = BlockText then (int (length (b_Text blk)), 0)
      else if b_Type blk = BlockToolUse then
        (int (length (b_Name blk)) + int (length (b_Input blk)), 0)
      else if b_Type blk = BlockToolResult then
        (case b_Content blk of None \<Rightarrow> (0, 0) | Some c \<Rightarrow> (int (length (Text c)), 0))
      else if b_Type blk = BlockImage then (0, imageTokenBudget)
      else (0, 0))"

definition request_blocks :: "count_request \<Rightarrow> content_block list" where
  "request_blocks req = concat (map (\<lambda>m. Blocks (m_Content m)) (cr_Messages req))"

definition tool_cost :: "tool \<Rightarrow> int" where
  "tool_cost t =
     int (length (t_Name t)) + int (length (t_Description t)) + int (length (t_InputSchema t))"

definition EstimateTokens :: "count_request \<Rightarrow> int" where
  "EstimateTokens req =
     (let costs = map block_cost (request_blocks req);
          chars = wrap64 (int (length (cr_System req)) + sum_list (map fst costs) +
                    sum_list (map tool_cost (cr_Tools req)) + int (length (cr_ToolChoice req)));
          imageTokens = wrap64 (sum_list (map snd costs))
      in if chars = 0 \<and> imageTokens = 0 then 0
         else wrap64 (go_quot (wrap64 (chars + 3)) 4 + imageTokens))"

section \<open>Entries both adapters build the same way\<close>

definition opt_member :: "string \<Rightarrow> json option \<Rightarrow> (string \<times> json) list" where
  "opt_member k v = (case v of None \<Rightarrow> [] | Some j \<Rightarrow> [(k, j)])"

definition other_entry :: "message \<Rightarrow> json" where
  "other_entry m = JObj [(''content'', JStr (Text (m_Content m))), (''role'', JStr (m_Role m))]"

definition system_entry :: "string \<Rightarrow> json list" where
  "system_entry sys =
     (if sys = [] then [] else [JObj [(''content'', JStr sys), (''role'', JStr RoleSystem)]])"

section \<open>Events (events.go)\<close>

abbreviation ErrInvalidRequest :: string where "ErrInvalidRequest \<equiv> ''invalid_request_error''"
abbreviation ErrAPIError :: string where "ErrAPIError \<equiv> ''api_error''"

datatype block_delta = TextDelta string | InputJSONDelta string

datatype sse_event =
    MessageStart string string
  | BlockStart int content_block
  | BlockDelta int block_delta
  | BlockStop int
  | MessageDelta string usage
  | MessageStop
  | Ping
  | ErrorEvent string string

fun event_name :: "sse_event \<Rightarrow> string" where
  "event_name (MessageStart i m) = ''message_start''"
| "event_name (BlockStart n b) = ''content_block_start''"
| "event_name (BlockDelta n d) = ''content_block_delta''"
| "event_name (BlockStop n) = ''content_block_stop''"
| "event_name (MessageDelta r u) = ''message_delta''"
| "event_name MessageStop = ''message_stop''"
| "event_name Ping = ''ping''"
| "event_name (ErrorEvent t m) = ''error''"

definition omitempty :: "string \<Rightarrow> string \<Rightarrow> (string \<times> json) list" where
  "omitempty k s = (if s = [] then [] else [(k, JStr s)])"

definition source_json :: "image_source \<Rightarrow> json" where
  "source_json s =
     JObj ([(''type'', JStr (is_Type s))] @ omitempty ''media_type'' (is_MediaType s) @
           omitempty ''data'' (is_Data s) @ omitempty ''url'' (is_URL s))"

text \<open>
  \<open>Marshal\<close> of a block and of a content. A \<open>RawMessage\<close> that is not JSON makes it fail; otherwise it is
  written as it is, less its white space, so that its value is the parsed one.
\<close>

fun block_json :: "content_block \<Rightarrow> json option" and content_json :: "content \<Rightarrow> json option" where
  "block_json (Block ty tx src i n inp tu c e) =
     (case (if inp = [] then Some [] else map_option (\<lambda>v. [(''input'', v)]) (json_parse inp),
            case c of None \<Rightarrow> Some []
                    | Some c' \<Rightarrow> map_option (\<lambda>v. [(''content'', v)]) (content_json c')) of
        (Some inps, Some cs) \<Rightarrow>
          Some (JObj ([(''type'', JStr ty)] @ omitempty ''text'' tx @
            (case src of None \<Rightarrow> [] | Some s \<Rightarrow> [(''source'', source_json s)]) @
            omitempty ''id'' i @ omitempty ''name'' n @ inps @ omitempty ''tool_use_id'' tu @ cs @
            (if e then [(''is_error'', JBool True)] else [])))
      | _ \<Rightarrow> None)"
| "content_json (Content p bs) =
     (if bs = [] then Some (JStr p)
      else map_option JArr (those (map block_json bs)))"

definition usage_json :: "usage \<Rightarrow> json" where
  "usage_json u = JObj [(''input_tokens'', JNum (itoa (u_InputTokens u))),
                        (''output_tokens'', JNum (itoa (u_OutputTokens u)))]"

definition delta_json :: "block_delta \<Rightarrow> json" where
  "delta_json d =
     (case d of
        TextDelta t \<Rightarrow> JObj ((''type'', JStr ''text_delta'') # omitempty ''text'' t)
      | InputJSONDelta p \<Rightarrow> JObj ((''type'', JStr ''input_json_delta'') # omitempty ''partial_json'' p))"

definition event_members :: "sse_event \<Rightarrow> (string \<times> json) list option" where
  "event_members ev =
     (case ev of
        MessageStart i model \<Rightarrow> Some
          [(''message'', JObj
             [(''id'', JStr i), (''type'', JStr ''message''), (''role'', JStr RoleAssistant),
              (''content'', JArr []), (''model'', JStr model), (''stop_reason'', JNull),
              (''stop_sequence'', JNull),
              (''usage'', usage_json \<lparr>u_InputTokens = 0, u_OutputTokens = 0\<rparr>)])]
      | BlockStart n b \<Rightarrow>
          map_option (\<lambda>v. [(''index'', JNum (itoa n)), (''content_block'', v)]) (block_json b)
      | BlockDelta n d \<Rightarrow> Some [(''index'', JNum (itoa n)), (''delta'', delta_json d)]
      | BlockStop n \<Rightarrow> Some [(''index'', JNum (itoa n))]
      | MessageDelta r u \<Rightarrow> Some
          [(''delta'', JObj (omitempty ''stop_reason'' r @ [(''stop_sequence'', JNull)])),
           (''usage'', usage_json u)]
      | ErrorEvent t m \<Rightarrow> Some [(''error'', JObj [(''type'', JStr t), (''message'', JStr m)])]
      | _ \<Rightarrow> Some [])"

definition event_payload :: "sse_event \<Rightarrow> json option" where
  "event_payload ev =
     map_option (\<lambda>ms. JObj ((''type'', JStr (event_name ev)) # ms)) (event_members ev)"

text \<open>The writer: whether the headers went out, the status, and the bytes written.\<close>

record sse_writer =
  w_started :: bool
  w_headers :: "(string \<times> string) list"
  w_status :: int
  w_out :: string

definition NewWriter :: sse_writer where
  "NewWriter = \<lparr>w_started = False, w_headers = [], w_status = 0, w_out = []\<rparr>"

definition start_writer :: "sse_writer \<Rightarrow> sse_writer" where
  "start_writer w =
     (if w_started w then w
      else w\<lparr>w_started := True, w_status := 200,
             w_headers := [(''Content-Type'', ''text/event-stream''), (''Cache-Control'', ''no-cache''),
                           (''Connection'', ''keep-alive'')]\<rparr>)"

definition event_frame :: "string \<Rightarrow> string \<Rightarrow> string" where
  "event_frame name data = ''event: '' @ name @ [CHR 0x0A] @ ''data: '' @ data @ [CHR 0x0A, CHR 0x0A]"

definition Emit :: "sse_event \<Rightarrow> sse_writer \<Rightarrow> sse_writer" where
  "Emit ev w =
     (let w = start_writer w in
      case event_payload ev of
        None \<Rightarrow> w
      | Some j \<Rightarrow> w\<lparr>w_out := w_out w @ event_frame (event_name ev) (json_encode j)\<rparr>)"

definition EmitError :: "string \<Rightarrow> string \<Rightarrow> sse_writer \<Rightarrow> sse_writer" where
  "EmitError t m = Emit (ErrorEvent t m)"

definition emit_all :: "sse_event list \<Rightarrow> sse_writer" where
  "emit_all evs = fold Emit evs NewWriter"

definition hex16 :: "nat \<Rightarrow> string" where
  "hex16 n = map (\<lambda>i. hex_char (n div 16 ^ (15 - i) mod 16)) [0..<16]"

definition upstreamReadCap :: nat where "upstreamReadCap = 16777216"

definition NewMessageID :: "int \<Rightarrow> string" where
  "NewMessageID seed = ''msg_01'' @ hex16 (nat (seed mod 2 ^ 64))"

section \<open>Replies\<close>

text \<open>A handler answers with an error envelope, a JSON body, or the events of a stream.\<close>

datatype reply =
    ErrorReply int string string
  | MessageReply messages_response
  | CountReply int
  | StreamReply "sse_event list"

definition WriteError :: "int \<Rightarrow> string \<Rightarrow> string \<Rightarrow> reply" where
  "WriteError status errType message = ErrorReply status errType message"

text \<open>A request body: its bytes, and whether reading fails behind them.\<close>

record http_body =
  hb_data :: string
  hb_fails :: bool

definition read_limited :: "nat \<Rightarrow> http_body \<Rightarrow> string option" where
  "read_limited n b =
     (if n \<le> length (hb_data b) then Some (take n (hb_data b))
      else if hb_fails b then None else Some (hb_data b))"

section \<open>Reading an upstream stream\<close>

text \<open>
  A streamed body: its bytes, the error that ends it if any, and the error \<open>Scanner.Err\<close> already
  holds when the loop leaves at the closing frame, because it arrived in the same read.
\<close>

record upstream_body =
  up_data :: string
  up_err :: "string option"
  up_early :: "string option"

text \<open>What the engine answers; \<open>Unreachable\<close> is an error of \<open>http.Client.Do\<close>.\<close>

datatype upstream_answer = Unreachable | Answer int upstream_body

definition maxLine :: nat where "maxLine = 4194304"

definition drop_cr :: "string \<Rightarrow> string" where
  "drop_cr s = (if s \<noteq> [] \<and> last s = CHR 0x0D then butlast s else s)"

text \<open>The buffered read of an answer, up to 16 MiB.\<close>

definition read_upstream :: "upstream_body \<Rightarrow> string option" where
  "read_upstream b = read_limited upstreamReadCap \<lparr>hb_data = up_data b, hb_fails = up_err b \<noteq> None\<rparr>"

text \<open>
  \<open>bufio.Scanner\<close> with \<open>ScanLines\<close> and a 4 MiB buffer. A line that fills the buffer before its newline
  stops the scan with \<open>ErrTooLong\<close>. An unterminated last line is a token too.
\<close>

definition scan_pieces :: "string \<Rightarrow> string list" where
  "scan_pieces s =
     (let ws = split_on (CHR 0x0A) s in if last ws = [] then butlast ws else ws)"

definition scan_lines :: "upstream_body \<Rightarrow> string list \<times> string option" where
  "scan_lines b =
     (let ws = scan_pieces (up_data b);
          ok = takeWhile (\<lambda>w. length w < maxLine) ws
      in (map drop_cr ok,
          if length ok < length ws then Some ''bufio.Scanner: token too long'' else up_err b))"

lemma scan_lines_code [code]:
  "scan_lines b =
     (let ws = scan_pieces (up_data b);
          ok = takeWhile (\<lambda>w. int (length w) < 4194304) ws
      in (map drop_cr ok,
          if length ok < length ws then Some ''bufio.Scanner: token too long'' else up_err b))"
  by (simp add: scan_lines_def maxLine_def)

section \<open>The stream protocol (events.go)\<close>

text \<open>
  The sequence events.go prescribes: one \<open>message_start\<close>; blocks numbered from 0 without holes, each
  with deltas of its own kind and closed before the next opens; \<open>message_delta\<close>; \<open>message_stop\<close>. An
  \<open>error\<close> ends the stream anywhere, \<open>ping\<close> may stand anywhere. No text delta is empty.
\<close>

datatype protocol_state =
    AwaitStart | BetweenBlocks nat | InText nat | InToolUse nat | AwaitStop | Finished | Failed

fun protocol_step :: "protocol_state \<Rightarrow> sse_event \<Rightarrow> protocol_state option" where
  "protocol_step Finished ev = None"
| "protocol_step Failed ev = None"
| "protocol_step st Ping = Some st"
| "protocol_step st (ErrorEvent t m) = Some Failed"
| "protocol_step AwaitStart (MessageStart i m) = Some (BetweenBlocks 0)"
| "protocol_step (BetweenBlocks n) (BlockStart k b) =
     (if k \<noteq> int n then None
      else if b_Type b = BlockText then Some (InText n)
      else if b_Type b = BlockToolUse then Some (InToolUse n)
      else None)"
| "protocol_step (InText n) (BlockDelta k (TextDelta t)) =
     (if k = int n \<and> t \<noteq> [] then Some (InText n) else None)"
| "protocol_step (InToolUse n) (BlockDelta k (InputJSONDelta p)) =
     (if k = int n \<and> p \<noteq> [] then Some (InToolUse n) else None)"
| "protocol_step (InText n) (BlockStop k) = (if k = int n then Some (BetweenBlocks (Suc n)) else None)"
| "protocol_step (InToolUse n) (BlockStop k) =
     (if k = int n then Some (BetweenBlocks (Suc n)) else None)"
| "protocol_step (BetweenBlocks n) (MessageDelta r u) =
     (if 0 < n \<and> r \<in> {StopReasonEndTurn, StopReasonMaxTokens, StopReasonToolUse}
      then Some AwaitStop else None)"
| "protocol_step AwaitStop MessageStop = Some Finished"
| "protocol_step st ev = None"

fun protocol_run :: "protocol_state \<Rightarrow> sse_event list \<Rightarrow> protocol_state option" where
  "protocol_run st [] = Some st"
| "protocol_run st (ev # evs) =
     (case protocol_step st ev of None \<Rightarrow> None | Some st' \<Rightarrow> protocol_run st' evs)"

lemma protocol_run_append:
  "protocol_run st (xs @ ys) =
     (case protocol_run st xs of None \<Rightarrow> None | Some st' \<Rightarrow> protocol_run st' ys)"
  by (induction xs arbitrary: st) (auto split: option.splits)

text \<open>
  What a client that follows the protocol holds at the end: the blocks it opened, each with its text
  deltas appended or with the concatenated \<open>partial_json\<close> as its input, the stop reason, the usage.
\<close>

record client_message =
  cm_blocks :: "content_block list"
  cm_buffers :: "string list"
  cm_stop :: string
  cm_usage :: usage

definition zero_usage :: usage where
  "zero_usage = \<lparr>u_InputTokens = 0, u_OutputTokens = 0\<rparr>"

definition client_start :: client_message where
  "client_start = \<lparr>cm_blocks = [], cm_buffers = [], cm_stop = [], cm_usage = zero_usage\<rparr>"

fun client_step :: "sse_event \<Rightarrow> client_message \<Rightarrow> client_message" where
  "client_step (BlockStart n b) c = c\<lparr>cm_blocks := cm_blocks c @ [b], cm_buffers := cm_buffers c @ [[]]\<rparr>"
| "client_step (BlockDelta n (TextDelta t)) c =
     (let i = nat n; b = cm_blocks c ! i in
      c\<lparr>cm_blocks := (cm_blocks c)[i := (case b of Block ty tx src bi bn inp tu ct e \<Rightarrow>
          Block ty (tx @ t) src bi bn inp tu ct e)]\<rparr>)"
| "client_step (BlockDelta n (InputJSONDelta p)) c =
     c\<lparr>cm_buffers := (cm_buffers c)[nat n := cm_buffers c ! nat n @ p]\<rparr>"
| "client_step (BlockStop n) c =
     (let i = nat n in
      if cm_buffers c ! i = [] then c
      else c\<lparr>cm_blocks := (cm_blocks c)[i := (case cm_blocks c ! i of Block ty tx src bi bn inp tu ct e \<Rightarrow>
             Block ty tx src bi bn (cm_buffers c ! i) tu ct e)]\<rparr>)"
| "client_step (MessageDelta r u) c = c\<lparr>cm_stop := r, cm_usage := u\<rparr>"
| "client_step ev c = c"

definition client_reads :: "sse_event list \<Rightarrow> client_message" where
  "client_reads evs = fold client_step evs client_start"

section \<open>Translators\<close>

text \<open>
  What a stream says, apart from how it is cut into events: the text pieces, and how it ends, with an
  error or with tool calls (id, name, arguments), a stop reason and the usage.
\<close>

type_synonym call = "string \<times> string \<times> string"

datatype stream_end = Broken string | Complete "call list" string usage

record stream_outcome =
  so_id :: string
  so_model :: string
  so_texts :: "string list"
  so_end :: stream_end

fun tool_events :: "int \<Rightarrow> call list \<Rightarrow> sse_event list" where
  "tool_events k [] = []"
| "tool_events k ((i, n, args) # cs) =
     [BlockStart k (tool_use_block i n ''{}''), BlockDelta k (InputJSONDelta args), BlockStop k] @
     tool_events (k + 1) cs"

fun end_events :: "stream_end \<Rightarrow> sse_event list" where
  "end_events (Broken msg) = [ErrorEvent ErrAPIError msg]"
| "end_events (Complete calls stop u) =
     BlockStop 0 # tool_events 1 calls @ [MessageDelta stop u, MessageStop]"

definition outcome_events :: "stream_outcome \<Rightarrow> sse_event list" where
  "outcome_events r =
     [MessageStart (so_id r) (so_model r), BlockStart 0 (text_block [])] @
     map (\<lambda>t. BlockDelta 0 (TextDelta t)) (so_texts r) @ end_events (so_end r)"

definition call_block :: "call \<Rightarrow> content_block" where
  "call_block c = (case c of (i, n, args) \<Rightarrow> tool_use_block i n args)"

text \<open>The laws of an outcome: no empty piece, and a stop reason that agrees with the calls.\<close>

fun end_ok :: "stream_end \<Rightarrow> bool" where
  "end_ok (Broken msg) \<longleftrightarrow> True"
| "end_ok (Complete calls stop u) \<longleftrightarrow>
     stop \<in> {StopReasonEndTurn, StopReasonMaxTokens, StopReasonToolUse} \<and>
     (calls = [] \<or> stop = StopReasonToolUse) \<and> list_all (\<lambda>(i, n, args). args \<noteq> []) calls"

definition outcome_ok :: "stream_outcome \<Rightarrow> bool" where
  "outcome_ok r \<longleftrightarrow> list_all (\<lambda>t. t \<noteq> []) (so_texts r) \<and> end_ok (so_end r)"

locale stream_translator =
  fixes events :: "'q \<Rightarrow> upstream_body \<Rightarrow> sse_event list"
    and outcome :: "'q \<Rightarrow> upstream_body \<Rightarrow> stream_outcome"
  assumes events_outcome: "events q b = outcome_events (outcome q b)"
    and outcome_laws: "outcome_ok (outcome q b)"
begin

lemma deltas_run:
  "list_all (\<lambda>t. t \<noteq> []) ts \<Longrightarrow>
     protocol_run (InText n) (map (\<lambda>t. BlockDelta (int n) (TextDelta t)) ts) = Some (InText n)"
  by (induction ts) auto

lemma tools_run:
  "list_all (\<lambda>(i, n, args). args \<noteq> []) cs \<Longrightarrow>
     protocol_run (BetweenBlocks k) (tool_events (int k) cs) = Some (BetweenBlocks (k + length cs))"
proof (induction cs arbitrary: k)
  case (Cons c cs)
  obtain i n args where c: "c = (i, n, args)" by (cases c)
  have "protocol_run (BetweenBlocks (Suc k)) (tool_events (1 + int k) cs) =
      Some (BetweenBlocks (Suc k + length cs))"
    using Cons.IH [of "Suc k"] Cons.prems by simp
  then show ?case using Cons.prems c by (simp add: tool_use_block_def add.commute)
qed simp

lemma follows_protocol:
  "protocol_run AwaitStart (events q b) =
     Some (case so_end (outcome q b) of Broken msg \<Rightarrow> Failed | Complete cs r u \<Rightarrow> Finished)"
proof (cases "so_end (outcome q b)")
  case (Broken msg)
  have "protocol_run (InText 0) (map (\<lambda>t. BlockDelta 0 (TextDelta t)) (so_texts (outcome q b))) =
      Some (InText 0)"
    using deltas_run [of _ 0] outcome_laws [of q b] by (simp add: outcome_ok_def)
  then show ?thesis
    by (simp add: events_outcome outcome_events_def protocol_run_append text_block_def Broken)
next
  case (Complete cs r u)
  have "protocol_run (InText 0) (map (\<lambda>t. BlockDelta 0 (TextDelta t)) (so_texts (outcome q b))) =
      Some (InText 0)"
    using deltas_run [of _ 0] outcome_laws [of q b] by (simp add: outcome_ok_def)
  moreover have "protocol_run (BetweenBlocks 1) (tool_events 1 cs) =
      Some (BetweenBlocks (1 + length cs))"
    using tools_run [of cs 1] outcome_laws [of q b] Complete by (simp add: outcome_ok_def)
  ultimately show ?thesis
    using outcome_laws [of q b]
    by (auto simp: events_outcome outcome_events_def protocol_run_append text_block_def Complete
        outcome_ok_def)
qed

lemma deltas_read:
  "cm_blocks c = [text_block t] \<Longrightarrow>
     fold client_step (map (\<lambda>x. BlockDelta 0 (TextDelta x)) ts) c =
       c\<lparr>cm_blocks := [text_block (t @ concat ts)]\<rparr>"
  by (induction ts arbitrary: c t) (simp_all add: text_block_def)

lemma tools_read:
  "length (cm_blocks c) = n \<Longrightarrow> length (cm_buffers c) = n \<Longrightarrow>
     list_all (\<lambda>(i, n, args). args \<noteq> []) cs \<Longrightarrow>
     \<exists>bufs. fold client_step (tool_events (int n) cs) c =
       c\<lparr>cm_blocks := cm_blocks c @ map call_block cs, cm_buffers := bufs\<rparr>"
proof (induction cs arbitrary: c n)
  case Nil
  then show ?case by (intro exI [of _ "cm_buffers c"]) simp
next
  case (Cons d cs)
  obtain i nm args where d: "d = (i, nm, args)" by (cases d)
  let ?c = "c\<lparr>cm_blocks := cm_blocks c @ [call_block d], cm_buffers := cm_buffers c @ [args]\<rparr>"
  have one: "fold client_step
      [BlockStart (int n) (tool_use_block i nm ''{}''), BlockDelta (int n) (InputJSONDelta args),
       BlockStop (int n)] c = ?c"
    using Cons.prems
    by (simp add: Let_def nth_append list_update_append d call_block_def tool_use_block_def)
  obtain bufs where "fold client_step (tool_events (int (Suc n)) cs) ?c =
      ?c\<lparr>cm_blocks := cm_blocks ?c @ map call_block cs, cm_buffers := bufs\<rparr>"
    using Cons.IH [of ?c "Suc n"] Cons.prems by auto
  then have "fold client_step (tool_events (int n) (d # cs)) c =
      c\<lparr>cm_blocks := cm_blocks c @ map call_block (d # cs), cm_buffers := bufs\<rparr>"
    using one by (simp add: d add.commute)
  then show ?case by blast
qed

lemma client_final:
  assumes "so_end (outcome q b) = Complete cs r u"
  shows "cm_blocks (client_reads (events q b)) =
           text_block (concat (so_texts (outcome q b))) # map call_block cs"
    and "cm_stop (client_reads (events q b)) = r"
    and "cm_usage (client_reads (events q b)) = u"
proof -
  have args: "list_all (\<lambda>(i, n, args). args \<noteq> []) cs"
    using outcome_laws [of q b] assms by (simp add: outcome_ok_def)
  let ?t = "text_block (concat (so_texts (outcome q b)))"
  let ?c = "client_start\<lparr>cm_blocks := [?t], cm_buffers := [[]]\<rparr>"
  obtain bufs where "fold client_step (tool_events (int 1) cs) ?c =
      ?c\<lparr>cm_blocks := cm_blocks ?c @ map call_block cs, cm_buffers := bufs\<rparr>"
    using tools_read [of ?c 1 cs] args by auto
  moreover have "fold client_step
      ([MessageStart (so_id (outcome q b)) (so_model (outcome q b)), BlockStart 0 (text_block [])] @
       map (\<lambda>t. BlockDelta 0 (TextDelta t)) (so_texts (outcome q b)) @ [BlockStop 0]) client_start = ?c"
    using deltas_read [of "client_start\<lparr>cm_blocks := [text_block []], cm_buffers := [[]]\<rparr>" "[]"]
    by (simp add: client_start_def)
  ultimately have "client_reads (events q b) =
      ?c\<lparr>cm_blocks := ?t # map call_block cs, cm_buffers := bufs, cm_stop := r, cm_usage := u\<rparr>"
    by (simp add: client_reads_def events_outcome outcome_events_def assms)
  then show "cm_blocks (client_reads (events q b)) = ?t # map call_block cs"
    and "cm_stop (client_reads (events q b)) = r" "cm_usage (client_reads (events q b)) = u"
    by simp_all
qed

end

section \<open>Framing\<close>

text \<open>A reader of the stream: three lines per frame, the third empty.\<close>

fun read_frames :: "string list \<Rightarrow> (string \<times> string) list" where
  "read_frames (e # d # [] # r) = (drop 7 e, drop 6 d) # read_frames r"
| "read_frames ls = []"

definition one_line :: "sse_event \<Rightarrow> bool" where
  "one_line ev \<longleftrightarrow> (\<exists>j. event_payload ev = Some j \<and> CHR 0x0A \<notin> set (json_encode j))"

lemma event_name_line: "CHR 0x0A \<notin> set (event_name ev)"
  by (cases ev) simp_all

lemma Emit_out:
  "one_line ev \<Longrightarrow> w_out (Emit ev w) =
     w_out w @ event_frame (event_name ev) (json_encode (the (event_payload ev)))"
  by (auto simp: one_line_def Emit_def start_writer_def Let_def)

lemma fold_Emit_out:
  "list_all one_line evs \<Longrightarrow> w_out (fold Emit evs w) =
     w_out w @ concat (map (\<lambda>ev. event_frame (event_name ev) (json_encode (the (event_payload ev)))) evs)"
  by (induction evs arbitrary: w) (simp_all add: Emit_out)

lemma split_frame:
  assumes "CHR 0x0A \<notin> set n" "CHR 0x0A \<notin> set d"
  shows "split_on (CHR 0x0A) (event_frame n d @ r) =
           (''event: '' @ n) # (''data: '' @ d) # [] # split_on (CHR 0x0A) r"
proof -
  have "split_on (CHR 0x0A) ((''event: '' @ n) @ CHR 0x0A # (''data: '' @ d) @ CHR 0x0A # [] @ CHR 0x0A # r) =
      (''event: '' @ n) # (''data: '' @ d) # [] # split_on (CHR 0x0A) r"
    using assms by (subst split_on_append, simp)+ simp
  then show ?thesis by (simp add: event_frame_def)
qed

lemma read_frames_concat:
  "list_all (\<lambda>(n, d). CHR 0x0A \<notin> set n \<and> CHR 0x0A \<notin> set d) fs \<Longrightarrow>
     read_frames (split_on (CHR 0x0A) (concat (map (\<lambda>(n, d). event_frame n d) fs))) = fs"
  by (induction fs) (auto simp: split_frame)

lemma itoa_line: "CHR 0x0A \<notin> set (itoa i)"
proof -
  have "CHR 0x0A \<notin> set (nat_digits n)" for n
    using nat_digits_digits [of n] by (auto simp: list_all_iff is_digit_def)
  then show ?thesis by (auto simp: itoa_def)
qed

lemma empty_object_parses: "json_parse ''{}'' = Some (JObj [])"
  by code_simp

lemma omitempty_numbers [simp]: "concat (map (\<lambda>(k, v). numbers_of v) (omitempty k' s)) = []"
  by (auto simp: omitempty_def split: if_splits)

lemma delta_numbers [simp]: "numbers_of (delta_json d) = []"
  by (cases d) (simp_all add: delta_json_def)

lemma usage_numbers: "numbers_of (usage_json u) = [itoa (u_InputTokens u), itoa (u_OutputTokens u)]"
  by (simp add: usage_json_def)

lemma outcome_event_line:
  assumes "ev \<in> set (outcome_events r)"
  shows "one_line ev"
proof -
  have tools: "ev \<in> set (tool_events k cs) \<Longrightarrow>
      (\<exists>n i m. ev = BlockStart n (tool_use_block i m ''{}'')) \<or>
      (\<exists>n d. ev = BlockDelta n d) \<or> (\<exists>n. ev = BlockStop n)" for k cs
    by (induction k cs rule: tool_events.induct) (simp, simp, blast)
  have "(\<exists>i m. ev = MessageStart i m) \<or> ev = BlockStart 0 (text_block []) \<or>
      (\<exists>n i m. ev = BlockStart n (tool_use_block i m ''{}'')) \<or>
      (\<exists>n d. ev = BlockDelta n d) \<or> (\<exists>n. ev = BlockStop n) \<or> (\<exists>t m. ev = ErrorEvent t m) \<or>
      (\<exists>s u. ev = MessageDelta s u) \<or> ev = MessageStop"
    using assms tools by (cases "so_end r") (auto simp: outcome_events_def)
  then have "\<exists>j. event_payload ev = Some j \<and> (\<forall>l \<in> set (numbers_of j). CHR 0x0A \<notin> set l)"
    by (auto simp: event_payload_def event_members_def text_block_def tool_use_block_def
        empty_object_parses usage_numbers itoa_line simp del: concat_eq_Nil_conv)
  then show ?thesis unfolding one_line_def using json_encode_line by blast
qed

lemma outcome_frames:
  "read_frames (split_on (CHR 0x0A) (w_out (emit_all (outcome_events r)))) =
     map (\<lambda>ev. (event_name ev, json_encode (the (event_payload ev)))) (outcome_events r)"
proof -
  have l: "list_all one_line (outcome_events r)" by (simp add: list_all_iff outcome_event_line)
  have "w_out (emit_all (outcome_events r)) =
      concat (map (\<lambda>(n, d). event_frame n d)
        (map (\<lambda>ev. (event_name ev, json_encode (the (event_payload ev)))) (outcome_events r)))"
    by (simp add: emit_all_def fold_Emit_out [OF l] NewWriter_def comp_def)
  moreover have "list_all (\<lambda>(n, d). CHR 0x0A \<notin> set n \<and> CHR 0x0A \<notin> set d)
      (map (\<lambda>ev. (event_name ev, json_encode (the (event_payload ev)))) (outcome_events r))"
    using l by (auto simp: list_all_iff one_line_def event_name_line)
  ultimately show ?thesis by (simp only: read_frames_concat)
qed

end
