(* ===== verification/ProxyMessages.thy ===== *)
theory ProxyMessages
  imports Anthropic "HOL-Library.Multiset"
begin

text \<open>
  \<open>internal/adapter/proxy/messages.go\<close>: the Messages API in front of an engine that speaks OpenAI's
  chat completions (vLLM, SGLang, llama.cpp). The request is rewritten into the OpenAI shape, the
  answer is rewritten back, as one message or frame by frame. \<open>proxy_outcome\<close> states what a stream
  says as a function of the list of its chunks; the loop with its accumulators is shown to refine it.
\<close>

definition messagesBodyCap :: nat where "messagesBodyCap = 16777216"

text \<open>
  What the handlers work with: the body cap in force, \<open>cfg.Model.Name\<close>, the clock, whether the
  upstream URL makes a request, and the engine: its answer to a body, asked to stream or not.
\<close>

record proxy_env =
  pe_cap :: nat
  pe_alias :: string
  pe_now :: int
  pe_url_ok :: bool
  pe_fl :: "string \<Rightarrow> string option"
  pe_engine :: "json \<Rightarrow> bool \<Rightarrow> upstream_answer"

section \<open>The request\<close>

definition user_entries :: "message \<Rightarrow> json list" where
  "user_entries m =
     (case ToolResultsFromMessage m of
        (toolMsgs, residual) \<Rightarrow>
          toolMsgs @
          (if residual \<noteq> [] \<or> toolMsgs = []
           then [JObj [(''content'', case OpenAIContentFromBlocks residual of
                                       None \<Rightarrow> JStr [] | Some c \<Rightarrow> c),
                       (''role'', JStr RoleUser)]]
           else []))"

definition assistant_entry :: "message \<Rightarrow> json" where
  "assistant_entry m =
     (case AssistantToolUseToOpenAI m of
        (content, toolCalls) \<Rightarrow>
          JObj ([(''content'', JStr content), (''role'', JStr RoleAssistant)] @
                (if toolCalls = [] then [] else [(''tool_calls'', JArr toolCalls)])))"

definition message_entries :: "message \<Rightarrow> json list" where
  "message_entries m =
     (if m_Role m = RoleUser then user_entries m
      else if m_Role m = RoleAssistant then [assistant_entry m]
      else [other_entry m])"

definition proxy_buildUpstreamMessages :: "messages_request \<Rightarrow> json list" where
  "proxy_buildUpstreamMessages req =
     system_entry (mr_System req) @ concat (map message_entries (mr_Messages req))"

definition translateMessagesToOpenAI ::
  "(string \<Rightarrow> string option) \<Rightarrow> messages_request \<Rightarrow> string \<Rightarrow> json" where
  "translateMessagesToOpenAI fl req modelAlias =
     JObj
      ([(''model'', JStr modelAlias), (''stream'', JBool (mr_Stream req)),
        (''max_tokens'', JNum (itoa (mr_MaxTokens req))),
        (''messages'', JArr (proxy_buildUpstreamMessages req))] @
       opt_member ''temperature'' (map_option JNum (mr_Temperature req)) @
       opt_member ''top_p'' (map_option JNum (mr_TopP req)) @
       opt_member ''top_k'' (map_option (\<lambda>k. JNum (itoa k)) (mr_TopK req)) @
       opt_member ''stop'' (if mr_StopSequences req = [] then None
                            else Some (JArr (map JStr (mr_StopSequences req)))) @
       opt_member ''tools'' (map_option JArr (ToolsToOpenAI fl (mr_Tools req))) @
       opt_member ''tool_choice'' (ToolChoiceToOpenAI fl (mr_ToolChoice req)))"

section \<open>What the engine answers\<close>

text \<open>\<open>openAIChatResponse\<close>, less the fields nothing reads.\<close>

record chat_choice =
  cc_Content :: string
  cc_ToolCalls :: "openai_tool_call list"
  cc_FinishReason :: string

record chat_response =
  cp_Choices :: "chat_choice list"
  cp_PromptTokens :: int
  cp_CompletionTokens :: int

definition zero_choice :: chat_choice where
  "zero_choice = \<lparr>cc_Content = [], cc_ToolCalls = [], cc_FinishReason = []\<rparr>"

definition zero_call :: openai_tool_call where
  "zero_call = \<lparr>tc_ID = [], tc_Type = [], tc_Name = [], tc_Arguments = []\<rparr>"

text \<open>A field that nothing reads still has to have a value of its type.\<close>

definition typed :: "'b \<Rightarrow> 'b store \<Rightarrow> 'a store" where
  "typed zero st cur j = map_option (\<lambda>_. cur) (st zero j)"

definition store_call :: "openai_tool_call store" where
  "store_call = store_struct
     [(''id'', on tc_ID (\<lambda>v c. c\<lparr>tc_ID := v\<rparr>) store_string),
      (''type'', on tc_Type (\<lambda>v c. c\<lparr>tc_Type := v\<rparr>) store_string),
      (''function'', store_struct
        [(''name'', on tc_Name (\<lambda>v c. c\<lparr>tc_Name := v\<rparr>) store_string),
         (''arguments'', on tc_Arguments (\<lambda>v c. c\<lparr>tc_Arguments := v\<rparr>) store_string)])]"

definition store_choice :: "chat_choice store" where
  "store_choice = store_struct
     [(''index'', typed 0 store_int),
      (''message'', store_struct
        [(''role'', typed [] store_string),
         (''content'', on cc_Content (\<lambda>v c. c\<lparr>cc_Content := v\<rparr>) store_string),
         (''tool_calls'', on cc_ToolCalls (\<lambda>v c. c\<lparr>cc_ToolCalls := v\<rparr>)
            (store_slice zero_call store_call))]),
      (''finish_reason'', on cc_FinishReason (\<lambda>v c. c\<lparr>cc_FinishReason := v\<rparr>) store_string)]"

definition decode_chat_response :: "string \<Rightarrow> chat_response option" where
  "decode_chat_response = unmarshal \<lparr>cp_Choices = [], cp_PromptTokens = 0, cp_CompletionTokens = 0\<rparr>
     (store_struct
       [(''id'', typed [] store_string), (''object'', typed [] store_string),
        (''created'', typed 0 store_int), (''model'', typed [] store_string),
        (''choices'', on cp_Choices (\<lambda>v r. r\<lparr>cp_Choices := v\<rparr>) (store_slice zero_choice store_choice)),
        (''usage'', store_struct
          [(''prompt_tokens'', on cp_PromptTokens (\<lambda>v r. r\<lparr>cp_PromptTokens := v\<rparr>) store_int),
           (''completion_tokens'',
              on cp_CompletionTokens (\<lambda>v r. r\<lparr>cp_CompletionTokens := v\<rparr>) store_int),
           (''total_tokens'', typed 0 store_int)])])"

text \<open>\<open>openAIStreamChunk\<close> and its tool-call deltas.\<close>

record stream_tool_call =
  sc_Index :: int
  sc_ID :: string
  sc_Name :: string
  sc_Arguments :: string

record stream_choice =
  sh_Content :: string
  sh_ToolCalls :: "stream_tool_call list"
  sh_FinishReason :: string

record stream_chunk =
  ck_Choices :: "stream_choice list"
  ck_Usage :: "usage option"

definition zero_stream_call :: stream_tool_call where
  "zero_stream_call = \<lparr>sc_Index = 0, sc_ID = [], sc_Name = [], sc_Arguments = []\<rparr>"

definition zero_stream_choice :: stream_choice where
  "zero_stream_choice = \<lparr>sh_Content = [], sh_ToolCalls = [], sh_FinishReason = []\<rparr>"

definition store_stream_call :: "stream_tool_call store" where
  "store_stream_call = store_struct
     [(''index'', on sc_Index (\<lambda>v c. c\<lparr>sc_Index := v\<rparr>) store_int),
      (''id'', on sc_ID (\<lambda>v c. c\<lparr>sc_ID := v\<rparr>) store_string),
      (''type'', typed [] store_string),
      (''function'', store_struct
        [(''name'', on sc_Name (\<lambda>v c. c\<lparr>sc_Name := v\<rparr>) store_string),
         (''arguments'', on sc_Arguments (\<lambda>v c. c\<lparr>sc_Arguments := v\<rparr>) store_string)])]"

definition store_stream_choice :: "stream_choice store" where
  "store_stream_choice = store_struct
     [(''index'', typed 0 store_int),
      (''delta'', store_struct
        [(''role'', typed [] store_string),
         (''content'', on sh_Content (\<lambda>v c. c\<lparr>sh_Content := v\<rparr>) store_string),
         (''tool_calls'', on sh_ToolCalls (\<lambda>v c. c\<lparr>sh_ToolCalls := v\<rparr>)
            (store_slice zero_stream_call store_stream_call))]),
      (''finish_reason'', on sh_FinishReason (\<lambda>v c. c\<lparr>sh_FinishReason := v\<rparr>) store_string)]"

definition store_usage :: "usage store" where
  "store_usage = store_struct
     [(''prompt_tokens'', on u_InputTokens (\<lambda>v u. u\<lparr>u_InputTokens := v\<rparr>) store_int),
      (''completion_tokens'', on u_OutputTokens (\<lambda>v u. u\<lparr>u_OutputTokens := v\<rparr>) store_int),
      (''total_tokens'', typed 0 store_int)]"

definition decode_chunk :: "string \<Rightarrow> stream_chunk option" where
  "decode_chunk = unmarshal \<lparr>ck_Choices = [], ck_Usage = None\<rparr>
     (store_struct
       [(''choices'', on ck_Choices (\<lambda>v c. c\<lparr>ck_Choices := v\<rparr>)
           (store_slice zero_stream_choice store_stream_choice)),
        (''usage'', on ck_Usage (\<lambda>v c. c\<lparr>ck_Usage := v\<rparr>) (store_ptr zero_usage store_usage))])"

section \<open>Tool calls of a stream\<close>

text \<open>The accumulator of one tool call (id, name, arguments), by the index the engine gives it.\<close>

type_synonym tool_buffer = "(int \<times> call) list"

definition accumulateToolCall :: "stream_tool_call \<Rightarrow> tool_buffer \<Rightarrow> tool_buffer" where
  "accumulateToolCall tc buf =
     (case (case map_of buf (sc_Index tc) of None \<Rightarrow> ([], [], []) | Some st \<Rightarrow> st) of
        (i, n, args) \<Rightarrow>
          obj_put (sc_Index tc)
            (if sc_ID tc \<noteq> [] then sc_ID tc else i,
             if sc_Name tc \<noteq> [] then sc_Name tc else n,
             args @ sc_Arguments tc) buf)"

text \<open>The insertion sort, on an array: \<open>shift_right xs v j\<close> is the inner loop from \<open>j - 1\<close> down.\<close>

fun shift_right :: "int list \<Rightarrow> int \<Rightarrow> nat \<Rightarrow> int list \<times> nat" where
  "shift_right xs v 0 = (xs, 0)"
| "shift_right xs v (Suc j) =
     (if v < xs ! j then shift_right (xs[Suc j := xs ! j]) v j else (xs, Suc j))"

definition insert_at :: "int list \<Rightarrow> nat \<Rightarrow> int list" where
  "insert_at xs i = (case shift_right xs (xs ! i) i of (ys, k) \<Rightarrow> ys[k := xs ! i])"

definition sortInts :: "int list \<Rightarrow> int list" where
  "sortInts xs = fold (\<lambda>i ys. insert_at ys i) [1..<length xs] xs"

fun emit_calls :: "tool_buffer \<Rightarrow> int \<Rightarrow> int list \<Rightarrow> sse_event list" where
  "emit_calls buf idx [] = []"
| "emit_calls buf idx (k # ks) =
     (case the (map_of buf k) of
        (i, n, args) \<Rightarrow>
          [BlockStart idx (tool_use_block i n ''{}''),
           BlockDelta idx (InputJSONDelta (if args = [] then ''{}'' else args)),
           BlockStop idx]) @ emit_calls buf (idx + 1) ks"

definition emitBufferedToolCalls :: "tool_buffer \<Rightarrow> int \<Rightarrow> sse_event list" where
  "emitBufferedToolCalls buf startIndex = emit_calls buf startIndex (sortInts (map fst buf))"

section \<open>The stream loop\<close>

record proxy_stream =
  px_in :: int
  px_out :: int
  px_stop :: string
  px_done :: bool
  px_tools :: tool_buffer
  px_events :: "sse_event list"

definition choice_step :: "stream_choice \<Rightarrow> proxy_stream \<Rightarrow> proxy_stream" where
  "choice_step ch st =
     (let st = (if sh_Content ch = [] then st
                else st\<lparr>px_events := px_events st @ [BlockDelta 0 (TextDelta (sh_Content ch))]\<rparr>);
          st = st\<lparr>px_tools := fold accumulateToolCall (sh_ToolCalls ch) (px_tools st)\<rparr>
      in if sh_FinishReason ch = [] then st
         else st\<lparr>px_stop := MapFinishReason (sh_FinishReason ch)\<rparr>)"

definition chunk_step :: "stream_chunk \<Rightarrow> proxy_stream \<Rightarrow> proxy_stream" where
  "chunk_step c st =
     (let st = (case ck_Choices c of [] \<Rightarrow> st | ch # chs \<Rightarrow> choice_step ch st)
      in case ck_Usage c of
           None \<Rightarrow> st
         | Some u \<Rightarrow> st\<lparr>px_in := u_InputTokens u, px_out := u_OutputTokens u\<rparr>)"

definition sseDataPrefix :: string where "sseDataPrefix = ''data: ''"

fun proxy_lines :: "string list \<Rightarrow> proxy_stream \<Rightarrow> proxy_stream" where
  "proxy_lines [] st = st"
| "proxy_lines (line # ls) st =
     (if \<not> has_prefix line sseDataPrefix then proxy_lines ls st
      else let payload = trim_space (trim_prefix line sseDataPrefix) in
           if payload = [] then proxy_lines ls st
           else if payload = ''[DONE]'' then st\<lparr>px_done := True\<rparr>
           else case decode_chunk payload of
                  None \<Rightarrow> proxy_lines ls st
                | Some c \<Rightarrow> proxy_lines ls (chunk_step c st))"

definition proxy_stream_start :: proxy_stream where
  "proxy_stream_start = \<lparr>px_in = 0, px_out = 0, px_stop = StopReasonEndTurn, px_done = False,
     px_tools = [], px_events = []\<rparr>"

text \<open>\<open>end_turn\<close> becomes \<open>max_tokens\<close> when the count reached the cap the client set.\<close>

definition upgrade_stop :: "int \<Rightarrow> int \<Rightarrow> string \<Rightarrow> string" where
  "upgrade_stop maxTokens out stop =
     (if stop = StopReasonEndTurn \<and> 0 < maxTokens \<and> 0 < out \<and> maxTokens \<le> out
      then StopReasonMaxTokens else stop)"

definition proxy_streamMessagesResponse ::
  "upstream_body \<Rightarrow> messages_request \<Rightarrow> string \<Rightarrow> int \<Rightarrow> sse_event list" where
  "proxy_streamMessagesResponse body req modelAlias now =
     (let (ls, err) = scan_lines body;
          st = proxy_lines ls proxy_stream_start;
          sent = [MessageStart (NewMessageID now) modelAlias, BlockStart 0 (text_block [])] @ px_events st
      in case (if px_done st then up_early body else err) of
           Some e \<Rightarrow> sent @ [ErrorEvent ErrAPIError (''upstream stream error: '' @ e)]
         | None \<Rightarrow>
             let stop = upgrade_stop (mr_MaxTokens req) (px_out st) (px_stop st);
                 stop = (if px_tools st = [] then stop else StopReasonToolUse)
             in sent @ [BlockStop 0] @
                (if px_tools st = [] then [] else emitBufferedToolCalls (px_tools st) 1) @
                [MessageDelta stop \<lparr>u_InputTokens = px_in st, u_OutputTokens = px_out st\<rparr>,
                 MessageStop])"

section \<open>The message of a buffered answer, and the handlers\<close>

definition choice_blocks :: "(string \<Rightarrow> string option) \<Rightarrow> chat_choice \<Rightarrow> content_block list" where
  "choice_blocks fl ch =
     (let blocks = (if cc_Content ch = [] then [] else [text_block (cc_Content ch)]) @
                   ToolCallsToBlocks fl (cc_ToolCalls ch)
      in if blocks = [] then [text_block []] else blocks)"

definition proxy_collectMessagesResponse ::
  "(string \<Rightarrow> string option) \<Rightarrow> upstream_body \<Rightarrow> string \<Rightarrow> int \<Rightarrow> reply" where
  "proxy_collectMessagesResponse fl body modelAlias now =
     (case read_upstream body of
        None \<Rightarrow> WriteError 502 ErrAPIError ''read upstream''
      | Some bytes \<Rightarrow>
          case decode_chat_response bytes of
            None \<Rightarrow> WriteError 502 ErrAPIError ''decode upstream''
          | Some r \<Rightarrow>
              case cp_Choices r of
                [] \<Rightarrow> WriteError 502 ErrAPIError ''upstream returned no choices''
              | ch # chs \<Rightarrow> MessageReply
                  \<lparr>mp_ID = NewMessageID now, mp_Content = choice_blocks fl ch, mp_Model = modelAlias,
                   mp_StopReason = MapFinishReason (cc_FinishReason ch),
                   mp_Usage = \<lparr>u_InputTokens = cp_PromptTokens r, u_OutputTokens = cp_CompletionTokens r\<rparr>\<rparr>)"

text \<open>Reading and checking a request: the errors in the order the code looks for them.\<close>

definition proxy_read_body :: "proxy_env \<Rightarrow> http_body \<Rightarrow> reply + string" where
  "proxy_read_body env b =
     (case read_limited (pe_cap env + 1) b of
        None \<Rightarrow> Inl (WriteError 400 ErrInvalidRequest ''read body'')
      | Some body \<Rightarrow>
          if pe_cap env < length body
          then Inl (WriteError 413 ErrInvalidRequest ''request body exceeds messages cap'')
          else Inr body)"

definition proxy_handleCountTokens :: "proxy_env \<Rightarrow> http_body \<Rightarrow> reply" where
  "proxy_handleCountTokens env b =
     (case proxy_read_body env b of
        Inl e \<Rightarrow> e
      | Inr body \<Rightarrow>
          case decode_count_request body of
            None \<Rightarrow> WriteError 400 ErrInvalidRequest ''invalid JSON''
          | Some req \<Rightarrow> CountReply (EstimateTokens req))"

definition proxy_forward :: "proxy_env \<Rightarrow> messages_request \<Rightarrow> reply" where
  "proxy_forward env req =
     (if \<not> pe_url_ok env then WriteError 500 ErrAPIError ''build upstream request''
      else case pe_engine env (translateMessagesToOpenAI (pe_fl env) req (pe_alias env))
                  (mr_Stream req) of
             Unreachable \<Rightarrow> WriteError 502 ErrAPIError ''upstream unreachable''
           | Answer status body \<Rightarrow>
               if 400 \<le> status then WriteError 502 ErrAPIError ''upstream /v1/chat/completions status''
               else if mr_Stream req
               then StreamReply (proxy_streamMessagesResponse body req (pe_alias env) (pe_now env))
               else proxy_collectMessagesResponse (pe_fl env) body (pe_alias env) (pe_now env))"

definition proxy_handleMessages :: "proxy_env \<Rightarrow> http_body \<Rightarrow> reply" where
  "proxy_handleMessages env b =
     (case proxy_read_body env b of
        Inl e \<Rightarrow> e
      | Inr body \<Rightarrow>
          case decode_request (pe_fl env) body of
            None \<Rightarrow> WriteError 400 ErrInvalidRequest ''invalid JSON''
          | Some req \<Rightarrow>
              if mr_MaxTokens req \<le> 0
              then WriteError 400 ErrInvalidRequest ''max_tokens is required and must be > 0''
              else if mr_Messages req = []
              then WriteError 400 ErrInvalidRequest ''messages must not be empty''
              else proxy_forward env req)"

section \<open>What a stream says\<close>

definition sse_payloads :: "string list \<Rightarrow> string list" where
  "sse_payloads ls =
     filter (\<lambda>p. p \<noteq> []) (map (\<lambda>l. trim_space (trim_prefix l sseDataPrefix))
       (filter (\<lambda>l. has_prefix l sseDataPrefix) ls))"

definition chunks_of :: "string list \<Rightarrow> stream_chunk list" where
  "chunks_of ls = List.map_filter decode_chunk (takeWhile (\<lambda>p. p \<noteq> ''[DONE]'') (sse_payloads ls))"

definition first_choices :: "stream_chunk list \<Rightarrow> stream_choice list" where
  "first_choices cs = concat (map (\<lambda>c. take 1 (ck_Choices c)) cs)"

definition last_given :: "string list \<Rightarrow> string" where
  "last_given xs = (let ys = filter (\<lambda>x. x \<noteq> []) xs in if ys = [] then [] else last ys)"

definition chunk_texts :: "stream_chunk list \<Rightarrow> string list" where
  "chunk_texts cs = filter (\<lambda>t. t \<noteq> []) (map sh_Content (first_choices cs))"

definition chunk_deltas :: "stream_chunk list \<Rightarrow> stream_tool_call list" where
  "chunk_deltas cs = concat (map sh_ToolCalls (first_choices cs))"

definition merged_call :: "stream_tool_call list \<Rightarrow> int \<Rightarrow> call" where
  "merged_call ds k =
     (let mine = filter (\<lambda>d. sc_Index d = k) ds
      in (last_given (map sc_ID mine), last_given (map sc_Name mine), concat (map sc_Arguments mine)))"

definition default_args :: "call \<Rightarrow> call" where
  "default_args c = (case c of (i, n, args) \<Rightarrow> (i, n, if args = [] then ''{}'' else args))"

definition stream_calls :: "stream_tool_call list \<Rightarrow> call list" where
  "stream_calls ds =
     map (\<lambda>k. default_args (merged_call ds k)) (sort (remdups (map sc_Index ds)))"

definition last_usage :: "stream_chunk list \<Rightarrow> usage" where
  "last_usage cs = (let us = List.map_filter ck_Usage cs in if us = [] then zero_usage else last us)"

definition proxy_end :: "messages_request \<Rightarrow> stream_chunk list \<Rightarrow> string option \<Rightarrow> stream_end" where
  "proxy_end req cs err =
     (case err of
        Some e \<Rightarrow> Broken (''upstream stream error: '' @ e)
      | None \<Rightarrow>
          let calls = stream_calls (chunk_deltas cs);
              stop = MapFinishReason (last_given (map sh_FinishReason (first_choices cs)))
          in Complete calls
               (if calls = [] then upgrade_stop (mr_MaxTokens req) (u_OutputTokens (last_usage cs)) stop
                else StopReasonToolUse)
               (last_usage cs))"

definition proxy_outcome ::
  "messages_request \<times> string \<times> int \<Rightarrow> upstream_body \<Rightarrow> stream_outcome" where
  "proxy_outcome q body =
     (case q of (req, modelAlias, now) \<Rightarrow>
        let (ls, err) = scan_lines body; cs = chunks_of ls;
            finished = ''[DONE]'' \<in> set (sse_payloads ls)
        in \<lparr>so_id = NewMessageID now, so_model = modelAlias, so_texts = chunk_texts cs,
            so_end = proxy_end req cs (if finished then up_early body else err)\<rparr>)"

section \<open>The sort\<close>

lemma insort_before: "v < y \<Longrightarrow> insort v (ws @ [y]) = insort v ws @ [y :: int]"
  by (induction ws) auto

lemma shift_right_insert:
  "i < length xs \<Longrightarrow> sorted (take i xs) \<Longrightarrow>
     (case shift_right xs v i of (ys, k) \<Rightarrow> ys[k := v]) = insort v (take i xs) @ drop (Suc i) xs"
proof (induction i arbitrary: xs)
  case 0
  then show ?case by (cases xs) simp_all
next
  case (Suc j)
  have t: "take (Suc j) xs = take j xs @ [xs ! j]" using Suc.prems by (simp add: take_Suc_conv_app_nth)
  then have s: "sorted (take j xs)" "\<And>x. x \<in> set (take j xs) \<Longrightarrow> x \<le> xs ! j"
    using Suc.prems(2) by (simp_all add: sorted_append)
  show ?case
  proof (cases "v < xs ! j")
    case True
    let ?xs = "xs[Suc j := xs ! j]"
    have "(case shift_right ?xs v j of (ys, k) \<Rightarrow> ys[k := v]) =
        insort v (take j ?xs) @ drop (Suc j) ?xs"
      using Suc.IH [of ?xs] Suc.prems s by simp
    moreover have "drop (Suc j) ?xs = xs ! j # drop (Suc (Suc j)) xs"
      using Suc.prems(1) by (simp add: drop_update_swap Cons_nth_drop_Suc [symmetric])
    moreover have "insort v (take j xs @ [xs ! j]) = insort v (take j xs) @ [xs ! j]"
      using True by (rule insort_before)
    ultimately show ?thesis using True t by simp
  next
    case False
    then have "\<forall>x \<in> set (take (Suc j) xs). x \<le> v"
      unfolding t using s(2) by fastforce
    then have "insort v (take (Suc j) xs) = take (Suc j) xs @ [v]"
      using Suc.prems(2) by (intro sorted_insort_is_snoc)
    then show ?thesis
      using False Suc.prems(1) by (simp add: upd_conv_take_nth_drop)
  qed
qed

lemma insert_at_prefix:
  assumes "i < length xs" "sorted (take i xs)"
  shows "insert_at xs i = insort (xs ! i) (take i xs) @ drop (Suc i) xs"
  using shift_right_insert [OF assms] by (simp add: insert_at_def)

lemma sort_loop:
  "n \<le> length xs \<Longrightarrow> 0 < n \<Longrightarrow>
     let ys = fold (\<lambda>i ys. insert_at ys i) [1..<n] xs
     in length ys = length xs \<and> sorted (take n ys) \<and> mset ys = mset xs"
proof (induction n)
  case (Suc n)
  show ?case
  proof (cases "n = 0")
    case True
    then show ?thesis using Suc.prems by (cases xs) simp_all
  next
    case False
    let ?ys = "fold (\<lambda>i ys. insert_at ys i) [1..<n] xs"
    have ys: "length ?ys = length xs" "sorted (take n ?ys)" "mset ?ys = mset xs"
      using Suc False by (auto simp: Let_def)
    have n: "n < length ?ys" using ys(1) Suc.prems by simp
    note step = insert_at_prefix [OF n ys(2)]
    have "mset (insort (?ys ! n) (take n ?ys) @ drop (Suc n) ?ys) =
        mset (take n ?ys @ ?ys ! n # drop (Suc n) ?ys)" by simp
    also have "take n ?ys @ ?ys ! n # drop (Suc n) ?ys = ?ys"
      using n by (simp add: id_take_nth_drop [symmetric])
    finally have m: "mset (insert_at ?ys n) = mset xs" using step ys(3) by simp
    have "take (Suc n) (insert_at ?ys n) = insort (?ys ! n) (take n ?ys)"
      using n step by simp
    then have "sorted (take (Suc n) (insert_at ?ys n))" using ys(2) by (simp add: sorted_insort)
    then show ?thesis using m False mset_eq_length [OF m] by (simp add: Let_def)
  qed
qed simp

lemma sortInts_sort: "sortInts xs = sort xs"
proof (cases "xs = []")
  case False
  then show ?thesis
    using sort_loop [of "length xs" xs]
    by (intro properties_for_sort [symmetric]) (auto simp: sortInts_def Let_def)
qed (simp add: sortInts_def)

section \<open>The loop refines the outcome\<close>

lemma sse_payloads_Cons:
  "sse_payloads (l # ls) =
     (if has_prefix l sseDataPrefix \<and> trim_space (trim_prefix l sseDataPrefix) \<noteq> []
      then trim_space (trim_prefix l sseDataPrefix) # sse_payloads ls else sse_payloads ls)"
  by (simp add: sse_payloads_def)

lemma proxy_lines_fold:
  "proxy_lines ls st =
     (let st' = fold chunk_step (chunks_of ls) st
      in if ''[DONE]'' \<in> set (sse_payloads ls) then st'\<lparr>px_done := True\<rparr> else st')"
proof (induction ls st rule: proxy_lines.induct)
  case (1 st)
  then show ?case by (simp add: chunks_of_def sse_payloads_def List.map_filter_def)
next
  case (2 l ls st)
  let ?p = "trim_space (trim_prefix l sseDataPrefix)"
  consider "\<not> has_prefix l sseDataPrefix \<or> ?p = []" | "has_prefix l sseDataPrefix" "?p = ''[DONE]''"
    | "has_prefix l sseDataPrefix" "?p \<noteq> []" "?p \<noteq> ''[DONE]''" by blast
  then show ?case
  proof cases
    case 1
    then show ?thesis using 2(1,2) by (auto simp: chunks_of_def sse_payloads_Cons Let_def)
  next
    case 2
    then show ?thesis
      by (simp add: chunks_of_def sse_payloads_Cons Let_def List.map_filter_def)
  next
    case 3
    then show ?thesis
      using 2(3,4) [of ?p]
      by (cases "decode_chunk ?p")
        (auto simp: chunks_of_def sse_payloads_Cons Let_def List.map_filter_def)
  qed
qed

lemma last_given_snoc: "last_given (xs @ [x]) = (if x \<noteq> [] then x else last_given xs)"
  by (simp add: last_given_def)

lemma last_usage_snoc:
  "last_usage (cs @ [c]) = (case ck_Usage c of None \<Rightarrow> last_usage cs | Some u \<Rightarrow> u)"
  by (simp add: last_usage_def List.map_filter_def split: option.splits)

lemma first_choices_snoc: "first_choices (cs @ [c]) = first_choices cs @ take 1 (ck_Choices c)"
  by (simp add: first_choices_def)

lemma chunk_deltas_snoc:
  "chunk_deltas (cs @ [c]) = chunk_deltas cs @ concat (map sh_ToolCalls (take 1 (ck_Choices c)))"
  by (simp add: chunk_deltas_def first_choices_def)

lemma chunk_texts_snoc:
  "chunk_texts (cs @ [c]) =
     chunk_texts cs @ filter (\<lambda>t. t \<noteq> []) (map sh_Content (take 1 (ck_Choices c)))"
  by (simp add: chunk_texts_def first_choices_def)

lemma accumulate_fold:
  "map_of (fold accumulateToolCall ds []) k =
     (if k \<in> set (map sc_Index ds) then Some (merged_call ds k) else None)"
proof (induction ds rule: rev_induct)
  case (snoc d ds)
  have "merged_call ds k = ([], [], [])" if "k \<notin> set (map sc_Index ds)" for k
  proof -
    have "filter (\<lambda>d. sc_Index d = k) ds = []" using that by (auto simp: filter_empty_conv)
    then show ?thesis by (simp add: merged_call_def last_given_def)
  qed
  then show ?case
    using snoc
    by (auto simp: accumulateToolCall_def merged_call_def Let_def last_given_snoc split: prod.splits)
qed simp

lemma accumulate_keys:
  "distinct (map fst (fold accumulateToolCall ds [])) \<and>
     set (map fst (fold accumulateToolCall ds [])) = set (map sc_Index ds)"
proof (induction ds rule: rev_induct)
  case (snoc d ds)
  then show ?case
    by (auto simp: accumulateToolCall_def obj_put_distinct obj_put_keys simp del: set_map
        split: prod.splits)
qed simp

lemma accumulate_indices:
  "sortInts (map fst (fold accumulateToolCall ds [])) = sort (remdups (map sc_Index ds))"
  using accumulate_keys [of ds] unfolding sortInts_sort
  by (intro sorted_distinct_set_unique) (auto simp del: set_map)

lemma emit_calls_events:
  "(\<And>k. k \<in> set ks \<Longrightarrow> map_of buf k = Some (f k)) \<Longrightarrow>
     emit_calls buf idx ks = tool_events idx (map (\<lambda>k. default_args (f k)) ks)"
  by (induction ks arbitrary: idx) (auto simp: default_args_def split: prod.splits)

lemma emitBufferedToolCalls_events:
  "emitBufferedToolCalls (fold accumulateToolCall ds []) idx = tool_events idx (stream_calls ds)"
  unfolding emitBufferedToolCalls_def accumulate_indices stream_calls_def
  by (rule emit_calls_events) (simp add: accumulate_fold)

lemma fold_chunk_step:
  "fold chunk_step cs proxy_stream_start =
     \<lparr>px_in = u_InputTokens (last_usage cs), px_out = u_OutputTokens (last_usage cs),
      px_stop = MapFinishReason (last_given (map sh_FinishReason (first_choices cs))),
      px_done = False, px_tools = fold accumulateToolCall (chunk_deltas cs) [],
      px_events = map (\<lambda>t. BlockDelta 0 (TextDelta t)) (chunk_texts cs)\<rparr>"
proof (induction cs rule: rev_induct)
  case Nil
  then show ?case
    by (simp add: proxy_stream_start_def last_usage_def List.map_filter_def zero_usage_def
        first_choices_def last_given_def MapFinishReason_def chunk_deltas_def chunk_texts_def)
next
  case (snoc c cs)
  have last: "fold chunk_step (cs @ [c]) st = chunk_step c (fold chunk_step cs st)" for st
    by simp
  show ?case
    unfolding last snoc
    by (cases "ck_Choices c"; cases "ck_Usage c")
      (simp_all add: chunk_step_def choice_step_def Let_def last_usage_snoc last_given_snoc
        first_choices_snoc chunk_deltas_snoc chunk_texts_snoc)
qed

lemma tools_empty: "fold accumulateToolCall ds [] = [] \<longleftrightarrow> stream_calls ds = []"
proof -
  have "stream_calls ds = [] \<longleftrightarrow> ds = []"
    by (simp add: stream_calls_def) (metis length_0_conv length_sort map_is_Nil_conv remdups_eq_nil_iff)
  moreover have "fold accumulateToolCall ds [] = [] \<longleftrightarrow> set (map sc_Index ds) = {}"
    using accumulate_keys [of ds] by (metis map_is_Nil_conv set_empty)
  ultimately show ?thesis by simp
qed

lemma proxy_stream_refines:
  "proxy_streamMessagesResponse body req modelAlias now =
     outcome_events (proxy_outcome (req, modelAlias, now) body)"
proof -
  obtain ls err where ls: "scan_lines body = (ls, err)" by (cases "scan_lines body")
  show ?thesis
    by (simp add: proxy_streamMessagesResponse_def proxy_outcome_def ls proxy_lines_fold
        fold_chunk_step Let_def outcome_events_def proxy_end_def tools_empty
        emitBufferedToolCalls_events split: option.splits)
qed

lemma MapFinishReason_range:
  "MapFinishReason f \<in> {StopReasonEndTurn, StopReasonMaxTokens, StopReasonToolUse}"
  by (simp add: MapFinishReason_def)

lemma upgrade_stop_range:
  "stop \<in> {StopReasonEndTurn, StopReasonMaxTokens, StopReasonToolUse} \<Longrightarrow>
     upgrade_stop m n stop \<in> {StopReasonEndTurn, StopReasonMaxTokens, StopReasonToolUse}"
  by (auto simp: upgrade_stop_def)

lemma stream_calls_args: "list_all (\<lambda>(i, n, args). args \<noteq> []) (stream_calls ds)"
  by (auto simp: stream_calls_def list_all_iff default_args_def split: prod.splits if_splits)

interpretation proxy: stream_translator
  "\<lambda>(req, modelAlias, now) body. proxy_streamMessagesResponse body req modelAlias now" proxy_outcome
proof unfold_locales
  fix q :: "messages_request \<times> string \<times> int" and b
  obtain req modelAlias now where q: "q = (req, modelAlias, now)" by (cases q)
  show "(case q of (req, modelAlias, now) \<Rightarrow> \<lambda>body. proxy_streamMessagesResponse body req modelAlias now) b =
      outcome_events (proxy_outcome q b)"
    by (simp add: q proxy_stream_refines)
  obtain ls err where ls: "scan_lines b = (ls, err)" by (cases "scan_lines b")
  show "outcome_ok (proxy_outcome q b)"
    using MapFinishReason_range upgrade_stop_range stream_calls_args
    by (auto simp: q outcome_ok_def proxy_outcome_def ls Let_def proxy_end_def chunk_texts_def
        list_all_iff split: option.splits)
qed

end
