(* ===== verification/OllamaMessages.thy ===== *)
theory OllamaMessages
  imports Anthropic Sources EngineArgs
begin

text \<open>
  \<open>internal/adapter/ollama\<close>, the Messages API in front of an Ollama daemon: the shape of tool calls
  (tool_calls.go), the request to \<open>/api/chat\<close> and the way back, as one message or frame by frame
  (translate_messages.go), over \<open>Client.PostJSON\<close> (client.go) and the settings \<open>ENGINE_ARGS\<close> injects
  (adapter.go). \<open>ollama_outcome\<close> states what a stream says as a function of its frames.
\<close>

section \<open>Frames (translate_chat.go)\<close>

record ollama_call =
  oc_ID :: string
  oc_Type :: string
  oc_Name :: string
  oc_Arguments :: string

record ollama_frame =
  fr_Model :: string
  fr_CreatedAt :: string
  fr_Content :: string
  fr_Thinking :: string
  fr_ToolCalls :: "ollama_call list"
  fr_Done :: bool
  fr_PromptEvalCount :: int
  fr_EvalCount :: int

definition zero_ollama_call :: ollama_call where
  "zero_ollama_call = \<lparr>oc_ID = [], oc_Type = [], oc_Name = [], oc_Arguments = []\<rparr>"

definition zero_frame :: ollama_frame where
  "zero_frame = \<lparr>fr_Model = [], fr_CreatedAt = [], fr_Content = [], fr_Thinking = [],
     fr_ToolCalls = [], fr_Done = False, fr_PromptEvalCount = 0, fr_EvalCount = 0\<rparr>"

definition store_ollama_call :: "ollama_call store" where
  "store_ollama_call = store_struct
     [(''id'', on oc_ID (\<lambda>v c. c\<lparr>oc_ID := v\<rparr>) store_string),
      (''type'', on oc_Type (\<lambda>v c. c\<lparr>oc_Type := v\<rparr>) store_string),
      (''function'', store_struct
        [(''name'', on oc_Name (\<lambda>v c. c\<lparr>oc_Name := v\<rparr>) store_string),
         (''arguments'', on oc_Arguments (\<lambda>v c. c\<lparr>oc_Arguments := v\<rparr>) store_raw)])]"

definition store_frame :: "ollama_frame store" where
  "store_frame = store_struct
     [(''model'', on fr_Model (\<lambda>v f. f\<lparr>fr_Model := v\<rparr>) store_string),
      (''created_at'', on fr_CreatedAt (\<lambda>v f. f\<lparr>fr_CreatedAt := v\<rparr>) store_string),
      (''message'', store_struct
        [(''role'', \<lambda>f j. map_option (\<lambda>_. f) (store_string [] j)),
         (''content'', on fr_Content (\<lambda>v f. f\<lparr>fr_Content := v\<rparr>) store_string),
         (''thinking'', on fr_Thinking (\<lambda>v f. f\<lparr>fr_Thinking := v\<rparr>) store_string),
         (''tool_calls'', on fr_ToolCalls (\<lambda>v f. f\<lparr>fr_ToolCalls := v\<rparr>)
            (store_slice zero_ollama_call store_ollama_call))]),
      (''done'', on fr_Done (\<lambda>v f. f\<lparr>fr_Done := v\<rparr>) store_bool),
      (''prompt_eval_count'', on fr_PromptEvalCount (\<lambda>v f. f\<lparr>fr_PromptEvalCount := v\<rparr>) store_int),
      (''eval_count'', on fr_EvalCount (\<lambda>v f. f\<lparr>fr_EvalCount := v\<rparr>) store_int)]"

definition decode_frame :: "string \<Rightarrow> ollama_frame option" where
  "decode_frame = unmarshal zero_frame store_frame"

text \<open>The lines of a buffer that are not blank, and the last frame among them.\<close>

definition ndjson_lines :: "string \<Rightarrow> string list" where
  "ndjson_lines bytes = filter (\<lambda>l. l \<noteq> []) (map trim_space (split_on (CHR 0x0A) bytes))"

fun last_frame :: "ollama_frame \<Rightarrow> string list \<Rightarrow> ollama_frame" where
  "last_frame out [] = out"
| "last_frame out (l # ls) =
     last_frame (case decode_frame l of None \<Rightarrow> out | Some fr \<Rightarrow> fr) ls"

definition lastNDJSONFrame :: "string \<Rightarrow> ollama_frame" where
  "lastNDJSONFrame bytes = last_frame zero_frame (ndjson_lines bytes)"

section \<open>Tool calls (tool_calls.go)\<close>

definition parseToolCallArgumentsJSON :: "(string \<Rightarrow> string option) \<Rightarrow> string \<Rightarrow> json" where
  "parseToolCallArgumentsJSON fl s =
     (if s = [] then JObj []
      else case unmarshal_any fl s of Some (JObj fs) \<Rightarrow> JObj fs | _ \<Rightarrow> JObj [])"

definition toolCallArgumentsObject :: "(string \<Rightarrow> string option) \<Rightarrow> json option \<Rightarrow> json" where
  "toolCallArgumentsObject fl raw =
     (case raw of
        Some (JObj fs) \<Rightarrow> JObj fs
      | Some (JStr s) \<Rightarrow> parseToolCallArgumentsJSON fl s
      | _ \<Rightarrow> JObj [])"

definition copy_members :: "string list \<Rightarrow> json \<Rightarrow> (string \<times> json) list" where
  "copy_members ks j = concat (map (\<lambda>k. opt_member k (member j k)) ks)"

definition normalizeOneToolCallForOllama :: "(string \<Rightarrow> string option) \<Rightarrow> json \<Rightarrow> json" where
  "normalizeOneToolCallForOllama fl tc =
     JObj (copy_members [''id'', ''type'', ''index''] tc @
       (case member_obj tc ''function'' of
          None \<Rightarrow> []
        | Some fn \<Rightarrow>
            [(''function'', JObj (copy_members [''name''] fn @
               [(''arguments'', toolCallArgumentsObject fl (member fn ''arguments''))]))]))"

fun is_obj :: "json \<Rightarrow> bool" where
  "is_obj (JObj fs) = True" | "is_obj v = False"

definition normalizeToolCallsForOllama :: "(string \<Rightarrow> string option) \<Rightarrow> json \<Rightarrow> json list" where
  "normalizeToolCallsForOllama fl raw =
     (case raw of JArr xs \<Rightarrow> map (normalizeOneToolCallForOllama fl) (filter is_obj xs) | _ \<Rightarrow> [])"

definition legacyFunctionCallToToolCalls :: "(string \<Rightarrow> string option) \<Rightarrow> json \<Rightarrow> json list" where
  "legacyFunctionCallToToolCalls fl fc =
     [JObj [(''type'', JStr ''function''),
            (''function'', JObj (copy_members [''name''] fc @
              [(''arguments'', toolCallArgumentsObject fl (member fc ''arguments''))]))]]"

definition toolCallArgumentsString :: "string \<Rightarrow> string" where
  "toolCallArgumentsString raw =
     (if raw = [] then ''{}''
      else if hd raw = CHR 0x22 then
        (case unmarshal [] store_string raw of
           Some s \<Rightarrow> if s = [] then ''{}'' else s
         | None \<Rightarrow> raw)
      else raw)"

section \<open>What the configuration injects (adapter.go)\<close>

text \<open>How \<open>strconv.ParseFloat\<close> reads a setting: not at all, not as a positive number, as infinity
  (which \<open>json.Marshal\<close> refuses), or as a number that is written as the literal.\<close>

datatype float_setting = NotAFloat | NotPositive | Infinite | PositiveFloat string

record ollama_cfg =
  og_sources :: "model_source list"
  og_ModelName :: string
  og_Name :: string
  og_args :: engine_args
  og_float :: "string \<Rightarrow> float_setting"

definition UpstreamModel :: "ollama_cfg \<Rightarrow> string" where
  "UpstreamModel cfg = PrimaryOllamaTag (og_sources cfg) (og_ModelName cfg) (og_Name cfg)"

definition positive_int :: "string \<Rightarrow> engine_args \<Rightarrow> (string \<times> json) list" where
  "positive_int k args =
     (case GetInt args k of Some v \<Rightarrow> if 0 < v then [(k, JNum (itoa v))] else [] | None \<Rightarrow> [])"

definition penalty :: "ollama_cfg \<Rightarrow> float_setting" where
  "penalty cfg = (case GetString (og_args cfg) ''repeat_penalty'' of None \<Rightarrow> NotAFloat | Some v \<Rightarrow> og_float cfg v)"

definition penalty_member :: "ollama_cfg \<Rightarrow> (string \<times> json) list" where
  "penalty_member cfg =
     (case penalty cfg of
        PositiveFloat l \<Rightarrow> [(''repeat_penalty'', JNum l)]
      | _ \<Rightarrow> [])"

text \<open>The members added to the options and to the request itself.\<close>

definition applyInferenceInjection ::
  "ollama_cfg \<Rightarrow> (string \<times> json) list \<Rightarrow> (string \<times> json) list \<Rightarrow>
     (string \<times> json) list \<times> (string \<times> json) list" where
  "applyInferenceInjection cfg out options =
     (out @ (case GetString (og_args cfg) ''keep_alive'' of
               Some v \<Rightarrow> if v \<noteq> [] then [(''keep_alive'', JStr v)] else [] | None \<Rightarrow> []),
      options @ positive_int ''num_ctx'' (og_args cfg) @ penalty_member cfg @
        positive_int ''repeat_last_n'' (og_args cfg))"

text \<open>\<open>json.Marshal\<close> fails on a request that carries an infinite number.\<close>

definition marshals :: "ollama_cfg \<Rightarrow> bool" where
  "marshals cfg \<longleftrightarrow> penalty cfg \<noteq> Infinite"

section \<open>The request\<close>

definition buildUserMessage :: "content_block list \<Rightarrow> json" where
  "buildUserMessage residual =
     JObj ([(''role'', JStr RoleUser), (''content'', JStr (texts_of residual))] @
       (case OllamaImagesFromBlocks residual of
          (images, dropped) \<Rightarrow>
            if images = [] then [] else [(''images'', JArr (map JStr images))]))"

definition ollama_user_entries :: "message \<Rightarrow> json list" where
  "ollama_user_entries m =
     (case ToolResultsFromMessage m of
        (toolMsgs, residual) \<Rightarrow>
          toolMsgs @ (if residual \<noteq> [] \<or> toolMsgs = [] then [buildUserMessage residual] else []))"

definition ollama_assistant_entry :: "(string \<Rightarrow> string option) \<Rightarrow> message \<Rightarrow> json" where
  "ollama_assistant_entry fl m =
     (case AssistantToolUseToOpenAI m of
        (content, toolCalls) \<Rightarrow>
          JObj ([(''content'', JStr content), (''role'', JStr RoleAssistant)] @
            (if toolCalls = [] then []
             else [(''tool_calls'', JArr (normalizeToolCallsForOllama fl (JArr toolCalls)))])))"

definition ollama_buildUpstreamMessages ::
  "(string \<Rightarrow> string option) \<Rightarrow> messages_request \<Rightarrow> json list" where
  "ollama_buildUpstreamMessages fl req =
     system_entry (mr_System req) @
     concat (map (\<lambda>m.
       if m_Role m = RoleUser then ollama_user_entries m
       else if m_Role m = RoleAssistant then [ollama_assistant_entry fl m]
       else [other_entry m]) (mr_Messages req))"

definition translateMessagesRequest ::
  "(string \<Rightarrow> string option) \<Rightarrow> messages_request \<Rightarrow> ollama_cfg \<Rightarrow> json" where
  "translateMessagesRequest fl req cfg =
     (case applyInferenceInjection cfg
        [(''model'', JStr (UpstreamModel cfg)), (''stream'', JBool (mr_Stream req)),
         (''messages'', JArr (ollama_buildUpstreamMessages fl req))]
        (opt_member ''temperature'' (map_option JNum (mr_Temperature req)) @
         opt_member ''top_p'' (map_option JNum (mr_TopP req)) @
         opt_member ''top_k'' (map_option (\<lambda>k. JNum (itoa k)) (mr_TopK req)) @
         opt_member ''num_predict''
           (if 0 < mr_MaxTokens req then Some (JNum (itoa (mr_MaxTokens req))) else None) @
         opt_member ''stop'' (if mr_StopSequences req = [] then None
                              else Some (JArr (map JStr (mr_StopSequences req))))) of
        (out, options) \<Rightarrow>
          JObj (out @ (if options = [] then [] else [(''options'', JObj options)]) @
            opt_member ''tools'' (map_option JArr (ToolsToOpenAI fl (mr_Tools req))) @
            opt_member ''tool_choice'' (ToolChoiceToOpenAI fl (mr_ToolChoice req))))"

section \<open>The stream loop\<close>

record ollama_stream =
  os_in :: int
  os_out :: int
  os_stop :: string
  os_done :: bool
  os_tools :: "ollama_call list"
  os_events :: "sse_event list"

definition frame_step :: "int \<Rightarrow> ollama_frame \<Rightarrow> ollama_stream \<Rightarrow> ollama_stream" where
  "frame_step maxTokens fr st =
     (let st = (if fr_Content fr = [] then st
                else st\<lparr>os_events := os_events st @ [BlockDelta 0 (TextDelta (fr_Content fr))]\<rparr>);
          st = st\<lparr>os_tools := os_tools st @ fr_ToolCalls fr\<rparr>
      in if fr_Done fr
         then st\<lparr>os_in := fr_PromptEvalCount fr, os_out := fr_EvalCount fr, os_done := True,
                 os_stop := (if 0 < maxTokens \<and> maxTokens \<le> fr_EvalCount fr
                             then StopReasonMaxTokens else os_stop st)\<rparr>
         else st)"

fun ollama_lines :: "int \<Rightarrow> string list \<Rightarrow> ollama_stream \<Rightarrow> ollama_stream" where
  "ollama_lines maxTokens [] st = st"
| "ollama_lines maxTokens (line # ls) st =
     (if line = [] then ollama_lines maxTokens ls st
      else case decode_frame line of
             None \<Rightarrow> ollama_lines maxTokens ls st
           | Some fr \<Rightarrow>
               if fr_Done fr then frame_step maxTokens fr st
               else ollama_lines maxTokens ls (frame_step maxTokens fr st))"

definition ollama_stream_start :: ollama_stream where
  "ollama_stream_start = \<lparr>os_in = 0, os_out = 0, os_stop = StopReasonEndTurn, os_done = False,
     os_tools = [], os_events = []\<rparr>"

fun emitOllamaToolUseBlocks :: "ollama_call list \<Rightarrow> int \<Rightarrow> sse_event list" where
  "emitOllamaToolUseBlocks [] idx = []"
| "emitOllamaToolUseBlocks (tc # tcs) idx =
     [BlockStart idx (tool_use_block (oc_ID tc) (oc_Name tc) ''{}''),
      BlockDelta idx (InputJSONDelta (if oc_Arguments tc = [] then ''{}'' else oc_Arguments tc)),
      BlockStop idx] @ emitOllamaToolUseBlocks tcs (idx + 1)"

definition ollama_streamMessagesResponse ::
  "upstream_body \<Rightarrow> messages_request \<Rightarrow> string \<Rightarrow> int \<Rightarrow> sse_event list" where
  "ollama_streamMessagesResponse body req modelAlias now =
     (let (ls, err) = scan_lines body;
          st = ollama_lines (mr_MaxTokens req) ls ollama_stream_start;
          sent = [MessageStart (NewMessageID now) modelAlias, BlockStart 0 (text_block [])] @ os_events st
      in case (if os_done st then up_early body else err) of
           Some e \<Rightarrow> sent @ [ErrorEvent ErrAPIError (''upstream stream error: '' @ e)]
         | None \<Rightarrow>
             sent @ [BlockStop 0] @
             (if os_tools st = [] then [] else emitOllamaToolUseBlocks (os_tools st) 1) @
             [MessageDelta (if os_tools st = [] then os_stop st else StopReasonToolUse)
                \<lparr>u_InputTokens = os_in st, u_OutputTokens = os_out st\<rparr>,
              MessageStop])"

section \<open>The message of a buffered answer, and the handlers\<close>

definition openai_call :: "ollama_call \<Rightarrow> openai_tool_call" where
  "openai_call c = \<lparr>tc_ID = oc_ID c, tc_Type = oc_Type c, tc_Name = oc_Name c,
     tc_Arguments = oc_Arguments c\<rparr>"

definition buildResponseBlocks ::
  "(string \<Rightarrow> string option) \<Rightarrow> ollama_frame \<Rightarrow> content_block list" where
  "buildResponseBlocks fl fr =
     (if fr_Content fr = [] then [] else [text_block (fr_Content fr)]) @
     ToolCallsToBlocks fl (map openai_call (fr_ToolCalls fr))"

definition hasToolUse :: "content_block list \<Rightarrow> bool" where
  "hasToolUse bs = list_ex (\<lambda>b. b_Type b = BlockToolUse) bs"

definition frame_stop :: "int \<Rightarrow> ollama_frame \<Rightarrow> string" where
  "frame_stop maxTokens fr =
     (if 0 < maxTokens \<and> 0 < fr_EvalCount fr \<and> maxTokens \<le> fr_EvalCount fr
      then StopReasonMaxTokens else StopReasonEndTurn)"

definition ollama_collectMessagesResponse ::
  "(string \<Rightarrow> string option) \<Rightarrow> upstream_body \<Rightarrow> messages_request \<Rightarrow> string \<Rightarrow> int \<Rightarrow> reply" where
  "ollama_collectMessagesResponse fl body req modelAlias now =
     (case read_upstream body of
        None \<Rightarrow> WriteError 502 ErrAPIError ''read upstream''
      | Some bytes \<Rightarrow>
          let fr = (case decode_frame bytes of Some fr \<Rightarrow> fr | None \<Rightarrow> lastNDJSONFrame bytes);
              bs = buildResponseBlocks fl fr;
              blocks = (if bs = [] then [text_block []] else bs)
          in MessageReply
               \<lparr>mp_ID = NewMessageID now, mp_Content = blocks, mp_Model = modelAlias,
                mp_StopReason = (if hasToolUse blocks then StopReasonToolUse
                                 else frame_stop (mr_MaxTokens req) fr),
                mp_Usage = \<lparr>u_InputTokens = fr_PromptEvalCount fr, u_OutputTokens = fr_EvalCount fr\<rparr>\<rparr>)"

record ollama_env =
  oe_cap :: nat
  oe_now :: int
  oe_fl :: "string \<Rightarrow> string option"
  oe_daemon :: "string \<Rightarrow> json \<Rightarrow> upstream_answer"

text \<open>\<open>Client.PostJSON\<close>: a status of 400 or more is an error, with the status in it.\<close>

datatype post_error = TransportFailed | StatusError int

definition PostJSON :: "ollama_env \<Rightarrow> string \<Rightarrow> json \<Rightarrow> post_error + (int \<times> upstream_body)" where
  "PostJSON env path body =
     (case oe_daemon env path body of
        Unreachable \<Rightarrow> Inl TransportFailed
      | Answer status b \<Rightarrow> if 400 \<le> status then Inl (StatusError status) else Inr (status, b))"

definition ollama_read_body :: "ollama_env \<Rightarrow> http_body \<Rightarrow> reply + string" where
  "ollama_read_body env b =
     (case read_limited (oe_cap env + 1) b of
        None \<Rightarrow> Inl (WriteError 400 ErrInvalidRequest ''read body'')
      | Some body \<Rightarrow>
          if oe_cap env < length body
          then Inl (WriteError 413 ErrInvalidRequest ''request body exceeds messages cap'')
          else Inr body)"

definition ollama_handleCountTokens :: "ollama_env \<Rightarrow> http_body \<Rightarrow> reply" where
  "ollama_handleCountTokens env b =
     (case ollama_read_body env b of
        Inl e \<Rightarrow> e
      | Inr body \<Rightarrow>
          case decode_count_request body of
            None \<Rightarrow> WriteError 400 ErrInvalidRequest ''invalid JSON''
          | Some req \<Rightarrow> CountReply (EstimateTokens req))"

definition ollama_forward :: "ollama_env \<Rightarrow> ollama_cfg \<Rightarrow> messages_request \<Rightarrow> reply" where
  "ollama_forward env cfg req =
     (if \<not> marshals cfg then WriteError 500 ErrAPIError ''marshal upstream''
      else case PostJSON env ''/api/chat'' (translateMessagesRequest (oe_fl env) req cfg) of
             Inl e \<Rightarrow> WriteError 502 ErrAPIError ''upstream unreachable''
           | Inr (status, body) \<Rightarrow>
               if 400 \<le> status then WriteError 502 ErrAPIError ''upstream /api/chat status''
               else if mr_Stream req
               then StreamReply (ollama_streamMessagesResponse body req (og_Name cfg) (oe_now env))
               else ollama_collectMessagesResponse (oe_fl env) body req (og_Name cfg) (oe_now env))"

definition ollama_handleMessages :: "ollama_env \<Rightarrow> ollama_cfg \<Rightarrow> http_body \<Rightarrow> reply" where
  "ollama_handleMessages env cfg b =
     (case ollama_read_body env b of
        Inl e \<Rightarrow> e
      | Inr body \<Rightarrow>
          case decode_request (oe_fl env) body of
            None \<Rightarrow> WriteError 400 ErrInvalidRequest ''invalid JSON''
          | Some req \<Rightarrow>
              if mr_MaxTokens req \<le> 0
              then WriteError 400 ErrInvalidRequest ''max_tokens is required and must be > 0''
              else if mr_Messages req = []
              then WriteError 400 ErrInvalidRequest ''messages must not be empty''
              else ollama_forward env cfg req)"

section \<open>What a stream says\<close>

text \<open>The frames up to and including the one that closes the stream.\<close>

fun upto_done :: "ollama_frame list \<Rightarrow> ollama_frame list" where
  "upto_done [] = []"
| "upto_done (fr # frs) = (if fr_Done fr then [fr] else fr # upto_done frs)"

definition frames_of :: "string list \<Rightarrow> ollama_frame list" where
  "frames_of ls = upto_done (List.map_filter decode_frame (filter (\<lambda>l. l \<noteq> []) ls))"

definition closing :: "ollama_frame list \<Rightarrow> ollama_frame option" where
  "closing frs = find fr_Done frs"

definition frame_texts :: "ollama_frame list \<Rightarrow> string list" where
  "frame_texts frs = filter (\<lambda>t. t \<noteq> []) (map fr_Content frs)"

definition raw_call :: "ollama_call \<Rightarrow> call" where
  "raw_call c = (oc_ID c, oc_Name c, if oc_Arguments c = [] then ''{}'' else oc_Arguments c)"

definition frame_tools :: "ollama_frame list \<Rightarrow> ollama_call list" where
  "frame_tools frs = concat (map fr_ToolCalls frs)"

definition frame_calls :: "ollama_frame list \<Rightarrow> call list" where
  "frame_calls frs = map raw_call (frame_tools frs)"

definition ollama_end :: "messages_request \<Rightarrow> ollama_frame list \<Rightarrow> string option \<Rightarrow> stream_end" where
  "ollama_end req frs err =
     (case err of
        Some e \<Rightarrow> Broken (''upstream stream error: '' @ e)
      | None \<Rightarrow>
          Complete (frame_calls frs)
            (if frame_calls frs \<noteq> [] then StopReasonToolUse
             else case closing frs of
                    Some fr \<Rightarrow>
                      if 0 < mr_MaxTokens req \<and> mr_MaxTokens req \<le> fr_EvalCount fr
                      then StopReasonMaxTokens else StopReasonEndTurn
                  | None \<Rightarrow> StopReasonEndTurn)
            (case closing frs of
               Some fr \<Rightarrow> \<lparr>u_InputTokens = fr_PromptEvalCount fr, u_OutputTokens = fr_EvalCount fr\<rparr>
             | None \<Rightarrow> zero_usage))"

definition ollama_outcome ::
  "messages_request \<times> string \<times> int \<Rightarrow> upstream_body \<Rightarrow> stream_outcome" where
  "ollama_outcome q body =
     (case q of (req, modelAlias, now) \<Rightarrow>
        let (ls, err) = scan_lines body; frs = frames_of ls
        in \<lparr>so_id = NewMessageID now, so_model = modelAlias, so_texts = frame_texts frs,
            so_end = ollama_end req frs (if closing frs \<noteq> None then up_early body else err)\<rparr>)"

section \<open>The loop refines the outcome\<close>

lemma ollama_lines_fold:
  "ollama_lines m ls st = fold (frame_step m) (frames_of ls) st"
  by (induction m ls st rule: ollama_lines.induct)
    (auto simp: frames_of_def List.map_filter_def split: option.splits)

lemma upto_done_snoc_open:
  "closing frs = None \<Longrightarrow> upto_done frs = frs"
  by (induction frs) (auto simp: closing_def)

definition frames_state :: "int \<Rightarrow> ollama_frame list \<Rightarrow> ollama_stream \<Rightarrow> ollama_stream" where
  "frames_state m frs st =
     \<lparr>os_in = (case closing frs of Some fr \<Rightarrow> fr_PromptEvalCount fr | None \<Rightarrow> os_in st),
      os_out = (case closing frs of Some fr \<Rightarrow> fr_EvalCount fr | None \<Rightarrow> os_out st),
      os_stop = (case closing frs of
                   Some fr \<Rightarrow> if 0 < m \<and> m \<le> fr_EvalCount fr then StopReasonMaxTokens else os_stop st
                 | None \<Rightarrow> os_stop st),
      os_done = (os_done st \<or> closing frs \<noteq> None),
      os_tools = os_tools st @ frame_tools frs,
      os_events = os_events st @ map (\<lambda>t. BlockDelta 0 (TextDelta t)) (frame_texts frs)\<rparr>"

lemma fold_frame_step:
  "fold (frame_step m) (upto_done frs) st = frames_state m (upto_done frs) st"
proof (induction frs arbitrary: st)
  case Nil
  then show ?case by (simp add: frames_state_def closing_def frame_texts_def frame_tools_def)
next
  case (Cons fr frs)
  show ?case
  proof (cases "fr_Done fr")
    case True
    then show ?thesis
      by (simp add: frames_state_def closing_def frame_texts_def frame_tools_def frame_step_def Let_def)
  next
    case False
    then have e: "fold (frame_step m) (upto_done (fr # frs)) st =
        frames_state m (upto_done frs) (frame_step m fr st)"
      by (simp add: Cons)
    show ?thesis
      unfolding e using False
      by (cases "find fr_Done (upto_done frs)"; cases "fr_Content fr = []")
        (simp_all add: frames_state_def closing_def frame_texts_def frame_tools_def frame_step_def Let_def)
  qed
qed

lemma emitOllamaToolUseBlocks_events:
  "emitOllamaToolUseBlocks tcs idx = tool_events idx (map raw_call tcs)"
  by (induction tcs idx rule: emitOllamaToolUseBlocks.induct) (simp_all add: raw_call_def)

lemma ollama_stream_refines:
  "ollama_streamMessagesResponse body req modelAlias now =
     outcome_events (ollama_outcome (req, modelAlias, now) body)"
proof -
  obtain ls err where ls: "scan_lines body = (ls, err)" by (cases "scan_lines body")
  have f: "fold (frame_step m) (frames_of ls) st = frames_state m (frames_of ls) st" for m st
    by (simp add: frames_of_def fold_frame_step)
  show ?thesis
    by (cases "closing (frames_of ls)")
      (simp_all add: ollama_streamMessagesResponse_def ollama_outcome_def ls ollama_lines_fold f
        frames_state_def ollama_stream_start_def Let_def outcome_events_def ollama_end_def
        frame_calls_def emitOllamaToolUseBlocks_events zero_usage_def split: option.splits)
qed

interpretation ollama: stream_translator
  "\<lambda>(req, modelAlias, now) body. ollama_streamMessagesResponse body req modelAlias now" ollama_outcome
proof unfold_locales
  fix q :: "messages_request \<times> string \<times> int" and b
  obtain req modelAlias now where q: "q = (req, modelAlias, now)" by (cases q)
  show "(case q of (req, modelAlias, now) \<Rightarrow> \<lambda>body. ollama_streamMessagesResponse body req modelAlias now) b =
      outcome_events (ollama_outcome q b)"
    by (simp add: q ollama_stream_refines)
  obtain ls err where ls: "scan_lines b = (ls, err)" by (cases "scan_lines b")
  have args: "list_all (\<lambda>(i, n, args). args \<noteq> []) (frame_calls frs)" for frs
    by (auto simp: frame_calls_def raw_call_def list_all_iff)
  show "outcome_ok (ollama_outcome q b)"
    using args
    by (auto simp: q outcome_ok_def ollama_outcome_def ls Let_def ollama_end_def frame_texts_def
        list_all_iff split: option.splits)
qed

end
