(* ===== verification/Messages.thy ===== *)
theory Messages
  imports ProxyMessages OllamaMessages
begin

text \<open>
  Properties of the Messages API in front of both kinds of engine: the stream protocol, what a client
  reads from a stream, framing, tool calls and tool results across the translation, and the checks
  of a request.
\<close>

section \<open>Streams\<close>

text \<open>C21: every stream either adapter sends is a word of the protocol: it opens with message_start,
  numbers its blocks without holes, opens and closes each one, sends no empty delta and only deltas
  of the block's own kind, and ends in message_stop, or in an error event when the upstream broke.\<close>
theorem streams_follow_protocol:
  "protocol_run AwaitStart (proxy_streamMessagesResponse body req modelAlias now) =
     Some (case so_end (proxy_outcome (req, modelAlias, now) body) of
             Broken msg \<Rightarrow> Failed | Complete cs r u \<Rightarrow> Finished) \<and>
   protocol_run AwaitStart (ollama_streamMessagesResponse body req modelAlias now) =
     Some (case so_end (ollama_outcome (req, modelAlias, now) body) of
             Broken msg \<Rightarrow> Failed | Complete cs r u \<Rightarrow> Finished)"
  using proxy.follows_protocol [of "(req, modelAlias, now)" body]
    ollama.follows_protocol [of "(req, modelAlias, now)" body] by simp

lemma concat_nonempty: "concat (filter (\<lambda>t. t \<noteq> []) ts) = concat ts"
  by (induction ts) auto

definition proxy_stream_error :: "upstream_body \<Rightarrow> string option" where
  "proxy_stream_error body =
     (case scan_lines body of (ls, err) \<Rightarrow>
        if ''[DONE]'' \<in> set (sse_payloads ls) then up_early body else err)"

text \<open>C4: what the client of an OpenAI engine holds when the stream is read to its end without an error: one
  text block, the contents of the chunks before [DONE] in order, then one tool_use block per tool-call
  index in ascending order, with the last id and name given for the index and its argument fragments
  joined; the stop reason, which is \<open>tool_use\<close> as soon as there is a tool call, else the last finish reason
  given, read as \<open>max_tokens\<close> where it would be \<open>end_turn\<close> but the output has reached the cap of the request;
  and the last usage reported.\<close>
theorem proxy_stream_delivers:
  assumes "proxy_stream_error body = None"
  defines "cs \<equiv> chunks_of (fst (scan_lines body))"
  shows "let client = client_reads (proxy_streamMessagesResponse body req modelAlias now) in
         cm_blocks client = text_block (concat (map sh_Content (first_choices cs))) #
           map call_block (stream_calls (chunk_deltas cs)) \<and>
         cm_stop client =
           (let given = MapFinishReason (last_given (map sh_FinishReason (first_choices cs)))
            in if stream_calls (chunk_deltas cs) \<noteq> [] then StopReasonToolUse
               else if given = StopReasonEndTurn \<and> 0 < mr_MaxTokens req \<and>
                 mr_MaxTokens req \<le> u_OutputTokens (last_usage cs) then StopReasonMaxTokens
               else given) \<and>
         cm_usage client = last_usage cs"
proof -
  obtain ls err where ls: "scan_lines body = (ls, err)" by (cases "scan_lines body")
  let ?o = "proxy_outcome (req, modelAlias, now) body"
  let ?stop = "let given = MapFinishReason (last_given (map sh_FinishReason (first_choices cs)))
    in if stream_calls (chunk_deltas cs) \<noteq> [] then StopReasonToolUse
       else if given = StopReasonEndTurn \<and> 0 < mr_MaxTokens req \<and>
         mr_MaxTokens req \<le> u_OutputTokens (last_usage cs) then StopReasonMaxTokens
       else given"
  have e: "so_end ?o = Complete (stream_calls (chunk_deltas cs)) ?stop (last_usage cs)"
      "so_texts ?o = chunk_texts cs"
    using assms(1) by (auto simp: proxy_outcome_def ls proxy_end_def Let_def cs_def upgrade_stop_def
        proxy_stream_error_def split: if_splits)
  note f = proxy.client_final [OF e(1)]
  have "concat (chunk_texts cs) = concat (map sh_Content (first_choices cs))"
    by (simp add: chunk_texts_def concat_nonempty)
  then show ?thesis using f e(2) by (simp add: Let_def)
qed

definition example_sse :: upstream_body where
  "example_sse = \<lparr>up_data =
     ''data: {\"choices\":[{\"delta\":{\"content\":\"Hi\",\"tool_calls\":[{\"index\":0,\"id\":\"a\",\"function\":{\"name\":\"f\",\"arguments\":\"{\"}}]}}]}'' @
     [CHR 0x0A] @
     ''data: {\"choices\":[{\"delta\":{\"tool_calls\":[{\"index\":0,\"function\":{\"arguments\":\"}\"}}]},\"finish_reason\":\"tool_calls\"}]}'' @
     [CHR 0x0A] @ ''data: [DONE]'' @ [CHR 0x0A], up_err = None, up_early = None\<rparr>"

lemma example_sse_reads:
  "proxy_stream_error example_sse = None"
  "map sh_Content (first_choices (chunks_of (fst (scan_lines example_sse)))) = [''Hi'', []]"
  "stream_calls (chunk_deltas (chunks_of (fst (scan_lines example_sse)))) = [(''a'', ''f'', ''{}'')]"
  by code_simp+

theorem proxy_stream_delivers_witness:
  "let c = client_reads (proxy_streamMessagesResponse example_sse zero_request ''m'' 7)
   in cm_blocks c = [text_block ''Hi'', tool_use_block ''a'' ''f'' ''{}''] \<and> cm_stop c = StopReasonToolUse"
  using proxy_stream_delivers [OF example_sse_reads(1), of zero_request "''m''" 7]
  unfolding example_sse_reads(2,3) by (simp add: call_block_def Let_def)

text \<open>C25: whatever the model writes, it cannot forge an event: splitting the bytes of any stream at its
  newlines gives back exactly the frames that were emitted, event name and payload, in order.\<close>
theorem streams_cannot_be_forged:
  "read_frames (split_on (CHR 0x0A) (w_out (emit_all (proxy_streamMessagesResponse body req modelAlias now)))) =
     map (\<lambda>ev. (event_name ev, json_encode (the (event_payload ev))))
       (proxy_streamMessagesResponse body req modelAlias now) \<and>
   read_frames (split_on (CHR 0x0A) (w_out (emit_all (ollama_streamMessagesResponse body req modelAlias now)))) =
     map (\<lambda>ev. (event_name ev, json_encode (the (event_payload ev))))
       (ollama_streamMessagesResponse body req modelAlias now)"
  unfolding proxy_stream_refines ollama_stream_refines by (simp add: outcome_frames)

text \<open>the events of the tool calls do not depend on the order in which Go ranges over the buffer's
  map: two buffers with the same entries emit the same events.\<close>
theorem tool_events_ignore_map_order:
  assumes "distinct (map fst buf)" "distinct (map fst buf')" "map_of buf = map_of buf'"
  shows "emitBufferedToolCalls buf k = emitBufferedToolCalls buf' k"
proof -
  have "set (map fst buf) = set (map fst buf')"
    using assms(3) by (metis dom_map_of_conv_image_fst set_map)
  then have "sortInts (map fst buf) = sortInts (map fst buf')"
    unfolding sortInts_sort using assms(1,2) by (intro sorted_distinct_set_unique) simp_all
  moreover have "emit_calls buf k ks = emit_calls buf' k ks" for k ks
    by (induction ks arbitrary: k) (simp_all add: assms(3))
  ultimately show ?thesis by (simp add: emitBufferedToolCalls_def)
qed

theorem tool_events_ignore_map_order_witness:
  "emitBufferedToolCalls [(4, (''b'', ''g'', [])), (2, (''a'', ''f'', ''[1]''))] 1 =
   emitBufferedToolCalls [(2, (''a'', ''f'', ''[1]'')), (4, (''b'', ''g'', []))] 1"
  by (rule tool_events_ignore_map_order) (simp_all add: fun_eq_iff)

section \<open>Buffered and streamed answers\<close>

definition shown :: "content_block list \<Rightarrow> content_block list" where
  "shown bs = filter (\<lambda>b. b \<noteq> text_block []) bs"

definition stop_given :: "reply \<Rightarrow> string" where
  "stop_given r = (case r of MessageReply m \<Rightarrow> mp_StopReason m | _ \<Rightarrow> [])"

definition blocks_given :: "reply \<Rightarrow> content_block list" where
  "blocks_given r = (case r of MessageReply m \<Rightarrow> mp_Content m | _ \<Rightarrow> [])"

text \<open>an answer of the Ollama daemon that is one closing frame reads the same streamed or buffered:
  the same non-empty blocks and the same stop reason, when the arguments of its tool calls are JSON.\<close>
theorem ollama_stream_agrees_with_message:
  assumes "decode_frame (up_data body) = Some fr" "fr_Done fr"
    and "scan_lines body = ([up_data body], None)" "up_early body = None" "up_err body = None"
    and "length (up_data body) < upstreamReadCap"
    and "\<forall>c \<in> set (fr_ToolCalls fr). unmarshal_any fl (oc_Arguments c) \<noteq> None"
  shows "shown (cm_blocks (client_reads (ollama_streamMessagesResponse body req modelAlias now))) =
           shown (blocks_given (ollama_collectMessagesResponse fl body req modelAlias now)) \<and>
         cm_stop (client_reads (ollama_streamMessagesResponse body req modelAlias now)) =
           stop_given (ollama_collectMessagesResponse fl body req modelAlias now)"
proof -
  let ?o = "ollama_outcome (req, modelAlias, now) body"
  have ne: "up_data body \<noteq> []" using assms(1) by (auto simp: decode_frame_def unmarshal_def raw_parse_def json_parse_def)
  have frs: "frames_of [up_data body] = [fr]"
    using ne assms(1,2) by (simp add: frames_of_def List.map_filter_def)
  have calls: "frame_calls [fr] = map raw_call (fr_ToolCalls fr)"
    by (simp add: frame_calls_def frame_tools_def)
  have o: "so_texts ?o = frame_texts [fr]" "so_end ?o = ollama_end req [fr] None"
    using assms(3,4) frs assms(2) by (simp_all add: ollama_outcome_def closing_def Let_def)
  have e: "so_end ?o = Complete (frame_calls [fr])
      (if frame_calls [fr] \<noteq> [] then StopReasonToolUse
       else if 0 < mr_MaxTokens req \<and> mr_MaxTokens req \<le> fr_EvalCount fr then StopReasonMaxTokens
       else StopReasonEndTurn)
      \<lparr>u_InputTokens = fr_PromptEvalCount fr, u_OutputTokens = fr_EvalCount fr\<rparr>"
    using o(2) assms(2) by (simp add: ollama_end_def closing_def)
  have tools: "map call_block (map raw_call cs) = ToolCallsToBlocks fl (map openai_call cs)"
    if "\<forall>c \<in> set cs. unmarshal_any fl (oc_Arguments c) \<noteq> None" for cs
    using that by (auto simp: ToolCallsToBlocks_def raw_call_def call_block_def openai_call_def call_input_def)
  have b: "read_upstream body = Some (up_data body)"
    using assms(5,6) by (simp add: read_upstream_def read_limited_def)
  have has: "hasToolUse (if bs = [] then [text_block []] else bs) \<longleftrightarrow> fr_ToolCalls fr \<noteq> []"
    if "bs = buildResponseBlocks fl fr" for bs
    unfolding that
    by (cases "fr_ToolCalls fr")
      (auto simp: hasToolUse_def buildResponseBlocks_def ToolCallsToBlocks_def tool_use_block_def text_block_def)
  have "shown (if bs = [] then [text_block []] else bs) = shown bs" for bs
    by (simp add: shown_def)
  then show ?thesis
    using ollama.client_final [OF e] o(1) tools [OF assms(7)] has
    by (auto simp: ollama_collectMessagesResponse_def b assms(1) Let_def blocks_given_def stop_given_def
        calls buildResponseBlocks_def shown_def frame_texts_def frame_stop_def)
qed

definition example_frame_body :: upstream_body where
  "example_frame_body = \<lparr>up_data =
     ''{\"message\":{\"content\":\"Hi\",\"tool_calls\":[{\"id\":\"a\",\"function\":{\"name\":\"f\",\"arguments\":{}}}]},\"done\":true}'',
     up_err = None, up_early = None\<rparr>"

definition example_frame :: ollama_frame where
  "example_frame = zero_frame\<lparr>fr_Content := ''Hi'', fr_Done := True, fr_ToolCalls :=
     [\<lparr>oc_ID = ''a'', oc_Type = [], oc_Name = ''f'', oc_Arguments = ''{}''\<rparr>]\<rparr>"

lemma example_frame_decodes: "decode_frame (up_data example_frame_body) = Some example_frame"
  by code_simp

lemma example_frame_lines: "scan_lines example_frame_body = ([up_data example_frame_body], None)"
  by code_simp

theorem ollama_stream_agrees_with_message_witness:
  "shown (cm_blocks (client_reads (ollama_streamMessagesResponse example_frame_body zero_request ''m'' 7))) =
     shown (blocks_given (ollama_collectMessagesResponse Some example_frame_body zero_request ''m'' 7))"
proof -
  have l: "length (up_data example_frame_body) < upstreamReadCap"
    by (simp add: example_frame_body_def upstreamReadCap_def)
  have d: "fr_Done example_frame" by (simp add: example_frame_def)
  have a: "\<forall>c \<in> set (fr_ToolCalls example_frame). unmarshal_any Some (oc_Arguments c) \<noteq> None"
    by code_simp
  have u: "up_early example_frame_body = None" "up_err example_frame_body = None"
    by (simp_all add: example_frame_body_def)
  show ?thesis
    using ollama_stream_agrees_with_message [OF example_frame_decodes d example_frame_lines u l a] by blast
qed

text \<open>a buffered Messages answer that arrives as NDJSON keeps only its last frame: of a frame with
  the text and a closing frame, the client is shown an empty text.\<close>
theorem ndjson_message_loses_its_text:
  "blocks_given (ollama_collectMessagesResponse Some
     \<lparr>up_data = ''{\"message\":{\"content\":\"Hi\"}}'' @ [CHR 0x0A] @ ''{\"done\":true}'',
      up_err = None, up_early = None\<rparr> req modelAlias now) = [text_block []]"
proof -
  let ?d = "''{\"message\":{\"content\":\"Hi\"}}'' @ [CHR 0x0A] @ ''{\"done\":true}''"
  have r: "read_upstream \<lparr>up_data = ?d, up_err = None, up_early = None\<rparr> = Some ?d"
    by (simp add: read_upstream_def read_limited_def upstreamReadCap_def)
  have "decode_frame ?d = None" "lastNDJSONFrame ?d = zero_frame\<lparr>fr_Done := True\<rparr>" by code_simp+
  then show ?thesis
    unfolding ollama_collectMessagesResponse_def r
    by (simp add: Let_def blocks_given_def buildResponseBlocks_def zero_frame_def ToolCallsToBlocks_def)
qed

section \<open>Tool calls and results across the translation\<close>

definition wire_call :: "openai_tool_call \<Rightarrow> json" where
  "wire_call c = JObj [(''function'', JObj [(''arguments'', JStr (tc_Arguments c)), (''name'', JStr (tc_Name c))]),
     (''id'', JStr (tc_ID c)), (''type'', JStr ''function'')]"

text \<open>tool calls survive the round trip through the Messages API: calls of the engine with JSON
  arguments, given to the client as tool_use blocks and replayed by it, go back to the engine with
  the same ids, names and argument strings in the same order.\<close>
theorem tool_calls_roundtrip:
  assumes "\<forall>c \<in> set calls. tc_Arguments c \<noteq> [] \<and> unmarshal_any fl (tc_Arguments c) \<noteq> None"
  shows "AssistantToolUseToOpenAI
           \<lparr>m_Role = RoleAssistant, m_Content = Content [] (ToolCallsToBlocks fl calls)\<rparr> =
         ([], map wire_call calls)"
proof -
  have b: "Blocks (Content [] (ToolCallsToBlocks fl calls)) = ToolCallsToBlocks fl calls"
    by (simp add: Blocks_def)
  have "texts_of (ToolCallsToBlocks fl calls) = []"
    by (simp add: texts_of_def ToolCallsToBlocks_def tool_use_block_def)
  moreover have "map tool_use_call (filter (\<lambda>b. b_Type b = BlockToolUse) (ToolCallsToBlocks fl calls)) =
      map wire_call calls"
    using assms
    by (induction calls)
      (auto simp: ToolCallsToBlocks_def tool_use_block_def tool_use_call_def wire_call_def call_input_def)
  ultimately show ?thesis by (simp add: AssistantToolUseToOpenAI_def b)
qed

theorem tool_calls_roundtrip_witness:
  "AssistantToolUseToOpenAI \<lparr>m_Role = RoleAssistant, m_Content = Content []
     (ToolCallsToBlocks Some [\<lparr>tc_ID = ''a'', tc_Type = [], tc_Name = ''f'', tc_Arguments = ''{\"x\":[1]}''\<rparr>])\<rparr> =
   ([], map wire_call [\<lparr>tc_ID = ''a'', tc_Type = [], tc_Name = ''f'', tc_Arguments = ''{\"x\":[1]}''\<rparr>])"
proof (rule tool_calls_roundtrip)
  show "\<forall>c \<in> set [\<lparr>tc_ID = ''a'', tc_Type = [], tc_Name = ''f'', tc_Arguments = ''{\"x\":[1]}''\<rparr>].
      tc_Arguments c \<noteq> [] \<and> unmarshal_any Some (tc_Arguments c) \<noteq> None"
    by code_simp
qed

text \<open>The ids of the tool results and of the tool calls in a request, and in the upstream messages.\<close>

definition result_ids :: "messages_request \<Rightarrow> string list" where
  "result_ids req = concat (map (\<lambda>m. if m_Role m = RoleUser
     then map b_ToolUseID (filter (\<lambda>b. b_Type b = BlockToolResult) (Blocks (m_Content m))) else [])
     (mr_Messages req))"

definition call_ids :: "messages_request \<Rightarrow> string list" where
  "call_ids req = concat (map (\<lambda>m. if m_Role m = RoleAssistant
     then map b_ID (filter (\<lambda>b. b_Type b = BlockToolUse) (Blocks (m_Content m))) else [])
     (mr_Messages req))"

definition upstream_result_ids :: "json list \<Rightarrow> string list" where
  "upstream_result_ids es = List.map_filter (\<lambda>e. member_str e ''tool_call_id'') es"

definition entry_call_ids :: "json \<Rightarrow> string list" where
  "entry_call_ids e =
     (case member e ''tool_calls'' of
        Some (JArr cs) \<Rightarrow> List.map_filter (\<lambda>c. member_str c ''id'') cs | _ \<Rightarrow> [])"

definition upstream_call_ids :: "json list \<Rightarrow> string list" where
  "upstream_call_ids es = concat (map entry_call_ids es)"

lemma ids_append:
  "upstream_result_ids (xs @ ys) = upstream_result_ids xs @ upstream_result_ids ys"
  "upstream_call_ids (xs @ ys) = upstream_call_ids xs @ upstream_call_ids ys"
  by (simp_all add: upstream_result_ids_def upstream_call_ids_def List.map_filter_def)

lemma ids_concat:
  "upstream_result_ids (concat (map f ms)) = concat (map (upstream_result_ids \<circ> f) ms)"
  "upstream_call_ids (concat (map f ms)) = concat (map (upstream_call_ids \<circ> f) ms)"
  by (induction ms) (simp_all add: ids_append, simp_all add: upstream_result_ids_def upstream_call_ids_def List.map_filter_def)

lemmas id_readers = upstream_result_ids_def upstream_call_ids_def entry_call_ids_def member_str_def
  member_def List.map_filter_def

lemma system_entry_ids: "upstream_result_ids (system_entry s) = []" "upstream_call_ids (system_entry s) = []"
  by (simp_all add: system_entry_def id_readers)

lemma other_entry_ids: "upstream_result_ids [other_entry m] = []" "upstream_call_ids [other_entry m] = []"
  by (simp_all add: other_entry_def id_readers)

lemma result_message_ids:
  "upstream_result_ids (map tool_result_message bs) = map b_ToolUseID bs"
  "upstream_call_ids (map tool_result_message bs) = []"
  by (induction bs) (simp_all add: tool_result_message_def Let_def id_readers)

lemma user_entries_ids:
  "upstream_result_ids (user_entries m) =
     map b_ToolUseID (filter (\<lambda>b. b_Type b = BlockToolResult) (Blocks (m_Content m)))"
  "upstream_call_ids (user_entries m) = []"
  by (simp_all add: user_entries_def ToolResultsFromMessage_def Let_def ids_append result_message_ids)
    (simp_all add: id_readers)

lemma ollama_user_entries_ids:
  "upstream_result_ids (ollama_user_entries m) =
     map b_ToolUseID (filter (\<lambda>b. b_Type b = BlockToolResult) (Blocks (m_Content m)))"
  "upstream_call_ids (ollama_user_entries m) = []"
  by (simp_all add: ollama_user_entries_def ToolResultsFromMessage_def Let_def ids_append result_message_ids)
    (simp_all add: id_readers buildUserMessage_def split: prod.splits)

lemma tool_use_call_ids: "List.map_filter (\<lambda>c. member_str c ''id'') (map tool_use_call bs) = map b_ID bs"
  by (induction bs) (simp_all add: tool_use_call_def Let_def id_readers)

lemma normalized_call_ids:
  "List.map_filter (\<lambda>c. member_str c ''id'') (normalizeToolCallsForOllama fl (JArr (map tool_use_call bs))) =
     map b_ID bs"
  by (induction bs)
    (simp_all add: tool_use_call_def Let_def id_readers normalizeToolCallsForOllama_def
      normalizeOneToolCallForOllama_def copy_members_def opt_member_def)

lemma assistant_entry_ids:
  "upstream_result_ids [assistant_entry m] = []"
  "upstream_call_ids [assistant_entry m] =
     map b_ID (filter (\<lambda>b. b_Type b = BlockToolUse) (Blocks (m_Content m)))"
  using tool_use_call_ids [of "filter (\<lambda>b. b_Type b = BlockToolUse) (Blocks (m_Content m))"]
  by (auto simp: assistant_entry_def AssistantToolUseToOpenAI_def Let_def upstream_result_ids_def
      upstream_call_ids_def entry_call_ids_def member_def List.map_filter_def member_str_def)

lemma ollama_assistant_entry_ids:
  "upstream_result_ids [ollama_assistant_entry fl m] = []"
  "upstream_call_ids [ollama_assistant_entry fl m] =
     map b_ID (filter (\<lambda>b. b_Type b = BlockToolUse) (Blocks (m_Content m)))"
  using normalized_call_ids [of fl "filter (\<lambda>b. b_Type b = BlockToolUse) (Blocks (m_Content m))"]
  by (auto simp: ollama_assistant_entry_def AssistantToolUseToOpenAI_def Let_def upstream_result_ids_def
      upstream_call_ids_def entry_call_ids_def member_def List.map_filter_def member_str_def)

text \<open>no tool call and no tool result of a conversation is lost, duplicated or reordered on its way
  to the engine: the ids in the upstream messages are those of the request, in order, for both kinds
  of engine.\<close>
theorem tool_ids_reach_the_engine:
  "upstream_result_ids (proxy_buildUpstreamMessages req) = result_ids req \<and>
   upstream_call_ids (proxy_buildUpstreamMessages req) = call_ids req \<and>
   upstream_result_ids (ollama_buildUpstreamMessages fl req) = result_ids req \<and>
   upstream_call_ids (ollama_buildUpstreamMessages fl req) = call_ids req"
  unfolding proxy_buildUpstreamMessages_def ollama_buildUpstreamMessages_def ids_append ids_concat
    system_entry_ids result_ids_def call_ids_def
  by (intro conjI arg_cong [where f = concat] map_cong refl append_Nil [THEN trans])
    (simp_all add: message_entries_def user_entries_ids ollama_user_entries_ids assistant_entry_ids
      ollama_assistant_entry_ids other_entry_ids)

section \<open>Checking a request\<close>

definition acceptable :: "nat \<Rightarrow> (string \<Rightarrow> string option) \<Rightarrow> http_body \<Rightarrow> messages_request \<Rightarrow> bool" where
  "acceptable cap fl b req \<longleftrightarrow>
     length (hb_data b) \<le> cap \<and> \<not> hb_fails b \<and> decode_request fl (hb_data b) = Some req \<and>
     0 < mr_MaxTokens req \<and> mr_Messages req \<noteq> []"

definition client_fault :: "reply \<Rightarrow> bool" where
  "client_fault r = (case r of ErrorReply s t m \<Rightarrow> s \<in> {400, 413} \<and> t = ErrInvalidRequest | _ \<Rightarrow> False)"

lemma proxy_read_body_small:
  "length (hb_data b) \<le> pe_cap env \<Longrightarrow> \<not> hb_fails b \<Longrightarrow> proxy_read_body env b = Inr (hb_data b)"
  by (simp add: proxy_read_body_def read_limited_def)

lemma proxy_read_body_bad:
  "\<not> (length (hb_data b) \<le> pe_cap env \<and> \<not> hb_fails b) \<Longrightarrow>
     \<exists>e. proxy_read_body env b = Inl e \<and> client_fault e"
  by (auto simp: proxy_read_body_def read_limited_def WriteError_def client_fault_def)

lemma read_body_alike:
  "pe_cap env = oe_cap env' \<Longrightarrow> ollama_read_body env' b = proxy_read_body env b"
  by (simp add: proxy_read_body_def ollama_read_body_def split: option.split)

lemma ollama_handleMessages_bad:
  assumes "pe_cap env = oe_cap env'" "pe_fl env = oe_fl env'"
    and "\<nexists>req. acceptable (pe_cap env) (pe_fl env) b req"
  shows "client_fault (proxy_handleMessages env b) \<and>
    ollama_handleMessages env' cfg b = proxy_handleMessages env b"
proof (cases "length (hb_data b) \<le> pe_cap env \<and> \<not> hb_fails b")
  case False
  then show ?thesis
    using proxy_read_body_bad [OF False] assms(1)
    by (auto simp: proxy_handleMessages_def ollama_handleMessages_def read_body_alike)
next
  case True
  then have r: "proxy_read_body env b = Inr (hb_data b)" by (simp add: proxy_read_body_small)
  have "decode_request (pe_fl env) (hb_data b) = Some req \<Longrightarrow>
      mr_MaxTokens req \<le> 0 \<or> mr_Messages req = []" for req
    using assms(3) True by (auto simp: acceptable_def not_less)
  then show ?thesis
    using assms(1,2)
    by (auto simp: proxy_handleMessages_def ollama_handleMessages_def read_body_alike r WriteError_def
        client_fault_def split: option.splits)
qed

text \<open>C30: both adapters check a Messages request alike and before anything reaches an engine. A body
  within the cap that reads completely, decodes, states a positive max_tokens and has a message is
  forwarded as decoded; any other body gets the same 400 or 413 invalid_request_error from both.\<close>
theorem requests_are_checked_alike:
  assumes "pe_cap env = oe_cap env'" "pe_fl env = oe_fl env'"
  shows "(\<forall>req. acceptable (pe_cap env) (pe_fl env) b req \<longrightarrow>
            proxy_handleMessages env b = proxy_forward env req \<and>
            ollama_handleMessages env' cfg b = ollama_forward env' cfg req) \<and>
         ((\<nexists>req. acceptable (pe_cap env) (pe_fl env) b req) \<longrightarrow>
            client_fault (proxy_handleMessages env b) \<and>
            ollama_handleMessages env' cfg b = proxy_handleMessages env b)"
proof (intro conjI allI impI)
  fix req assume a: "acceptable (pe_cap env) (pe_fl env) b req"
  then have r: "proxy_read_body env b = Inr (hb_data b)"
    by (simp add: acceptable_def proxy_read_body_small)
  show "proxy_handleMessages env b = proxy_forward env req"
    using a by (auto simp: proxy_handleMessages_def r acceptable_def)
  show "ollama_handleMessages env' cfg b = ollama_forward env' cfg req"
    using a assms by (auto simp: ollama_handleMessages_def read_body_alike r acceptable_def)
qed (use ollama_handleMessages_bad [OF assms] in blast)+

definition example_proxy_env :: proxy_env where
  "example_proxy_env = \<lparr>pe_cap = 10, pe_alias = ''m'', pe_now = 0, pe_url_ok = True, pe_fl = Some,
     pe_engine = \<lambda>body stream. Unreachable\<rparr>"

definition example_ollama_env :: ollama_env where
  "example_ollama_env = \<lparr>oe_cap = 10, oe_now = 0, oe_fl = Some, oe_daemon = \<lambda>path body. Unreachable\<rparr>"

definition example_ollama_cfg :: ollama_cfg where
  "example_ollama_cfg = \<lparr>og_sources = [], og_ModelName = ''m'', og_Name = ''m'',
     og_args = \<lparr>ea_Raw = [], ea_Known = Map.empty, ea_Unknown = []\<rparr>, og_float = \<lambda>_. NotAFloat\<rparr>"

theorem requests_are_checked_alike_witness:
  "client_fault (proxy_handleMessages example_proxy_env \<lparr>hb_data = ''{}'', hb_fails = False\<rparr>) \<and>
   ollama_handleMessages example_ollama_env example_ollama_cfg \<lparr>hb_data = ''{}'', hb_fails = False\<rparr> =
     proxy_handleMessages example_proxy_env \<lparr>hb_data = ''{}'', hb_fails = False\<rparr>"
proof -
  let ?b = "\<lparr>hb_data = ''{}'', hb_fails = False\<rparr>"
  have "decode_request Some ''{}'' = Some zero_request" by code_simp
  then have n: "\<nexists>req. acceptable (pe_cap example_proxy_env) (pe_fl example_proxy_env) ?b req"
    by (simp add: acceptable_def example_proxy_env_def zero_request_def)
  have e: "pe_cap example_proxy_env = oe_cap example_ollama_env"
    "pe_fl example_proxy_env = oe_fl example_ollama_env"
    by (simp_all add: example_proxy_env_def example_ollama_env_def)
  show ?thesis using requests_are_checked_alike [OF e] n by blast
qed

section \<open>Counting tokens\<close>

definition block_chars :: "content_block \<Rightarrow> nat" where
  "block_chars b = nat (fst (block_cost b))"

definition request_chars :: "count_request \<Rightarrow> nat" where
  "request_chars req =
     length (cr_System req) + sum_list (map block_chars (request_blocks req)) +
     sum_list (map (nat \<circ> tool_cost) (cr_Tools req)) + length (cr_ToolChoice req)"

definition request_images :: "count_request \<Rightarrow> nat" where
  "request_images req = length (filter (\<lambda>b. b_Type b = BlockImage) (request_blocks req))"

lemma block_cost_image: "snd (block_cost b) = (if b_Type b = BlockImage then 1568 else 0)"
  by (auto simp: block_cost_def imageTokenBudget_def split: option.splits)

lemma block_cost_nonneg: "0 \<le> fst (block_cost b)"
  by (auto simp: block_cost_def split: option.splits)

lemma sum_costs:
  "sum_list (map (fst \<circ> block_cost) bs) = int (sum_list (map block_chars bs))"
  "sum_list (map (snd \<circ> block_cost) bs) = 1568 * int (length (filter (\<lambda>b. b_Type b = BlockImage) bs))"
  by (induction bs) (simp_all add: block_chars_def block_cost_nonneg block_cost_image)

lemma sum_tools: "sum_list (map tool_cost ts) = int (sum_list (map (nat \<circ> tool_cost) ts))"
  by (induction ts) (simp_all add: tool_cost_def)

text \<open>the token estimate is a quarter of the characters rounded up plus 1568 per image, with no
  overflow on any request that fits in memory.\<close>
theorem estimate_is_quarter_rounded_up:
  assumes "request_chars req < 2 ^ 60" "request_images req < 2 ^ 50"
  shows "EstimateTokens req = (int (request_chars req) + 3) div 4 + 1568 * int (request_images req)"
proof -
  have c: "int (length (cr_System req)) + sum_list (map fst (map block_cost (request_blocks req))) +
      sum_list (map tool_cost (cr_Tools req)) + int (length (cr_ToolChoice req)) = int (request_chars req)"
    by (simp add: sum_costs sum_tools request_chars_def)
  have i: "sum_list (map snd (map block_cost (request_blocks req))) = 1568 * int (request_images req)"
    by (simp add: sum_costs request_images_def)
  have b: "int (request_chars req) < 2 ^ 60" "int (request_images req) < 2 ^ 50"
    using assms by (simp_all add: numeral_power_eq_of_nat_cancel_iff nat_less_iff flip: of_nat_less_iff)
  have d: "(int (request_chars req) + 3) div 4 < 2 ^ 59" using b(1) by simp
  have w: "wrap64 (int (request_chars req)) = int (request_chars req)"
    "wrap64 (int (request_chars req) + 3) = int (request_chars req) + 3"
    "wrap64 (1568 * int (request_images req)) = 1568 * int (request_images req)"
    "wrap64 ((int (request_chars req) + 3) div 4 + 1568 * int (request_images req)) =
       (int (request_chars req) + 3) div 4 + 1568 * int (request_images req)"
    using b d by (auto intro!: wrap64_id simp: in_int64_def)
  show ?thesis
    unfolding EstimateTokens_def Let_def c i w
    by (simp add: w)
qed

definition example_count :: count_request where
  "example_count = \<lparr>cr_Model = [], cr_Messages = [\<lparr>m_Role = RoleUser, m_Content =
     Content [] [text_block ''Hello'', Block BlockImage [] None [] [] [] [] None False]\<rparr>],
     cr_System = [], cr_Tools = [], cr_ToolChoice = []\<rparr>"

theorem estimate_is_quarter_rounded_up_witness: "EstimateTokens example_count = 1570"
proof -
  have c: "request_chars example_count = 5" "request_images example_count = 1" by code_simp+
  show ?thesis using estimate_is_quarter_rounded_up [of example_count] unfolding c by simp
qed

end
