(* ===== verification/OllamaChat.thy ===== *)
theory OllamaChat
  imports OllamaMessages Reasoning
begin

text \<open>
  \<open>internal/adapter/ollama\<close>, the OpenAI surface in front of an Ollama daemon: chat completions with
  the reasoning vocabulary of \<open>internal/reasoning\<close> (translate_chat.go, chat_messages.go), text
  completions (translate_completion.go), embeddings (translate_embed.go) and the model rewrite of
  native bodies (model_rewrite.go). A chunk of an event stream is a \<open>chat_chunk\<close>; id, object, model
  and time stamps of the envelopes are constant and left out.
\<close>

section \<open>Chat messages (chat_messages.go)\<close>

definition base64FromDataURL :: "string \<Rightarrow> string option" where
  "base64FromDataURL url =
     (if \<not> has_prefix url ''data:'' then None
      else case index_byte url (CHR '','') of None \<Rightarrow> None | Some i \<Rightarrow> Some (drop (Suc i) url))"

definition str_or_empty :: "string option \<Rightarrow> string" where
  "str_or_empty v = (case v of None \<Rightarrow> [] | Some s \<Rightarrow> s)"

text \<open>The text, the images and the number of dropped image URLs of one part.\<close>

type_synonym flat = "string \<times> string list \<times> nat"

definition image_url_part :: "json \<Rightarrow> flat" where
  "image_url_part m =
     (let url = str_or_empty (case member_obj m ''image_url'' of None \<Rightarrow> None | Some iu \<Rightarrow> member_str iu ''url'')
      in case base64FromDataURL url of
           Some b64 \<Rightarrow> ([], [b64], 0)
         | None \<Rightarrow> if url \<noteq> [] then ([], [], 1) else ([], [], 0))"

definition image_part :: "json \<Rightarrow> flat" where
  "image_part m =
     (case member_obj m ''source'' of
        None \<Rightarrow> ([], [], 0)
      | Some src \<Rightarrow>
          if member_str src ''type'' = Some ''base64'' then
            (case member_str src ''data'' of Some d \<Rightarrow> ([], [d], 0) | None \<Rightarrow> ([], [], 0))
          else if member_str src ''type'' = Some ''url'' then ([], [], 1)
          else ([], [], 0))"

definition flattenOpenAIChatContentPart :: "json \<Rightarrow> flat" where
  "flattenOpenAIChatContentPart part =
     (if \<not> is_obj part then ([], [], 0)
      else let typ = str_or_empty (member_str part ''type'') in
        if typ = ''text'' \<or> typ = ''input_text'' then (str_or_empty (member_str part ''text''), [], 0)
        else if typ = ''image_url'' then image_url_part part
        else if typ = ''image'' then image_part part
        else ([], [], 0))"

definition flattenOpenAIChatContent :: "json option \<Rightarrow> flat" where
  "flattenOpenAIChatContent content =
     (case content of
        Some (JStr s) \<Rightarrow> (s, [], 0)
      | Some (JArr parts) \<Rightarrow>
          (let fs = map flattenOpenAIChatContentPart parts
           in (concat (map fst fs), concat (map (fst \<circ> snd) fs), sum_list (map (snd \<circ> snd) fs)))
      | _ \<Rightarrow> ([], [], 0))"

definition message_tool_calls :: "(string \<Rightarrow> string option) \<Rightarrow> json \<Rightarrow> (string \<times> json) list" where
  "message_tool_calls fl m =
     (case member m ''tool_calls'' of
        Some v \<Rightarrow> [(''tool_calls'', JArr (normalizeToolCallsForOllama fl v))]
      | None \<Rightarrow>
          (case member_obj m ''function_call'' of
             Some fc \<Rightarrow> [(''tool_calls'', JArr (legacyFunctionCallToToolCalls fl fc))] | None \<Rightarrow> []))"

definition normalizeOneOpenAIChatMessage :: "(string \<Rightarrow> string option) \<Rightarrow> json \<Rightarrow> json" where
  "normalizeOneOpenAIChatMessage fl m =
     (case flattenOpenAIChatContent (member m ''content'') of
        (text, images, dropped) \<Rightarrow>
          JObj (opt_member ''role'' (map_option JStr (member_str m ''role'')) @
            [(''content'', JStr text)] @
            (if images = [] then [] else [(''images'', JArr (map JStr images))]) @
            message_tool_calls fl m @ copy_members [''tool_call_id'', ''tool_name'', ''name''] m))"

definition normalizeOpenAIChatMessages :: "(string \<Rightarrow> string option) \<Rightarrow> json \<Rightarrow> json list" where
  "normalizeOpenAIChatMessages fl raw =
     (case raw of JArr msgs \<Rightarrow> map (normalizeOneOpenAIChatMessage fl) (filter is_obj msgs) | _ \<Rightarrow> [])"

section \<open>The chat request (translate_chat.go)\<close>

definition thinkLevels :: "string list" where
  "thinkLevels = [''low'', ''medium'', ''high'', ''max'']"

definition isThinkLevel :: "string \<Rightarrow> bool" where
  "isThinkLevel norm \<longleftrightarrow> norm \<in> set thinkLevels"

definition enable_thinking :: "json option \<Rightarrow> bool option" where
  "enable_thinking outer =
     (case outer of
        None \<Rightarrow> None
      | Some j \<Rightarrow> (case member_obj j ''chat_template_kwargs'' of
                    None \<Rightarrow> None | Some ctk \<Rightarrow> member_bool ctk ''enable_thinking''))"

definition effort_preference :: "json \<Rightarrow> json option" where
  "effort_preference openai =
     (case member_str openai ''reasoning_effort'' of
        None \<Rightarrow> None
      | Some eff \<Rightarrow>
          let norm = Normalize eff in
          if norm = [] then None
          else if IsOff norm then Some (JBool False)
          else if isThinkLevel norm then Some (JStr norm)
          else Some (JBool True))"

definition resolveThinkPreference :: "json \<Rightarrow> json option" where
  "resolveThinkPreference openai =
     (case member_bool openai ''think'' of
        Some v \<Rightarrow> Some (JBool v)
      | None \<Rightarrow>
          (case enable_thinking (Some openai) of
             Some v \<Rightarrow> Some (JBool v)
           | None \<Rightarrow>
               (case enable_thinking (member_obj openai ''extra_body'') of
                  Some v \<Rightarrow> Some (JBool v)
                | None \<Rightarrow> effort_preference openai)))"

definition mapNumberOption :: "json \<Rightarrow> string \<Rightarrow> string \<Rightarrow> (string \<times> json) list" where
  "mapNumberOption src srcKey dstKey =
     (case member src srcKey of Some (JNum l) \<Rightarrow> [(dstKey, JNum l)] | _ \<Rightarrow> [])"

definition normalizeStop :: "json \<Rightarrow> json" where
  "normalizeStop v = (case v of JStr s \<Rightarrow> JArr [JStr s] | JArr xs \<Rightarrow> JArr xs | _ \<Rightarrow> JNull)"

definition sampling_options :: "json \<Rightarrow> (string \<times> json) list" where
  "sampling_options openai =
     concat (map (\<lambda>(s, d). mapNumberOption openai s d)
       [(''temperature'', ''temperature''), (''top_p'', ''top_p''), (''max_tokens'', ''num_predict''),
        (''frequency_penalty'', ''frequency_penalty''), (''presence_penalty'', ''presence_penalty''),
        (''seed'', ''seed'')]) @
     opt_member ''stop'' (map_option normalizeStop (member openai ''stop''))"

definition stream_flag :: "json \<Rightarrow> bool" where
  "stream_flag openai = (case member_bool openai ''stream'' of Some b \<Rightarrow> b | None \<Rightarrow> False)"

definition with_options :: "(string \<times> json) list \<times> (string \<times> json) list \<Rightarrow> (string \<times> json) list" where
  "with_options p = (case p of (out, options) \<Rightarrow>
     out @ (if options = [] then [] else [(''options'', JObj options)]))"

definition translateChatRequest ::
  "(string \<Rightarrow> string option) \<Rightarrow> json \<Rightarrow> ollama_cfg \<Rightarrow> (string \<times> json) list" where
  "translateChatRequest fl openai cfg =
     with_options (applyInferenceInjection cfg
       ([(''model'', JStr (UpstreamModel cfg)), (''stream'', JBool (stream_flag openai))] @
        opt_member ''messages'' (map_option (\<lambda>v. JArr (normalizeOpenAIChatMessages fl v)) (member openai ''messages'')) @
        copy_members [''tools'', ''tool_choice''] openai)
       (sampling_options openai)) @
     opt_member ''think'' (resolveThinkPreference openai)"

definition downgradeThinkLevel ::
  "post_error \<Rightarrow> (string \<times> json) list \<Rightarrow> (string \<times> json) list option" where
  "downgradeThinkLevel err body =
     (if err \<noteq> StatusError 400 then None
      else case map_of body ''think'' of
             Some (JStr level) \<Rightarrow> Some (obj_put ''think'' (JBool True) body)
           | _ \<Rightarrow> None)"

section \<open>The chat answer\<close>

record wire_tool_call =
  wc_ID :: string
  wc_Type :: string
  wc_Name :: string
  wc_Arguments :: string

definition openAIWireToolCalls :: "ollama_call list \<Rightarrow> wire_tool_call list" where
  "openAIWireToolCalls from = map (\<lambda>tc. \<lparr>wc_ID = oc_ID tc, wc_Type = oc_Type tc, wc_Name = oc_Name tc,
     wc_Arguments = toolCallArgumentsString (oc_Arguments tc)\<rparr>) from"

definition chatFinishReason :: "ollama_call list \<Rightarrow> string" where
  "chatFinishReason toolCalls = (if toolCalls = [] then ''stop'' else ''tool_calls'')"

text \<open>One chunk: whether it carries the role, the two texts, tool calls, the finish reason.\<close>

record chat_chunk =
  ch_Role :: bool
  ch_Content :: string
  ch_Reasoning :: string
  ch_Tools :: "wire_tool_call list"
  ch_Finish :: string

record chat_stream =
  cs_role :: bool
  cs_tools :: "ollama_call list"
  cs_out :: "chat_chunk list"
  cs_done :: bool

definition emit_content :: "ollama_frame \<Rightarrow> chat_stream \<Rightarrow> chat_stream" where
  "emit_content fr st =
     (if fr_Content fr = [] \<and> fr_Thinking fr = [] then st
      else st\<lparr>cs_out := cs_out st @ [\<lparr>ch_Role = \<not> cs_role st, ch_Content = fr_Content fr,
              ch_Reasoning = fr_Thinking fr, ch_Tools = [], ch_Finish = []\<rparr>],
              cs_role := True\<rparr>)"

definition emit_finish :: "chat_stream \<Rightarrow> chat_stream" where
  "emit_finish st =
     st\<lparr>cs_out := cs_out st @
          (if cs_tools st = [] then []
           else [\<lparr>ch_Role = \<not> cs_role st, ch_Content = [], ch_Reasoning = [],
                  ch_Tools = openAIWireToolCalls (cs_tools st), ch_Finish = []\<rparr>]) @
          [\<lparr>ch_Role = False, ch_Content = [], ch_Reasoning = [], ch_Tools = [],
            ch_Finish = chatFinishReason (cs_tools st)\<rparr>],
        cs_done := True\<rparr>"

fun chat_lines :: "string list \<Rightarrow> chat_stream \<Rightarrow> chat_stream" where
  "chat_lines [] st = st"
| "chat_lines (line # ls) st =
     (if line = [] then chat_lines ls st
      else case decode_frame line of
             None \<Rightarrow> chat_lines ls st
           | Some fr \<Rightarrow>
               let st = emit_content fr (st\<lparr>cs_tools := cs_tools st @ fr_ToolCalls fr\<rparr>)
               in if fr_Done fr then emit_finish st else chat_lines ls st)"

definition chat_start :: chat_stream where
  "chat_start = \<lparr>cs_role = False, cs_tools = [], cs_out = [], cs_done = False\<rparr>"

text \<open>The chunks in front of the closing \<open>[DONE]\<close>, which is always written; an error of the scanner is
  not looked at.\<close>

definition streamChatResponse :: "upstream_body \<Rightarrow> chat_chunk list" where
  "streamChatResponse body = cs_out (chat_lines (fst (scan_lines body)) chat_start)"

fun aggregate_frames :: "ollama_frame \<Rightarrow> string list \<Rightarrow> ollama_frame" where
  "aggregate_frames out [] = out"
| "aggregate_frames out (l # ls) =
     (case decode_frame l of
        None \<Rightarrow> aggregate_frames out ls
      | Some fr \<Rightarrow> aggregate_frames
          \<lparr>fr_Model = fr_Model fr, fr_CreatedAt = fr_CreatedAt fr,
           fr_Content = fr_Content out @ fr_Content fr, fr_Thinking = fr_Thinking out @ fr_Thinking fr,
           fr_ToolCalls = (if fr_ToolCalls fr = [] then fr_ToolCalls out else fr_ToolCalls fr),
           fr_Done = fr_Done fr, fr_PromptEvalCount = fr_PromptEvalCount fr,
           fr_EvalCount = fr_EvalCount fr\<rparr> ls)"

definition aggregateNDJSONFrames :: "string \<Rightarrow> ollama_frame" where
  "aggregateNDJSONFrames bytes = aggregate_frames zero_frame (ndjson_lines bytes)"

record chat_message =
  cg_Content :: string
  cg_Reasoning :: string
  cg_Tools :: "wire_tool_call list"
  cg_Finish :: string
  cg_Prompt :: int
  cg_Completion :: int
  cg_Total :: int

text \<open>The answers of the OpenAI surface: an error with its code, a stream, or a body.\<close>

datatype 'a openai_reply = JSONError int string | Streamed 'a | Buffered chat_message

definition chatReadCap :: nat where "chatReadCap = 8388608"

definition collectChatResponse :: "upstream_body \<Rightarrow> 'a openai_reply" where
  "collectChatResponse body =
     (case read_limited chatReadCap \<lparr>hb_data = up_data body, hb_fails = up_err body \<noteq> None\<rparr> of
        None \<Rightarrow> JSONError 502 ''adapter_5xx''
      | Some bytes \<Rightarrow>
          let fr = (case decode_frame bytes of Some fr \<Rightarrow> fr | None \<Rightarrow> aggregateNDJSONFrames bytes)
          in Buffered \<lparr>cg_Content = fr_Content fr, cg_Reasoning = fr_Thinking fr,
               cg_Tools = openAIWireToolCalls (fr_ToolCalls fr),
               cg_Finish = chatFinishReason (fr_ToolCalls fr), cg_Prompt = fr_PromptEvalCount fr,
               cg_Completion = fr_EvalCount fr,
               cg_Total = wrap64 (fr_PromptEvalCount fr + fr_EvalCount fr)\<rparr>)"

section \<open>The chat handler\<close>

definition requestCap :: nat where "requestCap = 1048576"

text \<open>The decoded body, or the error; a body that is \<open>null\<close> is an empty map.\<close>

definition read_openai :: "ollama_env \<Rightarrow> http_body \<Rightarrow> (int \<times> string) + json" where
  "read_openai env b =
     (case read_limited requestCap b of
        None \<Rightarrow> Inl (400, ''bad_request'')
      | Some body \<Rightarrow>
          (case unmarshal_any (oe_fl env) body of
             Some (JObj fs) \<Rightarrow> Inr (JObj fs)
           | Some JNull \<Rightarrow> Inr (JObj [])
           | _ \<Rightarrow> Inl (400, ''bad_request'')))"

definition chat_post ::
  "ollama_env \<Rightarrow> (string \<times> json) list \<Rightarrow> post_error + (int \<times> upstream_body)" where
  "chat_post env body =
     (case PostJSON env ''/api/chat'' (JObj body) of
        Inr r \<Rightarrow> Inr r
      | Inl err \<Rightarrow>
          (case downgradeThinkLevel err body of
             None \<Rightarrow> Inl err
           | Some retry \<Rightarrow> PostJSON env ''/api/chat'' (JObj retry)))"

definition handleChat :: "ollama_env \<Rightarrow> ollama_cfg \<Rightarrow> http_body \<Rightarrow> chat_chunk list openai_reply" where
  "handleChat env cfg b =
     (case read_openai env b of
        Inl (st, code) \<Rightarrow> JSONError st code
      | Inr openai \<Rightarrow>
          if \<not> marshals cfg then JSONError 500 ''internal_error''
          else case chat_post env (translateChatRequest (oe_fl env) openai cfg) of
                 Inl err \<Rightarrow> JSONError 502 ''adapter_unreachable''
               | Inr (st, body) \<Rightarrow>
                   if stream_flag openai then Streamed (streamChatResponse body)
                   else collectChatResponse body)"

section \<open>Completions (translate_completion.go)\<close>

record generate_frame =
  gf_Response :: string
  gf_Done :: bool
  gf_PromptEvalCount :: int
  gf_EvalCount :: int

definition zero_generate :: generate_frame where
  "zero_generate = \<lparr>gf_Response = [], gf_Done = False, gf_PromptEvalCount = 0, gf_EvalCount = 0\<rparr>"

definition decode_generate :: "string \<Rightarrow> generate_frame option" where
  "decode_generate = unmarshal zero_generate (store_struct
     [(''response'', on gf_Response (\<lambda>v f. f\<lparr>gf_Response := v\<rparr>) store_string),
      (''done'', on gf_Done (\<lambda>v f. f\<lparr>gf_Done := v\<rparr>) store_bool),
      (''prompt_eval_count'', on gf_PromptEvalCount (\<lambda>v f. f\<lparr>gf_PromptEvalCount := v\<rparr>) store_int),
      (''eval_count'', on gf_EvalCount (\<lambda>v f. f\<lparr>gf_EvalCount := v\<rparr>) store_int)])"

definition translateCompletionRequest :: "json \<Rightarrow> ollama_cfg \<Rightarrow> (string \<times> json) list" where
  "translateCompletionRequest openai cfg =
     with_options (applyInferenceInjection cfg
       ([(''model'', JStr (UpstreamModel cfg)), (''stream'', JBool (stream_flag openai))] @
        opt_member ''prompt'' (map_option JStr (member_str openai ''prompt'')))
       (sampling_options openai))"

text \<open>A completion chunk is its text and its finish reason.\<close>

fun completion_lines :: "string list \<Rightarrow> (string \<times> string) list" where
  "completion_lines [] = []"
| "completion_lines (line # ls) =
     (if line = [] then completion_lines ls
      else case decode_generate line of
             None \<Rightarrow> completion_lines ls
           | Some fr \<Rightarrow> if gf_Done fr then [([], ''stop'')] else (gf_Response fr, []) # completion_lines ls)"

definition streamCompletionResponse :: "upstream_body \<Rightarrow> (string \<times> string) list" where
  "streamCompletionResponse body = completion_lines (fst (scan_lines body))"

fun last_generate :: "generate_frame \<Rightarrow> string list \<Rightarrow> generate_frame" where
  "last_generate out [] = out"
| "last_generate out (l # ls) =
     last_generate (case decode_generate l of None \<Rightarrow> out | Some fr \<Rightarrow> fr) ls"

definition lastGenerateFrame :: "string \<Rightarrow> generate_frame" where
  "lastGenerateFrame bytes = last_generate zero_generate (ndjson_lines bytes)"

definition collectCompletionResponse :: "upstream_body \<Rightarrow> 'a openai_reply" where
  "collectCompletionResponse body =
     (case read_limited chatReadCap \<lparr>hb_data = up_data body, hb_fails = up_err body \<noteq> None\<rparr> of
        None \<Rightarrow> JSONError 502 ''adapter_5xx''
      | Some bytes \<Rightarrow>
          let fr = (case decode_generate bytes of Some fr \<Rightarrow> fr | None \<Rightarrow> lastGenerateFrame bytes)
          in Buffered \<lparr>cg_Content = gf_Response fr, cg_Reasoning = [], cg_Tools = [], cg_Finish = ''stop'',
               cg_Prompt = gf_PromptEvalCount fr, cg_Completion = gf_EvalCount fr,
               cg_Total = wrap64 (gf_PromptEvalCount fr + gf_EvalCount fr)\<rparr>)"

definition handleCompletion ::
  "ollama_env \<Rightarrow> ollama_cfg \<Rightarrow> http_body \<Rightarrow> (string \<times> string) list openai_reply" where
  "handleCompletion env cfg b =
     (case read_openai env b of
        Inl (st, code) \<Rightarrow> JSONError st code
      | Inr openai \<Rightarrow>
          if \<not> marshals cfg then JSONError 500 ''internal_error''
          else case PostJSON env ''/api/generate'' (JObj (translateCompletionRequest openai cfg)) of
                 Inl err \<Rightarrow> JSONError 502 ''adapter_unreachable''
               | Inr (st, body) \<Rightarrow>
                   if stream_flag openai then Streamed (streamCompletionResponse body)
                   else collectCompletionResponse body)"

section \<open>Embeddings (translate_embed.go)\<close>

text \<open>The daemon's two endpoints, their bodies decoded: \<open>Inl\<close> is a failed call, \<open>None\<close> a body that does
  not decode. A vector is the list of its literals.\<close>

record embed_daemon =
  ed_embed :: "string list \<Rightarrow> post_error + string list list option"
  ed_embeddings :: "string \<Rightarrow> post_error + string list option"

definition normalizeEmbedInput :: "(json \<Rightarrow> string) \<Rightarrow> json option \<Rightarrow> string list" where
  "normalizeEmbedInput sprint v =
     (case v of
        Some (JStr x) \<Rightarrow> if trim_space x = [] then [] else [x]
      | Some (JArr xs) \<Rightarrow> map (\<lambda>e. case e of JStr s \<Rightarrow> s | _ \<Rightarrow> sprint e) xs
      | _ \<Rightarrow> [])"

fun legacy_embed :: "embed_daemon \<Rightarrow> string list \<Rightarrow> string list list option" where
  "legacy_embed d [] = Some []"
| "legacy_embed d (i # is) =
     (case ed_embeddings d i of
        Inr (Some e) \<Rightarrow> map_option (Cons e) (legacy_embed d is)
      | _ \<Rightarrow> None)"

definition embedTry :: "embed_daemon \<Rightarrow> string list \<Rightarrow> string list list option" where
  "embedTry d inputs =
     (case ed_embed d inputs of
        Inl err \<Rightarrow> legacy_embed d inputs
      | Inr None \<Rightarrow> None
      | Inr (Some es) \<Rightarrow> if length es = length inputs then Some es else legacy_embed d inputs)"

datatype embed_reply = EmbedError int string | EmbedData "(nat \<times> string list) list"

definition buildEmbedData :: "string list list \<Rightarrow> (nat \<times> string list) list" where
  "buildEmbedData es = enumerate 0 es"

definition handleEmbed ::
  "ollama_env \<Rightarrow> (json \<Rightarrow> string) \<Rightarrow> embed_daemon \<Rightarrow> http_body \<Rightarrow> embed_reply" where
  "handleEmbed env sprint d b =
     (case read_openai env b of
        Inl (st, code) \<Rightarrow> EmbedError st code
      | Inr openai \<Rightarrow>
          let inputs = normalizeEmbedInput sprint (member openai ''input'') in
          if inputs = [] then EmbedError 400 ''bad_request''
          else case embedTry d inputs of
                 None \<Rightarrow> EmbedError 502 ''adapter_unreachable''
               | Some es \<Rightarrow> EmbedData (buildEmbedData es))"

section \<open>The model field of native bodies (model_rewrite.go)\<close>

definition RewriteJSONModelField ::
  "(string \<Rightarrow> string option) \<Rightarrow> string \<Rightarrow> string \<Rightarrow> json option" where
  "RewriteJSONModelField fl body modelName =
     (let trimmed = dropWhile json_space body in
      if trimmed = [] \<or> hd trimmed \<noteq> CHR 0x7B then None
      else case unmarshal_any fl body of
             Some (JObj fs) \<Rightarrow> Some (JObj (obj_put ''model'' (JStr modelName) fs))
           | _ \<Rightarrow> None)"

section \<open>What a chat stream says\<close>

text \<open>The chunks a sequence of frames stands for, written from the frames: one chunk for each frame with
  a text, the role on the first chunk, and after a closing frame the gathered tool calls and the finish
  reason.\<close>

definition with_payload :: "ollama_frame \<Rightarrow> bool" where
  "with_payload fr \<longleftrightarrow> fr_Content fr \<noteq> [] \<or> fr_Thinking fr \<noteq> []"

definition payload_chunk :: "bool \<Rightarrow> ollama_frame \<Rightarrow> chat_chunk" where
  "payload_chunk r fr = \<lparr>ch_Role = r, ch_Content = fr_Content fr, ch_Reasoning = fr_Thinking fr,
     ch_Tools = [], ch_Finish = []\<rparr>"

definition payload_chunks :: "bool \<Rightarrow> ollama_frame list \<Rightarrow> chat_chunk list" where
  "payload_chunks r frs =
     (case filter with_payload frs of
        [] \<Rightarrow> []
      | fr # rest \<Rightarrow> payload_chunk (\<not> r) fr # map (payload_chunk False) rest)"

definition tools_chunk :: "bool \<Rightarrow> ollama_call list \<Rightarrow> chat_chunk" where
  "tools_chunk r cs = \<lparr>ch_Role = r, ch_Content = [], ch_Reasoning = [],
     ch_Tools = openAIWireToolCalls cs, ch_Finish = []\<rparr>"

definition finish_chunk :: "ollama_call list \<Rightarrow> chat_chunk" where
  "finish_chunk cs = \<lparr>ch_Role = False, ch_Content = [], ch_Reasoning = [], ch_Tools = [],
     ch_Finish = chatFinishReason cs\<rparr>"

definition closing_chunks :: "bool \<Rightarrow> ollama_call list \<Rightarrow> chat_chunk list" where
  "closing_chunks r cs = (if cs = [] then [] else [tools_chunk (\<not> r) cs]) @ [finish_chunk cs]"

definition chat_chunks :: "ollama_frame list \<Rightarrow> chat_chunk list" where
  "chat_chunks frs =
     payload_chunks False frs @
     (if closing frs = None then [] else closing_chunks (list_ex with_payload frs) (frame_tools frs))"

definition chat_step :: "ollama_frame \<Rightarrow> chat_stream \<Rightarrow> chat_stream" where
  "chat_step fr st =
     (let st = emit_content fr (st\<lparr>cs_tools := cs_tools st @ fr_ToolCalls fr\<rparr>)
      in if fr_Done fr then emit_finish st else st)"

lemma chat_lines_fold: "chat_lines ls st = fold chat_step (frames_of ls) st"
  by (induction ls st rule: chat_lines.induct)
    (auto simp: frames_of_def List.map_filter_def chat_step_def Let_def split: option.splits)

lemma chat_step_out:
  "cs_out (chat_step fr st) =
     cs_out st @ (if with_payload fr then [payload_chunk (\<not> cs_role st) fr] else []) @
     (if fr_Done fr then closing_chunks (cs_role st \<or> with_payload fr) (cs_tools st @ fr_ToolCalls fr) else [])"
  "cs_role (chat_step fr st) = (cs_role st \<or> with_payload fr)"
  "cs_tools (chat_step fr st) = cs_tools st @ fr_ToolCalls fr"
  by (auto simp: chat_step_def emit_content_def emit_finish_def with_payload_def payload_chunk_def
      closing_chunks_def tools_chunk_def finish_chunk_def Let_def)

lemma payload_chunks_Cons:
  "payload_chunks r (fr # frs) =
     (if with_payload fr then [payload_chunk (\<not> r) fr] else []) @ payload_chunks (r \<or> with_payload fr) frs"
  by (auto simp: payload_chunks_def split: list.splits)

lemma fold_chat_step:
  "cs_out (fold chat_step (upto_done frs) st) =
     cs_out st @ payload_chunks (cs_role st) (upto_done frs) @
     (if closing (upto_done frs) = None then []
      else closing_chunks (cs_role st \<or> list_ex with_payload (upto_done frs))
             (cs_tools st @ frame_tools (upto_done frs)))"
proof (induction frs arbitrary: st)
  case Nil
  then show ?case by (simp add: payload_chunks_def closing_def)
next
  case (Cons fr frs)
  show ?case
  proof (cases "fr_Done fr")
    case True
    then show ?thesis
      by (auto simp: closing_def payload_chunks_def frame_tools_def chat_step_out)
  next
    case False
    then have e: "fold chat_step (upto_done (fr # frs)) st = fold chat_step (upto_done frs) (chat_step fr st)"
      by simp
    show ?thesis
      unfolding e Cons.IH using False
      by (simp add: chat_step_out payload_chunks_Cons closing_def frame_tools_def disj_assoc)
  qed
qed

lemma streamChatResponse_chunks:
  "streamChatResponse body = chat_chunks (frames_of (fst (scan_lines body)))"
  by (simp add: streamChatResponse_def chat_lines_fold frames_of_def fold_chat_step chat_start_def
      chat_chunks_def)

text \<open>What a client reads from the chunks: both texts, and the chunks that name the role or a reason.\<close>

definition chunk_content :: "chat_chunk list \<Rightarrow> string" where
  "chunk_content cs = concat (map ch_Content cs)"

definition chunk_reasoning :: "chat_chunk list \<Rightarrow> string" where
  "chunk_reasoning cs = concat (map ch_Reasoning cs)"

lemma payload_texts:
  "chunk_content (payload_chunks r frs) = concat (map fr_Content frs)"
  "chunk_reasoning (payload_chunks r frs) = concat (map fr_Thinking frs)"
  by (induction frs arbitrary: r)
    (auto simp: payload_chunks_Cons chunk_content_def chunk_reasoning_def payload_chunk_def with_payload_def,
     auto simp: payload_chunks_def)

lemma closing_texts:
  "chunk_content (closing_chunks r cs) = []" "chunk_reasoning (closing_chunks r cs) = []"
  by (simp_all add: chunk_content_def chunk_reasoning_def closing_chunks_def tools_chunk_def finish_chunk_def)

text \<open>The order a client of the OpenAI stream relies on: the role on the first chunk and nowhere else, where
  there is anything to carry; a reason once and last, alone in its chunk.\<close>

definition carries_answer :: "chat_chunk \<Rightarrow> bool" where
  "carries_answer c \<longleftrightarrow> ch_Content c \<noteq> [] \<or> ch_Reasoning c \<noteq> [] \<or> ch_Tools c \<noteq> []"

fun role_first :: "chat_chunk list \<Rightarrow> bool" where
  "role_first [] \<longleftrightarrow> True"
| "role_first (c # cs) \<longleftrightarrow>
     (ch_Role c \<longleftrightarrow> list_ex carries_answer (c # cs)) \<and> list_all (\<lambda>d. \<not> ch_Role d) cs"

definition bare_finish :: "chat_chunk \<Rightarrow> bool" where
  "bare_finish c \<longleftrightarrow> ch_Finish c \<noteq> [] \<and> ch_Content c = [] \<and> ch_Reasoning c = [] \<and> ch_Tools c = []"

definition finish_last :: "chat_chunk list \<Rightarrow> bool" where
  "finish_last cs \<longleftrightarrow> cs \<noteq> [] \<and> bare_finish (last cs) \<and> list_all (\<lambda>c. ch_Finish c = []) (butlast cs)"

lemma with_payload_some: "list_ex with_payload frs \<longleftrightarrow> filter with_payload frs \<noteq> []"
  by (induction frs) auto

lemma payload_chunks_shape:
  "list_all (\<lambda>c. ch_Finish c = [] \<and> ch_Tools c = []) (payload_chunks r frs)"
  "list_all (\<lambda>c. \<not> ch_Role c) (payload_chunks True frs)"
  "payload_chunks r frs = [] \<longleftrightarrow> \<not> list_ex with_payload frs"
  by (auto simp: payload_chunks_def payload_chunk_def list_all_iff with_payload_some split: list.splits)

lemma chat_chunks_shape:
  "role_first (chat_chunks frs)"
  "closing frs \<noteq> None \<Longrightarrow> finish_last (chat_chunks frs)"
  "closing frs = None \<Longrightarrow> list_all (\<lambda>c. ch_Finish c = []) (chat_chunks frs)"
proof -
  show "role_first (chat_chunks frs)"
  proof (cases "filter with_payload frs")
    case Nil
    then have "\<not> list_ex with_payload frs" by (simp add: with_payload_some)
    with Nil show ?thesis
      by (simp add: chat_chunks_def payload_chunks_def closing_chunks_def tools_chunk_def finish_chunk_def
          carries_answer_def openAIWireToolCalls_def)
  next
    case (Cons f fs)
    then have "with_payload f" "list_ex with_payload frs" by (auto simp: with_payload_some filter_eq_Cons_iff)
    with Cons show ?thesis
      by (auto simp: chat_chunks_def payload_chunks_def payload_chunk_def closing_chunks_def tools_chunk_def
          finish_chunk_def carries_answer_def with_payload_def list_all_iff)
  qed
  show "finish_last (chat_chunks frs)" if "closing frs \<noteq> None"
    using that payload_chunks_shape(1) [of False frs]
    by (auto simp: chat_chunks_def finish_last_def closing_chunks_def bare_finish_def finish_chunk_def
        tools_chunk_def chatFinishReason_def butlast_append list_all_iff)
  show "list_all (\<lambda>c. ch_Finish c = []) (chat_chunks frs)" if "closing frs = None"
    using that payload_chunks_shape(1) [of False frs] by (auto simp: chat_chunks_def list_all_iff)
qed

text \<open>C12: the chunks of a chat stream carry exactly the text and the reasoning of the frames up to the
  closing one; the first chunk, and only it, names the role, unless the answer has neither text nor
  reasoning nor a tool call, and then no chunk does; a closing frame gives one finish chunk, last and
  empty, and the tool calls of all frames in one chunk; without a closing frame there is no finish and
  no tool call.\<close>
theorem chat_stream_delivers:
  "let frs = frames_of (fst (scan_lines body)); cs = streamChatResponse body in
     chunk_content cs = concat (map fr_Content frs) \<and> chunk_reasoning cs = concat (map fr_Thinking frs) \<and>
     role_first cs \<and>
     (if closing frs = None then concat (map ch_Tools cs) = [] \<and> list_all (\<lambda>c. ch_Finish c = []) cs
      else concat (map ch_Tools cs) = openAIWireToolCalls (frame_tools frs) \<and> finish_last cs \<and>
           ch_Finish (last cs) = chatFinishReason (frame_tools frs))"
proof -
  define frs where "frs = frames_of (fst (scan_lines body))"
  have t: "concat (map ch_Tools (payload_chunks False frs)) = []"
    using payload_chunks_shape(1) [of False frs] by (auto simp: list_all_iff)
  have "chunk_content (chat_chunks frs) = concat (map fr_Content frs)"
    "chunk_reasoning (chat_chunks frs) = concat (map fr_Thinking frs)"
    using payload_texts [of False frs] closing_texts
    by (simp_all add: chat_chunks_def chunk_content_def chunk_reasoning_def)
  moreover have "concat (map ch_Tools (chat_chunks frs)) =
      (if closing frs = None then [] else openAIWireToolCalls (frame_tools frs))"
    using t by (simp add: chat_chunks_def closing_chunks_def tools_chunk_def finish_chunk_def openAIWireToolCalls_def)
  moreover have "closing frs \<noteq> None \<Longrightarrow> ch_Finish (last (chat_chunks frs)) = chatFinishReason (frame_tools frs)"
    by (cases "closing frs") (simp_all add: chat_chunks_def closing_chunks_def finish_chunk_def)
  ultimately show ?thesis
    using chat_chunks_shape [of frs]
    by (cases "closing frs") (simp_all add: streamChatResponse_chunks frs_def [symmetric] Let_def)
qed

text \<open>An answer without text, reasoning and tool calls is one chunk, and it does not name the role.\<close>
theorem empty_answer_has_no_role:
  assumes "frames_of (fst (scan_lines body)) = [fr]" "fr_Done fr" "fr_Content fr = []" "fr_Thinking fr = []"
    "fr_ToolCalls fr = []"
  shows "streamChatResponse body =
    [\<lparr>ch_Role = False, ch_Content = [], ch_Reasoning = [], ch_Tools = [], ch_Finish = chatFinishReason []\<rparr>]"
  using assms
  by (simp add: streamChatResponse_chunks chat_chunks_def payload_chunks_def with_payload_def closing_def
      closing_chunks_def finish_chunk_def frame_tools_def)

theorem empty_answer_has_no_role_witness:
  "map ch_Role (streamChatResponse \<lparr>up_data = ''{\"done\":true}'' @ [CHR 0x0A], up_err = None, up_early = None\<rparr>) = [False]"
proof -
  let ?b = "\<lparr>up_data = ''{\"done\":true}'' @ [CHR 0x0A], up_err = None, up_early = None\<rparr>"
  have "frames_of (fst (scan_lines ?b)) = [zero_frame\<lparr>fr_Done := True\<rparr>]" by code_simp
  from empty_answer_has_no_role [OF this] show ?thesis by (simp add: zero_frame_def)
qed

section \<open>The thinking switch\<close>

text \<open>What a request asks of the thinking mode, from the most specific setting to the least: the first
  that is set decides.\<close>

definition think_settings :: "json \<Rightarrow> bool option list" where
  "think_settings openai =
     [member_bool openai ''think'', enable_thinking (Some openai),
      enable_thinking (member_obj openai ''extra_body''),
      (case member_str openai ''reasoning_effort'' of
         None \<Rightarrow> None
       | Some eff \<Rightarrow> if Normalize eff = [] then None else Some (\<not> IsOff (Normalize eff)))]"

definition first_set :: "'a option list \<Rightarrow> 'a option" where
  "first_set vs = (case filter (\<lambda>v. v \<noteq> None) vs of [] \<Rightarrow> None | v # _ \<Rightarrow> v)"

text \<open>Reading the \<open>think\<close> member as the daemon does: a level is on.\<close>

fun think_on :: "json option \<Rightarrow> bool option" where
  "think_on (Some (JBool b)) = Some b"
| "think_on (Some (JStr level)) = Some True"
| "think_on _ = None"

lemma resolveThinkPreference_first: "think_on (resolveThinkPreference openai) = first_set (think_settings openai)"
  by (auto simp: resolveThinkPreference_def effort_preference_def think_settings_def first_set_def Let_def
      split: option.splits)

lemma no_think_member:
  "map_of (opt_member k v @ xs) ''think'' = (if k = ''think'' \<and> v \<noteq> None then v else map_of xs ''think'')"
  by (cases v) (auto simp: opt_member_def)

lemma translated_think:
  "map_of (translateChatRequest fl openai cfg) ''think'' = resolveThinkPreference openai"
  by (cases "resolveThinkPreference openai")
    (auto simp: translateChatRequest_def with_options_def applyInferenceInjection_def copy_members_def
      map_add_def opt_member_def split: option.splits)

text \<open>The bodies a request posts to the daemon's chat endpoint, in order.\<close>

definition chat_bodies :: "ollama_env \<Rightarrow> (string \<times> json) list \<Rightarrow> (string \<times> json) list list" where
  "chat_bodies env body =
     body # (case PostJSON env ''/api/chat'' (JObj body) of
               Inl err \<Rightarrow> (case downgradeThinkLevel err body of Some r \<Rightarrow> [r] | None \<Rightarrow> [])
             | Inr _ \<Rightarrow> [])"

lemma chat_post_bodies: "chat_post env body = PostJSON env ''/api/chat'' (JObj (last (chat_bodies env body)))"
  by (auto simp: chat_post_def chat_bodies_def split: sum.splits option.splits)

text \<open>C27: every body posted for a chat request says of thinking what the most specific setting of the
  request says, the retry after a refusal included; the retry differs in that member alone, it happens at
  most once and only for a level refused with 400.\<close>
theorem thinking_is_decided_by_the_request:
  "let body = translateChatRequest fl openai cfg; posts = chat_bodies env body in
     list_all (\<lambda>b. think_on (map_of b ''think'') = first_set (think_settings openai) \<and>
       (map_of b)(''think'' := None) = (map_of body)(''think'' := None)) posts \<and>
     chat_post env body = PostJSON env ''/api/chat'' (JObj (last posts)) \<and>
     (length posts = 1 \<or> length posts = 2 \<and> PostJSON env ''/api/chat'' (JObj body) = Inl (StatusError 400) \<and>
        list_ex (\<lambda>l. map_of body ''think'' = Some (JStr l)) thinkLevels)"
proof -
  define body where "body = translateChatRequest fl openai cfg"
  have th: "map_of body ''think'' = resolveThinkPreference openai" by (simp add: body_def translated_think)
  have on: "think_on (map_of body ''think'') = first_set (think_settings openai)"
    unfolding th by (rule resolveThinkPreference_first)
  have level: "list_ex (\<lambda>l. map_of body ''think'' = Some (JStr l)) thinkLevels"
    if "map_of body ''think'' = Some (JStr l)" for l
    using that unfolding th
    by (auto simp: resolveThinkPreference_def effort_preference_def isThinkLevel_def list_ex_iff Let_def
        split: option.splits if_splits)
  have "chat_bodies env body = [body] \<or>
      (\<exists>l. PostJSON env ''/api/chat'' (JObj body) = Inl (StatusError 400) \<and>
         map_of body ''think'' = Some (JStr l) \<and> chat_bodies env body = [body, obj_put ''think'' (JBool True) body])"
    unfolding chat_bodies_def downgradeThinkLevel_def
    by (auto split: sum.splits option.splits json.splits)
  then show ?thesis
    unfolding body_def [symmetric] Let_def chat_post_bodies
    using on level by (auto simp: fun_eq_iff)
qed

section \<open>Native bodies and embeddings\<close>

text \<open>rewriting the model of a native body keeps it an object with every member once, sets the
  model, and leaves every other member as decoded.\<close>
theorem rewrite_keeps_other_members:
  assumes "RewriteJSONModelField fl body modelName = Some v"
  shows "\<exists>fs. unmarshal_any fl body = Some (JObj fs) \<and> member v ''model'' = Some (JStr modelName) \<and>
           list_all (\<lambda>k. k = ''model'' \<or> member v k = map_of fs k) (map fst fs) \<and>
           (\<exists>gs. v = JObj gs \<and> distinct (map fst gs) \<and> set (map fst gs) = insert ''model'' (set (map fst fs)))"
proof -
  obtain fs where fs: "unmarshal_any fl body = Some (JObj fs)" and v: "v = JObj (obj_put ''model'' (JStr modelName) fs)"
    using assms unfolding RewriteJSONModelField_def Let_def
    by (simp split: if_split_asm option.split_asm json.split_asm)
  have d: "distinct (map fst fs)"
    using fs by (auto simp: unmarshal_any_def dest: any_value_distinct split: option.splits)
  show ?thesis
    using fs d by (auto simp: v member_def obj_put_keys obj_put_distinct list_all_iff simp del: set_map)
qed

theorem rewrite_keeps_other_members_witness:
  "\<exists>v. RewriteJSONModelField Some ''{\"a\":1,\"model\":\"x\"}'' ''m'' = Some v \<and> member v ''a'' = Some (JNum ''1'')"
proof -
  have r: "RewriteJSONModelField Some ''{\"a\":1,\"model\":\"x\"}'' ''m'' =
      Some (JObj [(''a'', JNum ''1''), (''model'', JStr ''m'')])"
    and u: "unmarshal_any Some ''{\"a\":1,\"model\":\"x\"}'' = Some (JObj [(''a'', JNum ''1''), (''model'', JStr ''x'')])"
    by code_simp+
  show ?thesis
    using rewrite_keeps_other_members [OF r] r u by auto
qed

text \<open>the vectors of an embeddings answer are numbered from 0 and are one for each input of the
  request, in order: the answer to the whole batch, or the answers of the older endpoint to each input.\<close>
theorem embeddings_line_up:
  assumes "handleEmbed env sprint d b = EmbedData xs" "read_openai env b = Inr openai"
    and "inputs = normalizeEmbedInput sprint (member openai ''input'')"
  shows "inputs \<noteq> [] \<and> map fst xs = [0..<length inputs] \<and>
           (ed_embed d inputs = Inr (Some (map snd xs)) \<or>
            map (ed_embeddings d) inputs = map (Inr \<circ> Some) (map snd xs))"
proof -
  obtain es where ne: "inputs \<noteq> []" and es: "embedTry d inputs = Some es" and xs: "xs = buildEmbedData es"
    using assms unfolding handleEmbed_def
    by (auto simp: Let_def split: if_splits option.splits)
  have legacy: "map (ed_embeddings d) is = map (Inr \<circ> Some) es" if "legacy_embed d is = Some es" for "is" es
    using that by (induction d "is" arbitrary: es rule: legacy_embed.induct) (auto split: sum.splits option.splits)
  have "length es = length inputs \<and>
      (ed_embed d inputs = Inr (Some es) \<or> map (ed_embeddings d) inputs = map (Inr \<circ> Some) es)"
    using es legacy [of inputs es] unfolding embedTry_def
    by (auto split: sum.splits option.splits if_splits dest: map_eq_imp_length_eq)
  then show ?thesis
    using ne by (auto simp: xs buildEmbedData_def enumerate_eq_zip)
qed

definition example_embed_env :: ollama_env where
  "example_embed_env = \<lparr>oe_cap = 10, oe_now = 0, oe_fl = Some, oe_daemon = \<lambda>path body. Unreachable\<rparr>"

definition example_embed_daemon :: embed_daemon where
  "example_embed_daemon = \<lparr>ed_embed = (\<lambda>_. Inl (StatusError 404)), ed_embeddings = (\<lambda>i. Inr (Some [i]))\<rparr>"

theorem embeddings_line_up_witness:
  "handleEmbed example_embed_env json_encode example_embed_daemon \<lparr>hb_data = ''{\"input\":[\"a\",\"b\"]}'', hb_fails = False\<rparr> =
     EmbedData [(0, [''a'']), (1, [''b''])] \<and> [0, 1] = [0..<length [''a'', ''b'']]"
proof -
  let ?b = "\<lparr>hb_data = ''{\"input\":[\"a\",\"b\"]}'', hb_fails = False\<rparr>"
  have u: "unmarshal_any Some ''{\"input\":[\"a\",\"b\"]}'' = Some (JObj [(''input'', JArr [JStr ''a'', JStr ''b''])])"
    by code_simp
  have r: "read_openai example_embed_env ?b = Inr (JObj [(''input'', JArr [JStr ''a'', JStr ''b''])])"
    by (simp add: read_openai_def read_limited_def requestCap_def example_embed_env_def u)
  have i: "[''a'', ''b''] = normalizeEmbedInput json_encode (member (JObj [(''input'', JArr [JStr ''a'', JStr ''b''])]) ''input'')"
    by (simp add: normalizeEmbedInput_def member_def)
  have h: "handleEmbed example_embed_env json_encode example_embed_daemon ?b =
      EmbedData [(0, [''a'']), (1, [''b''])]"
    by (simp add: handleEmbed_def r i [symmetric] Let_def embedTry_def example_embed_daemon_def buildEmbedData_def)
  show ?thesis using embeddings_line_up [OF h r i] h by simp
qed

end
