(* ===== verification/ProxyForward.thy ===== *)
theory ProxyForward
  imports ModelCard OllamaChat
begin

text \<open>
  What the reverse proxy forwards: \<open>internal/adapter/proxy/rewrite.go\<close>, \<open>paramcheck.go\<close> and the parts of
  \<open>adapter.go\<close> around \<open>httputil.ReverseProxy\<close>. A request's body is the bytes the client sends and
  whether reading fails behind them; a header is a canonical name with its value. Of the reverse proxy
  itself: it drops the body of a request of length 0 before it asks the director. Answers are the status
  and the code of the error envelope; logs and the panic counter are left out.
\<close>

section \<open>Data\<close>

record http_request =
  hr_Path :: string
  hr_Body :: "(string \<times> bool) option"
  hr_ContentLength :: int
  hr_Header :: "(string \<times> string) list"
  hr_Chunked :: bool
  hr_Scheme :: string
  hr_Host :: string

datatype refusal_code = BodyTooLarge nat | BodyReadFailed | InvalidParameter string string "string list"

definition maxRewriteBody :: nat where "maxRewriteBody = 2 ^ 20"
definition maxVisionRewriteBody :: nat where "maxVisionRewriteBody = 16 * 2 ^ 20"

definition pathChatCompletions :: string where "pathChatCompletions = ''/v1/chat/completions''"
definition pathCompletions :: string where "pathCompletions = ''/v1/completions''"
definition pathEmbeddings :: string where "pathEmbeddings = ''/v1/embeddings''"
definition pathRerank :: string where "pathRerank = ''/v1/rerank''"
definition pathResponses :: string where "pathResponses = ''/v1/responses''"
definition pathAPIChatCompletions :: string where "pathAPIChatCompletions = ''/api/chat/completions''"

definition rewritePaths :: "string list" where
  "rewritePaths = [pathChatCompletions, pathCompletions, pathEmbeddings, pathRerank, pathResponses,
     pathAPIChatCompletions]"

definition rewriteBodyCap :: "string \<Rightarrow> engine_kind \<Rightarrow> nat" where
  "rewriteBodyCap path kind =
     (if path \<in> {pathChatCompletions, pathAPIChatCompletions, pathResponses} then maxVisionRewriteBody
      else if path = pathEmbeddings then
        (if kind = EngineClipEmbed \<or> kind = EngineMultimodalEmbed then maxVisionRewriteBody else maxRewriteBody)
      else maxRewriteBody)"

definition header_set :: "string \<Rightarrow> string \<Rightarrow> (string \<times> string) list \<Rightarrow> (string \<times> string) list" where
  "header_set k v h = filter (\<lambda>(j, w). j \<noteq> k) h @ [(k, v)]"

definition header_del :: "string \<Rightarrow> (string \<times> string) list \<Rightarrow> (string \<times> string) list" where
  "header_del k h = filter (\<lambda>(j, w). j \<noteq> k) h"

text \<open>\<open>io.ReadAll(io.LimitReader(body, n))\<close>: a failure behind the limit is not met.\<close>

definition read_limited :: "nat \<Rightarrow> string \<times> bool \<Rightarrow> string option" where
  "read_limited n b =
     (case b of (data, fails) \<Rightarrow>
        if n \<le> length data then Some (take n data) else if fails then None else Some data)"

definition with_body :: "string \<Rightarrow> http_request \<Rightarrow> http_request" where
  "with_body data r = r\<lparr>hr_Body := Some (data, False), hr_ContentLength := int (length data)\<rparr>"

section \<open>Rewriting the model (rewrite.go)\<close>

text \<open>\<open>fl\<close> reads a literal as a float64 and gives the literal \<open>Marshal\<close> writes for it.\<close>

definition rewriteJSONModel :: "(string \<Rightarrow> string option) \<Rightarrow> string \<Rightarrow> string \<Rightarrow> string option" where
  "rewriteJSONModel fl body modelName =
     (let trimmed = dropWhile json_space body in
      if trimmed = [] \<or> hd trimmed \<noteq> CHR 0x7B then None
      else case unmarshal_any fl body of
             Some (JObj obj) \<Rightarrow> Some (json_encode (sorted_any (JObj (obj_put ''model'' (JStr modelName) obj))))
           | _ \<Rightarrow> None)"

definition rewriteModelInBody ::
  "(string \<Rightarrow> string option) \<Rightarrow> string \<Rightarrow> engine_kind \<Rightarrow> http_request \<Rightarrow> http_request" where
  "rewriteModelInBody fl modelName kind r =
     (if hr_Path r \<notin> set rewritePaths then r
      else case hr_Body r of
             None \<Rightarrow> r
           | Some b \<Rightarrow>
               (let cap = rewriteBodyCap (hr_Path r) kind in
                case read_limited (Suc cap) b of
                  None \<Rightarrow> r\<lparr>hr_Body := Some ([], False), hr_ContentLength := 0\<rparr>
                | Some body \<Rightarrow>
                    if length body > cap then r\<lparr>hr_Body := Some ([], False), hr_ContentLength := 0\<rparr>
                    else (case rewriteJSONModel fl body modelName of
                            None \<Rightarrow> with_body body r
                          | Some out \<Rightarrow>
                              (with_body out r)\<lparr>hr_Header :=
                                 header_set ''Content-Length'' (itoa (int (length out))) (hr_Header r)\<rparr>)))"

text \<open>Admission: a refusal, or the request with the body read, if it was read.\<close>

definition rewriteAdmission ::
  "engine_kind \<Rightarrow> http_request \<Rightarrow> refusal_code + http_request \<times> string option" where
  "rewriteAdmission kind r =
     (if hr_Path r \<notin> set rewritePaths then Inr (r, None)
      else let cap = rewriteBodyCap (hr_Path r) kind in
        if hr_ContentLength r > int cap then Inl (BodyTooLarge cap)
        else case hr_Body r of
               None \<Rightarrow> Inr (r, None)
             | Some b \<Rightarrow>
                 (case read_limited (Suc cap) b of
                    None \<Rightarrow> Inl BodyReadFailed
                  | Some buf \<Rightarrow>
                      if length buf > cap then Inl (BodyTooLarge cap)
                      else Inr ((with_body buf r)\<lparr>hr_Chunked := False, hr_Header :=
                             header_del ''Transfer-Encoding''
                               (header_set ''Content-Length'' (itoa (int (length buf))) (hr_Header r))\<rparr>, Some buf)))"

definition stripAuthorization :: "(string \<times> string) list \<Rightarrow> (string \<times> string) list" where
  "stripAuthorization h = header_del ''Proxy-Authorization'' (header_del ''Authorization'' h)"

section \<open>Parameters with a list of values (paramcheck.go)\<close>

definition buildEnumRules :: "model_spec \<Rightarrow> (string \<times> string list) list" where
  "buildEnumRules spec =
     foldl (\<lambda>out r.
        if pr_Type r \<noteq> ParamRuleTypeString \<or> pr_Options r = [] \<or> pr_Name r = [] then out
        else obj_put (pr_Name r) (pr_Options r) out) [] (sp_ParameterRules spec)"

text \<open>The members of a body as raw values; a later member of a name replaces an earlier one.\<close>

definition raw_members :: "string \<Rightarrow> (string \<times> json) list option" where
  "raw_members body =
     (case json_parse body of
        Some (JObj fs) \<Rightarrow> Some (foldl (\<lambda>m (k, v). obj_put k v m) [] fs)
      | Some JNull \<Rightarrow> Some []
      | _ \<Rightarrow> None)"

text \<open>Unmarshalling a value into a new string.\<close>

definition string_value :: "json \<Rightarrow> string option" where
  "string_value v = (case v of JStr s \<Rightarrow> Some s | JNull \<Rightarrow> Some [] | _ \<Rightarrow> None)"

fun first_invalid ::
  "(string \<times> string list) list \<Rightarrow> (string \<times> json) list \<Rightarrow> string list \<Rightarrow> (string \<times> string \<times> string list) option" where
  "first_invalid rules mems [] = None"
| "first_invalid rules mems (n # ns) =
     (case (map_of rules n, map_of mems n) of
        (Some options, Some v) \<Rightarrow>
          (case string_value v of
             Some s \<Rightarrow> if s \<in> set options then first_invalid rules mems ns else Some (n, s, options)
           | None \<Rightarrow> first_invalid rules mems ns)
      | _ \<Rightarrow> first_invalid rules mems ns)"

definition checkEnumParams ::
  "(string \<times> string list) list \<Rightarrow> string \<Rightarrow> (string \<times> string \<times> string list) option" where
  "checkEnumParams rules body =
     (if rules = [] \<or> body = [] then None
      else case raw_members body of
             None \<Rightarrow> None
           | Some mems \<Rightarrow>
               first_invalid rules mems (sort (filter (\<lambda>n. map_of rules n \<noteq> None) (map fst mems))))"

section \<open>Forwarding (adapter.go)\<close>

text \<open>\<open>pa_Base\<close>: the path of the engine's URL.\<close>

record proxy_adapter =
  pa_Kind :: engine_kind
  pa_Model :: string
  pa_Scheme :: string
  pa_Host :: string
  pa_Base :: string
  pa_Enums :: "(string \<times> string list) list"

definition trim_suffix_slash :: "string \<Rightarrow> string" where
  "trim_suffix_slash s = (if s \<noteq> [] \<and> last s = CHR ''/'' then butlast s else s)"

definition director :: "(string \<Rightarrow> string option) \<Rightarrow> proxy_adapter \<Rightarrow> http_request \<Rightarrow> http_request" where
  "director fl a r =
     (let r = r\<lparr>hr_Scheme := pa_Scheme a, hr_Host := pa_Host a\<rparr>;
          r = (if pa_Base a \<noteq> [] \<and> pa_Base a \<noteq> ''/''
               then r\<lparr>hr_Path := trim_suffix_slash (pa_Base a) @ hr_Path r\<rparr> else r);
          r = r\<lparr>hr_Header := stripAuthorization (hr_Header r)\<rparr>
      in rewriteModelInBody fl (pa_Model a) (pa_Kind a) r)"

definition reverse_proxy :: "(string \<Rightarrow> string option) \<Rightarrow> proxy_adapter \<Rightarrow> http_request \<Rightarrow> http_request" where
  "reverse_proxy fl a r = director fl a (if hr_ContentLength r = 0 then r\<lparr>hr_Body := None\<rparr> else r)"

text \<open>The answer without the engine, or the request the engine gets.\<close>

definition OpenAIHandler ::
  "(string \<Rightarrow> string option) \<Rightarrow> proxy_adapter \<Rightarrow> http_request \<Rightarrow> refusal_code + http_request" where
  "OpenAIHandler fl a r =
     (case rewriteAdmission (pa_Kind a) r of
        Inl e \<Rightarrow> Inl e
      | Inr (r', body) \<Rightarrow>
          (case checkEnumParams (pa_Enums a) (case body of None \<Rightarrow> [] | Some b \<Rightarrow> b) of
             Some (n, v, options) \<Rightarrow> Inl (InvalidParameter n v options)
           | None \<Rightarrow> Inr (reverse_proxy fl a r')))"

definition refusal_status :: "refusal_code \<Rightarrow> nat \<times> string" where
  "refusal_status e =
     (case e of
        BodyTooLarge cap \<Rightarrow> (413, ''rewrite_body_too_large'')
      | BodyReadFailed \<Rightarrow> (400, ''request_body_read_failed'')
      | InvalidParameter n v options \<Rightarrow> (400, ''invalid_parameter_value''))"

text \<open>An engine that cannot be reached: a refused dial asks the client to come back.\<close>

definition writeUpstreamError :: "bool \<Rightarrow> nat \<times> string \<times> (string \<times> string) list" where
  "writeUpstreamError dial =
     (if dial then (503, ''not_ready'', [(''Retry-After'', ''5'')]) else (502, ''upstream_unreachable'', []))"

section \<open>Health (adapter.go)\<close>

text \<open>The answer to \<open>GET /v1/models\<close>: none, or a status and a body. The result is whether the model is
  listed; an engine that answers is alive.\<close>

definition listed_models :: "string \<Rightarrow> string list option" where
  "listed_models body =
     decode_first [] (store_struct [(''data'', on (\<lambda>x. x) (\<lambda>v x. v)
       (store_slice [] (store_struct [(''id'', on (\<lambda>x. x) (\<lambda>v x. v) store_string)])))]) body"

definition proxy_ready :: "string \<Rightarrow> (nat \<times> string) option \<Rightarrow> bool option" where
  "proxy_ready modelName answer =
     (case answer of
        None \<Rightarrow> None
      | Some (status, body) \<Rightarrow>
          if status \<noteq> 200 then None
          else case listed_models body of None \<Rightarrow> None | Some ids \<Rightarrow> Some (modelName \<in> set ids))"

text \<open>Waiting for the engine: the answers of the probes up to the end of the context.\<close>

fun WaitAlive :: "(nat \<times> string) option list \<Rightarrow> bool" where
  "WaitAlive [] = False"
| "WaitAlive (x # xs) = ((case x of Some (status, body) \<Rightarrow> status = 200 | None \<Rightarrow> False) \<or> WaitAlive xs)"

section \<open>What the engine gets\<close>

lemma read_all: "length data \<le> n \<Longrightarrow> read_limited (Suc n) (data, False) = Some data"
  by (simp add: read_limited_def)

lemma admission_reads:
  assumes "rewriteAdmission kind r = Inr (r', body)" "hr_Path r \<in> set rewritePaths" "hr_Body r = Some (data, False)"
  shows "body = Some data" "hr_Body r' = Some (data, False)" "hr_ContentLength r' = int (length data)"
    "hr_Path r' = hr_Path r" "length data \<le> rewriteBodyCap (hr_Path r) kind"
  using assms by (auto simp: rewriteAdmission_def Let_def read_limited_def with_body_def split: if_splits)

lemma handler_forwards:
  assumes "OpenAIHandler fl a r = Inr q" "hr_Path r \<in> set rewritePaths" "hr_Body r = Some (data, False)" "data \<noteq> []"
  obtains r' where "q = director fl a r'" "hr_Body r' = Some (data, False)" "hr_Path r' = hr_Path r"
    "length data \<le> rewriteBodyCap (hr_Path r) (pa_Kind a)" "hr_ContentLength r' = int (length data)"
proof -
  obtain r' body where ad: "rewriteAdmission (pa_Kind a) r = Inr (r', body)"
    using assms(1) by (auto simp: OpenAIHandler_def split: sum.splits)
  note ad' = admission_reads [OF ad assms(2,3)]
  have "q = director fl a r'"
    using assms(1,4) ad ad' by (auto simp: OpenAIHandler_def reverse_proxy_def split: option.splits)
  then show thesis using that ad' by blast
qed

lemma header_set_get [simp]: "map_of (header_set k v h) k = Some v"
proof -
  have "k \<notin> fst ` set (filter (\<lambda>(j, w). j \<noteq> k) h)" by auto
  then have "map_of (filter (\<lambda>(j, w). j \<noteq> k) h) k = None" by (simp add: map_of_eq_None_iff)
  then show ?thesis by (simp add: header_set_def map_add_def)
qed

lemma header_keys:
  "k \<notin> fst ` set (header_del k h)" "j \<notin> fst ` set h \<Longrightarrow> j \<notin> fst ` set (header_del k h)"
  "j \<noteq> k \<Longrightarrow> j \<notin> fst ` set h \<Longrightarrow> j \<notin> fst ` set (header_set k v h)"
  by (auto simp: header_del_def header_set_def)

lemma sorted_member:
  assumes "distinct (map fst fs)"
  shows "member (sorted_any (JObj fs)) k = map_option sorted_any (map_of fs k)"
proof -
  let ?m = "map (\<lambda>(k, v). (k, sorted_any v)) fs"
  have k: "map fst ?m = map fst fs" by (simp add: case_prod_beta)
  have "mset (map fst (sort_key fst ?m)) = mset (map fst ?m)" by (simp only: mset_map mset_sort)
  then have d: "distinct (map fst (sort_key fst ?m))" using assms k by (metis mset_eq_imp_distinct_iff)
  have d': "distinct (map fst ?m)" unfolding k by (rule assms)
  have "map_of (sort_key fst ?m) = map_of ?m" unfolding map_of_inject_set [OF d d'] by simp
  then show ?thesis by (simp add: member_def map_of_map)
qed

text \<open>C9: Whatever model a client names, behind an engine URL without a path the engine is asked for its
  own: a JSON object sent to one of the rewritten paths arrives as an object whose \<open>model\<close> is the engine's
  and whose other members are those Go decoded, no more and no fewer (a number is what its literal reads as
  in float64, keys are sorted), framed by its new length and without the headers \<open>Authorization\<close> and
  \<open>Proxy-Authorization\<close>. A URL with a path is \<open>base_path_forwards_the_alias\<close>.\<close>
theorem forwarded_model_is_the_engines:
  assumes "OpenAIHandler fl a r = Inr q" "hr_Path r \<in> set rewritePaths" "hr_Body r = Some (data, False)"
    and "unmarshal_any fl data = Some (JObj obj)" "\<exists>u. dropWhile json_space data = CHR 0x7B # u"
    and "pa_Base a \<in> {[], ''/''}"
  shows "\<exists>v. hr_Body q = Some (json_encode v, False) \<and>
    (\<forall>k. member v k = (if k = ''model'' then Some (JStr (pa_Model a)) else map_option sorted_any (map_of obj k))) \<and>
    hr_ContentLength q = int (length (json_encode v)) \<and>
    map_of (hr_Header q) ''Content-Length'' = Some (itoa (hr_ContentLength q)) \<and>
    fst ` set (hr_Header q) \<inter> {''Authorization'', ''Proxy-Authorization''} = {}"
proof -
  have ne: "data \<noteq> []" using assms(5) by auto
  obtain r' where r': "q = director fl a r'" "hr_Body r' = Some (data, False)" "hr_Path r' = hr_Path r"
    "length data \<le> rewriteBodyCap (hr_Path r) (pa_Kind a)" by (rule handler_forwards [OF assms(1-3) ne])
  let ?o = "obj_put ''model'' (JStr (pa_Model a)) obj"
  let ?v = "sorted_any (JObj ?o)"
  have rw: "rewriteJSONModel fl data (pa_Model a) = Some (json_encode ?v)"
    using assms(4,5) by (auto simp: rewriteJSONModel_def Let_def simp del: dropWhile_eq_Nil_conv)
  have q: "hr_Body q = Some (json_encode ?v, False)" "hr_ContentLength q = int (length (json_encode ?v))"
    "hr_Header q = header_set ''Content-Length'' (itoa (int (length (json_encode ?v)))) (stripAuthorization (hr_Header r'))"
    unfolding r'(1) director_def Let_def
    using assms(2,6) r'(2-4) rw by (auto simp: rewriteModelInBody_def read_all with_body_def)
  have d: "distinct (map fst ?o)"
    using assms(4) by (auto simp: unmarshal_any_def obj_put_distinct dest: any_value_distinct split: option.splits)
  have "member ?v k = map_option sorted_any (map_of ?o k)" for k by (rule sorted_member [OF d])
  then show ?thesis using q
    by (intro exI [of _ ?v])
      (simp add: obj_put_lookup stripAuthorization_def header_keys del: sorted_any.simps(2))
qed

text \<open>Behind an engine URL with a path the model is not rewritten: the director puts the path in front
  before it looks the path up, so what the client sent reaches the engine.\<close>
theorem base_path_forwards_the_alias:
  assumes "OpenAIHandler fl a r = Inr q" "hr_Path r \<in> set rewritePaths" "hr_Body r = Some (data, False)"
    and "data \<noteq> []" "pa_Base a \<notin> {[], ''/''}"
  shows "hr_Body q = Some (data, False)"
proof -
  obtain r' where r': "q = director fl a r'" "hr_Body r' = Some (data, False)" "hr_Path r' = hr_Path r"
    by (rule handler_forwards [OF assms(1-4)])
  have "list_all (\<lambda>p. list_all (\<lambda>p'. suffix p p' \<longrightarrow> p = p') rewritePaths) rewritePaths" by code_simp
  then have apart: "p = p'" if "p \<in> set rewritePaths" "p' \<in> set rewritePaths" "suffix p p'" for p p'
    using that by (simp add: list_all_iff)
  have "x @ hr_Path r \<notin> set rewritePaths" if "x \<noteq> []" for x
    using apart [OF assms(2), of "x @ hr_Path r"] that by (auto simp: suffix_def)
  moreover have "trim_suffix_slash (pa_Base a) \<noteq> []"
    using assms(5) by (cases "pa_Base a" rule: rev_cases) (auto simp: trim_suffix_slash_def)
  ultimately show ?thesis using assms(5) r' by (simp add: director_def Let_def rewriteModelInBody_def)
qed

section \<open>Which values are accepted\<close>

definition accepts :: "(string \<times> string list) list \<Rightarrow> string \<times> json \<Rightarrow> bool" where
  "accepts rules p =
     (case (map_of rules (fst p), string_value (snd p)) of (Some options, Some s) \<Rightarrow> s \<in> set options | _ \<Rightarrow> True)"

lemma raw_members_distinct: "raw_members body = Some mems \<Longrightarrow> distinct (map fst mems)"
proof -
  assume a: "raw_members body = Some mems"
  have "distinct (map fst (foldl (\<lambda>m (k, v). obj_put k v m) m fs))" if "distinct (map fst m)" for m :: "(string \<times> json) list" and fs
    using that by (induction fs arbitrary: m) (auto simp: obj_put_distinct)
  then show ?thesis using a by (auto simp: raw_members_def split: option.splits json.splits)
qed

lemma first_invalid_None:
  "first_invalid rules mems ns = None \<longleftrightarrow>
   list_all (\<lambda>n. case map_of mems n of None \<Rightarrow> True | Some v \<Rightarrow> accepts rules (n, v)) ns"
  by (induction ns) (auto simp: accepts_def split: option.splits)

lemma enum_check_exact:
  assumes "raw_members body = Some mems" "rules \<noteq> []" "body \<noteq> []"
  shows "checkEnumParams rules body = None \<longleftrightarrow> list_all (accepts rules) mems"
proof -
  have "map_of mems n = Some v" if "(n, v) \<in> set mems" for n v
    using that raw_members_distinct [OF assms(1)] by simp
  moreover have "accepts rules (n, v)" if "map_of rules n = None" for n v
    using that by (simp add: accepts_def)
  ultimately show ?thesis using assms
    by (fastforce simp: checkEnumParams_def first_invalid_None list_all_iff split: option.splits)
qed

text \<open>A request passes the card's parameter rules exactly when every member that has a list of values
  and is read as a string is on its list; what is not read as a string is left to the engine.\<close>
theorem enum_check_is_exact:
  assumes "raw_members body = Some mems" "rules \<noteq> []" "body \<noteq> []"
  shows "checkEnumParams rules body = None \<longleftrightarrow> list_all (accepts rules) mems"
  by (rule enum_check_exact [OF assms])

text \<open>The first name the check stops at is the only one it can stop at.\<close>

lemma first_invalid_only:
  assumes "name \<in> set ns" "map_of rules name = Some options" "map_of mems name = Some v" "string_value v = Some s"
    "s \<notin> set options" "list_all (\<lambda>n. n = name \<or> (\<forall>w. map_of mems n = Some w \<longrightarrow> accepts rules (n, w))) ns"
  shows "first_invalid rules mems ns = Some (name, s, options)"
  using assms
proof (induction ns)
  case (Cons n ns)
  then show ?case by (cases "n = name") (auto simp: accepts_def split: option.splits)
qed simp

text \<open>C40: A parameter sent as \<open>null\<close>, the way clients leave it unset, is refused as the empty string when the
  card lists its values and the empty string is none of them: with every other listed parameter in
  order, the answer is a 400 that names this parameter, the empty value and the values of the card.\<close>
theorem null_parameter_is_refused:
  assumes "hr_Path r \<in> set rewritePaths" "hr_Body r = Some (data, False)"
    and "hr_ContentLength r \<le> int (length data)" "length data \<le> rewriteBodyCap (hr_Path r) (pa_Kind a)"
    and "raw_members data = Some mems" "map_of mems name = Some JNull"
    and "map_of (pa_Enums a) name = Some options" "[] \<notin> set options" "data \<noteq> []"
    and "list_all (\<lambda>p. fst p = name \<or> accepts (pa_Enums a) p) mems"
  shows "OpenAIHandler fl a r = Inl (InvalidParameter name [] options) \<and>
    refusal_status (InvalidParameter name [] options) = (400, ''invalid_parameter_value'')"
proof -
  let ?ns = "sort (filter (\<lambda>n. map_of (pa_Enums a) n \<noteq> None) (map fst mems))"
  have "name \<in> set ?ns" using assms(7) map_of_SomeD [OF assms(6)] by force
  moreover have "list_all (\<lambda>n. n = name \<or> (\<forall>w. map_of mems n = Some w \<longrightarrow> accepts (pa_Enums a) (n, w))) ?ns"
    using assms(10) by (force simp: list_all_iff dest: map_of_SomeD)
  ultimately have "first_invalid (pa_Enums a) mems ?ns = Some (name, [], options)"
    using assms(6-8) by (intro first_invalid_only [where v = JNull]) (simp_all add: string_value_def)
  moreover have "pa_Enums a \<noteq> []" using assms(7) by auto
  ultimately have "checkEnumParams (pa_Enums a) data = Some (name, [], options)"
    using assms(5,9) by (simp add: checkEnumParams_def)
  then show ?thesis using assms(1-4)
    by (auto simp: OpenAIHandler_def rewriteAdmission_def Let_def read_all refusal_status_def)
qed

section \<open>Concrete requests\<close>

lemma handler_accepts:
  assumes "hr_Path r \<in> set rewritePaths" "hr_Body r = Some (data, False)" "hr_ContentLength r \<le> int (length data)"
    "length data \<le> rewriteBodyCap (hr_Path r) (pa_Kind a)" "checkEnumParams (pa_Enums a) data = None"
  shows "\<exists>q. OpenAIHandler fl a r = Inr q"
  using assms by (auto simp: OpenAIHandler_def rewriteAdmission_def Let_def read_all)

lemma cap_ge: "n \<le> 2 ^ 20 \<Longrightarrow> n \<le> rewriteBodyCap p k"
  by (auto simp: rewriteBodyCap_def maxRewriteBody_def maxVisionRewriteBody_def)

definition example_request :: "string \<Rightarrow> http_request" where
  "example_request data = \<lparr>hr_Path = pathChatCompletions, hr_Body = Some (data, False), hr_ContentLength = - 1,
     hr_Header = [(''Authorization'', ''Bearer x'')], hr_Chunked = True, hr_Scheme = ''http'', hr_Host = ''h''\<rparr>"

definition example_proxy :: "string \<Rightarrow> model_spec \<Rightarrow> proxy_adapter" where
  "example_proxy base spec = \<lparr>pa_Kind = EngineVLLM, pa_Model = ''m'', pa_Scheme = ''http'', pa_Host = ''vllm:8000'',
     pa_Base = base, pa_Enums = buildEnumRules spec\<rparr>"

definition laddered_card :: model_spec where
  "laddered_card = (example_card [])\<lparr>sp_ParameterRules := [ladder_rule [''low'', ''high''] []]\<rparr>"

abbreviation alias_body :: string where "alias_body \<equiv> ''{\"model\":\"gpt-4o\",\"seed\":7}''"

lemma alias_members: "unmarshal_any Some alias_body = Some (JObj [(''model'', JStr ''gpt-4o''), (''seed'', JNum ''7'')])"
  by code_simp

lemma alias_accepted: "\<exists>q. OpenAIHandler Some (example_proxy base (example_card [])) (example_request alias_body) = Inr q"
proof (rule handler_accepts)
  show "checkEnumParams (pa_Enums (example_proxy base (example_card []))) alias_body = None"
    by (simp add: example_proxy_def buildEnumRules_def example_card_def zero_spec_def checkEnumParams_def)
qed (simp_all add: example_request_def rewritePaths_def cap_ge)

theorem forwarded_model_is_the_engines_witness:
  "\<exists>q v. OpenAIHandler Some (example_proxy [] (example_card [])) (example_request alias_body) = Inr q \<and>
     hr_Body q = Some (json_encode v, False) \<and> member v ''model'' = Some (JStr ''m'') \<and>
     member v ''seed'' = Some (JNum ''7'') \<and> ''Authorization'' \<notin> fst ` set (hr_Header q)"
proof -
  obtain q where q: "OpenAIHandler Some (example_proxy [] (example_card [])) (example_request alias_body) = Inr q"
    using alias_accepted by blast
  have "\<exists>u. dropWhile json_space alias_body = CHR 0x7B # u" by (simp add: json_space_def)
  from forwarded_model_is_the_engines [OF q _ _ alias_members this] show ?thesis
    using q by (auto simp: example_request_def rewritePaths_def example_proxy_def)
qed

theorem base_path_forwards_the_alias_witness:
  "\<exists>q. OpenAIHandler Some (example_proxy ''/engine'' (example_card [])) (example_request alias_body) = Inr q \<and>
     hr_Body q = Some (alias_body, False)"
proof -
  obtain q where q: "OpenAIHandler Some (example_proxy ''/engine'' (example_card [])) (example_request alias_body) = Inr q"
    using alias_accepted by blast
  have "hr_Body q = Some (alias_body, False)"
    by (rule base_path_forwards_the_alias [OF q]) (simp_all add: example_request_def rewritePaths_def example_proxy_def)
  then show ?thesis using q by blast
qed

abbreviation null_body :: string where "null_body \<equiv> ''{\"reasoning_effort\":null}''"

lemma null_members: "raw_members null_body = Some [(''reasoning_effort'', JNull)]"
  by code_simp

lemma laddered_rules: "buildEnumRules laddered_card = [(''reasoning_effort'', [''low'', ''high''])]"
  by code_simp

theorem null_parameter_is_refused_witness:
  "OpenAIHandler Some (example_proxy [] laddered_card) (example_request null_body) =
     Inl (InvalidParameter ''reasoning_effort'' [] [''low'', ''high''])"
  by (rule conjunct1 [OF null_parameter_is_refused [OF _ _ _ _ null_members]])
    (simp_all add: example_request_def rewritePaths_def example_proxy_def cap_ge laddered_rules)

theorem enum_check_is_exact_witness:
  "checkEnumParams [(''reasoning_effort'', [''low'', ''high''])] null_body \<noteq> None"
  using enum_check_is_exact [OF null_members, of "[(''reasoning_effort'', [''low'', ''high''])]"]
  by (simp add: accepts_def string_value_def)

end
