(* ===== verification/Hub.thy ===== *)
theory Hub
  imports Paths Fetch JsonDecode
begin

text \<open>
  What llm-init reads of a Hugging Face repository: the selection of files by \<open>--include\<close>,
  \<open>--exclude\<close> and \<open>--subdir\<close> (\<open>internal/adapter/hfwrap/patterns.go\<close>), the local cache layout
  (\<open>refs_reader.go\<close>), the paginated listing of a revision and its size (\<open>estimate.go\<close>), and sizes of
  resolve URLs (\<open>internal/lifecycle/hf_resolve_estimate.go\<close>). The Hub is a parameter: a function from a
  URL to the page it answers, or the failure of the request or of its decoding.
\<close>

section \<open>path.Match\<close>

text \<open>A pattern as items; a rune of a class is its UTF-8 encoding, and the order of code points is the
  order of their encodings.\<close>

datatype glob = GLit char | GAny | GStar | GSet bool "(string \<times> string) list"

definition byte :: "char \<Rightarrow> nat" where "byte c = of_char c"

definition cont :: "nat \<Rightarrow> nat \<Rightarrow> string \<Rightarrow> nat \<Rightarrow> bool" where
  "cont lo hi s i \<longleftrightarrow> i < length s \<and> lo \<le> byte (s ! i) \<and> byte (s ! i) \<le> hi"

text \<open>The bytes of the first rune; an invalid encoding is one byte long.\<close>

definition rune_width :: "string \<Rightarrow> nat" where
  "rune_width s =
     (let b = byte (hd s);
          lo = (if b = 0xE0 then 0xA0 else if b = 0xF0 then 0x90 else 0x80);
          hi = (if b = 0xED then 0x9F else if b = 0xF4 then 0x8F else 0xBF)
      in if 0xC2 \<le> b \<and> b \<le> 0xDF \<and> cont lo hi s 1 then 2
         else if 0xE0 \<le> b \<and> b \<le> 0xEF \<and> cont lo hi s 1 \<and> cont 0x80 0xBF s 2 then 3
         else if 0xF0 \<le> b \<and> b \<le> 0xF4 \<and> cont lo hi s 1 \<and> cont 0x80 0xBF s 2 \<and> cont 0x80 0xBF s 3 then 4
         else 1)"

definition bad_rune :: "string \<Rightarrow> bool" where
  "bad_rune s \<longleftrightarrow> 0x80 \<le> byte (hd s) \<and> rune_width s = 1"

definition rune_of :: "string \<Rightarrow> string" where
  "rune_of s = (if bad_rune s then [CHR 0xEF, CHR 0xBF, CHR 0xBD] else take (rune_width s) s)"

fun rune_le :: "string \<Rightarrow> string \<Rightarrow> bool" where
  "rune_le [] _ = True"
| "rune_le (a # as) [] = False"
| "rune_le (a # as) (b # bs) = (byte a < byte b \<or> a = b \<and> rune_le as bs)"

definition get_esc :: "string \<Rightarrow> (string \<times> string) option" where
  "get_esc s =
     (if s = [] \<or> hd s = CHR ''-'' \<or> hd s = CHR '']'' then None
      else let s = (if hd s = CHR 0x5C then tl s else s)
        in if s = [] \<or> bad_rune s then None
           else let rest = drop (rune_width s) s
             in if rest = [] then None else Some (take (rune_width s) s, rest))"

text \<open>The ranges of a class up to its bracket; one at least. \<open>fuel\<close> is a bound on the length.\<close>

fun parse_set :: "nat \<Rightarrow> bool \<Rightarrow> string \<Rightarrow> ((string \<times> string) list \<times> string) option" where
  "parse_set 0 any s = None"
| "parse_set (Suc fuel) any s =
     (if any \<and> s \<noteq> [] \<and> hd s = CHR '']'' then Some ([], tl s)
      else case get_esc s of
             None \<Rightarrow> None
           | Some (lo, s1) \<Rightarrow>
               (case (if hd s1 = CHR ''-'' then get_esc (tl s1) else Some (lo, s1)) of
                  None \<Rightarrow> None
                | Some (hi, s2) \<Rightarrow> map_option (\<lambda>(rs, r). ((lo, hi) # rs, r)) (parse_set fuel True s2)))"

fun parse_glob :: "nat \<Rightarrow> string \<Rightarrow> glob list option" where
  "parse_glob 0 s = (if s = [] then Some [] else None)"
| "parse_glob (Suc fuel) s =
     (case s of
        [] \<Rightarrow> Some []
      | c # rest \<Rightarrow>
          if c = CHR ''*'' then map_option (Cons GStar) (parse_glob fuel rest)
          else if c = CHR ''?'' then map_option (Cons GAny) (parse_glob fuel rest)
          else if c = CHR ''['' then
            (let neg = (rest \<noteq> [] \<and> hd rest = CHR ''^'')
             in case parse_set (length s) False (if neg then tl rest else rest) of
                  None \<Rightarrow> None
                | Some (rs, r) \<Rightarrow> map_option (Cons (GSet neg rs)) (parse_glob fuel r))
          else if c = CHR 0x5C then
            (case rest of [] \<Rightarrow> None | d # r \<Rightarrow> map_option (Cons (GLit d)) (parse_glob fuel r))
          else map_option (Cons (GLit c)) (parse_glob fuel rest))"

fun glob_match :: "glob list \<Rightarrow> string \<Rightarrow> bool" where
  "glob_match [] s = (s = [])"
| "glob_match (GStar # gs) [] = glob_match gs []"
| "glob_match (GStar # gs) (c # s) = (glob_match gs (c # s) \<or> c \<noteq> CHR ''/'' \<and> glob_match (GStar # gs) s)"
| "glob_match (GLit d # gs) s = (s \<noteq> [] \<and> hd s = d \<and> glob_match gs (tl s))"
| "glob_match (GAny # gs) s = (s \<noteq> [] \<and> hd s \<noteq> CHR ''/'' \<and> glob_match gs (drop (rune_width s) s))"
| "glob_match (GSet neg rs # gs) s =
     (s \<noteq> [] \<and> list_ex (\<lambda>(lo, hi). rune_le lo (rune_of s) \<and> rune_le (rune_of s) hi) rs \<noteq> neg \<and>
      glob_match gs (drop (rune_width s) s))"

text \<open>\<open>Match\<close> succeeds when the whole pattern is well-formed and matches; \<open>None\<close> is \<open>ErrBadPattern\<close>.\<close>

definition path_match :: "string \<Rightarrow> string \<Rightarrow> bool option" where
  "path_match pattern name =
     (case parse_glob (length pattern) pattern of None \<Rightarrow> None | Some gs \<Rightarrow> Some (glob_match gs name))"

lemma path_match_examples:
  "path_match ''*.gguf'' ''a.gguf'' = Some True" "path_match ''*.gguf'' ''d/a.gguf'' = Some False"
  "path_match ''q[4-6]_?.bin'' ''q5_K.bin'' = Some True" "path_match ''a[^x]'' ''ax'' = Some False"
  "path_match ''a[]'' ''a'' = None" "path_match ''[a-]'' ''a'' = None"
  "path_match (CHR 0x5C # ''*'') ''*'' = Some True"
  by code_simp+

section \<open>Selection (patterns.go)\<close>

definition matchPattern :: "string \<Rightarrow> string \<Rightarrow> bool" where
  "matchPattern pattern rel =
     (let pattern = trim_space pattern
      in if pattern = [] then False
         else path_match pattern rel = Some True \<or> path_match pattern (path_base rel) = Some True)"

definition MatchPatterns :: "string \<Rightarrow> string list \<Rightarrow> string list \<Rightarrow> bool" where
  "MatchPatterns rel incl excl =
     (let rel = trim_prefix rel ''/''
      in if list_ex (\<lambda>p. matchPattern p rel) excl then False
         else if incl = [] then True else list_ex (\<lambda>p. matchPattern p rel) incl)"

definition trim_slashes :: "string \<Rightarrow> string" where
  "trim_slashes s =
     rev (dropWhile (\<lambda>c. c = CHR ''/'') (rev (dropWhile (\<lambda>c. c = CHR ''/'') s)))"

definition UnderSubdir :: "string \<Rightarrow> string \<Rightarrow> bool" where
  "UnderSubdir rel subdir =
     (let subdir = trim_slashes (trim_space subdir); rel = trim_prefix rel ''/''
      in if subdir = [] then True else rel = subdir \<or> has_prefix rel (subdir @ ''/''))"

definition looksLikeGlob :: "string \<Rightarrow> bool" where
  "looksLikeGlob p = list_ex (\<lambda>c. c \<in> set ''*?['') p"

section \<open>The cache layout (refs_reader.go)\<close>

definition defaultHFRef :: string where "defaultHFRef = ''main''"

definition hfRepoCacheDirName :: "string \<Rightarrow> string" where
  "hfRepoCacheDirName repo = ''models--'' @ concat (map (\<lambda>c. if c = CHR ''/'' then ''--'' else [c]) repo)"

definition HFRepoCacheDir :: "string \<Rightarrow> string \<Rightarrow> string" where
  "HFRepoCacheDir cacheRoot repo = path_join [cacheRoot, hfRepoCacheDirName repo]"

definition SnapshotPath :: "string \<Rightarrow> string \<Rightarrow> string \<Rightarrow> string" where
  "SnapshotPath cacheRoot repo sha = path_join [HFRepoCacheDir cacheRoot repo, ''snapshots'', sha]"

definition hex_lower :: "char \<Rightarrow> bool" where
  "hex_lower c \<longleftrightarrow> c \<in> set ''0123456789abcdef''"

definition isLowerHex :: "string \<Rightarrow> nat \<Rightarrow> bool" where
  "isLowerHex s n \<longleftrightarrow> length s = n \<and> list_all hex_lower s"

definition isHexSHA :: "string \<Rightarrow> bool" where "isHexSHA s = isLowerHex s 40"

text \<open>\<open>read\<close> is \<open>os.ReadFile\<close>: a missing file is \<open>Inl True\<close>, another failure \<open>Inl False\<close>. The result is
  \<open>None\<close> for an error, and the empty string for no commit.\<close>

definition ReadRefCommit :: "(string \<Rightarrow> bool + string) \<Rightarrow> string \<Rightarrow> string \<Rightarrow> string \<Rightarrow> string option" where
  "ReadRefCommit read cacheRoot repo ref =
     (if isHexSHA ref then Some ref
      else let ref = (if ref = [] then defaultHFRef else ref)
        in case read (path_join [HFRepoCacheDir cacheRoot repo, ''refs'', ref]) of
             Inl missing \<Rightarrow> if missing then Some [] else None
           | Inr b \<Rightarrow> Some (trim_space b))"

section \<open>The listing of a revision (estimate.go)\<close>

record tree_entry =
  te_Path :: string
  te_Size :: int
  te_SHA256 :: string

record tree_item =
  ti_Path :: string
  ti_Size :: int
  ti_Type :: string
  ti_LFS :: "string option"

text \<open>A page: its decoded items, the values of its Link headers and the commit header.\<close>

record tree_page =
  tp_items :: "tree_item list"
  tp_links :: "string list"
  tp_commit :: string

record hub_config =
  hc_Repo :: string
  hc_Revision :: string
  hc_Token :: string
  hc_Endpoint :: string

type_synonym hub = "string \<Rightarrow> string \<Rightarrow> string + tree_page"

definition maxTreePages :: nat where "maxTreePages = 100"

definition without :: "char \<Rightarrow> string \<Rightarrow> string" where
  "without c s = filter (\<lambda>d. d \<noteq> c) s"

definition is_next :: "string \<Rightarrow> bool" where
  "is_next attr \<longleftrightarrow>
     without (CHR 0x27) (without (CHR 0x22) (map ascii_lower (trim_space attr))) = ''rel=next''"

definition link_target :: "string \<Rightarrow> string option" where
  "link_target part =
     (case split_on (CHR '';'') (trim_space part) of
        seg # attr # attrs \<Rightarrow>
          (let target = trim_space seg
           in if has_prefix target ''<'' \<and> has_suffix target ''>'' \<and> list_ex is_next (attr # attrs)
              then Some (let t = trim_prefix target ''<'' in if has_suffix t ''>'' then butlast t else t)
              else None)
      | _ \<Rightarrow> None)"

definition nextTreePage :: "string list \<Rightarrow> string" where
  "nextTreePage links =
     (case List.map_filter link_target (concat (map (split_on (CHR '','')) links)) of
        [] \<Rightarrow> [] | t # _ \<Rightarrow> t)"

definition entries_of :: "tree_item list \<Rightarrow> tree_entry list" where
  "entries_of items =
     map (\<lambda>i. \<lparr>te_Path = ti_Path i, te_Size = ti_Size i,
                te_SHA256 = (case ti_LFS i of None \<Rightarrow> [] | Some oid \<Rightarrow> oid)\<rparr>)
       (filter (\<lambda>i. ti_Type i = [] \<or> ti_Type i = ''file'') items)"

fun tree_loop ::
  "hub \<Rightarrow> string \<Rightarrow> nat \<Rightarrow> string \<Rightarrow> tree_entry list \<Rightarrow> string \<Rightarrow> string + (tree_entry list \<times> string)" where
  "tree_loop hub token 0 nxt entries commit = Inr (entries, commit)"
| "tree_loop hub token (Suc pages) nxt entries commit =
     (if nxt = [] then Inr (entries, commit)
      else case hub token nxt of
             Inl e \<Rightarrow> Inl e
           | Inr p \<Rightarrow> tree_loop hub token pages (nextTreePage (tp_links p)) (entries @ entries_of (tp_items p))
                        (if commit = [] then tp_commit p else commit))"

text \<open>\<open>url.PathEscape\<close>.\<close>

definition escape_byte :: "char \<Rightarrow> string" where
  "escape_byte c =
     (if byte c \<in> {48..57} \<union> {65..90} \<union> {97..122} \<or> c \<in> set ''-_.~$&+=:@'' then [c]
      else let d = (\<lambda>n. ''0123456789ABCDEF'' ! n)
        in [CHR ''%'', d (byte c div 16), d (byte c mod 16)])"

definition path_escape :: "string \<Rightarrow> string" where
  "path_escape s = concat (map escape_byte s)"

definition tree_url :: "hub_config \<Rightarrow> bool \<Rightarrow> string" where
  "tree_url cfg rcv =
     (let e = (if has_suffix (hc_Endpoint cfg) ''/'' then butlast (hc_Endpoint cfg) else hc_Endpoint cfg)
      in (if e = [] then ''https://huggingface.co'' else e) @ ''/api/models/'' @ hc_Repo cfg @ ''/tree/'' @
         path_escape (if hc_Revision cfg = [] then defaultHFRef else hc_Revision cfg) @
         (if rcv then ''?recursive=true'' else []))"

definition fetchTree :: "hub \<Rightarrow> hub_config \<Rightarrow> bool \<Rightarrow> string + (tree_entry list \<times> string)" where
  "fetchTree hub cfg rcv = tree_loop hub (hc_Token cfg) maxTreePages (tree_url cfg rcv) [] []"

definition RepoTree :: "hub \<Rightarrow> hub_config \<Rightarrow> string + (tree_entry list \<times> string)" where
  "RepoTree hub cfg =
     (if hc_Repo cfg = [] then Inl ''hfwrap tree: no repo'' else fetchTree hub cfg True)"

record repo_estimate =
  re_Bytes :: int
  re_Files :: nat
  re_Complete :: bool
  re_Entries :: "tree_entry list"

definition no_estimate :: repo_estimate where
  "no_estimate = \<lparr>re_Bytes = 0, re_Files = 0, re_Complete = False, re_Entries = []\<rparr>"

definition everyExactIncludeMatched :: "string list \<Rightarrow> tree_entry list \<Rightarrow> bool" where
  "everyExactIncludeMatched incl matched =
     list_all (\<lambda>p. trim_space p = [] \<or> looksLikeGlob (trim_space p) \<or>
       list_ex (\<lambda>e. matchPattern (trim_space p) (te_Path e)) matched) incl"

definition sum_sizes :: "int list \<Rightarrow> int" where
  "sum_sizes ns = foldl (\<lambda>a n. wrap64 (a + n)) 0 ns"

definition EstimateRepo ::
  "hub \<Rightarrow> hub_config \<Rightarrow> string list \<Rightarrow> string list \<Rightarrow> string \<Rightarrow> string + repo_estimate" where
  "EstimateRepo hub cfg incl excl subdir =
     (if hc_Repo cfg = [] then Inr no_estimate
      else case fetchTree hub cfg True of
             Inl e \<Rightarrow> Inl e
           | Inr (entries, commit) \<Rightarrow>
               let matched = filter (\<lambda>e. te_Path e \<noteq> [] \<and> UnderSubdir (te_Path e) subdir \<and>
                               MatchPatterns (te_Path e) incl excl) entries
               in if matched = [] then Inr no_estimate
                  else let b = sum_sizes (map te_Size matched)
                    in Inr \<lparr>re_Bytes = b, re_Files = length matched,
                            re_Complete = (b > 0 \<and> everyExactIncludeMatched incl matched),
                            re_Entries = matched\<rparr>)"

definition EstimateRepoFiles :: "hub \<Rightarrow> hub_config \<Rightarrow> string list \<Rightarrow> string + (int \<times> bool)" where
  "EstimateRepoFiles hub cfg patterns =
     (if patterns = [] then Inr (0, False)
      else case EstimateRepo hub cfg patterns [] [] of
             Inl e \<Rightarrow> Inl e | Inr est \<Rightarrow> Inr (re_Bytes est, re_Complete est))"

section \<open>Sizes of resolve URLs (hf_resolve_estimate.go)\<close>

text \<open>\<open>url_split\<close> is \<open>url.Parse\<close>, which gives the host and the decoded path.\<close>

definition trim_suffix :: "string \<Rightarrow> string \<Rightarrow> string" where
  "trim_suffix s suf = (if has_suffix s suf then take (length s - length suf) s else s)"

definition hfResolveHostAllowed :: "(string \<Rightarrow> (string \<times> string) option) \<Rightarrow> string \<Rightarrow> string \<Rightarrow> bool" where
  "hfResolveHostAllowed url_split host hfEndpoint =
     (let host = map ascii_lower (trim_suffix host '':443'')
      in host \<in> set [''huggingface.co'', ''www.huggingface.co'', ''hf-mirror.com''] \<or>
         (case url_split (trim_space hfEndpoint) of
            Some (h, _) \<Rightarrow> h \<noteq> [] \<and> host = map ascii_lower h | None \<Rightarrow> False))"

definition parseHFResolveURL ::
  "(string \<Rightarrow> (string \<times> string) option) \<Rightarrow> string \<Rightarrow> string \<Rightarrow> (string \<times> string \<times> string) option" where
  "parseHFResolveURL url_split rawURL hfEndpoint =
     (case url_split rawURL of
        None \<Rightarrow> None
      | Some (host, upath) \<Rightarrow>
          if host = [] \<or> \<not> hfResolveHostAllowed url_split host hfEndpoint then None
          else let parts = split_on (CHR ''/'') (trim_slashes upath)
            in case find_index (\<lambda>p. p = ''resolve'') parts of
                 None \<Rightarrow> None
               | Some i \<Rightarrow>
                   if i < 2 \<or> length parts \<le> i + 2 then None
                   else let base = path_base (join_with ''/'' (drop (i + 2) parts))
                     in if base \<in> set [[], ''.'', ''..''] then None
                        else Some (parts ! 0 @ ''/'' @ parts ! 1, parts ! (i + 1), base))"

text \<open>The files asked of each repository and revision; \<open>None\<close> when one URL is not a resolve URL.\<close>

fun resolve_groups ::
  "(string \<Rightarrow> (string \<times> string) option) \<Rightarrow> string \<Rightarrow> string list \<Rightarrow>
     ((string \<times> string) \<times> string list) list \<Rightarrow> ((string \<times> string) \<times> string list) list option" where
  "resolve_groups url_split ep [] gs = Some gs"
| "resolve_groups url_split ep (raw # raws) gs =
     (if raw = [] then resolve_groups url_split ep raws gs
      else case parseHFResolveURL url_split raw ep of
             None \<Rightarrow> None
           | Some (repo, rv, base) \<Rightarrow>
               let files = (case map_of gs (repo, rv) of None \<Rightarrow> [] | Some fs \<Rightarrow> fs)
               in resolve_groups url_split ep raws
                    (obj_put (repo, rv) (if base \<in> set files then files else files @ [base]) gs))"

fun sum_groups ::
  "hub \<Rightarrow> string \<Rightarrow> string \<Rightarrow> ((string \<times> string) \<times> string list) list \<Rightarrow> int \<Rightarrow> int option" where
  "sum_groups hub token ep [] acc = Some acc"
| "sum_groups hub token ep (((repo, rv), files) # gs) acc =
     (case EstimateRepoFiles hub
             \<lparr>hc_Repo = repo, hc_Revision = rv, hc_Token = token, hc_Endpoint = ep\<rparr> files of
        Inl e \<Rightarrow> None
      | Inr (t, allMatched) \<Rightarrow>
          if \<not> allMatched \<or> t \<le> 0 then None else sum_groups hub token ep gs (wrap64 (acc + t)))"

definition estimateHFResolveURLList ::
  "hub \<Rightarrow> (string \<Rightarrow> (string \<times> string) option) \<Rightarrow> string \<Rightarrow> string \<Rightarrow> string list \<Rightarrow> int \<times> bool" where
  "estimateHFResolveURLList hub url_split token ep urls =
     (case resolve_groups url_split ep urls [] of
        None \<Rightarrow> (0, False)
      | Some gs \<Rightarrow>
          if gs = [] then (0, False)
          else case sum_groups hub token ep gs 0 of None \<Rightarrow> (0, False) | Some n \<Rightarrow> (n, True))"

end
