(* ===== verification/Verify.thy ===== *)
theory Verify
  imports JsonText Hub Sources Sentinel Lifecycle "HOL-Library.List_Lexorder" "HOL-Library.Char_ord"
begin

text \<open>
  The download record and what is read from it: the record and its file (\<open>internal/verify/sidecar.go\<close>),
  the local check and the identity of a request (\<open>check.go\<close>), the identities, the reuse decisions and
  the path the engine loads (\<open>internal/lifecycle/sidecar.go\<close>, \<open>hf_engine_path.go\<close>), and the question
  whether the upstream has moved (\<open>drift.go\<close>). SHA-256 is a parameter; so is the text of a time.
\<close>

section \<open>The record (sidecar.go, check.go)\<close>

record verify_source =
  vs_Kind :: string
  vs_Repo :: string
  vs_Revision :: string
  vs_Commit :: string
  vs_Endpoint :: string
  vs_Include :: "string list"
  vs_Exclude :: "string list"
  vs_Subdir :: string
  vs_URLSHA256 :: string
  vs_URLRedacted :: string
  vs_DeclaredSHA256 :: string

record verify_file =
  vf_Path :: string
  vf_Size :: int
  vf_SHA256 :: string
  vf_ETag :: string

record sidecar =
  sd_Version :: int
  sd_Source :: verify_source
  sd_Files :: "verify_file list"
  sd_EnginePath :: string
  sd_CompletedAt :: string

definition SchemaVersion :: int where "SchemaVersion = 1"

definition zero_verify_source :: verify_source where
  "zero_verify_source = \<lparr>vs_Kind = [], vs_Repo = [], vs_Revision = [], vs_Commit = [], vs_Endpoint = [],
     vs_Include = [], vs_Exclude = [], vs_Subdir = [], vs_URLSHA256 = [], vs_URLRedacted = [],
     vs_DeclaredSHA256 = []\<rparr>"

definition zero_file :: verify_file where
  "zero_file = \<lparr>vf_Path = [], vf_Size = 0, vf_SHA256 = [], vf_ETag = []\<rparr>"

definition zero_sidecar :: sidecar where
  "zero_sidecar = \<lparr>sd_Version = 0, sd_Source = zero_verify_source, sd_Files = [], sd_EnginePath = [],
     sd_CompletedAt = []\<rparr>"

definition strings_store :: "string list store" where
  "strings_store = store_slice [] store_string"

definition store_verify_source :: "verify_source store" where
  "store_verify_source = store_struct
     [(''kind'', on vs_Kind (\<lambda>v s. s\<lparr>vs_Kind := v\<rparr>) store_string),
      (''repo'', on vs_Repo (\<lambda>v s. s\<lparr>vs_Repo := v\<rparr>) store_string),
      (''revision'', on vs_Revision (\<lambda>v s. s\<lparr>vs_Revision := v\<rparr>) store_string),
      (''commit'', on vs_Commit (\<lambda>v s. s\<lparr>vs_Commit := v\<rparr>) store_string),
      (''endpoint'', on vs_Endpoint (\<lambda>v s. s\<lparr>vs_Endpoint := v\<rparr>) store_string),
      (''include'', on vs_Include (\<lambda>v s. s\<lparr>vs_Include := v\<rparr>) strings_store),
      (''exclude'', on vs_Exclude (\<lambda>v s. s\<lparr>vs_Exclude := v\<rparr>) strings_store),
      (''subdir'', on vs_Subdir (\<lambda>v s. s\<lparr>vs_Subdir := v\<rparr>) store_string),
      (''url_sha256'', on vs_URLSHA256 (\<lambda>v s. s\<lparr>vs_URLSHA256 := v\<rparr>) store_string),
      (''url_redacted'', on vs_URLRedacted (\<lambda>v s. s\<lparr>vs_URLRedacted := v\<rparr>) store_string),
      (''declared_sha256'', on vs_DeclaredSHA256 (\<lambda>v s. s\<lparr>vs_DeclaredSHA256 := v\<rparr>) store_string)]"

definition store_file :: "verify_file store" where
  "store_file = store_struct
     [(''path'', on vf_Path (\<lambda>v f. f\<lparr>vf_Path := v\<rparr>) store_string),
      (''size'', on vf_Size (\<lambda>v f. f\<lparr>vf_Size := v\<rparr>) store_int),
      (''sha256'', on vf_SHA256 (\<lambda>v f. f\<lparr>vf_SHA256 := v\<rparr>) store_string),
      (''etag'', on vf_ETag (\<lambda>v f. f\<lparr>vf_ETag := v\<rparr>) store_string)]"

text \<open>\<open>time_ok\<close> says which strings \<open>time.Time\<close> decodes.\<close>

definition store_time :: "(string \<Rightarrow> bool) \<Rightarrow> string store" where
  "store_time time_ok cur j =
     (case store_string cur j of None \<Rightarrow> None | Some t \<Rightarrow> if t = cur \<or> time_ok t then Some t else None)"

definition decode_sidecar :: "(string \<Rightarrow> bool) \<Rightarrow> string \<Rightarrow> sidecar option" where
  "decode_sidecar time_ok = unmarshal zero_sidecar (store_struct
     [(''version'', on sd_Version (\<lambda>v s. s\<lparr>sd_Version := v\<rparr>) store_int),
      (''source'', on sd_Source (\<lambda>v s. s\<lparr>sd_Source := v\<rparr>) store_verify_source),
      (''files'', on sd_Files (\<lambda>v s. s\<lparr>sd_Files := v\<rparr>) (store_slice zero_file store_file)),
      (''engine_path'', on sd_EnginePath (\<lambda>v s. s\<lparr>sd_EnginePath := v\<rparr>) store_string),
      (''completed_at'', on sd_CompletedAt (\<lambda>v s. s\<lparr>sd_CompletedAt := v\<rparr>) (store_time time_ok))])"

definition source_value :: "verify_source \<Rightarrow> json" where
  "source_value s = JObj ((''kind'', JStr (vs_Kind s)) #
     opt_string ''repo'' (vs_Repo s) @ opt_string ''revision'' (vs_Revision s) @
     opt_string ''commit'' (vs_Commit s) @ opt_string ''endpoint'' (vs_Endpoint s) @
     opt_strings ''include'' (vs_Include s) @ opt_strings ''exclude'' (vs_Exclude s) @
     opt_string ''subdir'' (vs_Subdir s) @ opt_string ''url_sha256'' (vs_URLSHA256 s) @
     opt_string ''url_redacted'' (vs_URLRedacted s) @ opt_string ''declared_sha256'' (vs_DeclaredSHA256 s))"

definition file_value :: "verify_file \<Rightarrow> json" where
  "file_value f = JObj ([(''path'', JStr (vf_Path f)), (''size'', JNum (itoa (vf_Size f)))] @
     opt_string ''sha256'' (vf_SHA256 f) @ opt_string ''etag'' (vf_ETag f))"

definition sidecar_value :: "sidecar \<Rightarrow> json" where
  "sidecar_value s = JObj ([(''version'', JNum (itoa (sd_Version s))), (''source'', source_value (sd_Source s)),
     (''files'', JArr (map file_value (sd_Files s)))] @ opt_string ''engine_path'' (sd_EnginePath s) @
     [(''completed_at'', JStr (sd_CompletedAt s))])"

section \<open>Reading, writing and removing a record (sidecar.go)\<close>

text \<open>A path as a directory and a name, as \<open>AtomicFile\<close> has them.\<close>

definition at :: "string \<Rightarrow> path" where "at p = (path_dir p, path_base p)"

definition verify_Read ::
  "(path \<Rightarrow> bool) \<Rightarrow> (string \<Rightarrow> bool) \<Rightarrow> string \<Rightarrow> fs \<Rightarrow> sidecar option" where
  "verify_Read read_err time_ok p fs =
     (case read_file read_err (at p) fs of
        Inl e \<Rightarrow> None
      | Inr d \<Rightarrow>
          (case decode_sidecar time_ok d of
             None \<Rightarrow> None
           | Some s \<Rightarrow> if sd_Version s \<noteq> SchemaVersion then None else Some s))"

definition record_put :: "io_plan \<Rightarrow> path \<Rightarrow> string \<Rightarrow> fs \<Rightarrow> io_run" where
  "record_put io p d fs =
     io_then (os_mkdir_all io fs) (\<lambda>fs. io_then (os_open_trunc io (tmp_of p) fs) (\<lambda>fs.
       io_then
         (io_or_else
           (io_then (write_bytes io (tmp_of p) d fs) (\<lambda>fs. io_then (check (io_sync io) SyncError fs)
              (check (io_close io) CloseError)))
           (os_remove io (tmp_of p)))
         (\<lambda>fs. io_or_else (os_rename io (tmp_of p) p fs) (os_remove io (tmp_of p)))))"

definition stamped :: "string \<Rightarrow> sidecar \<Rightarrow> sidecar" where
  "stamped now s =
     s\<lparr>sd_Version := SchemaVersion, sd_CompletedAt := (if sd_CompletedAt s = [] then now else sd_CompletedAt s)\<rparr>"

definition verify_Write :: "io_plan \<Rightarrow> string \<Rightarrow> string \<Rightarrow> sidecar \<Rightarrow> fs \<Rightarrow> io_run" where
  "verify_Write io now p s fs = record_put io (at p) (json_indent 0 (sidecar_value (stamped now s))) fs"

definition verify_Remove :: "io_plan \<Rightarrow> string \<Rightarrow> fs \<Rightarrow> io_run" where
  "verify_Remove io p fs =
     (case os_remove io (at p) fs of (e, tr) \<Rightarrow> (if e = Some NotExist then None else e, tr))"

lemma io_then_assoc:
  assumes "\<And>fs. snd (f fs) \<noteq> []"
  shows "io_then (io_then r f) g = io_then r (\<lambda>fs. io_then (f fs) g)"
proof (cases r)
  case (Pair e tr)
  then show ?thesis
    using assms [of "last tr"]
    by (cases e; cases "f (last tr)"; cases "fst (f (last tr))") (auto simp: io_then_def split: prod.splits)
qed

lemma io_then_last:
  assumes "io_then r k = (None, tr)" "\<And>fs. snd (k fs) \<noteq> []"
  shows "\<exists>fs tr'. k fs = (None, tr') \<and> last tr = last tr'"
proof -
  obtain tr1 e tr2 where "r = (None, tr1)" "k (last tr1) = (e, tr2)" "e = None" "tr = tr1 @ tr2"
    using assms(1) by (cases r; cases "fst r") (auto simp: io_then_def split: prod.splits)
  moreover have "tr2 \<noteq> []" using calculation(2) assms(2) [of "last tr1"] by simp
  ultimately show ?thesis by auto
qed

definition filled_tmp :: "io_plan \<Rightarrow> path \<Rightarrow> string \<Rightarrow> fs \<Rightarrow> io_run" where
  "filled_tmp io p d fs =
     io_or_else
       (io_then (write_bytes io (tmp_of p) d fs) (\<lambda>fs. io_then (check (io_sync io) SyncError fs)
          (check (io_close io) CloseError)))
       (os_remove io (tmp_of p))"

lemma record_put_filled:
  "record_put io p d fs =
     io_then (os_mkdir_all io fs) (\<lambda>fs. io_then (os_open_trunc io (tmp_of p) fs) (\<lambda>fs.
       io_then (filled_tmp io p d fs)
         (\<lambda>fs. io_or_else (os_rename io (tmp_of p) p fs) (os_remove io (tmp_of p)))))"
  by (simp add: record_put_def filled_tmp_def)

lemma filled_tmp_touches: "touches {tmp_of p} (filled_tmp io p d fs) fs"
  unfolding filled_tmp_def by (intro touches_intros) simp_all

lemma filled_tmp_ok:
  assumes "filled_tmp io p d fs = (None, tr)"
  shows "last tr (tmp_of p) = Some d"
proof -
  obtain e tr1 where w: "write_bytes io (tmp_of p) d fs = (e, tr1)" by fastforce
  have "e = None" using assms w by (auto simp: filled_tmp_def io_or_else_def io_then_def split: option.splits)
  then show ?thesis
    using assms w write_bytes_ok [of io "tmp_of p" d fs tr1]
    by (auto simp: filled_tmp_def io_or_else_def io_then_def check_def split: if_splits)
qed

lemma trace_nonempty:
  "touches Q r fs \<Longrightarrow> snd r \<noteq> []"
  by (simp add: touches_def)

interpretation vrec: atomic_write record_put
proof
  fix io p d
  let ?fill = "\<lambda>fs. io_then (os_open_trunc io (tmp_of p) fs) (filled_tmp io p d)"
  let ?prep = "\<lambda>fs. io_then (os_mkdir_all io fs) ?fill"
  let ?mv = "\<lambda>fs. io_or_else (os_rename io (tmp_of p) p fs) (os_remove io (tmp_of p))"
  have fill: "touches {tmp_of p} (?fill fs) fs" for fs
    by (intro touches_intros filled_tmp_touches) simp
  show "replaces (record_put io p d) p d"
  proof (rule replaces_tmp_rename [where prep = ?prep and clean = "os_remove io (tmp_of p)" and io = io])
    fix fs
    show "touches {tmp_of p} (?prep fs) fs" by (intro touches_then fill) simp
    show "touches {tmp_of p} (None, fs # snd (os_remove io (tmp_of p) fs)) fs"
      by (intro touches_Cons touches_intros) simp
    have "io_then (?prep fs) ?mv = io_then (os_mkdir_all io fs) (\<lambda>fs. io_then (?fill fs) ?mv)"
      by (rule io_then_assoc) (use fill trace_nonempty in blast)
    also have "(\<lambda>fs. io_then (?fill fs) ?mv) =
        (\<lambda>fs. io_then (os_open_trunc io (tmp_of p) fs) (\<lambda>fs. io_then (filled_tmp io p d fs) ?mv))"
      by (rule ext, rule io_then_assoc) (use filled_tmp_touches trace_nonempty in blast)
    finally show "record_put io p d fs = io_then (?prep fs) ?mv"
      by (simp only: record_put_filled)
    fix tr
    assume "?prep fs = (None, tr)"
    then obtain fs1 tr1 where "?fill fs1 = (None, tr1)" "last tr = last tr1"
      using io_then_last [of _ ?fill] fill trace_nonempty by blast
    moreover obtain fs2 tr2 where "filled_tmp io p d fs2 = (None, tr2)" "last tr1 = last tr2"
      using calculation io_then_last [of _ "filled_tmp io p d"] filled_tmp_touches trace_nonempty by blast
    ultimately show "last tr (tmp_of p) = Some d"
      using filled_tmp_ok by simp
  qed
next
  fix p d fs
  show "fst (record_put fault_free p d fs) = None"
    by (simp add: record_put_def io_then_def io_or_else_def os_open_trunc_def
        write_bytes_def os_rename_def os_mkdir_all_def check_def fault_free_def)
qed

section \<open>Checking what is on disk (check.go)\<close>

datatype verify_level = LevelSize | LevelSHA256 | LevelRemote

fun level_name :: "verify_level \<Rightarrow> string" where
  "level_name LevelSize = ''size''"
| "level_name LevelSHA256 = ''sha256''"
| "level_name LevelRemote = ''remote''"

definition HashesLocally :: "verify_level \<Rightarrow> bool" where
  "HashesLocally l \<longleftrightarrow> l = LevelSHA256 \<or> l = LevelRemote"

record check_report =
  cr_Files :: nat
  cr_Digest :: nat
  cr_SizeOnly :: nat

text \<open>\<open>v path size sha\<close> is \<open>Verifier.Verify\<close>: \<open>None\<close> when the file is as expected.\<close>

type_synonym 'e verifier = "string \<Rightarrow> int \<Rightarrow> string \<Rightarrow> 'e option"

fun check_files ::
  "'e verifier \<Rightarrow> string \<Rightarrow> verify_level \<Rightarrow> verify_file list \<Rightarrow> check_report \<Rightarrow>
     (string \<times> 'e) option \<times> check_report" where
  "check_files v root level [] rep = (None, rep)"
| "check_files v root level (f # fs) rep =
     (let wantSHA = (if HashesLocally level \<and> vf_SHA256 f \<noteq> [] then vf_SHA256 f else [])
      in case v (path_join [root, vf_Path f]) (vf_Size f) wantSHA of
           Some e \<Rightarrow> (Some (vf_Path f, e), rep)
         | None \<Rightarrow> check_files v root level fs
             (if wantSHA \<noteq> [] then rep\<lparr>cr_Digest := Suc (cr_Digest rep)\<rparr>
              else rep\<lparr>cr_SizeOnly := Suc (cr_SizeOnly rep)\<rparr>))"

datatype 'e check_error = RecordEmpty | FileBad string 'e

definition CheckLocal ::
  "'e verifier \<Rightarrow> string \<Rightarrow> verify_level \<Rightarrow> sidecar \<Rightarrow> 'e check_error option \<times> check_report" where
  "CheckLocal v root level s =
     (let rep = \<lparr>cr_Files = length (sd_Files s), cr_Digest = 0, cr_SizeOnly = 0\<rparr>
      in if sd_Files s = [] then (Some RecordEmpty, rep)
         else case check_files v root level (sd_Files s) rep of
                (None, rep) \<Rightarrow> (None, rep)
              | (Some (p, e), rep) \<Rightarrow> (Some (FileBad p e), rep))"

definition source_Equal :: "verify_source \<Rightarrow> verify_source \<Rightarrow> bool" where
  "source_Equal s t \<longleftrightarrow>
     vs_Kind s = vs_Kind t \<and> vs_Repo s = vs_Repo t \<and> vs_Revision s = vs_Revision t \<and>
     vs_Endpoint s = vs_Endpoint t \<and> vs_Subdir s = vs_Subdir t \<and> vs_URLSHA256 s = vs_URLSHA256 t \<and>
     vs_DeclaredSHA256 s = vs_DeclaredSHA256 t \<and> vs_Include s = vs_Include t \<and> vs_Exclude s = vs_Exclude t"

text \<open>What \<open>Fingerprint\<close> hashes; the fingerprint is the first twelve digits of the hash.\<close>

definition terminated :: "string \<Rightarrow> string" where "terminated s = s @ [CHR 0x00]"

definition fingerprint_list :: "string list \<Rightarrow> string" where
  "fingerprint_list xs = concat (map terminated xs) @ [CHR 0x01]"

definition fingerprint_input :: "verify_source \<Rightarrow> string" where
  "fingerprint_input s =
     concat (map terminated [vs_Kind s, vs_Repo s, vs_Revision s, vs_Endpoint s, vs_Subdir s,
       vs_URLSHA256 s, vs_DeclaredSHA256 s]) @
     fingerprint_list (vs_Include s) @ fingerprint_list (vs_Exclude s)"

definition Fingerprint :: "(string \<Rightarrow> string) \<Rightarrow> verify_source \<Rightarrow> string" where
  "Fingerprint hash s = take 12 (hash (fingerprint_input s))"

section \<open>Identities and reuse (lifecycle/sidecar.go)\<close>

definition urlSidecarSuffix :: string where "urlSidecarSuffix = ''.llm-init.json''"
definition hfSidecarDir :: string where "hfSidecarDir = ''.llm-init''"

definition level_of :: "string \<Rightarrow> verify_level option" where
  "level_of s = find (\<lambda>l. level_name l = s) [LevelSize, LevelSHA256, LevelRemote]"

text \<open>\<open>VERIFY_LEVEL\<close> and the level of one pass.\<close>

definition passLevel :: "string \<Rightarrow> retry_options \<Rightarrow> verify_level" where
  "passLevel verifyLevel opts =
     (case level_of (ro_Level opts) of
        Some l \<Rightarrow> l
      | None \<Rightarrow> if verifyLevel = ''sha256'' then LevelSHA256 else LevelSize)"

text \<open>What the code takes from other packages here: the hash of a string, and \<open>recordable\<close>, which is
  \<open>url.Parse\<close>, the removal of user, query and fragment, and \<open>String\<close>; an unparsable URL gives the
  empty string.\<close>

record verify_lib =
  vl_hash :: "string \<Rightarrow> string"
  vl_recordable :: "string \<Rightarrow> string"
  vl_time_ok :: "string \<Rightarrow> bool"

definition urlSourceIdentity :: "verify_lib \<Rightarrow> model_source \<Rightarrow> verify_source" where
  "urlSourceIdentity L ms =
     zero_verify_source\<lparr>vs_Kind := (if ms_Kind ms = KindOllamaURL then ''ollama-url'' else ''url''),
       vs_URLSHA256 := vl_hash L (ms_URL ms), vs_URLRedacted := vl_recordable L (ms_URL ms),
       vs_DeclaredSHA256 := ms_URLSha256 ms\<rparr>"

definition hfSourceIdentity :: "string \<Rightarrow> model_source \<Rightarrow> verify_source" where
  "hfSourceIdentity endpoint ms =
     zero_verify_source\<lparr>vs_Kind := ''hf'', vs_Repo := ms_HFRepo ms, vs_Revision := ms_HFRevision ms,
       vs_Endpoint := endpoint, vs_Include := ms_HFInclude ms, vs_Exclude := ms_HFExclude ms,
       vs_Subdir := ms_HFSubdir ms\<rparr>"

definition hfSidecarPath :: "verify_lib \<Rightarrow> string \<Rightarrow> string \<Rightarrow> string \<Rightarrow> verify_source \<Rightarrow> string" where
  "hfSidecarPath L cacheRoot repo sha src =
     path_join [HFRepoCacheDir cacheRoot repo, hfSidecarDir,
       sha @ ''-'' @ Fingerprint (vl_hash L) src @ ''.json'']"

text \<open>The part both reuse decisions share: the record is there, names this request, and its files are as
  it says.\<close>

definition record_hit ::
  "'e verifier \<Rightarrow> string \<Rightarrow> verify_level \<Rightarrow> verify_source \<Rightarrow> sidecar option \<Rightarrow> sidecar option" where
  "record_hit v root level want found =
     (case found of
        None \<Rightarrow> None
      | Some sc \<Rightarrow>
          if \<not> source_Equal (sd_Source sc) want then None
          else if fst (CheckLocal v root level sc) \<noteq> None then None
          else Some sc)"

definition relativeEnginePath :: "string \<Rightarrow> string \<Rightarrow> string" where
  "relativeEnginePath snapshot resolved =
     (if resolved = [] \<or> resolved = snapshot then []
      else if path_clean resolved = path_clean snapshot then ''.''
      else case cut_prefix (path_clean resolved) (path_clean snapshot @ ''/'') of
             Some rel \<Rightarrow> if has_prefix rel ''..'' then [] else rel
           | None \<Rightarrow> [])"

text \<open>The files of a snapshot with their sizes, and the name of the blob a link points at.\<close>

definition snapshot_file :: "string \<times> int \<times> string option \<Rightarrow> verify_file" where
  "snapshot_file e =
     (case e of (rel, n, blob) \<Rightarrow>
        \<lparr>vf_Path = rel, vf_Size = n,
         vf_SHA256 = (case blob of Some b \<Rightarrow> if isLowerHex b 64 then b else [] | None \<Rightarrow> []), vf_ETag = []\<rparr>)"

definition scanHFSnapshot ::
  "(string \<times> int \<times> string option) list \<Rightarrow> model_source \<Rightarrow> string \<Rightarrow> verify_file list" where
  "scanHFSnapshot listing ms enginePath =
     (let everything = map snapshot_file listing;
          mine = filter (\<lambda>f. vf_Path f = enginePath \<or>
                   MatchPatterns (vf_Path f) (ms_HFInclude ms) (ms_HFExclude ms)) everything
      in if mine = [] then everything else mine)"

definition isResolvedCommit :: "string \<Rightarrow> bool" where "isResolvedCommit s = isLowerHex s 40"

section \<open>The path the engine loads (hf_engine_path.go)\<close>

definition hfSnapshotRoot :: "model_source \<Rightarrow> string \<Rightarrow> string" where
  "hfSnapshotRoot ms downloadPath = (if length (ms_HFInclude ms) = 1 then path_dir downloadPath else downloadPath)"

text \<open>\<open>stat p\<close>: \<open>None\<close> when there is nothing, else whether it is a directory.\<close>

definition resolveHFEnginePath :: "(string \<Rightarrow> bool option) \<Rightarrow> model_source \<Rightarrow> string \<Rightarrow> string + string" where
  "resolveHFEnginePath stat ms resPath =
     (if resPath = [] then
        (if ms_HFSubdir ms \<noteq> [] then Inl ''hf engine path: empty download path'' else Inr [])
      else if ms_HFSubdir ms = [] then Inr resPath
      else let out = path_join [hfSnapshotRoot ms resPath, ms_HFSubdir ms]
        in case stat out of
             None \<Rightarrow> Inl ''hf subdir not found under snapshot''
           | Some dir \<Rightarrow> if dir then Inr out else Inl ''hf subdir is not a directory under snapshot'')"

section \<open>Has the upstream moved? (drift.go)\<close>

datatype drift_verdict = DriftNone | DriftFound | DriftUnknown

fun metricResult :: "drift_verdict \<Rightarrow> string" where
  "metricResult DriftFound = ''drift''"
| "metricResult DriftUnknown = ''drift_unknown''"
| "metricResult DriftNone = ''ok''"

definition etagIdentity :: "string \<Rightarrow> string" where
  "etagIdentity tag = trim_prefix (trim_space tag) ''W/''"

text \<open>\<open>probe\<close> is what \<open>fetch.Probe\<close> returns.\<close>

definition checkURLDrift :: "'e + (int \<times> string) \<Rightarrow> sidecar \<Rightarrow> drift_verdict" where
  "checkURLDrift probe sc =
     (case sd_Files sc of
        [] \<Rightarrow> DriftUnknown
      | rec # _ \<Rightarrow>
          (case probe of
             Inl e \<Rightarrow> DriftUnknown
           | Inr (n, etag) \<Rightarrow>
               if vf_ETag rec \<noteq> [] \<and> etag \<noteq> [] then
                 (if etagIdentity (vf_ETag rec) \<noteq> etagIdentity etag then DriftFound else DriftNone)
               else if n > 0 \<and> vf_Size rec > 0 then
                 (if n \<noteq> vf_Size rec then DriftFound else DriftUnknown)
               else DriftUnknown))"

text \<open>Of entries with one path the last one counts, as in the map the code builds.\<close>

definition upstream_entry :: "tree_entry list \<Rightarrow> string \<Rightarrow> tree_entry option" where
  "upstream_entry entries p = find (\<lambda>e. te_Path e = p) (rev entries)"

definition file_moved :: "tree_entry list \<Rightarrow> verify_file \<Rightarrow> bool" where
  "file_moved entries f =
     (case upstream_entry entries (vf_Path f) of
        None \<Rightarrow> True
      | Some up \<Rightarrow>
          if vf_SHA256 f \<noteq> [] \<and> te_SHA256 up \<noteq> [] then vf_SHA256 f \<noteq> te_SHA256 up
          else te_Size up > 0 \<and> vf_Size f > 0 \<and> te_Size up \<noteq> vf_Size f)"

definition checkHFDrift :: "hub \<Rightarrow> hub_config \<Rightarrow> sidecar \<Rightarrow> drift_verdict" where
  "checkHFDrift hub cfg sc =
     (if sd_Files sc = [] then DriftUnknown
      else case RepoTree hub cfg of
             Inl e \<Rightarrow> DriftUnknown
           | Inr (entries, commit) \<Rightarrow>
               if list_ex (file_moved entries) (sd_Files sc) then DriftFound else DriftNone)"

text \<open>The banner texts are UTF-8.\<close>

definition utf8 :: "nat list \<Rightarrow> string" where "utf8 = map char_of"

definition note_unfinished :: "string \<Rightarrow> string" where
  "note_unfinished what =
     utf8 [232,191,156,231,171,175,229,164,141,230,160,184,230,156,170,229,174,140,230,136,144,239,188,136] @
     what @ utf8 [239,188,137,239,188,154,228,191,157,231,149,153,230,156,172,229,156,176,230,168,161,229,158,139]"

definition note_moved :: "string \<Rightarrow> string" where
  "note_moved what =
     utf8 [228,184,138,230,184,184,229,183,178,229,143,152,230,155,180,239,188,136] @ what @
     utf8 [239,188,137,239,188,154,230,156,172,229,156,176,230,168,161,229,158,139,228,191,157,230,140,129,
       228,184,141,229,143,152,239,188,140,233,156,128,232,166,129,232,183,159,233,154,143,232,175,183,
       232,174,190] @ '' VERIFY_ON_DRIFT=follow''"

definition note_separator :: string where "note_separator = utf8 [239,188,155]"

text \<open>The verdicts of a pass by source, and what they were last rendered to.\<close>

record drift_notes =
  dn_notes :: "(string \<times> string) list"
  dn_rendered :: string

definition render_notes :: "(string \<times> string) list \<Rightarrow> string" where
  "render_notes notes =
     join_with note_separator (map (\<lambda>k. the (map_of notes k)) (sort (map fst notes)))"

definition put_note :: "string \<Rightarrow> string \<Rightarrow> (string \<times> string) list \<Rightarrow> (string \<times> string) list" where
  "put_note what txt notes =
     (if txt = [] then filter (\<lambda>p. fst p \<noteq> what) notes else obj_put what txt notes)"

text \<open>The notes after one verdict, and the banner after it.\<close>

definition setDriftNote :: "string \<Rightarrow> string \<Rightarrow> drift_notes \<times> string \<Rightarrow> drift_notes \<times> string" where
  "setDriftNote what txt st =
     (case st of (d, banner) \<Rightarrow>
        let notes = put_note what txt (dn_notes d); rendered = render_notes notes
        in (\<lparr>dn_notes = notes, dn_rendered = rendered\<rparr>,
            if rendered = [] \<and> banner \<noteq> dn_rendered d then banner else rendered))"

text \<open>Whether the local copy may be reused; \<open>follow\<close> is \<open>VERIFY_ON_DRIFT=follow\<close>.\<close>

definition resolveDrift ::
  "bool \<Rightarrow> string \<Rightarrow> drift_verdict \<Rightarrow> drift_notes \<times> string \<Rightarrow> bool \<times> drift_notes \<times> string" where
  "resolveDrift follow what v st =
     (case v of
        DriftNone \<Rightarrow> (True, setDriftNote what [] st)
      | DriftUnknown \<Rightarrow> (True, setDriftNote what (note_unfinished what) st)
      | DriftFound \<Rightarrow> if follow then (False, st) else (True, setDriftNote what (note_moved what) st))"

section \<open>Lemmas\<close>

lemma upto_zero:
  "x @ CHR 0x00 # a = y @ CHR 0x00 # b \<Longrightarrow> CHR 0x00 \<notin> set x \<Longrightarrow> CHR 0x00 \<notin> set y \<Longrightarrow> x = y \<and> a = b"
proof (induction x arbitrary: y)
  case Nil
  then show ?case by (cases y) auto
next
  case (Cons c x)
  then show ?case by (cases y) auto
qed

text \<open>Values of the environment hold no NUL; the code's own markers are \<open>0\<close> and \<open>1\<close>.\<close>

definition unmarked :: "string \<Rightarrow> bool" where
  "unmarked s \<longleftrightarrow> CHR 0x00 \<notin> set s \<and> CHR 0x01 \<notin> set s"

definition source_unmarked :: "verify_source \<Rightarrow> bool" where
  "source_unmarked s \<longleftrightarrow>
     list_all unmarked ([vs_Kind s, vs_Repo s, vs_Revision s, vs_Endpoint s, vs_Subdir s, vs_URLSHA256 s,
       vs_DeclaredSHA256 s] @ vs_Include s @ vs_Exclude s)"

lemma fingerprint_list_inject:
  "fingerprint_list xs @ r = fingerprint_list ys @ r' \<Longrightarrow> list_all unmarked xs \<Longrightarrow> list_all unmarked ys \<Longrightarrow>
     xs = ys \<and> r = r'"
proof (induction xs arbitrary: ys)
  case Nil
  then show ?case
    by (cases ys; cases "hd ys") (auto simp: fingerprint_list_def terminated_def unmarked_def Cons_eq_append_conv)
next
  case (Cons x xs)
  show ?case
  proof (cases ys)
    case Nil
    then show ?thesis
      using Cons.prems
      by (cases x) (auto simp: fingerprint_list_def terminated_def unmarked_def)
  next
    case (Cons y ys')
    have e: "x @ CHR 0x00 # (fingerprint_list xs @ r) = y @ CHR 0x00 # (fingerprint_list ys' @ r')"
      using Cons.prems(1) local.Cons by (simp add: fingerprint_list_def terminated_def)
    have "x = y \<and> fingerprint_list xs @ r = fingerprint_list ys' @ r'"
      using upto_zero [OF e] Cons.prems local.Cons by (simp add: unmarked_def)
    then show ?thesis using Cons.IH [of ys'] Cons.prems local.Cons by simp
  qed
qed

lemma terminated_inject:
  "concat (map terminated xs) @ a = concat (map terminated ys) @ b \<Longrightarrow> length xs = length ys \<Longrightarrow>
     list_all unmarked xs \<Longrightarrow> list_all unmarked ys \<Longrightarrow> xs = ys \<and> a = b"
proof (induction xs arbitrary: ys)
  case (Cons x xs)
  then obtain y ys' where ys: "ys = y # ys'" by (cases ys) auto
  have e: "x @ CHR 0x00 # (concat (map terminated xs) @ a) = y @ CHR 0x00 # (concat (map terminated ys') @ b)"
    using Cons.prems(1) ys by (simp add: terminated_def [of x] terminated_def [of y])
  have "x = y \<and> concat (map terminated xs) @ a = concat (map terminated ys') @ b"
    using upto_zero [OF e] Cons.prems ys by (simp add: unmarked_def)
  then show ?case using Cons.IH [of ys'] Cons.prems ys by simp
qed simp

lemma check_files_ok:
  "check_files v root level fs rep = (None, rep') \<Longrightarrow>
     list_all (\<lambda>f. v (path_join [root, vf_Path f]) (vf_Size f)
       (if HashesLocally level then vf_SHA256 f else []) = None) fs \<and>
     cr_Files rep' = cr_Files rep \<and>
     cr_Digest rep' = cr_Digest rep +
       (if HashesLocally level then length (filter (\<lambda>f. vf_SHA256 f \<noteq> []) fs) else 0) \<and>
     cr_Digest rep' + cr_SizeOnly rep' = cr_Digest rep + cr_SizeOnly rep + length fs"
proof (induction v root level fs rep rule: check_files.induct)
  case (2 v root level f fs rep)
  define sha where "sha = (if HashesLocally level \<and> vf_SHA256 f \<noteq> [] then vf_SHA256 f else [])"
  have eq: "sha = (if HashesLocally level then vf_SHA256 f else [])" by (simp add: sha_def)
  have v: "v (path_join [root, vf_Path f]) (vf_Size f) sha = None"
    using "2.prems" by (auto simp: sha_def [symmetric] Let_def split: option.splits)
  let ?rep = "if sha \<noteq> [] then rep\<lparr>cr_Digest := Suc (cr_Digest rep)\<rparr> else rep\<lparr>cr_SizeOnly := Suc (cr_SizeOnly rep)\<rparr>"
  have r: "check_files v root level fs ?rep = (None, rep')"
    using "2.prems" v by (simp add: sha_def [symmetric] Let_def)
  note IH = "2.IH" [OF sha_def v r]
  show ?case using IH v eq by (auto split: if_splits)
qed simp

text \<open>What a passed check has established of one file on a file system.\<close>

definition file_checked :: "(string \<Rightarrow> string) \<Rightarrow> (string \<Rightarrow> string option) \<Rightarrow> string \<Rightarrow> verify_level \<Rightarrow> verify_file \<Rightarrow> bool" where
  "file_checked hash files root level f =
     (case files (path_join [root, vf_Path f]) of
        None \<Rightarrow> False
      | Some d \<Rightarrow>
          (vf_Size f \<le> 0 \<or> int (length d) = vf_Size f) \<and>
          (\<not> HashesLocally level \<or> vf_SHA256 f = [] \<or>
           hash d = trim_prefix (map ascii_lower (trim_space (vf_SHA256 f))) ''sha256:''))"

text \<open>\<open>RangeDownloader.Verify\<close> on readable files.\<close>

definition disk_verifier :: "(string \<Rightarrow> string) \<Rightarrow> (string \<Rightarrow> string option) \<Rightarrow> fetch_error verifier" where
  "disk_verifier hash files p n sha =
     verify_download hash (case files p of None \<Rightarrow> Inl (OtherTransport ''no such file'') | Some d \<Rightarrow> Inr d) None n sha"

lemma disk_verifier_ok:
  "disk_verifier hash files (path_join [root, vf_Path f]) (vf_Size f)
     (if HashesLocally level then vf_SHA256 f else []) = None \<longleftrightarrow> file_checked hash files root level f"
  by (auto simp: disk_verifier_def verify_download_def file_checked_def Let_def split: option.splits if_splits)

section \<open>Properties\<close>

text \<open>bytes are reused only when a record names this very request and the files it lists, at least
  one, are there with the recorded lengths, and with the recorded digests where the level hashes.\<close>
theorem reuse_is_checked:
  assumes "record_hit (disk_verifier hash files) root level want found = Some sc"
  shows "found = Some sc \<and> source_Equal (sd_Source sc) want \<and> sd_Files sc \<noteq> [] \<and>
         list_all (file_checked hash files root level) (sd_Files sc)"
proof -
  have sc: "found = Some sc" "source_Equal (sd_Source sc) want"
      "fst (CheckLocal (disk_verifier hash files) root level sc) = None"
    using assms unfolding record_hit_def by (auto split: option.splits if_splits)
  let ?v = "disk_verifier hash files"
  let ?r = "\<lparr>cr_Files = length (sd_Files sc), cr_Digest = 0, cr_SizeOnly = 0\<rparr>"
  have ne: "sd_Files sc \<noteq> []" using sc(3) by (auto simp: CheckLocal_def)
  obtain e rep where cf: "check_files ?v root level (sd_Files sc) ?r = (e, rep)" by fastforce
  have "e = None" using sc(3) ne cf by (cases e) (auto simp: CheckLocal_def)
  then have "list_all (\<lambda>f. ?v (path_join [root, vf_Path f]) (vf_Size f)
      (if HashesLocally level then vf_SHA256 f else []) = None) (sd_Files sc)"
    using check_files_ok [of ?v root level "sd_Files sc" ?r rep] cf by blast
  then show ?thesis using sc(1,2) ne by (simp only: disk_verifier_ok) simp
qed

definition example_record :: sidecar where
  "example_record = zero_sidecar\<lparr>sd_Files :=
     [\<lparr>vf_Path = ''m.gguf'', vf_Size = 2, vf_SHA256 = ''ab'', vf_ETag = []\<rparr>]\<rparr>"

theorem reuse_is_checked_witness:
  "file_checked (\<lambda>_. ''ab'') [''/d/m.gguf'' \<mapsto> ''xy''] ''/d'' LevelSHA256 (hd (sd_Files example_record))"
proof -
  have h: "record_hit (disk_verifier (\<lambda>_. ''ab'') [''/d/m.gguf'' \<mapsto> ''xy'']) ''/d'' LevelSHA256 zero_verify_source
      (Some example_record) = Some example_record"
    by code_simp
  show ?thesis using reuse_is_checked [OF h] by (simp add: example_record_def)
qed

text \<open>the string a record's file name is hashed from tells two requests apart exactly when \<open>Equal\<close>
  does, for values without the two marker bytes.\<close>
theorem fingerprint_names_the_request:
  assumes "source_unmarked s" "source_unmarked t"
  shows "fingerprint_input s = fingerprint_input t \<longleftrightarrow> source_Equal s t"
proof
  let ?parts = "\<lambda>s. [vs_Kind s, vs_Repo s, vs_Revision s, vs_Endpoint s, vs_Subdir s, vs_URLSHA256 s, vs_DeclaredSHA256 s]"
  have u: "list_all unmarked (?parts s)" "list_all unmarked (?parts t)"
      "list_all unmarked (vs_Include s)" "list_all unmarked (vs_Include t)"
      "list_all unmarked (vs_Exclude s)" "list_all unmarked (vs_Exclude t)"
    using assms by (simp_all add: source_unmarked_def)
  assume e: "fingerprint_input s = fingerprint_input t"
  have p: "?parts s = ?parts t \<and>
      fingerprint_list (vs_Include s) @ fingerprint_list (vs_Exclude s) =
      fingerprint_list (vs_Include t) @ fingerprint_list (vs_Exclude t)"
    by (rule terminated_inject [OF e [unfolded fingerprint_input_def] _ u(1,2)]) simp
  have i: "vs_Include s = vs_Include t \<and> fingerprint_list (vs_Exclude s) = fingerprint_list (vs_Exclude t)"
    by (rule fingerprint_list_inject [OF conjunct2 [OF p] u(3,4)])
  have x: "vs_Exclude s = vs_Exclude t"
    using fingerprint_list_inject [of "vs_Exclude s" "[]" "vs_Exclude t" "[]"] i u(5,6) by simp
  show "source_Equal s t" unfolding source_Equal_def using p i x by simp
next
  assume "source_Equal s t"
  then show "fingerprint_input s = fingerprint_input t"
    by (simp add: source_Equal_def fingerprint_input_def)
qed

section \<open>Drift\<close>

text \<open>A sequence of verdicts under \<open>VERIFY_ON_DRIFT=report\<close>, each about one source.\<close>

definition drift_run :: "(string \<times> drift_verdict) list \<Rightarrow> drift_notes \<times> string \<Rightarrow> drift_notes \<times> string" where
  "drift_run vs st = fold (\<lambda>(what, v) st. snd (resolveDrift False what v st)) vs st"

definition no_notes :: drift_notes where "no_notes = \<lparr>dn_notes = [], dn_rendered = []\<rparr>"

fun verdict_text :: "string \<Rightarrow> drift_verdict \<Rightarrow> string option" where
  "verdict_text what DriftNone = None"
| "verdict_text what DriftUnknown = Some (note_unfinished what)"
| "verdict_text what DriftFound = Some (note_moved what)"

definition latest_note :: "(string \<times> drift_verdict) list \<Rightarrow> string \<Rightarrow> string option" where
  "latest_note vs what =
     (case map_of (rev vs) what of None \<Rightarrow> None | Some v \<Rightarrow> verdict_text what v)"

lemma note_texts: "note_moved what \<noteq> []" "note_unfinished what \<noteq> []"
  by (simp_all add: note_moved_def note_unfinished_def utf8_def)

lemma map_of_put_note:
  "map_of (put_note what txt notes) =
     (map_of notes)(what := (if txt = [] then None else Some txt))"
proof -
  have "map_of (filter (\<lambda>p. fst p \<noteq> what) notes) k = (if k = what then None else map_of notes k)" for k
    by (induct "notes") auto
  then show ?thesis by (auto simp: put_note_def fun_eq_iff)
qed

lemma put_note_distinct: "distinct (map fst notes) \<Longrightarrow> distinct (map fst (put_note what txt notes))"
  by (auto simp: put_note_def obj_put_distinct distinct_map_filter simp del: set_map)

lemma resolveDrift_note:
  "snd (resolveDrift False what v st) =
     setDriftNote what (case verdict_text what v of None \<Rightarrow> [] | Some t \<Rightarrow> t) st"
  by (cases v) (simp_all add: resolveDrift_def)

lemma latest_note_snoc:
  "latest_note (vs @ [(what, v)]) = (latest_note vs)(what := verdict_text what v)"
  by (auto simp: latest_note_def fun_eq_iff)

lemma setDriftNote_notes:
  "dn_notes (fst (setDriftNote what txt st)) = put_note what txt (dn_notes (fst st))"
  "dn_rendered (fst (setDriftNote what txt st)) = render_notes (put_note what txt (dn_notes (fst st)))"
  by (auto simp: setDriftNote_def Let_def split: prod.split)

lemma render_one: "render_notes [(what, txt)] = txt" and render_none: "render_notes [] = []"
  by (simp_all add: render_notes_def)

lemma find_sound: "find P xs = Some x \<Longrightarrow> x \<in> set xs \<and> P x"
  by (induction xs) (auto split: if_splits)

text \<open>whatever the order of the verdicts, the notes are for every source name its latest verdict that
  is not a clean one, and the banner is their rendering sorted by name; as long as every verdict was clean
  the banner stays what something else wrote.\<close>
theorem banner_shows_latest_verdicts:
  assumes "drift_run vs (no_notes, banner0) = (d, banner)"
  shows "map_of (dn_notes d) = latest_note vs \<and> distinct (map fst (dn_notes d)) \<and>
         banner = (if list_all (\<lambda>(what, v). v = DriftNone) vs then banner0 else render_notes (dn_notes d))"
proof -
  let ?clean = "\<lambda>vs. list_all (\<lambda>(what, v). v = DriftNone) vs"
  have "map_of (dn_notes d) = latest_note vs \<and> distinct (map fst (dn_notes d)) \<and>
      dn_rendered d = render_notes (dn_notes d) \<and>
      (if ?clean vs then dn_notes d = [] \<and> banner = banner0 else banner = dn_rendered d)"
    using assms
  proof (induction vs arbitrary: d banner rule: rev_induct)
    case Nil
    then show ?case by (auto simp: drift_run_def no_notes_def latest_note_def render_notes_def fun_eq_iff)
  next
    case (snoc x vs)
    obtain what v where x: "x = (what, v)" by fastforce
    obtain d0 b0 where s0: "drift_run vs (no_notes, banner0) = (d0, b0)" by fastforce
    define tx where "tx = (case verdict_text what v of None \<Rightarrow> [] | Some t \<Rightarrow> t)"
    have tx: "(if tx = [] then None else Some tx) = verdict_text what v" "tx = [] \<longleftrightarrow> v = DriftNone"
      by (cases v; simp add: tx_def note_texts)+
    note IH = snoc.IH [OF s0]
    have st: "setDriftNote what tx (d0, b0) = (d, banner)"
      using snoc.prems s0 by (simp add: drift_run_def x resolveDrift_note tx_def)
    have d: "dn_notes d = put_note what tx (dn_notes d0)" "dn_rendered d = render_notes (dn_notes d)"
      using setDriftNote_notes [of what tx "(d0, b0)"] by (simp_all add: st)
    have m: "map_of (dn_notes d) = latest_note (vs @ [x])" "distinct (map fst (dn_notes d))"
      using IH tx(1) by (simp_all add: d x latest_note_snoc map_of_put_note put_note_distinct del: map_map set_map)
    have b: "banner = (if render_notes (dn_notes d) = [] \<and> b0 \<noteq> dn_rendered d0 then b0 else render_notes (dn_notes d))"
      using st d(1) by (auto simp: setDriftNote_def Let_def)
    show ?case
    proof (cases "?clean vs")
      case True
      then have "dn_notes d0 = []" "b0 = banner0" "dn_rendered d0 = []" using IH by (simp_all add: render_notes_def)
      then show ?thesis using True m d b tx(2)
        by (cases v) (simp_all add: x put_note_def render_one render_none)
    next
      case False
      then have "b0 = dn_rendered d0" using IH by simp
      then show ?thesis using False m d b by simp
    qed
  qed
  then show ?thesis by (simp split: if_splits)
qed

theorem banner_shows_latest_verdicts_witness:
  "drift_run [(''b'', DriftFound), (''a'', DriftUnknown), (''b'', DriftNone)] (no_notes, []) =
     (\<lparr>dn_notes = [(''a'', note_unfinished ''a'')], dn_rendered = note_unfinished ''a''\<rparr>, note_unfinished ''a'') \<and>
   latest_note [(''b'', DriftFound), (''a'', DriftUnknown), (''b'', DriftNone)] ''b'' = None"
proof -
  let ?vs = "[(''b'', DriftFound), (''a'', DriftUnknown), (''b'', DriftNone)]"
  have r: "drift_run ?vs (no_notes, []) =
      (\<lparr>dn_notes = [(''a'', note_unfinished ''a'')], dn_rendered = note_unfinished ''a''\<rparr>, note_unfinished ''a'')"
    by (simp add: drift_run_def resolveDrift_def setDriftNote_def no_notes_def put_note_def render_one
        Let_def note_texts)
  have "latest_note ?vs = map_of [(''a'', note_unfinished ''a'')]"
    using banner_shows_latest_verdicts [OF r] by simp
  then show ?thesis using r by simp
qed

text \<open>two sources of one repository share their note: a model whose weights have moved and whose
  projector has not ends with an empty banner.\<close>
theorem same_repository_verdict_retracted:
  "snd (drift_run [(repo, DriftFound), (repo, DriftNone)] (no_notes, [])) = []"
  by (simp add: drift_run_def resolveDrift_def setDriftNote_def no_notes_def put_note_def render_one
      render_notes_def Let_def note_texts)

text \<open>The pages a Hub serves of a listing, each naming the next, the last one naming none.\<close>

fun served :: "hub \<Rightarrow> string \<Rightarrow> string \<Rightarrow> tree_page list \<Rightarrow> bool" where
  "served hub token nxt [] \<longleftrightarrow> nxt = []"
| "served hub token nxt (p # ps) \<longleftrightarrow>
     nxt \<noteq> [] \<and> hub token nxt = Inr p \<and> served hub token (nextTreePage (tp_links p)) ps"

definition served_entries :: "tree_page list \<Rightarrow> tree_entry list" where
  "served_entries ps = concat (map (entries_of \<circ> tp_items) ps)"

lemma tree_loop_served:
  "served hub token nxt ps \<Longrightarrow> length ps \<le> n \<Longrightarrow>
     \<exists>c. tree_loop hub token n nxt es commit = Inr (es @ served_entries ps, c)"
proof (induction ps arbitrary: n nxt es commit)
  case Nil
  then show ?case by (cases n) (auto simp: served_entries_def)
next
  case (Cons p ps)
  then obtain m where n: "n = Suc m" by (cases n) auto
  show ?case
    using Cons.IH [of "nextTreePage (tp_links p)" m "es @ entries_of (tp_items p)"] Cons.prems
    by (simp add: n served_entries_def)
qed

text \<open>The Hub still serves a recorded file: an entry of its path, with its digest, or its length where
  one side has no digest.\<close>

definition serves :: "verify_file \<Rightarrow> tree_entry \<Rightarrow> bool" where
  "serves f e \<longleftrightarrow>
     (if vf_SHA256 f = [] \<or> te_SHA256 e = [] then te_Size e \<le> 0 \<or> vf_Size f \<le> 0 \<or> te_Size e = vf_Size f
      else te_SHA256 e = vf_SHA256 f)"

definition still_served :: "tree_entry list \<Rightarrow> verify_file \<Rightarrow> bool" where
  "still_served entries f \<longleftrightarrow> list_ex (\<lambda>e. te_Path e = vf_Path f \<and> serves f e) entries"

lemma moved_entry_iff:
  "upstream_entry entries (vf_Path f) = Some up \<Longrightarrow> file_moved entries f \<longleftrightarrow> \<not> serves f up"
  by (auto simp: file_moved_def serves_def not_less)

lemma file_moved_iff:
  assumes "distinct (map te_Path entries)"
  shows "file_moved entries f \<longleftrightarrow> \<not> still_served entries f"
proof (cases "upstream_entry entries (vf_Path f)")
  case None
  then have "te_Path e \<noteq> vf_Path f" if "e \<in> set entries" for e
    using that by (auto simp: upstream_entry_def find_None_iff)
  then show ?thesis using None by (auto simp: file_moved_def still_served_def list_ex_iff)
next
  case (Some up)
  then have up: "up \<in> set entries" "te_Path up = vf_Path f"
    using find_sound [of _ "rev entries" up] by (auto simp: upstream_entry_def)
  have "e = up" if "e \<in> set entries" "te_Path e = vf_Path f" for e
    using assms that up by (metis distinct_map inj_onD)
  then have "still_served entries f \<longleftrightarrow> serves f up"
    unfolding still_served_def list_ex_iff using up by blast
  then show ?thesis by (simp add: moved_entry_iff [OF Some])
qed

text \<open>against a Hub that serves a listing of at most a hundred pages, a remote check finds a drift
  exactly when a recorded file is no longer served as recorded; a moved commit alone is none.\<close>
theorem hub_drift_is_a_changed_file:
  assumes "served hub (hc_Token cfg) (tree_url cfg True) ps" "length ps \<le> maxTreePages"
    and "hc_Repo cfg \<noteq> []" "sd_Files sc \<noteq> []" "distinct (map te_Path (served_entries ps))"
  shows "checkHFDrift hub cfg sc =
           (if list_all (still_served (served_entries ps)) (sd_Files sc) then DriftNone else DriftFound)"
proof -
  obtain c where "RepoTree hub cfg = Inr (served_entries ps, c)"
    using tree_loop_served [OF assms(1,2), of "[]" "[]"] assms(3) by (auto simp: RepoTree_def fetchTree_def)
  then show ?thesis
    using assms(4) file_moved_iff [OF assms(5)] by (auto simp: checkHFDrift_def list_ex_iff list_all_iff)
qed

definition example_hub :: hub where
  "example_hub token url =
     (if url = ''http://h/api/models/o/r/tree/main?recursive=true''
      then Inr \<lparr>tp_items = [\<lparr>ti_Path = ''README'', ti_Size = 7, ti_Type = ''file'', ti_LFS = None\<rparr>],
                tp_links = [''<p2>; rel='' @ [CHR 0x22] @ ''next'' @ [CHR 0x22]], tp_commit = ''c''\<rparr>
      else if url = ''p2''
      then Inr \<lparr>tp_items = [\<lparr>ti_Path = ''m.gguf'', ti_Size = 2, ti_Type = ''file'', ti_LFS = Some ''ab''\<rparr>],
                tp_links = [], tp_commit = ''c''\<rparr>
      else Inl ''404'')"

definition example_pages :: "tree_page list" where
  "example_pages =
     [\<lparr>tp_items = [\<lparr>ti_Path = ''README'', ti_Size = 7, ti_Type = ''file'', ti_LFS = None\<rparr>],
       tp_links = [''<p2>; rel='' @ [CHR 0x22] @ ''next'' @ [CHR 0x22]], tp_commit = ''c''\<rparr>,
      \<lparr>tp_items = [\<lparr>ti_Path = ''m.gguf'', ti_Size = 2, ti_Type = ''file'', ti_LFS = Some ''ab''\<rparr>],
       tp_links = [], tp_commit = ''c''\<rparr>]"

theorem hub_drift_is_a_changed_file_witness:
  "checkHFDrift example_hub \<lparr>hc_Repo = ''o/r'', hc_Revision = [], hc_Token = [], hc_Endpoint = ''http://h/''\<rparr>
     example_record = DriftNone"
proof -
  let ?c = "\<lparr>hc_Repo = ''o/r'', hc_Revision = [], hc_Token = [], hc_Endpoint = ''http://h/''\<rparr>"
  have s: "served example_hub (hc_Token ?c) (tree_url ?c True) example_pages" by code_simp
  have e: "served_entries example_pages =
      [\<lparr>te_Path = ''README'', te_Size = 7, te_SHA256 = []\<rparr>, \<lparr>te_Path = ''m.gguf'', te_Size = 2, te_SHA256 = ''ab''\<rparr>]"
    by (simp add: served_entries_def example_pages_def entries_of_def)
  have l: "length example_pages \<le> maxTreePages" by (simp add: example_pages_def maxTreePages_def)
  show ?thesis
    using hub_drift_is_a_changed_file [OF s l, of example_record]
    by (simp add: e example_record_def still_served_def serves_def)
qed

section \<open>The engine path\<close>

text \<open>a source whose only --include names a file in a directory resolves --subdir under that
  directory, not under the snapshot: a model whose onnx directory is complete is refused.\<close>
theorem nested_include_misplaces_subdir:
  assumes "ms_HFInclude ms = [''onnx/m.onnx'']" "ms_HFSubdir ms = ''onnx''"
    and "stat ''/hub/snapshots/abc/onnx'' = Some True" "stat ''/hub/snapshots/abc/onnx/onnx'' = None"
  shows "resolveHFEnginePath stat ms ''/hub/snapshots/abc/onnx/m.onnx'' =
           Inl ''hf subdir not found under snapshot''"
proof -
  have "path_dir ''/hub/snapshots/abc/onnx/m.onnx'' = ''/hub/snapshots/abc/onnx''"
    "path_join [''/hub/snapshots/abc/onnx'', ''onnx''] = ''/hub/snapshots/abc/onnx/onnx''"
    by code_simp+
  then show ?thesis using assms by (simp add: resolveHFEnginePath_def hfSnapshotRoot_def Let_def)
qed

theorem nested_include_misplaces_subdir_witness:
  "resolveHFEnginePath [''/hub/snapshots/abc/onnx'' \<mapsto> True]
     (new_source 1 RoleMain [] \<lparr>ms_HFInclude := [''onnx/m.onnx''], ms_HFSubdir := ''onnx''\<rparr>)
     ''/hub/snapshots/abc/onnx/m.onnx'' = Inl ''hf subdir not found under snapshot''"
  by (rule nested_include_misplaces_subdir) simp_all

theorem fingerprint_names_the_request_witness:
  "fingerprint_input (zero_verify_source\<lparr>vs_Kind := ''hf'', vs_Include := [''a'']\<rparr>) \<noteq>
   fingerprint_input (zero_verify_source\<lparr>vs_Kind := ''hf'', vs_Exclude := [''a'']\<rparr>)"
proof -
  let ?s = "zero_verify_source\<lparr>vs_Kind := ''hf'', vs_Include := [''a'']\<rparr>"
  let ?t = "zero_verify_source\<lparr>vs_Kind := ''hf'', vs_Exclude := [''a'']\<rparr>"
  have u: "source_unmarked ?s" "source_unmarked ?t"
    by (simp_all add: source_unmarked_def unmarked_def zero_verify_source_def)
  show ?thesis using fingerprint_names_the_request [OF u] by (simp add: source_Equal_def zero_verify_source_def)
qed

end
