(* ===== verification/HfRun.thy ===== *)
theory HfRun
  imports Hub Fetch Regex
begin

text \<open>
  The bridge to the \<open>hf\<close> command (\<open>internal/adapter/hfwrap\<close>): its arguments and environment
  (\<open>runner.go\<close>), the reading of its progress bars (\<open>scanner.go\<close>, \<open>labels.go\<close>, \<open>aggregator.go\<close>), the
  classification of its exit (\<open>classify.go\<close>), the watchdog (\<open>watchdog.go\<close>) and \<open>Run\<close> as their composition.
  The subprocess is a parameter: the chunks its standard error delivers, its exit and whether it was
  killed. Floating point is a parameter: the value of a scaled number, and the comparison of a size
  with a printed one.
\<close>

section \<open>Requests and results (runner.go)\<close>

definition CodeOK :: int where "CodeOK = 0"
definition CodeBadArgs :: int where "CodeBadArgs = 20"
definition CodeRepoNotFound :: int where "CodeRepoNotFound = 30"
definition CodeGated :: int where "CodeGated = 31"
definition CodeRevision :: int where "CodeRevision = 32"
definition CodeTokenMissing :: int where "CodeTokenMissing = 33"
definition CodeNetwork :: int where "CodeNetwork = 40"
definition CodeDiskFull :: int where "CodeDiskFull = 50"
definition CodePermission :: int where "CodePermission = 51"
definition CodeInternal :: int where "CodeInternal = 60"
definition CodeProcessKilled :: int where "CodeProcessKilled = - 1"

lemmas code_defs = CodeOK_def CodeBadArgs_def CodeRepoNotFound_def CodeGated_def CodeRevision_def
  CodeTokenMissing_def CodeNetwork_def CodeDiskFull_def CodePermission_def CodeInternal_def
  CodeProcessKilled_def

record hf_config =
  hx_HFExe :: string
  hx_CacheDir :: string
  hx_Repo :: string
  hx_Revision :: string
  hx_AllowPatterns :: "string list"
  hx_ExcludePatterns :: "string list"
  hx_HFFile :: string
  hx_Token :: string
  hx_Endpoint :: string
  hx_MaxWorkers :: int
  hx_ForceReload :: bool
  hx_EnableXet :: bool
  hx_ExtraEnv :: "string list"
  hx_Tree :: "tree_entry list"

record hf_result =
  hr_Path :: string
  hr_Status :: string
  hr_Commit :: string

record hf_error =
  he_Code :: int
  he_Retriable :: bool
  he_Stage :: string
  he_Message :: string

definition hf_error_text :: "hf_error \<Rightarrow> string" where
  "hf_error_text e =
     ''hfwrap exit='' @ itoa (he_Code e) @ '' ('' @ (if he_Retriable e then ''retriable'' else ''permanent'') @
     '') stage='' @ he_Stage e @ '': '' @ he_Message e"

text \<open>What \<open>Run\<close> or the hook in its place returns: a typed error, or another one with its text.\<close>

datatype run_error = HfError hf_error | OtherError string

definition IsRetriable :: "run_error option \<Rightarrow> bool" where
  "IsRetriable err = (case err of Some (HfError e) \<Rightarrow> he_Retriable e | _ \<Rightarrow> False)"

definition buildArgs :: "hf_config \<Rightarrow> string list" where
  "buildArgs cfg =
     (let exactIncludes = (hx_AllowPatterns cfg \<noteq> [] \<and>
            list_all (\<lambda>p. p \<noteq> [] \<and> \<not> list_ex (\<lambda>c. c \<in> set ''*?['') p) (hx_AllowPatterns cfg))
      in [''download'', hx_Repo cfg] @
         (if hx_HFFile cfg \<noteq> [] then [hx_HFFile cfg] else []) @
         (if exactIncludes then hx_AllowPatterns cfg else []) @
         (if hx_CacheDir cfg \<noteq> [] then [''--cache-dir'', hx_CacheDir cfg] else []) @
         (if hx_Revision cfg \<noteq> [] \<and> hx_Revision cfg \<noteq> defaultHFRef then [''--revision'', hx_Revision cfg] else []) @
         (if \<not> exactIncludes
          then concat (map (\<lambda>p. [''--include'', p]) (filter (\<lambda>p. p \<noteq> []) (hx_AllowPatterns cfg))) else []) @
         concat (map (\<lambda>p. [''--exclude'', p]) (filter (\<lambda>p. p \<noteq> []) (hx_ExcludePatterns cfg))) @
         (if hx_MaxWorkers cfg > 0 then [''--max-workers'', itoa (hx_MaxWorkers cfg)] else []) @
         (if hx_ForceReload cfg then [''--force-download''] else []))"

definition buildEnv :: "string list \<Rightarrow> hf_config \<Rightarrow> string list" where
  "buildEnv environ cfg =
     environ @
     (if hx_Token cfg \<noteq> [] then [''HF_TOKEN='' @ hx_Token cfg] else []) @
     (if hx_Endpoint cfg \<noteq> [] then [''HF_ENDPOINT='' @ hx_Endpoint cfg] else []) @
     [''TQDM_POSITION=-1''] @
     (if \<not> hx_EnableXet cfg then [''HF_HUB_DISABLE_XET=1''] else []) @
     hx_ExtraEnv cfg"

definition trimTail :: "string \<Rightarrow> nat \<Rightarrow> string" where
  "trimTail s n = (if length s \<le> n then s else take n s)"

section \<open>The exit of the subprocess (classify.go)\<close>

definition status_re :: "char \<Rightarrow> rx" where
  "status_re d = rx_seq [RBoundary, RSet (\<lambda>c. c = d), RSet is_digit, RSet is_digit, RBoundary]"

definition http5xxRE :: rx where "http5xxRE = status_re (CHR ''5'')"
definition http4xxRE :: rx where "http4xxRE = status_re (CHR ''4'')"

definition contains_any :: "string \<Rightarrow> string list \<Rightarrow> bool" where
  "contains_any s ws = list_ex (contains s) ws"

definition classifyExit :: "int \<Rightarrow> string \<Rightarrow> int \<times> bool" where
  "classifyExit exit tail =
     (if exit = CodeOK then (CodeOK, False)
      else if exit < 0 \<or> exit = CodeProcessKilled then (CodeProcessKilled, True)
      else if contains tail ''RepositoryNotFoundError'' then (CodeRepoNotFound, False)
      else if contains_any tail [''GatedRepoError'', ''Cannot access gated repo''] then (CodeGated, False)
      else if contains tail ''RevisionNotFoundError'' then (CodeRevision, False)
      else if contains_any tail [''LocalTokenNotFoundError'', ''401 Client Error'', ''Invalid credentials'']
        then (CodeTokenMissing, False)
      else if contains_any tail [''ENOSPC'', ''No space left on device''] then (CodeDiskFull, False)
      else if contains_any tail [''EACCES'', ''Permission denied'', ''EROFS'', ''Read-only file system'']
        then (CodePermission, False)
      else if contains_any tail [''ConnectionError'', ''ReadTimeout'', ''Read timed out'', ''ChunkedEncodingError'',
          ''XetDownloadError'', ''Name or service not known'', ''Connection refused'', ''429'']
        then (CodeNetwork, True)
      else if rx_matches http5xxRE tail then (CodeNetwork, True)
      else if rx_matches http4xxRE tail then (CodeInternal, False)
      else if contains_any tail [''unrecognized arguments'', ''no such option'', ''executable file not found'']
        then (CodeBadArgs, False)
      else (CodeNetwork, True))"

section \<open>Which file a bar counts (labels.go)\<close>

text \<open>The prefix is the ellipsis rune in parentheses.\<close>

definition hfLabelTruncPrefix :: string where
  "hfLabelTruncPrefix = [CHR ''('', CHR 0xE2, CHR 0x80, CHR 0xA6, CHR '')'']"

definition after_last_slash :: "string \<Rightarrow> string" where
  "after_last_slash s = rev (takeWhile (\<lambda>c. c \<noteq> CHR ''/'') (rev s))"

definition labelBase :: "string \<Rightarrow> string" where
  "labelBase label =
     (let l = trim_prefix (trim_space label) hfLabelTruncPrefix;
          l = map (\<lambda>c. if c = CHR 0x5C then CHR ''/'' else c) l
      in after_last_slash l)"

text \<open>\<open>close want diff\<close> is the floating-point comparison.\<close>

definition sizeMatchesTQDM :: "(int \<Rightarrow> int \<Rightarrow> bool) \<Rightarrow> int \<Rightarrow> int \<Rightarrow> bool" where
  "sizeMatchesTQDM close want tot =
     (if want \<le> 0 \<or> tot \<le> 0 then False
      else close want (if want - tot < 0 then tot - want else want - tot))"

type_synonym label_index = "string \<Rightarrow> tree_entry list"

definition newLabelIndex :: "tree_entry list \<Rightarrow> label_index option" where
  "newLabelIndex entries =
     (let named = filter (\<lambda>e. te_Path e \<noteq> []) entries
      in if named = [] then None
         else Some (\<lambda>base. filter (\<lambda>e. labelBase (te_Path e) = base) named))"

definition label_lookup ::
  "(int \<Rightarrow> int \<Rightarrow> bool) \<Rightarrow> label_index option \<Rightarrow> string \<Rightarrow> int \<Rightarrow> string option" where
  "label_lookup close ix label tot =
     (case ix of
        None \<Rightarrow> None
      | Some byBase \<Rightarrow>
          if label = [] then None
          else case byBase (labelBase label) of
                 [] \<Rightarrow> None
               | [e] \<Rightarrow> Some (te_Path e)
               | es \<Rightarrow>
                   (case filter (\<lambda>e. sizeMatchesTQDM close (te_Size e) tot) es of
                      [e] \<Rightarrow> Some (te_Path e) | _ \<Rightarrow> None))"

section \<open>Lines of standard error (scanner.go)\<close>

definition line_end :: "char \<Rightarrow> bool" where
  "line_end b \<longleftrightarrow> b = CHR 0x0A \<or> b = CHR 0x0D"

text \<open>The split function: how far to advance and the token; no token asks for more data.\<close>

definition scanLinesOrCR :: "string \<Rightarrow> bool \<Rightarrow> nat \<times> string option" where
  "scanLinesOrCR data atEOF =
     (if atEOF \<and> data = [] then (0, None)
      else let tok = takeWhile (\<lambda>b. \<not> line_end b) data; rest = drop (length tok) data
        in case rest of
             b # cs \<Rightarrow>
               (length tok + 1 + (if b = CHR 0x0D \<and> cs \<noteq> [] \<and> hd cs = CHR 0x0A then 1 else 0), Some tok)
           | [] \<Rightarrow> if atEOF then (length data, Some data) else (0, None))"

text \<open>\<open>\x1b\[[0-9;]*[A-Za-z]\<close>\<close>

definition is_alpha :: "char \<Rightarrow> bool" where
  "is_alpha c \<longleftrightarrow> (let n = of_char c :: nat in (65 \<le> n \<and> n \<le> 90) \<or> (97 \<le> n \<and> n \<le> 122))"

definition hfANSICSIRE :: rx where
  "hfANSICSIRE = rx_seq [rx_lit [CHR 0x1B, CHR ''['']
      , RMany (\<lambda>c. is_digit c \<or> c = CHR '';''), RSet is_alpha]"

definition stripANSIEscapes :: "string \<Rightarrow> string" where
  "stripANSIEscapes s = rx_replace hfANSICSIRE (\<lambda>_. []) None s"

text \<open>\<open>([\d.]+)\s*([kKMGTP]?B?)\<close>\<close>

definition quantity_re :: "nat \<Rightarrow> rx" where
  "quantity_re n = rx_seq [RGroup n (rx_many1 (\<lambda>c. is_digit c \<or> c = CHR ''.'')), RMany rx_space,
     RGroup (Suc n) (rx_seq [rx_opt (RSet (\<lambda>c. c \<in> set ''kKMGTP'')), rx_opt (RSet (\<lambda>c. c = CHR ''B''))])]"

definition hfProgressLineRE :: rx where
  "hfProgressLineRE = rx_seq
     [RMany rx_space,
      rx_opt (rx_seq [RGroup 1 (rx_seq [RSet (\<lambda>c. \<not> rx_space c), RFew (\<lambda>c. c \<noteq> CHR '':'')]),
        rx_lit '':'', rx_many1 rx_space]),
      RGroup 2 (rx_many1 is_digit), rx_lit ''%|'', RMany (\<lambda>c. c \<noteq> CHR ''|''), rx_lit ''|'', RMany rx_space,
      quantity_re 3, RMany rx_space, rx_lit ''/'', RMany rx_space, quantity_re 5, RBoundary]"

definition hfFetchingFilesRE :: rx where
  "hfFetchingFilesRE = rx_seq
     [rx_lit ''Fetching'', rx_many1 rx_space, RGroup 1 (rx_many1 is_digit), rx_many1 rx_space,
      rx_lit ''file'', rx_opt (rx_lit ''s''), RBoundary]"

definition ascii_upper :: "char \<Rightarrow> char" where
  "ascii_upper c = (let n = of_char c :: nat in if 97 \<le> n \<and> n \<le> 122 then char_of (n - 32) else c)"

definition hfUnitMultiplier :: "string \<Rightarrow> int" where
  "hfUnitMultiplier u =
     (let u = map ascii_upper (if has_suffix u ''B'' then butlast u else u)
      in if u = ''K'' then 10 ^ 3 else if u = ''M'' then 10 ^ 6 else if u = ''G'' then 10 ^ 9
         else if u = ''T'' then 10 ^ 12 else if u = ''P'' then 10 ^ 15 else 1)"

definition hfIsOuterAggregateLabel :: "string \<Rightarrow> bool" where
  "hfIsOuterAggregateLabel label \<longleftrightarrow> rx_submatch hfFetchingFilesRE (trim_space label) \<noteq> None"

definition parseFetchingFilesCount :: "string \<Rightarrow> int option" where
  "parseFetchingFilesCount raw =
     (case rx_submatch hfFetchingFilesRE (trim_space (stripANSIEscapes raw)) of
        None \<Rightarrow> None
      | Some gs \<Rightarrow>
          (case atoi (rx_group 1 gs) of None \<Rightarrow> None | Some n \<Rightarrow> if n \<le> 0 then None else Some n))"

record hf_progress_event =
  ev_Label :: string
  ev_Downloaded :: int
  ev_Total :: int
  ev_Percent :: int

text \<open>\<open>scale num mult\<close> is the parsed number times the multiplier, cut to an int64. An out-of-range
  percentage is the nearest bound, as \<open>Atoi\<close> returns it.\<close>

definition parseHFProgressLine :: "(string \<Rightarrow> int \<Rightarrow> int) \<Rightarrow> string \<Rightarrow> hf_progress_event option" where
  "parseHFProgressLine scale raw =
     (case rx_submatch hfProgressLineRE (stripANSIEscapes raw) of
        None \<Rightarrow> None
      | Some gs \<Rightarrow>
          Some \<lparr>ev_Label = trim_space (rx_group 1 gs),
                ev_Downloaded = scale (rx_group 3 gs) (hfUnitMultiplier (rx_group 4 gs)),
                ev_Total = scale (rx_group 5 gs) (hfUnitMultiplier (rx_group 6 gs)),
                ev_Percent = (case atoi (rx_group 2 gs) of Some n \<Rightarrow> n | None \<Rightarrow> 2 ^ 63 - 1)\<rparr>)"

section \<open>Bars to files (aggregator.go)\<close>

record agg_file =
  af_path :: string
  af_downloaded :: int
  af_total :: int
  af_started :: bool
  af_completed :: bool

record agg =
  ag_tree :: "label_index option"
  ag_byPath :: "string \<Rightarrow> agg_file option"
  ag_byLabel :: "string \<Rightarrow> agg_file option"
  ag_aggBytes :: int
  ag_aggTotal :: int

definition NewAggregator :: "tree_entry list \<Rightarrow> agg" where
  "NewAggregator tree =
     \<lparr>ag_tree = newLabelIndex tree, ag_byPath = Map.empty, ag_byLabel = Map.empty, ag_aggBytes = 0, ag_aggTotal = 0\<rparr>"

definition new_file :: "string \<Rightarrow> agg_file" where
  "new_file p = \<lparr>af_path = p, af_downloaded = 0, af_total = 0, af_started = False, af_completed = False\<rparr>"

definition isNextBar :: "agg_file \<Rightarrow> hf_progress_event \<Rightarrow> bool" where
  "isNextBar fs ev =
     (if ev_Downloaded ev < af_downloaded fs then True
      else af_completed fs \<and> ev_Total ev > 0 \<and> ev_Total ev \<noteq> af_total fs)"

text \<open>The state a line belongs to and where it is kept.\<close>

datatype slot = ByPath string | ByLabel string

definition route :: "(int \<Rightarrow> int \<Rightarrow> bool) \<Rightarrow> agg \<Rightarrow> hf_progress_event \<Rightarrow> slot \<times> agg_file" where
  "route close a ev =
     (case label_lookup close (ag_tree a) (ev_Label ev) (ev_Total ev) of
        Some p \<Rightarrow> (ByPath p, case ag_byPath a p of None \<Rightarrow> new_file p | Some fs \<Rightarrow> fs)
      | None \<Rightarrow>
          (ByLabel (ev_Label ev),
           case ag_byLabel a (ev_Label ev) of
             None \<Rightarrow> new_file (ev_Label ev)
           | Some fs \<Rightarrow> if isNextBar fs ev then new_file (ev_Label ev) else fs))"

definition put_slot :: "slot \<Rightarrow> agg_file \<Rightarrow> agg \<Rightarrow> agg" where
  "put_slot sl fs a =
     (case sl of
        ByPath p \<Rightarrow> a\<lparr>ag_byPath := (ag_byPath a)(p \<mapsto> fs)\<rparr>
      | ByLabel l \<Rightarrow> a\<lparr>ag_byLabel := (ag_byLabel a)(l \<mapsto> fs)\<rparr>)"

text \<open>The three parts of a tick: start, bytes, completion; each gives the calls of the sink. The sink
  takes bytes per file.\<close>

definition tick_start :: "hf_progress_event \<Rightarrow> agg_file \<Rightarrow> agg_file \<times> int \<times> sink_event list" where
  "tick_start ev fs =
     (if \<not> af_started fs then
        (fs\<lparr>af_started := True, af_total := ev_Total ev\<rparr>, (if ev_Total ev > 0 then ev_Total ev else 0),
         [EvFileStart (af_path fs) (ev_Total ev)])
      else if ev_Total ev > af_total fs \<and> ev_Total ev > 0 then
        (fs\<lparr>af_total := ev_Total ev\<rparr>, ev_Total ev - af_total fs,
         [EvFileStart (af_path fs) (ev_Total ev - af_total fs)])
      else (fs, 0, []))"

definition tick_bytes :: "hf_progress_event \<Rightarrow> agg_file \<Rightarrow> agg_file \<times> int \<times> sink_event list" where
  "tick_bytes ev fs =
     (if ev_Downloaded ev > af_downloaded fs then
        (fs\<lparr>af_downloaded := ev_Downloaded ev\<rparr>, ev_Downloaded ev - af_downloaded fs,
         [EvFileBytes (af_path fs) (ev_Downloaded ev - af_downloaded fs)])
      else (fs, 0, []))"

definition tick_done :: "agg_file \<Rightarrow> agg_file \<times> sink_event list" where
  "tick_done fs =
     (if \<not> af_completed fs \<and> af_total fs > 0 \<and> af_downloaded fs \<ge> af_total fs
      then (fs\<lparr>af_completed := True\<rparr>, [EvFileDone (af_path fs)]) else (fs, []))"

definition tick :: "hf_progress_event \<Rightarrow> agg_file \<Rightarrow> agg_file \<times> int \<times> int \<times> sink_event list" where
  "tick ev fs =
     (case tick_start ev fs of (fs, dt, e1) \<Rightarrow>
        case tick_bytes ev fs of (fs, db, e2) \<Rightarrow>
          case tick_done fs of (fs, e3) \<Rightarrow> (fs, dt, db, e1 @ e2 @ e3))"

definition OnProgress ::
  "(int \<Rightarrow> int \<Rightarrow> bool) \<Rightarrow> hf_progress_event \<Rightarrow> agg \<Rightarrow> agg \<times> sink_event list" where
  "OnProgress close ev a =
     (if ev_Label ev = [] then (a, [])
      else if hfIsOuterAggregateLabel (ev_Label ev) then
        (a, case parseFetchingFilesCount (ev_Label ev) of
              Some n \<Rightarrow> [EvFilesTotal n]
            | None \<Rightarrow> if ev_Total ev > 0 then [EvFilesTotal (ev_Total ev)] else [])
      else case route close a ev of (sl, fs) \<Rightarrow>
             case tick ev fs of (fs, dt, db, evs) \<Rightarrow>
               (put_slot sl fs (a\<lparr>ag_aggTotal := wrap64 (ag_aggTotal a + dt),
                                  ag_aggBytes := wrap64 (ag_aggBytes a + db)\<rparr>), evs))"

definition flush_file :: "agg_file \<Rightarrow> agg_file" where
  "flush_file fs = (if af_started fs \<and> \<not> af_completed fs then fs\<lparr>af_completed := True\<rparr> else fs)"

definition FlushIncomplete :: "agg \<Rightarrow> agg" where
  "FlushIncomplete a =
     a\<lparr>ag_byPath := map_option flush_file \<circ> ag_byPath a, ag_byLabel := map_option flush_file \<circ> ag_byLabel a\<rparr>"

section \<open>The pump (runner.go)\<close>

definition maxTokenSize :: nat where "maxTokenSize = 1048576"

text \<open>The tokens a buffer gives before more data is needed, and what stays in it.\<close>

lemma scanLinesOrCR_advance:
  "scanLinesOrCR data False = (n, Some t) \<Longrightarrow> 0 < n \<and> data \<noteq> []"
  by (auto simp: scanLinesOrCR_def Let_def split: list.splits if_splits)

function drain :: "string \<Rightarrow> string list \<times> string" where
  "drain buf =
     (case scanLinesOrCR buf False of
        (n, None) \<Rightarrow> ([], buf)
      | (n, Some t) \<Rightarrow> (case drain (drop n buf) of (ts, r) \<Rightarrow> (t # ts, r)))"
  by pat_completeness auto
termination by (relation "measure length") (auto dest!: scanLinesOrCR_advance [OF sym])

declare drain.simps [simp del]

text \<open>\<open>bufio.Scanner\<close> over the chunks the reads return: the tokens, and whether it stopped because a token
  did not fit.\<close>

fun scan_chunks :: "nat \<Rightarrow> string \<Rightarrow> string list \<Rightarrow> string list \<times> bool" where
  "scan_chunks maxTok buf [] =
     (case scanLinesOrCR buf True of (n, Some t) \<Rightarrow> ([t], False) | (n, None) \<Rightarrow> ([], False))"
| "scan_chunks maxTok buf (c # cs) =
     (case drain (buf @ c) of (ts, r) \<Rightarrow>
        if maxTok \<le> length r then (ts, True)
        else case scan_chunks maxTok r cs of (us, err) \<Rightarrow> (ts @ us, err))"

record pump =
  pu_stage :: string
  pu_tail :: "string list"
  pu_agg :: agg
  pu_events :: "sink_event list"
  pu_touches :: nat

definition tailMax :: nat where "tailMax = 32"

record run_floats =
  rf_close :: "int \<Rightarrow> int \<Rightarrow> bool"
  rf_scale :: "string \<Rightarrow> int \<Rightarrow> int"

definition pump_line :: "run_floats \<Rightarrow> string \<Rightarrow> pump \<Rightarrow> pump" where
  "pump_line R raw pu =
     (let clean = trim_space (stripANSIEscapes raw)
      in if clean = [] then pu
         else let pu = pu\<lparr>pu_touches := Suc (pu_touches pu)\<rparr>
           in case parseHFProgressLine (rf_scale R) clean of
                Some ev \<Rightarrow>
                  (case OnProgress (rf_close R) ev (pu_agg pu) of (a, evs) \<Rightarrow>
                     pu\<lparr>pu_agg := a, pu_events := pu_events pu @ evs, pu_stage := ''progress''\<rparr>)
              | None \<Rightarrow>
                  (case parseFetchingFilesCount clean of
                     Some n \<Rightarrow> pu\<lparr>pu_events := pu_events pu @ [EvFilesTotal n], pu_stage := ''progress''\<rparr>
                   | None \<Rightarrow>
                       (let t = pu_tail pu @ [clean]
                        in pu\<lparr>pu_tail := drop (length t - tailMax) t\<rparr>)))"

definition pumpStderr :: "run_floats \<Rightarrow> tree_entry list \<Rightarrow> string list \<Rightarrow> pump" where
  "pumpStderr R tree chunks =
     (case scan_chunks maxTokenSize [] chunks of (ls, err) \<Rightarrow>
        let pu = fold (pump_line R) ls
              \<lparr>pu_stage = ''stderr'', pu_tail = [], pu_agg = NewAggregator tree, pu_events = [], pu_touches = 0\<rparr>
        in if err then pu\<lparr>pu_events := pu_events pu @ [EvError True]\<rparr> else pu)"

section \<open>Run (runner.go)\<close>

text \<open>What the subprocess does: it cannot be started (the message), or it delivers its standard error and
  ends with an exit code, the text of \<open>Wait\<close>'s error, if any, and whether the watchdog killed it.\<close>

datatype subprocess = NotStarted string | Ran "string list" int "string option" bool

definition exit_message :: "string list \<Rightarrow> int \<Rightarrow> string option \<Rightarrow> string" where
  "exit_message tailLines exit waitErr =
     (let joined = join_with [CHR 0x0A] tailLines
      in if joined \<noteq> [] then joined
         else case waitErr of Some e \<Rightarrow> e | None \<Rightarrow> ''non-zero exit '' @ itoa exit)"

definition hf_Run ::
  "run_floats \<Rightarrow> (string \<Rightarrow> bool + string) \<Rightarrow> (string list \<Rightarrow> subprocess) \<Rightarrow> hf_config \<Rightarrow>
     (hf_error + hf_result) \<times> sink_event list" where
  "hf_Run R read spawn cfg =
     (if hx_Repo cfg = [] then
        (Inl \<lparr>he_Code = CodeBadArgs, he_Retriable = False, he_Stage = ''args'', he_Message = ''Repo is required''\<rparr>, [])
      else
        let e0 = (if ''HF_HUB_ENABLE_HF_TRANSFER=1'' \<in> set (hx_ExtraEnv cfg)
                  then [EvNote ''xet acceleration: tqdm progress unavailable''] else []) @
                 (if isHexSHA (hx_Revision cfg) then [EvCommit (hx_Revision cfg)] else [])
        in case spawn (buildArgs cfg) of
             NotStarted msg \<Rightarrow>
               (Inl \<lparr>he_Code = CodeInternal, he_Retriable = False, he_Stage = ''spawn'', he_Message = msg\<rparr>, e0)
           | Ran chunks exit waitErr killed \<Rightarrow>
               let pu = pumpStderr R (hx_Tree cfg) chunks; e1 = e0 @ [EvPhase PhaseDownload] @ pu_events pu
               in if exit \<noteq> CodeOK then
                    (let (code, retriable) = classifyExit exit (join_with [CHR 0x0A] (pu_tail pu))
                     in (Inl \<lparr>he_Code = (if killed then CodeProcessKilled else code),
                              he_Retriable = (killed \<or> retriable), he_Stage = pu_stage pu,
                              he_Message = trimTail (exit_message (pu_tail pu) exit waitErr) 1024\<rparr>, e1))
                  else
                    let found = (case ReadRefCommit read (hx_CacheDir cfg) (hx_Repo cfg) (hx_Revision cfg) of
                                   None \<Rightarrow> [] | Some c \<Rightarrow> c);
                        commit = (if found = [] then hx_Revision cfg else found);
                        p = SnapshotPath (hx_CacheDir cfg) (hx_Repo cfg) commit
                    in (Inr \<lparr>hr_Path = (if hx_HFFile cfg \<noteq> [] \<and> commit \<noteq> [] then p @ ''/'' @ hx_HFFile cfg else p),
                             hr_Status = ''ok'', hr_Commit = commit\<rparr>,
                        e1 @ (if commit \<noteq> [] then [EvCommit commit] else [])))"

section \<open>The watchdog (watchdog.go)\<close>

record watchdog =
  wd_lastSeen :: int
  wd_stopped :: bool
  wd_killed :: bool

datatype wd_event = WdTouch int | WdTick int | WdStop | WdCancel

definition defaultActivityCheckInterval :: int where "defaultActivityCheckInterval = 30000000000"
definition defaultActivityTimeout :: int where "defaultActivityTimeout = 600000000000"

definition newWatchdog :: "int \<Rightarrow> watchdog" where
  "newWatchdog now = \<lparr>wd_lastSeen = now, wd_stopped = False, wd_killed = False\<rparr>"

text \<open>The goroutine ends when the context is cancelled, when it is stopped and after a kill.\<close>

definition watchdog_step :: "int \<Rightarrow> wd_event \<Rightarrow> watchdog \<Rightarrow> watchdog" where
  "watchdog_step timeout ev w =
     (case ev of
        WdTouch now \<Rightarrow> w\<lparr>wd_lastSeen := now\<rparr>
      | WdStop \<Rightarrow> w\<lparr>wd_stopped := True\<rparr>
      | WdCancel \<Rightarrow> w\<lparr>wd_stopped := True\<rparr>
      | WdTick now \<Rightarrow>
          if wd_stopped w then w
          else if now - wd_lastSeen w \<ge> timeout then w\<lparr>wd_killed := True, wd_stopped := True\<rparr> else w)"

definition watchdog_run :: "int \<Rightarrow> int \<Rightarrow> wd_event list \<Rightarrow> watchdog" where
  "watchdog_run timeout start evs = fold (watchdog_step timeout) evs (newWatchdog start)"

section \<open>Lines do not depend on chunks\<close>

text \<open>The lines of a text: what stands between carriage returns and line feeds, without the empty
  pieces.\<close>

fun pieces :: "string \<Rightarrow> string list" where
  "pieces [] = [[]]"
| "pieces (c # cs) =
     (if line_end c then [] # pieces cs else case pieces cs of [] \<Rightarrow> [[c]] | w # ws \<Rightarrow> (c # w) # ws)"

definition nonempty_lines :: "string \<Rightarrow> string list" where
  "nonempty_lines s = filter (\<lambda>w. w \<noteq> []) (pieces s)"

definition unbroken :: "string \<Rightarrow> bool" where
  "unbroken s \<longleftrightarrow> list_all (\<lambda>c. \<not> line_end c) s"

lemma pieces_unbroken: "unbroken w \<Longrightarrow> pieces (w @ x) = (case pieces x of [] \<Rightarrow> [w] | v # vs \<Rightarrow> (w @ v) # vs)"
proof (induction w)
  case Nil
  have "pieces x \<noteq> []" by (induction x) (auto split: list.splits)
  then show ?case by (auto split: list.splits)
next
  case (Cons c w)
  then show ?case by (auto simp: unbroken_def split: list.splits)
qed

lemma nonempty_lines_break:
  "unbroken w \<Longrightarrow> line_end b \<Longrightarrow>
     nonempty_lines (w @ b # s) = (if w = [] then [] else [w]) @ nonempty_lines s"
  by (simp add: nonempty_lines_def pieces_unbroken)

lemma nonempty_lines_last: "unbroken w \<Longrightarrow> nonempty_lines w = (if w = [] then [] else [w])"
  using pieces_unbroken [of w "[]"] by (simp add: nonempty_lines_def)

lemma nonempty_lines_first:
  assumes "unbroken w" "w \<noteq> []"
  shows "\<exists>v ws. nonempty_lines (w @ x) = (w @ v) # ws"
proof -
  have "pieces x \<noteq> []" by (induction x) (auto split: list.splits)
  then show ?thesis using assms by (auto simp: nonempty_lines_def pieces_unbroken neq_Nil_conv)
qed

lemma unbroken_takeWhile: "unbroken (takeWhile (\<lambda>b. \<not> line_end b) s)"
  by (auto simp: unbroken_def list_all_iff dest: set_takeWhileD)

lemma scan_no_token: "scanLinesOrCR data False = (n, None) \<Longrightarrow> unbroken data"
proof -
  assume a: "scanLinesOrCR data False = (n, None)"
  have "length data \<le> length (takeWhile (\<lambda>b. \<not> line_end b) data)"
    using a by (auto simp: scanLinesOrCR_def Let_def split: list.splits)
  then have "takeWhile (\<lambda>b. \<not> line_end b) data = data"
    by (metis takeWhile_eq_take take_all)
  then show ?thesis by (metis unbroken_takeWhile)
qed

lemma nonempty_lines_feed: "nonempty_lines (CHR 0x0A # s) = nonempty_lines s"
  using nonempty_lines_break [of "[]" "CHR 0x0A" s] by (simp add: unbroken_def line_end_def)

lemma scan_token:
  assumes "scanLinesOrCR data False = (n, Some t)"
  shows "nonempty_lines (data @ x) = (if t = [] then [] else [t]) @ nonempty_lines (drop n data @ x)"
proof -
  define tok where "tok = takeWhile (\<lambda>b. \<not> line_end b) data"
  obtain b cs where d: "drop (length tok) data = b # cs"
    using assms by (auto simp: scanLinesOrCR_def Let_def tok_def split: list.splits)
  have data: "data = tok @ b # cs"
    using d takeWhile_dropWhile_id [of "\<lambda>b. \<not> line_end b" data]
    by (simp add: tok_def dropWhile_eq_drop)
  have b: "line_end b"
    using d hd_dropWhile [of "\<lambda>b. \<not> line_end b" data] by (auto simp: tok_def dropWhile_eq_drop)
  have u: "unbroken tok" unfolding tok_def by (rule unbroken_takeWhile)
  have "scanLinesOrCR data False =
      (length tok + 1 + (if b = CHR 0x0D \<and> cs \<noteq> [] \<and> hd cs = CHR 0x0A then 1 else 0), Some tok)"
    by (simp add: scanLinesOrCR_def tok_def [symmetric] Let_def d)
  then have t: "t = tok" and n: "n = length tok + 1 + (if b = CHR 0x0D \<and> cs \<noteq> [] \<and> hd cs = CHR 0x0A then 1 else 0)"
    using assms by (simp_all split del: if_split)
  have "nonempty_lines (data @ x) = (if tok = [] then [] else [tok]) @ nonempty_lines (cs @ x)"
    using nonempty_lines_break [OF u b, of "cs @ x"] by (simp add: data)
  also have "nonempty_lines (cs @ x) = nonempty_lines (drop n data @ x)"
    by (cases cs) (auto simp: data n nonempty_lines_feed)
  finally show ?thesis by (simp add: t)
qed

lemma drain_lines:
  "drain buf = (ts, r) \<Longrightarrow>
     unbroken r \<and> nonempty_lines (buf @ x) = filter (\<lambda>t. t \<noteq> []) ts @ nonempty_lines (r @ x)"
proof (induction buf arbitrary: ts r rule: drain.induct)
  case (1 buf)
  show ?case
  proof (cases "scanLinesOrCR buf False")
    case (Pair n tok)
    show ?thesis
    proof (cases tok)
      case None
      then show ?thesis using 1(2) Pair scan_no_token [of buf n] by (simp add: drain.simps [of buf])
    next
      case (Some t)
      obtain us v where uv: "drain (drop n buf) = (us, v)" by (cases "drain (drop n buf)")
      have "ts = t # us" "r = v" using 1(2) Pair Some uv by (simp_all add: drain.simps [of buf])
      then show ?thesis using 1(1) [OF Pair [symmetric] Some uv] scan_token [of buf n t x] Pair Some by simp
    qed
  qed
qed

definition lines_fit :: "nat \<Rightarrow> string \<Rightarrow> bool" where
  "lines_fit n s \<longleftrightarrow> 0 < n \<and> list_all (\<lambda>w. length w < n) (nonempty_lines s)"

lemma scan_chunks_lines:
  "unbroken buf \<Longrightarrow> lines_fit n (buf @ concat cs) \<Longrightarrow>
     \<exists>ts. scan_chunks n buf cs = (ts, False) \<and> filter (\<lambda>t. t \<noteq> []) ts = nonempty_lines (buf @ concat cs)"
proof (induction cs arbitrary: buf)
  case Nil
  have tw: "takeWhile (\<lambda>b. \<not> line_end b) buf = buf" using Nil(1) by (auto simp: unbroken_def list_all_iff)
  have "scanLinesOrCR buf True = (length buf, if buf = [] then None else Some buf)"
    by (simp add: scanLinesOrCR_def Let_def tw del: takeWhile_eq_all_conv)
  then show ?case using Nil(1) by (simp add: nonempty_lines_last)
next
  case (Cons c cs)
  obtain ts r where d: "drain (buf @ c) = (ts, r)" by (cases "drain (buf @ c)")
  note l = drain_lines [OF d, of "concat cs"]
  have fit: "lines_fit n (r @ concat cs)" using Cons.prems(2) l by (simp add: lines_fit_def)
  have "length r < n"
  proof (cases "r = []")
    case False
    then show ?thesis using nonempty_lines_first [of r "concat cs"] l fit by (auto simp: lines_fit_def)
  qed (use fit in \<open>simp add: lines_fit_def\<close>)
  then show ?case using Cons.IH [of r] l fit d by auto
qed

lemma strip_Nil [simp]: "stripANSIEscapes [] = []"
  by (simp add: stripANSIEscapes_def)

lemma fold_pump_nonempty: "fold (pump_line R) (filter (\<lambda>t. t \<noteq> []) ts) pu = fold (pump_line R) ts pu"
proof -
  have "pump_line R [] = id" by (rule ext) (simp add: pump_line_def)
  then show ?thesis by (induction ts arbitrary: pu) auto
qed

text \<open>what the pump makes of the standard error does not depend on how the reads cut it into chunks,
  even between a carriage return and its line feed, as long as every line fits the scanner's buffer.\<close>
theorem stderr_ignores_chunking:
  assumes "concat cs = concat ds" "lines_fit maxTokenSize (concat cs)"
  shows "pumpStderr R tree cs = pumpStderr R tree ds"
proof -
  obtain ts us where "scan_chunks maxTokenSize [] cs = (ts, False)" "scan_chunks maxTokenSize [] ds = (us, False)"
    "filter (\<lambda>t. t \<noteq> []) ts = filter (\<lambda>t. t \<noteq> []) us"
    using scan_chunks_lines [of "[]" maxTokenSize cs] scan_chunks_lines [of "[]" maxTokenSize ds] assms
    by (auto simp: unbroken_def)
  then show ?thesis
    using fold_pump_nonempty [of R ts] fold_pump_nonempty [of R us] by (simp add: pumpStderr_def)
qed

definition exact_floats :: run_floats where
  "exact_floats = \<lparr>rf_close = (\<lambda>want d. d = 0), rf_scale = (\<lambda>num mult. mult)\<rparr>"

theorem stderr_ignores_chunking_witness:
  "pumpStderr exact_floats [] [''ab'' @ [CHR 0x0D], CHR 0x0A # ''c''] =
   pumpStderr exact_floats [] [''ab'' @ [CHR 0x0D, CHR 0x0A] @ ''c'']"
  by (rule stderr_ignores_chunking)
    (simp_all add: lines_fit_def nonempty_lines_def line_end_def maxTokenSize_def)

section \<open>Bars of different files do not interfere\<close>

fun agg_run ::
  "(int \<Rightarrow> int \<Rightarrow> bool) \<Rightarrow> hf_progress_event list \<Rightarrow> agg \<Rightarrow> agg \<times> sink_event list" where
  "agg_run close [] a = (a, [])"
| "agg_run close (e # es) a =
     (case OnProgress close e a of (a, evs) \<Rightarrow> case agg_run close es a of (a, evs') \<Rightarrow> (a, evs @ evs'))"

text \<open>What the sink is told of one path.\<close>

fun event_bytes :: "string \<Rightarrow> sink_event \<Rightarrow> int" where
  "event_bytes p (EvFileBytes q d) = (if q = p then d else 0)"
| "event_bytes p _ = 0"

definition told_bytes :: "string \<Rightarrow> sink_event list \<Rightarrow> int" where
  "told_bytes p evs = sum_list (map (event_bytes p) evs)"

definition told_done :: "string \<Rightarrow> sink_event list \<Rightarrow> nat" where
  "told_done p evs = length (filter (\<lambda>e. e = EvFileDone p) evs)"

text \<open>The repository file a line counts, if the listing names one.\<close>

definition bar_of :: "(int \<Rightarrow> int \<Rightarrow> bool) \<Rightarrow> label_index option \<Rightarrow> hf_progress_event \<Rightarrow> string option" where
  "bar_of close ix e =
     (if ev_Label e = [] \<or> hfIsOuterAggregateLabel (ev_Label e) then None
      else label_lookup close ix (ev_Label e) (ev_Total e))"

definition furthest :: "string \<Rightarrow> (hf_progress_event \<Rightarrow> string option) \<Rightarrow> hf_progress_event list \<Rightarrow> int \<Rightarrow> int" where
  "furthest p bar es m = fold (\<lambda>e m. if bar e = Some p then max m (ev_Downloaded e) else m) es m"

definition bar_inv :: "string \<Rightarrow> int \<Rightarrow> nat \<Rightarrow> agg \<Rightarrow> bool" where
  "bar_inv p m n a \<longleftrightarrow>
     (case ag_byPath a p of
        None \<Rightarrow> m = 0 \<and> n = 0
      | Some fs \<Rightarrow> af_path fs = p \<and> af_downloaded fs = m \<and> n = (if af_completed fs then 1 else 0)) \<and>
     (\<forall>l fs. ag_byLabel a l = Some fs \<longrightarrow> af_path fs = l) \<and>
     (\<forall>l fs. ag_byPath a l = Some fs \<longrightarrow> af_path fs = l)"

lemma told_append [simp]:
  "told_bytes p (xs @ ys) = told_bytes p xs + told_bytes p ys"
  "told_done p (xs @ ys) = told_done p xs + told_done p ys"
  by (simp_all add: told_bytes_def told_done_def)

lemma told_Nil [simp]: "told_bytes p [] = 0" "told_done p [] = 0"
  by (simp_all add: told_bytes_def told_done_def)

lemma tick_told:
  assumes "tick ev fs = (fs', dt, db, evs)"
  shows "af_path fs' = af_path fs" "af_downloaded fs' = max (af_downloaded fs) (ev_Downloaded ev)"
    "told_bytes p evs = (if af_path fs = p then af_downloaded fs' - af_downloaded fs else 0)"
    "told_done p evs + (if af_path fs = p \<and> af_completed fs then 1 else 0) =
       (if af_path fs = p \<and> af_completed fs' then 1 else 0)"
proof -
  obtain f1 d1 e1 f2 d2 e2 f3 e3 where t: "tick_start ev fs = (f1, d1, e1)" "tick_bytes ev f1 = (f2, d2, e2)"
    "tick_done f2 = (f3, e3)" by (meson prod_cases3 surj_pair)
  have 1: "af_path f1 = af_path fs" "af_downloaded f1 = af_downloaded fs" "af_completed f1 = af_completed fs"
    "told_bytes p e1 = 0" "told_done p e1 = 0"
    using t(1) by (auto simp: tick_start_def told_bytes_def told_done_def split: if_splits)
  have 2: "af_path f2 = af_path f1" "af_downloaded f2 = max (af_downloaded f1) (ev_Downloaded ev)"
    "af_completed f2 = af_completed f1" "told_done p e2 = 0"
    "told_bytes p e2 = (if af_path f1 = p then af_downloaded f2 - af_downloaded f1 else 0)"
    using t(2) by (auto simp: tick_bytes_def told_bytes_def told_done_def split: if_splits)
  have 3: "af_path f3 = af_path f2" "af_downloaded f3 = af_downloaded f2" "told_bytes p e3 = 0"
    "told_done p e3 + (if af_path f2 = p \<and> af_completed f2 then 1 else 0) =
       (if af_path f2 = p \<and> af_completed f3 then 1 else 0)"
    using t(3) by (auto simp: tick_done_def told_bytes_def told_done_def split: if_splits)
  have eq: "fs' = f3" "evs = e1 @ e2 @ e3" using assms t by (simp_all add: tick_def)
  show "af_path fs' = af_path fs" "af_downloaded fs' = max (af_downloaded fs) (ev_Downloaded ev)"
    "told_bytes p evs = (if af_path fs = p then af_downloaded fs' - af_downloaded fs else 0)"
    using 1 2 3 by (simp_all add: eq)
  show "told_done p evs + (if af_path fs = p \<and> af_completed fs then 1 else 0) =
       (if af_path fs = p \<and> af_completed fs' then 1 else 0)"
    using 1 2 3 by (simp add: eq)
qed

lemma OnProgress_tree: "OnProgress close e a = (a', evs) \<Longrightarrow> ag_tree a' = ag_tree a"
  by (auto simp: OnProgress_def put_slot_def split: if_splits prod.splits slot.splits)

lemma OnProgress_ignored:
  assumes "ev_Label e = [] \<or> hfIsOuterAggregateLabel (ev_Label e)" "OnProgress close e a = (a', evs)"
  shows "a' = a" "told_bytes p evs = 0" "told_done p evs = 0"
  using assms by (auto simp: OnProgress_def told_bytes_def told_done_def split: if_splits option.splits)

lemma OnProgress_named:
  assumes inv: "bar_inv p m n a" and b: "bar_of close (ag_tree a) e = Some q"
    and s: "OnProgress close e a = (a', evs)"
  shows "bar_inv p (if q = p then max m (ev_Downloaded e) else m) (n + told_done p evs) a'"
    "told_bytes p evs = (if q = p then max m (ev_Downloaded e) - m else 0)"
proof -
  define fs where "fs = (case ag_byPath a q of None \<Rightarrow> new_file q | Some fs \<Rightarrow> fs)"
  obtain fs' dt db where t: "tick e fs = (fs', dt, db, evs)"
    and a': "a' = put_slot (ByPath q) fs' (a\<lparr>ag_aggTotal := wrap64 (ag_aggTotal a + dt),
               ag_aggBytes := wrap64 (ag_aggBytes a + db)\<rparr>)"
    using b s by (auto simp: OnProgress_def bar_of_def route_def fs_def split: if_splits prod.splits)
  have path: "af_path fs = q" using inv by (auto simp: fs_def bar_inv_def new_file_def split: option.splits)
  have m: "af_downloaded fs = m \<and> n = (if af_completed fs then 1 else 0)" if "q = p"
    using inv that by (auto simp: fs_def bar_inv_def new_file_def split: option.splits)
  note told = tick_told(1,2) [OF t] tick_told(3,4) [OF t, of p]
  show "told_bytes p evs = (if q = p then max m (ev_Downloaded e) - m else 0)"
    using told path m by auto
  show "bar_inv p (if q = p then max m (ev_Downloaded e) else m) (n + told_done p evs) a'"
  proof (cases "q = p")
    case True
    then show ?thesis using inv told(1,2,4) path m by (auto simp: bar_inv_def a' put_slot_def split: if_splits)
  next
    case False
    then show ?thesis using inv told(1,4) path by (auto simp: bar_inv_def a' put_slot_def)
  qed
qed

lemma OnProgress_unnamed:
  assumes inv: "bar_inv p m n a" and b: "bar_of close (ag_tree a) e = None" "ev_Label e \<noteq> p"
    and s: "OnProgress close e a = (a', evs)"
  shows "bar_inv p m (n + told_done p evs) a'" "told_bytes p evs = 0"
proof -
  have "bar_inv p m (n + told_done p evs) a' \<and> told_bytes p evs = 0"
  proof (cases "ev_Label e = [] \<or> hfIsOuterAggregateLabel (ev_Label e)")
    case True
    then show ?thesis using OnProgress_ignored [OF True s] inv by simp
  next
    case False
    let ?l = "ev_Label e"
    define fs where "fs = (case ag_byLabel a ?l of None \<Rightarrow> new_file ?l
        | Some fs \<Rightarrow> if isNextBar fs e then new_file ?l else fs)"
    obtain fs' dt db where t: "tick e fs = (fs', dt, db, evs)"
      and a': "a' = put_slot (ByLabel ?l) fs' (a\<lparr>ag_aggTotal := wrap64 (ag_aggTotal a + dt),
                 ag_aggBytes := wrap64 (ag_aggBytes a + db)\<rparr>)"
      using b(1) s False
      by (auto simp: OnProgress_def bar_of_def route_def fs_def split: if_splits prod.splits)
    have path: "af_path fs = ?l"
      using inv by (auto simp: fs_def bar_inv_def new_file_def split: option.splits)
    then have "af_path fs \<noteq> p" using b(2) by simp
    then show ?thesis using tick_told(1) [OF t] tick_told(3,4) [OF t, of p] inv path
      by (auto simp: bar_inv_def a' put_slot_def split: option.splits)
  qed
  then show "bar_inv p m (n + told_done p evs) a'" "told_bytes p evs = 0" by simp_all
qed

lemma agg_run_told:
  assumes "bar_inv p m n a" "list_all (\<lambda>e. bar_of close (ag_tree a) e = None \<longrightarrow> ev_Label e \<noteq> p) es"
  shows "told_bytes p (snd (agg_run close es a)) = furthest p (bar_of close (ag_tree a)) es m - m \<and>
    (\<exists>n'. bar_inv p (furthest p (bar_of close (ag_tree a)) es m) n' (fst (agg_run close es a)) \<and>
       n' = n + told_done p (snd (agg_run close es a)))"
  using assms
proof (induction es arbitrary: a m n)
  case Nil
  then show ?case by (simp add: furthest_def)
next
  case (Cons e es)
  obtain a1 ev1 where s: "OnProgress close e a = (a1, ev1)" by (cases "OnProgress close e a")
  have tree: "ag_tree a1 = ag_tree a" by (rule OnProgress_tree [OF s])
  define m1 where "m1 = (if bar_of close (ag_tree a) e = Some p then max m (ev_Downloaded e) else m)"
  have step: "bar_inv p m1 (n + told_done p ev1) a1 \<and> told_bytes p ev1 = m1 - m"
  proof (cases "bar_of close (ag_tree a) e")
    case None
    then show ?thesis using OnProgress_unnamed [OF Cons.prems(1) None _ s] Cons.prems(2) by (simp add: m1_def)
  next
    case (Some q)
    then show ?thesis using OnProgress_named [OF Cons.prems(1) Some s] by (simp add: m1_def)
  qed
  have f: "furthest p (bar_of close (ag_tree a)) (e # es) m = furthest p (bar_of close (ag_tree a1)) es m1"
    by (simp add: furthest_def m1_def tree)
  obtain a2 ev2 where r: "agg_run close es a1 = (a2, ev2)" by (cases "agg_run close es a1")
  show ?case
    using Cons.IH [of m1 "n + told_done p ev1" a1] step Cons.prems(2) by (auto simp: s r f tree add.assoc)
qed

text \<open>however the bars of several files interleave, the bytes told of a repository file add up to the
  furthest point its own lines reached, and it is told complete at most once; only lines the listing
  cannot name and whose label is the very path could disturb it.\<close>
theorem bars_do_not_interfere:
  assumes "list_all (\<lambda>e. bar_of close (newLabelIndex tree) e = None \<longrightarrow> ev_Label e \<noteq> p) es"
  shows "told_bytes p (snd (agg_run close es (NewAggregator tree))) =
           furthest p (bar_of close (newLabelIndex tree)) es 0 \<and>
         told_done p (snd (agg_run close es (NewAggregator tree))) \<le> 1"
proof -
  have i: "bar_inv p 0 0 (NewAggregator tree)" and t: "ag_tree (NewAggregator tree) = newLabelIndex tree"
    by (simp_all add: bar_inv_def NewAggregator_def)
  from agg_run_told [OF i, of close es] assms obtain n' where
    "told_bytes p (snd (agg_run close es (NewAggregator tree))) = furthest p (bar_of close (newLabelIndex tree)) es 0"
    "bar_inv p (furthest p (bar_of close (newLabelIndex tree)) es 0) n' (fst (agg_run close es (NewAggregator tree)))"
    "n' = told_done p (snd (agg_run close es (NewAggregator tree)))"
    by (auto simp: t)
  then show ?thesis by (auto simp: bar_inv_def split: option.splits if_splits)
qed

definition two_namesakes :: "tree_entry list" where
  "two_namesakes = [\<lparr>te_Path = ''a/m'', te_Size = 8, te_SHA256 = []\<rparr>, \<lparr>te_Path = ''b/m'', te_Size = 5, te_SHA256 = []\<rparr>]"

definition bar :: "int \<Rightarrow> int \<Rightarrow> hf_progress_event" where
  "bar d t = \<lparr>ev_Label = ''m'', ev_Downloaded = d, ev_Total = t, ev_Percent = 0\<rparr>"

theorem bars_do_not_interfere_witness:
  "told_bytes ''b/m'' (snd (agg_run (\<lambda>want d. d = 0) [bar 3 8, bar 4 5, bar 8 8, bar 5 5] (NewAggregator two_namesakes))) = 5"
proof -
  have l: "list_all (\<lambda>e. bar_of (\<lambda>want d. d = 0) (newLabelIndex two_namesakes) e = None \<longrightarrow> ev_Label e \<noteq> ''b/m'')
    [bar 3 8, bar 4 5, bar 8 8, bar 5 5]" by code_simp
  have f: "furthest ''b/m'' (bar_of (\<lambda>want d. d = 0) (newLabelIndex two_namesakes))
    [bar 3 8, bar 4 5, bar 8 8, bar 5 5] 0 = 5" by code_simp
  show ?thesis using bars_do_not_interfere [OF l] by (simp add: f)
qed

section \<open>Exit codes\<close>

lemma classifyExit_retriable:
  "snd (classifyExit exit tail) \<longleftrightarrow> fst (classifyExit exit tail) \<in> {CodeProcessKilled, CodeNetwork}"
  by (simp add: classifyExit_def code_defs)

lemma classifyExit_failed: "exit \<noteq> CodeOK \<Longrightarrow> fst (classifyExit exit tail) \<noteq> CodeOK"
  by (simp add: classifyExit_def code_defs)

text \<open>the two verdicts of a failed run agree, whatever the subprocess did: an error is retriable
  exactly when its code is that of a network failure or of a killed process, and a result comes only
  from exit code 0 and lies in the snapshot of the commit it names.\<close>
theorem run_codes_agree:
  "case fst (hf_Run R read spawn cfg) of
     Inl e \<Rightarrow> he_Code e \<noteq> CodeOK \<and> (he_Retriable e \<longleftrightarrow> he_Code e \<in> {CodeProcessKilled, CodeNetwork})
   | Inr r \<Rightarrow> (case spawn (buildArgs cfg) of Ran chunks exit w k \<Rightarrow> exit = CodeOK | NotStarted msg \<Rightarrow> False) \<and>
       has_prefix (hr_Path r) (SnapshotPath (hx_CacheDir cfg) (hx_Repo cfg) (hr_Commit r))"
proof (cases "spawn (buildArgs cfg)")
  case (NotStarted msg)
  then show ?thesis by (simp add: hf_Run_def code_defs)
next
  case (Ran chunks exit w k)
  define pu where "pu = pumpStderr R (hx_Tree cfg) chunks"
  obtain code r where c: "classifyExit exit (join_with [CHR 0x0A] (pu_tail pu)) = (code, r)"
    by (cases "classifyExit exit (join_with [CHR 0x0A] (pu_tail pu))")
  have "exit \<noteq> CodeOK \<Longrightarrow> code \<noteq> CodeOK" "r = (code \<in> {CodeProcessKilled, CodeNetwork})"
    using classifyExit_failed [of exit "join_with [CHR 0x0A] (pu_tail pu)"]
      classifyExit_retriable [of exit "join_with [CHR 0x0A] (pu_tail pu)"] by (simp_all add: c)
  moreover have "CodeProcessKilled \<noteq> CodeOK" "CodeBadArgs \<noteq> CodeOK"
    "CodeBadArgs \<notin> {CodeProcessKilled, CodeNetwork}" by (simp_all add: code_defs)
  ultimately show ?thesis
    using Ran c by (simp add: hf_Run_def Let_def pu_def [symmetric] has_prefix_def)
qed

section \<open>Labels that were cut\<close>

lemma after_last_slash_self: "CHR ''/'' \<notin> set s \<Longrightarrow> after_last_slash s = s"
proof -
  assume "CHR ''/'' \<notin> set s"
  then have "takeWhile (\<lambda>c. c \<noteq> CHR ''/'') (rev s) = rev s" by (intro takeWhile_eq_all_conv [THEN iffD2]) auto
  then show ?thesis by (simp only: after_last_slash_def rev_rev_ident)
qed

text \<open>A file name of printable ASCII without separators.\<close>

definition plain_name :: "string \<Rightarrow> bool" where
  "plain_name s \<longleftrightarrow> s \<noteq> [] \<and> list_all (\<lambda>c. graphic c \<and> c \<noteq> CHR ''/'' \<and> c \<noteq> CHR 0x5C) s"

lemma plain_name_facts:
  assumes "plain_name s"
  shows "s \<noteq> []" "graphic (hd s)" "graphic (last s)" "CHR ''/'' \<notin> set s"
    "map (\<lambda>c. if c = CHR 0x5C then CHR ''/'' else c) s = s"
proof -
  have a: "\<And>c. c \<in> set s \<Longrightarrow> graphic c \<and> c \<noteq> CHR ''/'' \<and> c \<noteq> CHR 0x5C" and ne: "s \<noteq> []"
    using assms by (simp_all add: plain_name_def list_all_iff)
  show "s \<noteq> []" by (rule ne)
  show "graphic (hd s)" "graphic (last s)" "CHR ''/'' \<notin> set s" using a ne by auto
  show "map (\<lambda>c. if c = CHR 0x5C then CHR ''/'' else c) s = s" using a by (intro map_idI) simp
qed

lemma base_of_plain:
  assumes "plain_name s" "trim_prefix (trim_space l) hfLabelTruncPrefix = s"
  shows "labelBase l = s"
  by (simp only: labelBase_def assms(2) Let_def plain_name_facts(5) [OF assms(1)]
      after_last_slash_self [OF plain_name_facts(4) [OF assms(1)]])

lemma trunc_prefix_facts: "hfLabelTruncPrefix \<noteq> []" "graphic (hd hfLabelTruncPrefix)"
    "CHR 0xE2 \<in> set hfLabelTruncPrefix" "\<not> graphic (CHR 0xE2)"
  by code_simp+

lemma plain_base:
  assumes "plain_name s"
  shows "labelBase s = s"
proof (rule base_of_plain [OF assms])
  have "\<not> has_prefix s hfLabelTruncPrefix"
  proof
    assume "has_prefix s hfLabelTruncPrefix"
    then have "CHR 0xE2 \<in> set s"
      using trunc_prefix_facts(3) set_mono_prefix [of hfLabelTruncPrefix s] by (auto simp: has_prefix_def)
    then show False using assms trunc_prefix_facts(4) by (auto simp: plain_name_def list_all_iff)
  qed
  moreover have "trim_space s = s"
    using plain_name_facts(1-3) [OF assms] by (intro trimmed_trim_space graphic_trimmed)
  ultimately show "trim_prefix (trim_space s) hfLabelTruncPrefix = s" by (simp add: trim_prefix_def)
qed

lemma trunc_base:
  assumes "plain_name s"
  shows "labelBase (hfLabelTruncPrefix @ s) = s"
proof (rule base_of_plain [OF assms])
  have "trim_space (hfLabelTruncPrefix @ s) = hfLabelTruncPrefix @ s"
    using plain_name_facts(1-3) [OF assms] trunc_prefix_facts(1,2)
    by (intro trimmed_trim_space graphic_trimmed) simp_all
  then show "trim_prefix (trim_space (hfLabelTruncPrefix @ s)) hfLabelTruncPrefix = s"
    by (simp add: trim_prefix_def has_prefix_def)
qed

text \<open>the label of a bar whose file name was cut to its last 40 characters names no file: the prefix
  of the cut is taken off the label, but what is left is compared with whole names.\<close>
theorem cut_label_is_unnameable:
  assumes "plain_name name" "40 < length name"
  shows "label_lookup close (newLabelIndex [\<lparr>te_Path = name, te_Size = n, te_SHA256 = sha\<rparr>])
           (hfLabelTruncPrefix @ drop (length name - 40) name) tot = None"
proof -
  have d: "plain_name (drop (length name - 40) name)"
  proof -
    have "drop (length name - 40) name \<noteq> []" using assms(2) by simp
    then show ?thesis using assms(1) in_set_dropD unfolding plain_name_def list_all_iff by metis
  qed
  have "labelBase name = name" by (rule plain_base [OF assms(1)])
  moreover have "name \<noteq> drop (length name - 40) name"
  proof
    assume "name = drop (length name - 40) name"
    then have "length name = length (drop (length name - 40) name)" by simp
    then show False using assms(2) by simp
  qed
  moreover have "name \<noteq> []" using assms(2) by auto
  ultimately show ?thesis
    by (simp add: label_lookup_def newLabelIndex_def trunc_base [OF d] trunc_prefix_facts(1))
qed

theorem cut_label_is_unnameable_witness:
  "label_lookup (\<lambda>w d. True)
     (newLabelIndex [\<lparr>te_Path = replicate 41 (CHR ''w''), te_Size = 9, te_SHA256 = []\<rparr>])
     (hfLabelTruncPrefix @ replicate 40 (CHR ''w'')) 9 = None"
proof -
  have p: "plain_name (replicate 41 (CHR ''w''))" by code_simp
  have l: "40 < length (replicate 41 (CHR ''w''))" by (simp only: length_replicate)
  have d: "drop (length (replicate 41 (CHR ''w'')) - 40) (replicate 41 (CHR ''w'')) = replicate 40 (CHR ''w'')"
    by (simp only: length_replicate drop_replicate) simp
  show ?thesis by (rule cut_label_is_unnameable [OF p l, of "\<lambda>w d. True" 9 "[]" 9, unfolded d])
qed

section \<open>A total that settles late\<close>

lemma match_one_row [simp]:
  "matchFileIndex [] p = None"
  "p \<noteq> [] \<Longrightarrow> fp_Path r = p \<Longrightarrow> matchFileIndex [r] p = Some 0"
  by (simp_all add: matchFileIndex_def find_index_def)

lemma late_row:
  fixes F :: "'f float_ops"
  assumes "p \<noteq> []" "0 < t1" "0 < d" "t1 + d < 2 ^ 63"
  defines "st \<equiv> mg_state (sink_run F [(0, EvFileStart p t1), (0, EvFileStart p d),
      (0, EvFileBytes p (t1 + d)), (0, EvFileDone p)] (new_manager F 0))"
  shows "ps_BytesTotal st = t1 + d \<and> ps_BytesCompleted st = t1 + d \<and>
    ps_Files st = [\<lparr>fp_Path = p, fp_BytesTotal = max t1 d, fp_BytesCompleted = max t1 d, fp_Status = FileDone\<rparr>]"
proof -
  define m1 where "m1 = OnFileStart F 0 p t1 (new_manager F 0)"
  define m2 where "m2 = OnFileStart F 0 p d m1"
  define m3 where "m3 = OnFileBytes F 0 p (t1 + d) m2"
  have w: "in_int64 t1" "in_int64 (t1 + d)" using assms by (simp_all add: in_int64_def)
  have 1: "ps_BytesTotal (mg_state m1) = t1" "ps_BytesCompleted (mg_state m1) = 0"
    "ps_Files (mg_state m1) = [\<lparr>fp_Path = p, fp_BytesTotal = t1, fp_BytesCompleted = 0, fp_Status = FileDownloading\<rparr>]"
    "\<not> mg_bytesBudgetActive m1" "\<not> mg_filesBudgetActive m1" "mg_doneFiles m1 = []"
    using assms w by (simp_all add: m1_def OnFileStart_def new_manager_def initial_pstate_def Let_def
        markFileStart_def append_row_def note_rate_file_def)
  have 2: "ps_BytesTotal (mg_state m2) = t1 + d" "ps_BytesCompleted (mg_state m2) = 0"
    "ps_Files (mg_state m2) = [\<lparr>fp_Path = p, fp_BytesTotal = max t1 d, fp_BytesCompleted = 0, fp_Status = FileDownloading\<rparr>]"
    "mg_doneFiles m2 = []"
    using assms w 1 by (simp_all add: m2_def OnFileStart_def Let_def markFileStart_def start_row_def max_def)
  have 3: "ps_BytesTotal (mg_state m3) = t1 + d" "ps_BytesCompleted (mg_state m3) = t1 + d"
    "ps_Files (mg_state m3) = [\<lparr>fp_Path = p, fp_BytesTotal = max t1 d, fp_BytesCompleted = max t1 d, fp_Status = FileDownloading\<rparr>]"
    "mg_doneFiles m3 = []"
    using assms w 2 by (simp_all add: m3_def OnFileBytes_def Let_def addFileBytes_def add_row_def max_def)
  have "st = mg_state (OnFileDone F 0 p m3)"
    by (simp add: st_def sink_run_def m1_def m2_def m3_def)
  then show ?thesis
    using assms(1-3) 3 by (simp add: OnFileDone_def Let_def clear_current_def markFileDone_def count_done_def done_row_def)
qed

lemma no_outer: "\<not> hfIsOuterAggregateLabel ''big.bin''"
  by code_simp

definition late_total :: "int \<Rightarrow> int \<Rightarrow> hf_progress_event list" where
  "late_total t1 t2 =
     [\<lparr>ev_Label = ''big.bin'', ev_Downloaded = 0, ev_Total = t1, ev_Percent = 0\<rparr>,
      \<lparr>ev_Label = ''big.bin'', ev_Downloaded = t2, ev_Total = t2, ev_Percent = 100\<rparr>]"

lemma late_total_events:
  assumes "0 < t1" "t1 < t2"
  shows "snd (agg_run close (late_total t1 t2) (NewAggregator [])) =
    [EvFileStart ''big.bin'' t1, EvFileStart ''big.bin'' (t2 - t1), EvFileBytes ''big.bin'' t2, EvFileDone ''big.bin'']"
proof -
  let ?l = "''big.bin''"
  have r: "route close a \<lparr>ev_Label = ?l, ev_Downloaded = n, ev_Total = t, ev_Percent = q\<rparr> =
      (ByLabel ?l, case ag_byLabel a ?l of None \<Rightarrow> new_file ?l
         | Some fs \<Rightarrow> if isNextBar fs \<lparr>ev_Label = ?l, ev_Downloaded = n, ev_Total = t, ev_Percent = q\<rparr>
                      then new_file ?l else fs)" if "ag_tree a = None" for a n t q
    using that by (cases "ag_byLabel a ?l") (simp_all add: route_def label_lookup_def)
  show ?thesis using assms
    by (simp add: late_total_def OnProgress_def no_outer r NewAggregator_def newLabelIndex_def tick_def
        tick_start_def tick_bytes_def tick_done_def new_file_def put_slot_def isNextBar_def)
qed

text \<open>when a bar's total settles late the row of its file keeps a wrong size: the sink is told the
  growth, which the aggregate adds up but the row takes for a size.\<close>
theorem late_total_misstates_row:
  fixes close :: "int \<Rightarrow> int \<Rightarrow> bool" and F :: "'f float_ops"
  assumes "0 < t1" "t1 < t2" "t2 < 2 ^ 63"
  defines "st \<equiv> mg_state (sink_run F
      (map (Pair 0) (snd (agg_run close (late_total t1 t2) (NewAggregator [])))) (new_manager F 0))"
  shows "ps_BytesTotal st = t2 \<and> ps_BytesCompleted st = t2 \<and>
    map fp_BytesTotal (ps_Files st) = [max t1 (t2 - t1)]"
  using late_row [of "''big.bin''" t1 "t2 - t1" F] assms(1-3)
  by (simp add: st_def late_total_events)

theorem late_total_misstates_row_witness:
  "map fp_BytesTotal (ps_Files (mg_state (sink_run unit_floats
     (map (Pair 0) (snd (agg_run (\<lambda>w d. False) (late_total 100 400) (NewAggregator []))))
     (new_manager unit_floats 0)))) = [300]"
  using late_total_misstates_row [of 100 400 unit_floats "\<lambda>w d. False"] by simp

section \<open>When the watchdog kills\<close>

fun touched_at :: "wd_event \<Rightarrow> int \<Rightarrow> int" where
  "touched_at (WdTouch now) t = now"
| "touched_at _ t = t"

definition last_touch :: "int \<Rightarrow> wd_event list \<Rightarrow> int" where
  "last_touch start evs = fold touched_at evs start"

text \<open>A check that finds no line read for the whole timeout, before the watchdog was stopped.\<close>

definition found_idle :: "int \<Rightarrow> int \<Rightarrow> wd_event list \<Rightarrow> bool" where
  "found_idle timeout start evs \<longleftrightarrow>
     (\<exists>pre now post. evs = pre @ WdTick now # post \<and> WdStop \<notin> set pre \<and> WdCancel \<notin> set pre \<and>
        timeout \<le> now - last_touch start pre)"

lemma found_idle_snoc:
  "found_idle timeout start (evs @ [e]) \<longleftrightarrow>
     found_idle timeout start evs \<or>
     (\<exists>now. e = WdTick now \<and> WdStop \<notin> set evs \<and> WdCancel \<notin> set evs \<and> timeout \<le> now - last_touch start evs)"
  (is "?l \<longleftrightarrow> ?a \<or> ?b")
proof
  assume ?l
  then obtain pre now post where d: "evs @ [e] = pre @ WdTick now # post"
    and c: "WdStop \<notin> set pre" "WdCancel \<notin> set pre" "timeout \<le> now - last_touch start pre"
    unfolding found_idle_def by blast
  show "?a \<or> ?b"
  proof (cases post rule: rev_cases)
    case Nil
    then show ?thesis using d c by auto
  next
    case (snoc ps x)
    then have "evs = pre @ WdTick now # ps" using d by simp
    then show ?thesis using c unfolding found_idle_def by blast
  qed
next
  assume "?a \<or> ?b"
  then show ?l
  proof
    assume ?a
    then obtain pre now post where "evs = pre @ WdTick now # post" "WdStop \<notin> set pre" "WdCancel \<notin> set pre"
      "timeout \<le> now - last_touch start pre" unfolding found_idle_def by blast
    then show ?l unfolding found_idle_def by (intro exI [of _ pre] exI [of _ now] exI [of _ "post @ [e]"]) simp
  next
    assume ?b
    then show ?l unfolding found_idle_def by (metis append.right_neutral)
  qed
qed

lemma watchdog_run_state:
  "wd_lastSeen (watchdog_run timeout start evs) = last_touch start evs \<and>
   (wd_killed (watchdog_run timeout start evs) \<longleftrightarrow> found_idle timeout start evs) \<and>
   (wd_stopped (watchdog_run timeout start evs) \<longleftrightarrow>
      found_idle timeout start evs \<or> WdStop \<in> set evs \<or> WdCancel \<in> set evs)"
proof (induction evs rule: rev_induct)
  case Nil
  then show ?case by (simp add: watchdog_run_def newWatchdog_def last_touch_def found_idle_def)
next
  case (snoc e evs)
  define w where "w = watchdog_run timeout start evs"
  have "watchdog_run timeout start (evs @ [e]) = watchdog_step timeout e w"
    by (simp add: watchdog_run_def w_def)
  then show ?case
    using snoc unfolding w_def [symmetric]
    by (cases e) (auto simp: watchdog_step_def last_touch_def found_idle_snoc)
qed

text \<open>the watchdog kills the subprocess exactly when one of its checks, made before it was stopped,
  finds that no line has been read for the whole timeout.\<close>
theorem watchdog_kills_only_idle:
  "wd_killed (watchdog_run timeout start evs) \<longleftrightarrow> found_idle timeout start evs"
  using watchdog_run_state by blast

end
