(* ===== verification/Budget.thy ===== *)
theory Budget
  imports Verify HfRun
begin

text \<open>
  What an ensure pass knows before it transfers anything (\<open>internal/lifecycle/download_budget.go\<close>, with
  \<open>urlDestName\<close> of \<open>ensure.go\<close>): where a source lands, what of it is on disk already, and the byte budget
  of the pass. The record \<open>outside\<close> holds everything a pass meets outside the code: clock, operating
  system, upstreams, the \<open>hf\<close> command and the engine's adapter; a number tells its calls apart.
\<close>

section \<open>The outside of a pass\<close>

text \<open>A transfer: its error, the ETag the upstream advertised, the calls of the sink with their times, and
  the file systems that could be observed while it ran.\<close>

record transfer =
  tf_error :: "fetch_error option"
  tf_etag :: string
  tf_events :: "(int \<times> sink_event) list"
  tf_trace :: "fs list"

record hf_transfer =
  ht_result :: "run_error + hf_result"
  ht_events :: "(int \<times> sink_event) list"
  ht_trace :: "fs list"

text \<open>\<open>ox_walk fs dir\<close> lists the regular files under a directory: the name relative to it, the size, and
  the base name of the link target if it is a link. \<open>ox_head n url\<close> is \<open>fetch.Probe\<close>, \<open>ox_quote\<close> the verb
  \<open>%q\<close>.\<close>

record 'f outside =
  ox_floats :: "'f float_ops"
  ox_lib :: verify_lib
  ox_now :: "nat \<Rightarrow> int"
  ox_stamp :: "nat \<Rightarrow> string"
  ox_io :: "nat \<Rightarrow> io_plan"
  ox_read_err :: "path \<Rightarrow> bool"
  ox_is_dir :: "fs \<Rightarrow> string \<Rightarrow> bool"
  ox_read_dir :: "fs \<Rightarrow> string \<Rightarrow> string list option"
  ox_walk :: "fs \<Rightarrow> string \<Rightarrow> (string \<times> int \<times> string option) list"
  ox_hub :: hub
  ox_url_split :: "string \<Rightarrow> (string \<times> string) option"
  ox_head :: "nat \<Rightarrow> string \<Rightarrow> fetch_error + (int \<times> string)"
  ox_transfer :: "nat \<Rightarrow> string \<Rightarrow> string \<Rightarrow> fs \<Rightarrow> transfer"
  ox_hf :: "nat \<Rightarrow> hf_config \<Rightarrow> fs \<Rightarrow> hf_transfer"
  ox_pull :: "nat \<Rightarrow> string \<Rightarrow> string option \<times> (int \<times> sink_event) list"
  ox_register :: "nat \<Rightarrow> string list \<Rightarrow> (string \<times> string) list \<Rightarrow> string option \<times> (int \<times> sink_event) list"
  ox_ready :: "nat \<Rightarrow> string + ready_state"
  ox_error_text :: "fetch_error \<Rightarrow> string"
  ox_sentinel_text :: "sentinel_error \<Rightarrow> string"
  ox_quote :: "string \<Rightarrow> string"

text \<open>The configuration a pass reads, with the options of the manager.\<close>

record pass_cfg =
  pc_Sources :: "model_source list"
  pc_RunDir :: string
  pc_VerifyLevel :: string
  pc_DriftFollow :: bool
  pc_HFToken :: string
  pc_HFEndpoint :: string
  pc_EnableXet :: bool
  pc_HFCacheRoot :: string
  pc_MaxConcurrentDownloads :: int

definition defaultHFCacheRoot :: string where "defaultHFCacheRoot = ''/cache/hf/hub''"

definition hfCacheRoot :: "pass_cfg \<Rightarrow> string" where
  "hfCacheRoot cfg = (if pc_HFCacheRoot cfg \<noteq> [] then pc_HFCacheRoot cfg else defaultHFCacheRoot)"

definition file_at :: "fs \<Rightarrow> string \<Rightarrow> string option" where
  "file_at fs p = fs (at p)"

definition read_text :: "'f outside \<Rightarrow> fs \<Rightarrow> string \<Rightarrow> bool + string" where
  "read_text X fs p =
     (case read_file (ox_read_err X) (at p) fs of Inl e \<Rightarrow> Inl (e = NotExist) | Inr d \<Rightarrow> Inr d)"

section \<open>Names (ensure.go)\<close>

definition defaultURLModelFilename :: string where "defaultURLModelFilename = ''model.bin''"

definition last_index_byte :: "string \<Rightarrow> char \<Rightarrow> nat option" where
  "last_index_byte s c = map_option (\<lambda>i. length s - 1 - i) (index_byte (rev s) c)"

definition urlDestName :: "model_source \<Rightarrow> string" where
  "urlDestName ms =
     (if ms_URLSha256 ms \<noteq> [] then ms_URLSha256 ms @ ''.gguf''
      else case last_index_byte (ms_URL ms) (CHR ''/'') of
             None \<Rightarrow> defaultURLModelFilename
           | Some i \<Rightarrow>
               if i < length (ms_URL ms) - 1 then
                 (let base = path_base (takeWhile (\<lambda>c. c \<noteq> CHR ''?'' \<and> c \<noteq> CHR ''#'') (drop (i + 1) (ms_URL ms)))
                  in if base \<noteq> [] \<and> base \<noteq> ''.'' \<and> base \<noteq> ''..'' then base else defaultURLModelFilename)
               else defaultURLModelFilename)"

definition url_fetched :: "pass_cfg \<Rightarrow> string" where
  "url_fetched cfg = path_join [pc_RunDir cfg, ''url-fetched'']"

definition urlDisplayName :: "model_source \<Rightarrow> string" where
  "urlDisplayName ms =
     (let fallback = (if ms_URL ms \<noteq> [] then path_base (hd (split_on (CHR ''?'') (ms_URL ms))) else ''download'')
      in case ms_Kind ms of
           KindURL \<Rightarrow> if ms_LocalPath ms \<noteq> [] then path_base (ms_LocalPath ms) else fallback
         | KindOllamaURL \<Rightarrow> urlDestName ms
         | _ \<Rightarrow> fallback)"

definition urlForSource :: "model_source \<Rightarrow> string" where
  "urlForSource ms = (if ms_Kind ms = KindURL \<or> ms_Kind ms = KindOllamaURL then ms_URL ms else [])"

section \<open>What is on disk already (download_budget.go)\<close>

definition regularFileSize :: "'f outside \<Rightarrow> fs \<Rightarrow> string \<Rightarrow> int" where
  "regularFileSize X fs p =
     (if ox_is_dir X fs p then 0 else case file_at fs p of None \<Rightarrow> 0 | Some d \<Rightarrow> int (length d))"

definition resumeAwareFileBytes :: "'f outside \<Rightarrow> fs \<Rightarrow> string \<Rightarrow> int" where
  "resumeAwareFileBytes X fs p =
     (if p = [] then 0
      else let n = regularFileSize X fs p in if n > 0 then n else regularFileSize X fs (p @ ''.part''))"

definition finishedURLFile :: "'f outside \<Rightarrow> fs \<Rightarrow> pass_cfg \<Rightarrow> model_source \<Rightarrow> bool" where
  "finishedURLFile X fs cfg ms =
     (case ms_Kind ms of
        KindURL \<Rightarrow> regularFileSize X fs (ms_LocalPath ms) > 0
      | KindOllamaURL \<Rightarrow>
          if pc_RunDir cfg = [] then False
          else regularFileSize X fs (path_join [pc_RunDir cfg, ''url-fetched'', urlDestName ms]) > 0
      | _ \<Rightarrow> False)"

definition cachedURLResumeBytes :: "'f outside \<Rightarrow> fs \<Rightarrow> pass_cfg \<Rightarrow> model_source \<Rightarrow> int" where
  "cachedURLResumeBytes X fs cfg ms =
     (case ms_Kind ms of
        KindURL \<Rightarrow> resumeAwareFileBytes X fs (ms_LocalPath ms)
      | KindOllamaURL \<Rightarrow>
          if pc_RunDir cfg = [] then 0
          else resumeAwareFileBytes X fs (path_join [pc_RunDir cfg, ''url-fetched'', urlDestName ms])
      | _ \<Rightarrow> 0)"

text \<open>The files of the current snapshot the source selects, with their sizes.\<close>

definition cachedHFSnapshotFiles :: "'f outside \<Rightarrow> fs \<Rightarrow> string \<Rightarrow> model_source \<Rightarrow> (string \<times> int) list" where
  "cachedHFSnapshotFiles X fs cacheRoot ms =
     (if ms_Kind ms \<noteq> KindHF \<or> ms_HFRepo ms = [] \<or> cacheRoot = [] then []
      else case ReadRefCommit (read_text X fs) cacheRoot (ms_HFRepo ms) (ms_HFRevision ms) of
             None \<Rightarrow> []
           | Some sha \<Rightarrow>
               if sha = [] then []
               else map (\<lambda>(rel, n, blob). (rel, n))
                 (filter (\<lambda>(rel, n, blob). \<not> has_suffix rel ''.incomplete'' \<and>
                      UnderSubdir rel (ms_HFSubdir ms) \<and>
                      MatchPatterns rel (ms_HFInclude ms) (ms_HFExclude ms) \<and> n > 0)
                   (ox_walk X fs (SnapshotPath cacheRoot (ms_HFRepo ms) sha))))"

definition cachedHFSnapshot :: "'f outside \<Rightarrow> fs \<Rightarrow> string \<Rightarrow> model_source \<Rightarrow> int \<times> int" where
  "cachedHFSnapshot X fs cacheRoot ms =
     (let sizes = cachedHFSnapshotFiles X fs cacheRoot ms in (sum_sizes (map snd sizes), int (length sizes)))"

section \<open>The budget (download_budget.go)\<close>

record download_budget =
  db_bytes :: int
  db_bytesCached :: int
  db_files :: int
  db_filesCached :: int
  db_canPin :: bool
  db_queue :: "file_progress list"
  db_trees :: "(nat \<times> tree_entry list) list"

definition no_budget :: download_budget where
  "no_budget = \<lparr>db_bytes = 0, db_bytesCached = 0, db_files = 0, db_filesCached = 0, db_canPin = False,
     db_queue = [], db_trees = []\<rparr>"

definition givenUp :: "download_budget \<Rightarrow> download_budget" where
  "givenUp b = no_budget\<lparr>db_bytesCached := db_bytesCached b, db_filesCached := db_filesCached b,
     db_trees := db_trees b\<rparr>"

definition estimateHFSource :: "'f outside \<Rightarrow> pass_cfg \<Rightarrow> model_source \<Rightarrow> string + repo_estimate" where
  "estimateHFSource X cfg ms =
     EstimateRepo (ox_hub X)
       \<lparr>hc_Repo = ms_HFRepo ms, hc_Revision = ms_HFRevision ms, hc_Token = pc_HFToken cfg, hc_Endpoint = pc_HFEndpoint cfg\<rparr>
       (ms_HFInclude ms) (ms_HFExclude ms) (ms_HFSubdir ms)"

text \<open>The first loop, over every source of the pass: \<open>None\<close> when one of them belongs to the daemon.\<close>

record budget_scan =
  bs_urls :: "string list"
  bs_rows :: "file_progress list"
  bs_hf :: "model_source list"
  bs_budget :: download_budget

definition url_row :: "'f outside \<Rightarrow> fs \<Rightarrow> pass_cfg \<Rightarrow> model_source \<Rightarrow> file_progress" where
  "url_row X fs cfg ms =
     (let n = cachedURLResumeBytes X fs cfg ms; fin = finishedURLFile X fs cfg ms
      in \<lparr>fp_Path = urlDisplayName ms, fp_BytesTotal = 0,
          fp_BytesCompleted = (if fin \<or> n > 0 then n else 0),
          fp_Status = (if fin then FileDone else FileWaiting)\<rparr>)"

definition scan_url :: "'f outside \<Rightarrow> fs \<Rightarrow> pass_cfg \<Rightarrow> model_source \<Rightarrow> budget_scan \<Rightarrow> budget_scan" where
  "scan_url X fs cfg ms s =
     (if urlForSource ms = [] then s
      else s\<lparr>bs_urls := bs_urls s @ [urlForSource ms], bs_rows := bs_rows s @ [url_row X fs cfg ms],
             bs_budget := (bs_budget s)
               \<lparr>db_bytesCached := wrap64 (db_bytesCached (bs_budget s) + cachedURLResumeBytes X fs cfg ms),
                db_filesCached := db_filesCached (bs_budget s) + (if finishedURLFile X fs cfg ms then 1 else 0)\<rparr>\<rparr>)"

definition scan_hf :: "'f outside \<Rightarrow> fs \<Rightarrow> pass_cfg \<Rightarrow> model_source \<Rightarrow> budget_scan \<Rightarrow> budget_scan" where
  "scan_hf X fs cfg ms s =
     (if ms_Kind ms \<noteq> KindHF then s
      else case cachedHFSnapshot X fs (hfCacheRoot cfg) ms of
             (b, n) \<Rightarrow>
               s\<lparr>bs_hf := bs_hf s @ [ms],
                 bs_budget := (bs_budget s)\<lparr>db_bytesCached := wrap64 (db_bytesCached (bs_budget s) + b),
                   db_filesCached := db_filesCached (bs_budget s) + n\<rparr>\<rparr>)"

fun scan_sources ::
  "'f outside \<Rightarrow> fs \<Rightarrow> pass_cfg \<Rightarrow> model_source list \<Rightarrow> budget_scan \<Rightarrow> budget_scan option" where
  "scan_sources X fs cfg [] s = Some s"
| "scan_sources X fs cfg (ms # mss) s =
     (if ms_Kind ms = KindOllama then None
      else scan_sources X fs cfg mss (scan_hf X fs cfg ms (scan_url X fs cfg ms s)))"

definition add_urls :: "budget_scan \<Rightarrow> int \<Rightarrow> file_progress list \<Rightarrow> download_budget" where
  "add_urls s n rows =
     (bs_budget s)\<lparr>db_bytes := wrap64 (db_bytes (bs_budget s) + n),
        db_files := db_files (bs_budget s) + int (length (bs_urls s)),
        db_queue := db_queue (bs_budget s) @ rows\<rparr>"

definition probe_size :: "fetch_error + (int \<times> string) \<Rightarrow> fetch_error + int" where
  "probe_size r = (case r of Inl e \<Rightarrow> Inl e | Inr (n, _) \<Rightarrow> Inr n)"

text \<open>The URLs: \<open>Inl\<close> when their sizes are not all known.\<close>

definition budget_urls :: "'f outside \<Rightarrow> nat \<Rightarrow> pass_cfg \<Rightarrow> budget_scan \<Rightarrow> download_budget + download_budget" where
  "budget_urls X t cfg s =
     (if bs_urls s = [] then Inr (bs_budget s)
      else case estimateHFResolveURLList (ox_hub X) (ox_url_split X) (pc_HFToken cfg) (pc_HFEndpoint cfg) (bs_urls s) of
             (n, True) \<Rightarrow> Inr (add_urls s n (bs_rows s))
           | (_, False) \<Rightarrow>
               (case SumProbeContentLength (map (probe_size \<circ> ox_head X t) (bs_urls s)) of
                  (n, ok, allKnown) \<Rightarrow>
                    if ok \<and> allKnown then
                      Inr (add_urls s n
                        (case bs_rows s of [row] \<Rightarrow> [row\<lparr>fp_BytesTotal := n\<rparr>] | rows \<Rightarrow> rows))
                    else Inl (givenUp (bs_budget s))))"

definition hf_row :: "(string \<times> int) list \<Rightarrow> tree_entry \<Rightarrow> file_progress" where
  "hf_row cached e =
     (let n = (case map_of (rev cached) (te_Path e) of None \<Rightarrow> 0 | Some n \<Rightarrow> n);
          fp = \<lparr>fp_Path = te_Path e, fp_BytesTotal = te_Size e, fp_BytesCompleted = 0, fp_Status = FileWaiting\<rparr>
      in if n > 0 then
           fp\<lparr>fp_Status := FileDone,
              fp_BytesCompleted := (if fp_BytesTotal fp > 0 \<and> n > fp_BytesTotal fp then fp_BytesTotal fp else n)\<rparr>
         else fp)"

definition set_tree :: "model_source \<Rightarrow> tree_entry list \<Rightarrow> download_budget \<Rightarrow> download_budget" where
  "set_tree ms entries b = (if entries = [] then b else b\<lparr>db_trees := obj_put (ms_Index ms) entries (db_trees b)\<rparr>)"

fun budget_hf ::
  "'f outside \<Rightarrow> fs \<Rightarrow> pass_cfg \<Rightarrow> model_source list \<Rightarrow> download_budget \<Rightarrow> download_budget + download_budget" where
  "budget_hf X fs cfg [] b = Inr b"
| "budget_hf X fs cfg (ms # mss) b =
     (case estimateHFSource X cfg ms of
        Inl e \<Rightarrow> Inl (givenUp b)
      | Inr est \<Rightarrow>
          let b = set_tree ms (re_Entries est) b
          in if \<not> re_Complete est \<or> re_Bytes est \<le> 0 then Inl (givenUp b)
             else budget_hf X fs cfg mss
               (b\<lparr>db_bytes := wrap64 (db_bytes b + re_Bytes est), db_files := db_files b + int (re_Files est),
                  db_queue := db_queue b @ map (hf_row (cachedHFSnapshotFiles X fs (hfCacheRoot cfg) ms)) (re_Entries est)\<rparr>))"

definition pass_sources :: "model_source \<Rightarrow> model_source option \<Rightarrow> model_source list \<Rightarrow> model_source list" where
  "pass_sources main mmproj extras = extras @ (case mmproj of None \<Rightarrow> [] | Some m \<Rightarrow> [m]) @ [main]"

definition estimateDownloadBudget ::
  "'f outside \<Rightarrow> nat \<Rightarrow> fs \<Rightarrow> pass_cfg \<Rightarrow> model_source \<Rightarrow> model_source option \<Rightarrow> model_source list \<Rightarrow> download_budget" where
  "estimateDownloadBudget X t fs cfg main mmproj extras =
     (case scan_sources X fs cfg (pass_sources main mmproj extras)
             \<lparr>bs_urls = [], bs_rows = [], bs_hf = [], bs_budget = no_budget\<rparr> of
        None \<Rightarrow> no_budget
      | Some s \<Rightarrow>
          (case budget_urls X t cfg s of
             Inl b \<Rightarrow> b
           | Inr b \<Rightarrow>
               (case budget_hf X fs cfg (bs_hf s) b of
                  Inl b \<Rightarrow> b
                | Inr b \<Rightarrow> b\<lparr>db_canPin := db_bytes b > 0\<rparr>)))"

section \<open>Seeding (download_budget.go)\<close>

definition fileListForPass :: "bool \<Rightarrow> file_progress list \<Rightarrow> file_progress list" where
  "fileListForPass force queue =
     (if queue = [] then []
      else if \<not> force then queue
      else map (\<lambda>f. f\<lparr>fp_Status := FileWaiting, fp_BytesCompleted := 0\<rparr>) queue)"

definition seedCompletedFiles :: "bool \<Rightarrow> int \<Rightarrow> int" where
  "seedCompletedFiles force cached = (if force then 0 else cached)"

definition seedCompletedForPass :: "bool \<Rightarrow> int \<Rightarrow> int" where
  "seedCompletedForPass force cached = (if force then 0 else cached)"

text \<open>What \<open>enterDownloadPhase\<close> does with a budget; two clock readings.\<close>

definition seed_budget ::
  "'f float_ops \<Rightarrow> int \<Rightarrow> int \<Rightarrow> bool \<Rightarrow> download_budget \<Rightarrow> 'f mgr \<Rightarrow> 'f mgr" where
  "seed_budget F now now' force b m =
     (if db_canPin b \<and> db_bytes b > 0 then
        (let m = SeedDownloadBudget F now (db_bytes b) (seedCompletedForPass force (db_bytesCached b)) m;
             queue = fileListForPass force (db_queue b)
         in if queue \<noteq> [] then SeedDownloadFileList F now' queue m
            else if db_files b > 0 then SeedDownloadFiles F now' (db_files b) (seedCompletedFiles force (db_filesCached b)) m
            else m)
      else m)"

section \<open>Where a source lands\<close>

lemma index_byte_first: "c \<notin> set a \<Longrightarrow> index_byte (a @ c # b) c = Some (length a)"
  by (induction a) auto

lemma last_index_byte_last: "c \<notin> set b \<Longrightarrow> last_index_byte (a @ c # b) c = Some (length a)"
  using index_byte_first [of c "rev b" "rev a"] by (simp add: last_index_byte_def)

lemma last_index_byte_drop:
  assumes "last_index_byte s c = Some i"
  shows "c \<notin> set (drop (i + 1) s)"
proof -
  obtain n where n: "index_byte (rev s) c = Some n" "i = length s - 1 - n"
    using assms by (auto simp: last_index_byte_def)
  have "n < length s" "c \<notin> set (take n (rev s))" using index_byte_Some [OF n(1)] by simp_all
  then have "c \<notin> set (rev (drop (length s - n) s))" by (simp add: take_rev)
  moreover have "i + 1 = length s - n" using n(2) \<open>n < length s\<close> by simp
  ultimately show ?thesis by simp
qed

lemma path_base_name:
  assumes "CHR ''/'' \<notin> set s" "s \<noteq> []"
  shows "path_base s = s"
proof -
  have "last s \<noteq> CHR ''/''" using assms by (metis last_in_set)
  then have "dropWhile (\<lambda>c. c = CHR ''/'') (rev s) = rev s"
    using assms(2) by (cases s rule: rev_cases) simp_all
  then show ?thesis using assms split_on_none [OF assms(1)] by (simp add: path_base_def Let_def)
qed

lemma urlDestName_proper:
  assumes "CHR ''/'' \<notin> set (ms_URLSha256 ms)"
  shows "CHR ''/'' \<notin> set (urlDestName ms) \<and> proper_seg (urlDestName ms)"
proof (cases "ms_URLSha256 ms = []")
  case False
  have "ms_URLSha256 ms @ ''.gguf'' \<noteq> ''..''" "ms_URLSha256 ms @ ''.gguf'' \<noteq> ''.''"
    using False by (auto dest: arg_cong [of _ _ length])
  then show ?thesis using False assms by (simp add: urlDestName_def proper_seg_def)
next
  case True
  define cut where "cut i = takeWhile (\<lambda>c. c \<noteq> CHR ''?'' \<and> c \<noteq> CHR ''#'') (drop (i + 1) (ms_URL ms))" for i
  have cut: "CHR ''/'' \<notin> set (cut i)" if "last_index_byte (ms_URL ms) (CHR ''/'') = Some i" for i
    using last_index_byte_drop [OF that] unfolding cut_def by (metis set_takeWhileD)
  have base: "path_base (cut i) = (if cut i = [] then ''.'' else cut i)"
    if "last_index_byte (ms_URL ms) (CHR ''/'') = Some i" for i
    using path_base_name [OF cut [OF that]] by (simp add: path_base_def)
  have fold: "takeWhile (\<lambda>c. c \<noteq> CHR ''?'' \<and> c \<noteq> CHR ''#'') (drop (Suc i) (ms_URL ms)) = cut i" for i
    by (simp add: cut_def)
  show ?thesis
    using True cut base
    by (auto simp: urlDestName_def proper_seg_def defaultURLModelFilename_def Let_def fold split: option.split)
qed

text \<open>The file an ollama:// URL is fetched to lies directly in the url-fetched directory, whatever the
URL says: no path, query or fragment leads out of it.\<close>
theorem fetched_file_stays_in_directory:
  assumes "CHR ''/'' \<notin> set (ms_URLSha256 ms)" "path_is_abs dir" "path_clean dir = dir" "dir \<noteq> ''/''"
  shows "path_join [dir, urlDestName ms] = dir @ ''/'' @ urlDestName ms \<and> CHR ''/'' \<notin> set (urlDestName ms)"
proof -
  have n: "CHR ''/'' \<notin> set (urlDestName ms)" "proper_seg (urlDestName ms)"
    using urlDestName_proper [OF assms(1)] by simp_all
  have "dir \<noteq> []" using assms(2) by (auto simp: path_is_abs_def has_prefix_def)
  moreover have "urlDestName ms \<noteq> []" using n(2) by (auto simp: proper_seg_def)
  moreover have "list_all proper_seg (split_on (CHR ''/'') (urlDestName ms))"
    using n by (simp add: split_on_none)
  ultimately show ?thesis
    using clean_proper_below [OF _ assms(2-4)] n(1) by (simp add: path_join_def Let_def)
qed

definition ex_source :: model_source where
  "ex_source = (new_source 1 RoleMain [])\<lparr>ms_URL := ''https://h/a/../../etc/passwd?x=1''\<rparr>"

theorem fetched_file_stays_in_directory_witness:
  "path_join [''/run/url-fetched'', urlDestName ex_source] = ''/run/url-fetched/'' @ urlDestName ex_source"
proof -
  have "path_clean ''/run/url-fetched'' = ''/run/url-fetched''" by code_simp
  then show ?thesis
    using fetched_file_stays_in_directory [of ex_source "''/run/url-fetched''"]
    by (simp add: ex_source_def new_source_def path_is_abs_def has_prefix_def)
qed

text \<open>A slash in the query names the file: sources that differ in the object but end in the same
query are fetched to one and the same file, so the bytes of one replace those of the other.\<close>
theorem query_names_the_file:
  assumes "CHR ''/'' \<notin> set sig"
  shows "urlDestName (ms\<lparr>ms_URL := u @ ''?sig=a/'' @ sig, ms_URLSha256 := []\<rparr>) =
    urlDestName (ms\<lparr>ms_URL := v @ ''?sig=a/'' @ sig, ms_URLSha256 := []\<rparr>)"
proof -
  have i: "last_index_byte (w @ ''?sig=a/'' @ sig) (CHR ''/'') = Some (length w + 6)" for w
    using last_index_byte_last [OF assms, of "w @ ''?sig=a''"] by simp
  show ?thesis using i [of u] i [of v] by (simp add: urlDestName_def)
qed

theorem query_names_the_file_witness:
  "urlDestName (ex_source\<lparr>ms_URL := ''https://h/one.gguf'' @ ''?sig=a/'' @ ''b'', ms_URLSha256 := []\<rparr>) =
    urlDestName (ex_source\<lparr>ms_URL := ''https://h/two.gguf'' @ ''?sig=a/'' @ ''b'', ms_URLSha256 := []\<rparr>)"
  by (rule query_names_the_file) simp

section \<open>The pinned budget\<close>

definition rows_line_up :: "budget_scan \<Rightarrow> bool" where
  "rows_line_up s \<longleftrightarrow> length (bs_rows s) = length (bs_urls s) \<and> db_files (bs_budget s) = 0 \<and>
     db_queue (bs_budget s) = []"

lemma scan_sources_lines_up:
  "scan_sources X fs cfg mss s = Some s' \<Longrightarrow> rows_line_up s \<Longrightarrow> rows_line_up s'"
proof (induction X fs cfg mss s rule: scan_sources.induct)
  case (2 X fs cfg ms mss s)
  have "rows_line_up (scan_hf X fs cfg ms (scan_url X fs cfg ms s))"
    using 2(3) by (auto simp: rows_line_up_def scan_hf_def scan_url_def split: prod.split)
  then show ?case using 2 by (auto split: if_splits)
qed auto

lemma estimate_files: "estimateHFSource X cfg ms = Inr est \<Longrightarrow> re_Files est = length (re_Entries est)"
  by (auto simp: estimateHFSource_def EstimateRepo_def no_estimate_def Let_def split: sum.splits if_splits)

lemma budget_urls_counts:
  "budget_urls X t cfg s = Inr b \<Longrightarrow> rows_line_up s \<Longrightarrow> db_files b = int (length (db_queue b))"
  by (auto simp: budget_urls_def add_urls_def rows_line_up_def Let_def
      split: if_splits prod.splits bool.splits list.splits)

lemma budget_hf_counts:
  "budget_hf X fs cfg mss b = Inr b' \<Longrightarrow> db_files b = int (length (db_queue b)) \<Longrightarrow>
     db_files b' = int (length (db_queue b'))"
proof (induction X fs cfg mss b rule: budget_hf.induct)
  case (2 X fs cfg ms mss b)
  show ?case
  proof (cases "estimateHFSource X cfg ms")
    case (Inr est)
    then show ?thesis
      using 2 estimate_files [OF Inr] by (auto simp: Let_def set_tree_def split: if_splits)
  qed (use 2 in simp)
qed simp

lemma budget_counts:
  "db_files (estimateDownloadBudget X t fs cfg main mmproj extras) =
     int (length (db_queue (estimateDownloadBudget X t fs cfg main mmproj extras)))"
proof (cases "scan_sources X fs cfg (pass_sources main mmproj extras)
    \<lparr>bs_urls = [], bs_rows = [], bs_hf = [], bs_budget = no_budget\<rparr>")
  case None
  then show ?thesis by (simp add: estimateDownloadBudget_def no_budget_def)
next
  case (Some s)
  have "rows_line_up s"
    by (rule scan_sources_lines_up [OF Some]) (simp add: rows_line_up_def no_budget_def)
  then have "budget_urls X t cfg s = Inr b \<Longrightarrow> db_files b = int (length (db_queue b))" for b
    by (rule budget_urls_counts [rotated])
  moreover have "budget_urls X t cfg s = Inl b \<Longrightarrow> db_files b = 0 \<and> db_queue b = []" for b
    by (auto simp: budget_urls_def givenUp_def no_budget_def split: if_splits prod.splits bool.splits)
  moreover have "budget_hf X fs cfg mss b = Inl b' \<Longrightarrow> db_files b' = 0 \<and> db_queue b' = []" for mss b b'
    by (induction X fs cfg mss b rule: budget_hf.induct)
      (auto simp: givenUp_def no_budget_def Let_def split: sum.splits if_splits)
  ultimately show ?thesis
    using Some budget_hf_counts
    by (fastforce simp: estimateDownloadBudget_def split: sum.split)
qed

text \<open>A budget counts exactly the files it lists: so what a
pass seeds is the total and the list of its files, and the branch for a count without a list is dead.\<close>
theorem pinned_budget_lists_its_files:
  "(let b = estimateDownloadBudget X t fs cfg main mmproj extras;
        queue = fileListForPass force (db_queue b);
        m' = SeedDownloadBudget F now (db_bytes b) (seedCompletedForPass force (db_bytesCached b)) m
    in db_files b = int (length (db_queue b)) \<and>
       seed_budget F now now' force b m =
         (if db_canPin b \<and> db_bytes b > 0
          then (if queue = [] then m' else SeedDownloadFileList F now' queue m') else m))"
proof -
  have "fileListForPass force q = [] \<longleftrightarrow> q = []" for q
    by (simp add: fileListForPass_def)
  then show ?thesis
    using budget_counts [of X t fs cfg main mmproj extras] by (simp add: Let_def seed_budget_def)
qed

end
