(* ===== verification/Ensure.thy ===== *)
theory Ensure
  imports Budget "HOL-Library.State_Monad"
begin

text \<open>
  One pass of the lifecycle, from the pending request to the readiness marker
  (\<open>internal/lifecycle/ensure.go\<close>, with the reuse decisions of \<open>sidecar.go\<close> and the verdicts of
  \<open>drift.go\<close>). A handler is a computation over \<open>world\<close>: the manager, the file system with everything
  another process could have observed of it, the bookkeeping of the pass, and the calls the pass made
  to its upstreams, in order. An early return with an error is \<open>Inl\<close>. Logging and metrics are left
  out. One counter tells clock readings and outside calls apart.
\<close>

section \<open>The world of a pass\<close>

record pass_state =
  pa_main :: model_source
  pa_mmproj :: "model_source option"
  pa_extras :: "model_source list"
  pa_force :: bool
  pa_entered :: bool
  pa_trees :: "(nat \<times> tree_entry list) list"
  pa_drift :: drift_notes

datatype call =
    CPhase progress_phase
  | CEstimate
  | CDownload string string
  | CHF string
  | CPull string
  | CRegister "string list" "(string \<times> string) list"
  | CProbe string
  | CHub string
  | CReady

record 'f world =
  wo_lc :: "'f lifecycle"
  wo_pass :: pass_state
  wo_fs :: fs
  wo_seen :: "fs list"
  wo_calls :: "call list"
  wo_tick :: nat

type_synonym ('f, 'a) pass = "('f world, 'a) state"
type_synonym ('f, 'a) fallible = "('f world, pass_error + 'a) state"

definition reads :: "('f world \<Rightarrow> 'a) \<Rightarrow> ('f, 'a) pass" where
  "reads f = State (\<lambda>w. (f w, w))"

definition modifies :: "('f world \<Rightarrow> 'f world) \<Rightarrow> ('f, unit) pass" where
  "modifies f = State (\<lambda>w. ((), f w))"

definition count_up :: "('f, nat) pass" where
  "count_up = State (\<lambda>w. (wo_tick w, w\<lparr>wo_tick := Suc (wo_tick w)\<rparr>))"

definition clock :: "'f outside \<Rightarrow> ('f, int) pass" where
  "clock X = do { n \<leftarrow> count_up; State_Monad.return (ox_now X n) }"

definition calls :: "call \<Rightarrow> ('f, unit) pass" where
  "calls c = modifies (\<lambda>w. w\<lparr>wo_calls := wo_calls w @ [c]\<rparr>)"

definition on_lc :: "('f lifecycle \<Rightarrow> 'f lifecycle) \<Rightarrow> ('f, unit) pass" where
  "on_lc f = modifies (\<lambda>w. w\<lparr>wo_lc := f (wo_lc w)\<rparr>)"

definition on_pass :: "(pass_state \<Rightarrow> pass_state) \<Rightarrow> ('f, unit) pass" where
  "on_pass f = modifies (\<lambda>w. w\<lparr>wo_pass := f (wo_pass w)\<rparr>)"

text \<open>An operation on the file system, with what could be observed of it.\<close>

definition observe :: "fs list \<Rightarrow> ('f, unit) pass" where
  "observe tr = modifies (\<lambda>w. w\<lparr>wo_fs := last (wo_fs w # tr), wo_seen := wo_seen w @ tr\<rparr>)"

definition on_fs :: "(nat \<Rightarrow> fs \<Rightarrow> 'e option \<times> fs list) \<Rightarrow> ('f, 'e option) pass" where
  "on_fs f = do {
     n \<leftarrow> count_up;
     fs \<leftarrow> reads wo_fs;
     let (e, tr) = f n fs;
     observe tr;
     State_Monad.return e
   }"

definition sink :: "'f outside \<Rightarrow> (int \<times> sink_event) list \<Rightarrow> ('f, unit) pass" where
  "sink X evs = on_lc (\<lambda>l. l\<lparr>lc_progress := sink_run (ox_floats X) evs (lc_progress l)\<rparr>)"

section \<open>Phases and failures (ensure.go)\<close>

definition set_phase :: "'f outside \<Rightarrow> progress_phase \<Rightarrow> ('f, unit) pass" where
  "set_phase X p = do {
     now \<leftarrow> clock X;
     now' \<leftarrow> clock X;
     calls (CPhase p);
     on_lc (setPhase (ox_floats X) now now' p)
   }"

definition fail :: "'f outside \<Rightarrow> string \<Rightarrow> bool \<Rightarrow> ('f, 'a) fallible" where
  "fail X msg retriable = do {
     now \<leftarrow> clock X;
     on_lc (\<lambda>l. snd (pass_fail (ox_floats X) now msg retriable l));
     State_Monad.return (Inl (if retriable then PassRetriable msg else PassPermanent msg))
   }"

definition recordVerify :: "'f outside \<Rightarrow> bool \<Rightarrow> ('f, unit) pass" where
  "recordVerify X ok = do {
     now \<leftarrow> clock X;
     now' \<leftarrow> clock X;
     on_lc (upd (ox_floats X) now' (\<lambda>s. s\<lparr>ps_LastVerifyAt := Some now, ps_LastVerifyOK := Some ok\<rparr>))
   }"

text \<open>\<open>onDiskSize\<close>: of a file its length, of a directory the sizes under it.\<close>

definition onDiskSize :: "'f outside \<Rightarrow> fs \<Rightarrow> string \<Rightarrow> int" where
  "onDiskSize X fs p =
     (if ox_is_dir X fs p then sum_sizes (map (\<lambda>(rel, n, blob). n) (ox_walk X fs p))
      else case file_at fs p of None \<Rightarrow> 0 | Some d \<Rightarrow> int (length d))"

definition reconcile :: "'f outside \<Rightarrow> string list \<Rightarrow> ('f, unit) pass" where
  "reconcile X paths = do {
     fs \<leftarrow> reads wo_fs;
     now \<leftarrow> clock X;
     on_lc (reconcileModelBytes (ox_floats X) now (map (\<lambda>p. (p, onDiskSize X fs p)) paths))
   }"

text \<open>\<open>Ready\<close> after a pass whose daemon was alive before it.\<close>

definition store_ready :: "'f outside \<Rightarrow> bool \<Rightarrow> ('f, unit) pass" where
  "store_ready X with_bytes = do {
     n \<leftarrow> count_up;
     calls CReady;
     case ox_ready X n of
       Inl _ \<Rightarrow> State_Monad.return ()
     | Inr rs \<Rightarrow> do {
         now \<leftarrow> clock X;
         (if with_bytes then on_lc (setModelBytes (ox_floats X) now (rs_ModelBytes rs)) else State_Monad.return ());
         on_lc (\<lambda>l. l\<lparr>lc_lastReady := Some rs\<rparr>)
       }
   }"

text \<open>\<open>hfTree\<close> and \<open>enterDownloadPhase\<close>.\<close>

definition hfTree :: "pass_state \<Rightarrow> model_source \<Rightarrow> tree_entry list" where
  "hfTree p ms = (case map_of (pa_trees p) (ms_Index ms) of None \<Rightarrow> [] | Some es \<Rightarrow> es)"

definition enterDownloadPhase :: "'f outside \<Rightarrow> pass_cfg \<Rightarrow> ('f, unit) pass" where
  "enterDownloadPhase X cfg = do {
     p \<leftarrow> reads wo_pass;
     if pa_entered p then State_Monad.return () else do {
       on_pass (\<lambda>p. p\<lparr>pa_entered := True\<rparr>);
       set_phase X PhaseDownload;
       calls CEstimate;
       n \<leftarrow> count_up;
       fs \<leftarrow> reads wo_fs;
       let b = estimateDownloadBudget X n fs cfg (pa_main p) (pa_mmproj p) (pa_extras p);
       on_pass (\<lambda>p. p\<lparr>pa_trees := db_trees b\<rparr>);
       now \<leftarrow> clock X;
       now' \<leftarrow> clock X;
       on_lc (\<lambda>l. l\<lparr>lc_progress := seed_budget (ox_floats X) now now' (pa_force p) b (lc_progress l)\<rparr>)
     }
   }"

section \<open>What the operator reads (ensure.go)\<close>

text \<open>\<open>errors.As\<close> a status error, and \<open>errors.Is ErrSizeMismatch\<close>, through the wrappers.\<close>

fun http_status :: "fetch_error \<Rightarrow> int option" where
  "http_status (HttpStatus m code body) = Some code"
| "http_status (Retryable e) = http_status e"
| "http_status (TooManyRetries e) = http_status e"
| "http_status _ = None"

fun is_size_mismatch :: "fetch_error \<Rightarrow> bool" where
  "is_size_mismatch (SizeMismatch _ _) = True"
| "is_size_mismatch (Retryable e) = is_size_mismatch e"
| "is_size_mismatch (TooManyRetries e) = is_size_mismatch e"
| "is_size_mismatch _ = False"

definition urlDownloadUserMessage :: "(fetch_error \<Rightarrow> string) \<Rightarrow> fetch_error \<Rightarrow> string \<times> bool" where
  "urlDownloadUserMessage text err =
     (let rest = (if is_size_mismatch err
            then (''Downloaded size does not match the server'' @ [CHR 0x27] @
                  ''s advertised size; check the MODEL_SOURCE URL ('' @ text err @ '')'', False)
            else (''download error; will retry ('' @ text err @ '')'', True))
      in case http_status err of
           None \<Rightarrow> rest
         | Some code \<Rightarrow>
             if code = 401 \<or> code = 403 then
               (''Access denied (HTTP '' @ itoa code @ '') downloading the model URL: check the URL credentials or '' @
                ''that the object is publicly readable ('' @ text err @ '')'', False)
             else if code = 404 then
               (''Model URL not found (HTTP 404): check the MODEL_SOURCE URL is correct ('' @ text err @ '')'', False)
             else if code = 408 \<or> code = 429 then
               (''Upstream throttled the download (HTTP '' @ itoa code @ ''); will retry ('' @ text err @ '')'', True)
             else if 400 \<le> code \<and> code < 500 then
               (''Download failed with HTTP '' @ itoa code @ '': check the MODEL_SOURCE URL ('' @ text err @ '')'', False)
             else rest)"

definition hf_hint :: "int \<Rightarrow> string" where
  "hf_hint code =
     (if code = CodeRepoNotFound then ''HuggingFace repository not found: check the MODEL_SOURCE owner/repo is spelled correctly and the repo exists''
      else if code = CodeGated then ''HuggingFace repository is gated: request access on the model page and set HF_TOKEN to an authorized token''
      else if code = CodeTokenMissing then ''HuggingFace authentication failed: set HF_TOKEN to a token with access to this repository''
      else if code = CodeRevision then ''HuggingFace revision not found: check --revision points to a valid commit, branch, or tag''
      else if code = CodeDiskFull then ''Disk full while downloading from HuggingFace: free space on the model cache volume''
      else if code = CodePermission then ''Permission denied writing the HuggingFace cache: check the cache volume mount permissions''
      else if code = CodeBadArgs then ''Invalid HuggingFace download arguments: check the MODEL_SOURCE flags (--include/--exclude/--revision)''
      else if code = CodeNetwork \<or> code = CodeProcessKilled then ''Network error contacting HuggingFace; will retry''
      else ''HuggingFace download failed'')"

definition hfUserMessage :: "run_error \<Rightarrow> string" where
  "hfUserMessage err =
     (case err of
        OtherError msg \<Rightarrow> ''hf download failed: '' @ msg
      | HfError e \<Rightarrow> hf_hint (he_Code e) @ '' ('' @ hf_error_text e @ '')'')"

definition ollamaPullUserMessage :: "(string \<Rightarrow> string) \<Rightarrow> string \<Rightarrow> string \<Rightarrow> string" where
  "ollamaPullUserMessage quote tag msg =
     (let lower = map ascii_lower msg
      in if contains_any lower [''status 404'', ''not found'', ''file does not exist'', ''manifest unknown''] then
           ''Ollama model '' @ quote tag @ '' not found in the library: check the ollama:// tag is a valid model name ('' @ msg @ '')''
         else if contains_any lower [''status 401'', ''status 403'', ''unauthorized'', ''forbidden'', ''access denied''] then
           ''Ollama denied access to model '' @ quote tag @ '': the model may be private or require authentication ('' @ msg @ '')''
         else if contains_any lower [''connection refused'', ''no such host'', ''dial tcp'', ''connection reset''] then
           ''Cannot reach the Ollama daemon while pulling '' @ quote tag @ ''; will retry ('' @ msg @ '')''
         else ''Ollama pull failed for '' @ quote tag @ '' ('' @ msg @ '')'')"

section \<open>The sentinel files (ensure.go)\<close>

definition writeSentinelPath :: "'f outside \<Rightarrow> pass_cfg \<Rightarrow> string \<Rightarrow> ('f, sentinel_error option) pass" where
  "writeSentinelPath X cfg target =
     (if pc_RunDir cfg = [] then State_Monad.return None
      else do {
        k \<leftarrow> count_up;
        on_fs (\<lambda>n. sentinel_Write (ox_io X k) (ox_io X n) (ox_stamp X n) (pc_RunDir cfg) target)
      })"

definition writeSentinelHF :: "'f outside \<Rightarrow> pass_cfg \<Rightarrow> string \<Rightarrow> ('f, sentinel_error option) pass" where
  "writeSentinelHF X cfg enginePath =
     (if pc_RunDir cfg = [] \<or> enginePath = [] then State_Monad.return None
      else writeSentinelPath X cfg enginePath)"

definition writeExtraPaths :: "'f outside \<Rightarrow> pass_cfg \<Rightarrow> string list \<Rightarrow> ('f, sentinel_error option) pass" where
  "writeExtraPaths X cfg paths =
     (if pc_RunDir cfg = [] then State_Monad.return None
      else on_fs (\<lambda>n. WriteExtra (ox_io X n) (pc_RunDir cfg) paths))"

definition clearSentinelForForce :: "'f outside \<Rightarrow> pass_cfg \<Rightarrow> ('f, unit) pass" where
  "clearSentinelForForce X cfg =
     (if pc_RunDir cfg = [] then State_Monad.return ()
      else do {
        k \<leftarrow> count_up;
        k' \<leftarrow> count_up;
        e \<leftarrow> on_fs (\<lambda>n. sentinel_Remove (\<lambda>i. ox_io X (if i = 0 then k else if i = 1 then k' else n)) (pc_RunDir cfg));
        State_Monad.return ()
      })"

section \<open>Reuse (sidecar.go, drift.go)\<close>

text \<open>\<open>resolveDrift\<close> with the manager's banner and the notes of the pass.\<close>

definition resolve_drift :: "'f outside \<Rightarrow> pass_cfg \<Rightarrow> string \<Rightarrow> drift_verdict \<Rightarrow> ('f, bool) pass" where
  "resolve_drift X cfg what v = do {
     w \<leftarrow> reads id;
     let (ok, d, note) = resolveDrift (pc_DriftFollow cfg) what v
           (pa_drift (wo_pass w), ps_Note (mg_state (lc_progress (wo_lc w))));
     now \<leftarrow> clock X;
     (if ok then on_lc (upd (ox_floats X) now (\<lambda>s. s\<lparr>ps_Note := note\<rparr>)) else State_Monad.return ());
     on_pass (\<lambda>p. p\<lparr>pa_drift := d\<rparr>);
     State_Monad.return ok
   }"

definition url_record :: "string \<Rightarrow> string" where "url_record dest = dest @ urlSidecarSuffix"

definition local_verifier :: "'f outside \<Rightarrow> fs \<Rightarrow> fetch_error verifier" where
  "local_verifier X fs = disk_verifier (vl_hash (ox_lib X)) (file_at fs)"

definition reuseURLDownload :: "'f outside \<Rightarrow> pass_cfg \<Rightarrow> model_source \<Rightarrow> string \<Rightarrow> verify_level \<Rightarrow> ('f, bool) pass" where
  "reuseURLDownload X cfg ms dest level = do {
     fs \<leftarrow> reads wo_fs;
     case record_hit (local_verifier X fs) (path_dir dest) level (urlSourceIdentity (ox_lib X) ms)
            (verify_Read (ox_read_err X) (vl_time_ok (ox_lib X)) (url_record dest) fs) of
       None \<Rightarrow> State_Monad.return False
     | Some sc \<Rightarrow>
         if level = LevelRemote then do {
           n \<leftarrow> count_up;
           calls (CProbe (ms_URL ms));
           resolve_drift X cfg (vs_URLRedacted (sd_Source sc)) (checkURLDrift (ox_head X n (ms_URL ms)) sc)
         }
         else State_Monad.return True
   }"

definition removeURLSidecar :: "'f outside \<Rightarrow> string \<Rightarrow> ('f, unit) pass" where
  "removeURLSidecar X dest = do {
     e \<leftarrow> on_fs (\<lambda>n. verify_Remove (ox_io X n) (url_record dest));
     State_Monad.return ()
   }"

definition remove_file :: "'f outside \<Rightarrow> string \<Rightarrow> ('f, unit) pass" where
  "remove_file X p = do {
     e \<leftarrow> on_fs (\<lambda>n. os_remove (ox_io X n) (at p));
     State_Monad.return ()
   }"

definition writeURLSidecar :: "'f outside \<Rightarrow> model_source \<Rightarrow> string \<Rightarrow> verify_level \<Rightarrow> string \<Rightarrow> ('f, unit) pass" where
  "writeURLSidecar X ms dest level etag = do {
     fs \<leftarrow> reads wo_fs;
     case file_at fs dest of
       None \<Rightarrow> State_Monad.return ()
     | Some d \<Rightarrow> do {
         let sha = (if ms_URLSha256 ms = [] \<and> HashesLocally level then vl_hash (ox_lib X) d else ms_URLSha256 ms);
         e \<leftarrow> on_fs (\<lambda>n. verify_Write (ox_io X n) (ox_stamp X n) (url_record dest)
           (zero_sidecar\<lparr>sd_Source := urlSourceIdentity (ox_lib X) ms,
              sd_Files := [\<lparr>vf_Path = path_base dest, vf_Size = int (length d), vf_SHA256 = sha, vf_ETag = etag\<rparr>]\<rparr>));
         State_Monad.return ()
       }
   }"

definition removeHFSidecars :: "'f outside \<Rightarrow> string \<Rightarrow> string \<Rightarrow> verify_source \<Rightarrow> ('f, unit) pass" where
  "removeHFSidecars X cacheRoot repo src = do {
     fs \<leftarrow> reads wo_fs;
     let dir = path_join [HFRepoCacheDir cacheRoot repo, hfSidecarDir];
     let suf = ''-'' @ Fingerprint (vl_hash (ox_lib X)) src @ ''.json'';
     es \<leftarrow> State_Monad.traverse_list
       (\<lambda>name. on_fs (\<lambda>n. verify_Remove (ox_io X n) (path_join [dir, name])))
       (filter (\<lambda>name. has_suffix name suf)
         (case ox_read_dir X fs dir of None \<Rightarrow> [] | Some names \<Rightarrow> names));
     State_Monad.return ()
   }"

definition reuseHFDownload :: "'f outside \<Rightarrow> pass_cfg \<Rightarrow> model_source \<Rightarrow> verify_level \<Rightarrow> ('f, hf_result option) pass" where
  "reuseHFDownload X cfg ms level = do {
     fs \<leftarrow> reads wo_fs;
     let root = hfCacheRoot cfg;
     let want = hfSourceIdentity (pc_HFEndpoint cfg) ms;
     case ReadRefCommit (read_text X fs) root (ms_HFRepo ms) (ms_HFRevision ms) of
       None \<Rightarrow> State_Monad.return None
     | Some sha \<Rightarrow>
         if sha = [] then State_Monad.return None
         else
           let snapshot = SnapshotPath root (ms_HFRepo ms) sha
           in case record_hit (local_verifier X fs) snapshot level want
                (verify_Read (ox_read_err X) (vl_time_ok (ox_lib X))
                  (hfSidecarPath (ox_lib X) root (ms_HFRepo ms) sha want) fs) of
             None \<Rightarrow> State_Monad.return None
           | Some sc \<Rightarrow> do {
               ok \<leftarrow> (if level = LevelRemote then do {
                   calls (CHub (ms_HFRepo ms));
                   resolve_drift X cfg (ms_HFRepo ms)
                     (checkHFDrift (ox_hub X)
                       \<lparr>hc_Repo = ms_HFRepo ms, hc_Revision = ms_HFRevision ms, hc_Token = pc_HFToken cfg,
                        hc_Endpoint = pc_HFEndpoint cfg\<rparr> sc)
                 } else State_Monad.return True);
               State_Monad.return
                 (if ok then Some \<lparr>hr_Path = (if sd_EnginePath sc \<noteq> [] then path_join [snapshot, sd_EnginePath sc] else snapshot),
                    hr_Status = ''cached'', hr_Commit = sha\<rparr>
                  else None)
             }
   }"

definition writeHFSidecar :: "'f outside \<Rightarrow> pass_cfg \<Rightarrow> model_source \<Rightarrow> hf_result \<Rightarrow> ('f, unit) pass" where
  "writeHFSidecar X cfg ms res = do {
     fs \<leftarrow> reads wo_fs;
     let root = hfCacheRoot cfg;
     let sha = (if isResolvedCommit (hr_Commit res) then hr_Commit res
                else case ReadRefCommit (read_text X fs) root (ms_HFRepo ms) (ms_HFRevision ms) of
                       None \<Rightarrow> [] | Some s \<Rightarrow> s);
     if sha = [] then State_Monad.return () else do {
       let snapshot = SnapshotPath root (ms_HFRepo ms) sha;
       let enginePath = relativeEnginePath snapshot (hr_Path res);
       let files = scanHFSnapshot (ox_walk X fs snapshot) ms enginePath;
       if files = [] then State_Monad.return () else do {
         let src = (hfSourceIdentity (pc_HFEndpoint cfg) ms)\<lparr>vs_Commit := sha\<rparr>;
         e \<leftarrow> on_fs (\<lambda>n. verify_Write (ox_io X n) (ox_stamp X n)
           (hfSidecarPath (ox_lib X) root (ms_HFRepo ms) sha src)
           (zero_sidecar\<lparr>sd_Source := src, sd_Files := files, sd_EnginePath := enginePath\<rparr>));
         State_Monad.return ()
       }
     }
   }"

section \<open>Transfers (ensure.go)\<close>

definition downloadURL :: "'f outside \<Rightarrow> model_source \<Rightarrow> ('f, string) fallible" where
  "downloadURL X ms = do {
     n \<leftarrow> count_up;
     fs \<leftarrow> reads wo_fs;
     calls (CDownload (ms_URL ms) (ms_LocalPath ms));
     let t = ox_transfer X n (ms_URL ms) (ms_LocalPath ms) fs;
     observe (tf_trace t);
     sink X (tf_events t);
     case tf_error t of
       Some err \<Rightarrow> (case urlDownloadUserMessage (ox_error_text X) err of (msg, retriable) \<Rightarrow> fail X msg retriable)
     | None \<Rightarrow>
         if ms_URLSha256 ms = [] then State_Monad.return (Inr (tf_etag t))
         else do {
           fs \<leftarrow> reads wo_fs;
           case local_verifier X fs (ms_LocalPath ms) (- 1) (trim_prefix (ms_URLSha256 ms) ''sha256:'') of
             None \<Rightarrow> State_Monad.return (Inr (tf_etag t))
           | Some err \<Rightarrow> do {
               remove_file X (ms_LocalPath ms);
               fail X (''download verify: '' @ ox_error_text X err) True
             }
         }
   }"

definition downloadAndRecordURL ::
  "'f outside \<Rightarrow> pass_cfg \<Rightarrow> model_source \<Rightarrow> string \<Rightarrow> verify_level \<Rightarrow> ('f, unit) fallible" where
  "downloadAndRecordURL X cfg ms dest level = do {
     enterDownloadPhase X cfg;
     removeURLSidecar X dest;
     r \<leftarrow> downloadURL X ms;
     case r of
       Inl e \<Rightarrow> State_Monad.return (Inl e)
     | Inr etag \<Rightarrow> do { writeURLSidecar X ms dest level etag; State_Monad.return (Inr ()) }
   }"

definition hf_request :: "pass_cfg \<Rightarrow> model_source \<Rightarrow> bool \<Rightarrow> tree_entry list \<Rightarrow> hf_config" where
  "hf_request cfg ms force tree =
     \<lparr>hx_HFExe = [], hx_CacheDir = hfCacheRoot cfg, hx_Repo = ms_HFRepo ms, hx_Revision = ms_HFRevision ms,
      hx_AllowPatterns = (case ms_HFInclude ms of [f] \<Rightarrow> [] | ps \<Rightarrow> ps), hx_ExcludePatterns = ms_HFExclude ms,
      hx_HFFile = (case ms_HFInclude ms of [f] \<Rightarrow> f | _ \<Rightarrow> []), hx_Token = pc_HFToken cfg,
      hx_Endpoint = pc_HFEndpoint cfg, hx_MaxWorkers = pc_MaxConcurrentDownloads cfg, hx_ForceReload = force,
      hx_EnableXet = pc_EnableXet cfg, hx_ExtraEnv = [], hx_Tree = tree\<rparr>"

definition runHF :: "'f outside \<Rightarrow> pass_cfg \<Rightarrow> model_source \<Rightarrow> retry_options \<Rightarrow> ('f, hf_result) fallible" where
  "runHF X cfg ms opts = do {
     reused \<leftarrow> (if ro_Force opts then do {
         removeHFSidecars X (hfCacheRoot cfg) (ms_HFRepo ms) (hfSourceIdentity (pc_HFEndpoint cfg) ms);
         State_Monad.return None
       } else reuseHFDownload X cfg ms (passLevel (pc_VerifyLevel cfg) opts));
     case reused of
       Some res \<Rightarrow> State_Monad.return (Inr res)
     | None \<Rightarrow> do {
         enterDownloadPhase X cfg;
         p \<leftarrow> reads wo_pass;
         n \<leftarrow> count_up;
         fs \<leftarrow> reads wo_fs;
         calls (CHF (ms_HFRepo ms));
         let t = ox_hf X n (hf_request cfg ms (ro_Force opts) (hfTree p ms)) fs;
         observe (ht_trace t);
         sink X (ht_events t);
         case ht_result t of
           Inl err \<Rightarrow> fail X (hfUserMessage err) (IsRetriable (Some err))
         | Inr res \<Rightarrow> do { writeHFSidecar X cfg ms res; State_Monad.return (Inr res) }
       }
   }"

definition pull :: "'f outside \<Rightarrow> string \<Rightarrow> ('f, string option) pass" where
  "pull X tag = do {
     n \<leftarrow> count_up;
     calls (CPull tag);
     let (e, evs) = ox_pull X n tag;
     sink X evs;
     State_Monad.return e
   }"

definition register :: "'f outside \<Rightarrow> string list \<Rightarrow> (string \<times> string) list \<Rightarrow> ('f, string option) pass" where
  "register X paths known = do {
     n \<leftarrow> count_up;
     calls (CRegister paths known);
     let (e, evs) = ox_register X n paths known;
     sink X evs;
     State_Monad.return e
   }"

definition registerWithKnownDigests :: "'f outside \<Rightarrow> string \<Rightarrow> ('f, string option) pass" where
  "registerWithKnownDigests X dest = do {
     fs \<leftarrow> reads wo_fs;
     register X [dest]
       (case verify_Read (ox_read_err X) (vl_time_ok (ox_lib X)) (url_record dest) fs of
          None \<Rightarrow> []
        | Some sc \<Rightarrow>
            (case find (\<lambda>f. vf_SHA256 f \<noteq> [] \<and> path_base (vf_Path f) = path_base dest) (sd_Files sc) of
               None \<Rightarrow> [] | Some f \<Rightarrow> [(dest, ''sha256:'' @ vf_SHA256 f)]))
   }"

section \<open>Sources (ensure.go)\<close>

definition mkdir_all :: "'f outside \<Rightarrow> ('f, io_error option) pass" where
  "mkdir_all X = on_fs (\<lambda>n. os_mkdir_all (ox_io X n))"

definition mkdir_text :: "'f outside \<Rightarrow> string \<Rightarrow> io_error \<Rightarrow> string" where
  "mkdir_text X dir e = ''MkdirAll '' @ dir @ '': '' @ ox_sentinel_text X (SentinelIO e)"

text \<open>What a forced pass removes before it downloads a file again.\<close>

definition drop_old :: "'f outside \<Rightarrow> string \<Rightarrow> ('f, unit) pass" where
  "drop_old X dest = do {
     removeURLSidecar X dest;
     remove_file X dest;
     remove_file X (dest @ ''.part'')
   }"

definition fetch_file ::
  "'f outside \<Rightarrow> pass_cfg \<Rightarrow> model_source \<Rightarrow> string \<Rightarrow> verify_level \<Rightarrow> ('f, unit) fallible" where
  "fetch_file X cfg ms dest level = do {
     ok \<leftarrow> reuseURLDownload X cfg ms dest level;
     if ok then State_Monad.return (Inr ()) else downloadAndRecordURL X cfg ms dest level
   }"

definition stat_of :: "'f outside \<Rightarrow> fs \<Rightarrow> string \<Rightarrow> bool option" where
  "stat_of X fs p = (if ox_is_dir X fs p then Some True else case file_at fs p of None \<Rightarrow> None | Some d \<Rightarrow> Some False)"

definition ensureExtraOllamaURL :: "'f outside \<Rightarrow> pass_cfg \<Rightarrow> model_source \<Rightarrow> retry_options \<Rightarrow> ('f, string) fallible" where
  "ensureExtraOllamaURL X cfg ms opts =
     (if pc_RunDir cfg = [] then fail X ''RUN_DIR is required for ollama:// URL extra source'' False
      else do {
        let dir = path_join [pc_RunDir cfg, ''url-fetched''];
        e \<leftarrow> mkdir_all X;
        case e of
          Some e \<Rightarrow> fail X (mkdir_text X dir e) True
        | None \<Rightarrow> do {
            let dest = path_join [dir, urlDestName ms];
            (if ro_Force opts then drop_old X dest else State_Monad.return ());
            r \<leftarrow> fetch_file X cfg (ms\<lparr>ms_LocalPath := dest\<rparr>) dest (passLevel (pc_VerifyLevel cfg) opts);
            State_Monad.return (case r of Inl e \<Rightarrow> Inl e | Inr _ \<Rightarrow> Inr dest)
          }
      })"

definition ensureExtra :: "'f outside \<Rightarrow> pass_cfg \<Rightarrow> model_source \<Rightarrow> retry_options \<Rightarrow> ('f, string) fallible" where
  "ensureExtra X cfg ms opts =
     (case ms_Kind ms of
        KindOllama \<Rightarrow>
          if ms_OllamaTag ms = [] then fail X ''ollama:// extra source missing tag'' False
          else do {
            enterDownloadPhase X cfg;
            e \<leftarrow> pull X (ms_OllamaTag ms);
            case e of
              Some msg \<Rightarrow> fail X (ollamaPullUserMessage (ox_quote X) (ms_OllamaTag ms) msg) True
            | None \<Rightarrow> State_Monad.return (Inr [])
          }
      | KindHF \<Rightarrow> do {
          r \<leftarrow> runHF X cfg ms opts;
          case r of
            Inl e \<Rightarrow> State_Monad.return (Inl e)
          | Inr res \<Rightarrow> do {
              fs \<leftarrow> reads wo_fs;
              case resolveHFEnginePath (stat_of X fs) ms (hr_Path res) of
                Inl msg \<Rightarrow> fail X msg False
              | Inr p \<Rightarrow> State_Monad.return (Inr p)
            }
        }
      | KindURL \<Rightarrow>
          if ms_LocalPath ms = [] then fail X ''MODEL_SOURCE_LOCAL is required for https?:// extra source'' False
          else do {
            e \<leftarrow> mkdir_all X;
            case e of
              Some e \<Rightarrow> fail X (mkdir_text X (path_dir (ms_LocalPath ms)) e) True
            | None \<Rightarrow> do {
                (if ro_Force opts then drop_old X (ms_LocalPath ms) else State_Monad.return ());
                r \<leftarrow> fetch_file X cfg ms (ms_LocalPath ms) (passLevel (pc_VerifyLevel cfg) opts);
                State_Monad.return (case r of Inl e \<Rightarrow> Inl e | Inr _ \<Rightarrow> Inr (ms_LocalPath ms))
              }
          }
      | KindOllamaURL \<Rightarrow> ensureExtraOllamaURL X cfg ms opts
      | KindUnset \<Rightarrow> fail X (''unsupported extra source kind: '' @ [CHR 0x22, CHR 0x22]) False)"

definition ensureOllamaName :: "'f outside \<Rightarrow> pass_cfg \<Rightarrow> model_source \<Rightarrow> ('f, unit) fallible" where
  "ensureOllamaName X cfg ms =
     (if ms_OllamaTag ms = [] then fail X ''ollama:// source missing tag'' False
      else do {
        enterDownloadPhase X cfg;
        e \<leftarrow> pull X (ms_OllamaTag ms);
        case e of
          Some msg \<Rightarrow> fail X (ollamaPullUserMessage (ox_quote X) (ms_OllamaTag ms) msg) True
        | None \<Rightarrow> do {
            set_phase X PhaseLoading;
            set_phase X PhaseReady;
            store_ready X True;
            State_Monad.return (Inr ())
          }
      })"

text \<open>After the bytes are there: register, write the readiness files, record the verification.\<close>

definition publish ::
  "'f outside \<Rightarrow> ('f, string option) pass \<Rightarrow> ('f, sentinel_error option) pass \<Rightarrow> ('f, unit) fallible" where
  "publish X reg put = do {
     e \<leftarrow> reg;
     case e of
       Some msg \<Rightarrow> fail X (''adapter.Register: '' @ msg) False
     | None \<Rightarrow> do {
         s \<leftarrow> put;
         case s of
           Some e \<Rightarrow> fail X (''sentinel.Write: '' @ ox_sentinel_text X e) False
         | None \<Rightarrow> do { recordVerify X True; State_Monad.return (Inr ()) }
       }
   }"

definition collectHFRegisterPaths :: "'f outside \<Rightarrow> fs \<Rightarrow> string \<Rightarrow> string \<Rightarrow> string list" where
  "collectHFRegisterPaths X fs mainPath mmprojPath =
     (if mainPath = [] then []
      else mainPath # (if mmprojPath \<noteq> [] \<and> stat_of X fs mmprojPath \<noteq> None then [mmprojPath] else []))"

definition appendHFProgressPaths :: "string list \<Rightarrow> string \<Rightarrow> string \<Rightarrow> string list" where
  "appendHFProgressPaths paths mainPath mmprojPath =
     (if mainPath = [] then paths
      else paths @ [mainPath] @
        (if mmprojPath \<noteq> [] \<and> \<not> has_prefix mmprojPath (mainPath @ ''/'') then [mmprojPath] else []))"

definition engine_first :: "string \<Rightarrow> string list \<Rightarrow> string list" where
  "engine_first enginePath paths =
     (if enginePath = [] then paths else case paths of [] \<Rightarrow> [enginePath] | _ # ps \<Rightarrow> enginePath # ps)"

definition ensureHF ::
  "'f outside \<Rightarrow> pass_cfg \<Rightarrow> model_source \<Rightarrow> model_source option \<Rightarrow> retry_options \<Rightarrow> string list \<Rightarrow> ('f, unit) fallible" where
  "ensureHF X cfg main mmproj opts progressPaths = do {
     r \<leftarrow> runHF X cfg main opts;
     case r of
       Inl e \<Rightarrow> State_Monad.return (Inl e)
     | Inr mainRes \<Rightarrow> do {
         mm \<leftarrow> (case mmproj of
             None \<Rightarrow> State_Monad.return (Inr [])
           | Some m \<Rightarrow>
               if ms_Kind m = KindHF \<and> length (ms_HFInclude m) = 1 then do {
                 r \<leftarrow> runHF X cfg m opts;
                 State_Monad.return (case r of Inl e \<Rightarrow> Inl e | Inr res \<Rightarrow> Inr (hr_Path res))
               } else State_Monad.return (Inr []));
         case mm of
           Inl e \<Rightarrow> State_Monad.return (Inl e)
         | Inr mmprojPath \<Rightarrow> do {
             fs \<leftarrow> reads wo_fs;
             case resolveHFEnginePath (stat_of X fs) main (hr_Path mainRes) of
               Inl msg \<Rightarrow> fail X msg False
             | Inr enginePath \<Rightarrow> do {
                 reconcile X (appendHFProgressPaths progressPaths (hr_Path mainRes) mmprojPath);
                 set_phase X PhaseLoading;
                 publish X
                   (register X (engine_first enginePath (collectHFRegisterPaths X fs (hr_Path mainRes) mmprojPath)) [])
                   (writeSentinelHF X cfg enginePath)
               }
           }
       }
   }"

definition ensureURL ::
  "'f outside \<Rightarrow> pass_cfg \<Rightarrow> model_source \<Rightarrow> retry_options \<Rightarrow> string list \<Rightarrow> ('f, unit) fallible" where
  "ensureURL X cfg ms opts progressPaths =
     (if ms_LocalPath ms = [] then fail X ''MODEL_SOURCE_LOCAL is required for https?:// source'' False
      else do {
        e \<leftarrow> mkdir_all X;
        case e of
          Some e \<Rightarrow> fail X (mkdir_text X (path_dir (ms_LocalPath ms)) e) True
        | None \<Rightarrow> do {
            (if ro_Force opts then do { clearSentinelForForce X cfg; drop_old X (ms_LocalPath ms) }
             else State_Monad.return ());
            r \<leftarrow> fetch_file X cfg ms (ms_LocalPath ms) (passLevel (pc_VerifyLevel cfg) opts);
            case r of
              Inl e \<Rightarrow> State_Monad.return (Inl e)
            | Inr _ \<Rightarrow> do {
                reconcile X (progressPaths @ [ms_LocalPath ms]);
                set_phase X PhaseLoading;
                publish X (register X [ms_LocalPath ms] []) (writeSentinelPath X cfg (ms_LocalPath ms))
              }
          }
      })"

definition ensureOllamaURL ::
  "'f outside \<Rightarrow> pass_cfg \<Rightarrow> model_source \<Rightarrow> retry_options \<Rightarrow> string list \<Rightarrow> ('f, unit) fallible" where
  "ensureOllamaURL X cfg ms opts progressPaths =
     (if pc_RunDir cfg = [] then fail X ''RUN_DIR is required for ollama:// URL overload'' False
      else do {
        let dir = path_join [pc_RunDir cfg, ''url-fetched''];
        e \<leftarrow> mkdir_all X;
        case e of
          Some e \<Rightarrow> fail X (mkdir_text X dir e) True
        | None \<Rightarrow> do {
            let dest = path_join [dir, urlDestName ms];
            (if ro_Force opts then do { clearSentinelForForce X cfg; drop_old X dest }
             else State_Monad.return ());
            r \<leftarrow> fetch_file X cfg (ms\<lparr>ms_LocalPath := dest\<rparr>) dest (passLevel (pc_VerifyLevel cfg) opts);
            case r of
              Inl e \<Rightarrow> State_Monad.return (Inl e)
            | Inr _ \<Rightarrow> do {
                reconcile X (progressPaths @ [dest]);
                set_phase X PhaseLoading;
                r \<leftarrow> publish X (registerWithKnownDigests X dest) (writeSentinelPath X cfg dest);
                case r of
                  Inl e \<Rightarrow> State_Monad.return (Inl e)
                | Inr _ \<Rightarrow> do { set_phase X PhaseReady; store_ready X False; State_Monad.return (Inr ()) }
              }
          }
      })"

section \<open>The pass (ensure.go)\<close>

definition splitSources ::
  "model_source list \<Rightarrow> model_source option \<times> model_source option \<times> model_source list" where
  "splitSources sources =
     (case find (\<lambda>m. ms_Role m = RoleMain) sources of
        Some m \<Rightarrow> Some m
      | None \<Rightarrow> (case sources of [] \<Rightarrow> None | m # _ \<Rightarrow> Some m),
      find (\<lambda>m. ms_Role m = RoleMmproj) sources,
      filter (\<lambda>m. ms_Role m = RoleExtra) sources)"

fun ensure_extras ::
  "'f outside \<Rightarrow> pass_cfg \<Rightarrow> retry_options \<Rightarrow> model_source list \<Rightarrow> string list \<Rightarrow> ('f, string list) fallible" where
  "ensure_extras X cfg opts [] paths = State_Monad.return (Inr paths)"
| "ensure_extras X cfg opts (m # ms) paths = do {
     r \<leftarrow> ensureExtra X cfg m opts;
     case r of
       Inl e \<Rightarrow> State_Monad.return (Inl e)
     | Inr p \<Rightarrow> ensure_extras X cfg opts ms (if p \<noteq> [] then paths @ [p] else paths)
   }"

definition ensure_main ::
  "'f outside \<Rightarrow> pass_cfg \<Rightarrow> model_source \<Rightarrow> model_source option \<Rightarrow> retry_options \<Rightarrow> string list \<Rightarrow> ('f, unit) fallible" where
  "ensure_main X cfg main mmproj opts extraPaths =
     (case ms_Kind main of
        KindOllama \<Rightarrow> ensureOllamaName X cfg main
      | KindOllamaURL \<Rightarrow> ensureOllamaURL X cfg main opts extraPaths
      | KindHF \<Rightarrow> ensureHF X cfg main mmproj opts extraPaths
      | KindURL \<Rightarrow> ensureURL X cfg main opts extraPaths
      | KindUnset \<Rightarrow> fail X (''unsupported source kind: '' @ [CHR 0x22, CHR 0x22]) False)"

definition new_pass :: "model_source \<Rightarrow> model_source option \<Rightarrow> model_source list \<Rightarrow> bool \<Rightarrow> pass_state" where
  "new_pass main mmproj extras force =
     \<lparr>pa_main = main, pa_mmproj = mmproj, pa_extras = extras, pa_force = force, pa_entered = False,
      pa_trees = [], pa_drift = \<lparr>dn_notes = [], dn_rendered = []\<rparr>\<rparr>"

text \<open>The sources, in order: the extra ones, the main one, and the list of the extra paths.\<close>

definition ensure_sources ::
  "'f outside \<Rightarrow> pass_cfg \<Rightarrow> retry_options \<Rightarrow> model_source \<Rightarrow> model_source option \<Rightarrow> model_source list \<Rightarrow> ('f, unit) fallible" where
  "ensure_sources X cfg opts main mmproj extras = do {
     r \<leftarrow> ensure_extras X cfg opts extras [];
     case r of
       Inl e \<Rightarrow> State_Monad.return (Inl e)
     | Inr extraPaths \<Rightarrow> do {
         r \<leftarrow> ensure_main X cfg main mmproj opts extraPaths;
         case r of
           Inl e \<Rightarrow> State_Monad.return (Inl e)
         | Inr _ \<Rightarrow> do {
             s \<leftarrow> writeExtraPaths X cfg extraPaths;
             case s of
               Some e \<Rightarrow> fail X (''sentinel.WriteExtra: '' @ ox_sentinel_text X e) False
             | None \<Rightarrow> State_Monad.return (Inr ())
           }
       }
   }"

definition ensure :: "'f outside \<Rightarrow> pass_cfg \<Rightarrow> ('f, unit) fallible" where
  "ensure X cfg = do {
     w \<leftarrow> reads id;
     let opts = fst (begin_pass (wo_lc w));
     on_lc (\<lambda>l. snd (begin_pass l));
     case splitSources (pc_Sources cfg) of
       (None, mmproj, extras) \<Rightarrow> fail X ''no main MODEL_SOURCE configured'' False
     | (Some main, mmproj, extras) \<Rightarrow> do {
         on_pass (\<lambda>_. new_pass main mmproj extras (ro_Force opts));
         ensure_sources X cfg opts main mmproj extras
       }
   }"

end
