(* ===== verification/Passes.thy ===== *)
theory Passes
  imports Ensure
begin

text \<open>
  What a pass does, as properties of \<open>ensure\<close> and its parts. Computations are taken apart by weakest
  preconditions: \<open>wp m Q w\<close> says that \<open>m\<close>, run in \<open>w\<close>, ends with a result and a world that satisfy \<open>Q\<close>.
\<close>

named_theorems wp \<open>weakest preconditions\<close>

section \<open>Weakest preconditions\<close>

definition wp :: "('f, 'a) pass \<Rightarrow> ('a \<Rightarrow> 'f world \<Rightarrow> bool) \<Rightarrow> 'f world \<Rightarrow> bool" where
  "wp m Q w \<longleftrightarrow> (case run_state m w of (r, w') \<Rightarrow> Q r w')"

lemma wp_run: "wp m Q w \<longleftrightarrow> Q (fst (run_state m w)) (snd (run_state m w))"
  by (simp add: wp_def split: prod.splits)

lemma wp_conseq: "wp m P w \<Longrightarrow> (\<And>r w'. P r w' \<Longrightarrow> Q r w') \<Longrightarrow> wp m Q w"
  by (simp add: wp_run)

lemma wp_return [wp]: "wp (State_Monad.return x) Q w \<longleftrightarrow> Q x w"
  by (simp add: wp_def)

lemma wp_bind [wp]: "wp (m \<bind> f) Q w \<longleftrightarrow> wp m (\<lambda>x. wp (f x) Q) w"
  by (simp add: wp_def split: prod.splits)

lemma wp_reads [wp]: "wp (reads f) Q w \<longleftrightarrow> Q (f w) w"
  by (simp add: wp_def reads_def)

lemma wp_modifies [wp]: "wp (modifies f) Q w \<longleftrightarrow> Q () (f w)"
  by (simp add: wp_def modifies_def)

lemma wp_count_up [wp]: "wp count_up Q w \<longleftrightarrow> Q (wo_tick w) (w\<lparr>wo_tick := Suc (wo_tick w)\<rparr>)"
  by (simp add: wp_def count_up_def)

lemma wp_if [wp]: "wp (if b then m else n) Q w \<longleftrightarrow> (if b then wp m Q w else wp n Q w)"
  by simp

lemma wp_clock [wp]: "wp (clock X) Q w \<longleftrightarrow> Q (ox_now X (wo_tick w)) (w\<lparr>wo_tick := Suc (wo_tick w)\<rparr>)"
  by (simp add: clock_def wp)

lemma wp_calls [wp]: "wp (calls c) Q w \<longleftrightarrow> Q () (w\<lparr>wo_calls := wo_calls w @ [c]\<rparr>)"
  by (simp add: calls_def wp)

lemma wp_on_lc [wp]: "wp (on_lc f) Q w \<longleftrightarrow> Q () (w\<lparr>wo_lc := f (wo_lc w)\<rparr>)"
  by (simp add: on_lc_def wp)

lemma wp_on_pass [wp]: "wp (on_pass f) Q w \<longleftrightarrow> Q () (w\<lparr>wo_pass := f (wo_pass w)\<rparr>)"
  by (simp add: on_pass_def wp)

lemma wp_observe [wp]:
  "wp (observe tr) Q w \<longleftrightarrow> Q () (w\<lparr>wo_fs := last (wo_fs w # tr), wo_seen := wo_seen w @ tr\<rparr>)"
  by (simp add: observe_def wp)

lemma wp_on_fs [wp]:
  "wp (on_fs f) Q w \<longleftrightarrow>
     Q (fst (f (wo_tick w) (wo_fs w)))
       (w\<lparr>wo_tick := Suc (wo_tick w), wo_fs := last (wo_fs w # snd (f (wo_tick w) (wo_fs w))),
          wo_seen := wo_seen w @ snd (f (wo_tick w) (wo_fs w))\<rparr>)"
  by (simp add: on_fs_def wp split_beta)

lemma wp_sink [wp]:
  "wp (sink X evs) Q w \<longleftrightarrow>
     Q () (w\<lparr>wo_lc := (wo_lc w)\<lparr>lc_progress := sink_run (ox_floats X) evs (lc_progress (wo_lc w))\<rparr>\<rparr>)"
  by (simp add: sink_def wp)

section \<open>The count of failures\<close>

definition progress_of :: "'f world \<Rightarrow> 'f pstate" where
  "progress_of w = mg_state (lc_progress (wo_lc w))"

definition retries :: "'f world \<Rightarrow> int" where "retries w = ps_RetryCount (progress_of w)"

text \<open>What is displayed of the result of a fallible step that started with \<open>n\<close> failures.\<close>

definition reported :: "int \<Rightarrow> pass_error + 'a \<Rightarrow> 'f world \<Rightarrow> bool" where
  "reported n r w \<longleftrightarrow>
     (case r of
        Inr _ \<Rightarrow> retries w = n
      | Inl (PassRetriable msg) \<Rightarrow>
          retries w = n + 1 \<and> ps_Phase (progress_of w) = PhaseDegraded \<and> ps_LastError (progress_of w) = msg
      | Inl (PassPermanent msg) \<Rightarrow>
          retries w = n + 1 \<and> ps_Phase (progress_of w) = PhaseFailed \<and> ps_LastError (progress_of w) = msg)"

lemma row_retries [simp]:
  "ps_RetryCount (append_row f g s) = ps_RetryCount s"
  "ps_RetryCount (markFileStart p n g s) = ps_RetryCount s"
  "ps_RetryCount (addFileBytes p d g s) = ps_RetryCount s"
  "ps_RetryCount (markFileDone p g s) = ps_RetryCount s"
  "ps_RetryCount (count_done s) = ps_RetryCount s"
  "ps_RetryCount (clear_current p s) = ps_RetryCount s"
proof -
  show a: "ps_RetryCount (append_row f g s) = ps_RetryCount s" for f g and s :: "'a pstate"
    by (simp add: append_row_def Let_def)
  show "ps_RetryCount (markFileStart p n g s) = ps_RetryCount s"
    by (simp add: markFileStart_def a Let_def split: option.split)
  show "ps_RetryCount (addFileBytes p d g s) = ps_RetryCount s"
    by (simp add: addFileBytes_def a split: option.split)
  show "ps_RetryCount (markFileDone p g s) = ps_RetryCount s"
    by (simp add: markFileDone_def a split: option.split)
  show "ps_RetryCount (count_done s) = ps_RetryCount s" by (simp add: count_done_def Let_def)
  show "ps_RetryCount (clear_current p s) = ps_RetryCount s" by (simp add: clear_current_def)
qed

lemma sink_step_retries: "ps_RetryCount (mg_state (sink_step F now ev m)) = ps_RetryCount (mg_state m)"
proof (cases ev)
  case (EvFileStart p n)
  then show ?thesis by (simp add: OnFileStart_def Let_def)
next
  case (EvFileDone p)
  then show ?thesis by (simp add: OnFileDone_def Let_def)
qed (simp_all add: OnBytes_def OnFileBytes_def OnFilesTotal_def OnError_def OnPhase_def
    OnResolvedCommit_def OnNote_def Let_def)

lemma sink_run_retries: "ps_RetryCount (mg_state (sink_run F evs m)) = ps_RetryCount (mg_state m)"
  by (induction evs arbitrary: m) (auto simp: sink_run_def sink_step_retries)

section \<open>Contracts of steps\<close>

text \<open>
  A contract relates the world before a step to the world after it: \<open>R\<close> when the step returns, \<open>F e\<close>
  when it fails with \<open>e\<close>; \<open>P\<close> is what the step relies on. A pass is made of a few primitive steps, so
  a contract that these keep is kept by the pass; the locales prove that once, for every contract.
\<close>

definition keeps ::
  "('f world \<Rightarrow> bool) \<Rightarrow> ('f world \<Rightarrow> 'f world \<Rightarrow> bool) \<Rightarrow> ('f, 'a) pass \<Rightarrow> bool" where
  "keeps P R m \<longleftrightarrow> (\<forall>w. P w \<longrightarrow> wp m (\<lambda>_. R w) w)"

definition ends ::
  "('f world \<Rightarrow> bool) \<Rightarrow> ('f world \<Rightarrow> 'f world \<Rightarrow> bool) \<Rightarrow> (pass_error \<Rightarrow> 'f world \<Rightarrow> 'f world \<Rightarrow> bool) \<Rightarrow>
     ('f, 'a) fallible \<Rightarrow> bool" where
  "ends P R F m \<longleftrightarrow> (\<forall>w. P w \<longrightarrow> wp m (\<lambda>r. case r of Inl e \<Rightarrow> F e w | Inr _ \<Rightarrow> R w) w)"

abbreviation always :: "'f world \<Rightarrow> bool" where "always w \<equiv> True"

lemma keepsI: "(\<And>w. P w \<Longrightarrow> wp m (\<lambda>_. R w) w) \<Longrightarrow> keeps P R m"
  by (simp add: keeps_def)

lemma keeps_wp: "keeps P R m \<Longrightarrow> P w \<Longrightarrow> wp m (\<lambda>_. R w) w"
  by (simp add: keeps_def)

lemma ends_wp: "ends P R F m \<Longrightarrow> P w \<Longrightarrow> wp m (\<lambda>r. case r of Inl e \<Rightarrow> F e w | Inr _ \<Rightarrow> R w) w"
  by (simp add: ends_def)

lemma keeps_weaken: "keeps always R m \<Longrightarrow> keeps P R m"
  by (simp add: keeps_def)

lemma ends_weaken: "ends always R F m \<Longrightarrow> ends P R F m"
  by (simp add: ends_def)

locale contract =
  fixes P :: "'f world \<Rightarrow> bool" and R :: "'f world \<Rightarrow> 'f world \<Rightarrow> bool"
    and F :: "pass_error \<Rightarrow> 'f world \<Rightarrow> 'f world \<Rightarrow> bool"
  assumes stays: "R w w"
    and steps: "R w w1 \<Longrightarrow> R w1 w2 \<Longrightarrow> R w w2"
    and fails: "R w w1 \<Longrightarrow> F e w1 w2 \<Longrightarrow> F e w w2"
    and holds: "P w \<Longrightarrow> R w w1 \<Longrightarrow> P w1"
begin

lemma keeps_return: "keeps P R (State_Monad.return x)"
  by (simp add: keeps_def wp stays)

lemma keeps_bind:
  assumes "keeps P R m" "\<And>x. keeps P R (f x)"
  shows "keeps P R (m \<bind> f)"
proof (rule keepsI)
  fix w assume w: "P w"
  have "wp m (\<lambda>x. wp (f x) (\<lambda>_. R w)) w"
  proof (rule wp_conseq [OF keeps_wp [OF assms(1) w]])
    fix x w1 assume "R w w1"
    then show "wp (f x) (\<lambda>_. R w) w1" using steps holds [OF w] by (intro wp_conseq [OF keeps_wp [OF assms(2)]])
  qed
  then show "wp (m \<bind> f) (\<lambda>_. R w) w" by (simp only: wp_bind)
qed

lemma ends_return: "ends P R F (State_Monad.return (Inr x))"
  by (simp add: ends_def wp stays)

lemma ends_after:
  assumes "P w" "R w w1" "ends P R F m"
  shows "wp m (\<lambda>r. case r of Inl e \<Rightarrow> F e w | Inr _ \<Rightarrow> R w) w1"
  using assms by (intro wp_conseq [OF ends_wp [OF assms(3) holds]])
    (auto split: sum.splits intro: steps fails)

lemma ends_bind:
  assumes "keeps P R m" "\<And>x. ends P R F (f x)"
  shows "ends P R F (m \<bind> f)"
proof -
  have "wp m (\<lambda>x. wp (f x) (\<lambda>r. case r of Inl e \<Rightarrow> F e w | Inr _ \<Rightarrow> R w)) w" if "P w" for w
    by (rule wp_conseq [OF keeps_wp [OF assms(1) that]]) (intro ends_after assms(2) that)
  then show ?thesis by (simp add: ends_def wp_bind)
qed

text \<open>An error is passed on, a result is worked on.\<close>

lemma ends_case:
  fixes m :: "('f, 'a) fallible" and f :: "'a \<Rightarrow> ('f, 'b) fallible"
  assumes m: "ends P R F m" and f: "\<And>x. ends P R F (f x)"
  shows "ends P R F (m \<bind> (\<lambda>r. case r of Inl e \<Rightarrow> State_Monad.return (Inl e) | Inr x \<Rightarrow> f x))"
proof -
  have "wp m (\<lambda>r. wp (case r of Inl e \<Rightarrow> State_Monad.return (Inl e) | Inr x \<Rightarrow> f x)
      (\<lambda>r. case r of Inl e \<Rightarrow> F e w | Inr _ \<Rightarrow> R w)) w" if w: "P w" for w
  proof (rule wp_conseq [OF ends_wp [OF m w]])
    fix r :: "pass_error + 'a" and w1
    assume r: "(case r of Inl e \<Rightarrow> F e w | Inr _ \<Rightarrow> R w) w1"
    show "wp (case r of Inl e \<Rightarrow> State_Monad.return (Inl e) | Inr x \<Rightarrow> f x)
      (\<lambda>r. case r of Inl e \<Rightarrow> F e w | Inr _ \<Rightarrow> R w) w1"
      using r f w by (cases r) (simp_all add: wp ends_after)
  qed
  then show ?thesis by (simp add: ends_def wp_bind)
qed

lemma ends_map:
  fixes m :: "('f, 'a) fallible" and f :: "'a \<Rightarrow> 'b"
  assumes "ends P R F m"
  shows "ends P R F (m \<bind> (\<lambda>r. State_Monad.return (case r of Inl e \<Rightarrow> Inl e | Inr x \<Rightarrow> Inr (f x))))"
proof -
  have e: "State_Monad.return (case r of Inl e \<Rightarrow> Inl e | Inr x \<Rightarrow> Inr (f x)) =
    (case r of Inl e \<Rightarrow> State_Monad.return (Inl e) | Inr x \<Rightarrow> State_Monad.return (Inr (f x)))"
    for r :: "pass_error + 'a"
    by (simp split: sum.split)
  show ?thesis unfolding e using assms by (intro ends_case ends_return)
qed

lemma keeps_if: "keeps P R m \<Longrightarrow> keeps P R n \<Longrightarrow> keeps P R (if b then m else n)"
  and keeps_option: "keeps P R m \<Longrightarrow> (\<And>x. keeps P R (h x)) \<Longrightarrow> keeps P R (case v of None \<Rightarrow> m | Some x \<Rightarrow> h x)"
  and keeps_sum: "(\<And>x. keeps P R (k x)) \<Longrightarrow> (\<And>x. keeps P R (l x)) \<Longrightarrow> keeps P R (case u of Inl x \<Rightarrow> k x | Inr x \<Rightarrow> l x)"
  and keeps_prod: "(\<And>x y. keeps P R (p x y)) \<Longrightarrow> keeps P R (case z of (x, y) \<Rightarrow> p x y)"
  and keeps_let: "(\<And>x. keeps P R (q x)) \<Longrightarrow> keeps P R (Let c q)"
  by (auto split: option.split sum.split prod.split)

lemma ends_if: "ends P R F m \<Longrightarrow> ends P R F n \<Longrightarrow> ends P R F (if b then m else n)"
  and ends_option: "ends P R F m \<Longrightarrow> (\<And>x. ends P R F (h x)) \<Longrightarrow> ends P R F (case v of None \<Rightarrow> m | Some x \<Rightarrow> h x)"
  and ends_sum: "(\<And>x. ends P R F (k x)) \<Longrightarrow> (\<And>x. ends P R F (l x)) \<Longrightarrow> ends P R F (case u of Inl x \<Rightarrow> k x | Inr x \<Rightarrow> l x)"
  and ends_prod: "(\<And>x y. ends P R F (p x y)) \<Longrightarrow> ends P R F (case z of (x, y) \<Rightarrow> p x y)"
  and ends_let: "(\<And>x. ends P R F (q x)) \<Longrightarrow> ends P R F (Let c q)"
  by (auto split: option.split sum.split prod.split)

lemma keeps_traverse: "(\<And>x. keeps P R (f x)) \<Longrightarrow> keeps P R (State_Monad.traverse_list f xs)"
  by (induction xs) (auto intro!: keeps_return keeps_bind)

lemmas keeps_rules = keeps_return keeps_bind keeps_if keeps_option keeps_sum keeps_prod keeps_let
  keeps_traverse

text \<open>\<open>ends_case\<close> and \<open>ends_map\<close> come first: a bind after a fallible step is theirs.\<close>

lemmas ends_rules = ends_return ends_if ends_option ends_sum ends_prod ends_let

end

section \<open>Getting the bytes\<close>

text \<open>The calls that move bytes, which a pass makes when it has entered the download phase, and those
that only ask an upstream.\<close>

fun transferring :: "call \<Rightarrow> bool" where
  "transferring (CDownload url dest) = True"
| "transferring (CHF repo) = True"
| "transferring (CPull tag) = True"
| "transferring _ = False"

fun asking :: "call \<Rightarrow> bool" where
  "asking (CProbe url) = True"
| "asking (CHub repo) = True"
| "asking _ = False"

definition entered :: "'f world \<Rightarrow> bool" where "entered w \<longleftrightarrow> pa_entered (wo_pass w)"

definition no_count :: "('f lifecycle \<Rightarrow> 'f lifecycle) \<Rightarrow> bool" where
  "no_count g \<longleftrightarrow> (\<forall>l. ps_RetryCount (mg_state (lc_progress (g l))) = ps_RetryCount (mg_state (lc_progress l)))"

lemma no_count_upd: "(\<And>s. ps_RetryCount (g s) = ps_RetryCount s) \<Longrightarrow> no_count (upd F now g)"
  by (simp add: no_count_def upd_def)

lemma phase_write_retries: "ps_RetryCount (phase_write F now p s) = ps_RetryCount s"
  by (cases p) (simp_all add: phase_write_def settleFileRows_def Let_def split: option.split)

lemma no_count_phase: "no_count (setPhase F now now' p)"
  by (simp add: no_count_def setPhase_def Let_def upd_def phase_write_retries ClearDownloadBudget_def)

lemma no_count_reconcile: "no_count (reconcileModelBytes F now ps)"
  by (simp add: no_count_def reconcileModelBytes_def Let_def upd_def)

lemma no_count_budget: "no_count (\<lambda>l. l\<lparr>lc_progress := seed_budget F n n' fc b (lc_progress l)\<rparr>)"
  by (simp add: no_count_def seed_budget_def Let_def SeedDownloadBudget_def SeedDownloadFileList_def
      SeedDownloadFiles_def)

lemma no_count_sink: "no_count (\<lambda>l. l\<lparr>lc_progress := sink_run F evs (lc_progress l)\<rparr>)"
  by (simp add: no_count_def sink_run_retries)

lemma no_count_ready: "no_count (\<lambda>l. l\<lparr>lc_lastReady := v\<rparr>)"
  and no_count_bytes: "no_count (setModelBytes F now n)"
  and no_count_begin: "no_count (\<lambda>l. snd (begin_pass l))"
  by (simp_all add: no_count_def setModelBytes_def upd_def begin_pass_def consumePendingOpts_def
      split: option.split)

lemma no_count_note: "no_count (upd F now (\<lambda>s. s\<lparr>ps_Note := note\<rparr>))"
  and no_count_verify: "no_count (upd F now (\<lambda>s. s\<lparr>ps_LastVerifyAt := t, ps_LastVerifyOK := v\<rparr>))"
  by (simp_all add: no_count_upd)

lemmas no_counts = no_count_phase no_count_reconcile no_count_budget no_count_sink no_count_ready
  no_count_bytes no_count_begin no_count_note no_count_verify

text \<open>Steps that return what the caller needs, without ever failing the pass.\<close>

lemmas plain_steps = clock_def on_fs_def sink_def set_phase_def enterDownloadPhase_def resolve_drift_def
  reuseURLDownload_def removeURLSidecar_def remove_file_def writeURLSidecar_def removeHFSidecars_def
  reuseHFDownload_def writeHFSidecar_def pull_def mkdir_all_def drop_old_def

locale fetch_contract = contract entered R F
  for R :: "'f world \<Rightarrow> 'f world \<Rightarrow> bool" and F :: "pass_error \<Rightarrow> 'f world \<Rightarrow> 'f world \<Rightarrow> bool" +
  assumes counting: "keeps always R count_up"
    and asks: "asking c \<Longrightarrow> keeps always R (calls c)"
    and transfers: "transferring c \<Longrightarrow> keeps entered R (calls c)"
    and enters: "keeps always R (enterDownloadPhase X cfg)"
    and drifting: "keeps always R (on_pass (\<lambda>p. p\<lparr>pa_drift := d\<rparr>))"
    and observing: "keeps always R (observe tr)"
    and managing: "no_count g \<Longrightarrow> keeps always R (on_lc g)"
    and failing: "ends always R F (fail X msg b :: ('f, unit) fallible)"

lemma entered_after: "wp (enterDownloadPhase X cfg) (\<lambda>_. entered) w"
  by (simp add: enterDownloadPhase_def wp set_phase_def entered_def Let_def)

lemma wp_both: "wp m Q w \<Longrightarrow> wp m Q' w \<Longrightarrow> wp m (\<lambda>x w'. Q x w' \<and> Q' x w') w"
  by (simp add: wp_run)

sublocale fetch_contract \<subseteq> free: contract always R F
  by unfold_locales (use stays steps fails in blast)+

context fetch_contract
begin

lemma keeps_reads: "keeps always R (reads f)"
  by (simp add: keeps_def wp stays)

lemmas keeps_primitive = keeps_reads counting drifting observing managing

lemma keeps_clock: "keeps always R (clock X)"
  and keeps_on_fs: "keeps always R (on_fs h)"
  and keeps_sink: "keeps always R (sink X evs)"
  unfolding plain_steps by (intro free.keeps_rules keeps_primitive no_counts)+

lemmas keeps_basic = keeps_primitive keeps_clock keeps_on_fs keeps_sink

lemma keeps_resolve: "keeps always R (resolve_drift X cfg what v)"
  unfolding resolve_drift_def by (intro free.keeps_rules keeps_basic no_counts)

lemma keeps_files:
  "keeps always R (removeURLSidecar X dest)" "keeps always R (remove_file X p)"
  "keeps always R (writeURLSidecar X ms dest level etag)" "keeps always R (removeHFSidecars X root repo src)"
  "keeps always R (writeHFSidecar X cfg ms res)" "keeps always R (mkdir_all X)"
  unfolding plain_steps by (intro free.keeps_rules keeps_basic)+

lemma keeps_drop_old: "keeps always R (drop_old X dest)"
  unfolding drop_old_def by (intro free.keeps_rules keeps_files)

lemma keeps_reuse:
  "keeps always R (reuseURLDownload X cfg ms dest level)" "keeps always R (reuseHFDownload X cfg ms level)"
  unfolding reuseURLDownload_def reuseHFDownload_def
  by (intro free.keeps_rules keeps_basic keeps_resolve asks; simp)+

lemma ends_fail: "ends always R F (fail X msg b :: ('f, 'a) fallible)"
  using failing [of X msg b] unfolding ends_def fail_def by (simp add: wp)

lemmas basic = keeps_weaken [OF keeps_reads] keeps_weaken [OF counting] keeps_weaken [OF observing]
  keeps_weaken [OF keeps_sink] keeps_weaken [OF keeps_files(1)] keeps_weaken [OF keeps_files(2)]
  keeps_weaken [OF keeps_files(3)] keeps_weaken [OF keeps_files(5)] ends_weaken [OF ends_fail]

lemma keeps_pull: "keeps entered R (pull X tag)"
  unfolding pull_def by (intro keeps_rules basic transfers) simp

lemma ends_enter:
  assumes "ends entered R F m"
  shows "ends always R F (do { enterDownloadPhase X cfg; m })"
  unfolding ends_def
proof (intro allI impI)
  fix w
  have "wp (enterDownloadPhase X cfg) (\<lambda>_ w1. entered w1 \<and> R w w1) w"
    by (intro wp_both entered_after keeps_wp [OF enters]) simp
  then have "wp (enterDownloadPhase X cfg) (\<lambda>_. wp m (\<lambda>r. case r of Inl e \<Rightarrow> F e w | Inr _ \<Rightarrow> R w)) w"
    by (rule wp_conseq) (auto intro!: wp_conseq [OF ends_wp [OF assms]] split: sum.splits intro: steps fails)
  then show "wp (do { enterDownloadPhase X cfg; m }) (\<lambda>r. case r of Inl e \<Rightarrow> F e w | Inr _ \<Rightarrow> R w) w"
    by (simp only: wp_bind)
qed

lemma ends_downloadURL: "ends entered R F (downloadURL X ms)"
  unfolding downloadURL_def
  by (intro ends_rules ends_bind keeps_rules basic transfers) simp_all

lemma ends_downloadAndRecordURL: "ends always R F (downloadAndRecordURL X cfg ms dest level)"
  unfolding downloadAndRecordURL_def
  by (intro ends_enter ends_bind [OF keeps_weaken [OF keeps_files(1)]] ends_case ends_downloadURL
      ends_bind [OF keeps_weaken [OF keeps_files(3)]] ends_return)

lemma ends_fetch_file: "ends always R F (fetch_file X cfg ms dest level)"
  unfolding fetch_file_def
  by (intro free.ends_bind [OF keeps_reuse(1)] free.ends_if free.ends_return ends_downloadAndRecordURL)

lemma ends_runHF: "ends always R F (runHF X cfg ms opts)"
proof -
  have force: "keeps always R (if b then do { removeHFSidecars X root repo src; State_Monad.return None }
      else reuseHFDownload X cfg ms level)" for b root repo src level
    by (intro free.keeps_rules keeps_files keeps_reuse)
  show ?thesis
    unfolding runHF_def
    by (intro free.ends_bind [OF force] free.ends_option ends_enter free.ends_return)
      (intro ends_rules ends_bind keeps_rules basic transfers; simp)
qed

lemma ends_pulled:
  "ends always R F (do {
     enterDownloadPhase X cfg;
     e \<leftarrow> pull X tag;
     case e of Some msg \<Rightarrow> fail X (g msg) b | None \<Rightarrow> m
   })" if "ends always R F m" for m :: "('f, 'a) fallible"
  by (intro ends_enter ends_bind [OF keeps_pull] ends_option ends_weaken [OF ends_fail] ends_weaken [OF that])

lemma ends_ensureExtra: "ends always R F (ensureExtra X cfg ms opts)"
proof -
  have url: "ends always R F (do {
      e \<leftarrow> mkdir_all X;
      case e of
        Some e \<Rightarrow> fail X (msg e) True
      | None \<Rightarrow> do {
          (if b then drop_old X dest else State_Monad.return ());
          r \<leftarrow> fetch_file X cfg ms dest level;
          State_Monad.return (case r of Inl e \<Rightarrow> Inl e | Inr _ \<Rightarrow> Inr dest)
        }
    })" for msg b dest ms level
    by (intro free.ends_bind [OF keeps_files(6)] free.ends_option ends_fail free.ends_bind [OF free.keeps_if]
        free.ends_map ends_fetch_file keeps_drop_old free.keeps_return)
  have hf: "ends always R F (do {
      r \<leftarrow> runHF X cfg ms opts;
      case r of Inl e \<Rightarrow> State_Monad.return (Inl e) | Inr res \<Rightarrow> do { fs \<leftarrow> reads wo_fs; h fs res }
    })" if "\<And>fs res. ends always R F (h fs res)" for h :: "_ \<Rightarrow> _ \<Rightarrow> ('f, string) fallible"
    by (intro free.ends_case ends_runHF free.ends_bind [OF keeps_reads] that)
  have "ends always R F (ensureExtraOllamaURL X cfg ms opts)"
    unfolding ensureExtraOllamaURL_def Let_def by (intro free.ends_if ends_fail url)
  then show ?thesis
    unfolding ensureExtra_def
    by (cases "ms_Kind ms"; simp only: source_kind.case)
      (intro ends_fail free.ends_if url hf free.ends_sum free.ends_return ends_pulled | assumption)+
qed

lemma ends_ensure_extras: "ends always R F (ensure_extras X cfg opts ms paths)"
  by (induction ms arbitrary: paths) (auto intro!: free.ends_return free.ends_case ends_ensureExtra)

end

text \<open>The world of a pass whose bookkeeping is new.\<close>

definition opened :: "pass_cfg \<Rightarrow> 'f world \<Rightarrow> 'f world" where
  "opened cfg w = (case splitSources (pc_Sources cfg) of
     (main, mmproj, extras) \<Rightarrow> w\<lparr>wo_lc := snd (begin_pass (wo_lc w)),
       wo_pass := (case main of None \<Rightarrow> wo_pass w
                   | Some m \<Rightarrow> new_pass m mmproj extras (ro_Force (fst (begin_pass (wo_lc w)))))\<rparr>)"

text \<open>The calls that follow: the model is loaded, registered and read back.\<close>

fun finishing :: "call \<Rightarrow> bool" where
  "finishing (CPhase p) = (p = PhaseLoading \<or> p = PhaseReady)"
| "finishing (CRegister ps known) = True"
| "finishing CReady = True"
| "finishing _ = False"

locale ensure_contract = fetch_contract R F
  for R :: "'f world \<Rightarrow> 'f world \<Rightarrow> bool" and F :: "pass_error \<Rightarrow> 'f world \<Rightarrow> 'f world \<Rightarrow> bool" +
  assumes finishes: "finishing c \<Longrightarrow> keeps always R (calls c)"
begin

lemma keeps_finish:
  "keeps always R (set_phase X PhaseLoading)" "keeps always R (set_phase X PhaseReady)" "keeps always R (store_ready X b)" "keeps always R (register X ps known)"
  "keeps always R (registerWithKnownDigests X dest)" "keeps always R (recordVerify X ok)" "keeps always R (reconcile X ps)"
  "keeps always R (writeSentinelPath X cfg dest)" "keeps always R (writeSentinelHF X cfg dest)" "keeps always R (writeExtraPaths X cfg ps)"
  "keeps always R (clearSentinelForForce X cfg)"
  unfolding set_phase_def store_ready_def registerWithKnownDigests_def register_def recordVerify_def
    reconcile_def writeSentinelHF_def writeSentinelPath_def writeExtraPaths_def clearSentinelForForce_def
  by (intro free.keeps_rules keeps_basic no_counts finishes; simp)+

lemma ends_publish: "keeps always R reg \<Longrightarrow> keeps always R put \<Longrightarrow> ends always R F (publish X reg put)"
  unfolding publish_def by (intro free.ends_bind free.ends_rules ends_fail keeps_finish)

lemma ends_ensureOllamaName: "ends always R F (ensureOllamaName X cfg ms)"
  unfolding ensureOllamaName_def
  by (intro free.ends_if ends_fail ends_pulled free.ends_bind keeps_finish free.ends_return)

lemma ends_ensureURL: "ends always R F (ensureURL X cfg ms opts ps)"
  unfolding ensureURL_def
  by (intro free.ends_if ends_fail free.ends_bind [OF keeps_files(6)] free.ends_option free.ends_bind [OF free.keeps_if] free.ends_case
      ends_fetch_file free.ends_bind [OF keeps_finish(7)] free.ends_bind [OF keeps_finish(1)] ends_publish
      keeps_finish free.keeps_rules keeps_drop_old)

lemma ends_ensureOllamaURL: "ends always R F (ensureOllamaURL X cfg ms opts ps)"
  unfolding ensureOllamaURL_def Let_def
  by (intro free.ends_if ends_fail free.ends_bind [OF keeps_files(6)] free.ends_option free.ends_bind [OF free.keeps_if] free.ends_case
      ends_fetch_file free.ends_bind [OF keeps_finish(7)] free.ends_bind [OF keeps_finish(1)] ends_publish
      keeps_finish free.keeps_rules keeps_drop_old free.ends_bind [OF keeps_finish(2)] free.ends_bind [OF keeps_finish(3)] free.ends_return)

lemma ends_ensureHF: "ends always R F (ensureHF X cfg main mmproj opts ps)"
proof -
  have mm: "ends always R F (case mmproj of
      None \<Rightarrow> State_Monad.return (Inr [])
    | Some m \<Rightarrow>
        if b m then do {
          r \<leftarrow> runHF X cfg m opts;
          State_Monad.return (case r of Inl e \<Rightarrow> Inl e | Inr res \<Rightarrow> Inr (hr_Path res))
        } else State_Monad.return (Inr []))" for b
    by (intro free.ends_option free.ends_if free.ends_map free.ends_return ends_runHF)
  show ?thesis
    unfolding ensureHF_def
    by (intro free.ends_case ends_runHF mm free.ends_bind [OF keeps_reads] free.ends_sum ends_fail
        free.ends_bind [OF keeps_finish(7)] free.ends_bind [OF keeps_finish(1)] ends_publish keeps_finish)
qed

lemma ends_ensure_main: "ends always R F (ensure_main X cfg main mmproj opts ps)"
  unfolding ensure_main_def
  by (cases "ms_Kind main"; simp only: source_kind.case)
    (intro ends_fail ends_ensureOllamaName ends_ensureURL ends_ensureOllamaURL ends_ensureHF)+

lemma ends_sources: "ends always R F (ensure_sources X cfg opts main mmproj extras)"
  unfolding ensure_sources_def
  by (intro free.ends_case ends_ensure_extras ends_ensure_main free.ends_bind [OF keeps_finish(10)]
      free.ends_option ends_fail free.ends_return)

theorem ends_ensure:
  "wp (ensure X cfg) (\<lambda>r. case r of Inl e \<Rightarrow> F e (opened cfg w) | Inr _ \<Rightarrow> R (opened cfg w)) w"
proof (cases "splitSources (pc_Sources cfg)")
  case (fields main mmproj extras)
  then show ?thesis
    using ends_wp [OF ends_sources] ends_wp [OF ends_fail]
    by (cases main) (simp_all add: ensure_def Let_def wp opened_def)
qed

end

section \<open>Failures are reported\<close>

definition same_count :: "'f world \<Rightarrow> 'f world \<Rightarrow> bool" where
  "same_count w w' \<longleftrightarrow> retries w' = retries w \<and> (entered w \<longrightarrow> entered w')"

definition one_failure :: "pass_error \<Rightarrow> 'f world \<Rightarrow> 'f world \<Rightarrow> bool" where
  "one_failure e w w' \<longleftrightarrow>
     retries w' = retries w + 1 \<and>
     (case e of
        PassRetriable msg \<Rightarrow> ps_Phase (progress_of w') = PhaseDegraded \<and> ps_LastError (progress_of w') = msg
      | PassPermanent msg \<Rightarrow> ps_Phase (progress_of w') = PhaseFailed \<and> ps_LastError (progress_of w') = msg)"

lemmas count_defs = same_count_def one_failure_def retries_def progress_of_def entered_def

lemma enter_same_count: "keeps always same_count (enterDownloadPhase X cfg)"
  by (simp add: keeps_def enterDownloadPhase_def set_phase_def wp Let_def count_defs
      no_count_phase [unfolded no_count_def, rule_format] no_count_budget [unfolded no_count_def, simplified])

interpretation failures: ensure_contract same_count one_failure
proof unfold_locales
  show "ends always same_count one_failure (fail X msg b :: ('f, unit) fallible)" for X :: "'f outside" and msg b
    by (simp add: ends_def fail_def wp count_defs pass_fail_def upd_def)
  show "keeps always same_count (enterDownloadPhase X cfg)" for X :: "'f outside" and cfg
    by (rule enter_same_count)
qed (auto simp: keeps_def wp count_defs no_count_def)

text \<open>C1: A pass that fails shows it: the displayed phase is degraded for an error that is retried and
failed for one that is not, the displayed error is the one the lifecycle gets, and exactly one failure is
counted; a pass that succeeds counts none. Every path through the sources of a pass is covered, whatever
the operating system, the upstreams and the adapter answer.\<close>
theorem failure_is_reported:
  "(case run_state (ensure X cfg) w of (r, w') \<Rightarrow>
      (case r of Inr _ \<Rightarrow> retries w' = retries w | Inl e \<Rightarrow> one_failure e w w'))"
proof -
  have o: "retries (opened cfg w) = retries w"
    using no_count_begin by (auto simp: opened_def retries_def progress_of_def no_count_def split: prod.split)
  show ?thesis
    using failures.ends_ensure [of X cfg w] o
    by (auto simp: wp_def same_count_def one_failure_def split: prod.splits sum.splits)
qed

section \<open>The download phase comes first\<close>

text \<open>Of a sequence of calls: bytes move only after the download phase, which is entered at most once.\<close>

fun announced :: "bool \<Rightarrow> call list \<Rightarrow> bool" where
  "announced b [] = True"
| "announced b (c # cs) =
     (if c = CPhase PhaseDownload then \<not> b \<and> announced True cs
      else (transferring c \<longrightarrow> b) \<and> announced b cs)"

lemma announced_append:
  "announced b (cs @ ds) \<longleftrightarrow> announced b cs \<and> announced (b \<or> CPhase PhaseDownload \<in> set cs) ds"
  by (induction cs arbitrary: b) auto

definition staged :: "'f world \<Rightarrow> bool" where
  "staged w \<longleftrightarrow> announced False (wo_calls w) \<and> (entered w \<longleftrightarrow> CPhase PhaseDownload \<in> set (wo_calls w))"

definition keeps_staged :: "'f world \<Rightarrow> 'f world \<Rightarrow> bool" where
  "keeps_staged w w' \<longleftrightarrow> (staged w \<longrightarrow> staged w') \<and> (entered w \<longrightarrow> entered w')"

lemmas stage_defs = keeps_staged_def staged_def entered_def

lemma staged_calls:
  "asking c \<Longrightarrow> keeps always keeps_staged (calls c)"
  "transferring c \<Longrightarrow> keeps entered keeps_staged (calls c)"
  "finishing c \<Longrightarrow> keeps always keeps_staged (calls c)"
  by (cases c; force simp: keeps_def wp stage_defs announced_append)+

lemma enter_staged: "keeps always keeps_staged (enterDownloadPhase X cfg)"
  by (auto simp: keeps_def enterDownloadPhase_def set_phase_def wp Let_def stage_defs announced_append)

interpretation order: ensure_contract keeps_staged "\<lambda>_. keeps_staged"
proof unfold_locales
  show "ends always keeps_staged (\<lambda>_. keeps_staged) (fail X msg b :: ('f, unit) fallible)"
    for X :: "'f outside" and msg b
    by (simp add: ends_def fail_def wp stage_defs)
  show "keeps always keeps_staged (enterDownloadPhase X cfg)" for X :: "'f outside" and cfg
    by (rule enter_staged)
  show "asking c \<Longrightarrow> keeps always keeps_staged (calls c)" for c by (rule staged_calls)
  show "transferring c \<Longrightarrow> keeps entered keeps_staged (calls c)" for c by (rule staged_calls)
  show "finishing c \<Longrightarrow> keeps always keeps_staged (calls c)" for c by (rule staged_calls)
qed (auto simp: keeps_def wp stage_defs)

text \<open>C15: A pass that starts with no calls made never moves bytes (a download, a run of \<open>hf\<close>, a pull)
before it has set the download phase, and sets that phase at most once, however many sources it has and
wherever it stops.\<close>
theorem download_phase_comes_first:
  assumes "wo_calls w = []" "splitSources (pc_Sources cfg) = (Some main, mmproj, extras)"
  shows "announced False (wo_calls (snd (run_state (ensure X cfg) w)))"
proof -
  have "staged (opened cfg w)" using assms by (simp add: opened_def staged_def entered_def new_pass_def)
  then show ?thesis
    using order.ends_ensure [of X cfg w]
    by (auto simp: wp_def keeps_staged_def staged_def split: prod.splits sum.splits)
qed

end
