(* ===== verification/FetchTrace.thy ===== *)
theory FetchTrace
  imports Fetch
begin

text \<open>
  What another process sees of a download of \<open>Fetch\<close> before it is over: the contents the partial file
  goes through, in order. The destination changes once, by the rename at the end. The functions follow
  those of \<open>internal/fetch/range.go\<close> step by step and give each change instead of the outcome; that they
  end where the outcome is, is \<open>download_parts_end\<close>.
\<close>

section \<open>The contents of the partial file\<close>

text \<open>A write shows the bytes as they arrive.\<close>

definition growing :: "string \<Rightarrow> string \<Rightarrow> string list" where
  "growing file data = map (\<lambda>k. file @ take k data) [1..<Suc (length data)]"

fun stream_parts :: "disk_plan \<Rightarrow> int \<Rightarrow> nat \<Rightarrow> body_read list \<Rightarrow> string \<Rightarrow> int \<Rightarrow> string list" where
  "stream_parts dp mb k [] file written = []"
| "stream_parts dp mb k (r # rs) file written =
     (if br_ctx r \<noteq> None then []
      else let data = br_data r; w = written + int (length data) in
        case (if data = [] then None else dp_write dp k) of
          Some (m, e) \<Rightarrow> growing file (take m data)
        | None \<Rightarrow>
            growing file data @
            (if data \<noteq> [] \<and> mb > 0 \<and> w > mb \<or> br_end r \<noteq> None then []
             else stream_parts dp mb (if data = [] then k else Suc k) rs (file @ data) w))"

text \<open>Opening creates or truncates the file, or leaves it to append to.\<close>

definition into_parts :: "disk_plan \<Rightarrow> body_read list \<Rightarrow> bool \<Rightarrow> int \<Rightarrow> int \<Rightarrow> disk \<Rightarrow> string option list" where
  "into_parts dp body app existing mb d =
     (if dp_open dp \<noteq> None then []
      else let file0 = (if app then (case dk_part d of None \<Rightarrow> [] | Some s \<Rightarrow> s) else [])
           in map Some (file0 # stream_parts dp mb 0 body file0 existing))"

definition removed_part :: "disk_plan \<Rightarrow> disk \<Rightarrow> string option list" where
  "removed_part dp d = [dk_part (remove_part dp d)]"

definition attempt_parts :: "fetch_env \<Rightarrow> range_opts \<Rightarrow> int \<Rightarrow> nat \<Rightarrow> disk \<Rightarrow> string option list" where
  "attempt_parts env o1 tot i d0 =
     (let dp = en_disk env i
      in case partSize dp d0 of
           Inl e \<Rightarrow> []
         | Inr existing0 \<Rightarrow>
             let big = (tot > 0 \<and> existing0 > tot);
                 d = (if big then remove_part dp d0 else d0);
                 existing = (if big then 0 else existing0)
             in (if big then removed_part dp d0 else []) @
                (if tot > 0 \<and> existing = tot then [] else if \<not> en_build env then []
                 else case en_get env i (if existing > 0 then Some existing else None)
                             (if existing > 0 then fo_ETag o1 else []) of
                   Inl e \<Rightarrow> []
                 | Inr r \<Rightarrow>
                     if rs_status r = 200 then
                       (if existing > 0 then removed_part dp d else []) @
                       into_parts dp (rs_body r) False 0 (fo_MaxBytes o1) (if existing > 0 then remove_part dp d else d)
                     else if rs_status r = 206 then
                       (case (if rs_content_range r = [] then None
                              else parseContentRangeStart (rs_content_range r)) of
                          Some start \<Rightarrow>
                            if start \<noteq> existing then removed_part dp d
                            else into_parts dp (rs_body r) True existing (fo_MaxBytes o1) d
                        | None \<Rightarrow> into_parts dp (rs_body r) True existing (fo_MaxBytes o1) d)
                     else if rs_status r = 416 \<and> \<not> (tot > 0 \<and> existing = tot) then removed_part dp d
                     else []))"

fun retry_parts :: "fetch_env \<Rightarrow> range_opts \<Rightarrow> int \<Rightarrow> nat \<Rightarrow> nat \<Rightarrow> disk \<Rightarrow> string option list" where
  "retry_parts env o1 tot i 0 d = []"
| "retry_parts env o1 tot i (Suc n) d =
     (case (if i > 0 then en_sleep env i else None) of
        Some c \<Rightarrow> []
      | None \<Rightarrow>
          attempt_parts env o1 tot i d @
          (case attempt env o1 tot i d of
             (None, d, evs) \<Rightarrow> []
           | (Some e, d, evs) \<Rightarrow> if shouldRetry e then retry_parts env o1 tot (Suc i) n d else []))"

definition download_parts :: "fetch_env \<Rightarrow> range_opts \<Rightarrow> disk \<Rightarrow> string option list" where
  "download_parts env o1 d =
     (if fo_URL o1 = [] \<or> fo_DestPath o1 = [] \<or> en_mkdir env \<noteq> None then []
      else case fetch_probe env of
        Inl e \<Rightarrow> []
      | Inr (head, etag) \<Rightarrow>
          if fo_ExpectedSize o1 > 0 \<and> head > 0 \<and> fo_ExpectedSize o1 \<noteq> head then []
          else let tot = (if head \<le> 0 then fo_ExpectedSize o1 else head); d' = drop_stale env o1 etag d
               in (if dk_part d' = dk_part d then [] else [dk_part d']) @
                  (if already_there tot d' then []
                   else retry_parts env (with_etag etag o1) tot 0 (Suc (retry_budget o1)) d'))"

section \<open>They end where the download does\<close>

fun after :: "'a \<Rightarrow> 'a list \<Rightarrow> 'a" where
  "after x [] = x"
| "after x (y # ys) = after y ys"

lemma after_append [simp]: "after x (ys @ zs) = after (after x ys) zs"
  by (induction x ys rule: after.induct) simp_all

lemma after_map [simp]: "after (f x) (map f xs) = f (after x xs)"
  by (induction x xs rule: after.induct) simp_all

lemma after_growing [simp]: "after file (growing file data) = file @ data"
proof (cases data rule: rev_cases)
  case (snoc d c)
  then have "growing file data = map (\<lambda>k. file @ take k data) [1..<length data] @ [file @ data]"
    by (simp add: growing_def)
  then show ?thesis by simp
qed (simp add: growing_def)

lemma stream_parts_end:
  "fst (snd (stream_loop dp mb k body fl w)) = after fl (stream_parts dp mb k body fl w)"
proof (induction body arbitrary: k fl w)
  case (Cons r rs)
  show ?case
  proof (cases "br_ctx r")
    case None
    note ctx = None
    show ?thesis
    proof (cases "if br_data r = [] then None else dp_write dp k")
      case None
      then show ?thesis
        using ctx Cons.IH [of "if br_data r = [] then k else Suc k" "fl @ br_data r" "w + int (length (br_data r))"]
        by (cases "br_end r") (auto simp: Let_def split_beta split: if_splits option.splits)
    next
      case (Some x)
      then show ?thesis using ctx by (cases x) (simp add: Let_def)
    qed
  qed simp
qed simp

lemma into_parts_end:
  "dk_part (fst (snd (streamInto dp body app tot existing mb d))) =
     after (dk_part d) (into_parts dp body app existing mb d)"
  by (cases "dp_open dp") (simp_all add: streamInto_def into_parts_def Let_def split_beta stream_parts_end)

lemma attempt_parts_end:
  "dk_part (fst (snd (attempt env o1 tot i d0))) = after (dk_part d0) (attempt_parts env o1 tot i d0)"
proof (cases "partSize (en_disk env i) d0")
  case (Inl e)
  then show ?thesis by (simp add: attempt_def attempt_parts_def)
next
  case (Inr existing0)
  let ?dp = "en_disk env i"
  define big where "big = (tot > 0 \<and> existing0 > tot)"
  define d where "d = (if big then remove_part ?dp d0 else d0)"
  define existing where "existing = (if big then 0 else existing0)"
  define got where "got = en_get env i (if existing > 0 then Some existing else None)
    (if existing > 0 then fo_ETag o1 else [])"
  have start: "after (dk_part d0) (if big then removed_part ?dp d0 else []) = dk_part d"
    by (simp add: d_def removed_part_def)
  note defs = attempt_def attempt_parts_def Inr sum.case Let_def big_def [symmetric] d_def [symmetric]
    existing_def [symmetric] got_def [symmetric] after_append start
  show ?thesis
  proof (cases "tot > 0 \<and> existing = tot \<or> \<not> en_build env")
    case True
    then show ?thesis unfolding defs by auto
  next
    case False
    then have go: "(tot > 0 \<and> existing = tot) = False" "(\<not> en_build env) = False" by auto
    show ?thesis
    proof (cases got)
      case (Inl e)
      then show ?thesis unfolding defs go if_False by simp
    next
      case (Inr r)
      have g: "got = Inr r" by fact
      consider (full) "rs_status r = 200" | (part) "rs_status r = 206" | (none) "rs_status r = 416"
        | (other) "rs_status r \<noteq> 200" "rs_status r \<noteq> 206" "rs_status r \<noteq> 416" by blast
      then show ?thesis
      proof cases
        case full
        then show ?thesis using g unfolding defs go if_False by (auto simp: into_parts_end removed_part_def)
      next
        case part
        then show ?thesis using g unfolding defs go if_False
          by (simp add: into_parts_end removed_part_def split: option.split)
      next
        case none
        then show ?thesis using g unfolding defs go if_False by (auto simp: removed_part_def)
      next
        case other
        then show ?thesis using g unfolding defs go if_False by simp
      qed
    qed
  qed
qed

lemma retry_parts_end:
  "dk_part (fst (snd (retry_loop env o1 tot i n e d))) = after (dk_part d) (retry_parts env o1 tot i n d)"
proof (induction n arbitrary: i e d)
  case (Suc n)
  obtain e1 d1 evs1 where a: "attempt env o1 tot i d = (e1, d1, evs1)" by (metis prod_cases3)
  then have d1: "dk_part d1 = after (dk_part d) (attempt_parts env o1 tot i d)"
    using attempt_parts_end [of env o1 tot i d] by simp
  show ?case
    using a d1 Suc.IH [of "Suc i" _ d1]
    by (cases "if 0 < i then en_sleep env i else None"; cases e1) (simp_all add: split_beta)
qed simp

text \<open>The contents end with what a failed download leaves behind, and with what a complete one puts in
  place.\<close>

lemma download_parts_end:
  "(if dl_error (Download env o1 d) = None then dk_dest (dl_disk (Download env o1 d)) \<in> {after (dk_part d) (download_parts env o1 d), dk_dest d}
    else dk_part (dl_disk (Download env o1 d)) = after (dk_part d) (download_parts env o1 d))"
proof -
  have dest: "dk_dest (drop_stale env o1 etag d) = dk_dest d" for etag by (simp add: drop_stale_def)
  have start: "after (dk_part d) (if dk_part d' = dk_part d then [] else [dk_part d']) = dk_part d'" for d' by simp
  show ?thesis
  proof (cases "fo_URL o1 = [] \<or> fo_DestPath o1 = [] \<or> en_mkdir env \<noteq> None")
    case True
    then show ?thesis by (auto simp: Download_def failed_download_def download_parts_def split: option.splits)
  next
    case False
    show ?thesis
    proof (cases "fetch_probe env")
      case (Inl e)
      then show ?thesis using False by (auto simp: Download_def failed_download_def download_parts_def)
    next
      case (Inr m)
      obtain head etag where m: "m = (head, etag)" by fastforce
      define tot where "tot = (if head \<le> 0 then fo_ExpectedSize o1 else head)"
      let ?d = "drop_stale env o1 etag d"
      let ?loop = "retry_loop env (with_etag etag o1) tot 0 (Suc (retry_budget o1)) UrlRequired ?d"
      have loop: "dk_part (fst (snd ?loop)) =
          after (dk_part ?d) (retry_parts env (with_etag etag o1) tot 0 (Suc (retry_budget o1)) ?d)"
        by (rule retry_parts_end)
      have fin: "(if dl_error (finish_download env o1 meta x) = None then dk_dest (dl_disk (finish_download env o1 meta x)) = dk_part (fst (snd x))
          else dk_part (dl_disk (finish_download env o1 meta x)) = dk_part (fst (snd x)))" for meta x
        by (auto simp: finish_download_def Let_def split: prod.splits option.splits)
      show ?thesis
        using False Inr m fin [of "(tot, etag)" ?loop] loop
        by (auto simp: Download_def failed_download_def download_parts_def Let_def tot_def [symmetric] dest start
            simp del: retry_loop.simps retry_parts.simps split: if_splits)
    qed
  qed
qed

end
