(* ===== verification/Boot.thy ===== *)
theory Boot
  imports Passes FetchTrace
begin

text \<open>
  What a pass promises about files: a pass over sources that are all recorded makes no request, a pass
  that succeeds leaves the readiness files behind, and a record never stands next to bytes it does not
  describe, whatever moment another process looks.
\<close>

section \<open>Passes over recorded sources\<close>

text \<open>The records that the reuse decisions of \<open>sidecar.go\<close> accept.\<close>

definition url_recorded :: "'f outside \<Rightarrow> fs \<Rightarrow> verify_level \<Rightarrow> model_source \<Rightarrow> string \<Rightarrow> bool" where
  "url_recorded X fs level ms dest \<longleftrightarrow>
     record_hit (local_verifier X fs) (path_dir dest) level (urlSourceIdentity (ox_lib X) ms)
       (verify_Read (ox_read_err X) (vl_time_ok (ox_lib X)) (url_record dest) fs) \<noteq> None"

definition hf_recorded :: "'f outside \<Rightarrow> pass_cfg \<Rightarrow> fs \<Rightarrow> verify_level \<Rightarrow> model_source \<Rightarrow> bool" where
  "hf_recorded X cfg fs level ms \<longleftrightarrow>
     (case ReadRefCommit (read_text X fs) (hfCacheRoot cfg) (ms_HFRepo ms) (ms_HFRevision ms) of
        None \<Rightarrow> False
      | Some sha \<Rightarrow>
          sha \<noteq> [] \<and>
          record_hit (local_verifier X fs) (SnapshotPath (hfCacheRoot cfg) (ms_HFRepo ms) sha) level
            (hfSourceIdentity (pc_HFEndpoint cfg) ms)
            (verify_Read (ox_read_err X) (vl_time_ok (ox_lib X))
              (hfSidecarPath (ox_lib X) (hfCacheRoot cfg) (ms_HFRepo ms) sha
                (hfSourceIdentity (pc_HFEndpoint cfg) ms)) fs) \<noteq> None)"

definition recorded :: "'f outside \<Rightarrow> pass_cfg \<Rightarrow> verify_level \<Rightarrow> fs \<Rightarrow> model_source \<Rightarrow> bool" where
  "recorded X cfg level fs ms \<longleftrightarrow>
     (case ms_Kind ms of
        KindURL \<Rightarrow> url_recorded X fs level ms (ms_LocalPath ms)
      | KindOllamaURL \<Rightarrow>
          (let dest = path_join [url_fetched cfg, urlDestName ms]
           in url_recorded X fs level (ms\<lparr>ms_LocalPath := dest\<rparr>) dest)
      | KindHF \<Rightarrow> hf_recorded X cfg fs level ms
      | _ \<Rightarrow> False)"

text \<open>Steps that leave the files and the calls alone.\<close>

definition untouched :: "'f world \<Rightarrow> 'f world \<Rightarrow> bool" where
  "untouched w w' \<longleftrightarrow> wo_fs w' = wo_fs w \<and> wo_calls w' = wo_calls w"

interpretation still: contract "\<lambda>w. S (wo_fs w)" untouched "\<lambda>_. untouched" for S :: "fs \<Rightarrow> bool"
  by unfold_locales (simp_all add: untouched_def)

lemma untouched_fail: "ends S untouched (\<lambda>_. untouched) (fail X msg b)"
  by (simp add: ends_def fail_def wp untouched_def)

lemma untouched_mkdir: "keeps S untouched (mkdir_all X)"
  by (simp add: keeps_def mkdir_all_def wp untouched_def os_mkdir_all_def check_def)

lemma untouched_fs: "keeps S untouched (reads f)"
  by (simp add: keeps_def wp untouched_def)

lemma untouched_fetch_file:
  assumes "level \<noteq> LevelRemote"
  shows "ends (\<lambda>w. url_recorded X (wo_fs w) level ms dest) untouched (\<lambda>_. untouched)
    (fetch_file X cfg ms dest level)"
  using assms
  by (auto simp: ends_def fetch_file_def reuseURLDownload_def wp untouched_def url_recorded_def split: option.split)

lemma untouched_runHF:
  assumes "passLevel (pc_VerifyLevel cfg) opts \<noteq> LevelRemote" "\<not> ro_Force opts"
  shows "ends (\<lambda>w. hf_recorded X cfg (wo_fs w) (passLevel (pc_VerifyLevel cfg) opts) ms) untouched (\<lambda>_. untouched)
    (runHF X cfg ms opts)"
  using assms
  by (auto simp: ends_def runHF_def reuseHFDownload_def wp untouched_def hf_recorded_def Let_def split: option.splits)

lemma untouched_extra:
  assumes "passLevel (pc_VerifyLevel cfg) opts \<noteq> LevelRemote" "\<not> ro_Force opts"
  shows "ends (\<lambda>w. recorded X cfg (passLevel (pc_VerifyLevel cfg) opts) (wo_fs w) ms) untouched (\<lambda>_. untouched)
    (ensureExtra X cfg ms opts)"
proof -
  let ?l = "passLevel (pc_VerifyLevel cfg) opts"
  have url: "ends (\<lambda>w. url_recorded X (wo_fs w) ?l ms dest) untouched (\<lambda>_. untouched) (do {
      e \<leftarrow> mkdir_all X;
      case e of
        Some e \<Rightarrow> fail X (msg e) True
      | None \<Rightarrow> do {
          r \<leftarrow> fetch_file X cfg ms dest ?l;
          State_Monad.return (case r of Inl e \<Rightarrow> Inl e | Inr _ \<Rightarrow> Inr dest)
        }
    })" for msg dest ms
    by (intro still.ends_bind [OF untouched_mkdir] still.ends_option untouched_fail still.ends_map
        untouched_fetch_file assms(1))
  have skip: "(do { x \<leftarrow> State_Monad.return (); m }) = m" for m :: "('f, 'b) pass"
    by (simp add: State_Monad.bind_def State_Monad.return_def)
  show ?thesis
  proof (cases "ms_Kind ms")
    case KindURL
    then show ?thesis using url [of "ms" "ms_LocalPath ms"] assms(2)
      by (simp add: ensureExtra_def recorded_def skip) (intro impI untouched_fail)
  next
    case KindOllamaURL
    show ?thesis
      unfolding ensureExtra_def ensureExtraOllamaURL_def recorded_def KindOllamaURL source_kind.case Let_def
        url_fetched_def [symmetric]
      using assms(2) by (simp add: skip) (intro impI conjI untouched_fail url)
  next
    case KindHF
    show ?thesis
      unfolding ensureExtra_def recorded_def KindHF source_kind.case
      by (intro still.ends_case untouched_runHF assms still.ends_bind [OF untouched_fs] still.ends_sum
          untouched_fail still.ends_return)
  qed (simp_all add: recorded_def ends_def)
qed

lemma untouched_extras:
  assumes "passLevel (pc_VerifyLevel cfg) opts \<noteq> LevelRemote" "\<not> ro_Force opts"
  shows "ends (\<lambda>w. list_all (recorded X cfg (passLevel (pc_VerifyLevel cfg) opts) (wo_fs w)) mss) untouched
    (\<lambda>_. untouched) (ensure_extras X cfg opts mss paths)"
proof (induction mss arbitrary: paths)
  case Nil
  then show ?case by (simp add: ends_def wp untouched_def)
next
  case (Cons ms mss)
  let ?S = "\<lambda>fs. list_all (recorded X cfg (passLevel (pc_VerifyLevel cfg) opts) fs) (ms # mss)"
  have "ends (\<lambda>w. ?S (wo_fs w)) untouched (\<lambda>_. untouched) (ensureExtra X cfg ms opts)"
    using untouched_extra [OF assms, of X ms] by (simp add: ends_def)
  moreover have "ends (\<lambda>w. ?S (wo_fs w)) untouched (\<lambda>_. untouched) (ensure_extras X cfg opts mss paths)" for paths
    using Cons by (simp add: ends_def)
  ultimately show ?case
    by (simp only: ensure_extras.simps) (intro still.ends_case [where S = ?S])
qed

text \<open>The steps that follow call only the adapter.\<close>

definition no_request :: "'f world \<Rightarrow> 'f world \<Rightarrow> bool" where
  "no_request w w' \<longleftrightarrow> filter (\<lambda>c. \<not> finishing c) (wo_calls w') = filter (\<lambda>c. \<not> finishing c) (wo_calls w)"

interpretation local: contract always no_request "\<lambda>_. no_request"
  by unfold_locales (simp_all add: no_request_def)

lemma local_steps:
  "keeps always no_request (set_phase X PhaseLoading)" "keeps always no_request (set_phase X PhaseReady)"
  "keeps always no_request (store_ready X b)" "keeps always no_request (register X ps known)"
  "keeps always no_request (registerWithKnownDigests X dest)" "keeps always no_request (recordVerify X ok)"
  "keeps always no_request (reconcile X ps)" "keeps always no_request (writeSentinelPath X cfg p)"
  "keeps always no_request (writeSentinelHF X cfg p)" "keeps always no_request (writeExtraPaths X cfg ps)"
  "keeps always no_request (reads f)"
  by (auto simp: keeps_def no_request_def set_phase_def store_ready_def register_def registerWithKnownDigests_def
      recordVerify_def reconcile_def writeSentinelPath_def writeSentinelHF_def writeExtraPaths_def wp Let_def
      split: sum.split prod.split)

lemma local_fail: "ends always no_request (\<lambda>_. no_request) (fail X msg b)"
  by (simp add: ends_def fail_def wp no_request_def)

lemma local_publish:
  "keeps always no_request reg \<Longrightarrow> keeps always no_request put \<Longrightarrow>
     ends always no_request (\<lambda>_. no_request) (publish X reg put)"
  unfolding publish_def
  by (intro local.ends_bind local.ends_option local_fail local_steps local.ends_return)

text \<open>What leaves everything alone, followed by such steps.\<close>

lemma still_bind:
  assumes m: "keeps (\<lambda>w. S (wo_fs w)) untouched m"
    and f: "\<And>x. ends (\<lambda>w. S (wo_fs w)) no_request (\<lambda>_. no_request) (f x)"
  shows "ends (\<lambda>w. S (wo_fs w)) no_request (\<lambda>_. no_request) (m \<bind> f)"
proof -
  have "wp m (\<lambda>x. wp (f x) (\<lambda>r. case r of Inl e \<Rightarrow> no_request w | Inr _ \<Rightarrow> no_request w)) w" if w: "S (wo_fs w)" for w
  proof (rule wp_conseq [OF keeps_wp [OF m w]])
    fix x w1 assume u: "untouched w w1"
    then have "S (wo_fs w1)" using w by (simp add: untouched_def)
    then have "wp (f x) (\<lambda>r. case r of Inl e \<Rightarrow> no_request w1 | Inr _ \<Rightarrow> no_request w1) w1"
      by (rule ends_wp [OF f])
    then show "wp (f x) (\<lambda>r. case r of Inl e \<Rightarrow> no_request w | Inr _ \<Rightarrow> no_request w) w1"
      by (rule wp_conseq) (use u in \<open>auto simp: untouched_def no_request_def split: sum.splits\<close>)
  qed
  then show ?thesis by (simp add: ends_def wp_bind)
qed

lemma still_case:
  fixes m :: "('f, 'a) fallible" and f :: "'a \<Rightarrow> ('f, 'b) fallible"
  assumes m: "ends (\<lambda>w. S (wo_fs w)) untouched (\<lambda>_. untouched) m"
    and f: "\<And>x. ends (\<lambda>w. S (wo_fs w)) no_request (\<lambda>_. no_request) (f x)"
  shows "ends (\<lambda>w. S (wo_fs w)) no_request (\<lambda>_. no_request)
    (m \<bind> (\<lambda>r. case r of Inl e \<Rightarrow> State_Monad.return (Inl e) | Inr x \<Rightarrow> f x))"
proof (rule still_bind)
  show "keeps (\<lambda>w. S (wo_fs w)) untouched m"
    using m by (auto simp: ends_def keeps_def wp_run split: sum.splits)
  show "ends (\<lambda>w. S (wo_fs w)) no_request (\<lambda>_. no_request)
      (case r of Inl e \<Rightarrow> State_Monad.return (Inl e) | Inr x \<Rightarrow> f x)" for r :: "pass_error + 'a"
    using f by (cases r) (simp_all add: ends_def wp no_request_def)
qed

lemma main_then:
  fixes m :: "('f, 'a) fallible" and f :: "'a \<Rightarrow> ('f, 'b) fallible"
  assumes m: "ends S no_request (\<lambda>_. no_request) m" and f: "\<And>x. ends always no_request (\<lambda>_. no_request) (f x)"
  shows "ends S no_request (\<lambda>_. no_request)
    (m \<bind> (\<lambda>r. case r of Inl e \<Rightarrow> State_Monad.return (Inl e) | Inr x \<Rightarrow> f x))"
proof -
  have "wp m (\<lambda>r. wp (case r of Inl e \<Rightarrow> State_Monad.return (Inl e) | Inr x \<Rightarrow> f x)
      (\<lambda>r. case r of Inl e \<Rightarrow> no_request w | Inr _ \<Rightarrow> no_request w)) w" if w: "S w" for w
  proof (rule wp_conseq [OF ends_wp [OF m w]])
    fix r :: "pass_error + 'a" and w1
    assume "(case r of Inl e \<Rightarrow> no_request w | Inr _ \<Rightarrow> no_request w) w1"
    then have "no_request w w1" by (auto split: sum.splits)
    then show "wp (case r of Inl e \<Rightarrow> State_Monad.return (Inl e) | Inr x \<Rightarrow> f x)
      (\<lambda>r. case r of Inl e \<Rightarrow> no_request w | Inr _ \<Rightarrow> no_request w) w1"
      using local.ends_after [OF TrueI _ f] by (cases r) (simp_all add: wp)
  qed
  then show ?thesis by (simp add: ends_def wp_bind)
qed

lemma ends_only: "ends Q R F m \<Longrightarrow> (\<And>w. P w \<Longrightarrow> Q w) \<Longrightarrow> ends P R F m"
  by (simp add: ends_def)

lemma local_main:
  fixes X :: "'f outside"
  assumes "passLevel (pc_VerifyLevel cfg) opts \<noteq> LevelRemote" "\<not> ro_Force opts"
  shows "ends (\<lambda>w. recorded X cfg (passLevel (pc_VerifyLevel cfg) opts) (wo_fs w) main \<and>
        (case mmproj of None \<Rightarrow> True | Some m \<Rightarrow> recorded X cfg (passLevel (pc_VerifyLevel cfg) opts) (wo_fs w) m))
      no_request (\<lambda>_. no_request) (ensure_main X cfg main mmproj opts paths)"
proof -
  let ?l = "passLevel (pc_VerifyLevel cfg) opts"
  have skip: "(do { x \<leftarrow> State_Monad.return (); m }) = m" for m :: "('f, 'b) pass"
    by (simp add: State_Monad.bind_def State_Monad.return_def)
  have url: "ends (\<lambda>w. url_recorded X (wo_fs w) ?l ms dest) no_request (\<lambda>_. no_request) (do {
      e \<leftarrow> mkdir_all X;
      case e of
        Some e \<Rightarrow> fail X (msg e) True
      | None \<Rightarrow> do {
          r \<leftarrow> fetch_file X cfg ms dest ?l;
          case r of Inl e \<Rightarrow> State_Monad.return (Inl e) | Inr _ \<Rightarrow> m
        }
    })" if "ends always no_request (\<lambda>_. no_request) m" for msg dest ms and m :: "('f, unit) fallible"
  proof (intro still_bind [OF untouched_mkdir])
    fix e :: "io_error option"
    show "ends (\<lambda>w. url_recorded X (wo_fs w) ?l ms dest) no_request (\<lambda>_. no_request)
      (case e of Some e \<Rightarrow> fail X (msg e) True
       | None \<Rightarrow> fetch_file X cfg ms dest ?l \<bind>
          (\<lambda>r. case r of Inl e \<Rightarrow> State_Monad.return (Inl e) | Inr _ \<Rightarrow> m))"
      using still_case [OF untouched_fetch_file [OF assms(1)], where f = "\<lambda>_. m"]
        ends_weaken [OF that] ends_weaken [OF local_fail]
      by (cases e) auto
  qed
  have publish: "ends always no_request (\<lambda>_. no_request) (do {
      reconcile X ps; set_phase X PhaseLoading; publish X (register X qs known) (writeSentinelPath X cfg p)
    })" for ps qs known p
    by (intro local.ends_bind local_steps local_publish)
  have publish': "ends always no_request (\<lambda>_. no_request) (do {
      reconcile X ps; set_phase X PhaseLoading;
      r \<leftarrow> publish X (registerWithKnownDigests X p) (writeSentinelPath X cfg p);
      case r of Inl e \<Rightarrow> State_Monad.return (Inl e)
      | Inr _ \<Rightarrow> do { set_phase X PhaseReady; store_ready X False; State_Monad.return (Inr ()) }
    })" for ps p
    by (intro local.ends_case local.ends_bind local_steps local_publish local.ends_return)
  show ?thesis
  proof (cases "ms_Kind main")
    case KindURL
    have "ends (\<lambda>w. url_recorded X (wo_fs w) ?l main (ms_LocalPath main)) no_request (\<lambda>_. no_request)
        (ensureURL X cfg main opts paths)"
      unfolding ensureURL_def using assms(2)
      by (simp add: skip) (intro impI conjI ends_weaken [OF local_fail] url publish)
    then show ?thesis
      unfolding ensure_main_def KindURL source_kind.case
      by (rule ends_only) (simp add: recorded_def KindURL)
  next
    case KindOllamaURL
    let ?dest = "path_join [url_fetched cfg, urlDestName main]"
    have "ends (\<lambda>w. url_recorded X (wo_fs w) ?l (main\<lparr>ms_LocalPath := ?dest\<rparr>) ?dest) no_request (\<lambda>_. no_request)
        (ensureOllamaURL X cfg main opts paths)"
      unfolding ensureOllamaURL_def Let_def url_fetched_def [symmetric]
      using assms(2)
      by (simp add: skip) (intro impI conjI ends_weaken [OF local_fail] url publish')
    then show ?thesis
      unfolding ensure_main_def KindOllamaURL source_kind.case
      by (rule ends_only) (simp add: recorded_def KindOllamaURL Let_def)
  next
    case KindHF
    let ?S = "\<lambda>fs. hf_recorded X cfg fs ?l main \<and>
      (case mmproj of None \<Rightarrow> True | Some m \<Rightarrow> recorded X cfg ?l fs m)"
    have main: "ends (\<lambda>w. ?S (wo_fs w)) untouched (\<lambda>_. untouched) (runHF X cfg main opts)"
      using untouched_runHF [OF assms] by (rule ends_only) simp
    have proj: "ends (\<lambda>w. ?S (wo_fs w)) untouched (\<lambda>_. untouched) (runHF X cfg m opts)"
      if "mmproj = Some m" "ms_Kind m = KindHF" for m
      using untouched_runHF [OF assms] by (rule ends_only) (use that in \<open>simp add: recorded_def\<close>)
    have mm: "ends (\<lambda>w. ?S (wo_fs w)) untouched (\<lambda>_. untouched) (case mmproj of
        None \<Rightarrow> State_Monad.return (Inr [])
      | Some m \<Rightarrow>
          if ms_Kind m = KindHF \<and> length (ms_HFInclude m) = 1 then do {
            r \<leftarrow> runHF X cfg m opts;
            State_Monad.return (case r of Inl e \<Rightarrow> Inl e | Inr res \<Rightarrow> Inr (hr_Path res))
          } else State_Monad.return (Inr []))"
    proof (cases mmproj)
      case (Some m)
      show ?thesis
      proof (cases "ms_Kind m = KindHF \<and> length (ms_HFInclude m) = 1")
        case True
        then have hf: "ms_Kind m = KindHF" ..
        show ?thesis
          unfolding Some option.case if_P [OF True]
          by (rule still.ends_map) (use proj [OF Some hf] Some in simp)
      qed (auto simp: Some ends_def wp untouched_def)
    qed (simp add: ends_def wp untouched_def)
    have "ends (\<lambda>w. ?S (wo_fs w)) no_request (\<lambda>_. no_request) (ensureHF X cfg main mmproj opts paths)"
      unfolding ensureHF_def
      by (rule still_case [where S = ?S, OF main], rule still_case [where S = ?S, OF mm], rule ends_weaken)
        (intro local.ends_bind local.ends_sum local_fail local_steps local_publish)
    then show ?thesis
      unfolding ensure_main_def KindHF source_kind.case
      by (rule ends_only) (simp add: recorded_def KindHF)
  qed (simp_all add: recorded_def ends_def)
qed

text \<open>C8: A pass over sources whose records are valid makes no request: unless it is forced or asked to
check the upstreams, it neither sets the download phase nor probes, downloads, pulls or runs \<open>hf\<close>; all
it calls is the adapter. So a boot works without a network.\<close>
theorem recorded_sources_make_no_request:
  assumes "splitSources (pc_Sources cfg) = (Some main, mmproj, extras)"
    "begin_pass (wo_lc w) = (opts, l)" "\<not> ro_Force opts"
    "passLevel (pc_VerifyLevel cfg) opts \<noteq> LevelRemote"
    "list_all (recorded X cfg (passLevel (pc_VerifyLevel cfg) opts) (wo_fs w)) (pass_sources main mmproj extras)"
    "wo_calls w = []"
  shows "list_all finishing (wo_calls (snd (run_state (ensure X cfg) w)))"
proof -
  let ?l = "passLevel (pc_VerifyLevel cfg) opts"
  let ?S = "\<lambda>fs. list_all (recorded X cfg ?l fs) (pass_sources main mmproj extras)"
  have extras: "ends (\<lambda>w. ?S (wo_fs w)) untouched (\<lambda>_. untouched) (ensure_extras X cfg opts extras [])"
    using untouched_extras [OF assms(4,3)] by (rule ends_only) (simp add: pass_sources_def)
  have main: "ends (\<lambda>w. ?S (wo_fs w)) no_request (\<lambda>_. no_request) (ensure_main X cfg main mmproj opts paths)" for paths
    using local_main [OF assms(4,3)] by (rule ends_only) (cases mmproj; simp add: pass_sources_def)
  let ?w = "w\<lparr>wo_lc := l, wo_pass := new_pass main mmproj extras (ro_Force opts)\<rparr>"
  have body: "ends (\<lambda>w. ?S (wo_fs w)) no_request (\<lambda>_. no_request) (ensure_sources X cfg opts main mmproj extras)"
    unfolding ensure_sources_def
    by (intro still_case [where S = ?S] extras main_then main local.ends_bind local_steps local.ends_option
        local_fail local.ends_return)
  have "?S (wo_fs ?w)" using assms(5) by simp
  note ends_wp [OF body this]
  moreover have "lc_pendingOpts (wo_lc w) = opts" using arg_cong [OF assms(2), of fst] by simp
  ultimately have "wp (ensure X cfg) (\<lambda>r. case r of Inl e \<Rightarrow> no_request ?w | Inr _ \<Rightarrow> no_request ?w) w"
    using assms(1,2) by (simp add: ensure_def wp Let_def)
  then show ?thesis
    using assms(6) by (auto simp: wp_run no_request_def list_all_iff filter_empty_conv split: sum.splits)
qed

section \<open>A pass that succeeds is announced\<close>

definition ready_files :: "fs \<Rightarrow> string \<Rightarrow> string \<Rightarrow> bool" where
  "ready_files fs runDir p \<longleftrightarrow>
     fs (runDir, ModelPathFile) = Some (p @ [CHR 0x0A]) \<and> fs (runDir, FinishFile) \<noteq> None"

lemma sentinel_Write_ready:
  assumes "sentinel_Write io1 io2 now runDir p fs = (None, tr)"
  shows "tr \<noteq> [] \<and> ready_files (last tr) runDir p"
proof -
  have "runDir \<noteq> []" "is_abs p" using assms by (auto simp: sentinel_Write_def is_abs_def split: if_splits)
  with assms show ?thesis
  proof (cases rule: sentinel_Write_io)
    case (both tr1 tr2 e2)
    then have w: "atomicWrite io2 (runDir, FinishFile) (now @ [CHR 0x0A]) (last tr1) = (None, tr2)" by simp
    have "last tr2 (runDir, ModelPathFile) = last tr1 (runDir, ModelPathFile)"
      by (rule sent.put_last_frame [OF w]) (simp_all add: tmp_of_def)
    then show ?thesis
      using sent.put_ok [OF both(1)] sent.put_ok [OF w] both(3) sent.put_nonempty [OF w]
      by (simp add: ready_files_def)
  qed auto
qed

lemma WriteExtra_frame:
  assumes "WriteExtra io runDir paths fs = (e, tr)" "q \<noteq> (runDir, ExtraModelPathFile)"
    "q \<noteq> tmp_of (runDir, ExtraModelPathFile)"
  shows "last (fs # tr) q = fs q"
proof -
  have put: "last tr' q = fs q" if "atomicWrite io (runDir, ExtraModelPathFile) d fs = (e', tr')" for d e' tr'
    using sent.put_last_frame [OF that] assms(2,3) by simp
  have rm: "last tr' q = fs q" if "os_remove io (runDir, ExtraModelPathFile) fs = (e', tr')" for e' tr'
    using that assms(2) by (auto elim!: os_remove_cases)
  show ?thesis
    using assms(1) put rm
    by (auto simp: WriteExtra_def Let_def os_mkdir_all_def check_def lift_run_def io_then_def
        split: if_splits option.splits prod.splits)
qed

text \<open>What a fallible step establishes when it returns.\<close>

definition yields :: "('f world \<Rightarrow> bool) \<Rightarrow> ('f, 'a) fallible \<Rightarrow> bool" where
  "yields Q m \<longleftrightarrow> (\<forall>w. wp m (\<lambda>r. case r of Inl e \<Rightarrow> always | Inr _ \<Rightarrow> Q) w)"

lemma wp_any: "(\<And>r w'. Q r w') \<Longrightarrow> wp m Q w"
  by (simp add: wp_run)

lemma yields_bind: "(\<And>x. yields Q (f x)) \<Longrightarrow> yields Q (m \<bind> f)"
  by (simp add: yields_def wp_bind wp_any)

lemma yields_Inl: "yields Q (State_Monad.return (Inl e))"
  by (simp add: yields_def wp)

lemma yields_fail: "yields Q (fail X msg b)"
  by (simp add: yields_def fail_def wp)

lemma yields_rules:
  "yields Q m \<Longrightarrow> yields Q n \<Longrightarrow> yields Q (if b then m else n)"
  "yields Q m \<Longrightarrow> (\<And>x. yields Q (h x)) \<Longrightarrow> yields Q (case v of None \<Rightarrow> m | Some x \<Rightarrow> h x)"
  "(\<And>x. yields Q (k x)) \<Longrightarrow> (\<And>x. yields Q (l x)) \<Longrightarrow> yields Q (case u of Inl x \<Rightarrow> k x | Inr x \<Rightarrow> l x)"
  by (auto split: option.split sum.split)

lemma yields_then:
  assumes "yields Q m" "\<And>x. ends Q (\<lambda>_. Q) (\<lambda>_ _ _. True) (f x)"
  shows "yields Q (m \<bind> (\<lambda>r. case r of Inl e \<Rightarrow> State_Monad.return (Inl e) | Inr x \<Rightarrow> f x))"
  unfolding yields_def wp_bind
proof
  fix w
  from assms(1) have "wp m (\<lambda>r. case r of Inl e \<Rightarrow> always | Inr _ \<Rightarrow> Q) w" by (simp add: yields_def)
  then show "wp m (\<lambda>r. wp (case r of Inl e \<Rightarrow> State_Monad.return (Inl e) | Inr x \<Rightarrow> f x)
      (\<lambda>r. case r of Inl e \<Rightarrow> always | Inr _ \<Rightarrow> Q)) w"
  proof (rule wp_conseq)
    fix r :: "pass_error + 'b" and w'
    assume "(case r of Inl e \<Rightarrow> always | Inr _ \<Rightarrow> Q) w'"
    then show "wp (case r of Inl e \<Rightarrow> State_Monad.return (Inl e) | Inr x \<Rightarrow> f x)
      (\<lambda>r. case r of Inl e \<Rightarrow> always | Inr _ \<Rightarrow> Q) w'"
      using ends_wp [OF assms(2)] by (cases r) (simp_all add: wp_return)
  qed
qed

lemma yields_publish:
  assumes "pc_RunDir cfg \<noteq> []"
  shows "yields (\<lambda>w. ready_files (wo_fs w) (pc_RunDir cfg) p) (publish X reg (writeSentinelPath X cfg p))"
proof -
  let ?put = "\<lambda>w. sentinel_Write (ox_io X (wo_tick w)) (ox_io X (Suc (wo_tick w))) (ox_stamp X (Suc (wo_tick w)))
    (pc_RunDir cfg) p (wo_fs w)"
  have "ready_files (last (wo_fs w # snd (?put w))) (pc_RunDir cfg) p" if "fst (?put w) = None" for w :: "'a world"
  proof -
    have "?put w = (None, snd (?put w))" using that by (simp add: prod_eq_iff)
    from sentinel_Write_ready [OF this] show ?thesis by simp
  qed
  then have "yields (\<lambda>w. ready_files (wo_fs w) (pc_RunDir cfg) p) (do {
      s \<leftarrow> writeSentinelPath X cfg p;
      case s of
        Some e \<Rightarrow> fail X (g e) False
      | None \<Rightarrow> do { recordVerify X True; State_Monad.return (Inr ()) }
    })" for g
    using assms
    by (auto simp: yields_def writeSentinelPath_def fail_def recordVerify_def wp simp del: last.simps
        split: option.split)
  then show ?thesis
    unfolding publish_def by (intro yields_bind [of _ _ reg] yields_rules(2) yields_fail)
qed

text \<open>What follows keeps the files.\<close>

lemma ready_kept:
  fixes X :: "'f outside" and cfg :: pass_cfg
  defines "Q p \<equiv> \<lambda>w :: 'f world. ready_files (wo_fs w) (pc_RunDir cfg) p"
  shows "ends (Q p) (\<lambda>_. Q p) (\<lambda>_ _ _. True)
      (do { set_phase X PhaseReady; store_ready X b; State_Monad.return (Inr ()) })"
    "ends (Q p) (\<lambda>_. Q p) (\<lambda>_ _ _. True) (do {
       s \<leftarrow> writeExtraPaths X cfg ps;
       case s of Some e \<Rightarrow> fail X (g e) False | None \<Rightarrow> State_Monad.return (Inr ())
     })"
proof -
  show "ends (Q p) (\<lambda>_. Q p) (\<lambda>_ _ _. True)
      (do { set_phase X PhaseReady; store_ready X b; State_Monad.return (Inr ()) })"
    by (auto simp: ends_def Q_def set_phase_def store_ready_def wp split: sum.split)
  have "last (wo_fs w # snd (WriteExtra io (pc_RunDir cfg) ps (wo_fs w))) q = wo_fs w q"
    if "q = (pc_RunDir cfg, ModelPathFile) \<or> q = (pc_RunDir cfg, FinishFile)" for w :: "'f world" and io q
    using that WriteExtra_frame [of io "pc_RunDir cfg" ps "wo_fs w" _ _ q]
    by (cases "WriteExtra io (pc_RunDir cfg) ps (wo_fs w)")
      (auto simp: tmp_of_def ModelPathFile_def FinishFile_def ExtraModelPathFile_def)
  then show "ends (Q p) (\<lambda>_. Q p) (\<lambda>_ _ _. True) (do {
       s \<leftarrow> writeExtraPaths X cfg ps;
       case s of Some e \<Rightarrow> fail X (g e) False | None \<Rightarrow> State_Monad.return (Inr ())
     })"
    by (auto simp: ends_def Q_def writeExtraPaths_def fail_def ready_files_def wp simp del: last.simps
        split: option.split)
qed

definition destination :: "pass_cfg \<Rightarrow> model_source \<Rightarrow> string" where
  "destination cfg ms =
     (if ms_Kind ms = KindOllamaURL then path_join [url_fetched cfg, urlDestName ms] else ms_LocalPath ms)"

text \<open>C14: When a pass over a URL returns without an error, the engine's readiness files are complete: the
model path file holds the file of the main source and the marker is there, whatever the extra sources
and the list of their paths did in between.\<close>
theorem finished_pass_announces_the_model:
  assumes "splitSources (pc_Sources cfg) = (Some main, mmproj, extras)"
    "ms_Kind main = KindURL \<or> ms_Kind main = KindOllamaURL" "pc_RunDir cfg \<noteq> []"
    "run_state (ensure X cfg) w = (Inr (), w')"
  shows "ready_files (wo_fs w') (pc_RunDir cfg) (destination cfg main)"
proof -
  let ?Q = "\<lambda>w. ready_files (wo_fs w) (pc_RunDir cfg) (destination cfg main)"
  have url: "yields ?Q (ensureURL X cfg main opts ps)" if "ms_Kind main = KindURL" for opts ps
  proof -
    have p: "yields ?Q (publish X (register X qs known) (writeSentinelPath X cfg (ms_LocalPath main)))" for qs known
      using yields_publish [OF assms(3), where p = "ms_LocalPath main"] that by (simp add: destination_def)
    show ?thesis
      unfolding ensureURL_def by (intro yields_rules yields_fail yields_Inl yields_bind p)
  qed
  have overload: "yields ?Q (ensureOllamaURL X cfg main opts ps)" if "ms_Kind main = KindOllamaURL" for opts ps
  proof -
    let ?dest = "path_join [url_fetched cfg, urlDestName main]"
    have "yields ?Q (publish X reg (writeSentinelPath X cfg ?dest))" for reg
      using yields_publish [OF assms(3), where p = ?dest] that by (simp add: destination_def)
    note p = yields_then [OF this ready_kept(1)]
    show ?thesis
      unfolding ensureOllamaURL_def Let_def url_fetched_def [symmetric]
      by (intro yields_rules yields_fail yields_Inl yields_bind [of _ _ "mkdir_all X"]
          yields_bind [of _ _ "fetch_file X cfg m d l" for m d l] yields_bind [of _ _ "reconcile X qs" for qs]
          yields_bind [of _ _ "set_phase X PhaseLoading"] yields_bind [of _ _ "if b then m else n" for b m n] p)
  qed
  have "yields ?Q (ensure_main X cfg main mmproj opts ps)" for opts ps
    using assms(2) url overload by (auto simp: ensure_main_def)
  then have "yields ?Q (ensure_sources X cfg opts main mmproj extras)" for opts
    unfolding ensure_sources_def
    by (intro yields_bind [of _ _ "ensure_extras X cfg opts extras []"] yields_rules(3) yields_Inl
        yields_then ready_kept(2))
  then have "wp (ensure X cfg) (\<lambda>r. case r of Inl e \<Rightarrow> always | Inr _ \<Rightarrow> ?Q) w"
    using assms(1) by (simp add: yields_def ensure_def Let_def wp)
  then show ?thesis using assms(4) by (simp add: wp_run)
qed

section \<open>Records and the bytes they describe\<close>

text \<open>A transfer service works on its destination and the partial file beside it.\<close>

locale transfer_service =
  fixes move :: "nat \<Rightarrow> string \<Rightarrow> string \<Rightarrow> fs \<Rightarrow> transfer"
  assumes frame: "fs' \<in> set (tf_trace (move n url dest fs)) \<Longrightarrow> q \<noteq> at dest \<Longrightarrow> q \<noteq> at (dest @ ''.part'') \<Longrightarrow> fs' q = fs q"
begin

lemma frame_last: "q \<noteq> at dest \<Longrightarrow> q \<noteq> at (dest @ ''.part'') \<Longrightarrow> last (fs # tf_trace (move n url dest fs)) q = fs q"
  using frame [of "last (tf_trace (move n url dest fs))" n url dest fs q] by (cases "tf_trace (move n url dest fs)") auto

end

text \<open>The downloader of \<open>Fetch\<close> as a pass calls it: no expected size, no ETag, the default number of
  retries. \<open>env\<close> is what the n-th call meets, \<open>cap\<close> the manager's limit. Another process sees the partial
  file go through the contents of \<open>FetchTrace\<close>, byte by byte, with the destination as it was, and last the
  destination after the rename.\<close>

definition pass_opts :: "int \<Rightarrow> string \<Rightarrow> string \<Rightarrow> range_opts" where
  "pass_opts cap url dest =
     \<lparr>fo_URL = url, fo_DestPath = dest, fo_ExpectedSize = 0, fo_ETag = [], fo_MaxRetries = 0, fo_MaxBytes = cap\<rparr>"

definition disk_transfer :: "(nat \<Rightarrow> string \<Rightarrow> fetch_env) \<Rightarrow> int \<Rightarrow> (nat \<Rightarrow> int) \<Rightarrow> nat \<Rightarrow> string \<Rightarrow> string \<Rightarrow> fs \<Rightarrow> transfer" where
  "disk_transfer env cap now n url dest fs =
     (let d = \<lparr>dk_part = file_at fs (dest @ ''.part''), dk_dest = file_at fs dest\<rparr>;
          dl = Download (env n url) (pass_opts cap url dest) d
      in \<lparr>tf_error = dl_error dl, tf_etag = (case dl_meta dl of None \<Rightarrow> [] | Some (tot, etag) \<Rightarrow> etag),
          tf_events = map (Pair (now n)) (dl_events dl),
          tf_trace =
            map (\<lambda>part. fs(at (dest @ ''.part'') := part)) (download_parts (env n url) (pass_opts cap url dest) d) @
            [fs(at dest := dk_dest (dl_disk dl), at (dest @ ''.part'') := dk_part (dl_disk dl))]\<rparr>)"

interpretation fetcher: transfer_service "disk_transfer env cap now"
  by unfold_locales (auto simp: disk_transfer_def Let_def)

text \<open>\<open>apart dest\<close>: the file, its partial file and its record have four different names with the
  temporary of the record.\<close>

definition apart :: "string \<Rightarrow> bool" where
  "apart dest \<longleftrightarrow> distinct [at dest, at (dest @ ''.part''), at (url_record dest), tmp_of (at (url_record dest))]"

text \<open>The text of a record for the bytes \<open>d\<close>: their length and, where the level hashes, their digest.\<close>

definition describes :: "verify_lib \<Rightarrow> model_source \<Rightarrow> string \<Rightarrow> verify_level \<Rightarrow> string \<Rightarrow> string \<Rightarrow> bool" where
  "describes L ms dest level d t \<longleftrightarrow>
     (\<exists>now etag. t = json_indent 0 (sidecar_value (stamped now
        (zero_sidecar\<lparr>sd_Source := urlSourceIdentity L ms,
           sd_Files := [\<lparr>vf_Path = path_base dest, vf_Size = int (length d),
             vf_SHA256 = (if ms_URLSha256 ms = [] \<and> HashesLocally level then vl_hash L d else ms_URLSha256 ms),
             vf_ETag = etag\<rparr>]\<rparr>))))"

text \<open>No record, the file and the record there were before, or a record of the file that is there.\<close>

definition vouched :: "'f outside \<Rightarrow> model_source \<Rightarrow> string \<Rightarrow> verify_level \<Rightarrow> fs \<Rightarrow> fs \<Rightarrow> bool" where
  "vouched X ms dest level fs0 fs' \<longleftrightarrow>
     fs' (at (url_record dest)) = None \<or>
     fs' (at dest) = fs0 (at dest) \<and> fs' (at (url_record dest)) = fs0 (at (url_record dest)) \<or>
     (\<exists>d t. fs' (at dest) = Some d \<and> fs' (at (url_record dest)) = Some t \<and> describes (ox_lib X) ms dest level d t)"

lemma wp_fail: "wp (fail X msg b) Q w \<longleftrightarrow>
    Q (Inl (if b then PassRetriable msg else PassPermanent msg))
      (w\<lparr>wo_tick := Suc (wo_tick w), wo_lc := snd (pass_fail (ox_floats X) (ox_now X (wo_tick w)) msg b (wo_lc w))\<rparr>)"
  by (simp add: fail_def wp)

lemma enter_files: "wp (enterDownloadPhase X cfg) (\<lambda>_ w'. wo_fs w' = wo_fs w \<and> wo_seen w' = wo_seen w) w"
  by (simp add: enterDownloadPhase_def set_phase_def wp Let_def)

lemma os_remove_frame: "os_remove io p fs = (e, tr) \<Longrightarrow> fs' \<in> set tr \<Longrightarrow> q \<noteq> p \<Longrightarrow> fs' q = fs q"
  by (auto elim!: os_remove_cases)

lemma removed:
  assumes "os_remove io p fs = (e, tr)" "io_remove io"
  shows "tr \<noteq> [] \<and> last tr p = None \<and> (\<forall>fs' \<in> set tr. fs' p = None \<or> fs' = fs)"
  using assms by (auto simp: os_remove_def split: if_splits)

text \<open>What a step observes, and what it leaves: all of it satisfies \<open>V\<close>.\<close>

definition shows_only :: "(fs \<Rightarrow> bool) \<Rightarrow> 'f world \<Rightarrow> 'f world \<Rightarrow> bool" where
  "shows_only V w w' \<longleftrightarrow> (\<exists>tr. wo_seen w' = wo_seen w @ tr \<and> list_all V tr)"

lemma shows_only_refl: "shows_only V w w"
  by (simp add: shows_only_def)

lemma shows_only_trans: "shows_only V w w1 \<Longrightarrow> shows_only V w1 w2 \<Longrightarrow> shows_only V w w2"
  by (force simp: shows_only_def)

lemma writeURLSidecar_shows:
  assumes "apart dest" "wo_fs w (at (url_record dest)) = None"
  shows "wp (writeURLSidecar X ms dest level etag) (\<lambda>_. shows_only (vouched X ms dest level fs0) w) w"
proof (cases "file_at (wo_fs w) dest")
  case None
  then show ?thesis by (simp add: writeURLSidecar_def wp shows_only_refl)
next
  case (Some d)
  let ?sha = "if ms_URLSha256 ms = [] \<and> HashesLocally level then vl_hash (ox_lib X) d else ms_URLSha256 ms"
  let ?data = "\<lambda>n. json_indent 0 (sidecar_value (stamped (ox_stamp X n)
    (zero_sidecar\<lparr>sd_Source := urlSourceIdentity (ox_lib X) ms,
       sd_Files := [\<lparr>vf_Path = path_base dest, vf_Size = int (length d), vf_SHA256 = ?sha, vf_ETag = etag\<rparr>]\<rparr>)))"
  have d: "describes (ox_lib X) ms dest level d (?data n)" for n
    unfolding describes_def by blast
  let ?run = "record_put (ox_io X (wo_tick w)) (at (url_record dest)) (?data (wo_tick w)) (wo_fs w)"
  have "vouched X ms dest level fs0 fs'" if "fs' \<in> set (snd ?run)" for fs'
  proof -
    have run: "?run = (fst ?run, snd ?run)" by simp
    have "fs' (at (url_record dest)) = None \<or> fs' (at (url_record dest)) = Some (?data (wo_tick w))"
      using vrec.put_observed [OF run that] assms(2) by simp
    moreover have "fs' (at dest) = wo_fs w (at dest)"
      by (rule vrec.put_frame [OF run that]) (use assms(1) in \<open>auto simp: apart_def\<close>)
    ultimately have "fs' (at (url_record dest)) = None \<or> fs' (at (url_record dest)) = Some (?data (wo_tick w))"
      "fs' (at dest) = Some d" using Some by (simp_all add: file_at_def)
    then show ?thesis using d by (auto simp: vouched_def)
  qed
  then show ?thesis
    using Some by (simp add: writeURLSidecar_def wp Let_def verify_Write_def shows_only_def list_all_iff)
qed

lemma removeURLSidecar_shows:
  assumes "io_remove (ox_io X (wo_tick w))" "apart dest"
  shows "wp (removeURLSidecar X dest)
    (\<lambda>_ w'. shows_only (vouched X ms dest level (wo_fs w)) w w' \<and> wo_fs w' (at (url_record dest)) = None) w"
proof -
  obtain e tr where r: "os_remove (ox_io X (wo_tick w)) (at (url_record dest)) (wo_fs w) = (e, tr)" by fastforce
  have "tr \<noteq> []" "last tr (at (url_record dest)) = None"
    "\<And>fs'. fs' \<in> set tr \<Longrightarrow> fs' (at (url_record dest)) = None \<or> fs' = wo_fs w"
    using removed [OF r assms(1)] by auto
  moreover have "vouched X ms dest level (wo_fs w) fs'" if "fs' \<in> set tr" for fs'
    using calculation(3) [OF that] by (auto simp: vouched_def)
  ultimately show ?thesis
    by (simp add: removeURLSidecar_def wp verify_Remove_def r shows_only_def list_all_iff)
qed

text \<open>The world after the transfer, and what the rest of \<open>downloadURL\<close> does there.\<close>

definition moved :: "'f outside \<Rightarrow> model_source \<Rightarrow> 'f world \<Rightarrow> 'f world" where
  "moved X ms w =
     (let t = ox_transfer X (wo_tick w) (ms_URL ms) (ms_LocalPath ms) (wo_fs w)
      in w\<lparr>wo_tick := Suc (wo_tick w), wo_calls := wo_calls w @ [CDownload (ms_URL ms) (ms_LocalPath ms)],
           wo_fs := last (wo_fs w # tf_trace t), wo_seen := wo_seen w @ tf_trace t,
           wo_lc := (wo_lc w)\<lparr>lc_progress := sink_run (ox_floats X) (tf_events t) (lc_progress (wo_lc w))\<rparr>\<rparr>)"

lemma wp_downloadURL:
  "wp (downloadURL X ms) Q w \<longleftrightarrow>
     (let t = ox_transfer X (wo_tick w) (ms_URL ms) (ms_LocalPath ms) (wo_fs w); w1 = moved X ms w
      in case tf_error t of
           Some err \<Rightarrow> wp (case urlDownloadUserMessage (ox_error_text X) err of (msg, again) \<Rightarrow> fail X msg again) Q w1
         | None \<Rightarrow>
             if ms_URLSha256 ms = [] then Q (Inr (tf_etag t)) w1
             else (case local_verifier X (wo_fs w1) (ms_LocalPath ms) (- 1) (trim_prefix (ms_URLSha256 ms) ''sha256:'') of
                     None \<Rightarrow> Q (Inr (tf_etag t)) w1
                   | Some err \<Rightarrow>
                       wp (do { remove_file X (ms_LocalPath ms);
                                fail X (''download verify: '' @ ox_error_text X err) True }) Q w1))"
  by (simp add: downloadURL_def moved_def Let_def wp split: option.split)

context transfer_service
begin

lemma downloadURL_shows:
  fixes X :: "'f outside" and w :: "'f world"
  defines "Q V r w0 w' \<equiv> shows_only V w0 w' \<and> wo_fs w' r = None"
  assumes "ox_transfer X = move" "apart (ms_LocalPath ms)" "wo_fs w (at (url_record (ms_LocalPath ms))) = None"
  shows "wp (downloadURL X ms) (\<lambda>_. Q (vouched X ms' (ms_LocalPath ms) level fs0) (at (url_record (ms_LocalPath ms))) w) w"
proof -
  let ?dest = "ms_LocalPath ms"
  let ?rec = "at (url_record ?dest)"
  let ?V = "vouched X ms' ?dest level fs0"
  let ?tr = "tf_trace (ox_transfer X (wo_tick w) (ms_URL ms) ?dest (wo_fs w))"
  have far: "?rec \<noteq> at ?dest" "?rec \<noteq> at (?dest @ ''.part'')" using assms(3) by (auto simp: apart_def)
  have tr: "fs' ?rec = None" if "fs' \<in> set ?tr" for fs'
    using frame [of fs' "wo_tick w" "ms_URL ms" ?dest "wo_fs w" ?rec] far that assms(2,4) by simp
  have fin: "last (wo_fs w # ?tr) ?rec = None"
    using frame_last [OF far] assms(2,4) by metis
  have w1: "Q ?V ?rec w (moved X ms w)"
    using tr fin by (auto simp: moved_def Q_def shows_only_def list_all_iff vouched_def Let_def simp del: last.simps)
  have fail: "wp (fail X msg b :: ('f, string) fallible) (\<lambda>_. Q ?V ?rec w) w1" if "Q ?V ?rec w w1" for msg b w1
    using that by (simp add: wp_fail Q_def shows_only_def)
  have gone: "wp (remove_file X ?dest) (\<lambda>_. Q ?V ?rec w) w1" if "Q ?V ?rec w w1" for w1
  proof -
    obtain e tr where r: "os_remove (ox_io X (wo_tick w1)) (at ?dest) (wo_fs w1) = (e, tr)" by fastforce
    have n: "wo_fs w1 ?rec = None" using that by (simp add: Q_def)
    have f: "fs' ?rec = None" if "fs' \<in> set tr" for fs'
      using os_remove_frame [OF r that far(1)] n by simp
    then have "last (wo_fs w1 # tr) ?rec = None" using n by (cases "tr = []") simp_all
    moreover have "list_all ?V tr" using f by (simp add: list_all_iff vouched_def)
    ultimately show ?thesis
      using that by (auto simp: remove_file_def wp r Q_def shows_only_def simp del: last.simps)
  qed
  have bad: "wp (do { remove_file X ?dest; fail X msg True } :: ('f, string) fallible) (\<lambda>_. Q ?V ?rec w) w1"
    if "Q ?V ?rec w w1" for msg w1
    unfolding wp_bind by (rule wp_conseq [OF gone [OF that]]) (rule fail)
  show ?thesis
    using w1 fail [OF w1] bad [OF w1] by (simp add: wp_downloadURL Let_def split: option.split prod.split)
qed

end

lemma fetch_shows:
  fixes X :: "'f outside"
  assumes "ox_transfer X = disk_transfer env cap now" "apart (ms_LocalPath ms)"
    "wo_fs w1 (at (url_record (ms_LocalPath ms))) = None"
  shows "wp (do {
      r \<leftarrow> downloadURL X ms;
      case r of
        Inl e \<Rightarrow> State_Monad.return (Inl e)
      | Inr etag \<Rightarrow> do { writeURLSidecar X ms (ms_LocalPath ms) level etag; State_Monad.return (Inr ()) }
    } :: ('f, unit) fallible) (\<lambda>_. shows_only (vouched X ms (ms_LocalPath ms) level fs0) w1) w1"
  unfolding wp_bind
proof (rule wp_conseq [OF fetcher.downloadURL_shows [OF assms]])
  fix r :: "pass_error + string" and w2
  assume "shows_only (vouched X ms (ms_LocalPath ms) level fs0) w1 w2 \<and>
    wo_fs w2 (at (url_record (ms_LocalPath ms))) = None"
  then have w2: "shows_only (vouched X ms (ms_LocalPath ms) level fs0) w1 w2"
    "wo_fs w2 (at (url_record (ms_LocalPath ms))) = None" by simp_all
  have "wp (do { writeURLSidecar X ms (ms_LocalPath ms) level etag; State_Monad.return (Inr ()) } :: ('f, unit) fallible)
      (\<lambda>_. shows_only (vouched X ms (ms_LocalPath ms) level fs0) w1) w2" for etag
    unfolding wp_bind
    by (rule wp_conseq [OF writeURLSidecar_shows [where ?fs0.0 = fs0, OF assms(2) w2(2)]])
      (simp add: wp_return shows_only_trans [OF w2(1)])
  then show "wp (case r of Inl e \<Rightarrow> State_Monad.return (Inl e)
      | Inr etag \<Rightarrow> do { writeURLSidecar X ms (ms_LocalPath ms) level etag; State_Monad.return (Inr ()) })
    (\<lambda>_. shows_only (vouched X ms (ms_LocalPath ms) level fs0) w1) w2"
    using w2(1) by (cases r) (simp_all add: wp_return)
qed

text \<open>The code does not check that the record went. When it stays, the transfer goes ahead beside it, and
whatever is downloaded stands next to the record of the file before.\<close>

lemma wp_remove_refused:
  assumes "\<And>n. \<not> io_remove (ox_io X n)"
  shows "wp (removeURLSidecar X dest) Q w \<longleftrightarrow>
      Q () (w\<lparr>wo_tick := Suc (wo_tick w), wo_seen := wo_seen w @ [wo_fs w]\<rparr>)"
    "wp (remove_file X p) Q w \<longleftrightarrow> Q () (w\<lparr>wo_tick := Suc (wo_tick w), wo_seen := wo_seen w @ [wo_fs w]\<rparr>)"
  by (simp_all add: removeURLSidecar_def remove_file_def wp verify_Remove_def os_remove_def assms)

theorem unremoved_record_survives:
  fixes X :: "'f outside"
  assumes "ox_transfer X = disk_transfer env cap now" "apart dest" "ms_LocalPath ms = dest" "\<And>n. \<not> io_remove (ox_io X n)"
    "run_state (do { removeURLSidecar X dest; downloadURL X ms }) w = (r, w')"
  shows "wo_fs w' (at (url_record dest)) = wo_fs w (at (url_record dest)) \<and>
    wo_fs w' (at dest) = last (wo_fs w # tf_trace (disk_transfer env cap now (Suc (wo_tick w)) (ms_URL ms) dest (wo_fs w))) (at dest)"
proof -
  have far: "at (url_record dest) \<noteq> at dest" "at (url_record dest) \<noteq> at (dest @ ''.part'')"
    using assms(2) by (auto simp: apart_def)
  let ?Q = "\<lambda>(r :: pass_error + string) w'. wo_fs w' (at (url_record dest)) = wo_fs w (at (url_record dest)) \<and>
    wo_fs w' (at dest) = last (wo_fs w # tf_trace (disk_transfer env cap now (Suc (wo_tick w)) (ms_URL ms) dest (wo_fs w))) (at dest)"
  have "wp (downloadURL X ms) ?Q (w\<lparr>wo_tick := Suc (wo_tick w), wo_seen := wo_seen w @ [wo_fs w]\<rparr>)"
    using fetcher.frame_last [OF far]
    by (auto simp: wp_downloadURL moved_def Let_def assms(1,3) wp_bind wp_remove_refused(2) [OF assms(4)] wp_fail
        simp del: last.simps split: option.split prod.split)
  then have "wp (do { removeURLSidecar X dest; downloadURL X ms }) ?Q w"
    by (simp only: wp_bind wp_remove_refused(1) [OF assms(4)])
  then show ?thesis using assms(5) by (simp only: wp_run fst_conv snd_conv)
qed

text \<open>C2: While a file is fetched again, its old record never vouches for the new bytes, as long as the old
record can be removed: whoever looks, at any moment of the transfer, finds no record, or the record and
the file of before, or a record of exactly the file that is there, however the transfer goes. The code
does not check the removal; what happens when it fails is \<open>unremoved_record_survives\<close>.\<close>
theorem record_never_describes_other_bytes:
  fixes X :: "'f outside"
  assumes "ox_transfer X = disk_transfer env cap now" "apart dest" "ms_LocalPath ms = dest"
    "\<And>n. io_remove (ox_io X n)"
    "run_state (downloadAndRecordURL X cfg ms dest level) w = (r, w')"
  shows "list_all (vouched X ms dest level (wo_fs w)) (drop (length (wo_seen w)) (wo_seen w'))"
proof -
  let ?V = "vouched X ms dest level (wo_fs w)"
  let ?rec = "at (url_record dest)"
  let ?tail = "do {
      r \<leftarrow> downloadURL X ms;
      case r of
        Inl e \<Rightarrow> State_Monad.return (Inl e)
      | Inr etag \<Rightarrow> do { writeURLSidecar X ms dest level etag; State_Monad.return (Inr ()) }
    } :: ('f, unit) fallible"
  have tail: "wp ?tail (\<lambda>_. shows_only ?V w) w2" if "shows_only ?V w w2" "wo_fs w2 ?rec = None" for w2
  proof -
    have "wp ?tail (\<lambda>_. shows_only ?V w2) w2"
      using fetch_shows [OF assms(1), of ms] assms(2,3) that(2) by simp
    then show ?thesis by (rule wp_conseq) (rule shows_only_trans [OF that(1)])
  qed
  have "wp (do { removeURLSidecar X dest; ?tail }) (\<lambda>_. shows_only ?V w) w1"
    if "wo_fs w1 = wo_fs w" "wo_seen w1 = wo_seen w" for w1
  proof -
    have "wp (removeURLSidecar X dest) (\<lambda>_ w2. shows_only ?V w1 w2 \<and> wo_fs w2 ?rec = None) w1"
      using removeURLSidecar_shows [where w = w1 and ms = ms and level = level, OF assms(4,2)]
      unfolding that(1) .
    then have "wp (removeURLSidecar X dest) (\<lambda>_. wp ?tail (\<lambda>_. shows_only ?V w)) w1"
      by (rule wp_conseq) (use tail that(2) in \<open>simp add: shows_only_def\<close>)
    then show ?thesis by (simp only: wp_bind)
  qed
  then have "wp (enterDownloadPhase X cfg) (\<lambda>_. wp (do { removeURLSidecar X dest; ?tail }) (\<lambda>_. shows_only ?V w)) w"
    by (intro wp_conseq [OF enter_files]) simp
  then have "wp (downloadAndRecordURL X cfg ms dest level) (\<lambda>_. shows_only ?V w) w"
    by (simp only: downloadAndRecordURL_def wp_bind)
  then have "shows_only ?V w w'" using assms(5) by (simp only: wp_run fst_conv snd_conv)
  then show ?thesis by (auto simp: shows_only_def)
qed

text \<open>A file of the size the upstream advertises is not transferred: the downloader finds it complete.\<close>

lemma complete_transfer:
  assumes "url \<noteq> []" "dest \<noteq> []" "en_mkdir (env n url) = None"
    "fetch_probe (env n url) = Inr (int (length d), etag)" "file_at fs dest = Some d" "d \<noteq> []"
  shows "tf_error (disk_transfer env cap now n url dest fs) = None \<and>
    tf_etag (disk_transfer env cap now n url dest fs) = etag \<and>
    tf_trace (disk_transfer env cap now n url dest fs) = [fs]"
proof -
  have "fs(at dest := fs (at dest), at (dest @ ''.part'') := fs (at (dest @ ''.part''))) = fs"
    by (simp add: fun_upd_idem)
  then show ?thesis
    using assms
    by (auto simp: disk_transfer_def pass_opts_def Download_def download_parts_def drop_stale_def already_there_def Let_def file_at_def)
qed

lemma writeURLSidecar_records:
  assumes "ox_io X (wo_tick w) = fault_free" "apart dest" "file_at (wo_fs w) dest = Some d"
  shows "wp (writeURLSidecar X ms dest level etag) (\<lambda>_ w'. file_at (wo_fs w') dest = Some d \<and>
    (\<exists>t. wo_fs w' (at (url_record dest)) = Some t \<and> describes (ox_lib X) ms dest level d t)) w"
proof -
  let ?sha = "if ms_URLSha256 ms = [] \<and> HashesLocally level then vl_hash (ox_lib X) d else ms_URLSha256 ms"
  let ?data = "json_indent 0 (sidecar_value (stamped (ox_stamp X (wo_tick w))
    (zero_sidecar\<lparr>sd_Source := urlSourceIdentity (ox_lib X) ms,
       sd_Files := [\<lparr>vf_Path = path_base dest, vf_Size = int (length d), vf_SHA256 = ?sha, vf_ETag = etag\<rparr>]\<rparr>)))"
  obtain tr where tr: "record_put fault_free (at (url_record dest)) ?data (wo_fs w) = (None, tr)"
      "last tr (at (url_record dest)) = Some ?data"
    using vrec.put_succeeds by blast
  have "last tr (at dest) = wo_fs w (at dest)"
    by (rule vrec.put_last_frame [OF tr(1)]) (use assms(2) in \<open>auto simp: apart_def\<close>)
  moreover have "tr \<noteq> []" by (rule vrec.put_nonempty [OF tr(1)])
  moreover have "describes (ox_lib X) ms dest level d ?data" unfolding describes_def by blast
  ultimately show ?thesis
    using assms(1,3) tr by (simp add: writeURLSidecar_def wp Let_def verify_Write_def file_at_def)
qed

text \<open>C11: Damaged bytes are recorded as good. When the check of a \<open>VERIFY_LEVEL\<close> other than remote rejects
the file on disk of a source without a declared digest, the pass sets out to download it again; but the
downloader takes a file of the size the upstream advertises for complete, so, with a disk that works, no
byte is moved, the pass succeeds with the rejected file in place, and a new record is written that
describes that very file. With a declared digest the file is removed instead and the pass fails
(\<open>rejected_digest_keeps_the_announcement\<close>).\<close>
theorem rejected_file_is_recorded_again:
  fixes X :: "'f outside"
  assumes "ox_transfer X = disk_transfer env cap now" "\<And>n. ox_io X n = fault_free" "apart dest"
    "ms_URL ms \<noteq> []" "ms_LocalPath ms = dest" "dest \<noteq> []" "ms_URLSha256 ms = []"
    "file_at (wo_fs w) dest = Some d" "d \<noteq> []" "level \<noteq> LevelRemote" "\<not> url_recorded X (wo_fs w) level ms dest"
    "\<And>n. en_mkdir (env n (ms_URL ms)) = None" "\<And>n. fetch_probe (env n (ms_URL ms)) = Inr (int (length d), etag)"
    "run_state (fetch_file X cfg ms dest level) w = (r, w')"
  shows "r = Inr () \<and> file_at (wo_fs w') dest = Some d \<and>
    (\<exists>t. wo_fs w' (at (url_record dest)) = Some t \<and> describes (ox_lib X) ms dest level d t)"
proof -
  let ?Q = "\<lambda>r w'. r = Inr () \<and> file_at (wo_fs w') dest = Some d \<and>
    (\<exists>t. wo_fs w' (at (url_record dest)) = Some t \<and> describes (ox_lib X) ms dest level d t)"
  let ?tail = "do {
      r \<leftarrow> downloadURL X ms;
      case r of
        Inl e \<Rightarrow> State_Monad.return (Inl e)
      | Inr etag \<Rightarrow> do { writeURLSidecar X ms dest level etag; State_Monad.return (Inr ()) }
    } :: ('f, unit) fallible"
  have tail: "wp ?tail ?Q w1" if w1: "file_at (wo_fs w1) dest = Some d" for w1
  proof -
    note t = complete_transfer [where env = env and n = "wo_tick w1" and cap = cap and now = now,
        OF assms(4,6,12,13) w1 assms(9)]
    have m: "file_at (wo_fs (moved X ms w1)) dest = Some d"
      using t assms(1,5) w1 by (simp add: moved_def Let_def)
    have rec: "wp (do { writeURLSidecar X ms dest level etag; State_Monad.return (Inr ()) } :: ('f, unit) fallible)
        ?Q (moved X ms w1)"
      unfolding wp_bind
      by (rule wp_conseq [OF writeURLSidecar_records [OF assms(2,3) m]]) (simp add: wp_return)
    show ?thesis
      unfolding wp_bind [of "downloadURL X ms"] wp_downloadURL
      using t assms(1,5,7) rec by (simp add: Let_def)
  qed
  have "wp (removeURLSidecar X dest) (\<lambda>_. wp ?tail ?Q) w1" if "file_at (wo_fs w1) dest = Some d" for w1
  proof -
    have "file_at (last (wo_fs w1 # snd (os_remove fault_free (at (url_record dest)) (wo_fs w1)))) dest = Some d"
      using that assms(3) by (auto simp: os_remove_def fault_free_def file_at_def apart_def)
    then have "wp (removeURLSidecar X dest) (\<lambda>_ w2. file_at (wo_fs w2) dest = Some d) w1"
      using assms(2) by (simp add: removeURLSidecar_def wp verify_Remove_def split_beta del: last.simps)
    then show ?thesis by (rule wp_conseq) (rule tail)
  qed
  then have "wp (do { removeURLSidecar X dest; ?tail }) ?Q w1" if "file_at (wo_fs w1) dest = Some d" for w1
    using that by (simp only: wp_bind)
  then have "wp (enterDownloadPhase X cfg) (\<lambda>_. wp (do { removeURLSidecar X dest; ?tail }) ?Q) w"
    using assms(8) by (intro wp_conseq [OF enter_files]) simp
  then have "wp (downloadAndRecordURL X cfg ms dest level) ?Q w"
    by (simp only: downloadAndRecordURL_def wp_bind)
  then have "wp (fetch_file X cfg ms dest level) ?Q w"
    using assms(11) by (auto simp: fetch_file_def reuseURLDownload_def wp url_recorded_def)
  then show ?thesis using assms(14) by (simp add: wp_run)
qed

text \<open>When the digest of a source is not that of the downloaded file, the file is removed and the pass
fails, but nothing is done about the readiness files: as long as an earlier pass has written them, they
still announce a file that is gone.\<close>
theorem rejected_digest_keeps_the_announcement:
  fixes X :: "'f outside"
  assumes "ox_transfer X = disk_transfer env cap now"
    "tf_error (ox_transfer X (wo_tick w) (ms_URL ms) (ms_LocalPath ms) (wo_fs w)) = None" "ms_URLSha256 ms \<noteq> []"
    "local_verifier X (wo_fs (moved X ms w)) (ms_LocalPath ms) (- 1) (trim_prefix (ms_URLSha256 ms) ''sha256:'') = Some err"
    "\<And>n. io_remove (ox_io X n)"
    "list_all (\<lambda>q. q \<noteq> at (ms_LocalPath ms) \<and> q \<noteq> at (ms_LocalPath ms @ ''.part''))
       [(runDir, ModelPathFile), (runDir, FinishFile)]"
    "run_state (downloadURL X ms) w = (r, w')"
  shows "r = Inl (PassRetriable (''download verify: '' @ ox_error_text X err)) \<and>
    file_at (wo_fs w') (ms_LocalPath ms) = None \<and>
    ready_files (wo_fs w') runDir p = ready_files (wo_fs w) runDir p"
proof -
  let ?dest = "ms_LocalPath ms"
  let ?w1 = "moved X ms w"
  let ?tr = "tf_trace (ox_transfer X (wo_tick w) (ms_URL ms) ?dest (wo_fs w))"
  have kept: "wo_fs ?w1 q = wo_fs w q" if "q \<noteq> at ?dest" "q \<noteq> at (?dest @ ''.part'')" for q
    using fetcher.frame_last [OF that] assms(1) unfolding moved_def Let_def by (simp del: last.simps)
  obtain e tr where rm: "os_remove (ox_io X (wo_tick ?w1)) (at ?dest) (wo_fs ?w1) = (e, tr)" by fastforce
  have tr: "tr \<noteq> []" "last tr (at ?dest) = None" using removed [OF rm assms(5)] by simp_all
  have far: "last tr q = wo_fs w q" if "q \<noteq> at ?dest" "q \<noteq> at (?dest @ ''.part'')" for q
    using os_remove_frame [OF rm last_in_set [OF tr(1)] that(1)] kept [OF that] by simp
  have "wp (downloadURL X ms) (\<lambda>r w'. r = Inl (PassRetriable (''download verify: '' @ ox_error_text X err)) \<and>
      file_at (wo_fs w') ?dest = None \<and> ready_files (wo_fs w') runDir p = ready_files (wo_fs w) runDir p) w"
    unfolding wp_downloadURL
    using assms(2-4,6) tr far by (simp add: Let_def wp_bind remove_file_def wp rm wp_fail file_at_def ready_files_def)
  then show ?thesis using assms(7) by (simp add: wp_run)
qed

section \<open>A concrete pass\<close>

definition ex_outside :: "int outside" where
  "ex_outside = \<lparr>ox_floats = unit_floats, ox_lib = \<lparr>vl_hash = (\<lambda>_. ''ab''), vl_recordable = (\<lambda>_. ''u''), vl_time_ok = (\<lambda>_. True)\<rparr>,
     ox_now = (\<lambda>_. 0), ox_stamp = (\<lambda>_. ''t''), ox_io = (\<lambda>_. fault_free), ox_read_err = (\<lambda>_. False),
     ox_is_dir = (\<lambda>_ _. False), ox_read_dir = (\<lambda>_ _. None), ox_walk = (\<lambda>_ _. []), ox_hub = example_hub,
     ox_url_split = (\<lambda>_. None), ox_head = (\<lambda>_ _. Inl UrlRequired),
     ox_transfer = disk_transfer (\<lambda>_ _. flaky_env 0 ''xy'' ''e'') 0 (\<lambda>_. 0),
     ox_hf = (\<lambda>_ _ _. \<lparr>ht_result = Inl (OtherError []), ht_events = [], ht_trace = []\<rparr>),
     ox_pull = (\<lambda>_ _. (None, [])), ox_register = (\<lambda>_ _ _. (None, [])), ox_ready = (\<lambda>_. Inl []),
     ox_error_text = (\<lambda>_. []), ox_sentinel_text = (\<lambda>_. []), ox_quote = (\<lambda>s. s)\<rparr>"

definition ex_main :: model_source where
  "ex_main = (new_source 1 RoleMain [])\<lparr>ms_Kind := KindURL, ms_URL := ''http://h/m'', ms_LocalPath := ''/m/w''\<rparr>"

definition ex_cfg :: pass_cfg where
  "ex_cfg = \<lparr>pc_Sources = [ex_main], pc_RunDir = ''/run'', pc_VerifyLevel = ''size'', pc_DriftFollow = False,
     pc_HFToken = [], pc_HFEndpoint = [], pc_EnableXet = False, pc_HFCacheRoot = [], pc_MaxConcurrentDownloads = 1\<rparr>"

definition ex_record :: string where
  "ex_record = json_indent 0 (sidecar_value (stamped ''t'' (zero_sidecar\<lparr>sd_Source := urlSourceIdentity (ox_lib ex_outside) ex_main,
     sd_Files := [\<lparr>vf_Path = ''w'', vf_Size = 2, vf_SHA256 = ''ab'', vf_ETag = ''e''\<rparr>]\<rparr>)))"

definition ex_world :: "fs \<Rightarrow> int world" where
  "ex_world fs = \<lparr>wo_lc = lc_boot, wo_pass = new_pass ex_main None [] False, wo_fs = fs, wo_seen = [], wo_calls = [], wo_tick = 0\<rparr>"

definition ex_disk :: fs where
  "ex_disk = [(''/m'', ''w'') \<mapsto> ''xy'', (''/m'', ''w.llm-init.json'') \<mapsto> ex_record]"

lemma ex_fields [simp]:
  "ms_URL ex_main = ''http://h/m''" "ms_LocalPath ex_main = ''/m/w''" "ms_URLSha256 ex_main = []"
  "ms_Kind ex_main = KindURL" "ms_Role ex_main = RoleMain" "pc_RunDir ex_cfg = ''/run''"
  "pc_Sources ex_cfg = [ex_main]" "wo_fs (ex_world fs) = fs" "wo_calls (ex_world fs) = []" "wo_lc (ex_world fs) = lc_boot"
  "wo_tick (ex_world fs) = 0" "wo_seen (ex_world fs) = []" "pc_VerifyLevel ex_cfg = ''size''"
  by (simp_all add: ex_main_def new_source_def ex_cfg_def ex_world_def)

lemma ex_split [simp]: "splitSources [ex_main] = (Some ex_main, None, [])"
  by (simp add: splitSources_def)

lemma ex_paths [simp]:
  "at ''/m/w'' = (''/m'', ''w'')" "at (''/m/w'' @ ''.part'') = (''/m'', ''w.part'')"
  "at ''/m/w.part'' = (''/m'', ''w.part'')"
  "at (url_record ''/m/w'') = (''/m'', ''w.llm-init.json'')"
  by code_simp+

lemma ex_apart: "apart ''/m/w''"
  by (simp add: apart_def tmp_of_def del: append.simps)

lemma ex_recorded: "url_recorded ex_outside ex_disk LevelSize ex_main ''/m/w''"
  by code_simp

theorem recorded_sources_make_no_request_witness:
  "list_all finishing (wo_calls (snd (run_state (ensure ex_outside ex_cfg) (ex_world ex_disk))))"
proof (rule recorded_sources_make_no_request)
  show "begin_pass (wo_lc (ex_world ex_disk)) = (no_retry_options, snd (begin_pass lc_boot))"
    by (simp add: prod_eq_iff lc_boot_def new_lifecycle_def)
  have l: "passLevel (pc_VerifyLevel ex_cfg) no_retry_options = LevelSize"
    by (simp add: passLevel_def no_retry_options_def level_of_def)
  then show "passLevel (pc_VerifyLevel ex_cfg) no_retry_options \<noteq> LevelRemote" by simp
  show "list_all (recorded ex_outside ex_cfg (passLevel (pc_VerifyLevel ex_cfg) no_retry_options) (wo_fs (ex_world ex_disk)))
      (pass_sources ex_main None [])"
    unfolding l using ex_recorded by (simp add: pass_sources_def recorded_def)
qed (simp_all add: no_retry_options_def)

theorem record_never_describes_other_bytes_witness:
  "list_all (vouched ex_outside ex_main ''/m/w'' LevelSHA256 ex_disk)
     (wo_seen (snd (run_state (downloadAndRecordURL ex_outside ex_cfg ex_main ''/m/w'' LevelSHA256) (ex_world ex_disk))))"
  using record_never_describes_other_bytes [of ex_outside _ _ _ "''/m/w''" ex_main ex_cfg LevelSHA256 "ex_world ex_disk"
      "fst (run_state (downloadAndRecordURL ex_outside ex_cfg ex_main ''/m/w'' LevelSHA256) (ex_world ex_disk))"
      "snd (run_state (downloadAndRecordURL ex_outside ex_cfg ex_main ''/m/w'' LevelSHA256) (ex_world ex_disk))"] ex_apart
  by (simp add: ex_outside_def fault_free_def)

text \<open>Other bytes of the same length on disk, and no record of them.\<close>

definition ex_damaged :: fs where "ex_damaged = [(''/m'', ''w'') \<mapsto> ''zz'']"

theorem rejected_file_is_recorded_again_witness:
  "fst (run_state (fetch_file ex_outside ex_cfg ex_main ''/m/w'' LevelSHA256) (ex_world ex_damaged)) = Inr () \<and>
   file_at (wo_fs (snd (run_state (fetch_file ex_outside ex_cfg ex_main ''/m/w'' LevelSHA256) (ex_world ex_damaged)))) ''/m/w''
     = Some ''zz''"
proof -
  have "\<not> url_recorded ex_outside ex_damaged LevelSHA256 ex_main ''/m/w''"
    by (simp add: url_recorded_def record_hit_def verify_Read_def read_file_def ex_damaged_def del: ex_fields)
  moreover have "fetch_probe (flaky_env 0 ''xy'' ''e'') = Inr (int (length ''zz''), ''e'')"
    using flaky_probe [of "''xy''" 0 "''e''"] by (simp add: in_int64_def)
  moreover have "file_at ex_damaged ''/m/w'' = Some ''zz''" by (simp add: file_at_def ex_damaged_def)
  moreover have "ox_transfer ex_outside = disk_transfer (\<lambda>_ _. flaky_env 0 ''xy'' ''e'') 0 (\<lambda>_. 0)"
    "ox_io ex_outside n = fault_free" for n
    by (simp_all add: ex_outside_def)
  ultimately show ?thesis
    using rejected_file_is_recorded_again [of ex_outside "\<lambda>_ _. flaky_env 0 ''xy'' ''e''" 0 "\<lambda>_. 0" "''/m/w''" ex_main
        "ex_world ex_damaged" "''zz''" LevelSHA256 "''e''" ex_cfg
        "fst (run_state (fetch_file ex_outside ex_cfg ex_main ''/m/w'' LevelSHA256) (ex_world ex_damaged))"
        "snd (run_state (fetch_file ex_outside ex_cfg ex_main ''/m/w'' LevelSHA256) (ex_world ex_damaged))"] ex_apart
    by simp
qed

lemma ex_finishes: "fst (run_state (ensure ex_outside ex_cfg) (ex_world ex_disk)) = Inr ()"
proof -
  have put: "fst (sentinel_Write fault_free fault_free ''t'' ''/run'' ''/m/w'' fs) = None" for fs
    by (simp add: sentinel_Write_def is_abs_def has_prefix_def lift_run_def io_then_def os_mkdir_all_def check_def
        fault_free_def atomicWrite_def io_or_else_def os_write_file_def os_open_trunc_def write_bytes_def os_rename_def)
  have extra: "fst (WriteExtra fault_free ''/run'' [] fs) = None" for fs
    by (simp add: WriteExtra_def Let_def os_remove_def fault_free_def)
  have x: "io_mkdir fault_free" "ox_io ex_outside = (\<lambda>_. fault_free)" "ox_stamp ex_outside = (\<lambda>_. ''t'')"
    "ox_register ex_outside = (\<lambda>_ _ _. (None, []))"
    by (simp_all add: ex_outside_def fault_free_def)
  have "wp (fetch_file ex_outside ex_cfg ex_main ''/m/w'' LevelSize) Q w \<longleftrightarrow> Q (Inr ()) w" if "wo_fs w = ex_disk" for Q w
    using ex_recorded that by (auto simp: fetch_file_def reuseURLDownload_def wp url_recorded_def)
  then have "wp (ensure ex_outside ex_cfg) (\<lambda>r _. r = Inr ()) (ex_world ex_disk)"
    using put extra
    by (simp add: ensure_def ensure_sources_def ensure_main_def ensureURL_def wp Let_def mkdir_all_def x
        lc_boot_def new_lifecycle_def no_retry_options_def os_mkdir_all_def check_def
        passLevel_def level_of_def reconcile_def set_phase_def publish_def register_def writeSentinelPath_def
        recordVerify_def writeExtraPaths_def)
  then show ?thesis by (simp add: wp_run)
qed

theorem finished_pass_announces_the_model_witness:
  "ready_files (wo_fs (snd (run_state (ensure ex_outside ex_cfg) (ex_world ex_disk)))) ''/run'' ''/m/w''"
  using finished_pass_announces_the_model [of ex_cfg ex_main None "[]" ex_outside "ex_world ex_disk"
      "snd (run_state (ensure ex_outside ex_cfg) (ex_world ex_disk))"] ex_finishes
  by (simp add: destination_def prod_eq_iff)

text \<open>A source with a digest that no file has.\<close>

definition ex_pinned :: model_source where "ex_pinned = ex_main\<lparr>ms_URLSha256 := ''00''\<rparr>"

theorem rejected_digest_keeps_the_announcement_witness:
  "file_at (wo_fs (snd (run_state (downloadURL ex_outside ex_pinned) (ex_world ex_disk)))) ''/m/w'' = None \<and>
   ready_files (wo_fs (snd (run_state (downloadURL ex_outside ex_pinned) (ex_world ex_disk)))) ''/run'' ''/m/w'' =
     ready_files ex_disk ''/run'' ''/m/w''"
proof -
  have f: "ms_URL ex_pinned = ''http://h/m''" "ms_LocalPath ex_pinned = ''/m/w''" "ms_URLSha256 ex_pinned = ''00''"
    by (simp_all add: ex_pinned_def)
  have x: "ox_transfer ex_outside = disk_transfer (\<lambda>_ _. flaky_env 0 ''xy'' ''e'') 0 (\<lambda>_. 0)"
    by (simp add: ex_outside_def)
  have io: "io_remove (ox_io ex_outside n)" for n by (simp add: ex_outside_def fault_free_def)
  have "fetch_probe (flaky_env 0 ''xy'' ''e'') = Inr (int (length ''xy''), ''e'')"
    using flaky_probe [of "''xy''" 0 "''e''"] by (simp add: in_int64_def)
  then have t: "tf_error (ox_transfer ex_outside 0 ''http://h/m'' ''/m/w'' ex_disk) = None \<and>
      tf_etag (ox_transfer ex_outside 0 ''http://h/m'' ''/m/w'' ex_disk) = ''e'' \<and>
      tf_trace (ox_transfer ex_outside 0 ''http://h/m'' ''/m/w'' ex_disk) = [ex_disk]"
    unfolding x by (intro complete_transfer [where d = "''xy''"]) (simp_all add: file_at_def ex_disk_def)
  have "wo_fs (moved ex_outside ex_pinned (ex_world ex_disk)) = ex_disk"
    using t by (simp add: moved_def Let_def f)
  moreover have "\<exists>err. local_verifier ex_outside ex_disk ''/m/w'' (- 1) (trim_prefix ''00'' ''sha256:'') = Some err"
  proof (rule ccontr)
    assume "\<not> ?thesis"
    then have "local_verifier ex_outside ex_disk ''/m/w'' (- 1) (trim_prefix ''00'' ''sha256:'') = None" by simp
    moreover have "local_verifier ex_outside ex_disk ''/m/w'' (- 1) (trim_prefix ''00'' ''sha256:'') \<noteq> None" by code_simp
    ultimately show False by simp
  qed
  ultimately obtain err where "local_verifier ex_outside (wo_fs (moved ex_outside ex_pinned (ex_world ex_disk))) ''/m/w'' (- 1)
      (trim_prefix ''00'' ''sha256:'') = Some err" by auto
  then show ?thesis
    using rejected_digest_keeps_the_announcement [OF x, of "ex_world ex_disk" ex_pinned err "''/run''"
        "fst (run_state (downloadURL ex_outside ex_pinned) (ex_world ex_disk))"
        "snd (run_state (downloadURL ex_outside ex_pinned) (ex_world ex_disk))" "''/m/w''"] x t io
    by (simp add: f ModelPathFile_def FinishFile_def)
qed

theorem download_phase_comes_first_witness:
  "announced False (wo_calls (snd (run_state (ensure ex_outside ex_cfg) (ex_world ex_damaged))))"
  using download_phase_comes_first [of "ex_world ex_damaged" ex_cfg ex_main None "[]" ex_outside] by simp

end
