(* ===== verification/Spec2Isabelle.thy ===== *)
theory Spec2Isabelle
  imports Store Shlex EngineArgs KvDerive KvBudget Sentinel Tracker Progress Lifecycle Fetch
    Messages OllamaChat ProxyForward Sources Boot
begin

text \<open>
  A verification development for Model Console, the Go sidecar under \<open>src/\<close>.

  \<^bold>\<open>The program.\<close> A pod runs one model engine and this sidecar. The sidecar reads what the model is
  (\<open>MODEL_SOURCE\<close>, \<open>ENGINE_ARGS\<close>), fetches its files, hands the engine's launch flags and the readiness
  files to a wrapper in the engine's container, follows the engine's health, and serves the clients:
  it translates the Anthropic, OpenAI and Ollama protocols into each other and admits requests only as
  far as the engine's KV cache reaches. An \<^emph>\<open>ensure pass\<close> (\<open>internal/lifecycle/ensure.go\<close>) is where most
  parts meet: it asks the download records whether the files on disk are still the requested ones,
  estimates what is to be fetched, runs the downloader or the \<open>hf\<close> command, writes the new records and
  announces the model through the sentinel; progress and phase are kept by the progress and lifecycle
  managers, and the health loop wakes the pass again.

  \<^bold>\<open>Theories and sources.\<close> Names are the source's, up to a suffix where HOL has the name.
  \<^item> \<open>Prelude\<close>: 64-bit wrap-around, \<open>strings\<close>, \<open>strconv\<close>, lemmas on lists; \<open>ConfigTypes\<close>: the
    vocabularies of \<open>config_enums.go\<close>; \<open>Json\<close>, \<open>JsonDecode\<close>, \<open>JsonText\<close>, \<open>JsonStream\<close>: what
    the code uses of \<open>encoding/json\<close> (scanner, decoder, stores into struct fields, both encoders), with the round trip through
    each encoder and the calculus \<open>stores\<close> for decoding what was encoded; \<open>Paths\<close>: \<open>path/filepath\<close>;
    \<open>Regex\<close>: the regular expressions; \<open>AtomicFile\<close>: the file system and the contract of a writer.
  \<^item> \<open>Shlex\<close>, \<open>EngineArgs\<close>, \<open>KvDerive\<close>, \<open>Sources\<close>: \<open>internal/config\<close> (\<open>shlex.go\<close>, \<open>engine_args*.go\<close>,
    \<open>kvunified.go\<close>, \<open>context_size.go\<close>, \<open>pool_tokens.go\<close>, \<open>max_concurrency.go\<close>, \<open>modelsource.go\<close>, \<open>parse.go\<close>).
  \<^item> \<open>Capacity\<close>: \<open>internal/enginecapacity\<close>, what a running engine says it can hold, and the loop that
    asks it.
  \<^item> \<open>Reasoning\<close>: \<open>internal/reasoning\<close>; \<open>ModelCard\<close>: \<open>internal/config/modelspec.go\<close> and the reasoning ladder
    of \<open>config_load_model.go\<close>, the model card from its JSON text to its reconciliation at boot; \<open>Store\<close>:
    \<open>internal/runtimecfg\<close>, the card while the process runs, with the handlers of \<open>internal/controlplane\<close>
    that edit it and relaunch the engine, and the readings of \<open>Capacity\<close> recorded on it.
  \<^item> \<open>KvBudget\<close>: \<open>internal/dataplane/kvbudget\<close>, the admission gate, as an interleaving of handlers.
  \<^item> \<open>Sentinel\<close>, \<open>Handoff\<close>, \<open>Tracker\<close>: \<open>internal/sentinel\<close> and \<open>internal/handoff\<close>, the files the engine's
    wrapper reads and the tracking of restarts.
  \<^item> \<open>Progress\<close>, \<open>Lifecycle\<close>: \<open>internal/progress\<close> and the state machine of \<open>internal/lifecycle\<close>.
  \<^item> \<open>Fetch\<close>, \<open>FetchTrace\<close>: \<open>internal/fetch\<close>, the resumable downloader, and what others see of the
    partial file while it works; \<open>Hub\<close>, \<open>HfRun\<close>: \<open>internal/adapter/hfwrap\<close>, listings
    and cache layout, and the bridge to the \<open>hf\<close> command; \<open>Verify\<close>: \<open>internal/verify\<close> with the reuse and
    drift decisions of \<open>internal/lifecycle\<close>; \<open>Budget\<close>, \<open>Ensure\<close>: \<open>download_budget.go\<close>, \<open>ensure.go\<close> and
    \<open>sidecar.go\<close>; \<open>Passes\<close>, \<open>Boot\<close>: what every pass does, and whole passes on a disk with a history.
  \<^item> \<open>Anthropic\<close>: \<open>internal/anthropic\<close>; \<open>ProxyMessages\<close>: \<open>internal/adapter/proxy/messages.go\<close>;
    \<open>OllamaMessages\<close>, \<open>OllamaChat\<close>: the translations of \<open>internal/adapter/ollama\<close>; \<open>Messages\<close>: what the two
    Messages adapters have in common and what a client reads from them. \<open>ProxyForward\<close>: \<open>rewrite.go\<close>,
    \<open>paramcheck.go\<close> and the forwarding of \<open>adapter.go\<close> in \<open>internal/adapter/proxy\<close>.

  \<^bold>\<open>How state and operations correspond.\<close> A struct is a record with the source's field names behind a
  short prefix; a method is a function from the state to the state, with what it reads from outside as
  arguments. A mutex section is one step. Where goroutines interleave (admission handlers, restart
  observers, subscribers, probes and signals of the lifecycle) the steps form an inductive relation or
  a list of events. File operations return every file system another process can observe meanwhile.
  A Go \<open>(value, error)\<close> pair is a sum or an option, a panic is the type \<open>go_panic\<close>. Integers wrap at 64
  bits where the source's do. An ensure pass is a computation in a state and exception monad over the
  manager, the disk and the calls made so far.

  \<^bold>\<open>Lemma groups.\<close> Each theory proves an invariant or a closed form of its operations first and its
  properties from them.
  \<^item> \<open>atomic_write\<close> (\<open>AtomicFile\<close>) is the contract of a writer, interpreted for the handoff files
    (\<open>hand\<close>), the sentinel (\<open>sent\<close>), the progress snapshot (\<open>prog\<close>), the download records (\<open>vrec\<close>)
    and the model card (\<open>card\<close>).
  \<^item> \<open>store_reach\<close> (\<open>Store\<close>) runs edits, restarts and recorded capacities in any order; \<open>all_agree\<close>,
    \<open>settled_reach\<close> and the boot of \<open>ModelCard\<close> give that a restart finds what was served.
  \<^item> \<open>contract\<close>, \<open>fetch_contract\<close> and \<open>ensure_contract\<close> (\<open>Passes\<close>) state what every part of a pass keeps,
    over the rules collected in \<open>wp\<close>; their interpretations give error reporting, the order of
    phases, offline boots and the history of a record. The downloader enters a pass as the locale
    \<open>transfer_service\<close>, interpreted on \<open>Fetch\<close> with the observations of \<open>FetchTrace\<close>.
  \<^item> Streams are related to the abstract answer they carry (\<open>proxy_stream_delivers\<close>,
    \<open>chat_stream_delivers\<close>); admission to the size of the pool by an invariant over all interleavings.

  \<^bold>\<open>Parameters.\<close> Third-party code and the outside world are arguments: HTTP answers, the clock, the
  operating system's faults (\<open>io_plan\<close>), the lines of the \<open>hf\<close> command, SHA-256, the texts of times and
  of library errors, Go's \<open>%q\<close>, float64 (a record of operations, or the literal of a value), the
  Prometheus parser, \<open>net/url\<close>. What a theorem needs of one is a hypothesis of it, met in its witness.

  \<^bold>\<open>Fuel and bounds.\<close> Loops are structural recursion over the data they consume, or recursion with a
  termination proof. The retry loops run over the list of what each attempt meets, so their length is
  the number of attempts; the listing follows at most the hundred pages the code follows; the regular
  expressions are matched by recursion on the expression and the text, no fuel is involved.

  \<^bold>\<open>Not modelled.\<close> The HTTP servers, routing and rendering (the rest of the control plane, data plane mount, dashboard),
  the transport behind the reverse proxy, the daemon's client, the translate capability, logging, metrics and diagnostics,
  and the program's assembly in \<open>main.go\<close>: they move the values the modelled parts compute, and their
  behaviour is that of \<open>net/http\<close> and other packages not under \<open>src/\<close>. Of the configuration, the fields
  without a grammar of their own. Logs and counters are left out of the modelled functions.
\<close>

end
